(* ===== verification/Prelude.thy ===== *)
theory Prelude
  imports Main "HOL-Library.Word"
begin

text \<open>
  Shared vocabulary of the development: the machine integers and byte strings of the Rust
  sources, the outcome of a Rust computation (a value, an error returned through \<open>Result\<close>, or
  a panic), arithmetic under Cargo's two build profiles, and the byte encodings of
  \<open>u32\<close> and \<open>u64\<close> with their round-trip lemmas.
\<close>

unbundle bit_operations_syntax

section \<open>Machine integers and byte strings\<close>

type_synonym u8 = "8 word"
type_synonym u16 = "16 word"
type_synonym u32 = "32 word"
type_synonym u64 = "64 word"
type_synonym bytes = "u8 list"

section \<open>Outcomes of a Rust computation\<close>

text \<open>
  A fallible Rust function returns \<open>Ok\<close> or \<open>Err\<close>; \<open>Panic\<close> stands for every way a Rust
  function can abort: an out-of-range slice or index, a failed assertion, an
  \<open>unwrap\<close>/\<open>expect\<close> of the wrong variant, or an arithmetic overflow when overflow checks are on.
\<close>

datatype ('e, 'a) outcome = Ok 'a | Err 'e | Panic

text \<open>Sequencing of fallible computations: Rust's \<open>?\<close> operator.\<close>

fun and_then :: "('e, 'a) outcome \<Rightarrow> ('a \<Rightarrow> ('e, 'b) outcome) \<Rightarrow> ('e, 'b) outcome" where
  "and_then (Ok x) f = f x"
| "and_then (Err e) f = Err e"
| "and_then Panic f = Panic"

text \<open>Rust's \<open>map_err\<close> and the implicit \<open>From\<close> conversion of errors at a \<open>?\<close>.\<close>

fun map_err :: "('e \<Rightarrow> 'f) \<Rightarrow> ('e, 'a) outcome \<Rightarrow> ('f, 'a) outcome" where
  "map_err f (Ok x) = Ok x"
| "map_err f (Err e) = Err (f e)"
| "map_err f Panic = Panic"

text \<open>\<open>Result::expect\<close> and \<open>Result::unwrap\<close>: an error becomes a panic.\<close>

fun expect :: "('e, 'a) outcome \<Rightarrow> ('f, 'a) outcome" where
  "expect (Ok x) = Ok x"
| "expect (Err e) = Panic"
| "expect Panic = Panic"

text \<open>\<open>assert!\<close>.\<close>

definition assert_that :: "bool \<Rightarrow> ('e, unit) outcome" where
  "assert_that b = (if b then Ok () else Panic)"

text \<open>Indexing a slice or a vector.\<close>

definition index_at :: "'a list \<Rightarrow> nat \<Rightarrow> ('e, 'a) outcome" where
  "index_at xs i = (if i < length xs then Ok (xs ! i) else Panic)"

text \<open>The half-open slice \<open>&xs[a..b]\<close>.\<close>

definition slice_of :: "'a list \<Rightarrow> nat \<Rightarrow> nat \<Rightarrow> ('e, 'a list) outcome" where
  "slice_of xs a b = (if a \<le> b \<and> b \<le> length xs then Ok (take (b - a) (drop a xs)) else Panic)"

lemma and_then_Ok_iff:
  "and_then r f = Ok y \<longleftrightarrow> (\<exists>x. r = Ok x \<and> f x = Ok y)"
  by (cases r) auto

lemma and_then_Panic_iff:
  "and_then r f = Panic \<longleftrightarrow> r = Panic \<or> (\<exists>x. r = Ok x \<and> f x = Panic)"
  by (cases r) auto

lemma and_then_Err_iff:
  "and_then r f = Err e \<longleftrightarrow> r = Err e \<or> (\<exists>x. r = Ok x \<and> f x = Err e)"
  by (cases r) auto

lemma and_then_assoc: "and_then (and_then r f) g = and_then r (\<lambda>x. and_then (f x) g)"
  by (cases r) auto

lemma and_then_cong [fundef_cong]:
  "r = r' \<Longrightarrow> (\<And>x. r' = Ok x \<Longrightarrow> f x = f' x) \<Longrightarrow> and_then r f = and_then r' f'"
  by (cases r') auto

lemma map_err_Ok_iff [simp]: "map_err f r = Ok x \<longleftrightarrow> r = Ok x"
  by (cases r) auto

lemma map_err_Panic_iff [simp]: "map_err f r = Panic \<longleftrightarrow> r = Panic"
  by (cases r) auto

lemma expect_Ok_iff [simp]: "expect r = Ok x \<longleftrightarrow> r = Ok x"
  by (cases r) auto

lemma assert_that_simps [simp]:
  "assert_that True = Ok ()" "assert_that False = Panic"
  "assert_that b = Ok u \<longleftrightarrow> b" "assert_that b = Panic \<longleftrightarrow> \<not> b" "assert_that b \<noteq> Err e"
  by (auto simp: assert_that_def)

lemma index_at_in [simp]: "i < length xs \<Longrightarrow> index_at xs i = Ok (xs ! i)"
  by (simp add: index_at_def)

lemma slice_of_mid [simp]:
  "slice_of (xs @ ys @ zs) (length xs) (length xs + length ys) = Ok ys"
  by (simp add: slice_of_def)

section \<open>Arithmetic under the two build profiles\<close>

text \<open>
  \<^verbatim>\<open>cargo build\<close> compiles with overflow checks and \<open>debug_assert!\<close> on (\<open>Debug\<close>),
  \<^verbatim>\<open>cargo build --release\<close> with both off (\<open>Release\<close>; \<^verbatim>\<open>Cargo.toml\<close> does not override it),
  where integer arithmetic wraps around. \<open>usize\<close> is a 64-bit quantity, kept as a \<open>nat\<close>.
\<close>

datatype profile = Debug | Release

definition usize_modulus :: nat where
  "usize_modulus = 2 ^ 64"

definition sub_usize :: "profile \<Rightarrow> nat \<Rightarrow> nat \<Rightarrow> ('e, nat) outcome" where
  "sub_usize p a b =
     (if b \<le> a then Ok (a - b)
      else case p of Debug \<Rightarrow> Panic | Release \<Rightarrow> Ok (usize_modulus + a - b))"

definition add_word :: "profile \<Rightarrow> 'w::len word \<Rightarrow> 'w word \<Rightarrow> ('e, 'w word) outcome" where
  "add_word p a b =
     (if unat a + unat b < 2 ^ LENGTH('w) then Ok (a + b)
      else case p of Debug \<Rightarrow> Panic | Release \<Rightarrow> Ok (a + b))"

definition sub_word :: "profile \<Rightarrow> 'w::len word \<Rightarrow> 'w word \<Rightarrow> ('e, 'w word) outcome" where
  "sub_word p a b =
     (if b \<le> a then Ok (a - b) else case p of Debug \<Rightarrow> Panic | Release \<Rightarrow> Ok (a - b))"

definition debug_assert :: "profile \<Rightarrow> bool \<Rightarrow> ('e, unit) outcome" where
  "debug_assert p b = (if p = Debug \<and> \<not> b then Panic else Ok ())"

definition saturating_add :: "'w::len word \<Rightarrow> 'w word \<Rightarrow> 'w word" where
  "saturating_add a b = (if unat a + unat b < 2 ^ LENGTH('w) then a + b else - 1)"

lemma sub_usize_in [simp]: "b \<le> a \<Longrightarrow> sub_usize p a b = Ok (a - b)"
  by (simp add: sub_usize_def)

lemma add_word_in [simp]:
  "unat a + unat b < 2 ^ LENGTH('w) \<Longrightarrow> add_word p a (b :: 'w::len word) = Ok (a + b)"
  by (simp add: add_word_def)

lemma sub_word_in [simp]: "b \<le> a \<Longrightarrow> sub_word p a b = Ok (a - b)"
  by (simp add: sub_word_def)

lemma add_word_Release: "add_word Release a b = Ok (a + b)"
  by (simp add: add_word_def)

lemma sub_word_Release: "sub_word Release a b = Ok (a - b)"
  by (simp add: sub_word_def)

lemma debug_assert_simps [simp]:
  "debug_assert p True = Ok ()" "debug_assert Release b = Ok ()"
  "b \<Longrightarrow> debug_assert p b = Ok ()"
  by (auto simp: debug_assert_def)

lemma saturating_add_ge: "(a :: 'w::len word) \<le> saturating_add a b"
  by (auto simp: saturating_add_def word_le_nat_alt unat_word_ariths)
    (metis word_le_nat_alt word_order.extremum)

section \<open>Byte encodings of words\<close>

text \<open>
  \<open>to_le_bytes\<close>, \<open>from_le_bytes\<close> and their big-endian counterparts of Rust's \<open>u32\<close> and
  \<open>u64\<close>, for any width: \<open>to_le n w\<close> lists the \<open>n\<close> least significant bytes of \<open>w\<close>, least
  significant first.
\<close>

primrec to_le :: "nat \<Rightarrow> 'w::len word \<Rightarrow> bytes" where
  "to_le 0 w = []"
| "to_le (Suc n) w = ucast w # to_le n (drop_bit 8 w)"

primrec from_le :: "bytes \<Rightarrow> 'w::len word" where
  "from_le [] = 0"
| "from_le (b # bs) = ucast b OR push_bit 8 (from_le bs)"

definition u32_to_le_bytes :: "u32 \<Rightarrow> bytes" where
  "u32_to_le_bytes w = to_le 4 w"

definition u32_from_le_bytes :: "bytes \<Rightarrow> u32" where
  "u32_from_le_bytes bs = from_le bs"

definition u64_to_le_bytes :: "u64 \<Rightarrow> bytes" where
  "u64_to_le_bytes w = to_le 8 w"

definition u64_from_le_bytes :: "bytes \<Rightarrow> u64" where
  "u64_from_le_bytes bs = from_le bs"

definition u32_to_be_bytes :: "u32 \<Rightarrow> bytes" where
  "u32_to_be_bytes w = rev (u32_to_le_bytes w)"

definition u32_from_be_bytes :: "bytes \<Rightarrow> u32" where
  "u32_from_be_bytes bs = u32_from_le_bytes (rev bs)"

definition u64_to_be_bytes :: "u64 \<Rightarrow> bytes" where
  "u64_to_be_bytes w = rev (u64_to_le_bytes w)"

definition u64_from_be_bytes :: "bytes \<Rightarrow> u64" where
  "u64_from_be_bytes bs = u64_from_le_bytes (rev bs)"

lemma length_to_le [simp]: "length (to_le n w) = n"
  by (induction n arbitrary: w) auto

lemma from_le_to_le: "(from_le (to_le n w) :: 'w::len word) = take_bit (8 * n) (w :: 'w word)"
proof (induction n arbitrary: w)
  case (Suc n)
  show ?case
  proof (rule bit_word_eqI)
    fix k assume "k < LENGTH('w)"
    then show "bit (from_le (to_le (Suc n) w) :: 'w word) k = bit (take_bit (8 * Suc n) w) k"
      by (cases "k < 8") (auto simp: Suc bit_simps)
  qed
qed simp

lemma bit_from_le_bound: "bit (from_le bs :: 'w::len word) k \<Longrightarrow> k < 8 * length bs"
proof (induction bs arbitrary: k)
  case (Cons b bs)
  then have "k < 8 \<or> 8 \<le> k \<and> bit (from_le bs :: 'w word) (k - 8)"
    by (auto simp: bit_simps dest: bit_imp_le_length)
  then show ?case using Cons.IH [of "k - 8"] by auto
qed simp

lemma drop_bit_from_le:
  assumes "8 * Suc (length bs) \<le> LENGTH('w)"
  shows "drop_bit 8 (from_le (b # bs) :: 'w::len word) = from_le bs"
proof (rule bit_word_eqI)
  fix k
  show "bit (drop_bit 8 (from_le (b # bs) :: 'w word)) k = bit (from_le bs :: 'w word) k"
    using assms by (auto simp: bit_simps dest: bit_from_le_bound bit_imp_le_length)
qed

lemma ucast_from_le:
  "8 \<le> LENGTH('w) \<Longrightarrow> (ucast (from_le (b # bs) :: 'w::len word) :: u8) = b"
  by (rule bit_word_eqI) (auto simp: bit_simps)

lemma to_le_from_le:
  "8 * length bs \<le> LENGTH('w) \<Longrightarrow> to_le (length bs) (from_le bs :: 'w::len word) = bs"
  by (induction bs) (auto simp: ucast_from_le drop_bit_from_le simp del: from_le.simps)

lemma length_word_bytes [simp]:
  "length (u32_to_le_bytes w) = 4" "length (u64_to_le_bytes v) = 8"
  "length (u32_to_be_bytes w) = 4" "length (u64_to_be_bytes v) = 8"
  by (simp_all add: u32_to_le_bytes_def u64_to_le_bytes_def u32_to_be_bytes_def u64_to_be_bytes_def)

lemma word_bytes_inverse [simp]:
  "u32_from_le_bytes (u32_to_le_bytes w) = w" "u64_from_le_bytes (u64_to_le_bytes v) = v"
  "u32_from_be_bytes (u32_to_be_bytes w) = w" "u64_from_be_bytes (u64_to_be_bytes v) = v"
  by (simp_all add: u32_to_le_bytes_def u32_from_le_bytes_def u64_to_le_bytes_def
      u64_from_le_bytes_def u32_to_be_bytes_def u32_from_be_bytes_def u64_to_be_bytes_def
      u64_from_be_bytes_def from_le_to_le take_bit_word_eq_self)

lemma bytes_word_inverse:
  "length bs = 4 \<Longrightarrow> u32_to_le_bytes (u32_from_le_bytes bs) = bs"
  "length cs = 8 \<Longrightarrow> u64_to_le_bytes (u64_from_le_bytes cs) = cs"
  "length bs = 4 \<Longrightarrow> u32_to_be_bytes (u32_from_be_bytes bs) = bs"
  "length cs = 8 \<Longrightarrow> u64_to_be_bytes (u64_from_be_bytes cs) = cs"
  using to_le_from_le [of bs, where 'w = 32] to_le_from_le [of cs, where 'w = 64]
    to_le_from_le [of "rev bs", where 'w = 32] to_le_from_le [of "rev cs", where 'w = 64]
  by (simp_all add: u32_to_le_bytes_def u32_from_le_bytes_def u64_to_le_bytes_def
      u64_from_le_bytes_def u32_to_be_bytes_def u32_from_be_bytes_def u64_to_be_bytes_def
      u64_from_be_bytes_def)

lemma u32_to_le_bytes_inject [simp]: "u32_to_le_bytes a = u32_to_le_bytes b \<longleftrightarrow> a = b"
  by (metis word_bytes_inverse(1))

lemma u32_to_be_bytes_inject [simp]: "u32_to_be_bytes a = u32_to_be_bytes b \<longleftrightarrow> a = b"
  by (metis word_bytes_inverse(3))

lemma unat_of_nat_u32 [simp]: "n < 2 ^ 32 \<Longrightarrow> unat (of_nat n :: u32) = n"
  by (simp add: unat_of_nat)

end
