(* ===== verification/Cursor.thy ===== *)
theory Cursor
  imports Prelude
begin

text \<open>
  The error type of the protocol crate (\<^verbatim>\<open>error.rs\<close>) and its \<open>ParseCursor\<close>
  (\<^verbatim>\<open>cursor.rs\<close>): a mutable byte buffer with a read/write position, every read and write
  both in the panicking and in the checked (\<open>try_\<close>) form. A computation on a cursor has the
  type \<open>'a cursor_op\<close>; a caller that sees \<open>Err\<close> drops the cursor, so the error outcome carries
  none. The second half is the calculus the later proofs use: \<open>reads\<close> and \<open>writes\<close> describe
  what an operation does at a position of a buffer, \<open>safe\<close> says it never panics.
\<close>

section \<open>Errors\<close>

datatype error =
    BadRequestSize nat
  | BufferTooSmall nat nat
  | InvalidTag u32
  | InvalidVersion u32
  | InvalidMessageType u32
  | MismatchedNumTags u32 u32
  | InvalidRequestNumTags u32 string
  | UnexpectedMagic u64
  | UnexpectedFraming nat
  | UnexpectedTags
  | UnorderedTag u32 u32
  | UnexpectedOffsets
  | UnorderedOffset u32 u32
  | UnalignedOffset u32 u32
  | OutOfBoundsOffset u32 u32
  | UnorderedVersion u32 u32
  | NoSupportedVersions
  | InvalidPathLength u32
  | WrongTagSize nat nat
  | IoError string

section \<open>The cursor\<close>

record parse_cursor =
  cur_data :: bytes
  cur_position :: nat

type_synonym 'a cursor_op = "parse_cursor \<Rightarrow> (error, 'a \<times> parse_cursor) outcome"

definition ret :: "'a \<Rightarrow> 'a cursor_op" where
  "ret x c = Ok (x, c)"

definition fail :: "error \<Rightarrow> 'a cursor_op" where
  "fail e c = Err e"

definition bind :: "'a cursor_op \<Rightarrow> ('a \<Rightarrow> 'b cursor_op) \<Rightarrow> 'b cursor_op" where
  "bind m f c = and_then (m c) (\<lambda>(x, c'). f x c')"

text \<open>A computation that does not touch the cursor, and one that only inspects it.\<close>

definition lift :: "(error, 'a) outcome \<Rightarrow> 'a cursor_op" where
  "lift r c = and_then r (\<lambda>x. Ok (x, c))"

definition asks :: "(parse_cursor \<Rightarrow> 'a) \<Rightarrow> 'a cursor_op" where
  "asks f c = Ok (f c, c)"

definition cursor_new :: "bytes \<Rightarrow> parse_cursor" where
  "cursor_new bs = \<lparr>cur_data = bs, cur_position = 0\<rparr>"

definition remaining :: "parse_cursor \<Rightarrow> nat" where
  "remaining c = length (cur_data c) - cur_position c"

definition has_remaining :: "parse_cursor \<Rightarrow> bool" where
  "has_remaining c \<longleftrightarrow> cur_position c < length (cur_data c)"

definition capacity :: "parse_cursor \<Rightarrow> nat" where
  "capacity c = length (cur_data c)"

text \<open>
  \<open>&self.data[self.position..self.position + n]\<close> followed by \<open>self.position += n\<close>: the slice
  panics when it does not fit.
\<close>

definition take_slice :: "nat \<Rightarrow> bytes cursor_op" where
  "take_slice n c =
     (if cur_position c + n \<le> length (cur_data c)
      then Ok (take n (drop (cur_position c) (cur_data c)),
               c\<lparr>cur_position := cur_position c + n\<rparr>)
      else Panic)"

text \<open>
  \<open>self.data[self.position..self.position + src.len()].copy_from_slice(src)\<close> followed by
  \<open>self.position += src.len()\<close>.
\<close>

definition put_slice :: "bytes \<Rightarrow> unit cursor_op" where
  "put_slice src c =
     (if cur_position c + length src \<le> length (cur_data c)
      then Ok ((), c\<lparr>cur_data := take (cur_position c) (cur_data c) @ src
                        @ drop (cur_position c + length src) (cur_data c),
                     cur_position := cur_position c + length src\<rparr>)
      else Panic)"

text \<open>The guard every \<open>try_\<close> method starts with.\<close>

definition need :: "nat \<Rightarrow> unit cursor_op" where
  "need n c = (if remaining c < n then Err (BufferTooSmall n (remaining c)) else Ok ((), c))"

definition get_u32_le :: "u32 cursor_op" where
  "get_u32_le = bind (take_slice 4) (\<lambda>bs. ret (u32_from_le_bytes bs))"

definition try_get_u32_le :: "u32 cursor_op" where
  "try_get_u32_le = bind (need 4) (\<lambda>_. get_u32_le)"

definition get_u32 :: "u32 cursor_op" where
  "get_u32 = bind (take_slice 4) (\<lambda>bs. ret (u32_from_be_bytes bs))"

definition try_get_u32 :: "u32 cursor_op" where
  "try_get_u32 = bind (need 4) (\<lambda>_. get_u32)"

definition get_u64_le :: "u64 cursor_op" where
  "get_u64_le = bind (take_slice 8) (\<lambda>bs. ret (u64_from_le_bytes bs))"

definition try_get_u64_le :: "u64 cursor_op" where
  "try_get_u64_le = bind (need 8) (\<lambda>_. get_u64_le)"

definition get_u64 :: "u64 cursor_op" where
  "get_u64 = bind (take_slice 8) (\<lambda>bs. ret (u64_from_be_bytes bs))"

definition try_get_u64 :: "u64 cursor_op" where
  "try_get_u64 = bind (need 8) (\<lambda>_. get_u64)"

text \<open>\<open>copy_to_slice\<close> fills a destination of the given length; the model returns its contents.\<close>

definition copy_to_slice :: "nat \<Rightarrow> bytes cursor_op" where
  "copy_to_slice n = take_slice n"

definition try_copy_to_slice :: "nat \<Rightarrow> bytes cursor_op" where
  "try_copy_to_slice n = bind (need n) (\<lambda>_. copy_to_slice n)"

definition get_fixed :: "nat \<Rightarrow> bytes cursor_op" where
  "get_fixed n = take_slice n"

definition try_get_fixed :: "nat \<Rightarrow> bytes cursor_op" where
  "try_get_fixed n = bind (need n) (\<lambda>_. get_fixed n)"

definition put_fixed :: "bytes \<Rightarrow> unit cursor_op" where
  "put_fixed bs = put_slice bs"

definition try_put_fixed :: "bytes \<Rightarrow> unit cursor_op" where
  "try_put_fixed bs = bind (need (length bs)) (\<lambda>_. put_fixed bs)"

definition try_put_slice :: "bytes \<Rightarrow> unit cursor_op" where
  "try_put_slice src = bind (need (length src)) (\<lambda>_. put_slice src)"

definition peek :: "parse_cursor \<Rightarrow> (error, bytes) outcome" where
  "peek c = slice_of (cur_data c) (cur_position c) (length (cur_data c))"

definition put_u32_le :: "u32 \<Rightarrow> unit cursor_op" where
  "put_u32_le w = put_slice (u32_to_le_bytes w)"

definition try_put_u32_le :: "u32 \<Rightarrow> unit cursor_op" where
  "try_put_u32_le w = bind (need 4) (\<lambda>_. put_u32_le w)"

definition put_u64_le :: "u64 \<Rightarrow> unit cursor_op" where
  "put_u64_le w = put_slice (u64_to_le_bytes w)"

definition put_u64 :: "u64 \<Rightarrow> unit cursor_op" where
  "put_u64 w = put_slice (u64_to_be_bytes w)"

definition try_put_u64_le :: "u64 \<Rightarrow> unit cursor_op" where
  "try_put_u64_le w = bind (need 8) (\<lambda>_. put_u64_le w)"

definition try_put_u64 :: "u64 \<Rightarrow> unit cursor_op" where
  "try_put_u64 w = bind (need 8) (\<lambda>_. put_u64 w)"

definition advance :: "nat \<Rightarrow> unit cursor_op" where
  "advance n = bind (need n) (\<lambda>_ c. Ok ((), c\<lparr>cur_position := cur_position c + n\<rparr>))"

definition cursor_reset :: "unit cursor_op" where
  "cursor_reset c = Ok ((), c\<lparr>cur_position := 0\<rparr>)"

definition get_position :: "nat cursor_op" where
  "get_position = asks cur_position"

definition set_position :: "nat \<Rightarrow> unit cursor_op" where
  "set_position pos c = Ok ((), c\<lparr>cur_position := pos\<rparr>)"

text \<open>A \<open>for\<close> loop that writes its elements one after the other.\<close>

primrec for_each :: "('a \<Rightarrow> unit cursor_op) \<Rightarrow> 'a list \<Rightarrow> unit cursor_op" where
  "for_each f [] = ret ()"
| "for_each f (x # xs) = bind (f x) (\<lambda>_. for_each f xs)"

lemmas cursor_try_defs =
  try_get_u32_le_def try_get_u32_def try_get_u64_le_def try_get_u64_def try_copy_to_slice_def
  try_get_fixed_def try_put_fixed_def try_put_slice_def try_put_u32_le_def try_put_u64_le_def
  try_put_u64_def

lemmas cursor_raw_defs =
  get_u32_le_def get_u32_def get_u64_le_def get_u64_def copy_to_slice_def get_fixed_def
  put_fixed_def put_u32_le_def put_u64_le_def put_u64_def

section \<open>What an operation reads and writes\<close>

text \<open>The cursor at the end of \<open>pre\<close> in the buffer \<open>pre @ rest\<close>.\<close>

definition cursor_at :: "bytes \<Rightarrow> bytes \<Rightarrow> parse_cursor" where
  "cursor_at pre rest = \<lparr>cur_data = pre @ rest, cur_position = length pre\<rparr>"

text \<open>
  \<open>reads p pre bs suf v\<close>: standing between \<open>pre\<close> and \<open>bs @ suf\<close>, the operation \<open>p\<close> consumes
  exactly \<open>bs\<close> and returns \<open>v\<close>. \<open>writes w bs\<close>: wherever at least \<open>length bs\<close> bytes remain,
  \<open>w\<close> overwrites them with \<open>bs\<close> and nothing else.
\<close>

definition reads :: "'a cursor_op \<Rightarrow> bytes \<Rightarrow> bytes \<Rightarrow> bytes \<Rightarrow> 'a \<Rightarrow> bool" where
  "reads p pre bs suf v \<longleftrightarrow> p (cursor_at pre (bs @ suf)) = Ok (v, cursor_at (pre @ bs) suf)"

definition writes :: "unit cursor_op \<Rightarrow> bytes \<Rightarrow> bool" where
  "writes w bs \<longleftrightarrow>
     (\<forall>pre old suf. length old = length bs \<longrightarrow>
        w (cursor_at pre (old @ suf)) = Ok ((), cursor_at (pre @ bs) suf))"

named_theorems reads_intro \<open>introduction rules for reads\<close>
named_theorems writes_intro \<open>introduction rules for writes\<close>
named_theorems safe_intro \<open>introduction rules for safe\<close>

lemma cursor_at_simps [simp]:
  "cur_data (cursor_at pre rest) = pre @ rest"
  "cur_position (cursor_at pre rest) = length pre"
  "remaining (cursor_at pre rest) = length rest"
  "capacity (cursor_at pre rest) = length pre + length rest"
  by (simp_all add: cursor_at_def remaining_def capacity_def)

lemma cursor_new_at: "cursor_new bs = cursor_at [] bs"
  by (simp add: cursor_new_def cursor_at_def)

lemma bind_at: "m c = Ok (x, c') \<Longrightarrow> bind m f c = f x c'"
  by (simp add: bind_def)

lemma readsD: "reads p pre bs suf v \<Longrightarrow> p (cursor_at pre (bs @ suf)) = Ok (v, cursor_at (pre @ bs) suf)"
  by (simp add: reads_def)

lemma writesD:
  "writes w bs \<Longrightarrow> length old = length bs \<Longrightarrow>
     w (cursor_at pre (old @ suf)) = Ok ((), cursor_at (pre @ bs) suf)"
  by (simp add: writes_def)

lemma reads_endD: "reads p pre bs [] v \<Longrightarrow> \<exists>c'. p (cursor_at pre bs) = Ok (v, c')"
  by (auto simp: reads_def)

lemma reads_ret: "reads (ret v) pre [] suf v"
  by (simp add: reads_def ret_def)

lemma reads_lift: "r = Ok v \<Longrightarrow> reads (lift r) pre [] suf v"
  by (simp add: reads_def lift_def)

lemma reads_asks: "v = f (cursor_at pre suf) \<Longrightarrow> reads (asks f) pre [] suf v"
  by (simp add: reads_def asks_def)

lemma reads_bind:
  assumes "reads m pre bs (cs @ suf) x" and "reads (f x) (pre @ bs) cs suf y"
  shows "reads (bind m f) pre (bs @ cs) suf y"
  using assms by (simp add: reads_def bind_def)

text \<open>The two common special cases: a step that consumes nothing, and the last step.\<close>

lemma reads_bind0:
  assumes "reads m pre [] (cs @ suf) x" and "reads (f x) pre cs suf y"
  shows "reads (bind m f) pre cs suf y"
  using reads_bind [of m pre "[]" cs suf x f y] assms by simp

lemma reads_bind_last:
  assumes "reads m pre bs suf x" and "reads (f x) (pre @ bs) [] suf y"
  shows "reads (bind m f) pre bs suf y"
  using reads_bind [of m pre bs "[]" suf x f y] assms by simp

lemma reads_take_slice: "length bs = n \<Longrightarrow> reads (take_slice n) pre bs suf bs"
  by (auto simp: reads_def take_slice_def cursor_at_def)

lemma reads_need: "n \<le> length suf \<Longrightarrow> reads (need n) pre [] suf ()"
  by (simp add: reads_def need_def)

lemma reads_guarded:
  "length bs = n \<Longrightarrow> reads p pre bs suf v \<Longrightarrow> reads (bind (need n) (\<lambda>_. p)) pre bs suf v"
  by (auto intro!: reads_bind0 reads_need)

lemma reads_get_fixed [reads_intro]:
  "length bs = n \<Longrightarrow> reads (try_get_fixed n) pre bs suf bs"
  "length bs = n \<Longrightarrow> reads (try_copy_to_slice n) pre bs suf bs"
  unfolding cursor_try_defs cursor_raw_defs
  by (auto intro: reads_guarded reads_take_slice)

lemma reads_ints [reads_intro]:
  "reads try_get_u32_le pre (u32_to_le_bytes w) suf w"
  "reads try_get_u32 pre (u32_to_be_bytes w) suf w"
  "reads try_get_u64_le pre (u64_to_le_bytes v) suf v"
  "reads try_get_u64 pre (u64_to_be_bytes v) suf v"
  unfolding cursor_try_defs cursor_raw_defs
  by (rule reads_guarded, simp, rule reads_bind_last, rule reads_take_slice, simp,
      simp add: reads_def ret_def)+

text \<open>
  The same facts as rewrite rules, for executing an operation symbolically by \<open>simp\<close>: each step
  rewrites \<open>bind m f\<close> at a cursor to the continuation at the cursor behind the bytes read.
\<close>

named_theorems cursor_run \<open>symbolic execution of cursor operations\<close>

lemma reads_run:
  "reads m pre bs suf x \<Longrightarrow> bind m f (cursor_at pre (bs @ suf)) = f x (cursor_at (pre @ bs) suf)"
  by (simp add: reads_def bind_def)

lemma reads_run_end:
  "reads m pre bs [] x \<Longrightarrow> bind m f (cursor_at pre bs) = f x (cursor_at (pre @ bs) [])"
  using reads_run [of m pre bs "[]"] by simp

lemma run_pure [cursor_run]:
  "bind (ret x) f c = f x c" "bind (asks g) f' c = f' (g c) c" "bind (fail e) f'' c = Err e"
  "r = Ok x \<Longrightarrow> bind (lift r) f c = f x c" "ret x c = Ok (x, c)" "fail e c = Err e"
  "bind (lift Panic) f c = Panic" "bind (lift (Err e)) f c = Err e"
  "bind (bind m h) k c = bind m (\<lambda>y. bind (h y) k) c"
  by (simp_all add: bind_def ret_def asks_def fail_def lift_def and_then_assoc split_def)

lemmas run_ints [cursor_run] =
  reads_ints [THEN reads_run] reads_ints [THEN reads_run_end]

lemmas run_fixed [cursor_run] =
  reads_get_fixed [THEN reads_run] reads_get_fixed [THEN reads_run_end]

lemma writes_put_slice [writes_intro]: "writes (put_slice bs) bs"
  by (auto simp: writes_def put_slice_def cursor_at_def)

lemma writes_ret: "writes (ret ()) []"
  by (simp add: writes_def ret_def)

lemma writes_guarded: "length bs = n \<Longrightarrow> writes w bs \<Longrightarrow> writes (bind (need n) (\<lambda>_. w)) bs"
  by (auto simp: writes_def bind_def need_def)

lemma writes_bind:
  assumes "writes w bs" and "writes v cs"
  shows "writes (bind w (\<lambda>_. v)) (bs @ cs)"
  unfolding writes_def
proof (intro allI impI)
  fix pre old suf :: bytes
  assume len: "length old = length (bs @ cs)"
  define o1 o2 where "o1 = take (length bs) old" and "o2 = drop (length bs) old"
  have old: "old = o1 @ o2" and l1: "length o1 = length bs" and l2: "length o2 = length cs"
    using len by (auto simp: o1_def o2_def)
  have "w (cursor_at pre (o1 @ o2 @ suf)) = Ok ((), cursor_at (pre @ bs) (o2 @ suf))"
    using assms(1) l1 by (rule writesD)
  moreover have "v (cursor_at (pre @ bs) (o2 @ suf)) = Ok ((), cursor_at ((pre @ bs) @ cs) suf)"
    using assms(2) l2 by (rule writesD)
  ultimately show "bind w (\<lambda>_. v) (cursor_at pre (old @ suf)) = Ok ((), cursor_at (pre @ bs @ cs) suf)"
    by (simp add: bind_def old)
qed

lemma writes_ints [writes_intro]:
  "writes (put_u32_le w) (u32_to_le_bytes w)"
  "writes (put_u64_le v) (u64_to_le_bytes v)"
  "writes (try_put_u32_le w) (u32_to_le_bytes w)"
  "writes (try_put_u64 v) (u64_to_be_bytes v)"
  "writes (try_put_fixed bs) bs"
  unfolding cursor_try_defs cursor_raw_defs
  by (auto intro!: writes_guarded writes_intro)

lemma writes_for_each:
  "(\<And>x. x \<in> set xs \<Longrightarrow> writes (f x) (g x)) \<Longrightarrow> writes (for_each f xs) (concat (map g xs))"
  by (induction xs) (auto intro: writes_ret writes_bind)

lemma length_concat_const:
  "(\<And>x. x \<in> set xs \<Longrightarrow> length (g x) = n) \<Longrightarrow> length (concat (map g xs)) = n * length xs"
  by (induction xs) auto

text \<open>A write into a buffer of exactly the right size produces the encoding.\<close>

lemma writes_new:
  assumes "writes w bs" and "length buf = length bs"
  shows "w (cursor_new buf) = Ok ((), cursor_at bs [])"
  using writesD [OF assms(1), of buf "[]" "[]"] assms(2) by (simp add: cursor_new_at)

section \<open>Panic freedom\<close>

definition wf_cursor :: "parse_cursor \<Rightarrow> bool" where
  "wf_cursor c \<longleftrightarrow> cur_position c \<le> length (cur_data c)"

text \<open>
  \<open>safe p\<close>: from any cursor whose position lies within its buffer, \<open>p\<close> does not panic, never
  moves backwards, and leaves the buffer alone (\<open>p\<close> is a parser).
\<close>

definition safe :: "'a cursor_op \<Rightarrow> bool" where
  "safe p \<longleftrightarrow>
     (\<forall>c. wf_cursor c \<longrightarrow> p c \<noteq> Panic \<and>
        (\<forall>x c'. p c = Ok (x, c') \<longrightarrow>
           wf_cursor c' \<and> cur_data c' = cur_data c \<and> cur_position c \<le> cur_position c'))"

lemma safeD:
  assumes "safe p" "wf_cursor c"
  shows "p c \<noteq> Panic"
    and "p c = Ok (x, c') \<Longrightarrow> wf_cursor c' \<and> cur_data c' = cur_data c \<and> cur_position c \<le> cur_position c'"
  using assms unfolding safe_def by blast+

lemma safe_ret [safe_intro]: "safe (ret x)"
  by (simp add: safe_def ret_def)

lemma safe_fail [safe_intro]: "safe (fail e)"
  by (simp add: safe_def fail_def)

lemma safe_asks [safe_intro]: "safe (asks f)"
  by (simp add: safe_def asks_def)

lemma safe_lift [safe_intro]: "r \<noteq> Panic \<Longrightarrow> safe (lift r)"
  by (cases r) (auto simp: safe_def lift_def)

lemma safe_if [safe_intro]: "(b \<Longrightarrow> safe p) \<Longrightarrow> (\<not> b \<Longrightarrow> safe q) \<Longrightarrow> safe (if b then p else q)"
  by simp

lemma safe_bind_Ok:
  assumes "safe m" and f: "\<And>c x c'. wf_cursor c \<Longrightarrow> m c = Ok (x, c') \<Longrightarrow> safe (f x)"
  shows "safe (bind m f)"
  unfolding safe_def
proof (intro allI impI conjI)
  fix c assume wf: "wf_cursor c"
  show "bind m f c \<noteq> Panic"
  proof
    assume "bind m f c = Panic"
    then obtain x c' where "m c = Ok (x, c')" "f x c' = Panic"
      using safeD(1) [OF assms(1) wf] by (auto simp: bind_def and_then_Panic_iff)
    with safeD [OF assms(1) wf] safeD(1) [OF f [OF wf]] show False by blast
  qed
next
  fix c y c'' assume wf: "wf_cursor c" and "bind m f c = Ok (y, c'')"
  then obtain x c' where m: "m c = Ok (x, c')" and fx: "f x c' = Ok (y, c'')"
    by (auto simp: bind_def and_then_Ok_iff)
  note c' = safeD(2) [OF assms(1) wf m]
  from c' safeD(2) [OF f [OF wf m] _ fx]
  show "wf_cursor c''" "cur_data c'' = cur_data c" "cur_position c \<le> cur_position c''"
    by auto
qed

lemma safe_bind [safe_intro]: "safe m \<Longrightarrow> (\<And>x. safe (f x)) \<Longrightarrow> safe (bind m f)"
  by (rule safe_bind_Ok)

lemma bind_lift_Ok: "bind (lift (Ok x)) f = f x"
  by (rule ext) (simp add: bind_def lift_def)

lemma safe_need [safe_intro]: "safe (need n)"
  by (auto simp: safe_def need_def)

lemma safe_guarded: "safe (bind (need n) (\<lambda>_. take_slice n))"
  by (auto simp: safe_def bind_def need_def take_slice_def wf_cursor_def remaining_def
      split: if_splits)

lemma safe_try_get [safe_intro]:
  "safe (try_get_fixed n)" "safe (try_copy_to_slice n)"
  using safe_guarded by (simp_all add: cursor_try_defs cursor_raw_defs)

lemma bind_assoc: "bind (bind m f) g = bind m (\<lambda>x. bind (f x) g)"
  by (rule ext) (auto simp: bind_def and_then_assoc intro!: arg_cong2 [where f = and_then])

lemma safe_guarded_map:
  "safe (bind (need n) (\<lambda>_. bind (take_slice n) (\<lambda>bs. ret (f bs))))"
  unfolding bind_assoc [symmetric] by (intro safe_bind safe_guarded safe_ret)

lemma safe_try_ints [safe_intro]:
  "safe try_get_u32_le" "safe try_get_u32" "safe try_get_u64_le" "safe try_get_u64"
  unfolding cursor_try_defs cursor_raw_defs by (rule safe_guarded_map)+

section \<open>What a successful read guarantees\<close>

text \<open>Every value the reader returns satisfies \<open>P\<close>, from any well-formed cursor, which stays well-formed.\<close>

definition yields :: "'a cursor_op \<Rightarrow> ('a \<Rightarrow> bool) \<Rightarrow> bool" where
  "yields m P \<longleftrightarrow> (\<forall>c x c'. wf_cursor c \<longrightarrow> m c = Ok (x, c') \<longrightarrow> wf_cursor c' \<and> P x)"

lemma yieldsD: "yields m P \<Longrightarrow> wf_cursor c \<Longrightarrow> m c = Ok (x, c') \<Longrightarrow> P x"
  by (auto simp: yields_def)

lemma safe_yields:
  assumes "safe m"
  shows "yields m (\<lambda>_. True)"
  unfolding yields_def
proof (intro allI impI conjI TrueI)
  fix c x c' assume "wf_cursor c" "m c = Ok (x, c')"
  from safeD(2) [OF assms this] show "wf_cursor c'" by (rule conjunct1)
qed

lemma yields_bind:
  assumes m: "yields m Q" and f: "\<And>x. Q x \<Longrightarrow> yields (f x) P"
  shows "yields (bind m f) P"
  unfolding yields_def
proof (intro allI impI)
  fix c y c' assume wf: "wf_cursor c" and ok: "bind m f c = Ok (y, c')"
  from ok obtain x c1 where x: "m c = Ok (x, c1)" "f x c1 = Ok (y, c')" by (auto simp: bind_def and_then_Ok_iff)
  from m wf x(1) have "wf_cursor c1" "Q x" unfolding yields_def by metis+
  with f [OF this(2)] x(2) show "wf_cursor c' \<and> P y" unfolding yields_def by metis
qed

lemma yields_basic:
  "P x \<Longrightarrow> yields (ret x) P" "yields (fail e) P" "yields (lift r) (\<lambda>_. True)"
  "(b \<Longrightarrow> yields m P) \<Longrightarrow> (\<not> b \<Longrightarrow> yields m' P) \<Longrightarrow> yields (if b then m else m') P"
  by (auto simp: yields_def ret_def fail_def lift_def and_then_Ok_iff)

section \<open>Successful reads, inverted\<close>

text \<open>
  The converse of \<open>reads\<close> for the checked readers: a successful read consumed exactly the
  encoding of its result.
\<close>

definition consumes :: "parse_cursor \<Rightarrow> bytes \<Rightarrow> parse_cursor \<Rightarrow> bool" where
  "consumes c bs c' \<longleftrightarrow>
     (\<exists>pre suf. c = cursor_at pre (bs @ suf) \<and> c' = cursor_at (pre @ bs) suf)"

lemma wf_cursor_at: "wf_cursor c \<longleftrightarrow> (\<exists>pre rest. c = cursor_at pre rest)"
proof
  assume "wf_cursor c"
  then have "c = cursor_at (take (cur_position c) (cur_data c)) (drop (cur_position c) (cur_data c))"
    by (auto simp: cursor_at_def wf_cursor_def)
  then show "\<exists>pre rest. c = cursor_at pre rest" by blast
qed (auto simp: wf_cursor_def)

lemma cursor_at_eq_iff:
  "cursor_at pre rest = cursor_at pre' rest' \<longleftrightarrow> pre = pre' \<and> rest = rest'"
  by (auto simp: cursor_at_def)

lemma consumes_trans: "consumes c bs c' \<Longrightarrow> consumes c' cs c'' \<Longrightarrow> consumes c (bs @ cs) c''"
  by (auto simp: consumes_def cursor_at_eq_iff)

lemma consumes_refl: "wf_cursor c \<Longrightarrow> consumes c [] c"
  by (auto simp: consumes_def wf_cursor_at)

lemma consumes_wf: "consumes c bs c' \<Longrightarrow> wf_cursor c \<and> wf_cursor c'"
  by (auto simp: consumes_def wf_cursor_at)

lemma take_slice_Ok:
  assumes "wf_cursor c" "take_slice n c = Ok (bs, c')"
  shows "consumes c bs c' \<and> length bs = n"
proof -
  from assms(1) obtain pre rest where c: "c = cursor_at pre rest" by (auto simp: wf_cursor_at)
  with assms(2) have n: "n \<le> length rest" and bs: "bs = take n rest"
    and c': "c' = cursor_at (pre @ take n rest) (drop n rest)"
    by (auto simp: take_slice_def cursor_at_def split: if_splits)
  then show ?thesis using c unfolding consumes_def
    by (metis append_take_drop_id length_take min.absorb2)
qed

lemma need_Ok: "need n c = Ok (u, c') \<Longrightarrow> c' = c"
  by (simp add: need_def split: if_splits)

lemma try_get_Ok:
  "wf_cursor c \<Longrightarrow> try_get_fixed n c = Ok (bs, c') \<Longrightarrow> consumes c bs c' \<and> length bs = n"
  "wf_cursor c \<Longrightarrow> try_copy_to_slice n c = Ok (bs, c') \<Longrightarrow> consumes c bs c' \<and> length bs = n"
  by (auto simp: cursor_try_defs cursor_raw_defs bind_def and_then_Ok_iff need_def
      dest: take_slice_Ok split: if_splits)

lemma try_ints_Ok:
  "wf_cursor c \<Longrightarrow> try_get_u32_le c = Ok (w, c') \<Longrightarrow> consumes c (u32_to_le_bytes w) c'"
  "wf_cursor c \<Longrightarrow> try_get_u32 c = Ok (w, c') \<Longrightarrow> consumes c (u32_to_be_bytes w) c'"
  "wf_cursor c \<Longrightarrow> try_get_u64_le c = Ok (v, c') \<Longrightarrow> consumes c (u64_to_le_bytes v) c'"
  "wf_cursor c \<Longrightarrow> try_get_u64 c = Ok (v, c') \<Longrightarrow> consumes c (u64_to_be_bytes v) c'"
  by (auto simp: cursor_try_defs cursor_raw_defs bind_def and_then_Ok_iff need_def ret_def
      bytes_word_inverse dest!: take_slice_Ok split: if_splits)

end
