(* ===== verification/Wire.thy ===== *)
theory Wire
  imports Cursor
begin

text \<open>
  Wire serialisation and framing (\<^verbatim>\<open>wire.rs\<close>). The default methods of the traits \<open>ToWire\<close>,
  \<open>ToFrame\<close> and \<open>FromFrame\<close> become functions of the methods an implementation provides
  (\<open>wire_size\<close>, \<open>to_wire\<close>, \<open>from_wire\<close>). The traits' contracts are locales: \<open>wire_writer\<close> for
  a serialiser with a known encoding, \<open>wire_message\<close> for a top-level message that is parsed up
  to the end of its buffer, \<open>wire_codec\<close> for a nested value that leaves the rest of the buffer
  unread, and \<open>exact_reader\<close> for a parser that only accepts canonical encodings.
\<close>

section \<open>The trait methods\<close>

definition FRAME_MAGIC :: u64 where
  "FRAME_MAGIC = 0x524f55474854494d"

definition FRAME_OVERHEAD :: nat where
  "FRAME_OVERHEAD = 12"

definition MINIMUM_FRAME_SIZE :: nat where
  "MINIMUM_FRAME_SIZE = 100"

definition as_bytes :: "('a \<Rightarrow> nat) \<Rightarrow> ('a \<Rightarrow> unit cursor_op) \<Rightarrow> 'a \<Rightarrow> (error, bytes) outcome" where
  "as_bytes wire_size to_wire m =
     and_then (to_wire m (cursor_new (replicate (wire_size m) 0))) (\<lambda>(_, cursor). Ok (cur_data cursor))"

definition frame_size :: "('a \<Rightarrow> nat) \<Rightarrow> 'a \<Rightarrow> nat" where
  "frame_size wire_size m = wire_size m + FRAME_OVERHEAD"

definition to_frame :: "('a \<Rightarrow> nat) \<Rightarrow> ('a \<Rightarrow> unit cursor_op) \<Rightarrow> 'a \<Rightarrow> unit cursor_op" where
  "to_frame wire_size to_wire m =
     bind (try_put_u64 FRAME_MAGIC) (\<lambda>_.
     bind (try_put_u32_le (of_nat (wire_size m))) (\<lambda>_.
     to_wire m))"

definition as_frame_bytes ::
  "('a \<Rightarrow> nat) \<Rightarrow> ('a \<Rightarrow> unit cursor_op) \<Rightarrow> 'a \<Rightarrow> (error, bytes) outcome" where
  "as_frame_bytes wire_size to_wire m =
     and_then (to_frame wire_size to_wire m (cursor_new (replicate (frame_size wire_size m) 0)))
       (\<lambda>(_, cursor). Ok (cur_data cursor))"

definition from_frame :: "'a cursor_op \<Rightarrow> 'a cursor_op" where
  "from_frame from_wire =
     bind try_get_u64 (\<lambda>magic.
     if magic \<noteq> FRAME_MAGIC then fail (UnexpectedMagic magic) else
     bind try_get_u32_le (\<lambda>len32.
     bind (asks remaining) (\<lambda>rem.
     let len = unat len32 in
     if len < MINIMUM_FRAME_SIZE \<or> rem < MINIMUM_FRAME_SIZE
     then fail (UnexpectedFraming (min len rem))
     else if len > rem then fail (BufferTooSmall len rem)
     else from_wire)))"

section \<open>Encodings of frames\<close>

definition frame_enc :: "bytes \<Rightarrow> bytes" where
  "frame_enc bs = u64_to_be_bytes FRAME_MAGIC @ u32_to_le_bytes (of_nat (length bs)) @ bs"

lemma length_frame_enc [simp]: "length (frame_enc bs) = FRAME_OVERHEAD + length bs"
  by (simp add: frame_enc_def FRAME_OVERHEAD_def)

lemma frame_enc_inject:
  "frame_enc bs = frame_enc cs \<longleftrightarrow> bs = cs"
  by (auto simp: frame_enc_def)

lemma safe_from_frame [safe_intro]: "safe from_wire \<Longrightarrow> safe (from_frame from_wire)"
  unfolding from_frame_def Let_def by (intro safe_intro)

lemma from_frame_run:
  assumes "MINIMUM_FRAME_SIZE \<le> length bs" and "length bs < 2 ^ 32"
  shows "from_frame from_wire (cursor_at pre (frame_enc bs @ suf))
           = from_wire (cursor_at (pre @ take FRAME_OVERHEAD (frame_enc bs)) (bs @ suf))"
proof -
  have "unat (of_nat (length bs) :: u32) = length bs"
    using assms(2) by simp
  then show ?thesis
    using assms by (simp add: from_frame_def frame_enc_def cursor_run Let_def FRAME_OVERHEAD_def)
qed

text \<open>Parsing a whole buffer, as the callers do: the cursor is dropped afterwards.\<close>

definition parse :: "'a cursor_op \<Rightarrow> bytes \<Rightarrow> (error, 'a) outcome" where
  "parse op bs = and_then (op (cursor_new bs)) (\<lambda>(x, _). Ok x)"

lemma parse_Ok_iff: "parse op bs = Ok x \<longleftrightarrow> (\<exists>c'. op (cursor_new bs) = Ok (x, c'))"
  by (auto simp: parse_def and_then_Ok_iff)

lemma wf_cursor_new [simp]: "wf_cursor (cursor_new bs)"
  by (simp add: wf_cursor_def cursor_new_def)

lemma parse_no_panic: "safe op \<Longrightarrow> parse op bs \<noteq> Panic"
  using safeD(1) [of op "cursor_new bs"] by (auto simp: parse_def and_then_Panic_iff)

text \<open>What an accepted frame looked like.\<close>

lemma from_frame_Ok:
  assumes wf: "wf_cursor c" and ok: "from_frame from_wire c = Ok (m, c'')"
  shows "\<exists>len c'. consumes c (u64_to_be_bytes FRAME_MAGIC @ u32_to_le_bytes len) c' \<and>
           MINIMUM_FRAME_SIZE \<le> unat len \<and> unat len \<le> remaining c' \<and> from_wire c' = Ok (m, c'')"
proof -
  from ok obtain magic c1 len c2 where
    m: "try_get_u64 c = Ok (magic, c1)" "magic = FRAME_MAGIC" and
    l: "try_get_u32_le c1 = Ok (len, c2)" "MINIMUM_FRAME_SIZE \<le> unat len" "unat len \<le> remaining c2" and
    f: "from_wire c2 = Ok (m, c'')"
    by (auto simp: from_frame_def bind_def and_then_Ok_iff fail_def asks_def Let_def split: if_splits)
  from try_ints_Ok(4) [OF wf m(1)] m(2) have "consumes c (u64_to_be_bytes FRAME_MAGIC) c1" by simp
  with try_ints_Ok(1) [OF _ l(1)] have "consumes c (u64_to_be_bytes FRAME_MAGIC @ u32_to_le_bytes len) c2"
    by (meson consumes_trans consumes_wf)
  with l f show ?thesis by blast
qed

section \<open>Contracts\<close>

locale wire_writer =
  fixes wire_size :: "'a \<Rightarrow> nat"
    and to_wire :: "'a \<Rightarrow> unit cursor_op"
    and valid :: "'a \<Rightarrow> bool"
    and enc :: "'a \<Rightarrow> bytes"
  assumes enc_length: "valid m \<Longrightarrow> length (enc m) = wire_size m"
    and enc_writes: "valid m \<Longrightarrow> writes (to_wire m) (enc m)"
begin

lemma as_bytes_enc: "valid m \<Longrightarrow> as_bytes wire_size to_wire m = Ok (enc m)"
  using writes_new [OF enc_writes] by (simp add: as_bytes_def enc_length)

lemma frame_writes: "valid m \<Longrightarrow> writes (to_frame wire_size to_wire m) (frame_enc (enc m))"
  unfolding to_frame_def frame_enc_def
  by (intro writes_bind) (auto simp: enc_length intro: writes_intro enc_writes)

lemma as_frame_bytes_enc:
  "valid m \<Longrightarrow> as_frame_bytes wire_size to_wire m = Ok (frame_enc (enc m))"
  using writes_new [OF frame_writes] by (simp add: as_frame_bytes_def frame_size_def enc_length)

text \<open>Serialising into a buffer with room to spare leaves the rest of the buffer alone.\<close>

lemma to_frame_prefix:
  assumes "valid m" and "frame_size wire_size m \<le> length buf"
  shows "to_frame wire_size to_wire m (cursor_new buf)
           = Ok ((), cursor_at (frame_enc (enc m)) (drop (frame_size wire_size m) buf))"
proof -
  let ?n = "frame_size wire_size m"
  have "length (take ?n buf) = length (frame_enc (enc m))"
    using assms by (simp add: frame_size_def enc_length)
  from writesD [OF frame_writes [OF assms(1)] this, of "[]" "drop ?n buf"]
  show ?thesis by (simp add: cursor_new_at)
qed

end

locale wire_message = wire_writer +
  fixes from_wire :: "'a cursor_op"
  assumes read_back: "valid m \<Longrightarrow> \<exists>c'. from_wire (cursor_at pre (enc m)) = Ok (m, c')"
begin

lemma enc_inject:
  assumes "valid m" "valid m'" "enc m = enc m'"
  shows "m = m'"
proof -
  obtain c where "from_wire (cursor_at [] (enc m)) = Ok (m, c)" using read_back [OF assms(1)] by blast
  moreover obtain c' where "from_wire (cursor_at [] (enc m')) = Ok (m', c')"
    using read_back [OF assms(2)] by blast
  ultimately have "Ok (m, c) = (Ok (m', c') :: (error, 'a \<times> parse_cursor) outcome)"
    unfolding assms(3) by (rule subst)
  then show ?thesis by simp
qed

lemma wire_round_trip: "valid m \<Longrightarrow> parse from_wire (enc m) = Ok m"
  using read_back [of m "[]"] by (auto simp: parse_Ok_iff cursor_new_at)

lemma frame_round_trip:
  assumes "valid m" "MINIMUM_FRAME_SIZE \<le> wire_size m" "wire_size m < 2 ^ 32"
  shows "parse (from_frame from_wire) (frame_enc (enc m)) = Ok m"
proof -
  obtain c' where "from_wire (cursor_at (take FRAME_OVERHEAD (frame_enc (enc m))) (enc m)) = Ok (m, c')"
    using read_back [OF assms(1)] by blast
  with from_frame_run [of "enc m" from_wire "[]" "[]"] assms
  show ?thesis by (simp add: cursor_new_at enc_length parse_def)
qed

end

locale wire_codec = wire_writer +
  fixes from_wire :: "'a cursor_op"
  assumes read_any: "valid m \<Longrightarrow> reads from_wire pre (enc m) suf m"

sublocale wire_codec \<subseteq> wire_message
proof
  fix m pre assume "valid m"
  from readsD [OF read_any [OF this, of pre "[]"]]
  show "\<exists>c'. from_wire (cursor_at pre (enc m)) = Ok (m, c')" by auto
qed

locale exact_reader =
  fixes from_wire :: "'a cursor_op"
    and valid :: "'a \<Rightarrow> bool"
    and enc :: "'a \<Rightarrow> bytes"
  assumes exact: "wf_cursor c \<Longrightarrow> from_wire c = Ok (m, c') \<Longrightarrow> valid m \<and> consumes c (enc m) c'"
begin

text \<open>Two inputs parsed to the same value share the bytes that were consumed.\<close>

lemma exact_bytes:
  assumes "wf_cursor c" "from_wire c = Ok (m, c')"
  shows "take (cur_position c' - cur_position c) (drop (cur_position c) (cur_data c)) = enc m"
  using exact [OF assms] by (auto simp: consumes_def)

end

end
