(* ===== verification/Tag.thy ===== *)
theory Tag
  imports Wire "HOL-Library.List_Lexorder" "HOL-Library.Product_Lexorder"
begin

text \<open>
  Roughtime tags (\<^verbatim>\<open>tag.rs\<close>): the enumeration with its discriminants, the wire value, the
  parser, and Rust's \<open>Ord\<close> instance as an instance of \<open>linorder\<close>. The lemmas show that parser
  and printer are inverse and that the order is the numeric order of the little-endian reading of
  the wire bytes, which is what the RFC asks for.
\<close>

datatype tag =
    INVALID | SIG | VER | SRV | NONC | DELE | TYPE_TAG | PATH | RADI | PUBK | MIDP | SREP | VERS
  | MINT | ROOT | CERT | MAXT | INDX | ZZZZ | PAD

fun tag_value :: "tag \<Rightarrow> u32" where
  "tag_value INVALID = 0x00000000"
| "tag_value SIG = 0x53494700"
| "tag_value VER = 0x56455200"
| "tag_value SRV = 0x53525600"
| "tag_value NONC = 0x4e4f4e43"
| "tag_value DELE = 0x44454c45"
| "tag_value TYPE_TAG = 0x54595045"
| "tag_value PATH = 0x50415448"
| "tag_value RADI = 0x52414449"
| "tag_value PUBK = 0x5055424b"
| "tag_value MIDP = 0x4d494450"
| "tag_value SREP = 0x53524550"
| "tag_value VERS = 0x56455253"
| "tag_value MINT = 0x4d494e54"
| "tag_value ROOT = 0x524f4f54"
| "tag_value CERT = 0x43455254"
| "tag_value MAXT = 0x4d415854"
| "tag_value INDX = 0x494e4458"
| "tag_value ZZZZ = 0x5a5a5a5a"
| "tag_value PAD = 0x504144ff"

text \<open>\<open>Tag::HASH_PREFIX_SRV\<close>.\<close>

definition HASH_PREFIX_SRV :: bytes where
  "HASH_PREFIX_SRV = [0xff]"

definition tag_wire_value :: "tag \<Rightarrow> bytes" where
  "tag_wire_value t = u32_to_be_bytes (tag_value t)"

text \<open>The byte patterns of \<open>Tag::from_wire\<close>, in the order of its match arms.\<close>

definition tag_patterns :: "(bytes \<times> tag) list" where
  "tag_patterns =
     [([0x53, 0x49, 0x47, 0x00], SIG), ([0x56, 0x45, 0x52, 0x00], VER),
      ([0x53, 0x52, 0x56, 0x00], SRV), ([0x4e, 0x4f, 0x4e, 0x43], NONC),
      ([0x44, 0x45, 0x4c, 0x45], DELE), ([0x54, 0x59, 0x50, 0x45], TYPE_TAG),
      ([0x50, 0x41, 0x54, 0x48], PATH), ([0x52, 0x41, 0x44, 0x49], RADI),
      ([0x50, 0x55, 0x42, 0x4b], PUBK), ([0x4d, 0x49, 0x44, 0x50], MIDP),
      ([0x53, 0x52, 0x45, 0x50], SREP), ([0x56, 0x45, 0x52, 0x53], VERS),
      ([0x4d, 0x49, 0x4e, 0x54], MINT), ([0x52, 0x4f, 0x4f, 0x54], ROOT),
      ([0x43, 0x45, 0x52, 0x54], CERT), ([0x4d, 0x41, 0x58, 0x54], MAXT),
      ([0x49, 0x4e, 0x44, 0x58], INDX), ([0x5a, 0x5a, 0x5a, 0x5a], ZZZZ),
      ([0x50, 0x41, 0x44, 0xff], PAD)]"

definition tag_from_wire :: "bytes \<Rightarrow> (error, tag) outcome" where
  "tag_from_wire bs =
     (if length bs < 4 then Err (BufferTooSmall 4 (length bs))
      else case map_of tag_patterns bs of
             Some t \<Rightarrow> Ok t
           | None \<Rightarrow> Err (InvalidTag (u32_from_be_bytes [bs ! 0, bs ! 1, bs ! 2, bs ! 3])))"

definition is_nested :: "tag \<Rightarrow> bool" where
  "is_nested t \<longleftrightarrow> t = CERT \<or> t = DELE \<or> t = SREP"

definition tag_try_from :: "u32 \<Rightarrow> (error, tag) outcome" where
  "tag_try_from v = tag_from_wire (u32_to_be_bytes v)"

definition tag_into_u32 :: "tag \<Rightarrow> u32" where
  "tag_into_u32 t = u32_from_be_bytes (tag_wire_value t)"

section \<open>Parsing and printing\<close>

lemma u32_to_le_bytes_list:
  "u32_to_le_bytes w = [ucast w, ucast (drop_bit 8 w), ucast (drop_bit 16 w), ucast (drop_bit 24 w)]"
  by (simp add: u32_to_le_bytes_def numeral_eq_Suc drop_bit_drop_bit)

lemma u32_to_be_bytes_list:
  "u32_to_be_bytes w = [ucast (drop_bit 24 w), ucast (drop_bit 16 w), ucast (drop_bit 8 w), ucast w]"
  by (simp add: u32_to_be_bytes_def u32_to_le_bytes_list)

lemma tag_patterns_wire_value:
  "tag_patterns = map (\<lambda>t. (tag_wire_value t, t))
     [SIG, VER, SRV, NONC, DELE, TYPE_TAG, PATH, RADI, PUBK, MIDP, SREP, VERS, MINT, ROOT, CERT, MAXT,
      INDX, ZZZZ, PAD]"
  by (simp add: tag_patterns_def tag_wire_value_def u32_to_be_bytes_list)

lemma length_tag_wire_value [simp]: "length (tag_wire_value t) = 4"
  by (simp add: tag_wire_value_def)

lemma tag_value_inject [simp]: "tag_value t = tag_value u \<longleftrightarrow> t = u"
  by (cases t; cases u) simp_all

lemma tag_wire_value_inject [simp]: "tag_wire_value t = tag_wire_value u \<longleftrightarrow> t = u"
  by (simp add: tag_wire_value_def)

lemma tag_into_u32 [simp]: "tag_into_u32 t = tag_value t"
  by (simp add: tag_into_u32_def tag_wire_value_def)

lemma tag_from_wire_value: "t \<noteq> INVALID \<Longrightarrow> tag_from_wire (tag_wire_value t) = Ok t"
  by (cases t) (simp_all add: tag_from_wire_def tag_patterns_wire_value)

lemma tag_from_wire_Ok:
  assumes "tag_from_wire bs = Ok t"
  shows "bs = tag_wire_value t \<and> t \<noteq> INVALID"
proof -
  from assms have "map_of tag_patterns bs = Some t"
    by (auto simp: tag_from_wire_def split: if_splits option.splits)
  then have "(bs, t) \<in> set tag_patterns" by (rule map_of_SomeD)
  then show ?thesis by (auto simp: tag_patterns_wire_value)
qed

lemma tag_from_wire_no_panic [simp]: "tag_from_wire bs \<noteq> Panic"
  by (auto simp: tag_from_wire_def split: option.splits)

lemma tag_try_from_value [simp]: "t \<noteq> INVALID \<Longrightarrow> tag_try_from (tag_value t) = Ok t"
  using tag_from_wire_value by (simp add: tag_try_from_def tag_wire_value_def)

lemma tag_try_from_Ok: "tag_try_from v = Ok t \<Longrightarrow> v = tag_value t \<and> t \<noteq> INVALID"
  using tag_from_wire_Ok [of "u32_to_be_bytes v"] by (simp add: tag_try_from_def tag_wire_value_def)

lemma tag_try_from_no_panic [simp]: "tag_try_from v \<noteq> Panic"
  by (simp add: tag_try_from_def)

section \<open>The order of tags\<close>

text \<open>\<open>Ord for Tag\<close>: the arrays of the discriminants' little-endian bytes, compared
  lexicographically.\<close>

definition tag_key :: "tag \<Rightarrow> bytes" where
  "tag_key t = u32_to_le_bytes (tag_value t)"

lemma tag_key_inject [simp]: "tag_key t = tag_key u \<longleftrightarrow> t = u"
  by (simp add: tag_key_def)

instantiation tag :: linorder
begin

definition less_eq_tag :: "tag \<Rightarrow> tag \<Rightarrow> bool" where
  "less_eq_tag t u \<longleftrightarrow> tag_key t \<le> tag_key u"

definition less_tag :: "tag \<Rightarrow> tag \<Rightarrow> bool" where
  "less_tag t u \<longleftrightarrow> tag_key t < tag_key u"

instance
  by standard (auto simp: less_eq_tag_def less_tag_def simp flip: tag_key_inject)

end

lemma tag_less_eq_eval: "t \<le> u \<longleftrightarrow> tag_key t \<le> tag_key u" "t < u \<longleftrightarrow> tag_key t < tag_key u"
  for t u :: tag
  by (simp_all add: less_eq_tag_def less_tag_def)

text \<open>The value of a little-endian byte string.\<close>

primrec le_nat :: "bytes \<Rightarrow> nat" where
  "le_nat [] = 0"
| "le_nat (b # bs) = unat b + 256 * le_nat bs"

lemma le_nat_append: "le_nat (bs @ cs) = le_nat bs + 256 ^ length bs * le_nat cs"
  by (induction bs) (auto simp: algebra_simps)

lemma le_nat_bound: "le_nat bs < 256 ^ length bs"
proof (induction bs)
  case (Cons b bs)
  have "unat b < 256" using unsigned_less [of b, where ?'a = nat] by simp
  with Cons show ?case by simp
qed simp

lemma unat_from_le:
  "8 * length bs \<le> LENGTH('w) \<Longrightarrow> unat (from_le bs :: 'w::len word) = le_nat bs"
proof (induction bs)
  case (Cons b bs)
  let ?r = "from_le bs :: 'w word"
  have dis: "(ucast b :: 'w word) AND push_bit 8 ?r = 0"
    by (rule bit_word_eqI) (auto simp: bit_simps dest: bit_imp_le_length)
  have r: "unat ?r = le_nat bs" using Cons by simp
  have "256 * le_nat bs < 2 ^ (8 * length (b # bs))"
    using le_nat_bound [of bs] by (simp add: power_mult power_add)
  also have "\<dots> \<le> 2 ^ LENGTH('w)" using Cons.prems by (intro power_increasing) auto
  finally have lt: "256 * le_nat bs < 2 ^ LENGTH('w)" .
  have p: "unat (push_bit 8 ?r) = 256 * le_nat bs"
    using lt unfolding unsigned_push_bit_eq by (simp add: push_bit_eq_mult take_bit_nat_eq_self r)
  have "unat b < 2 ^ 8" using unsigned_less [of b, where ?'a = nat] by simp
  also have "\<dots> \<le> 2 ^ LENGTH('w)" using Cons.prems by (intro power_increasing) auto
  finally have b: "unat (ucast b :: 'w word) = unat b"
    by (simp add: unsigned_ucast_eq take_bit_nat_eq_self)
  have "le_nat (b # bs) < 2 ^ LENGTH('w)"
    using le_nat_bound [of "b # bs"] Cons.prems power_increasing [of "8 * length (b # bs)" "LENGTH('w)" "2::nat"]
    by (simp add: power_mult power_add)
  moreover have "from_le (b # bs) = ucast b + push_bit 8 ?r"
    using dis by (simp add: disjunctive_add_eq_or)
  ultimately show ?case using p b by (simp add: unat_word_ariths del: from_le.simps)
qed simp

lemma lex_rev_iff_le_nat:
  "length bs = length cs \<Longrightarrow> rev bs \<le> rev cs \<longleftrightarrow> le_nat bs \<le> le_nat cs"
proof (induction bs arbitrary: cs rule: rev_induct)
  case (snoc b bs)
  then obtain c cs' where cs: "cs = cs' @ [c]" and len: "length bs = length cs'"
    by (cases cs rule: rev_cases) auto
  let ?N = "256 ^ length cs' :: nat"
  have b: "le_nat bs < ?N" "le_nat cs' < ?N" using le_nat_bound [of bs] le_nat_bound [of cs'] len by auto
  have lt: "x + ?N * m < y + ?N * n" if "x < ?N" "m < n" for x y m n
  proof -
    have "?N * Suc m \<le> ?N * n" using that by (intro mult_le_mono2) simp
    with that show ?thesis by simp
  qed
  consider "b < c" | "c < b" | "b = c" by (rule linorder_less_linear [THEN disjE]) blast+
  then show ?case
  proof cases
    case 1 then show ?thesis using lt [OF b(1), of "unat b" "unat c" "le_nat cs'"]
      by (simp add: cs len le_nat_append word_less_nat_alt)
  next
    case 2 then show ?thesis using lt [OF b(2), of "unat c" "unat b" "le_nat bs"]
      by (auto simp: cs len le_nat_append word_less_nat_alt)
  next
    case 3 with snoc.IH [OF len] show ?thesis by (simp add: cs len le_nat_append)
  qed
qed simp

lemma tag_le_iff_le_nat: "t \<le> u \<longleftrightarrow> le_nat (tag_wire_value t) \<le> le_nat (tag_wire_value u)"
  for t u :: tag
  using lex_rev_iff_le_nat [of "tag_wire_value t" "tag_wire_value u"]
  by (simp add: less_eq_tag_def tag_key_def tag_wire_value_def u32_to_be_bytes_def)

section \<open>Properties\<close>

text \<open>The order of tags, which Rust computes by comparing the little-endian bytes of the
  discriminants lexicographically, is the numeric order of the tags' wire bytes read as a
  little-endian integer, for all pairs of tags.\<close>

lemma tag_order_numeric:
  "(t \<le> u \<longleftrightarrow> (from_le (tag_wire_value t) :: u32) \<le> from_le (tag_wire_value u)) \<and>
   (t < u \<longleftrightarrow> (from_le (tag_wire_value t) :: u32) < from_le (tag_wire_value u))"
  using tag_le_iff_le_nat [of t u] tag_le_iff_le_nat [of u t]
  by (simp add: word_le_nat_alt word_less_nat_alt unat_from_le flip: not_le)

text \<open>Parsing and printing a tag are inverse: \<open>Tag::from_wire\<close> succeeds exactly on the wire
  values of the tags other than \<open>INVALID\<close>, returning that tag, and never panics.\<close>

lemma tag_parse_print:
  "(tag_from_wire bs = Ok t \<longleftrightarrow> bs = tag_wire_value t \<and> t \<noteq> INVALID) \<and> tag_from_wire bs \<noteq> Panic"
  using tag_from_wire_Ok tag_from_wire_value by auto

end
