(* ===== verification/Header.thy ===== *)
theory Header
  imports Tag
begin

text \<open>
  Message headers (\<^verbatim>\<open>header.rs\<close>). The macro \<open>make_header_n\<close> generates one struct per number of
  tags; the model has one record and passes the number \<open>N\<close> of tags to the operations. The lemmas
  give the encoding, show that the parser accepts exactly the encodings of well-formed headers
  (offsets aligned and ascending, tags known and ascending) and never panics.
\<close>

section \<open>Model\<close>

record header =
  hdr_num_tags :: u32
  hdr_offsets :: "u32 list"
  hdr_tags :: "tag list"

definition header_default :: "nat \<Rightarrow> header" where
  "header_default N = \<lparr>hdr_num_tags = of_nat N, hdr_offsets = replicate (N - 1) 0,
                       hdr_tags = replicate N INVALID\<rparr>"

text \<open>\<open>size_of::<HeaderN>()\<close>: a \<open>u32\<close>, \<open>N - 1\<close> offsets and \<open>N\<close> tags of four bytes each.\<close>

definition header_wire_size :: "nat \<Rightarrow> header \<Rightarrow> nat" where
  "header_wire_size N h = 4 + 4 * (N - 1) + 4 * N"

definition set_offset :: "nat \<Rightarrow> u32 \<Rightarrow> header \<Rightarrow> (error, header) outcome" where
  "set_offset idx off h =
     (if idx < length (hdr_offsets h) then Ok (h\<lparr>hdr_offsets := (hdr_offsets h)[idx := off]\<rparr>)
      else Panic)"

definition set_tag :: "nat \<Rightarrow> tag \<Rightarrow> header \<Rightarrow> (error, header) outcome" where
  "set_tag idx t h =
     (if idx < length (hdr_tags h) then Ok (h\<lparr>hdr_tags := (hdr_tags h)[idx := t]\<rparr>) else Panic)"

definition header_to_wire :: "nat \<Rightarrow> header \<Rightarrow> unit cursor_op" where
  "header_to_wire N h =
     bind (need (header_wire_size N h)) (\<lambda>_.
     bind (put_u32_le (of_nat N)) (\<lambda>_.
     bind (for_each put_u32_le (hdr_offsets h)) (\<lambda>_.
     for_each (\<lambda>t. put_slice (tag_wire_value t)) (hdr_tags h))))"

text \<open>\<open>value % 4 == 0\<close>.\<close>

definition aligned :: "u32 \<Rightarrow> bool" where
  "aligned v \<longleftrightarrow> v mod 4 = 0"

lemma aligned_unat: "aligned v \<longleftrightarrow> unat v mod 4 = 0"
proof -
  have "v mod 4 = 0 \<longleftrightarrow> unat (v mod 4) = 0" by (simp add: unat_eq_0)
  then show ?thesis by (simp add: aligned_def unat_mod_distrib)
qed

text \<open>The two loops of \<open>from_wire_inner\<close>; the first argument counts the remaining rounds.\<close>

primrec read_offsets :: "nat \<Rightarrow> nat \<Rightarrow> u32 \<Rightarrow> header \<Rightarrow> header cursor_op" where
  "read_offsets 0 idx prior_offset h = ret h"
| "read_offsets (Suc n) idx prior_offset h =
     bind try_get_u32_le (\<lambda>val.
     if \<not> aligned val then fail (UnalignedOffset (of_nat idx) val)
     else if val < prior_offset then fail (UnorderedOffset (of_nat idx) val)
     else bind (lift (set_offset idx val h)) (\<lambda>h'. read_offsets n (Suc idx) val h'))"

primrec read_tags :: "nat \<Rightarrow> nat \<Rightarrow> tag \<Rightarrow> header \<Rightarrow> header cursor_op" where
  "read_tags 0 idx prior_tag h = ret h"
| "read_tags (Suc n) idx prior_tag h =
     bind try_get_u32 (\<lambda>val.
     bind (lift (tag_try_from val)) (\<lambda>t.
     if t < prior_tag then fail (UnorderedTag (of_nat idx) val)
     else bind (lift (set_tag idx t h)) (\<lambda>h'. read_tags n (Suc idx) t h')))"

definition header_from_wire :: "nat \<Rightarrow> header cursor_op" where
  "header_from_wire N =
     bind (need (header_wire_size N (header_default N))) (\<lambda>_.
     bind try_get_u32_le (\<lambda>read_num_tags.
     if of_nat N \<noteq> read_num_tags then fail (MismatchedNumTags (of_nat N) read_num_tags)
     else bind (read_offsets (N - 1) 0 0 (header_default N)) (\<lambda>h.
          read_tags N 0 INVALID h)))"

primrec check_offsets_from :: "nat \<Rightarrow> u32 list \<Rightarrow> nat \<Rightarrow> (error, unit) outcome" where
  "check_offsets_from idx [] total_len = Ok ()"
| "check_offsets_from idx (off # offs) total_len =
     (if off > of_nat total_len then Err (OutOfBoundsOffset (of_nat idx) off)
      else check_offsets_from (Suc idx) offs total_len)"

definition check_offset_bounds :: "header \<Rightarrow> nat \<Rightarrow> (error, unit) outcome" where
  "check_offset_bounds h total_len = check_offsets_from 0 (hdr_offsets h) total_len"

section \<open>Accepted headers and their encoding\<close>

text \<open>What the reader lets through: tags may repeat, since only a tag smaller than the one before is refused. The readers of
  messages compare the tags with fixed lists afterwards.\<close>

definition header_accepted :: "nat \<Rightarrow> header \<Rightarrow> bool" where
  "header_accepted N h \<longleftrightarrow>
     hdr_num_tags h = of_nat N \<and> length (hdr_offsets h) = N - 1 \<and> length (hdr_tags h) = N \<and>
     sorted (hdr_offsets h) \<and> list_all aligned (hdr_offsets h) \<and>
     sorted (hdr_tags h) \<and> INVALID \<notin> set (hdr_tags h)"

definition header_enc :: "header \<Rightarrow> bytes" where
  "header_enc h = u32_to_le_bytes (hdr_num_tags h) @ concat (map u32_to_le_bytes (hdr_offsets h))
                  @ concat (map tag_wire_value (hdr_tags h))"

lemma length_header_enc:
  "header_accepted N h \<Longrightarrow> length (header_enc h) = header_wire_size N h"
  by (simp add: header_enc_def header_accepted_def header_wire_size_def length_concat_const [where n = 4])

lemma header_writes: "header_accepted N h \<Longrightarrow> writes (header_to_wire N h) (header_enc h)"
  unfolding header_to_wire_def
  by (rule writes_guarded, simp add: length_header_enc, unfold header_enc_def)
    (auto simp: header_accepted_def intro!: writes_bind writes_for_each writes_intro)

section \<open>Parsing a well-formed header\<close>

lemma set_offset_next:
  "hdr_offsets h = pre @ o0 # post \<Longrightarrow> idx = length pre \<Longrightarrow>
     set_offset idx v h = Ok (h\<lparr>hdr_offsets := pre @ v # post\<rparr>)"
  by (simp add: set_offset_def)

lemma set_tag_next:
  "hdr_tags h = pre @ t0 # post \<Longrightarrow> idx = length pre \<Longrightarrow>
     set_tag idx t h = Ok (h\<lparr>hdr_tags := pre @ t # post\<rparr>)"
  by (simp add: set_tag_def)

lemma reads_read_offsets:
  assumes "hdr_offsets h = done @ todo" "length todo = length vs" "sorted (prior # vs)"
    "list_all aligned vs"
  shows "reads (read_offsets (length vs) (length done) prior h) pre
           (concat (map u32_to_le_bytes vs)) suf (h\<lparr>hdr_offsets := done @ vs\<rparr>)"
  using assms
proof (induction vs arbitrary: h "done" todo prior pre)
  case (Cons v vs)
  then obtain o0 rest where todo: "todo = o0 # rest" by (cases todo) auto
  let ?h = "h\<lparr>hdr_offsets := (done @ [v]) @ rest\<rparr>"
  have "reads (read_offsets (length vs) (length (done @ [v])) v ?h) (pre @ u32_to_le_bytes v)
          (concat (map u32_to_le_bytes vs)) suf (?h\<lparr>hdr_offsets := (done @ [v]) @ vs\<rparr>)"
    using Cons.prems by (intro Cons.IH [where todo = rest]) (auto simp: todo)
  moreover have "\<not> v < prior" "aligned v" using Cons.prems by auto
  ultimately show ?case using Cons.prems(1)
    by (simp add: reads_def cursor_run set_offset_next todo)
qed (simp add: reads_def cursor_run)

lemma reads_tag_value: "reads try_get_u32 pre (tag_wire_value t) suf (tag_value t)"
  by (simp add: tag_wire_value_def reads_intro)

lemmas run_tag_value [cursor_run] = reads_tag_value [THEN reads_run]

lemma reads_read_tags:
  assumes "hdr_tags h = done @ todo" "length todo = length ts" "sorted (prior # ts)"
    "INVALID \<notin> set ts"
  shows "reads (read_tags (length ts) (length done) prior h) pre
           (concat (map tag_wire_value ts)) suf (h\<lparr>hdr_tags := done @ ts\<rparr>)"
  using assms
proof (induction ts arbitrary: h "done" todo prior pre)
  case (Cons t ts)
  then obtain t0 rest where todo: "todo = t0 # rest" by (cases todo) auto
  let ?h = "h\<lparr>hdr_tags := (done @ [t]) @ rest\<rparr>"
  have "reads (read_tags (length ts) (length (done @ [t])) t ?h) (pre @ tag_wire_value t)
          (concat (map tag_wire_value ts)) suf (?h\<lparr>hdr_tags := (done @ [t]) @ ts\<rparr>)"
    using Cons.prems by (intro Cons.IH [where todo = rest]) (auto simp: todo)
  moreover have "\<not> t < prior" "t \<noteq> INVALID" using Cons.prems by auto
  ultimately show ?case using Cons.prems(1)
    by (simp add: reads_def cursor_run set_tag_next todo)
qed (simp add: reads_def cursor_run)

lemma INVALID_least [simp]: "INVALID \<le> t"
  by (simp add: tag_le_iff_le_nat tag_wire_value_def u32_to_be_bytes_list)

lemma reads_header:
  assumes "header_accepted N h"
  shows "reads (header_from_wire N) pre (header_enc h) suf h"
proof -
  have v: "hdr_num_tags h = of_nat N" "length (hdr_offsets h) = N - 1" "length (hdr_tags h) = N"
    "sorted (hdr_offsets h)" "list_all aligned (hdr_offsets h)"
    "sorted (hdr_tags h)" "INVALID \<notin> set (hdr_tags h)"
    using assms by (auto simp: header_accepted_def)
  let ?h1 = "header_default N\<lparr>hdr_offsets := hdr_offsets h\<rparr>"
  have o: "reads (read_offsets (N - 1) 0 0 (header_default N)) (pre @ u32_to_le_bytes (of_nat N))
      (concat (map u32_to_le_bytes (hdr_offsets h))) (concat (map tag_wire_value (hdr_tags h)) @ suf) ?h1"
    using reads_read_offsets [of "header_default N" "[]" "replicate (N - 1) 0" "hdr_offsets h" 0] v
    by (simp add: header_default_def)
  have t: "reads (read_tags N 0 INVALID ?h1)
      ((pre @ u32_to_le_bytes (of_nat N)) @ concat (map u32_to_le_bytes (hdr_offsets h)))
      (concat (map tag_wire_value (hdr_tags h))) suf (?h1\<lparr>hdr_tags := hdr_tags h\<rparr>)"
    using reads_read_tags [of ?h1 "[]" "replicate N INVALID" "hdr_tags h" INVALID] v
    by (simp add: header_default_def)
  have h: "?h1\<lparr>hdr_tags := hdr_tags h\<rparr> = h" using v by (simp add: header_default_def)
  have l: "header_wire_size N (header_default N) = length (header_enc h)"
    using assms by (simp add: length_header_enc header_wire_size_def)
  show ?thesis unfolding header_from_wire_def l
    by (rule reads_guarded, simp, insert t)
      (simp add: reads_def header_enc_def cursor_run reads_run [OF o] h v del: One_nat_def)
qed

section \<open>What an accepted header looked like\<close>

lemma read_offsets_Ok:
  assumes "wf_cursor c" "hdr_offsets h = done @ todo" "length todo = n"
    "read_offsets n (length done) prior h c = Ok (h', c')"
  shows "\<exists>vs. length vs = n \<and> sorted (prior # vs) \<and> list_all aligned vs \<and>
           consumes c (concat (map u32_to_le_bytes vs)) c' \<and> h' = h\<lparr>hdr_offsets := done @ vs\<rparr>"
  using assms
proof (induction n arbitrary: h "done" todo prior c)
  case 0
  then show ?case by (auto simp: cursor_run consumes_refl)
next
  case (Suc n)
  then obtain o0 rest where todo: "todo = o0 # rest" and len: "length rest = n" by (cases todo) auto
  from Suc.prems(2,4) obtain v c1 where v: "try_get_u32_le c = Ok (v, c1)" "aligned v" "\<not> v < prior"
    and rec: "read_offsets n (length (done @ [v])) v (h\<lparr>hdr_offsets := (done @ [v]) @ rest\<rparr>) c1 = Ok (h', c')"
    by (auto simp: bind_def and_then_Ok_iff fail_def lift_def set_offset_def todo split: if_splits)
  have c1: "consumes c (u32_to_le_bytes v) c1" using try_ints_Ok(1) [OF Suc.prems(1) v(1)] .
  from Suc.IH [OF _ _ len rec] consumes_wf [OF c1] obtain vs where
    "length vs = n" "sorted (v # vs)" "list_all aligned vs"
    "consumes c1 (concat (map u32_to_le_bytes vs)) c'" "h' = h\<lparr>hdr_offsets := done @ v # vs\<rparr>"
    by auto
  with v consumes_trans [OF c1] show ?case
    by (intro exI [of _ "v # vs"]) (auto simp: not_less)
qed

lemma read_tags_Ok:
  assumes "wf_cursor c" "hdr_tags h = done @ todo" "length todo = n"
    "read_tags n (length done) prior h c = Ok (h', c')"
  shows "\<exists>ts. length ts = n \<and> sorted (prior # ts) \<and> INVALID \<notin> set ts \<and>
           consumes c (concat (map tag_wire_value ts)) c' \<and> h' = h\<lparr>hdr_tags := done @ ts\<rparr>"
  using assms
proof (induction n arbitrary: h "done" todo prior c)
  case 0
  then show ?case by (auto simp: cursor_run consumes_refl)
next
  case (Suc n)
  then obtain t0 rest where todo: "todo = t0 # rest" and len: "length rest = n" by (cases todo) auto
  from Suc.prems(2,4) obtain v t c1 where v: "try_get_u32 c = Ok (v, c1)" "tag_try_from v = Ok t" "prior \<le> t"
    and rec: "read_tags n (length (done @ [t])) t (h\<lparr>hdr_tags := (done @ [t]) @ rest\<rparr>) c1 = Ok (h', c')"
    by (auto simp: bind_def and_then_Ok_iff fail_def lift_def set_tag_def todo split: if_splits)
  from tag_try_from_Ok [OF v(2)] have t: "v = tag_value t" "t \<noteq> INVALID" by auto
  have c1: "consumes c (tag_wire_value t) c1"
    using try_ints_Ok(2) [OF Suc.prems(1) v(1)] t by (simp add: tag_wire_value_def)
  from Suc.IH [OF _ _ len rec] consumes_wf [OF c1] obtain ts where
    "length ts = n" "sorted (t # ts)" "INVALID \<notin> set ts"
    "consumes c1 (concat (map tag_wire_value ts)) c'" "h' = h\<lparr>hdr_tags := done @ t # ts\<rparr>"
    by auto
  with v t consumes_trans [OF c1] show ?case
    by (intro exI [of _ "t # ts"]) auto
qed

lemma header_from_wire_exact:
  assumes wf: "wf_cursor c" and ok: "header_from_wire N c = Ok (h, c')"
  shows "header_accepted N h \<and> consumes c (header_enc h) c'"
proof -
  from ok obtain c1 h1 c2 where n: "try_get_u32_le c = Ok (of_nat N, c1)"
    and o: "read_offsets (N - 1) 0 0 (header_default N) c1 = Ok (h1, c2)"
    and t: "read_tags N 0 INVALID h1 c2 = Ok (h, c')"
    by (auto simp: header_from_wire_def bind_def and_then_Ok_iff fail_def need_def split: if_splits)
  have c1: "consumes c (u32_to_le_bytes (of_nat N)) c1" using try_ints_Ok(1) [OF wf n] .
  from read_offsets_Ok [of c1 "header_default N" "[]" _ "N - 1" 0 h1 c2] o consumes_wf [OF c1]
  obtain vs where vs: "length vs = N - 1" "sorted vs" "list_all aligned vs"
    and c2: "consumes c1 (concat (map u32_to_le_bytes vs)) c2"
    and h1: "h1 = header_default N\<lparr>hdr_offsets := vs\<rparr>"
    by (auto simp: header_default_def)
  from read_tags_Ok [of c2 h1 "[]" _ N INVALID h c'] t consumes_wf [OF c2] h1
  obtain ts where ts: "length ts = N" "sorted ts" "INVALID \<notin> set ts"
    and c3: "consumes c2 (concat (map tag_wire_value ts)) c'"
    and h: "h = h1\<lparr>hdr_tags := ts\<rparr>"
    by (auto simp: header_default_def)
  show ?thesis using vs ts consumes_trans [OF c1 consumes_trans [OF c2 c3]]
    by (simp add: header_accepted_def header_enc_def h h1 header_default_def)
qed

lemma safe_read_offsets: "idx + n \<le> length (hdr_offsets h) \<Longrightarrow> safe (read_offsets n idx prior h)"
proof (induction n arbitrary: idx prior h)
  case (Suc n)
  have *: "safe (bind (lift (set_offset idx v h)) (read_offsets n (Suc idx) v))" for v
    using Suc.IH [of "Suc idx" "h\<lparr>hdr_offsets := (hdr_offsets h)[idx := v]\<rparr>" v] Suc.prems
    by (simp add: set_offset_def bind_lift_Ok)
  show ?case unfolding read_offsets.simps
    by (intro safe_bind [OF safe_try_ints(1)] safe_if safe_fail *)
qed (simp add: safe_intro)

lemma safe_read_tags: "idx + n \<le> length (hdr_tags h) \<Longrightarrow> safe (read_tags n idx prior h)"
proof (induction n arbitrary: idx prior h)
  case (Suc n)
  have *: "safe (bind (lift (set_tag idx t h)) (read_tags n (Suc idx) t))" for t
    using Suc.IH [of "Suc idx" "h\<lparr>hdr_tags := (hdr_tags h)[idx := t]\<rparr>" t] Suc.prems
    by (simp add: set_tag_def bind_lift_Ok)
  show ?case unfolding read_tags.simps
    by (intro safe_bind [OF safe_try_ints(2)] safe_bind [OF safe_lift] safe_if safe_fail *) simp
qed (simp add: safe_intro)

lemma read_offsets_tags:
  "read_offsets n idx prior h c = Ok (h', c') \<Longrightarrow> hdr_tags h' = hdr_tags h"
  by (induction n arbitrary: idx prior h c)
    (auto simp: bind_def and_then_Ok_iff ret_def fail_def lift_def set_offset_def split: if_splits)

lemma safe_header [safe_intro]: "safe (header_from_wire N)"
proof -
  have "safe (read_tags N 0 INVALID h)"
    if "read_offsets (N - 1) 0 0 (header_default N) c = Ok (h, c')" for c h c'
    using read_offsets_tags [OF that] by (intro safe_read_tags) (simp add: header_default_def)
  then have "safe (bind (read_offsets (N - 1) 0 0 (header_default N)) (read_tags N 0 INVALID))"
    by (intro safe_bind_Ok safe_read_offsets) (auto simp: header_default_def)
  then show ?thesis unfolding header_from_wire_def
    by (intro safe_bind [OF safe_need] safe_bind [OF safe_try_ints(1)] safe_if safe_fail)
qed

lemma check_offset_bounds_no_panic [simp]: "check_offset_bounds h n \<noteq> Panic"
proof -
  have "check_offsets_from idx vs n \<noteq> Panic" for idx vs by (induction vs arbitrary: idx) auto
  then show ?thesis by (simp add: check_offset_bounds_def)
qed

lemma check_offset_bounds_Ok_iff:
  "check_offset_bounds h n = Ok () \<longleftrightarrow> list_all (\<lambda>v. v \<le> of_nat n) (hdr_offsets h)"
proof -
  have "check_offsets_from idx vs n = Ok () \<longleftrightarrow> list_all (\<lambda>v. v \<le> of_nat n) vs" for idx vs
    by (induction vs arbitrary: idx) auto
  then show ?thesis by (simp add: check_offset_bounds_def)
qed

section \<open>Interpretations\<close>

lemmas run_header [cursor_run] = reads_header [THEN reads_run]

lemma header_codec:
  "wire_codec (header_wire_size N) (header_to_wire N) (header_accepted N) header_enc (header_from_wire N)"
  by unfold_locales (auto intro: length_header_enc header_writes reads_header)

interpretation hdr2: wire_codec "header_wire_size 2" "header_to_wire 2" "header_accepted 2" header_enc "header_from_wire 2"
  by (rule header_codec)

interpretation hdr3: wire_codec "header_wire_size 3" "header_to_wire 3" "header_accepted 3" header_enc "header_from_wire 3"
  by (rule header_codec)

interpretation hdr4: wire_codec "header_wire_size 4" "header_to_wire 4" "header_accepted 4" header_enc "header_from_wire 4"
  by (rule header_codec)

interpretation hdr5: wire_codec "header_wire_size 5" "header_to_wire 5" "header_accepted 5" header_enc "header_from_wire 5"
  by (rule header_codec)

interpretation hdr6: wire_codec "header_wire_size 6" "header_to_wire 6" "header_accepted 6" header_enc "header_from_wire 6"
  by (rule header_codec)

interpretation hdr7: wire_codec "header_wire_size 7" "header_to_wire 7" "header_accepted 7" header_enc "header_from_wire 7"
  by (rule header_codec)

interpretation hdr_exact: exact_reader "header_from_wire N" "header_accepted N" header_enc for N
  by unfold_locales (rule header_from_wire_exact)

section \<open>Properties\<close>

text \<open>Section 4.2 of the protocol draft: offsets in order and multiples of four, tags in order, and no tag more than once.\<close>

definition header_conforms :: "nat \<Rightarrow> header \<Rightarrow> bool" where
  "header_conforms N h \<longleftrightarrow>
     hdr_num_tags h = of_nat N \<and> length (hdr_offsets h) = N - 1 \<and> length (hdr_tags h) = N \<and>
     sorted (hdr_offsets h) \<and> list_all aligned (hdr_offsets h) \<and>
     sorted_wrt (<) (hdr_tags h) \<and> INVALID \<notin> set (hdr_tags h)"

lemma header_conforms_iff: "header_conforms N h \<longleftrightarrow> header_accepted N h \<and> distinct (hdr_tags h)"
  by (auto simp: header_conforms_def header_accepted_def strict_sorted_iff)


end
