(* ===== verification/Versions.thy ===== *)
theory Versions
  imports Header
begin

text \<open>
  Protocol versions (\<^verbatim>\<open>protocol_ver.rs\<close>), version lists (\<^verbatim>\<open>version_list.rs\<close>) and the VER, VERS
  and TYPE tag values (\<^verbatim>\<open>tags/ver.rs\<close>, \<^verbatim>\<open>tags/vers.rs\<close>, \<^verbatim>\<open>tags/mtype.rs\<close>). The newtypes
  \<open>RequestedVersions\<close> and \<open>SupportedVersions\<close> around \<open>VersionList\<close>, and \<open>VersionList\<close> around its
  vector, are transparent in the model.
\<close>

section \<open>Protocol versions\<close>

datatype protocol_version = RfcDraft08 | RfcDraft14

fun version_value :: "protocol_version \<Rightarrow> u32" where
  "version_value RfcDraft08 = 0x80000008"
| "version_value RfcDraft14 = 0x8000000c"

text \<open>The derived \<open>Ord\<close> instance orders an enumeration by its discriminants.\<close>

instantiation protocol_version :: linorder
begin

definition less_eq_protocol_version :: "protocol_version \<Rightarrow> protocol_version \<Rightarrow> bool" where
  "less_eq_protocol_version v w \<longleftrightarrow> version_value v \<le> version_value w"

definition less_protocol_version :: "protocol_version \<Rightarrow> protocol_version \<Rightarrow> bool" where
  "less_protocol_version v w \<longleftrightarrow> version_value v < version_value w"

instance
proof
  fix v w :: protocol_version
  show "v \<le> w \<Longrightarrow> w \<le> v \<Longrightarrow> v = w"
    by (cases v; cases w) (simp_all add: less_eq_protocol_version_def)
qed (auto simp: less_eq_protocol_version_def less_protocol_version_def)

end

text \<open>A Rust byte-string literal.\<close>

definition ascii :: "string \<Rightarrow> bytes" where
  "ascii s = map of_char s"

fun dele_prefix :: "protocol_version \<Rightarrow> bytes" where
  "dele_prefix RfcDraft08 = ascii ''RoughTime v1 delegation signature--'' @ [0]"
| "dele_prefix RfcDraft14 = ascii ''RoughTime v1 delegation signature'' @ [0]"

definition srep_prefix :: "protocol_version \<Rightarrow> bytes" where
  "srep_prefix v = ascii ''RoughTime v1 response signature'' @ [0]"

fun requires_type_tag :: "protocol_version \<Rightarrow> bool" where
  "requires_type_tag RfcDraft08 = False"
| "requires_type_tag RfcDraft14 = True"

definition version_wire_size :: "protocol_version \<Rightarrow> nat" where
  "version_wire_size v = 4"

definition version_to_wire :: "protocol_version \<Rightarrow> unit cursor_op" where
  "version_to_wire v = put_u32_le (version_value v)"

definition version_from_wire :: "protocol_version cursor_op" where
  "version_from_wire =
     bind try_get_u32_le (\<lambda>val.
     if val = 0x00000000 \<or> val = 0x80000008 then ret RfcDraft08
     else if val = 0x8000000c then ret RfcDraft14
     else fail (InvalidVersion val))"

text \<open>\<open>u8::to_ascii_lowercase\<close> on a string.\<close>

definition ascii_lower :: "char \<Rightarrow> char" where
  "ascii_lower c = (let n = of_char c :: nat in if 65 \<le> n \<and> n \<le> 90 then char_of (n + 32) else c)"

definition version_from_str :: "string \<Rightarrow> (error, protocol_version) outcome" where
  "version_from_str s =
     (let l = map ascii_lower s in
      if l = ''8'' \<or> l = ''draft-08'' \<or> l = ''draft08'' then Ok RfcDraft08
      else if l = ''14'' \<or> l = ''draft-14'' \<or> l = ''draft14'' \<or> l = ''ietf-roughtime'' then Ok RfcDraft14
      else Err (InvalidVersion (- 1)))"

section \<open>Version lists\<close>

type_synonym version_list = "protocol_version list"

definition MAX_VERSIONS :: nat where
  "MAX_VERSIONS = 32"

definition version_list_new :: "protocol_version list \<Rightarrow> version_list" where
  "version_list_new vs = (let count = min (length vs) MAX_VERSIONS in take count vs)"

definition is_supported :: "version_list \<Rightarrow> protocol_version \<Rightarrow> bool" where
  "is_supported vl v \<longleftrightarrow> List.member vl v"

definition version_list_wire_size :: "version_list \<Rightarrow> nat" where
  "version_list_wire_size vl = length vl * 4"

definition version_list_to_wire :: "version_list \<Rightarrow> unit cursor_op" where
  "version_list_to_wire vl = for_each version_to_wire vl"

text \<open>
  The loop of \<open>VersionList::from_wire_n\<close>. Its first number is \<open>MAX_VERSIONS - versions.len()\<close>, the
  rounds the second loop condition still allows; \<open>remaining -= 4\<close> is where a length that is not a
  multiple of four underflows.
\<close>

primrec read_versions ::
  "profile \<Rightarrow> nat \<Rightarrow> nat \<Rightarrow> version_list \<Rightarrow> protocol_version option \<Rightarrow> version_list cursor_op" where
  "read_versions p 0 remaining_n versions prior = ret versions"
| "read_versions p (Suc k) remaining_n versions prior =
     (if remaining_n = 0 then ret versions
      else bind version_from_wire (\<lambda>version.
        if (case prior of Some pr \<Rightarrow> version < pr | None \<Rightarrow> False)
        then fail (UnorderedVersion (of_nat (length versions)) (version_value version))
        else bind (lift (sub_usize p remaining_n (version_wire_size version))) (\<lambda>remaining'.
          read_versions p k remaining' (versions @ [version]) (Some version))))"

definition version_list_from_wire_n :: "profile \<Rightarrow> nat \<Rightarrow> version_list cursor_op" where
  "version_list_from_wire_n p n = read_versions p MAX_VERSIONS n [] None"

definition version_list_from_wire :: "profile \<Rightarrow> version_list cursor_op" where
  "version_list_from_wire p = bind (asks remaining) (\<lambda>n. version_list_from_wire_n p n)"

text \<open>\<open>RequestedVersions\<close> (VER) and \<open>SupportedVersions\<close> (VERS).\<close>

definition requested_versions_new :: "protocol_version list \<Rightarrow> version_list" where
  "requested_versions_new vs = version_list_new vs"

definition requested_versions_default :: version_list where
  "requested_versions_default = version_list_new [RfcDraft14]"

definition supported_versions_new :: "protocol_version list \<Rightarrow> version_list" where
  "supported_versions_new vs = version_list_new vs"

definition supported_versions_default :: version_list where
  "supported_versions_default = []"

definition ver_wire_size :: "version_list \<Rightarrow> nat" where
  "ver_wire_size v = version_list_wire_size v"

definition ver_to_wire :: "version_list \<Rightarrow> unit cursor_op" where
  "ver_to_wire v = version_list_to_wire v"

definition ver_from_wire_n :: "profile \<Rightarrow> nat \<Rightarrow> version_list cursor_op" where
  "ver_from_wire_n p n = version_list_from_wire_n p n"

definition ver_from_wire :: "profile \<Rightarrow> version_list cursor_op" where
  "ver_from_wire p = bind (asks remaining) (\<lambda>n. ver_from_wire_n p n)"

definition vers_wire_size :: "version_list \<Rightarrow> nat" where
  "vers_wire_size v = version_list_wire_size v"

definition vers_to_wire :: "version_list \<Rightarrow> unit cursor_op" where
  "vers_to_wire v = version_list_to_wire v"

definition vers_from_wire_n :: "profile \<Rightarrow> nat \<Rightarrow> version_list cursor_op" where
  "vers_from_wire_n p n = version_list_from_wire_n p n"

definition vers_from_wire :: "profile \<Rightarrow> version_list cursor_op" where
  "vers_from_wire p = bind (asks remaining) (\<lambda>n. vers_from_wire_n p n)"

section \<open>Message types\<close>

datatype message_type = RequestType | ResponseType | InvalidType

fun message_type_value :: "message_type \<Rightarrow> u32" where
  "message_type_value RequestType = 0x00000000"
| "message_type_value ResponseType = 0x00000001"
| "message_type_value InvalidType = 0xffffffff"

definition message_type_wire_size :: "message_type \<Rightarrow> nat" where
  "message_type_wire_size t = 4"

definition message_type_to_wire :: "message_type \<Rightarrow> unit cursor_op" where
  "message_type_to_wire t = put_u32_le (message_type_value t)"

definition message_type_from_wire :: "message_type cursor_op" where
  "message_type_from_wire =
     bind try_get_u32_le (\<lambda>val.
     if val = 0x00000000 then ret RequestType
     else if val = 0x00000001 then ret ResponseType
     else fail (InvalidMessageType val))"

section \<open>Encodings\<close>

definition version_enc :: "protocol_version \<Rightarrow> bytes" where
  "version_enc v = u32_to_le_bytes (version_value v)"

definition version_list_enc :: "version_list \<Rightarrow> bytes" where
  "version_list_enc vl = concat (map version_enc vl)"

definition version_list_valid :: "version_list \<Rightarrow> bool" where
  "version_list_valid vl \<longleftrightarrow> length vl \<le> MAX_VERSIONS \<and> sorted vl"

definition message_type_enc :: "message_type \<Rightarrow> bytes" where
  "message_type_enc t = u32_to_le_bytes (message_type_value t)"

lemma length_version_enc [simp]:
  "length (version_enc v) = 4" "length (message_type_enc t) = 4"
  "length (version_list_enc vl) = 4 * length vl"
  by (simp_all add: version_enc_def message_type_enc_def version_list_enc_def length_concat_const [where n = 4])

lemma reads_version: "reads version_from_wire pre (version_enc v) suf v"
  by (cases v) (simp_all add: reads_def version_from_wire_def version_enc_def cursor_run)

lemmas run_version [cursor_run] = reads_version [THEN reads_run]

lemma reads_message_type: "t \<noteq> InvalidType \<Longrightarrow> reads message_type_from_wire pre (message_type_enc t) suf t"
  by (cases t) (simp_all add: reads_def message_type_from_wire_def message_type_enc_def cursor_run)

lemmas run_message_type [cursor_run] = reads_message_type [THEN reads_run]

lemma writes_versions [writes_intro]:
  "writes (version_to_wire v) (version_enc v)"
  "writes (message_type_to_wire t) (message_type_enc t)"
  "writes (version_list_to_wire vl) (version_list_enc vl)"
  "writes (ver_to_wire vl) (version_list_enc vl)"
  "writes (vers_to_wire vl) (version_list_enc vl)"
  unfolding ver_to_wire_def vers_to_wire_def version_list_to_wire_def version_to_wire_def
    message_type_to_wire_def version_list_enc_def version_enc_def message_type_enc_def
  by (auto intro!: writes_intro writes_for_each)

lemma reads_read_versions:
  assumes "length vs \<le> k" "sorted vs" "case prior of Some pr \<Rightarrow> \<forall>v\<in>set vs. pr \<le> v | None \<Rightarrow> True"
  shows "reads (read_versions p k (4 * length vs) acc prior) pre (version_list_enc vs) suf (acc @ vs)"
  using assms
proof (induction vs arbitrary: k acc prior pre)
  case Nil
  then show ?case by (cases k) (simp_all add: reads_def cursor_run version_list_enc_def)
next
  case (Cons v vs)
  then obtain k' where k: "k = Suc k'" by (cases k) auto
  have "reads (read_versions p k' (4 * length vs) (acc @ [v]) (Some v)) (pre @ version_enc v)
          (version_list_enc vs) suf ((acc @ [v]) @ vs)"
    using Cons.prems by (intro Cons.IH) (auto simp: k)
  moreover have "\<not> (case prior of Some pr \<Rightarrow> v < pr | None \<Rightarrow> False)"
    using Cons.prems(3) by (auto split: option.splits)
  ultimately show ?case
    by (simp add: reads_def cursor_run k version_list_enc_def version_wire_size_def)
qed

lemma reads_version_list [reads_intro]:
  assumes "version_list_valid vl" "n = 4 * length vl"
  shows "reads (version_list_from_wire_n p n) pre (version_list_enc vl) suf vl"
    and "reads (ver_from_wire_n p n) pre (version_list_enc vl) suf vl"
    and "reads (vers_from_wire_n p n) pre (version_list_enc vl) suf vl"
  using reads_read_versions [of vl MAX_VERSIONS None p "[]" pre suf] assms
  by (simp_all add: version_list_from_wire_n_def version_list_valid_def ver_from_wire_n_def vers_from_wire_n_def)

interpretation version_codec: wire_codec version_wire_size version_to_wire "\<lambda>_. True" version_enc version_from_wire
  by unfold_locales (auto simp: version_wire_size_def intro: writes_intro reads_version)

interpretation mtype_codec:
  wire_codec message_type_wire_size message_type_to_wire "\<lambda>t. t \<noteq> InvalidType" message_type_enc message_type_from_wire
  by unfold_locales (auto simp: message_type_wire_size_def intro: writes_intro reads_message_type)

interpretation ver_message:
  wire_message ver_wire_size ver_to_wire version_list_valid version_list_enc "ver_from_wire p" for p
  by unfold_locales
    (auto simp: ver_wire_size_def version_list_wire_size_def ver_from_wire_def
      intro!: writes_intro reads_endD reads_bind0 reads_asks reads_version_list)

interpretation vers_message:
  wire_message vers_wire_size vers_to_wire version_list_valid version_list_enc "vers_from_wire p" for p
  by unfold_locales
    (auto simp: vers_wire_size_def version_list_wire_size_def vers_from_wire_def
      intro!: writes_intro reads_endD reads_bind0 reads_asks reads_version_list)

section \<open>Panic freedom\<close>

lemma safe_version [safe_intro]: "safe version_from_wire" "safe message_type_from_wire"
  unfolding version_from_wire_def message_type_from_wire_def by (intro safe_intro)+

lemma safe_read_versions:
  "p = Release \<or> n mod 4 = 0 \<Longrightarrow> safe (read_versions p k n acc prior)"
proof (induction k arbitrary: n acc prior)
  case (Suc k)
  have "safe (bind (lift (sub_usize p n (version_wire_size v))) (\<lambda>n'. read_versions p k n' (acc @ [v]) (Some v)))"
    if "n \<noteq> 0" for v
  proof (cases "4 \<le> n")
    case True
    then have "p = Release \<or> (n - 4) mod 4 = 0" using Suc.prems by (auto simp: mod_eq_0_iff_dvd)
    then show ?thesis using Suc.IH True by (simp add: version_wire_size_def bind_lift_Ok)
  next
    case False
    then have "p = Release" using Suc.prems that by (auto simp: mod_eq_0_iff_dvd dest: dvd_imp_le)
    then show ?thesis using Suc.IH by (auto simp: sub_usize_def intro!: safe_intro)
  qed
  then show ?case unfolding read_versions.simps
    by (intro safe_if safe_ret safe_bind [OF safe_version(1)] safe_fail)
qed (simp add: safe_ret)

lemma safe_version_list [safe_intro]:
  assumes "p = Release \<or> n mod 4 = 0"
  shows "safe (version_list_from_wire_n p n)" "safe (ver_from_wire_n p n)" "safe (vers_from_wire_n p n)"
  using safe_read_versions [OF assms]
  by (simp_all add: version_list_from_wire_n_def ver_from_wire_n_def vers_from_wire_n_def)

section \<open>Properties\<close>

text \<open>A version list read from a declared length of \<open>n\<close> bytes: reading back what was
  written returns the list (round trip, wherever it stands in a buffer), and with \<open>n\<close> not a multiple
  of four the loop's \<open>remaining -= 4\<close> underflows: a debug build panics on four bytes holding a
  supported version and a declared length of \<open>n = 1\<close>.\<close>

lemma version_list_round_trip:
  "(version_list_valid vl \<longrightarrow>
      version_list_from_wire_n p (version_list_wire_size vl) (cursor_at pre (version_list_enc vl @ suf))
        = Ok (vl, cursor_at (pre @ version_list_enc vl) suf)) \<and>
   version_list_from_wire_n Debug 1 (cursor_at pre (version_enc v @ suf)) = Panic"
proof (intro conjI impI)
  assume "version_list_valid vl"
  from readsD [OF reads_version_list(1) [OF this, of "version_list_wire_size vl"]]
  show "version_list_from_wire_n p (version_list_wire_size vl) (cursor_at pre (version_list_enc vl @ suf))
        = Ok (vl, cursor_at (pre @ version_list_enc vl) suf)"
    by (simp add: version_list_wire_size_def)
next
  have "read_versions Debug (Suc k) 1 [] None (cursor_at pre (version_enc v @ suf)) = Panic" for k
    by (simp add: cursor_run sub_usize_def version_wire_size_def)
  from this [of 31] show "version_list_from_wire_n Debug 1 (cursor_at pre (version_enc v @ suf)) = Panic"
    by (simp add: version_list_from_wire_n_def MAX_VERSIONS_def)
qed

end
