(* ===== verification/Tag_Values.thy ===== *)
theory Tag_Values
  imports Versions
begin

text \<open>
  Values of single tags: the fixed-size values of \<^verbatim>\<open>tags/fixed_tag.rs\<close> and its users NONC, PUBK,
  SIG and ROOT, the SRV commitment (\<^verbatim>\<open>tags/srv.rs\<close>) and the Merkle path PATH
  (\<^verbatim>\<open>tags/path.rs\<close>). A \<open>[u8; N]\<close> is a byte list; its length is part of the validity predicates.
\<close>

section \<open>Fixed-size tags\<close>

type_synonym fixed_tag = bytes

definition fixed_tag_from_slice :: "nat \<Rightarrow> bytes \<Rightarrow> (error, fixed_tag) outcome" where
  "fixed_tag_from_slice N xs =
     (if length xs \<noteq> N then Err (WrongTagSize N (length xs)) else Ok xs)"

definition fixed_tag_default :: "nat \<Rightarrow> fixed_tag" where
  "fixed_tag_default N = replicate N 0"

definition fixed_tag_wire_size :: "nat \<Rightarrow> fixed_tag \<Rightarrow> nat" where
  "fixed_tag_wire_size N t = N"

definition fixed_tag_to_wire :: "fixed_tag \<Rightarrow> unit cursor_op" where
  "fixed_tag_to_wire t = try_put_fixed t"

definition fixed_tag_from_wire :: "nat \<Rightarrow> fixed_tag cursor_op" where
  "fixed_tag_from_wire N = try_get_fixed N"

text \<open>\<open>data.copy_from_slice(bytes)\<close> panics on a length mismatch.\<close>

definition copy_array :: "nat \<Rightarrow> bytes \<Rightarrow> ('e, bytes) outcome" where
  "copy_array N bs = (if length bs = N then Ok bs else Panic)"

type_synonym nonce = fixed_tag
type_synonym public_key = fixed_tag
type_synonym signature = fixed_tag
type_synonym merkle_root = fixed_tag

definition nonce_wire_size :: "nonce \<Rightarrow> nat" where
  "nonce_wire_size n = 32"

definition nonce_to_wire :: "nonce \<Rightarrow> unit cursor_op" where
  "nonce_to_wire n = fixed_tag_to_wire n"

definition nonce_from_wire :: "nonce cursor_op" where
  "nonce_from_wire = try_get_fixed 32"

definition nonce_from_slice :: "bytes \<Rightarrow> ('e, nonce) outcome" where
  "nonce_from_slice bs = copy_array 32 bs"

definition pubk_wire_size :: "public_key \<Rightarrow> nat" where
  "pubk_wire_size k = 32"

definition pubk_to_wire :: "public_key \<Rightarrow> unit cursor_op" where
  "pubk_to_wire k = fixed_tag_to_wire k"

definition pubk_from_wire :: "public_key cursor_op" where
  "pubk_from_wire = try_get_fixed 32"

definition pubk_from_slice :: "bytes \<Rightarrow> ('e, public_key) outcome" where
  "pubk_from_slice bs = copy_array 32 bs"

definition sig_wire_size :: "signature \<Rightarrow> nat" where
  "sig_wire_size s = 64"

definition sig_to_wire :: "signature \<Rightarrow> unit cursor_op" where
  "sig_to_wire s = fixed_tag_to_wire s"

definition sig_from_wire :: "signature cursor_op" where
  "sig_from_wire = try_get_fixed 64"

definition sig_default :: signature where
  "sig_default = fixed_tag_default 64"

definition root_wire_size :: "merkle_root \<Rightarrow> nat" where
  "root_wire_size r = 32"

definition root_to_wire :: "merkle_root \<Rightarrow> unit cursor_op" where
  "root_to_wire r = fixed_tag_to_wire r"

definition root_from_wire :: "merkle_root cursor_op" where
  "root_from_wire = try_get_fixed 32"

type_synonym srv_commitment = bytes

definition srv_wire_size :: "srv_commitment \<Rightarrow> nat" where
  "srv_wire_size s = 32"

definition srv_to_wire :: "srv_commitment \<Rightarrow> unit cursor_op" where
  "srv_to_wire s = bind (need (srv_wire_size s)) (\<lambda>_. put_slice s)"

definition srv_from_wire :: "srv_commitment cursor_op" where
  "srv_from_wire = try_copy_to_slice 32"

definition srv_try_from :: "bytes \<Rightarrow> (error, srv_commitment) outcome" where
  "srv_try_from val = (if length val \<noteq> 32 then Err (BufferTooSmall 32 (length val)) else Ok val)"

section \<open>Merkle paths\<close>

text \<open>The whole fixed buffer is part of the value (and of the derived equality), so the bytes
  behind the \<open>num_paths\<close> elements in use are kept: \<open>clear\<close> and \<open>copy_from\<close> leave them stale.\<close>

record merkle_path =
  mp_num_paths :: nat
  mp_data :: bytes

definition MAX_PATHS :: nat where
  "MAX_PATHS = 32"

definition ELEMENT_SIZE :: nat where
  "ELEMENT_SIZE = 32"

definition path_capacity :: nat where
  "path_capacity = MAX_PATHS * ELEMENT_SIZE"

definition paths :: "merkle_path \<Rightarrow> bytes" where
  "paths mp = take (mp_num_paths mp * ELEMENT_SIZE) (mp_data mp)"

definition path_depth :: "merkle_path \<Rightarrow> nat" where
  "path_depth mp = mp_num_paths mp"

definition path_is_empty :: "merkle_path \<Rightarrow> bool" where
  "path_is_empty mp \<longleftrightarrow> mp_num_paths mp = 0"

text \<open>\<open>chunks(n)\<close> for \<open>n > 0\<close>.\<close>

function chunks :: "nat \<Rightarrow> 'a list \<Rightarrow> 'a list list" where
  "chunks n xs = (if xs = [] \<or> n = 0 then [] else take n xs # chunks n (drop n xs))"
  by pat_completeness auto
termination by (relation "measure (length \<circ> snd)") auto

declare chunks.simps [simp del]

definition path_elements :: "merkle_path \<Rightarrow> bytes list" where
  "path_elements mp = chunks ELEMENT_SIZE (paths mp)"

definition path_clear :: "merkle_path \<Rightarrow> merkle_path" where
  "path_clear mp = mp\<lparr>mp_num_paths := 0\<rparr>"

definition push_element :: "bytes \<Rightarrow> merkle_path \<Rightarrow> ('e, merkle_path) outcome" where
  "push_element element mp =
     and_then (assert_that (mp_num_paths mp < MAX_PATHS)) (\<lambda>_.
     let start_idx = mp_num_paths mp * ELEMENT_SIZE; end_idx = start_idx + ELEMENT_SIZE in
     Ok (mp\<lparr>mp_data := take start_idx (mp_data mp) @ element @ drop end_idx (mp_data mp),
            mp_num_paths := mp_num_paths mp + 1\<rparr>))"

definition path_copy_from :: "merkle_path \<Rightarrow> merkle_path \<Rightarrow> merkle_path" where
  "path_copy_from other mp =
     (let end_idx = mp_num_paths other * ELEMENT_SIZE in
      mp\<lparr>mp_num_paths := mp_num_paths other,
         mp_data := take end_idx (mp_data other) @ drop end_idx (mp_data mp)\<rparr>)"

definition path_default :: merkle_path where
  "path_default = \<lparr>mp_num_paths = 0, mp_data = replicate (MAX_PATHS * ELEMENT_SIZE) 0\<rparr>"

definition path_wire_size :: "merkle_path \<Rightarrow> nat" where
  "path_wire_size mp = mp_num_paths mp * ELEMENT_SIZE"

definition path_to_wire :: "merkle_path \<Rightarrow> unit cursor_op" where
  "path_to_wire mp =
     (if mp_num_paths mp = 0 then ret ()
      else bind (need (path_wire_size mp)) (\<lambda>_. put_slice (paths mp)))"

definition path_from_wire_n :: "nat \<Rightarrow> merkle_path cursor_op" where
  "path_from_wire_n n =
     (if n = 0 then ret path_default
      else if n > path_capacity then fail (BufferTooSmall n path_capacity)
      else if n mod ELEMENT_SIZE \<noteq> 0 then fail (InvalidPathLength (of_nat n))
      else bind (try_copy_to_slice n) (\<lambda>bs.
        ret \<lparr>mp_num_paths = n div ELEMENT_SIZE, mp_data = bs @ replicate (path_capacity - n) 0\<rparr>))"

definition path_from_wire :: "merkle_path cursor_op" where
  "path_from_wire = bind (asks remaining) (\<lambda>n. path_from_wire_n n)"

definition path_try_from :: "bytes \<Rightarrow> (error, merkle_path) outcome" where
  "path_try_from data =
     and_then (path_from_wire_n (length data) (cursor_new data)) (\<lambda>(mp, _). Ok mp)"

section \<open>Codecs of the fixed-size values\<close>

definition sized :: "nat \<Rightarrow> bytes \<Rightarrow> bool" where
  "sized N bs \<longleftrightarrow> length bs = N"

lemma length_default [simp]: "length (fixed_tag_default N) = N" "sized N (fixed_tag_default N)"
  by (simp_all add: fixed_tag_default_def sized_def)

lemmas value_from_wire_defs =
  fixed_tag_from_wire_def nonce_from_wire_def pubk_from_wire_def sig_from_wire_def root_from_wire_def
  srv_from_wire_def

lemmas value_to_wire_defs =
  fixed_tag_to_wire_def nonce_to_wire_def pubk_to_wire_def sig_to_wire_def root_to_wire_def
  srv_to_wire_def

lemmas value_size_defs =
  fixed_tag_wire_size_def nonce_wire_size_def pubk_wire_size_def sig_wire_size_def root_wire_size_def
  srv_wire_size_def

lemma writes_values [writes_intro]:
  "writes (fixed_tag_to_wire bs) bs" "writes (nonce_to_wire bs) bs" "writes (pubk_to_wire bs) bs"
  "writes (sig_to_wire bs) bs" "writes (root_to_wire bs) bs"
  "length bs = 32 \<Longrightarrow> writes (srv_to_wire bs) bs"
  by (auto simp: value_to_wire_defs value_size_defs intro!: writes_intro writes_guarded)

lemma reads_values [reads_intro]:
  "length bs = 32 \<Longrightarrow> reads nonce_from_wire pre bs suf bs"
  "length bs = 32 \<Longrightarrow> reads pubk_from_wire pre bs suf bs"
  "length bs = 64 \<Longrightarrow> reads sig_from_wire pre bs suf bs"
  "length bs = 32 \<Longrightarrow> reads root_from_wire pre bs suf bs"
  "length bs = 32 \<Longrightarrow> reads srv_from_wire pre bs suf bs"
  by (auto simp: value_from_wire_defs intro: reads_intro)

lemmas run_values [cursor_run] = reads_values [THEN reads_run] reads_values [THEN reads_run_end]

lemma safe_values [safe_intro]:
  "safe (fixed_tag_from_wire N)" "safe nonce_from_wire" "safe pubk_from_wire" "safe sig_from_wire"
  "safe root_from_wire" "safe srv_from_wire"
  by (simp_all add: value_from_wire_defs safe_intro)

lemma values_Ok:
  "wf_cursor c \<Longrightarrow> nonce_from_wire c = Ok (bs, c') \<Longrightarrow> length bs = 32 \<and> consumes c bs c'"
  "wf_cursor c \<Longrightarrow> pubk_from_wire c = Ok (bs, c') \<Longrightarrow> length bs = 32 \<and> consumes c bs c'"
  "wf_cursor c \<Longrightarrow> sig_from_wire c = Ok (bs, c') \<Longrightarrow> length bs = 64 \<and> consumes c bs c'"
  "wf_cursor c \<Longrightarrow> root_from_wire c = Ok (bs, c') \<Longrightarrow> length bs = 32 \<and> consumes c bs c'"
  "wf_cursor c \<Longrightarrow> srv_from_wire c = Ok (bs, c') \<Longrightarrow> length bs = 32 \<and> consumes c bs c'"
  by (auto simp: value_from_wire_defs dest: try_get_Ok)

interpretation fixed_codec:
  wire_codec "fixed_tag_wire_size N" fixed_tag_to_wire "sized N" "\<lambda>t. t" "fixed_tag_from_wire N" for N
  by unfold_locales (auto simp: sized_def value_size_defs value_from_wire_defs intro: writes_intro reads_intro)

interpretation nonce_codec: wire_codec nonce_wire_size nonce_to_wire "sized 32" "\<lambda>t. t" nonce_from_wire
  by unfold_locales (auto simp: sized_def value_size_defs intro: writes_intro reads_intro)

interpretation pubk_codec: wire_codec pubk_wire_size pubk_to_wire "sized 32" "\<lambda>t. t" pubk_from_wire
  by unfold_locales (auto simp: sized_def value_size_defs intro: writes_intro reads_intro)

interpretation sig_codec: wire_codec sig_wire_size sig_to_wire "sized 64" "\<lambda>t. t" sig_from_wire
  by unfold_locales (auto simp: sized_def value_size_defs intro: writes_intro reads_intro)

interpretation root_codec: wire_codec root_wire_size root_to_wire "sized 32" "\<lambda>t. t" root_from_wire
  by unfold_locales (auto simp: sized_def value_size_defs intro: writes_intro reads_intro)

interpretation srv_codec: wire_codec srv_wire_size srv_to_wire "sized 32" "\<lambda>t. t" srv_from_wire
  by unfold_locales (auto simp: sized_def value_size_defs intro: writes_intro reads_intro)

section \<open>Codec of paths\<close>

definition path_ok :: "merkle_path \<Rightarrow> bool" where
  "path_ok mp \<longleftrightarrow> mp_num_paths mp \<le> MAX_PATHS \<and> length (mp_data mp) = path_capacity"

text \<open>A path as the parser builds it: nothing but zeros behind the elements in use.\<close>

definition path_canon :: "merkle_path \<Rightarrow> merkle_path" where
  "path_canon mp = mp\<lparr>mp_data := paths mp @ replicate (path_capacity - mp_num_paths mp * ELEMENT_SIZE) 0\<rparr>"

definition path_valid :: "merkle_path \<Rightarrow> bool" where
  "path_valid mp \<longleftrightarrow> path_ok mp \<and> path_canon mp = mp"

lemmas path_consts = MAX_PATHS_def ELEMENT_SIZE_def path_capacity_def

lemma length_paths [simp]: "path_ok mp \<Longrightarrow> length (paths mp) = mp_num_paths mp * 32"
  by (simp add: paths_def path_ok_def path_consts)

lemma paths_canon [simp]: "path_ok mp \<Longrightarrow> paths (path_canon mp) = paths mp"
  using length_paths [of mp] by (simp add: paths_def path_canon_def path_consts path_ok_def)

lemma path_valid_canon: "path_ok mp \<Longrightarrow> path_valid (path_canon mp)"
  using length_paths [of mp] paths_canon [of mp]
  by (auto simp: path_valid_def path_ok_def path_consts path_canon_def)

lemma path_ok_ops:
  "path_ok path_default" "path_ok mp \<Longrightarrow> path_ok (path_clear mp)"
  "path_ok mp \<Longrightarrow> path_ok other \<Longrightarrow> path_ok (path_copy_from other mp)"
  "path_ok mp \<Longrightarrow> length e = 32 \<Longrightarrow> push_element e mp = Ok mp' \<Longrightarrow> path_ok mp'"
  by (auto simp: path_ok_def path_default_def path_clear_def path_copy_from_def push_element_def
      path_consts and_then_Ok_iff Let_def)

lemma paths_ops:
  "paths path_default = []" "paths (path_clear mp) = []"
  "path_ok mp \<Longrightarrow> path_ok other \<Longrightarrow> paths (path_copy_from other mp) = paths other"
  "path_ok mp \<Longrightarrow> length e = 32 \<Longrightarrow> push_element e mp = Ok mp' \<Longrightarrow> paths mp' = paths mp @ e"
  by (auto simp: path_ok_def paths_def path_default_def path_clear_def path_copy_from_def
      push_element_def path_consts and_then_Ok_iff Let_def)

lemma path_valid_default: "path_valid path_default"
  by (simp add: path_valid_def path_ok_ops path_canon_def paths_ops)
    (simp add: path_default_def path_consts)

lemma writes_path [writes_intro]: "path_ok mp \<Longrightarrow> writes (path_to_wire mp) (paths mp)"
proof (cases "mp_num_paths mp = 0")
  case True
  then show ?thesis by (simp add: path_to_wire_def paths_def writes_ret)
next
  case False
  moreover assume "path_ok mp"
  ultimately show ?thesis unfolding path_to_wire_def
    by (auto simp: path_wire_size_def path_consts intro!: writes_guarded writes_intro)
qed

lemma reads_path [reads_intro]:
  assumes ok: "path_ok mp" and n: "n = mp_num_paths mp * 32"
  shows "reads (path_from_wire_n n) pre (paths mp) suf (path_canon mp)"
proof (cases "n = 0")
  case True
  then have "path_canon mp = path_default" "paths mp = []"
    using n by (simp_all add: path_canon_def paths_def path_default_def path_consts)
  with True show ?thesis by (simp add: path_from_wire_n_def reads_def cursor_run)
next
  case False
  have "n \<le> 1024" using assms by (simp add: path_ok_def path_consts)
  moreover have "length (paths mp) = n" using assms by simp
  ultimately show ?thesis using False n
    by (simp add: path_from_wire_n_def path_consts reads_def cursor_run path_canon_def)
qed

lemmas run_path [cursor_run] = reads_path [THEN reads_run] reads_path [THEN reads_run_end]

lemma safe_path [safe_intro]: "safe (path_from_wire_n n)"
  unfolding path_from_wire_n_def by (intro safe_intro)

lemma path_from_wire_n_Ok:
  assumes wf: "wf_cursor c" and ok: "path_from_wire_n n c = Ok (mp, c')"
  shows "path_valid mp \<and> consumes c (paths mp) c' \<and> mp_num_paths mp * 32 = n"
proof (cases "n = 0")
  case True
  then show ?thesis using assms
    by (auto simp: path_from_wire_n_def cursor_run paths_ops path_valid_default consumes_refl)
      (simp add: path_default_def)
next
  case False
  with ok obtain bs where n: "n \<le> 1024" "n mod 32 = 0"
    and bs: "try_copy_to_slice n c = Ok (bs, c')"
    and mp: "mp = \<lparr>mp_num_paths = n div 32, mp_data = bs @ replicate (1024 - n) 0\<rparr>"
    by (auto simp: path_from_wire_n_def path_consts bind_def and_then_Ok_iff ret_def fail_def split: if_splits)
  from n have nn: "n div 32 * 32 = n" "n div 32 \<le> 32" by auto
  from try_get_Ok(2) [OF wf bs] have c: "consumes c bs c'" "length bs = n" by auto
  have p: "paths mp = bs" using c nn by (simp add: mp paths_def path_consts)
  then show ?thesis using c n nn
    by (simp add: path_valid_def path_ok_def path_canon_def path_consts) (simp add: mp)
qed

interpretation path_message: wire_message path_wire_size path_to_wire path_valid paths path_from_wire
proof unfold_locales
  fix m assume m: "path_valid m"
  then have ok: "path_ok m" and c: "path_canon m = m" by (auto simp: path_valid_def)
  show "length (paths m) = path_wire_size m" using ok by (simp add: path_wire_size_def path_consts)
  show "writes (path_to_wire m) (paths m)" using ok by (rule writes_intro)
  show "\<exists>c'. path_from_wire (cursor_at pre (paths m)) = Ok (m, c')" for pre
    unfolding path_from_wire_def
    using reads_path [OF ok, of "length (paths m)" pre "[]"] ok c
    by (auto intro!: reads_endD reads_bind0 reads_asks)
qed

end
