(* ===== verification/Cert.thy ===== *)
theory Cert
  imports Tag_Values
begin

text \<open>
  Delegations (\<^verbatim>\<open>tags/dele.rs\<close>) and certificates (\<^verbatim>\<open>tags/cert.rs\<close>). Both parsers are exact:
  what they accept is the encoding of what they return, so that a signature checked over a
  re-encoded delegation covers the bytes that were received.
\<close>

section \<open>Delegation\<close>

record delegation =
  dele_header :: header
  dele_public_key :: public_key
  dele_min_time :: u64
  dele_max_time :: u64

definition dele_offsets :: "u32 list" where
  "dele_offsets = [32, 32 + 8]"

definition dele_tags :: "tag list" where
  "dele_tags = [PUBK, MINT, MAXT]"

definition dele_default :: delegation where
  "dele_default =
     \<lparr>dele_header = (header_default 3)\<lparr>hdr_offsets := dele_offsets, hdr_tags := dele_tags\<rparr>,
      dele_public_key = fixed_tag_default 32, dele_min_time = 0, dele_max_time = 0\<rparr>"

text \<open>The validity period is a \<open>Duration\<close>, of which only the whole seconds are used.\<close>

definition dele_new :: "public_key \<Rightarrow> u64 \<Rightarrow> u64 \<Rightarrow> delegation" where
  "dele_new pk now_epoch_sec validity_secs =
     dele_default\<lparr>dele_public_key := pk, dele_min_time := now_epoch_sec,
                  dele_max_time := saturating_add now_epoch_sec validity_secs\<rparr>"

definition dele_set_pubk :: "public_key \<Rightarrow> delegation \<Rightarrow> delegation" where
  "dele_set_pubk pk d = d\<lparr>dele_public_key := pk\<rparr>"

definition dele_set_mint :: "u64 \<Rightarrow> delegation \<Rightarrow> delegation" where
  "dele_set_mint t d = d\<lparr>dele_min_time := t\<rparr>"

definition dele_set_maxt :: "u64 \<Rightarrow> delegation \<Rightarrow> delegation" where
  "dele_set_maxt t d = d\<lparr>dele_max_time := t\<rparr>"

definition dele_from_wire :: "delegation cursor_op" where
  "dele_from_wire =
     bind (header_from_wire 3) (\<lambda>h.
     bind pubk_from_wire (\<lambda>pk.
     bind try_get_u64_le (\<lambda>mint.
     bind try_get_u64_le (\<lambda>maxt.
     if hdr_offsets h \<noteq> dele_offsets then fail UnexpectedOffsets
     else if hdr_tags h \<noteq> dele_tags then fail UnexpectedTags
     else ret \<lparr>dele_header = h, dele_public_key = pk, dele_min_time = mint, dele_max_time = maxt\<rparr>))))"

text \<open>\<open>size_of::<Delegation>()\<close> of the \<open>repr(C)\<close> struct: 24 + 32 + 8 + 8.\<close>

definition dele_wire_size :: "delegation \<Rightarrow> nat" where
  "dele_wire_size d = 72"

definition dele_to_wire :: "delegation \<Rightarrow> unit cursor_op" where
  "dele_to_wire d =
     bind (header_to_wire 3 (dele_header d)) (\<lambda>_.
     bind (pubk_to_wire (dele_public_key d)) (\<lambda>_.
     bind (put_u64_le (dele_min_time d)) (\<lambda>_.
     put_u64_le (dele_max_time d))))"

section \<open>Certificate\<close>

record certificate =
  cert_header :: header
  cert_signature :: signature
  cert_delegation :: delegation

definition cert_offsets :: "u32 list" where
  "cert_offsets = [64]"

definition cert_tags :: "tag list" where
  "cert_tags = [SIG, DELE]"

definition cert_default :: certificate where
  "cert_default =
     \<lparr>cert_header = (header_default 2)\<lparr>hdr_offsets := cert_offsets, hdr_tags := cert_tags\<rparr>,
      cert_signature = sig_default, cert_delegation = dele_default\<rparr>"

definition cert_new :: "signature \<Rightarrow> delegation \<Rightarrow> certificate" where
  "cert_new sg dele = cert_default\<lparr>cert_signature := sg, cert_delegation := dele\<rparr>"

definition cert_set_sig :: "signature \<Rightarrow> certificate \<Rightarrow> certificate" where
  "cert_set_sig sg c = c\<lparr>cert_signature := sg\<rparr>"

definition cert_set_dele :: "delegation \<Rightarrow> certificate \<Rightarrow> certificate" where
  "cert_set_dele d c = c\<lparr>cert_delegation := d\<rparr>"

definition cert_from_wire :: "certificate cursor_op" where
  "cert_from_wire =
     bind (header_from_wire 2) (\<lambda>h.
     bind sig_from_wire (\<lambda>sg.
     bind dele_from_wire (\<lambda>dele.
     if hdr_offsets h \<noteq> cert_offsets then fail UnexpectedOffsets
     else if hdr_tags h \<noteq> cert_tags then fail UnexpectedTags
     else ret \<lparr>cert_header = h, cert_signature = sg, cert_delegation = dele\<rparr>)))"

text \<open>\<open>size_of::<Certificate>()\<close>: 16 + 64 + 72.\<close>

definition cert_wire_size :: "certificate \<Rightarrow> nat" where
  "cert_wire_size c = 152"

definition cert_to_wire :: "certificate \<Rightarrow> unit cursor_op" where
  "cert_to_wire c =
     bind (header_to_wire 2 (cert_header c)) (\<lambda>_.
     bind (sig_to_wire (cert_signature c)) (\<lambda>_.
     dele_to_wire (cert_delegation c)))"

section \<open>Encodings\<close>

text \<open>The header with given offsets and tags, as the \<open>Default\<close> instances build it.\<close>

definition header_of :: "u32 list \<Rightarrow> tag list \<Rightarrow> header" where
  "header_of offs ts = \<lparr>hdr_num_tags = of_nat (length ts), hdr_offsets = offs, hdr_tags = ts\<rparr>"

lemma header_of_simps [simp]:
  "hdr_offsets (header_of offs ts) = offs" "hdr_tags (header_of offs ts) = ts"
  by (simp_all add: header_of_def)

lemma header_of_default:
  "N = length ts \<Longrightarrow> (header_default N)\<lparr>hdr_offsets := offs, hdr_tags := ts\<rparr> = header_of offs ts"
  by (simp add: header_of_def header_default_def)

lemma header_valid_of:
  "header_accepted N h \<Longrightarrow> hdr_offsets h = offs \<Longrightarrow> hdr_tags h = ts \<Longrightarrow> h = header_of offs ts"
  by (cases h) (auto simp: header_accepted_def header_of_def)

lemmas tag_order_eval = less_eq_tag_def tag_key_def u32_to_le_bytes_list

definition dele_valid :: "delegation \<Rightarrow> bool" where
  "dele_valid d \<longleftrightarrow> dele_header d = header_of dele_offsets dele_tags \<and> sized 32 (dele_public_key d)"

definition dele_enc :: "delegation \<Rightarrow> bytes" where
  "dele_enc d = header_enc (dele_header d) @ dele_public_key d @ u64_to_le_bytes (dele_min_time d)
                @ u64_to_le_bytes (dele_max_time d)"

definition cert_valid :: "certificate \<Rightarrow> bool" where
  "cert_valid c \<longleftrightarrow> cert_header c = header_of cert_offsets cert_tags \<and> sized 64 (cert_signature c) \<and>
                   dele_valid (cert_delegation c)"

definition cert_enc :: "certificate \<Rightarrow> bytes" where
  "cert_enc c = header_enc (cert_header c) @ cert_signature c @ dele_enc (cert_delegation c)"

lemma dele_header_valid: "header_accepted 3 (header_of dele_offsets dele_tags)"
  by (simp add: header_accepted_def header_of_def dele_offsets_def dele_tags_def aligned_def tag_order_eval)

lemma cert_header_valid: "header_accepted 2 (header_of cert_offsets cert_tags)"
  by (simp add: header_accepted_def header_of_def cert_offsets_def cert_tags_def aligned_def tag_order_eval)

interpretation dele_codec: wire_codec dele_wire_size dele_to_wire dele_valid dele_enc dele_from_wire
proof unfold_locales
  fix m pre suf assume "dele_valid m"
  then have h: "dele_header m = header_of dele_offsets dele_tags" "length (dele_public_key m) = 32"
    by (auto simp: dele_valid_def sized_def)
  note hv = dele_header_valid
  show "length (dele_enc m) = dele_wire_size m"
    using h length_header_enc [OF hv] by (simp add: dele_enc_def dele_wire_size_def header_wire_size_def)
  show "writes (dele_to_wire m) (dele_enc m)"
    unfolding dele_to_wire_def dele_enc_def h by (intro writes_bind writes_intro header_writes hv)
  show "reads dele_from_wire pre (dele_enc m) suf m"
    using h by (simp add: reads_def dele_from_wire_def dele_enc_def cursor_run hv)
qed

lemmas run_dele [cursor_run] = dele_codec.read_any [THEN reads_run] dele_codec.read_any [THEN reads_run_end]

interpretation cert_codec: wire_codec cert_wire_size cert_to_wire cert_valid cert_enc cert_from_wire
proof unfold_locales
  fix m pre suf assume "cert_valid m"
  then have h: "cert_header m = header_of cert_offsets cert_tags" "length (cert_signature m) = 64"
    and d: "dele_valid (cert_delegation m)" by (auto simp: cert_valid_def sized_def)
  note hv = cert_header_valid
  show "length (cert_enc m) = cert_wire_size m"
    using h length_header_enc [OF hv] dele_codec.enc_length [OF d]
    by (simp add: cert_enc_def cert_wire_size_def header_wire_size_def dele_wire_size_def)
  show "writes (cert_to_wire m) (cert_enc m)"
    unfolding cert_to_wire_def cert_enc_def h
    by (intro writes_bind writes_intro header_writes hv dele_codec.enc_writes d)
  show "reads cert_from_wire pre (cert_enc m) suf m"
    using h d by (simp add: reads_def cert_from_wire_def cert_enc_def cursor_run hv)
qed

lemmas run_cert [cursor_run] = cert_codec.read_any [THEN reads_run] cert_codec.read_any [THEN reads_run_end]

lemma length_cert_dele [simp]:
  "dele_valid d \<Longrightarrow> length (dele_enc d) = 72" "cert_valid c \<Longrightarrow> length (cert_enc c) = 152"
  using dele_codec.enc_length cert_codec.enc_length by (auto simp: dele_wire_size_def cert_wire_size_def)

lemma dele_new_valid: "length pk = 32 \<Longrightarrow> dele_valid (dele_new pk now validity)"
  by (simp add: dele_valid_def dele_new_def dele_default_def sized_def dele_tags_def header_of_default)

lemma cert_new_valid: "length sg = 64 \<Longrightarrow> dele_valid d \<Longrightarrow> cert_valid (cert_new sg d)"
  by (simp add: cert_valid_def cert_new_def cert_default_def sized_def cert_tags_def header_of_default)

section \<open>Exactness and panic freedom\<close>

lemma safe_dele [safe_intro]: "safe dele_from_wire"
  unfolding dele_from_wire_def by (intro safe_intro)

lemma safe_cert [safe_intro]: "safe cert_from_wire"
  unfolding cert_from_wire_def by (intro safe_intro)

lemma dele_from_wire_exact:
  assumes wf: "wf_cursor c" and ok: "dele_from_wire c = Ok (d, c')"
  shows "dele_valid d \<and> consumes c (dele_enc d) c'"
proof -
  from ok obtain h c1 pk c2 t1 c3 t2 where
    h: "header_from_wire 3 c = Ok (h, c1)" and pk: "pubk_from_wire c1 = Ok (pk, c2)" and
    t1: "try_get_u64_le c2 = Ok (t1, c3)" and t2: "try_get_u64_le c3 = Ok (t2, c')" and
    e: "hdr_offsets h = dele_offsets" "hdr_tags h = dele_tags"
      "d = \<lparr>dele_header = h, dele_public_key = pk, dele_min_time = t1, dele_max_time = t2\<rparr>"
    by (auto simp: dele_from_wire_def bind_def and_then_Ok_iff ret_def fail_def split: if_splits)
  from hdr_exact.exact [OF wf h] have c1: "header_accepted 3 h" "consumes c (header_enc h) c1" by auto
  from values_Ok(2) [OF _ pk] consumes_wf [OF c1(2)] have c2: "length pk = 32" "consumes c1 pk c2" by auto
  from try_ints_Ok(3) [OF _ t1] consumes_wf [OF c2(2)] have c3: "consumes c2 (u64_to_le_bytes t1) c3" by auto
  from try_ints_Ok(3) [OF _ t2] consumes_wf [OF c3] have c4: "consumes c3 (u64_to_le_bytes t2) c'" by auto
  show ?thesis
    using consumes_trans [OF c1(2) consumes_trans [OF c2(2) consumes_trans [OF c3 c4]]] c2
      header_valid_of [OF c1(1) e(1,2)]
    by (simp add: e(3) dele_valid_def dele_enc_def sized_def)
qed

interpretation dele_exact: exact_reader dele_from_wire dele_valid dele_enc
  by unfold_locales (rule dele_from_wire_exact)

interpretation cert_exact: exact_reader cert_from_wire cert_valid cert_enc
proof unfold_locales
  fix c c' m assume wf: "wf_cursor c" and ok: "cert_from_wire c = Ok (m, c')"
  from ok obtain h c1 sg c2 d where
    h: "header_from_wire 2 c = Ok (h, c1)" and sg: "sig_from_wire c1 = Ok (sg, c2)" and
    d: "dele_from_wire c2 = Ok (d, c')" and
    e: "hdr_offsets h = cert_offsets" "hdr_tags h = cert_tags"
      "m = \<lparr>cert_header = h, cert_signature = sg, cert_delegation = d\<rparr>"
    by (auto simp: cert_from_wire_def bind_def and_then_Ok_iff ret_def fail_def split: if_splits)
  from hdr_exact.exact [OF wf h] have c1: "header_accepted 2 h" "consumes c (header_enc h) c1" by auto
  from values_Ok(3) [OF _ sg] consumes_wf [OF c1(2)] have c2: "length sg = 64" "consumes c1 sg c2" by auto
  from dele_exact.exact [OF _ d] consumes_wf [OF c2(2)] have c3: "dele_valid d" "consumes c2 (dele_enc d) c'" by auto
  show "cert_valid m \<and> consumes c (cert_enc m) c'"
    using consumes_trans [OF c1(2) consumes_trans [OF c2(2) c3(2)]] c2 c3 header_valid_of [OF c1(1) e(1,2)]
    by (simp add: e(3) cert_valid_def cert_enc_def sized_def)
qed

section \<open>Properties\<close>

text \<open>C22. Certificates have exactly one encoding: at any place in any buffer the certificate
  parser succeeds if and only if the unread bytes start with the 152-byte encoding of a valid
  certificate (standard offsets and tags, 64-byte signature, valid delegation), returns that
  certificate, and consumes exactly those bytes. In particular serialising the delegation of a parsed
  certificate again, as the client does to check its signature, yields the bytes received. On all
  other inputs the parser returns an error and does not panic.\<close>

theorem cert_from_wire_iff:
  "(cert_from_wire (cursor_at pre rest) = Ok (m, c') \<longleftrightarrow>
      cert_valid m \<and> (\<exists>suf. rest = cert_enc m @ suf \<and> c' = cursor_at (pre @ cert_enc m) suf)) \<and>
   (cert_from_wire (cursor_at pre rest) = Ok (m, c') \<longrightarrow>
      as_bytes dele_wire_size dele_to_wire (cert_delegation m) = Ok (take 72 (drop 80 rest))) \<and>
   cert_from_wire (cursor_at pre rest) \<noteq> Panic"
proof (intro conjI impI)
  have wf: "wf_cursor (cursor_at pre rest)" by (auto simp: wf_cursor_at)
  show iff: "cert_from_wire (cursor_at pre rest) = Ok (m, c') \<longleftrightarrow>
      cert_valid m \<and> (\<exists>suf. rest = cert_enc m @ suf \<and> c' = cursor_at (pre @ cert_enc m) suf)"
    using cert_exact.exact [OF wf] readsD [OF cert_codec.read_any]
    by (auto simp: consumes_def cursor_at_eq_iff)
  show "cert_from_wire (cursor_at pre rest) \<noteq> Panic" by (rule safeD(1) [OF safe_cert wf])
  assume "cert_from_wire (cursor_at pre rest) = Ok (m, c')"
  with iff obtain suf where v: "cert_valid m" and rest: "rest = cert_enc m @ suf" by auto
  then have d: "dele_valid (cert_delegation m)" and l: "length (header_enc (cert_header m)) = 16"
    "length (cert_signature m) = 64"
    using length_header_enc [OF cert_header_valid] by (auto simp: cert_valid_def sized_def header_wire_size_def)
  show "as_bytes dele_wire_size dele_to_wire (cert_delegation m) = Ok (take 72 (drop 80 rest))"
    using dele_codec.as_bytes_enc [OF d] length_cert_dele(1) [OF d] l by (simp add: rest cert_enc_def)
qed

definition sample_cert :: certificate where
  "sample_cert = cert_new (replicate 64 7) (dele_new (replicate 32 9) 100 3600)"

theorem cert_from_wire_iff_witness:
  "as_bytes dele_wire_size dele_to_wire (cert_delegation sample_cert)
     = Ok (take 72 (drop 80 (cert_enc sample_cert)))"
proof -
  have "cert_valid sample_cert" by (simp add: sample_cert_def cert_new_valid dele_new_valid)
  with cert_from_wire_iff [of "[]" "cert_enc sample_cert" sample_cert "cursor_at (cert_enc sample_cert) []"]
  show ?thesis by simp
qed

end
