(* ===== verification/Srep.thy ===== *)
theory Srep
  imports Cert
begin

text \<open>
  Signed responses (\<^verbatim>\<open>tags/srep.rs\<close>) in the draft-14 and the draft-08 format, with the setters the
  server uses and the conversion of the second into the first.
\<close>

section \<open>Draft-14\<close>

record signed_response =
  srep_header :: header
  srep_version :: protocol_version
  srep_radius :: u32
  srep_midpoint :: u64
  srep_supported_versions :: version_list
  srep_merkle_root :: merkle_root

definition DEFAULT_RADI_SECONDS :: u32 where
  "DEFAULT_RADI_SECONDS = 5"

definition RADI_OFFSET :: u32 where
  "RADI_OFFSET = 4"

definition MIDP_OFFSET :: u32 where
  "MIDP_OFFSET = RADI_OFFSET + 4"

definition VERS_OFFSET :: u32 where
  "VERS_OFFSET = MIDP_OFFSET + 8"

definition srep_offsets :: "u32 list" where
  "srep_offsets = [RADI_OFFSET, MIDP_OFFSET, VERS_OFFSET, 0]"

definition srep_tags :: "tag list" where
  "srep_tags = [VER, RADI, MIDP, VERS, ROOT]"

definition srep_set_ver :: "protocol_version \<Rightarrow> signed_response \<Rightarrow> signed_response" where
  "srep_set_ver v s = s\<lparr>srep_version := v\<rparr>"

definition srep_set_radi :: "u32 \<Rightarrow> signed_response \<Rightarrow> signed_response" where
  "srep_set_radi r s = s\<lparr>srep_radius := r\<rparr>"

definition srep_set_midp :: "u64 \<Rightarrow> signed_response \<Rightarrow> signed_response" where
  "srep_set_midp m s = s\<lparr>srep_midpoint := m\<rparr>"

definition srep_set_vers :: "version_list \<Rightarrow> signed_response \<Rightarrow> signed_response" where
  "srep_set_vers vl s =
     s\<lparr>srep_supported_versions := vl,
       srep_header := (srep_header s)\<lparr>hdr_offsets :=
         (hdr_offsets (srep_header s))[3 := VERS_OFFSET + of_nat (vers_wire_size vl)]\<rparr>\<rparr>"

definition srep_set_root :: "merkle_root \<Rightarrow> signed_response \<Rightarrow> signed_response" where
  "srep_set_root r s = s\<lparr>srep_merkle_root := r\<rparr>"

definition srep_default :: signed_response where
  "srep_default =
     \<lparr>srep_header = (header_default 5)\<lparr>hdr_offsets := srep_offsets, hdr_tags := srep_tags\<rparr>,
      srep_version = RfcDraft14, srep_radius = 0, srep_midpoint = 0,
      srep_supported_versions = supported_versions_default, srep_merkle_root = fixed_tag_default 32\<rparr>"

definition srep_wire_size :: "signed_response \<Rightarrow> nat" where
  "srep_wire_size s =
     header_wire_size 5 (srep_header s) + version_wire_size (srep_version s) + 4 + 8
     + vers_wire_size (srep_supported_versions s) + root_wire_size (srep_merkle_root s)"

definition srep_to_wire :: "signed_response \<Rightarrow> unit cursor_op" where
  "srep_to_wire s =
     bind (header_to_wire 5 (srep_header s)) (\<lambda>_.
     bind (version_to_wire (srep_version s)) (\<lambda>_.
     bind (put_u32_le (srep_radius s)) (\<lambda>_.
     bind (put_u64_le (srep_midpoint s)) (\<lambda>_.
     bind (vers_to_wire (srep_supported_versions s)) (\<lambda>_.
     root_to_wire (srep_merkle_root s))))))"

definition srep_from_wire :: "profile \<Rightarrow> signed_response cursor_op" where
  "srep_from_wire p =
     bind (header_from_wire 5) (\<lambda>h.
     bind (asks remaining) (\<lambda>rem.
     bind (lift (check_offset_bounds h rem)) (\<lambda>_.
     if hdr_tags h \<noteq> srep_tags then fail UnexpectedTags
     else let offsets = hdr_offsets h in
     if take 3 offsets \<noteq> take 3 srep_offsets then fail UnexpectedOffsets
     else if offsets ! 2 = offsets ! 3 then fail NoSupportedVersions
     else
     bind version_from_wire (\<lambda>ver.
     bind try_get_u32_le (\<lambda>radi.
     bind try_get_u64_le (\<lambda>midp.
     bind (lift (sub_word p (offsets ! 3) (offsets ! 2))) (\<lambda>vers_size.
     bind (vers_from_wire_n p (unat vers_size)) (\<lambda>vers.
     bind root_from_wire (\<lambda>root.
     ret \<lparr>srep_header = h, srep_version = ver, srep_radius = radi, srep_midpoint = midp,
          srep_supported_versions = vers, srep_merkle_root = root\<rparr>)))))))))"

section \<open>Draft-08\<close>

record signed_response_draft08 =
  srep08_header :: header
  srep08_radius :: u32
  srep08_midpoint :: u64
  srep08_merkle_root :: merkle_root

definition srep08_offsets :: "u32 list" where
  "srep08_offsets = [4, 4 + 8]"

definition srep08_tags :: "tag list" where
  "srep08_tags = [RADI, MIDP, ROOT]"

definition srep08_set_radi :: "u32 \<Rightarrow> signed_response_draft08 \<Rightarrow> signed_response_draft08" where
  "srep08_set_radi r s = s\<lparr>srep08_radius := r\<rparr>"

definition srep08_set_midp :: "u64 \<Rightarrow> signed_response_draft08 \<Rightarrow> signed_response_draft08" where
  "srep08_set_midp m s = s\<lparr>srep08_midpoint := m\<rparr>"

definition srep08_set_root :: "merkle_root \<Rightarrow> signed_response_draft08 \<Rightarrow> signed_response_draft08" where
  "srep08_set_root r s = s\<lparr>srep08_merkle_root := r\<rparr>"

definition srep08_default :: signed_response_draft08 where
  "srep08_default =
     \<lparr>srep08_header = (header_default 3)\<lparr>hdr_offsets := srep08_offsets, hdr_tags := srep08_tags\<rparr>,
      srep08_radius = 0, srep08_midpoint = 0, srep08_merkle_root = fixed_tag_default 32\<rparr>"

definition srep08_from_wire :: "signed_response_draft08 cursor_op" where
  "srep08_from_wire =
     bind (header_from_wire 3) (\<lambda>h.
     bind (asks remaining) (\<lambda>rem.
     bind (lift (check_offset_bounds h rem)) (\<lambda>_.
     if hdr_tags h \<noteq> srep08_tags then fail UnexpectedTags
     else
     bind try_get_u32_le (\<lambda>radi.
     bind try_get_u64_le (\<lambda>midp.
     bind root_from_wire (\<lambda>root.
     ret \<lparr>srep08_header = h, srep08_radius = radi, srep08_midpoint = midp,
          srep08_merkle_root = root\<rparr>))))))"

definition srep08_wire_size :: "signed_response_draft08 \<Rightarrow> nat" where
  "srep08_wire_size s =
     header_wire_size 3 (srep08_header s) + 4 + 8 + root_wire_size (srep08_merkle_root s)"

definition srep08_to_wire :: "signed_response_draft08 \<Rightarrow> unit cursor_op" where
  "srep08_to_wire s =
     bind (header_to_wire 3 (srep08_header s)) (\<lambda>_.
     bind (put_u32_le (srep08_radius s)) (\<lambda>_.
     bind (put_u64_le (srep08_midpoint s)) (\<lambda>_.
     root_to_wire (srep08_merkle_root s))))"

definition srep_from_draft08 :: "signed_response_draft08 \<Rightarrow> signed_response" where
  "srep_from_draft08 d =
     srep_set_root (srep08_merkle_root d)
      (srep_set_vers (supported_versions_new [RfcDraft08])
       (srep_set_midp (srep08_midpoint d)
        (srep_set_radi (srep08_radius d)
         (srep_set_ver RfcDraft08 srep_default))))"

section \<open>Encodings\<close>

definition srep_valid :: "signed_response \<Rightarrow> bool" where
  "srep_valid s \<longleftrightarrow>
     srep_header s = header_of [4, 8, 16, 16 + of_nat (4 * length (srep_supported_versions s))] srep_tags \<and>
     version_list_valid (srep_supported_versions s) \<and> srep_supported_versions s \<noteq> [] \<and>
     sized 32 (srep_merkle_root s)"

definition srep_enc :: "signed_response \<Rightarrow> bytes" where
  "srep_enc s =
     header_enc (srep_header s) @ version_enc (srep_version s) @ u32_to_le_bytes (srep_radius s)
     @ u64_to_le_bytes (srep_midpoint s) @ version_list_enc (srep_supported_versions s)
     @ srep_merkle_root s"

definition srep08_valid :: "signed_response_draft08 \<Rightarrow> bool" where
  "srep08_valid s \<longleftrightarrow>
     srep08_header s = header_of [4, 12] srep08_tags \<and> sized 32 (srep08_merkle_root s)"

definition srep08_enc :: "signed_response_draft08 \<Rightarrow> bytes" where
  "srep08_enc s = header_enc (srep08_header s) @ u32_to_le_bytes (srep08_radius s)
                  @ u64_to_le_bytes (srep08_midpoint s) @ srep08_merkle_root s"

lemma word_of_nat_le_u32: "m \<le> n \<Longrightarrow> n < 2 ^ 32 \<Longrightarrow> (of_nat m :: u32) \<le> of_nat n"
  by (simp add: word_le_nat_alt)

lemma aligned_of_nat: "n < 2 ^ 32 \<Longrightarrow> aligned (of_nat n) \<longleftrightarrow> n mod 4 = 0"
  by (simp add: aligned_unat)

lemma of_nat_u32_add: "(numeral k :: u32) + of_nat n = of_nat (numeral k + n)"
  by simp

lemma srep_header_valid:
  assumes "n \<le> 32"
  shows "header_accepted 5 (header_of [4, 8, 16, 16 + of_nat (4 * n)] srep_tags)"
proof -
  obtain w :: u32 where w: "of_nat (16 + 4 * n) = w" and u: "unat w = 16 + 4 * n"
    using assms unat_of_nat_u32 [of "16 + 4 * n"] by simp
  have "sorted [4, 8, 16, w]" by (simp add: word_le_nat_alt u)
  moreover have "aligned w" by (simp add: aligned_unat u)
  ultimately show ?thesis
    unfolding header_accepted_def header_of_def of_nat_u32_add w
    by (simp add: srep_tags_def tag_order_eval) (simp add: aligned_def)
qed

lemma srep08_header_valid: "header_accepted 3 (header_of [4, 12] srep08_tags)"
  by (simp add: header_accepted_def header_of_def srep08_tags_def aligned_def tag_order_eval)

lemma srep_offset_consts: "RADI_OFFSET = 4" "MIDP_OFFSET = 8" "VERS_OFFSET = 16"
  by (simp_all add: RADI_OFFSET_def MIDP_OFFSET_def VERS_OFFSET_def)

lemma length_srep_enc [simp]:
  "srep_valid s \<Longrightarrow> length (srep_enc s) = 88 + 4 * length (srep_supported_versions s)"
  using length_header_enc [OF srep_header_valid [of "length (srep_supported_versions s)"]]
  by (simp add: srep_valid_def srep_enc_def header_wire_size_def version_list_valid_def MAX_VERSIONS_def sized_def)

lemma length_srep08_enc [simp]: "srep08_valid s \<Longrightarrow> length (srep08_enc s) = 68"
  using length_header_enc [OF srep08_header_valid]
  by (simp add: srep08_valid_def srep08_enc_def header_wire_size_def sized_def)

lemma check_bounds_in:
  assumes "list_all (\<lambda>v. unat v \<le> n) (hdr_offsets h)" "n < 2 ^ 32"
  shows "check_offset_bounds h n = Ok ()"
  using assms by (auto simp: check_offset_bounds_Ok_iff list_all_iff word_le_nat_alt)

lemma reads_srep:
  assumes v: "srep_valid s" and suf: "length suf < 2 ^ 31"
  shows "reads (srep_from_wire p) pre (srep_enc s) suf s"
proof -
  let ?n = "length (srep_supported_versions s)"
  let ?h = "header_of [4, 8, 16, of_nat (16 + 4 * ?n)] srep_tags"
  from v have h: "srep_header s = ?h"
    and vl: "version_list_valid (srep_supported_versions s)" "0 < ?n" "?n \<le> 32"
    and r: "length (srep_merkle_root s) = 32"
    by (auto simp: srep_valid_def version_list_valid_def MAX_VERSIONS_def sized_def of_nat_u32_add)
  obtain w :: u32 where w: "of_nat (16 + 4 * ?n) = w" and u: "unat w = 16 + 4 * ?n"
    using vl unat_of_nat_u32 [of "16 + 4 * ?n"] by simp
  have hv: "header_accepted 5 (header_of [4, 8, 16, w] srep_tags)"
    using srep_header_valid [OF vl(3)] unfolding of_nat_u32_add w .
  have c: "check_offset_bounds (header_of [4, 8, 16, w] srep_tags) (48 + (4 * ?n + length suf)) = Ok ()"
    using suf vl by (intro check_bounds_in) (simp_all add: u)
  have ne: "16 \<noteq> w" "16 \<le> w" using u vl by (auto simp: word_le_nat_alt)
  have sub: "unat (w - 16) = 4 * ?n" using ne(2) u by (simp add: unat_sub)
  have run_vers: "bind (vers_from_wire_n p (4 * ?n)) f
      (cursor_at pre' (version_list_enc (srep_supported_versions s) @ suf'))
     = f (srep_supported_versions s) (cursor_at (pre' @ version_list_enc (srep_supported_versions s)) suf')"
    for pre' suf' and f :: "version_list \<Rightarrow> signed_response cursor_op"
    by (rule reads_run) (simp add: reads_version_list vl)
  show ?thesis
    using ne r unfolding reads_def srep_from_wire_def srep_enc_def h w
    by (simp add: cursor_run hv c srep_offsets_def srep_offset_consts Let_def sub run_vers add.assoc)
      (use h w in \<open>cases s; simp\<close>)
qed

lemma reads_srep08:
  assumes v: "srep08_valid s" and suf: "length suf < 2 ^ 31"
  shows "reads srep08_from_wire pre (srep08_enc s) suf s"
proof -
  from v have h: "srep08_header s = header_of [4, 12] srep08_tags" and r: "length (srep08_merkle_root s) = 32"
    by (auto simp: srep08_valid_def sized_def)
  have c: "check_offset_bounds (header_of [4, 12] srep08_tags) (44 + length suf) = Ok ()"
    using suf by (intro check_bounds_in) simp_all
  show ?thesis
    using r unfolding reads_def srep08_from_wire_def srep08_enc_def h
    by (simp add: cursor_run srep08_header_valid c) (use h in \<open>cases s; simp\<close>)
qed

lemma srep_valid_header: "srep_valid s \<Longrightarrow> header_accepted 5 (srep_header s)"
  using srep_header_valid [of "length (srep_supported_versions s)"]
  by (simp add: srep_valid_def version_list_valid_def MAX_VERSIONS_def)

lemma srep_writes [writes_intro]: "srep_valid s \<Longrightarrow> writes (srep_to_wire s) (srep_enc s)"
  unfolding srep_to_wire_def srep_enc_def
  by (intro writes_bind writes_intro header_writes srep_valid_header)

lemma srep08_writes [writes_intro]: "srep08_valid s \<Longrightarrow> writes (srep08_to_wire s) (srep08_enc s)"
  unfolding srep08_to_wire_def srep08_enc_def
  by (intro writes_bind writes_intro header_writes) (auto simp: srep08_valid_def srep08_header_valid)

interpretation srep_message: wire_message srep_wire_size srep_to_wire srep_valid srep_enc "srep_from_wire p" for p
  by unfold_locales
    (auto intro!: writes_intro reads_endD reads_srep simp: srep_wire_size_def header_wire_size_def version_wire_size_def
      vers_wire_size_def version_list_wire_size_def root_wire_size_def)

interpretation srep08_message: wire_message srep08_wire_size srep08_to_wire srep08_valid srep08_enc srep08_from_wire
  by unfold_locales
    (auto intro!: writes_intro reads_endD reads_srep08 simp: srep08_wire_size_def header_wire_size_def root_wire_size_def)

text \<open>The response the server builds with the setters is valid.\<close>

definition srep_make :: "protocol_version \<Rightarrow> u32 \<Rightarrow> u64 \<Rightarrow> version_list \<Rightarrow> merkle_root \<Rightarrow> signed_response" where
  "srep_make ver radi midp vers root =
     \<lparr>srep_header = header_of [4, 8, 16, 16 + of_nat (4 * length vers)] srep_tags,
      srep_version = ver, srep_radius = radi, srep_midpoint = midp,
      srep_supported_versions = vers, srep_merkle_root = root\<rparr>"

lemma srep_set_all:
  "srep_set_ver ver (srep_set_vers vers (srep_set_radi radi srep_default))
     = srep_make ver radi 0 vers (fixed_tag_default 32)"
  by (simp add: srep_set_ver_def srep_set_radi_def srep_set_vers_def srep_default_def
      srep_make_def srep_offsets_def srep_offset_consts srep_tags_def header_of_default header_of_def
      header_default_def vers_wire_size_def version_list_wire_size_def numeral_eq_Suc mult.commute)

lemma srep_make_set:
  "srep_set_midp midp (srep_set_root root (srep_make ver radi m0 vers r0)) = srep_make ver radi midp vers root"
  by (simp add: srep_make_def srep_set_midp_def srep_set_root_def)

lemma srep_make_fields [simp]:
  "srep_midpoint (srep_make ver radi midp vers root) = midp"
  "srep_radius (srep_make ver radi midp vers root) = radi"
  "srep_supported_versions (srep_make ver radi midp vers root) = vers"
  "srep_merkle_root (srep_make ver radi midp vers root) = root"
  "srep_version (srep_make ver radi midp vers root) = ver"
  by (simp_all add: srep_make_def)

lemma srep_make_valid:
  "version_list_valid vers \<Longrightarrow> vers \<noteq> [] \<Longrightarrow> length root = 32 \<Longrightarrow> srep_valid (srep_make ver radi midp vers root)"
  by (simp add: srep_valid_def srep_make_def sized_def)

definition srep08_make :: "u32 \<Rightarrow> u64 \<Rightarrow> merkle_root \<Rightarrow> signed_response_draft08" where
  "srep08_make radi midp root =
     \<lparr>srep08_header = header_of [4, 12] srep08_tags, srep08_radius = radi, srep08_midpoint = midp,
      srep08_merkle_root = root\<rparr>"

lemma srep08_set_all:
  "srep08_set_radi radi srep08_default = srep08_make radi 0 (fixed_tag_default 32)"
  "srep08_set_midp midp (srep08_set_root root (srep08_make radi m0 r0)) = srep08_make radi midp root"
  by (simp_all add: srep08_set_radi_def srep08_default_def srep08_make_def srep08_set_midp_def srep08_set_root_def
      srep08_offsets_def srep08_tags_def header_of_def header_default_def)

lemma srep08_make_fields [simp]:
  "srep08_midpoint (srep08_make radi midp root) = midp"
  "srep08_radius (srep08_make radi midp root) = radi"
  "srep08_merkle_root (srep08_make radi midp root) = root"
  by (simp_all add: srep08_make_def)

lemma srep08_make_valid: "length root = 32 \<Longrightarrow> srep08_valid (srep08_make radi midp root)"
  by (simp add: srep08_valid_def srep08_make_def sized_def)

lemma srep_from_draft08_fields:
  "srep_radius (srep_from_draft08 d) = srep08_radius d"
  "srep_midpoint (srep_from_draft08 d) = srep08_midpoint d"
  "srep_merkle_root (srep_from_draft08 d) = srep08_merkle_root d"
  "srep_version (srep_from_draft08 d) = RfcDraft08"
  "srep_supported_versions (srep_from_draft08 d) = [RfcDraft08]"
  by (simp_all add: srep_from_draft08_def srep_set_root_def srep_set_midp_def srep_set_radi_def srep_set_vers_def
      srep_set_ver_def supported_versions_new_def version_list_new_def MAX_VERSIONS_def)

lemma srep_from_draft08_valid:
  assumes "length (srep08_merkle_root d) = 32"
  shows "srep_valid (srep_from_draft08 d)"
proof -
  have "srep_header (srep_from_draft08 d) = header_of [4, 8, 16, 20] srep_tags"
    by (simp add: srep_from_draft08_def srep_set_root_def srep_set_midp_def srep_set_radi_def srep_set_vers_def
      srep_set_ver_def srep_default_def srep_offsets_def srep_offset_consts srep_tags_def header_of_def
      header_default_def vers_wire_size_def version_list_wire_size_def numeral_eq_Suc
      supported_versions_new_def version_list_new_def MAX_VERSIONS_def)
  with assms show ?thesis
    by (simp add: srep_valid_def srep_from_draft08_fields version_list_valid_def MAX_VERSIONS_def sized_def)
qed

section \<open>Panic freedom\<close>

text \<open>The parser's only arithmetic, \<open>offsets[3] - offsets[2]\<close> and the length passed to the version
  list, is covered by the checks on the header: offsets ascend and are multiples of four.\<close>

lemma safe_srep [safe_intro]: "safe (srep_from_wire p)"
  unfolding srep_from_wire_def Let_def
proof (rule safe_bind_Ok [OF safe_header])
  fix c h c' assume "wf_cursor c" "header_from_wire 5 c = Ok (h, c')"
  from hdr_exact.exact [OF this] have hv: "header_accepted 5 h" by simp
  then obtain o0 o1 o2 o3 where o: "hdr_offsets h = [o0, o1, o2, o3]"
    by (auto simp: header_accepted_def length_Suc_conv numeral_eq_Suc)
  with hv have le: "o2 \<le> o3" and al: "aligned o2" "aligned o3" by (auto simp: header_accepted_def)
  have "unat (o3 - o2) mod 4 = 0"
    using al le by (simp add: aligned_unat unat_sub word_le_nat_alt mod_eq_0_iff_dvd)
  then have m: "p = Release \<or> unat (o3 - o2) mod 4 = 0" by simp
  have *: "safe (bind (lift (sub_word p (hdr_offsets h ! 3) (hdr_offsets h ! 2)))
             (\<lambda>sz. bind (vers_from_wire_n p (unat sz)) (\<lambda>vers. bind root_from_wire (f vers))))"
    if "\<And>vers root. safe (f vers root)" for f :: "version_list \<Rightarrow> merkle_root \<Rightarrow> signed_response cursor_op"
    using le by (simp add: o bind_lift_Ok) (intro safe_bind safe_version_list safe_values m that)
  show "safe (bind (asks remaining) (\<lambda>rem. bind (lift (check_offset_bounds h rem)) (\<lambda>_.
     if hdr_tags h \<noteq> srep_tags then fail UnexpectedTags
     else if take 3 (hdr_offsets h) \<noteq> take 3 srep_offsets then fail UnexpectedOffsets
     else if hdr_offsets h ! 2 = hdr_offsets h ! 3 then fail NoSupportedVersions
     else
     bind version_from_wire (\<lambda>ver.
     bind try_get_u32_le (\<lambda>radi.
     bind try_get_u64_le (\<lambda>midp.
     bind (lift (sub_word p (hdr_offsets h ! 3) (hdr_offsets h ! 2))) (\<lambda>vers_size.
     bind (vers_from_wire_n p (unat vers_size)) (\<lambda>vers.
     bind root_from_wire (\<lambda>root.
     ret \<lparr>srep_header = h, srep_version = ver, srep_radius = radi, srep_midpoint = midp,
          srep_supported_versions = vers, srep_merkle_root = root\<rparr>)))))))))"
    by (intro safe_bind [OF safe_asks] safe_bind [OF safe_lift] safe_if safe_fail
        safe_bind [OF safe_version(1)] safe_bind [OF safe_try_ints(1)] safe_bind [OF safe_try_ints(3)]
        * safe_ret) simp
qed

lemma safe_srep08 [safe_intro]: "safe srep08_from_wire"
  unfolding srep08_from_wire_def by (intro safe_intro) simp

end
