(* ===== verification/Request.thy ===== *)
theory Request
  imports Srep
begin

text \<open>
  Requests (\<^verbatim>\<open>request.rs\<close>): the three formats, the dispatching parser, and the constructors the
  client uses. Every request a client builds is a frame of exactly 1024 bytes that the server parses
  back to the same request, and parsing arbitrary bytes never panics.
\<close>

section \<open>The three request formats\<close>

definition REQUEST_SIZE :: nat where
  "REQUEST_SIZE = 1024"

record request_draft14 =
  r14_header :: header
  r14_version :: version_list
  r14_nonce :: nonce
  r14_msg_type :: message_type
  r14_padding :: bytes

definition r14_tags :: "tag list" where
  "r14_tags = [VER, NONC, TYPE_TAG, ZZZZ]"

definition r14_default :: request_draft14 where
  "r14_default =
     (let version = requested_versions_default; nonce = fixed_tag_default 32;
          o0 = of_nat (ver_wire_size version);
          o1 = o0 + of_nat (nonce_wire_size nonce);
          o2 = o1 + of_nat (message_type_wire_size RequestType)
      in \<lparr>r14_header = (header_default 4)\<lparr>hdr_tags := r14_tags, hdr_offsets := [o0, o1, o2]\<rparr>,
          r14_version = version, r14_nonce = nonce, r14_msg_type = RequestType,
          r14_padding = replicate 940 0\<rparr>)"

definition r14_new :: "nonce \<Rightarrow> request_draft14" where
  "r14_new n = r14_default\<lparr>r14_nonce := n\<rparr>"

definition r14_from_wire :: "profile \<Rightarrow> request_draft14 cursor_op" where
  "r14_from_wire p =
     bind (header_from_wire 4) (\<lambda>h.
     bind (asks remaining) (\<lambda>rem.
     bind (lift (check_offset_bounds h rem)) (\<lambda>_.
     if hdr_tags h \<noteq> r14_tags then fail UnexpectedTags
     else
     bind (ver_from_wire_n p (unat (hdr_offsets h ! 0))) (\<lambda>version.
     bind nonce_from_wire (\<lambda>n.
     bind message_type_from_wire (\<lambda>mt.
     if mt \<noteq> RequestType then fail (InvalidMessageType (message_type_value mt))
     else ret (r14_default\<lparr>r14_header := h, r14_version := version, r14_nonce := n,
                           r14_msg_type := mt\<rparr>)))))))"

definition r14_wire_size :: "request_draft14 \<Rightarrow> nat" where
  "r14_wire_size r =
     header_wire_size 4 (r14_header r) + ver_wire_size (r14_version r) + nonce_wire_size (r14_nonce r)
     + message_type_wire_size (r14_msg_type r) + length (r14_padding r)"

definition r14_to_wire :: "request_draft14 \<Rightarrow> unit cursor_op" where
  "r14_to_wire r =
     bind (need (r14_wire_size r)) (\<lambda>_.
     bind (header_to_wire 4 (r14_header r)) (\<lambda>_.
     bind (ver_to_wire (r14_version r)) (\<lambda>_.
     bind (nonce_to_wire (r14_nonce r)) (\<lambda>_.
     bind (message_type_to_wire (r14_msg_type r)) (\<lambda>_.
     put_slice (r14_padding r))))))"

record request_draft08 =
  r08_header :: header
  r08_version :: version_list
  r08_nonce :: nonce
  r08_padding :: bytes

definition r08_tags :: "tag list" where
  "r08_tags = [VER, NONC, ZZZZ]"

definition FRAMED_NONCE_OFFSET :: nat where
  "FRAMED_NONCE_OFFSET = 40"

definition r08_default :: request_draft08 where
  "r08_default =
     (let version = requested_versions_new [RfcDraft08]; nonce = fixed_tag_default 32;
          o0 = of_nat (ver_wire_size version);
          o1 = o0 + of_nat (nonce_wire_size nonce)
      in \<lparr>r08_header = (header_default 3)\<lparr>hdr_tags := r08_tags, hdr_offsets := [o0, o1]\<rparr>,
          r08_version = version, r08_nonce = nonce, r08_padding = replicate 952 0\<rparr>)"

definition r08_new :: "nonce \<Rightarrow> request_draft08" where
  "r08_new n = r08_default\<lparr>r08_nonce := n\<rparr>"

definition r08_from_wire :: "profile \<Rightarrow> request_draft08 cursor_op" where
  "r08_from_wire p =
     bind (header_from_wire 3) (\<lambda>h.
     bind (asks remaining) (\<lambda>rem.
     bind (lift (check_offset_bounds h rem)) (\<lambda>_.
     if hdr_tags h \<noteq> r08_tags then fail UnexpectedTags
     else
     bind (ver_from_wire_n p (unat (hdr_offsets h ! 0))) (\<lambda>version.
     bind nonce_from_wire (\<lambda>n.
     ret (r08_default\<lparr>r08_header := h, r08_version := version, r08_nonce := n\<rparr>))))))"

definition r08_wire_size :: "request_draft08 \<Rightarrow> nat" where
  "r08_wire_size r =
     header_wire_size 3 (r08_header r) + ver_wire_size (r08_version r) + nonce_wire_size (r08_nonce r)
     + length (r08_padding r)"

definition r08_to_wire :: "request_draft08 \<Rightarrow> unit cursor_op" where
  "r08_to_wire r =
     bind (need (r08_wire_size r)) (\<lambda>_.
     bind (header_to_wire 3 (r08_header r)) (\<lambda>_.
     bind (ver_to_wire (r08_version r)) (\<lambda>_.
     bind (nonce_to_wire (r08_nonce r)) (\<lambda>_.
     put_slice (r08_padding r)))))"

record request_draft14_srv =
  rsrv_header :: header
  rsrv_version :: version_list
  rsrv_server :: srv_commitment
  rsrv_nonce :: nonce
  rsrv_msg_type :: message_type
  rsrv_padding :: bytes

definition rsrv_tags :: "tag list" where
  "rsrv_tags = [VER, SRV, NONC, TYPE_TAG, ZZZZ]"

definition rsrv_default :: request_draft14_srv where
  "rsrv_default =
     (let version = requested_versions_default; server = replicate 32 0; nonce = fixed_tag_default 32;
          o0 = of_nat (ver_wire_size version);
          o1 = o0 + of_nat (srv_wire_size server);
          o2 = o1 + of_nat (nonce_wire_size nonce);
          o3 = o2 + of_nat (message_type_wire_size RequestType)
      in \<lparr>rsrv_header = (header_default 5)\<lparr>hdr_tags := rsrv_tags, hdr_offsets := [o0, o1, o2, o3]\<rparr>,
          rsrv_version = version, rsrv_server = server, rsrv_nonce = nonce,
          rsrv_msg_type = RequestType, rsrv_padding = replicate 900 0\<rparr>)"

definition rsrv_new :: "nonce \<Rightarrow> srv_commitment \<Rightarrow> request_draft14_srv" where
  "rsrv_new n server = rsrv_default\<lparr>rsrv_server := server, rsrv_nonce := n\<rparr>"

definition rsrv_from_wire :: "profile \<Rightarrow> request_draft14_srv cursor_op" where
  "rsrv_from_wire p =
     bind (header_from_wire 5) (\<lambda>h.
     bind (asks remaining) (\<lambda>rem.
     bind (lift (check_offset_bounds h rem)) (\<lambda>_.
     if hdr_tags h \<noteq> rsrv_tags then fail UnexpectedTags
     else
     bind (ver_from_wire_n p (unat (hdr_offsets h ! 0))) (\<lambda>version.
     bind srv_from_wire (\<lambda>server.
     bind nonce_from_wire (\<lambda>n.
     bind message_type_from_wire (\<lambda>mt.
     if mt \<noteq> RequestType then fail (InvalidMessageType (message_type_value mt))
     else ret (rsrv_default\<lparr>rsrv_header := h, rsrv_version := version, rsrv_server := server,
                            rsrv_nonce := n, rsrv_msg_type := mt\<rparr>))))))))"

definition rsrv_wire_size :: "request_draft14_srv \<Rightarrow> nat" where
  "rsrv_wire_size r =
     header_wire_size 5 (rsrv_header r) + ver_wire_size (rsrv_version r) + srv_wire_size (rsrv_server r)
     + nonce_wire_size (rsrv_nonce r) + message_type_wire_size (rsrv_msg_type r)
     + length (rsrv_padding r)"

definition rsrv_to_wire :: "request_draft14_srv \<Rightarrow> unit cursor_op" where
  "rsrv_to_wire r =
     bind (need (rsrv_wire_size r)) (\<lambda>_.
     bind (header_to_wire 5 (rsrv_header r)) (\<lambda>_.
     bind (ver_to_wire (rsrv_version r)) (\<lambda>_.
     bind (srv_to_wire (rsrv_server r)) (\<lambda>_.
     bind (nonce_to_wire (rsrv_nonce r)) (\<lambda>_.
     bind (message_type_to_wire (rsrv_msg_type r)) (\<lambda>_.
     put_slice (rsrv_padding r)))))))"

section \<open>Requests\<close>

datatype request =
    Draft08 request_draft08
  | Draft14 request_draft14
  | Draft14Srv request_draft14_srv

definition request_new_draft14 :: "nonce \<Rightarrow> request" where
  "request_new_draft14 n = Draft14 (r14_new n)"

definition request_new_draft08 :: "nonce \<Rightarrow> request" where
  "request_new_draft08 n = Draft08 (r08_new n)"

definition request_new_draft14_srv :: "nonce \<Rightarrow> srv_commitment \<Rightarrow> request" where
  "request_new_draft14_srv n server = Draft14Srv (rsrv_new n server)"

fun request_ver :: "request \<Rightarrow> version_list" where
  "request_ver (Draft08 r) = r08_version r"
| "request_ver (Draft14 r) = r14_version r"
| "request_ver (Draft14Srv r) = rsrv_version r"

fun request_nonc :: "request \<Rightarrow> nonce" where
  "request_nonc (Draft08 r) = r08_nonce r"
| "request_nonc (Draft14 r) = r14_nonce r"
| "request_nonc (Draft14Srv r) = rsrv_nonce r"

fun request_msg_type :: "request \<Rightarrow> message_type" where
  "request_msg_type (Draft08 r) = RequestType"
| "request_msg_type (Draft14 r) = r14_msg_type r"
| "request_msg_type (Draft14Srv r) = rsrv_msg_type r"

fun request_srv :: "request \<Rightarrow> srv_commitment option" where
  "request_srv (Draft08 r) = None"
| "request_srv (Draft14 r) = None"
| "request_srv (Draft14Srv r) = Some (rsrv_server r)"

fun request_wire_size :: "request \<Rightarrow> nat" where
  "request_wire_size (Draft08 r) = r08_wire_size r"
| "request_wire_size (Draft14 r) = r14_wire_size r"
| "request_wire_size (Draft14Srv r) = rsrv_wire_size r"

fun request_to_wire :: "request \<Rightarrow> unit cursor_op" where
  "request_to_wire (Draft08 r) = r08_to_wire r"
| "request_to_wire (Draft14 r) = r14_to_wire r"
| "request_to_wire (Draft14Srv r) = rsrv_to_wire r"

definition request_from_wire :: "profile \<Rightarrow> request cursor_op" where
  "request_from_wire p =
     bind (asks remaining) (\<lambda>rem.
     if rem \<noteq> 1012 then fail (BadRequestSize rem)
     else
     bind get_position (\<lambda>saved_pos.
     bind try_get_u32_le (\<lambda>num_tags.
     bind (set_position saved_pos) (\<lambda>_.
     if num_tags = 3 then bind (r08_from_wire p) (\<lambda>r. ret (Draft08 r))
     else if num_tags = 4 then bind (r14_from_wire p) (\<lambda>r. ret (Draft14 r))
     else if num_tags = 5 then bind (rsrv_from_wire p) (\<lambda>r. ret (Draft14Srv r))
     else fail (InvalidRequestNumTags num_tags ''3, 4, or 5'')))))"

section \<open>Encodings\<close>

text \<open>The parser insists on 1012 bytes after the frame header and the padding has a fixed size, so
  the requests that can be read back are those with a single version.\<close>

definition r14_valid :: "request_draft14 \<Rightarrow> bool" where
  "r14_valid r \<longleftrightarrow> r14_header r = header_of [4, 36, 40] r14_tags \<and> length (r14_version r) = 1 \<and>
     sized 32 (r14_nonce r) \<and> r14_msg_type r = RequestType \<and> r14_padding r = replicate 940 0"

definition r14_enc :: "request_draft14 \<Rightarrow> bytes" where
  "r14_enc r = header_enc (r14_header r) @ version_list_enc (r14_version r) @ r14_nonce r
               @ message_type_enc (r14_msg_type r) @ r14_padding r"

definition r08_valid :: "request_draft08 \<Rightarrow> bool" where
  "r08_valid r \<longleftrightarrow> r08_header r = header_of [4, 36] r08_tags \<and> length (r08_version r) = 1 \<and>
     sized 32 (r08_nonce r) \<and> r08_padding r = replicate 952 0"

definition r08_enc :: "request_draft08 \<Rightarrow> bytes" where
  "r08_enc r = header_enc (r08_header r) @ version_list_enc (r08_version r) @ r08_nonce r @ r08_padding r"

definition rsrv_valid :: "request_draft14_srv \<Rightarrow> bool" where
  "rsrv_valid r \<longleftrightarrow> rsrv_header r = header_of [4, 36, 68, 72] rsrv_tags \<and> length (rsrv_version r) = 1 \<and>
     sized 32 (rsrv_server r) \<and> sized 32 (rsrv_nonce r) \<and> rsrv_msg_type r = RequestType \<and>
     rsrv_padding r = replicate 900 0"

definition rsrv_enc :: "request_draft14_srv \<Rightarrow> bytes" where
  "rsrv_enc r = header_enc (rsrv_header r) @ version_list_enc (rsrv_version r) @ rsrv_server r
                @ rsrv_nonce r @ message_type_enc (rsrv_msg_type r) @ rsrv_padding r"

fun request_valid :: "request \<Rightarrow> bool" where
  "request_valid (Draft08 r) = r08_valid r"
| "request_valid (Draft14 r) = r14_valid r"
| "request_valid (Draft14Srv r) = rsrv_valid r"

fun request_enc :: "request \<Rightarrow> bytes" where
  "request_enc (Draft08 r) = r08_enc r"
| "request_enc (Draft14 r) = r14_enc r"
| "request_enc (Draft14Srv r) = rsrv_enc r"

lemma r14_header_valid: "header_accepted 4 (header_of [4, 36, 40] r14_tags)"
  by (simp add: header_accepted_def header_of_def r14_tags_def aligned_def tag_order_eval)

lemma r08_header_valid: "header_accepted 3 (header_of [4, 36] r08_tags)"
  by (simp add: header_accepted_def header_of_def r08_tags_def aligned_def tag_order_eval)

lemma rsrv_header_valid: "header_accepted 5 (header_of [4, 36, 68, 72] rsrv_tags)"
  by (simp add: header_accepted_def header_of_def rsrv_tags_def aligned_def tag_order_eval)

lemmas request_header_valid = r08_header_valid r14_header_valid rsrv_header_valid

lemmas request_header_length = request_header_valid [THEN length_header_enc, unfolded header_wire_size_def]

lemma request_wire_size_valid: "request_valid r \<Longrightarrow> request_wire_size r = 1012"
  by (cases r)
    (auto simp: r08_valid_def r14_valid_def rsrv_valid_def r08_wire_size_def r14_wire_size_def
      rsrv_wire_size_def header_wire_size_def ver_wire_size_def version_list_wire_size_def
      message_type_wire_size_def nonce_wire_size_def srv_wire_size_def)

lemma length_request_enc: "request_valid r \<Longrightarrow> length (request_enc r) = 1012"
  using request_header_length
  by (cases r)
    (auto simp: r08_valid_def r14_valid_def rsrv_valid_def r08_enc_def r14_enc_def rsrv_enc_def sized_def)

lemma request_writes: 
  assumes v: "request_valid r"
  shows "writes (request_to_wire r) (request_enc r)"
proof (cases r)
  case (Draft08 q)
  show ?thesis
    using v length_request_enc [OF v] request_wire_size_valid [OF v] request_header_valid
    by (auto simp: Draft08 r08_to_wire_def r08_valid_def sized_def intro!: writes_guarded)
      (auto simp: r08_enc_def intro!: writes_bind writes_intro header_writes)
next
  case (Draft14 q)
  show ?thesis
    using v length_request_enc [OF v] request_wire_size_valid [OF v] request_header_valid
    by (auto simp: Draft14 r14_to_wire_def r14_valid_def sized_def intro!: writes_guarded)
      (auto simp: r14_enc_def intro!: writes_bind writes_intro header_writes)
next
  case (Draft14Srv q)
  show ?thesis
    using v length_request_enc [OF v] request_wire_size_valid [OF v] request_header_valid
    by (auto simp: Draft14Srv rsrv_to_wire_def rsrv_valid_def sized_def intro!: writes_guarded)
      (auto simp: rsrv_enc_def intro!: writes_bind writes_intro header_writes)
qed

section \<open>Parsing requests\<close>

text \<open>Peeking at the tag count puts the cursor back where it was.\<close>

lemma peek_u32:
  assumes "wf_cursor c"
  shows "bind get_position (\<lambda>saved. bind try_get_u32_le (\<lambda>n. bind (set_position saved) (\<lambda>_. f n))) c
           = and_then (try_get_u32_le c) (\<lambda>(n, _). f n c)"
proof (cases "try_get_u32_le c")
  case (Ok r)
  obtain n c' where r: "r = (n, c')" by (cases r)
  from safeD(2) [OF safe_try_ints(1) assms] Ok r have "cur_data c' = cur_data c" by simp
  then have "c'\<lparr>cur_position := cur_position c\<rparr> = c" by (cases c; cases c') simp
  then show ?thesis using Ok r by (simp add: bind_def get_position_def asks_def set_position_def)
qed (simp_all add: bind_def get_position_def asks_def)

lemma safe_peek_u32:
  assumes "\<And>n. safe (f n)"
  shows "safe (bind get_position (\<lambda>saved. bind try_get_u32_le (\<lambda>n. bind (set_position saved) (\<lambda>_. f n))))"
  unfolding safe_def
proof (rule allI, rule impI)
  fix c assume wf: "wf_cursor c"
  note t = safeD(1) [OF safe_try_ints(1) wf] and f = safeD [OF assms wf]
  show "bind get_position (\<lambda>saved. bind try_get_u32_le (\<lambda>n. bind (set_position saved) (\<lambda>_. f n))) c \<noteq> Panic \<and>
     (\<forall>x c'. bind get_position (\<lambda>saved. bind try_get_u32_le (\<lambda>n. bind (set_position saved) (\<lambda>_. f n))) c = Ok (x, c') \<longrightarrow>
        wf_cursor c' \<and> cur_data c' = cur_data c \<and> cur_position c \<le> cur_position c')"
    unfolding peek_u32 [OF wf] using t f
    by (auto simp: and_then_Panic_iff and_then_Ok_iff)
qed

lemma run_peek_u32:
  "bind get_position (\<lambda>saved. bind try_get_u32_le (\<lambda>n. bind (set_position saved) (\<lambda>_. f n)))
     (cursor_at pre (u32_to_le_bytes w @ suf)) = f w (cursor_at pre (u32_to_le_bytes w @ suf))"
proof -
  have "wf_cursor (cursor_at pre (u32_to_le_bytes w @ suf))" by (auto simp: wf_cursor_at)
  then show ?thesis using readsD [OF reads_ints(1)] by (simp add: peek_u32)
qed

lemma version_list_valid_single: "length vl = 1 \<Longrightarrow> version_list_valid vl"
  by (auto simp: version_list_valid_def MAX_VERSIONS_def length_Suc_conv)

lemma run_ver [cursor_run]:
  assumes "length vl = 1"
  shows "bind (ver_from_wire_n p 4) f (cursor_at pre (version_list_enc vl @ suf))
           = f vl (cursor_at (pre @ version_list_enc vl) suf)"
  using assms by (intro reads_run reads_version_list version_list_valid_single) simp_all

lemma r08_read:
  assumes "r08_valid r"
  shows "r08_from_wire p (cursor_at pre (r08_enc r))
           = Ok (r, cursor_at (pre @ take 60 (r08_enc r)) (r08_padding r))"
proof -
  have h: "r08_header r = header_of [4, 36] r08_tags" "length (r08_version r) = 1" "length (r08_nonce r) = 32"
    "r08_padding r = replicate 952 0" using assms by (auto simp: r08_valid_def sized_def)
  have c: "check_offset_bounds (header_of [4, 36] r08_tags) 988 = Ok ()" by (intro check_bounds_in) simp_all
  show ?thesis
    using h request_header_length(1)
    by (simp add: r08_from_wire_def r08_enc_def cursor_run request_header_valid c)
      (cases r; simp add: r08_default_def Let_def)
qed

lemma r14_read:
  assumes "r14_valid r"
  shows "r14_from_wire p (cursor_at pre (r14_enc r))
           = Ok (r, cursor_at (pre @ take 72 (r14_enc r)) (r14_padding r))"
proof -
  have h: "r14_header r = header_of [4, 36, 40] r14_tags" "length (r14_version r) = 1" "length (r14_nonce r) = 32"
    "r14_msg_type r = RequestType" "r14_padding r = replicate 940 0"
    using assms by (auto simp: r14_valid_def sized_def)
  have c: "check_offset_bounds (header_of [4, 36, 40] r14_tags) 980 = Ok ()" by (intro check_bounds_in) simp_all
  show ?thesis
    using h request_header_length(2)
    by (simp add: r14_from_wire_def r14_enc_def cursor_run request_header_valid c)
      (cases r; simp add: r14_default_def Let_def)
qed

lemma rsrv_read:
  assumes "rsrv_valid r"
  shows "rsrv_from_wire p (cursor_at pre (rsrv_enc r))
           = Ok (r, cursor_at (pre @ take 112 (rsrv_enc r)) (rsrv_padding r))"
proof -
  have h: "rsrv_header r = header_of [4, 36, 68, 72] rsrv_tags" "length (rsrv_version r) = 1"
    "length (rsrv_server r) = 32" "length (rsrv_nonce r) = 32"
    "rsrv_msg_type r = RequestType" "rsrv_padding r = replicate 900 0"
    using assms by (auto simp: rsrv_valid_def sized_def)
  have c: "check_offset_bounds (header_of [4, 36, 68, 72] rsrv_tags) 972 = Ok ()" by (intro check_bounds_in) simp_all
  show ?thesis
    using h request_header_length(3)
    by (simp add: rsrv_from_wire_def rsrv_enc_def cursor_run request_header_valid c)
      (cases r; simp add: rsrv_default_def Let_def)
qed

lemma header_enc_of:
  "header_enc (header_of offs ts)
     = u32_to_le_bytes (of_nat (length ts)) @ concat (map u32_to_le_bytes offs) @ concat (map tag_wire_value ts)"
  by (simp add: header_enc_def header_of_def)

lemma request_from_wire_at:
  assumes "wf_cursor c" "remaining c = 1012" "try_get_u32_le c = Ok (n, c')"
  shows "request_from_wire p c =
     (if n = 3 then bind (r08_from_wire p) (\<lambda>r. ret (Draft08 r)) c
      else if n = 4 then bind (r14_from_wire p) (\<lambda>r. ret (Draft14 r)) c
      else if n = 5 then bind (rsrv_from_wire p) (\<lambda>r. ret (Draft14Srv r)) c
      else Err (InvalidRequestNumTags n ''3, 4, or 5''))"
  using assms by (simp add: request_from_wire_def cursor_run peek_u32 fail_def)

lemma request_read_back:
  assumes v: "request_valid r"
  shows "\<exists>c'. request_from_wire p (cursor_at pre (request_enc r)) = Ok (r, c')"
proof -
  have wf: "wf_cursor (cursor_at pre (request_enc r))" by (auto simp: wf_cursor_at)
  have rem: "remaining (cursor_at pre (request_enc r)) = 1012" using length_request_enc [OF v] by simp
  note at = request_from_wire_at [OF wf rem]
  show ?thesis
  proof (cases r)
    case (Draft08 q)
    obtain rest where "request_enc r = u32_to_le_bytes 3 @ rest"
      using v by (auto simp: Draft08 r08_enc_def r08_valid_def header_enc_of r08_tags_def)
    then obtain c' where "try_get_u32_le (cursor_at pre (request_enc r)) = Ok (3, c')"
      using readsD [OF reads_ints(1)] by metis
    from at [OF this] show ?thesis using r08_read [of q p pre] v by (simp add: Draft08 bind_def ret_def)
  next
    case (Draft14 q)
    obtain rest where "request_enc r = u32_to_le_bytes 4 @ rest"
      using v by (auto simp: Draft14 r14_enc_def r14_valid_def header_enc_of r14_tags_def)
    then obtain c' where "try_get_u32_le (cursor_at pre (request_enc r)) = Ok (4, c')"
      using readsD [OF reads_ints(1)] by metis
    from at [OF this] show ?thesis using r14_read [of q p pre] v by (simp add: Draft14 bind_def ret_def)
  next
    case (Draft14Srv q)
    obtain rest where "request_enc r = u32_to_le_bytes 5 @ rest"
      using v by (auto simp: Draft14Srv rsrv_enc_def rsrv_valid_def header_enc_of rsrv_tags_def)
    then obtain c' where "try_get_u32_le (cursor_at pre (request_enc r)) = Ok (5, c')"
      using readsD [OF reads_ints(1)] by metis
    from at [OF this] show ?thesis using rsrv_read [of q p pre] v by (simp add: Draft14Srv bind_def ret_def)
  qed
qed

interpretation request_message:
  wire_message request_wire_size request_to_wire request_valid request_enc "request_from_wire p" for p
  by unfold_locales
    (auto simp: length_request_enc request_wire_size_valid intro: request_writes request_read_back)

section \<open>Panic freedom\<close>

lemma header_first_offset:
  assumes "wf_cursor c" "header_from_wire N c = Ok (h, c')" "2 \<le> N"
  shows "p = Release \<or> unat (hdr_offsets h ! 0) mod 4 = 0"
proof -
  have "header_accepted N h" using hdr_exact.exact [OF assms(1,2)] by simp
  then have "length (hdr_offsets h) = N - 1" "list_all aligned (hdr_offsets h)" by (auto simp: header_accepted_def)
  with assms(3) have "aligned (hdr_offsets h ! 0)" by (auto simp: list_all_length)
  then show ?thesis by (simp add: aligned_unat)
qed

lemmas safe_request_steps =
  safe_bind [OF safe_asks] safe_bind [OF safe_lift [OF check_offset_bounds_no_panic]] safe_if safe_fail
  safe_bind [OF safe_version_list(2)] safe_bind [OF safe_values(2)] safe_bind [OF safe_values(6)]
  safe_bind [OF safe_version(2)] safe_ret

lemma safe_requests [safe_intro]:
  "safe (r08_from_wire p)" "safe (r14_from_wire p)" "safe (rsrv_from_wire p)"
  unfolding r08_from_wire_def r14_from_wire_def rsrv_from_wire_def
  by (rule safe_bind_Ok [OF safe_header], intro safe_request_steps, erule header_first_offset, assumption, simp)+

lemma safe_request [safe_intro]: "safe (request_from_wire p)"
  unfolding request_from_wire_def
  by (intro safe_bind [OF safe_asks] safe_if safe_fail safe_peek_u32 safe_bind [OF safe_requests(1)]
      safe_bind [OF safe_requests(2)] safe_bind [OF safe_requests(3)] safe_ret)

text \<open>A parsed request carries a 32-byte nonce.\<close>

lemma wf_after_versions:
  assumes wf: "wf_cursor c" and h: "header_from_wire N c = Ok (h, c1)" "2 \<le> N"
    and v: "ver_from_wire_n p (unat (hdr_offsets h ! 0)) c1 = Ok (v, c2)"
  shows "wf_cursor c2"
proof -
  have w: "wf_cursor c1" using safeD(2) [OF safe_header wf h(1)] by simp
  have s: "safe (ver_from_wire_n p (unat (hdr_offsets h ! 0)))"
    using header_first_offset [OF wf h] by (intro safe_version_list) simp
  show ?thesis using safeD(2) [OF s w v] by simp
qed

lemmas from_wire_inversion = bind_def asks_def lift_def and_then_Ok_iff ret_def fail_def

lemma r08_from_wire_nonce:
  assumes wf: "wf_cursor c" and ok: "r08_from_wire p c = Ok (q, c')"
  shows "length (r08_nonce q) = 32"
proof -
  from ok obtain h c1 v c2 n c3 where 1: "header_from_wire 3 c = Ok (h, c1)"
    "ver_from_wire_n p (unat (hdr_offsets h ! 0)) c1 = Ok (v, c2)" "nonce_from_wire c2 = Ok (n, c3)" "r08_nonce q = n"
    by (auto simp: r08_from_wire_def from_wire_inversion split: if_splits)
  then show ?thesis using values_Ok(1) [OF wf_after_versions [OF wf 1(1) _ 1(2)] 1(3)] by simp
qed

lemma r14_from_wire_nonce:
  assumes wf: "wf_cursor c" and ok: "r14_from_wire p c = Ok (q, c')"
  shows "length (r14_nonce q) = 32"
proof -
  from ok obtain h c1 v c2 n c3 where 1: "header_from_wire 4 c = Ok (h, c1)"
    "ver_from_wire_n p (unat (hdr_offsets h ! 0)) c1 = Ok (v, c2)" "nonce_from_wire c2 = Ok (n, c3)" "r14_nonce q = n"
    by (auto simp: r14_from_wire_def from_wire_inversion split: if_splits)
  then show ?thesis using values_Ok(1) [OF wf_after_versions [OF wf 1(1) _ 1(2)] 1(3)] by simp
qed

lemma rsrv_from_wire_nonce:
  assumes wf: "wf_cursor c" and ok: "rsrv_from_wire p c = Ok (q, c')"
  shows "length (rsrv_nonce q) = 32"
proof -
  from ok obtain h c1 v c2 s c2' n c3 where 1: "header_from_wire 5 c = Ok (h, c1)"
    "ver_from_wire_n p (unat (hdr_offsets h ! 0)) c1 = Ok (v, c2)" "srv_from_wire c2 = Ok (s, c2')"
    "nonce_from_wire c2' = Ok (n, c3)" "rsrv_nonce q = n"
    by (auto simp: rsrv_from_wire_def from_wire_inversion split: if_splits)
  have "wf_cursor c2'" using safeD(2) [OF safe_values(6) wf_after_versions [OF wf 1(1) _ 1(2)] 1(3)] by simp
  then show ?thesis using values_Ok(1) [OF _ 1(4)] 1(5) by simp
qed

lemma request_from_wire_nonce:
  assumes wf: "wf_cursor c" and ok: "request_from_wire p c = Ok (r, c')"
  shows "length (request_nonc r) = 32"
proof -
  from ok obtain n c0 where n: "try_get_u32_le c = Ok (n, c0)" "remaining c = 1012"
    by (auto simp: request_from_wire_def from_wire_inversion get_position_def split: if_splits)
  show ?thesis
    using ok [unfolded request_from_wire_at [OF wf n(2,1)]]
    by (auto simp: bind_def and_then_Ok_iff ret_def split: if_splits
        dest: r08_from_wire_nonce [OF wf] r14_from_wire_nonce [OF wf] rsrv_from_wire_nonce [OF wf])
qed

lemma request_parse_nonce:
  assumes "parse (from_frame (request_from_wire p)) bs = Ok r"
  shows "length (request_nonc r) = 32"
proof -
  obtain c' where "from_frame (request_from_wire p) (cursor_new bs) = Ok (r, c')"
    using assms by (auto simp: parse_Ok_iff)
  from from_frame_Ok [OF wf_cursor_new this] obtain c1 where
    "wf_cursor c1" "request_from_wire p c1 = Ok (r, c')" using consumes_wf by blast
  then show ?thesis by (rule request_from_wire_nonce)
qed

section \<open>Requests built by the client\<close>

lemma request_new_valid:
  "length n = 32 \<Longrightarrow> request_valid (request_new_draft08 n)"
  "length n = 32 \<Longrightarrow> request_valid (request_new_draft14 n)"
  "length n = 32 \<Longrightarrow> length sc = 32 \<Longrightarrow> request_valid (request_new_draft14_srv n sc)"
  by (simp_all add: request_new_draft08_def request_new_draft14_def request_new_draft14_srv_def
      r08_new_def r14_new_def rsrv_new_def r08_default_def r14_default_def rsrv_default_def Let_def
      r08_valid_def r14_valid_def rsrv_valid_def requested_versions_new_def requested_versions_default_def
      version_list_new_def MAX_VERSIONS_def ver_wire_size_def version_list_wire_size_def
      nonce_wire_size_def srv_wire_size_def message_type_wire_size_def sized_def
      header_of_def header_default_def r08_tags_def r14_tags_def rsrv_tags_def)

lemma request_new_nonc:
  "request_nonc (request_new_draft08 n) = n" "request_nonc (request_new_draft14 n) = n"
  "request_nonc (request_new_draft14_srv n sc) = n"
  by (simp_all add: request_new_draft08_def request_new_draft14_def request_new_draft14_srv_def
      r08_new_def r14_new_def rsrv_new_def)

section \<open>Properties\<close>

text \<open>Parsing a request frame never panics: whatever bytes arrive, in both build profiles,
  \<open>Request::from_frame\<close> returns a request or an error.\<close>

lemma request_parse_no_panic: "parse (from_frame (request_from_wire p)) bs \<noteq> Panic"
  by (intro parse_no_panic safe_intro)

text \<open>C21. Requests round-trip: for every 32-byte nonce and every 32-byte server commitment, each of
  the three requests the client can construct serialises without error to a frame of exactly
  \<open>REQUEST_SIZE\<close> = 1024 bytes, and parsing that frame on the server yields the same request with the
  same nonce.\<close>

theorem request_frame_round_trip:
  assumes "length n = 32" "length sc = 32"
    and "r \<in> {request_new_draft08 n, request_new_draft14 n, request_new_draft14_srv n sc}"
  shows "\<exists>bs. as_frame_bytes request_wire_size request_to_wire r = Ok bs \<and> length bs = REQUEST_SIZE \<and>
           parse (from_frame (request_from_wire p)) bs = Ok r \<and> request_nonc r = n"
proof -
  have v: "request_valid r" and n: "request_nonc r = n" using assms request_new_valid request_new_nonc by auto
  show ?thesis
    using request_message.as_frame_bytes_enc [OF v] request_message.frame_round_trip [OF v, of p]
      length_request_enc [OF v] request_wire_size_valid [OF v] n
    by (auto simp: REQUEST_SIZE_def FRAME_OVERHEAD_def MINIMUM_FRAME_SIZE_def)
qed

theorem request_frame_round_trip_witness:
  "\<exists>bs. as_frame_bytes request_wire_size request_to_wire (request_new_draft14 (replicate 32 7)) = Ok bs \<and>
     length bs = REQUEST_SIZE \<and>
     parse (from_frame (request_from_wire Debug)) bs = Ok (request_new_draft14 (replicate 32 7)) \<and>
     request_nonc (request_new_draft14 (replicate 32 7)) = replicate 32 7"
  by (rule request_frame_round_trip [of "replicate 32 7" "replicate 32 1"]) simp_all

lemma framed_nonce:
  assumes "length n = 32"
  shows "take 32 (drop FRAMED_NONCE_OFFSET (frame_enc (request_enc (request_new_draft08 n)))) = n"
proof -
  have v: "request_valid (request_new_draft08 n)" using assms by (rule request_new_valid)
  obtain q where q: "request_new_draft08 n = Draft08 q" "r08_nonce q = n"
    by (simp add: request_new_draft08_def r08_new_def)
  with v have h: "length (header_enc (r08_header q)) = 24" "length (r08_version q) = 1"
    using request_header_length(1) by (auto simp: r08_valid_def)
  with q assms show ?thesis
    by (simp add: frame_enc_def r08_enc_def FRAMED_NONCE_OFFSET_def)
qed

lemma request_frame_ok:
  assumes "request_valid r"
  shows "length (frame_enc (request_enc r)) = REQUEST_SIZE"
    "parse (from_frame (request_from_wire p)) (frame_enc (request_enc r)) = Ok r"
  using request_message.frame_round_trip [OF assms, of p] length_request_enc [OF assms] request_wire_size_valid [OF assms]
  by (simp_all add: REQUEST_SIZE_def FRAME_OVERHEAD_def MINIMUM_FRAME_SIZE_def)

end
