(* ===== verification/Response.thy ===== *)
theory Response
  imports Request
begin

text \<open>
  Responses (\<^verbatim>\<open>response.rs\<close>) in the draft-14 and draft-08 formats, with the offset bookkeeping of
  the setters. The parsers read the fields one after the other; from the header they only use the
  two offsets that delimit PATH. The general parsing lemmas below therefore allow any header with
  the right tags, not only the one the setters compute.
\<close>

section \<open>Draft-14 responses\<close>

record response =
  resp_header :: header
  resp_signature :: signature
  resp_nonce :: nonce
  resp_msg_type :: message_type
  resp_path :: merkle_path
  resp_srep :: signed_response
  resp_cert :: certificate
  resp_index :: u32

definition resp_tags :: "tag list" where
  "resp_tags = [SIG, NONC, TYPE_TAG, PATH, SREP, CERT, INDX]"

definition update_offsets :: "response \<Rightarrow> response" where
  "update_offsets r =
     (let o0 = of_nat (sig_wire_size (resp_signature r));
          o1 = o0 + of_nat (nonce_wire_size (resp_nonce r));
          o2 = o1 + of_nat (message_type_wire_size (resp_msg_type r));
          o3 = o2 + of_nat (path_wire_size (resp_path r));
          o4 = o3 + of_nat (srep_wire_size (resp_srep r));
          o5 = o4 + of_nat (cert_wire_size (resp_cert r))
      in r\<lparr>resp_header := (resp_header r)\<lparr>hdr_offsets := [o0, o1, o2, o3, o4, o5]\<rparr>\<rparr>)"

definition resp_set_sig :: "signature \<Rightarrow> response \<Rightarrow> response" where
  "resp_set_sig sg r = r\<lparr>resp_signature := sg\<rparr>"

definition resp_set_nonc :: "nonce \<Rightarrow> response \<Rightarrow> response" where
  "resp_set_nonc n r = r\<lparr>resp_nonce := n\<rparr>"

definition resp_set_path :: "merkle_path \<Rightarrow> response \<Rightarrow> response" where
  "resp_set_path mp r = update_offsets (r\<lparr>resp_path := mp\<rparr>)"

definition resp_copy_path :: "merkle_path \<Rightarrow> response \<Rightarrow> response" where
  "resp_copy_path mp r = update_offsets (r\<lparr>resp_path := path_copy_from mp (resp_path r)\<rparr>)"

definition resp_set_srep :: "signed_response \<Rightarrow> response \<Rightarrow> response" where
  "resp_set_srep s r = update_offsets (r\<lparr>resp_srep := s\<rparr>)"

definition resp_set_cert :: "certificate \<Rightarrow> response \<Rightarrow> response" where
  "resp_set_cert c r = r\<lparr>resp_cert := c\<rparr>"

definition resp_set_indx :: "u32 \<Rightarrow> response \<Rightarrow> response" where
  "resp_set_indx i r = r\<lparr>resp_index := i\<rparr>"

definition resp_default :: response where
  "resp_default =
     \<lparr>resp_header = (header_default 7)\<lparr>hdr_tags := resp_tags\<rparr>,
      resp_signature = sig_default, resp_nonce = fixed_tag_default 32, resp_msg_type = ResponseType,
      resp_path = path_default, resp_srep = srep_default, resp_cert = cert_default, resp_index = 0\<rparr>"

definition resp_from_wire :: "profile \<Rightarrow> response cursor_op" where
  "resp_from_wire p =
     bind (header_from_wire 7) (\<lambda>h.
     bind (asks remaining) (\<lambda>rem.
     bind (lift (check_offset_bounds h rem)) (\<lambda>_.
     if hdr_tags h \<noteq> resp_tags then fail UnexpectedTags
     else
     bind sig_from_wire (\<lambda>sg.
     bind nonce_from_wire (\<lambda>n.
     bind message_type_from_wire (\<lambda>mt.
     if mt \<noteq> ResponseType then fail (InvalidMessageType (message_type_value mt))
     else
     bind (lift (sub_word p (hdr_offsets h ! 3) (hdr_offsets h ! 2))) (\<lambda>path_len.
     bind (path_from_wire_n (unat path_len)) (\<lambda>mp.
     bind (srep_from_wire p) (\<lambda>srep.
     bind cert_from_wire (\<lambda>cert.
     bind try_get_u32_le (\<lambda>index.
     ret (resp_default\<lparr>resp_header := h, resp_signature := sg, resp_nonce := n, resp_path := mp,
                       resp_srep := srep, resp_cert := cert, resp_index := index\<rparr>))))))))))))"

definition resp_wire_size :: "response \<Rightarrow> nat" where
  "resp_wire_size r =
     header_wire_size 7 (resp_header r) + sig_wire_size (resp_signature r) + nonce_wire_size (resp_nonce r)
     + message_type_wire_size (resp_msg_type r) + path_wire_size (resp_path r)
     + srep_wire_size (resp_srep r) + cert_wire_size (resp_cert r) + 4"

definition resp_to_wire :: "response \<Rightarrow> unit cursor_op" where
  "resp_to_wire r =
     bind (asks capacity) (\<lambda>cap.
     if cap < resp_wire_size r then fail (BufferTooSmall (resp_wire_size r) cap)
     else
     bind (header_to_wire 7 (resp_header r)) (\<lambda>_.
     bind (sig_to_wire (resp_signature r)) (\<lambda>_.
     bind (nonce_to_wire (resp_nonce r)) (\<lambda>_.
     bind (message_type_to_wire (resp_msg_type r)) (\<lambda>_.
     bind (path_to_wire (resp_path r)) (\<lambda>_.
     bind (srep_to_wire (resp_srep r)) (\<lambda>_.
     bind (cert_to_wire (resp_cert r)) (\<lambda>_.
     put_u32_le (resp_index r)))))))))"

section \<open>Draft-08 responses\<close>

record response_draft08 =
  resp08_header :: header
  resp08_signature :: signature
  resp08_version :: protocol_version
  resp08_path :: merkle_path
  resp08_srep :: signed_response_draft08
  resp08_cert :: certificate
  resp08_index :: u32

definition resp08_tags :: "tag list" where
  "resp08_tags = [SIG, VER, PATH, SREP, CERT, INDX]"

definition update_offsets08 :: "response_draft08 \<Rightarrow> response_draft08" where
  "update_offsets08 r =
     (let o0 = of_nat (sig_wire_size (resp08_signature r));
          o1 = o0 + of_nat (version_wire_size (resp08_version r));
          o2 = o1 + of_nat (path_wire_size (resp08_path r));
          o3 = o2 + of_nat (srep08_wire_size (resp08_srep r));
          o4 = o3 + of_nat (cert_wire_size (resp08_cert r))
      in r\<lparr>resp08_header := (resp08_header r)\<lparr>hdr_offsets := [o0, o1, o2, o3, o4]\<rparr>\<rparr>)"

definition resp08_set_sig :: "signature \<Rightarrow> response_draft08 \<Rightarrow> response_draft08" where
  "resp08_set_sig sg r = r\<lparr>resp08_signature := sg\<rparr>"

definition resp08_set_srep :: "signed_response_draft08 \<Rightarrow> response_draft08 \<Rightarrow> response_draft08" where
  "resp08_set_srep s r = update_offsets08 (r\<lparr>resp08_srep := s\<rparr>)"

definition resp08_set_cert :: "certificate \<Rightarrow> response_draft08 \<Rightarrow> response_draft08" where
  "resp08_set_cert c r = update_offsets08 (r\<lparr>resp08_cert := c\<rparr>)"

definition resp08_set_indx :: "u32 \<Rightarrow> response_draft08 \<Rightarrow> response_draft08" where
  "resp08_set_indx i r = r\<lparr>resp08_index := i\<rparr>"

definition resp08_set_path :: "merkle_path \<Rightarrow> response_draft08 \<Rightarrow> response_draft08" where
  "resp08_set_path mp r = update_offsets08 (r\<lparr>resp08_path := mp\<rparr>)"

definition resp08_copy_path :: "merkle_path \<Rightarrow> response_draft08 \<Rightarrow> response_draft08" where
  "resp08_copy_path mp r = update_offsets08 (r\<lparr>resp08_path := path_copy_from mp (resp08_path r)\<rparr>)"

definition resp08_default :: response_draft08 where
  "resp08_default =
     \<lparr>resp08_header = (header_default 6)\<lparr>hdr_tags := resp08_tags\<rparr>,
      resp08_signature = sig_default, resp08_version = RfcDraft08, resp08_path = path_default,
      resp08_srep = srep08_default, resp08_cert = cert_default, resp08_index = 0\<rparr>"

definition resp08_from_wire :: "profile \<Rightarrow> response_draft08 cursor_op" where
  "resp08_from_wire p =
     bind (header_from_wire 6) (\<lambda>h.
     bind (asks remaining) (\<lambda>rem.
     bind (lift (check_offset_bounds h rem)) (\<lambda>_.
     if hdr_tags h \<noteq> resp08_tags then fail UnexpectedTags
     else
     bind sig_from_wire (\<lambda>sg.
     bind version_from_wire (\<lambda>ver.
     bind (lift (sub_word p (hdr_offsets h ! 2) (hdr_offsets h ! 1))) (\<lambda>path_len.
     bind (path_from_wire_n (unat path_len)) (\<lambda>mp.
     bind srep08_from_wire (\<lambda>srep.
     bind cert_from_wire (\<lambda>cert.
     bind try_get_u32_le (\<lambda>index.
     ret \<lparr>resp08_header = h, resp08_signature = sg, resp08_version = ver, resp08_path = mp,
          resp08_srep = srep, resp08_cert = cert, resp08_index = index\<rparr>))))))))))"

definition resp08_wire_size :: "response_draft08 \<Rightarrow> nat" where
  "resp08_wire_size r =
     header_wire_size 6 (resp08_header r) + sig_wire_size (resp08_signature r)
     + version_wire_size (resp08_version r) + path_wire_size (resp08_path r)
     + srep08_wire_size (resp08_srep r) + cert_wire_size (resp08_cert r) + 4"

definition resp08_to_wire :: "response_draft08 \<Rightarrow> unit cursor_op" where
  "resp08_to_wire r =
     bind (header_to_wire 6 (resp08_header r)) (\<lambda>_.
     bind (sig_to_wire (resp08_signature r)) (\<lambda>_.
     bind (version_to_wire (resp08_version r)) (\<lambda>_.
     bind (path_to_wire (resp08_path r)) (\<lambda>_.
     bind (srep08_to_wire (resp08_srep r)) (\<lambda>_.
     bind (cert_to_wire (resp08_cert r)) (\<lambda>_.
     put_u32_le (resp08_index r)))))))"

text \<open>\<open>From<ResponseDraft08> for Response\<close>.\<close>

definition resp_from_draft08 :: "response_draft08 \<Rightarrow> response" where
  "resp_from_draft08 d =
     resp_set_indx (resp08_index d)
      (resp_set_cert (resp08_cert d)
       (resp_set_srep (srep_from_draft08 (resp08_srep d))
        (resp_set_path (resp08_path d)
         (resp_set_sig (resp08_signature d) resp_default))))"

section \<open>Encodings\<close>

definition resp_body :: "response \<Rightarrow> bytes" where
  "resp_body r = resp_signature r @ resp_nonce r @ message_type_enc (resp_msg_type r) @ paths (resp_path r)
                 @ srep_enc (resp_srep r) @ cert_enc (resp_cert r) @ u32_to_le_bytes (resp_index r)"

definition resp_enc :: "response \<Rightarrow> bytes" where
  "resp_enc r = header_enc (resp_header r) @ resp_body r"

definition resp08_body :: "response_draft08 \<Rightarrow> bytes" where
  "resp08_body r = resp08_signature r @ version_enc (resp08_version r) @ paths (resp08_path r)
                   @ srep08_enc (resp08_srep r) @ cert_enc (resp08_cert r) @ u32_to_le_bytes (resp08_index r)"

definition resp08_enc :: "response_draft08 \<Rightarrow> bytes" where
  "resp08_enc r = header_enc (resp08_header r) @ resp08_body r"

text \<open>Well-formedness of the fields, whatever the header says.\<close>

definition resp_fields_ok :: "response \<Rightarrow> bool" where
  "resp_fields_ok r \<longleftrightarrow>
     sized 64 (resp_signature r) \<and> sized 32 (resp_nonce r) \<and> resp_msg_type r = ResponseType \<and>
     path_ok (resp_path r) \<and> srep_valid (resp_srep r) \<and> cert_valid (resp_cert r)"

definition resp08_fields_ok :: "response_draft08 \<Rightarrow> bool" where
  "resp08_fields_ok r \<longleftrightarrow>
     sized 64 (resp08_signature r) \<and> path_ok (resp08_path r) \<and> srep08_valid (resp08_srep r) \<and>
     cert_valid (resp08_cert r)"

text \<open>The offsets the setters compute from the sizes of PATH and SREP.\<close>

definition resp_offsets :: "nat \<Rightarrow> nat \<Rightarrow> u32 list" where
  "resp_offsets pl sl = map of_nat [64, 96, 100, 100 + pl, 100 + pl + sl, 252 + pl + sl]"

definition resp08_offsets :: "nat \<Rightarrow> u32 list" where
  "resp08_offsets pl = map of_nat [64, 68, 68 + pl, 136 + pl, 288 + pl]"

definition resp_ok :: "response \<Rightarrow> bool" where
  "resp_ok r \<longleftrightarrow> resp_fields_ok r \<and>
     resp_header r = header_of (resp_offsets (path_wire_size (resp_path r)) (srep_wire_size (resp_srep r))) resp_tags"

definition resp08_ok :: "response_draft08 \<Rightarrow> bool" where
  "resp08_ok r \<longleftrightarrow> resp08_fields_ok r \<and>
     resp08_header r = header_of (resp08_offsets (path_wire_size (resp08_path r))) resp08_tags"

definition resp_canon :: "response \<Rightarrow> response" where
  "resp_canon r = r\<lparr>resp_path := path_canon (resp_path r)\<rparr>"

definition resp08_canon :: "response_draft08 \<Rightarrow> response_draft08" where
  "resp08_canon r = r\<lparr>resp08_path := path_canon (resp08_path r)\<rparr>"

lemma header_valid_nat:
  assumes "sorted ns" "\<forall>n\<in>set ns. n mod 4 = 0 \<and> n < 2 ^ 32" "Suc (length ns) = N" "length ts = N"
    "sorted ts" "INVALID \<notin> set ts"
  shows "header_accepted N (header_of (map of_nat ns) ts)"
proof -
  have "sorted (map of_nat ns :: u32 list)"
    using assms(1,2) by (induction ns) (auto simp: word_le_nat_alt)
  moreover have "list_all aligned (map of_nat ns)" using assms(2) by (auto simp: list_all_iff aligned_of_nat)
  ultimately show ?thesis using assms(3-) by (auto simp: header_accepted_def header_of_def)
qed

lemma resp_tags_sorted: "sorted resp_tags" "INVALID \<notin> set resp_tags" "length resp_tags = 7"
  "sorted resp08_tags" "INVALID \<notin> set resp08_tags" "length resp08_tags = 6"
  by (simp_all add: resp_tags_def resp08_tags_def tag_order_eval)

lemma resp_header_valid:
  "pl mod 4 = 0 \<Longrightarrow> sl mod 4 = 0 \<Longrightarrow> pl + sl < 2 ^ 31 \<Longrightarrow> header_accepted 7 (header_of (resp_offsets pl sl) resp_tags)"
  unfolding resp_offsets_def
  by (rule header_valid_nat) (auto simp: resp_tags_sorted mod_eq_0_iff_dvd)

lemma resp08_header_valid:
  "pl mod 4 = 0 \<Longrightarrow> pl < 2 ^ 31 \<Longrightarrow> header_accepted 6 (header_of (resp08_offsets pl) resp08_tags)"
  unfolding resp08_offsets_def
  by (rule header_valid_nat) (auto simp: resp_tags_sorted mod_eq_0_iff_dvd)

section \<open>Sizes\<close>

lemma srep_wire_size_valid: "srep_valid s \<Longrightarrow> srep_wire_size s = 88 + 4 * length (srep_supported_versions s)"
  using srep_message.enc_length [of s] by simp

lemma srep_versions_bound: "srep_valid s \<Longrightarrow> length (srep_supported_versions s) \<le> 32"
  by (simp add: srep_valid_def version_list_valid_def MAX_VERSIONS_def)

lemma srep08_wire_size: "srep08_wire_size s = 68"
  by (simp add: srep08_wire_size_def header_wire_size_def root_wire_size_def)

lemma path_wire_size_ok: "path_ok mp \<Longrightarrow> path_wire_size mp = 32 * mp_num_paths mp \<and> mp_num_paths mp \<le> 32"
  by (simp add: path_ok_def path_wire_size_def path_consts)

lemma path_canon_fields [simp]:
  "mp_num_paths (path_canon mp) = mp_num_paths mp" "path_wire_size (path_canon mp) = path_wire_size mp"
  by (simp_all add: path_canon_def path_wire_size_def)

lemma length_resp_body:
  "resp_fields_ok r \<Longrightarrow>
     length (resp_body r) = 256 + path_wire_size (resp_path r) + srep_wire_size (resp_srep r)"
  using path_wire_size_ok [of "resp_path r"]
  by (auto simp: resp_fields_ok_def resp_body_def sized_def srep_wire_size_valid)

lemma length_resp08_body:
  "resp08_fields_ok r \<Longrightarrow> length (resp08_body r) = 292 + path_wire_size (resp08_path r)"
  using path_wire_size_ok [of "resp08_path r"]
  by (auto simp: resp08_fields_ok_def resp08_body_def sized_def)

lemma resp_ok_header:
  assumes "resp_ok r"
  shows "header_accepted 7 (resp_header r)" "length (header_enc (resp_header r)) = 56"
proof -
  have f: "path_ok (resp_path r)" "srep_valid (resp_srep r)"
    "resp_header r = header_of (resp_offsets (path_wire_size (resp_path r)) (srep_wire_size (resp_srep r))) resp_tags"
    using assms by (auto simp: resp_ok_def resp_fields_ok_def)
  show "header_accepted 7 (resp_header r)"
    unfolding f(3) using path_wire_size_ok [OF f(1)] srep_versions_bound [OF f(2)]
    by (intro resp_header_valid) (auto simp: srep_wire_size_valid f(2))
  from length_header_enc [OF this] show "length (header_enc (resp_header r)) = 56"
    by (simp add: header_wire_size_def)
qed

lemma resp08_ok_header:
  assumes "resp08_ok r"
  shows "header_accepted 6 (resp08_header r)" "length (header_enc (resp08_header r)) = 48"
proof -
  have f: "path_ok (resp08_path r)"
    "resp08_header r = header_of (resp08_offsets (path_wire_size (resp08_path r))) resp08_tags"
    using assms by (auto simp: resp08_ok_def resp08_fields_ok_def)
  show "header_accepted 6 (resp08_header r)"
    unfolding f(2) using path_wire_size_ok [OF f(1)] by (intro resp08_header_valid) auto
  from length_header_enc [OF this] show "length (header_enc (resp08_header r)) = 48"
    by (simp add: header_wire_size_def)
qed

lemma length_resp_enc: "resp_ok r \<Longrightarrow> length (resp_enc r) = resp_wire_size r"
  using resp_ok_header(2) [of r] length_resp_body [of r]
  by (simp add: resp_enc_def resp_ok_def resp_wire_size_def header_wire_size_def sig_wire_size_def
      nonce_wire_size_def message_type_wire_size_def cert_wire_size_def)

lemma length_resp08_enc: "resp08_ok r \<Longrightarrow> length (resp08_enc r) = resp08_wire_size r"
  using resp08_ok_header(2) [of r] length_resp08_body [of r]
  by (simp add: resp08_enc_def resp08_ok_def resp08_wire_size_def header_wire_size_def sig_wire_size_def
      version_wire_size_def cert_wire_size_def srep08_wire_size)

section \<open>Writing\<close>

lemma writes_capacity:
  "writes w bs \<Longrightarrow> length bs = n \<Longrightarrow>
     writes (bind (asks capacity) (\<lambda>cap. if cap < n then fail (f cap) else w)) bs"
  by (auto simp: writes_def cursor_run)

lemma resp_writes:
  assumes ok: "resp_ok r"
  shows "writes (resp_to_wire r) (resp_enc r)"
  unfolding resp_to_wire_def
proof (rule writes_capacity)
  have f: "path_ok (resp_path r)" "srep_valid (resp_srep r)" "cert_valid (resp_cert r)"
    using ok by (auto simp: resp_ok_def resp_fields_ok_def)
  show "writes (bind (header_to_wire 7 (resp_header r)) (\<lambda>_.
     bind (sig_to_wire (resp_signature r)) (\<lambda>_. bind (nonce_to_wire (resp_nonce r)) (\<lambda>_.
     bind (message_type_to_wire (resp_msg_type r)) (\<lambda>_. bind (path_to_wire (resp_path r)) (\<lambda>_.
     bind (srep_to_wire (resp_srep r)) (\<lambda>_. bind (cert_to_wire (resp_cert r)) (\<lambda>_.
     put_u32_le (resp_index r)))))))) ) (resp_enc r)"
    unfolding resp_enc_def resp_body_def
    by (intro writes_bind writes_intro header_writes cert_codec.enc_writes resp_ok_header ok f)
qed (rule length_resp_enc [OF ok])

lemma resp08_writes:
  assumes ok: "resp08_ok r"
  shows "writes (resp08_to_wire r) (resp08_enc r)"
proof -
  have f: "path_ok (resp08_path r)" "srep08_valid (resp08_srep r)" "cert_valid (resp08_cert r)"
    using ok by (auto simp: resp08_ok_def resp08_fields_ok_def)
  show ?thesis unfolding resp08_to_wire_def resp08_enc_def resp08_body_def
    by (intro writes_bind writes_intro header_writes cert_codec.enc_writes resp08_ok_header ok f)
qed

section \<open>Parsing\<close>

lemma unat_sub_bound: "unat (b - a) = n \<Longrightarrow> (a :: u32) \<le> b \<Longrightarrow> unat b = unat a + n"
  by (simp add: unat_sub word_le_nat_alt)

text \<open>The fields are parsed from the bytes behind the header whatever its other offsets say.\<close>

lemma resp_read_gen:
  assumes f: "resp_fields_ok r" and h: "header_accepted 7 h" "hdr_tags h = resp_tags"
    and b: "check_offset_bounds h (length (resp_body r) + length suf) = Ok ()"
    and p: "unat (hdr_offsets h ! 3 - hdr_offsets h ! 2) = path_wire_size (resp_path r)"
    and suf: "length suf < 2 ^ 30"
  shows "reads (resp_from_wire pr) pre (header_enc h @ resp_body r) suf
           ((resp_canon r)\<lparr>resp_header := h\<rparr>)"
proof -
  from f have v: "length (resp_signature r) = 64" "length (resp_nonce r) = 32" "resp_msg_type r = ResponseType"
    "path_ok (resp_path r)" "srep_valid (resp_srep r)" "cert_valid (resp_cert r)"
    by (auto simp: resp_fields_ok_def sized_def)
  from h(1) have "sorted (hdr_offsets h)" "length (hdr_offsets h) = 6" by (auto simp: header_accepted_def)
  then have le: "hdr_offsets h ! 2 \<le> hdr_offsets h ! 3" by (simp add: sorted_nth_mono)
  have ps: "path_wire_size (resp_path r) = mp_num_paths (resp_path r) * 32"
    using path_wire_size_ok [OF v(4)] by simp
  have srep: "bind (srep_from_wire pr) k (cursor_at pre' (srep_enc (resp_srep r) @ cert_enc (resp_cert r)
        @ u32_to_le_bytes (resp_index r) @ suf))
      = k (resp_srep r) (cursor_at (pre' @ srep_enc (resp_srep r)) (cert_enc (resp_cert r)
        @ u32_to_le_bytes (resp_index r) @ suf))" for k :: "signed_response \<Rightarrow> response cursor_op" and pre'
    using suf v by (intro reads_run reads_srep) simp_all
  have b': "check_offset_bounds h (length (resp_signature r) + (length (resp_nonce r) + (length (message_type_enc (resp_msg_type r))
       + (length (paths (resp_path r)) + (length (srep_enc (resp_srep r)) + (length (cert_enc (resp_cert r))
       + (length (u32_to_le_bytes (resp_index r)) + length suf))))))) = Ok ()"
    using b by (simp only: resp_body_def length_append add.assoc)
  show ?thesis
    using v le b' unfolding reads_def resp_from_wire_def resp_body_def append_assoc
    by (simp add: cursor_run h p ps srep del: length_word_bytes length_version_enc length_paths
        length_srep_enc length_cert_dele) 
      (simp add: resp_canon_def resp_default_def)
qed

lemma resp08_read_gen:
  assumes f: "resp08_fields_ok r" and h: "header_accepted 6 h" "hdr_tags h = resp08_tags"
    and b: "check_offset_bounds h (length (resp08_body r) + length suf) = Ok ()"
    and p: "unat (hdr_offsets h ! 2 - hdr_offsets h ! 1) = path_wire_size (resp08_path r)"
    and suf: "length suf < 2 ^ 30"
  shows "reads (resp08_from_wire pr) pre (header_enc h @ resp08_body r) suf
           ((resp08_canon r)\<lparr>resp08_header := h\<rparr>)"
proof -
  from f have v: "length (resp08_signature r) = 64"
    "path_ok (resp08_path r)" "srep08_valid (resp08_srep r)" "cert_valid (resp08_cert r)"
    by (auto simp: resp08_fields_ok_def sized_def)
  from h(1) have "sorted (hdr_offsets h)" "length (hdr_offsets h) = 5" by (auto simp: header_accepted_def)
  then have le: "hdr_offsets h ! Suc 0 \<le> hdr_offsets h ! 2" by (simp add: sorted_nth_mono)
  have ps: "path_wire_size (resp08_path r) = mp_num_paths (resp08_path r) * 32"
    using path_wire_size_ok [OF v(2)] by simp
  have srep: "bind srep08_from_wire k (cursor_at pre' (srep08_enc (resp08_srep r) @ cert_enc (resp08_cert r)
        @ u32_to_le_bytes (resp08_index r) @ suf))
      = k (resp08_srep r) (cursor_at (pre' @ srep08_enc (resp08_srep r)) (cert_enc (resp08_cert r)
        @ u32_to_le_bytes (resp08_index r) @ suf))" for k :: "signed_response_draft08 \<Rightarrow> response_draft08 cursor_op" and pre'
    using suf v by (intro reads_run reads_srep08) simp_all
  have b': "check_offset_bounds h (length (resp08_signature r) + (length (version_enc (resp08_version r))
       + (length (paths (resp08_path r)) + (length (srep08_enc (resp08_srep r)) + (length (cert_enc (resp08_cert r))
       + (length (u32_to_le_bytes (resp08_index r)) + length suf)))))) = Ok ()"
    using b by (simp only: resp08_body_def length_append add.assoc)
  show ?thesis
    using v le b' p unfolding reads_def resp08_from_wire_def resp08_body_def append_assoc
    by (simp add: cursor_run h ps srep del: length_word_bytes length_version_enc length_paths
        length_srep08_enc length_cert_dele)
      (simp add: resp08_canon_def)
qed

lemma resp_offsets_nth [simp]:
  "resp_offsets pl sl ! 2 = 100" "resp_offsets pl sl ! 3 = of_nat (100 + pl)"
  "resp_offsets pl sl ! 4 = of_nat (100 + pl + sl)"
  by (simp_all add: resp_offsets_def numeral_eq_Suc)

lemma resp08_offsets_nth [simp]:
  "resp08_offsets pl ! 1 = 68" "resp08_offsets pl ! 2 = of_nat (68 + pl)" "resp08_offsets pl ! 3 = of_nat (136 + pl)"
  by (simp_all add: resp08_offsets_def numeral_eq_Suc)

lemma unat_of_nat_diff_u32: "(numeral k :: nat) + n < 2 ^ 32 \<Longrightarrow> unat (of_nat (numeral k + n) - numeral k :: u32) = n"
  by simp

lemma resp_read_back:
  assumes ok: "resp_ok r"
  shows "reads (resp_from_wire pr) pre (resp_enc r) [] (resp_canon r)"
proof -
  let ?pl = "path_wire_size (resp_path r)" and ?sl = "srep_wire_size (resp_srep r)"
  have f: "resp_fields_ok r" and h: "resp_header r = header_of (resp_offsets ?pl ?sl) resp_tags"
    and v: "path_ok (resp_path r)" "srep_valid (resp_srep r)"
    using ok by (auto simp: resp_ok_def resp_fields_ok_def)
  have bnd: "?pl \<le> 1024" "?sl \<le> 216"
    using path_wire_size_ok [OF v(1)] srep_versions_bound [OF v(2)] srep_wire_size_valid [OF v(2)] by auto
  have "check_offset_bounds (resp_header r) (length (resp_body r) + length ([] :: bytes)) = Ok ()"
    using bnd length_resp_body [OF f] by (intro check_bounds_in) (simp_all add: h resp_offsets_def del: of_nat_add)
  moreover have "unat (hdr_offsets (resp_header r) ! 3 - hdr_offsets (resp_header r) ! 2) = ?pl"
    using bnd by (simp add: h)
  moreover have "hdr_tags (resp_header r) = resp_tags" by (simp add: h)
  moreover have "(resp_canon r)\<lparr>resp_header := resp_header r\<rparr> = resp_canon r" by (simp add: resp_canon_def)
  ultimately show ?thesis
    using resp_read_gen [OF f resp_ok_header(1) [OF ok], of "[]" pr pre] by (simp add: resp_enc_def)
qed

lemma resp08_read_back:
  assumes ok: "resp08_ok r"
  shows "reads (resp08_from_wire pr) pre (resp08_enc r) [] (resp08_canon r)"
proof -
  let ?pl = "path_wire_size (resp08_path r)"
  have f: "resp08_fields_ok r" and h: "resp08_header r = header_of (resp08_offsets ?pl) resp08_tags"
    and v: "path_ok (resp08_path r)"
    using ok by (auto simp: resp08_ok_def resp08_fields_ok_def)
  have bnd: "?pl \<le> 1024" using path_wire_size_ok [OF v(1)] by auto
  have "check_offset_bounds (resp08_header r) (length (resp08_body r) + length ([] :: bytes)) = Ok ()"
    using bnd length_resp08_body [OF f] by (intro check_bounds_in) (simp_all add: h resp08_offsets_def del: of_nat_add)
  moreover have "unat (hdr_offsets (resp08_header r) ! 2 - hdr_offsets (resp08_header r) ! 1) = ?pl"
    using bnd by (simp add: h del: One_nat_def)
  moreover have "hdr_tags (resp08_header r) = resp08_tags" by (simp add: h)
  moreover have "(resp08_canon r)\<lparr>resp08_header := resp08_header r\<rparr> = resp08_canon r" by (simp add: resp08_canon_def)
  ultimately show ?thesis
    using resp08_read_gen [OF f resp08_ok_header(1) [OF ok], of "[]" pr pre] by (simp add: resp08_enc_def)
qed

text \<open>Responses whose path buffer has no stale bytes are read back exactly.\<close>

definition resp_valid :: "response \<Rightarrow> bool" where
  "resp_valid r \<longleftrightarrow> resp_ok r \<and> path_valid (resp_path r)"

definition resp08_valid :: "response_draft08 \<Rightarrow> bool" where
  "resp08_valid r \<longleftrightarrow> resp08_ok r \<and> path_valid (resp08_path r)"

lemma resp_canon_valid: "resp_ok r \<Longrightarrow> resp_valid (resp_canon r)" "resp_valid r \<Longrightarrow> resp_canon r = r"
  "resp_ok r \<Longrightarrow> resp_enc (resp_canon r) = resp_enc r"
  by (auto simp: resp_valid_def resp_ok_def resp_fields_ok_def resp_canon_def path_valid_canon resp_enc_def resp_body_def)
    (auto simp: path_valid_def path_ok_ops path_valid_canon [unfolded path_valid_def])

lemma resp08_canon_valid: "resp08_ok r \<Longrightarrow> resp08_valid (resp08_canon r)" "resp08_valid r \<Longrightarrow> resp08_canon r = r"
  "resp08_ok r \<Longrightarrow> resp08_enc (resp08_canon r) = resp08_enc r"
  by (auto simp: resp08_valid_def resp08_ok_def resp08_fields_ok_def resp08_canon_def path_valid_canon resp08_enc_def resp08_body_def)
    (auto simp: path_valid_def path_ok_ops path_valid_canon [unfolded path_valid_def])

interpretation resp_writer: wire_writer resp_wire_size resp_to_wire resp_ok resp_enc
  by unfold_locales (auto intro: length_resp_enc resp_writes)

interpretation resp08_writer: wire_writer resp08_wire_size resp08_to_wire resp08_ok resp08_enc
  by unfold_locales (auto intro: length_resp08_enc resp08_writes)

interpretation resp_message: wire_message resp_wire_size resp_to_wire resp_valid resp_enc "resp_from_wire p" for p
proof unfold_locales
  fix m pre assume m: "resp_valid m"
  then have ok: "resp_ok m" by (simp add: resp_valid_def)
  show "length (resp_enc m) = resp_wire_size m" "writes (resp_to_wire m) (resp_enc m)"
    using length_resp_enc [OF ok] resp_writes [OF ok] by auto
  show "\<exists>c'. resp_from_wire p (cursor_at pre (resp_enc m)) = Ok (m, c')"
    using reads_endD [OF resp_read_back [OF ok]] resp_canon_valid(2) [OF m] by simp
qed

interpretation resp08_message: wire_message resp08_wire_size resp08_to_wire resp08_valid resp08_enc "resp08_from_wire p" for p
proof unfold_locales
  fix m pre assume m: "resp08_valid m"
  then have ok: "resp08_ok m" by (simp add: resp08_valid_def)
  show "length (resp08_enc m) = resp08_wire_size m" "writes (resp08_to_wire m) (resp08_enc m)"
    using length_resp08_enc [OF ok] resp08_writes [OF ok] by auto
  show "\<exists>c'. resp08_from_wire p (cursor_at pre (resp08_enc m)) = Ok (m, c')"
    using reads_endD [OF resp08_read_back [OF ok]] resp08_canon_valid(2) [OF m] by simp
qed

section \<open>Panic freedom\<close>

lemma header_offset_sub:
  assumes "wf_cursor c" "header_from_wire N c = Ok (h, c')" "Suc i < N - 1"
  shows "sub_word p (hdr_offsets h ! Suc i) (hdr_offsets h ! i) \<noteq> (Panic :: (error, u32) outcome)"
proof -
  have "header_accepted N h" using hdr_exact.exact [OF assms(1,2)] by simp
  then have "sorted (hdr_offsets h)" "length (hdr_offsets h) = N - 1" by (auto simp: header_accepted_def)
  with assms(3) have "hdr_offsets h ! i \<le> hdr_offsets h ! Suc i" by (simp add: sorted_nth_mono)
  then show ?thesis by simp
qed

lemmas safe_response_steps =
  safe_bind [OF safe_asks] safe_bind [OF safe_lift [OF check_offset_bounds_no_panic]] safe_if safe_fail
  safe_bind [OF safe_values(4)] safe_bind [OF safe_values(2)] safe_bind [OF safe_version(2)]
  safe_bind [OF safe_version(1)] safe_bind [OF safe_path] safe_bind [OF safe_srep] safe_bind [OF safe_srep08]
  safe_bind [OF safe_cert] safe_bind [OF safe_try_ints(1)] safe_ret

lemma safe_response [safe_intro]: "safe (resp_from_wire p)"
  unfolding resp_from_wire_def
proof (rule safe_bind_Ok [OF safe_header], goal_cases)
  case (1 c h c')
  from header_offset_sub [OF 1, of 2]
  have np: "sub_word p (hdr_offsets h ! 3) (hdr_offsets h ! 2) \<noteq> (Panic :: (error, u32) outcome)"
    by (simp add: numeral_eq_Suc)
  show ?case by (intro safe_response_steps safe_bind [OF safe_lift [OF np]])
qed

lemma safe_response08 [safe_intro]: "safe (resp08_from_wire p)"
  unfolding resp08_from_wire_def
proof (rule safe_bind_Ok [OF safe_header], goal_cases)
  case (1 c h c')
  from header_offset_sub [OF 1, of 1]
  have np: "sub_word p (hdr_offsets h ! 2) (hdr_offsets h ! 1) \<noteq> (Panic :: (error, u32) outcome)"
    by (simp add: numeral_eq_Suc)
  show ?case by (intro safe_response_steps safe_bind [OF safe_lift [OF np]])
qed

section \<open>The setters\<close>

definition resp_frame_header_ok :: "response \<Rightarrow> bool" where
  "resp_frame_header_ok r \<longleftrightarrow> hdr_num_tags (resp_header r) = 7 \<and> hdr_tags (resp_header r) = resp_tags"

definition resp08_frame_header_ok :: "response_draft08 \<Rightarrow> bool" where
  "resp08_frame_header_ok r \<longleftrightarrow> hdr_num_tags (resp08_header r) = 6 \<and> hdr_tags (resp08_header r) = resp08_tags"

lemma update_offsets_header:
  "resp_frame_header_ok r \<Longrightarrow>
     update_offsets r = r\<lparr>resp_header :=
       header_of (resp_offsets (path_wire_size (resp_path r)) (srep_wire_size (resp_srep r))) resp_tags\<rparr>"
  by (cases "resp_header r")
    (simp add: update_offsets_def Let_def resp_frame_header_ok_def header_of_def resp_offsets_def resp_tags_def
      sig_wire_size_def nonce_wire_size_def message_type_wire_size_def cert_wire_size_def algebra_simps)

lemma update_offsets08_header:
  "resp08_frame_header_ok r \<Longrightarrow>
     update_offsets08 r = r\<lparr>resp08_header := header_of (resp08_offsets (path_wire_size (resp08_path r))) resp08_tags\<rparr>"
  by (cases "resp08_header r")
    (simp add: update_offsets08_def Let_def resp08_frame_header_ok_def header_of_def resp08_offsets_def resp08_tags_def
      sig_wire_size_def version_wire_size_def srep08_wire_size cert_wire_size_def algebra_simps)

lemma resp_ok_frame_header: "resp_ok r \<Longrightarrow> resp_frame_header_ok r"
  by (simp add: resp_ok_def resp_frame_header_ok_def header_of_def resp_tags_def)

lemma resp08_ok_frame_header: "resp08_ok r \<Longrightarrow> resp08_frame_header_ok r"
  by (simp add: resp08_ok_def resp08_frame_header_ok_def header_of_def resp08_tags_def)

lemma resp_default_header: "resp_frame_header_ok resp_default" "resp08_frame_header_ok resp08_default"
  by (simp_all add: resp_frame_header_ok_def resp_default_def header_default_def
      resp08_frame_header_ok_def resp08_default_def)

lemma resp_ok_setters:
  "resp_ok r \<Longrightarrow> length sg = 64 \<Longrightarrow> resp_ok (resp_set_sig sg r)"
  "resp_ok r \<Longrightarrow> length n = 32 \<Longrightarrow> resp_ok (resp_set_nonc n r)"
  "resp_ok r \<Longrightarrow> resp_ok (resp_set_indx i r)"
  "resp_ok r \<Longrightarrow> cert_valid c \<Longrightarrow> resp_ok (resp_set_cert c r)"
  by (auto simp: resp_ok_def resp_fields_ok_def resp_set_sig_def resp_set_nonc_def resp_set_indx_def
      resp_set_cert_def sized_def)

lemma resp_ok_copy_path:
  assumes "resp_ok r" "path_ok mp"
  shows "resp_ok (resp_copy_path mp r)"
proof -
  have "path_ok (path_copy_from mp (resp_path r))"
    using assms by (auto simp: resp_ok_def resp_fields_ok_def intro: path_ok_ops)
  moreover have "resp_frame_header_ok (r\<lparr>resp_path := path_copy_from mp (resp_path r)\<rparr>)"
    using resp_ok_frame_header [OF assms(1)] by (simp add: resp_frame_header_ok_def)
  ultimately show ?thesis using assms(1)
    by (simp add: resp_copy_path_def update_offsets_header resp_ok_def resp_fields_ok_def)
qed

lemma resp_from_draft08_ok:
  assumes f: "sized 64 (resp08_signature d)" "path_ok (resp08_path d)" "cert_valid (resp08_cert d)"
    "sized 32 (srep08_merkle_root (resp08_srep d))"
  shows "resp_ok (resp_from_draft08 d)"
proof -
  have s: "srep_valid (srep_from_draft08 (resp08_srep d))"
    using f(4) by (intro srep_from_draft08_valid) (simp add: sized_def)
  let ?r1 = "update_offsets (resp_set_sig (resp08_signature d) resp_default\<lparr>resp_path := resp08_path d\<rparr>)"
  have h1: "resp_frame_header_ok (resp_set_sig (resp08_signature d) resp_default\<lparr>resp_path := resp08_path d\<rparr>)"
    using resp_default_header by (simp add: resp_frame_header_ok_def resp_set_sig_def)
  have h2: "resp_frame_header_ok (?r1\<lparr>resp_srep := srep_from_draft08 (resp08_srep d)\<rparr>)"
    unfolding update_offsets_header [OF h1] by (simp add: resp_frame_header_ok_def header_of_def resp_tags_def)
  show ?thesis
    unfolding resp_from_draft08_def resp_set_srep_def resp_set_path_def resp_set_cert_def resp_set_indx_def
      update_offsets_header [OF h2]
    unfolding update_offsets_header [OF h1]
    using f s by (simp add: resp_ok_def resp_fields_ok_def resp_set_sig_def resp_default_def)
qed

text \<open>What the server's responses of one batch have in common.\<close>

lemma common14_ok:
  assumes "cert_valid cert" "srep_valid srep" "length sg = 64"
  shows "resp_ok (resp_set_sig sg (resp_set_srep srep (resp_set_cert cert resp_default)))"
    "resp_signature (resp_set_sig sg (resp_set_srep srep (resp_set_cert cert resp_default))) = sg"
    "resp_srep (resp_set_sig sg (resp_set_srep srep (resp_set_cert cert resp_default))) = srep"
    "resp_cert (resp_set_sig sg (resp_set_srep srep (resp_set_cert cert resp_default))) = cert"
proof -
  have "resp_frame_header_ok (resp_set_cert cert resp_default\<lparr>resp_srep := srep\<rparr>)"
    using resp_default_header by (simp add: resp_frame_header_ok_def resp_set_cert_def)
  note u = update_offsets_header [OF this]
  show "resp_ok (resp_set_sig sg (resp_set_srep srep (resp_set_cert cert resp_default)))"
    "resp_signature (resp_set_sig sg (resp_set_srep srep (resp_set_cert cert resp_default))) = sg"
    "resp_srep (resp_set_sig sg (resp_set_srep srep (resp_set_cert cert resp_default))) = srep"
    "resp_cert (resp_set_sig sg (resp_set_srep srep (resp_set_cert cert resp_default))) = cert"
    using assms unfolding resp_set_srep_def u
    by (simp_all add: resp_set_sig_def resp_set_cert_def resp_ok_def resp_fields_ok_def resp_default_def
        path_ok_ops sized_def)
qed

lemma common08_ok:
  assumes "cert_valid cert" "srep08_valid srep" "length sg = 64"
  shows "resp08_ok (resp08_set_sig sg (resp08_set_srep srep (resp08_set_cert cert resp08_default)))"
    "resp08_signature (resp08_set_sig sg (resp08_set_srep srep (resp08_set_cert cert resp08_default))) = sg"
    "resp08_srep (resp08_set_sig sg (resp08_set_srep srep (resp08_set_cert cert resp08_default))) = srep"
    "resp08_cert (resp08_set_sig sg (resp08_set_srep srep (resp08_set_cert cert resp08_default))) = cert"
proof -
  have h1: "resp08_frame_header_ok (resp08_default\<lparr>resp08_cert := cert\<rparr>)"
    using resp_default_header by (simp add: resp08_frame_header_ok_def)
  have h2: "resp08_frame_header_ok (resp08_default\<lparr>resp08_cert := cert,
     resp08_header := header_of (resp08_offsets (path_wire_size (resp08_path resp08_default))) resp08_tags, resp08_srep := srep\<rparr>)"
    by (simp add: resp08_frame_header_ok_def header_of_def resp08_tags_def)
  show "resp08_ok (resp08_set_sig sg (resp08_set_srep srep (resp08_set_cert cert resp08_default)))"
    "resp08_signature (resp08_set_sig sg (resp08_set_srep srep (resp08_set_cert cert resp08_default))) = sg"
    "resp08_srep (resp08_set_sig sg (resp08_set_srep srep (resp08_set_cert cert resp08_default))) = srep"
    "resp08_cert (resp08_set_sig sg (resp08_set_srep srep (resp08_set_cert cert resp08_default))) = cert"
    using assms update_offsets08_header [OF h2]
    by (simp_all add: resp08_set_srep_def resp08_set_cert_def update_offsets08_header [OF h1])
      (simp_all add: resp08_set_sig_def resp08_ok_def resp08_fields_ok_def resp08_default_def
        path_ok_ops sized_def)
qed

section \<open>Properties\<close>

text \<open>Parsing a response frame never panics, whatever bytes arrive, for both response formats
  and in both build profiles: every subtraction of offsets and every length handed to a nested parser
  is covered by the header checks.\<close>

lemma response_parse_no_panic:
  "parse (from_frame (resp_from_wire p)) bs \<noteq> Panic \<and> parse (from_frame (resp08_from_wire p)) bs \<noteq> Panic"
  by (intro conjI parse_no_panic safe_intro)

text \<open>C20. Draft-14 responses round-trip through frames: a response with well-formed fields whose
  offsets are those the setters compute is serialised without error to \<open>wire_size\<close> + 12 bytes, and
  parsing the frame returns the response with all its fields (the path buffer zeroed behind the
  elements in use, which is where stale bytes may have been).\<close>

theorem response_frame_round_trip:
  assumes "resp_ok r"
  shows "\<exists>bs. as_frame_bytes resp_wire_size resp_to_wire r = Ok bs \<and>
           length bs = resp_wire_size r + FRAME_OVERHEAD \<and>
           parse (from_frame (resp_from_wire p)) bs = Ok (resp_canon r)"
proof -
  note v = resp_canon_valid(1) [OF assms]
  have sz: "resp_wire_size (resp_canon r) = resp_wire_size r"
    by (simp add: resp_wire_size_def resp_canon_def header_wire_size_def)
  have f: "path_ok (resp_path r)" "srep_valid (resp_srep r)" using assms by (auto simp: resp_ok_def resp_fields_ok_def)
  have "resp_wire_size r = 312 + path_wire_size (resp_path r) + srep_wire_size (resp_srep r)"
    by (simp add: resp_wire_size_def header_wire_size_def sig_wire_size_def nonce_wire_size_def
        message_type_wire_size_def cert_wire_size_def)
  then have "MINIMUM_FRAME_SIZE \<le> resp_wire_size r" "resp_wire_size r < 2 ^ 32"
    using path_wire_size_ok [OF f(1)] srep_versions_bound [OF f(2)] srep_wire_size_valid [OF f(2)]
    by (auto simp: MINIMUM_FRAME_SIZE_def)
  with resp_message.frame_round_trip [OF v, of p] resp_writer.as_frame_bytes_enc [OF assms]
  show ?thesis by (simp add: sz resp_canon_valid(3) [OF assms] length_resp_enc [OF assms])
qed

definition sample_response :: response where
  "sample_response =
     resp_set_cert sample_cert
      (resp_set_srep (srep_make RfcDraft14 5 1000 [RfcDraft14] (replicate 32 3)) resp_default)"

lemma sample_response_ok: "resp_ok sample_response"
proof -
  have "srep_valid (srep_make RfcDraft14 5 1000 [RfcDraft14] (replicate 32 3))"
    by (intro srep_make_valid) (simp_all add: version_list_valid_def MAX_VERSIONS_def)
  moreover have "cert_valid sample_cert" by (simp add: sample_cert_def cert_new_valid dele_new_valid)
  moreover have "resp_frame_header_ok (resp_default\<lparr>resp_srep := srep_make RfcDraft14 5 1000 [RfcDraft14] (replicate 32 3)\<rparr>)"
    using resp_default_header by (simp add: resp_frame_header_ok_def)
  ultimately show ?thesis
    by (simp add: sample_response_def resp_set_srep_def resp_set_cert_def update_offsets_header
        resp_ok_def resp_fields_ok_def resp_default_def sig_default_def path_ok_ops)
qed

theorem response_frame_round_trip_witness:
  "\<exists>bs. as_frame_bytes resp_wire_size resp_to_wire sample_response = Ok bs \<and>
     length bs = resp_wire_size sample_response + FRAME_OVERHEAD \<and>
     parse (from_frame (resp_from_wire Release)) bs = Ok (resp_canon sample_response)"
  by (rule response_frame_round_trip [OF sample_response_ok])

end
