(* ===== verification/Merkle.thy ===== *)
theory Merkle
  imports Tag_Values
begin

text \<open>
  The Merkle tree (crate \<^verbatim>\<open>roughenough-merkle\<close>). SHA-512 is a parameter \<open>H\<close> of every operation;
  \<open>sha512_ok H\<close> states its output length. The tree keeps all its levels in one vector of vectors that
  is reused between batches; the abstract specification is a recursion over lists of hashes
  (\<open>merkle_root_spec\<close>, \<open>merkle_proof_spec\<close>). The lemmas show that the loops compute the specification,
  that every proof verifies, and that two different leaves verifying against the same root at the same
  position give an explicit hash collision.
\<close>

section \<open>Model\<close>

type_synonym hash_fn = "bytes \<Rightarrow> bytes"
type_synonym hash = bytes

definition sha512_ok :: "hash_fn \<Rightarrow> bool" where
  "sha512_ok H \<longleftrightarrow> (\<forall>x. length (H x) = 64)"

definition LEAF_TWEAK :: bytes where
  "LEAF_TWEAK = [0x00]"

definition NODE_TWEAK :: bytes where
  "NODE_TWEAK = [0x01]"

definition OUTPUT_LEN :: nat where
  "OUTPUT_LEN = 32"

record merkle_tree =
  mt_levels :: "hash list list"

definition tree_new :: merkle_tree where
  "tree_new = \<lparr>mt_levels = [[]]\<rparr>"

definition hash_parts :: "hash_fn \<Rightarrow> bytes list \<Rightarrow> hash" where
  "hash_parts H to_hash = take OUTPUT_LEN (H (concat to_hash))"

definition hash_leaf :: "hash_fn \<Rightarrow> bytes \<Rightarrow> hash" where
  "hash_leaf H leaf = hash_parts H [LEAF_TWEAK, leaf]"

definition hash_nodes :: "hash_fn \<Rightarrow> bytes \<Rightarrow> bytes \<Rightarrow> hash" where
  "hash_nodes H a b = hash_parts H [NODE_TWEAK, a, b]"

definition push_leaf :: "hash_fn \<Rightarrow> bytes \<Rightarrow> merkle_tree \<Rightarrow> ('e, merkle_tree) outcome" where
  "push_leaf H data t =
     and_then (index_at (mt_levels t) 0) (\<lambda>l0.
     Ok (t\<lparr>mt_levels := (mt_levels t)[0 := l0 @ [hash_leaf H data]]\<rparr>))"

text \<open>\<open>reserve\<close> only adds empty levels; the capacity of a vector is not part of its value.
  \<open>ceil_log2 n + 1\<close> is what its two branches compute.\<close>

function floor_log2 :: "nat \<Rightarrow> nat" where
  "floor_log2 n = (if n \<le> 1 then 0 else Suc (floor_log2 (n div 2)))"
  by pat_completeness auto
termination by (relation "measure id") auto

declare floor_log2.simps [simp del]

definition reserve_levels :: "nat \<Rightarrow> nat" where
  "reserve_levels num_leaves =
     (if 2 ^ floor_log2 num_leaves = num_leaves then floor_log2 num_leaves + 1
      else floor_log2 (num_leaves - 1) + 2)"

definition tree_reserve :: "nat \<Rightarrow> merkle_tree \<Rightarrow> merkle_tree" where
  "tree_reserve num_leaves t =
     (if num_leaves = 0 then t
      else t\<lparr>mt_levels := mt_levels t @ replicate (reserve_levels num_leaves - length (mt_levels t)) []\<rparr>)"

text \<open>The loop of \<open>get_paths_to\<close>; the source's assertion on the depth follows it.\<close>

function get_paths_loop ::
  "hash list list \<Rightarrow> nat \<Rightarrow> nat \<Rightarrow> merkle_path \<Rightarrow> ('e, nat \<times> merkle_path) outcome" where
  "get_paths_loop levels level index path =
     (if length levels \<le> level then Panic
      else if levels ! level = [] then Ok (level, path)
      else let sibling = (if index mod 2 = 0 then index + 1 else index - 1) in
        if sibling \<ge> length (levels ! level) then Ok (level, path)
        else and_then (push_element (levels ! level ! sibling) path) (\<lambda>path'.
             get_paths_loop levels (Suc level) (index div 2) path'))"
  by pat_completeness auto
termination by (relation "measure (\<lambda>(levels, level, _). length levels - level)") auto

declare get_paths_loop.simps [simp del]

definition get_paths_to ::
  "profile \<Rightarrow> merkle_tree \<Rightarrow> nat \<Rightarrow> merkle_path \<Rightarrow> ('e, merkle_path) outcome" where
  "get_paths_to p t index path =
     and_then (debug_assert p (path_is_empty path)) (\<lambda>_.
     and_then (get_paths_loop (mt_levels t) 0 index path) (\<lambda>(level, path').
     and_then (assert_that (level \<le> 32)) (\<lambda>_. Ok path')))"

definition get_paths :: "profile \<Rightarrow> merkle_tree \<Rightarrow> nat \<Rightarrow> ('e, merkle_path) outcome" where
  "get_paths p t index = get_paths_to p t index path_default"

text \<open>The inner loop of \<open>compute_root\<close>: \<open>n\<close> more nodes starting with the \<open>i\<close>-th pair.\<close>

fun hash_pairs :: "hash_fn \<Rightarrow> hash list \<Rightarrow> nat \<Rightarrow> nat \<Rightarrow> hash list \<Rightarrow> ('e, hash list) outcome" where
  "hash_pairs H below i 0 acc = Ok acc"
| "hash_pairs H below i (Suc n) acc =
     and_then (index_at below (i * 2)) (\<lambda>a.
     and_then (index_at below (i * 2 + 1)) (\<lambda>b.
     hash_pairs H below (Suc i) n (acc @ [hash_nodes H a b])))"

text \<open>One round of its outer loop: the levels and the node count afterwards.\<close>

definition compute_level ::
  "hash_fn \<Rightarrow> nat \<Rightarrow> nat \<Rightarrow> hash list list \<Rightarrow> ('e, nat \<times> hash list list) outcome" where
  "compute_level H level node_count levels =
     (let levels1 = (if length levels < level + 1 then levels @ [[]] else levels) in
      if length levels1 \<le> level then Panic
      else
      let levels2 = levels1[level := []];
          (levels3, n) =
            (if node_count mod 2 \<noteq> 0
             then (levels2[level - 1 := levels2 ! (level - 1) @ [replicate OUTPUT_LEN 0]], node_count + 1)
             else (levels2, node_count));
          n' = n div 2
      in and_then (hash_pairs H (levels3 ! (level - 1)) 0 n' (levels3 ! level)) (\<lambda>nodes.
         Ok (n', levels3[level := nodes])))"

function compute_levels ::
  "hash_fn \<Rightarrow> nat \<Rightarrow> nat \<Rightarrow> hash list list \<Rightarrow> ('e, nat \<times> hash list list) outcome" where
  "compute_levels H level node_count levels =
     (if node_count \<le> 1 then Ok (level, levels)
      else and_then (compute_level H (Suc level) node_count levels) (\<lambda>(n, levels').
           compute_levels H (Suc level) n levels'))"
  by pat_completeness auto
termination
proof (relation "measure (\<lambda>(H, level, n, levels). n)")
  fix H level node_count levels and r :: "nat \<times> hash list list" and n levels'
  assume "\<not> node_count \<le> 1" "(compute_level H (Suc level) node_count levels :: ('e, _) outcome) = Ok r" "(n, levels') = r"
  then show "((H, Suc level, n, levels'), H, level, node_count, levels) \<in> measure (\<lambda>(H, level, n, levels). n)"
    by (auto simp: compute_level_def Let_def and_then_Ok_iff split: if_splits; presburger)
qed simp

declare compute_levels.simps [simp del]

definition compute_root :: "hash_fn \<Rightarrow> merkle_tree \<Rightarrow> ('e, hash \<times> merkle_tree) outcome" where
  "compute_root H t =
     and_then (index_at (mt_levels t) 0) (\<lambda>l0.
     and_then (assert_that (l0 \<noteq> [])) (\<lambda>_.
     and_then (compute_levels H 0 (length l0) (mt_levels t)) (\<lambda>(level, levels).
     and_then (index_at levels level) (\<lambda>top.
     and_then (assert_that (length top = 1)) (\<lambda>_.
     Ok (top ! 0, t\<lparr>mt_levels := levels\<rparr>))))))"

definition tree_clear :: "merkle_tree \<Rightarrow> merkle_tree" where
  "tree_clear t = t\<lparr>mt_levels := map (\<lambda>_. []) (mt_levels t)\<rparr>"

definition tree_is_empty :: "merkle_tree \<Rightarrow> ('e, bool) outcome" where
  "tree_is_empty t = and_then (index_at (mt_levels t) 0) (\<lambda>l0. Ok (l0 = []))"

text \<open>The loop of \<open>root_from_paths\<close> over the path's elements.\<close>

fun fold_path :: "hash_fn \<Rightarrow> nat \<Rightarrow> hash \<Rightarrow> bytes list \<Rightarrow> hash" where
  "fold_path H index h [] = h"
| "fold_path H index h (e # es) =
     fold_path H (index div 2)
       (if index mod 2 = 0 then hash_parts H [NODE_TWEAK, h, e] else hash_parts H [NODE_TWEAK, e, h]) es"

definition root_from_paths :: "hash_fn \<Rightarrow> nat \<Rightarrow> bytes \<Rightarrow> merkle_path \<Rightarrow> hash" where
  "root_from_paths H index init_data mp = fold_path H index (hash_leaf H init_data) (path_elements mp)"

section \<open>Specification\<close>

definition zero_hash :: hash where
  "zero_hash = replicate OUTPUT_LEN 0"

definition pad_level :: "hash list \<Rightarrow> hash list" where
  "pad_level xs = (if length xs mod 2 \<noteq> 0 then xs @ [zero_hash] else xs)"

definition next_level :: "hash_fn \<Rightarrow> hash list \<Rightarrow> hash list" where
  "next_level H xs =
     map (\<lambda>i. hash_nodes H (pad_level xs ! (2 * i)) (pad_level xs ! (2 * i + 1))) [0..<(length xs + 1) div 2]"

lemma length_next_level [simp]: "length (next_level H xs) = (length xs + 1) div 2"
  by (simp add: next_level_def)

function merkle_root_spec :: "hash_fn \<Rightarrow> hash list \<Rightarrow> hash" where
  "merkle_root_spec H xs = (if length xs \<le> 1 then hd xs else merkle_root_spec H (next_level H xs))"
  by pat_completeness auto
termination by (relation "measure (length \<circ> snd)") auto

function merkle_levels_spec :: "hash_fn \<Rightarrow> hash list \<Rightarrow> hash list list" where
  "merkle_levels_spec H xs =
     (if length xs \<le> 1 then [xs] else pad_level xs # merkle_levels_spec H (next_level H xs))"
  by pat_completeness auto
termination by (relation "measure (length \<circ> snd)") auto

definition sibling_of :: "nat \<Rightarrow> nat" where
  "sibling_of i = (if i mod 2 = 0 then i + 1 else i - 1)"

function merkle_proof_spec :: "hash_fn \<Rightarrow> nat \<Rightarrow> hash list \<Rightarrow> hash list" where
  "merkle_proof_spec H i xs =
     (if length xs \<le> 1 then []
      else pad_level xs ! sibling_of i # merkle_proof_spec H (i div 2) (next_level H xs))"
  by pat_completeness auto
termination by (relation "measure (length \<circ> snd \<circ> snd)") auto

declare merkle_root_spec.simps [simp del] merkle_levels_spec.simps [simp del] merkle_proof_spec.simps [simp del]

section \<open>The specification is sound\<close>

lemma length_pad_level: "length (pad_level xs) = 2 * ((length xs + 1) div 2)"
  by (auto simp: pad_level_def) presburger+

lemma pad_level_nth [simp]: "i < length xs \<Longrightarrow> pad_level xs ! i = xs ! i"
  by (simp add: pad_level_def nth_append)

lemma next_level_nth:
  "j < (length xs + 1) div 2 \<Longrightarrow>
     next_level H xs ! j = hash_nodes H (pad_level xs ! (2 * j)) (pad_level xs ! (2 * j + 1))"
  by (simp add: next_level_def)

lemma fold_path_proof:
  "i < length xs \<Longrightarrow> fold_path H i (xs ! i) (merkle_proof_spec H i xs) = merkle_root_spec H xs"
proof (induction H i xs rule: merkle_proof_spec.induct)
  case (1 H i xs)
  show ?case
  proof (cases "length xs \<le> 1")
    case True
    with 1 have "xs = [xs ! 0]" "i = 0" by (auto simp: length_Suc_conv le_Suc_eq)
    then show ?thesis by (metis fold_path.simps(1) list.sel(1) merkle_proof_spec.simps merkle_root_spec.simps True)
  next
    case False
    have j: "i div 2 < (length xs + 1) div 2" using 1(2) by presburger
    have "next_level H xs ! (i div 2)
        = (if i mod 2 = 0 then hash_nodes H (xs ! i) (pad_level xs ! sibling_of i)
           else hash_nodes H (pad_level xs ! sibling_of i) (xs ! i))"
    proof (cases "i mod 2 = 0")
      case True
      then have "2 * (i div 2) = i" by presburger
      then show ?thesis using next_level_nth [OF j, of H] 1(2) True by (simp add: sibling_of_def)
    next
      case False
      then have "2 * (i div 2) + 1 = i" "2 * (i div 2) = i - 1" by presburger+
      then show ?thesis using next_level_nth [OF j, of H] 1(2) False by (simp add: sibling_of_def)
    qed
    moreover have "fold_path H (i div 2) (next_level H xs ! (i div 2)) (merkle_proof_spec H (i div 2) (next_level H xs))
        = merkle_root_spec H (next_level H xs)"
      using 1(1) [OF False] j by simp
    ultimately show ?thesis
      using False by (subst merkle_proof_spec.simps, subst merkle_root_spec.simps)
        (cases "i mod 2 = 0"; simp add: hash_nodes_def)
  qed
qed

section \<open>The loops compute the specification\<close>

lemma hash_pairs_eq:
  "2 * (i + n) \<le> length below \<Longrightarrow>
     hash_pairs H below i n acc
       = Ok (acc @ map (\<lambda>j. hash_nodes H (below ! (2 * j)) (below ! (2 * j + 1))) [i..<i + n])"
proof (induction n arbitrary: i acc)
  case (Suc n)
  then show ?case using Suc.IH [of "Suc i"]
    by (simp add: index_at_def upt_conv_Cons mult.commute del: upt_Suc)
qed simp

lemma compute_level_eq:
  assumes "1 < length xs"
  shows "(compute_level H (Suc (length done)) (length xs) (done @ xs # rest) :: ('e, nat \<times> hash list list) outcome)
           = Ok (length (next_level H xs), done @ pad_level xs # next_level H xs # drop 1 rest)"
proof -
  let ?n = "(length xs + 1) div 2"
  have "2 * (0 + ?n) \<le> length (pad_level xs)" by (simp add: length_pad_level)
  from hash_pairs_eq [OF this, of H "[]"]
  have hp: "(hash_pairs H (pad_level xs) 0 ?n [] :: ('e, hash list) outcome) = Ok (next_level H xs)"
    by (simp add: next_level_def)
  have half: "(length xs + 1) div 2 = length xs div 2" if "length xs mod 2 = 0" using that by presburger
  show ?thesis
  proof (cases "length xs mod 2 = 0")
    case True
    then have "pad_level xs = xs" by (simp add: pad_level_def)
    then show ?thesis using hp half [OF True] True
      by (cases rest) (simp_all add: compute_level_def nth_append list_update_append Let_def)
  next
    case False
    then have "pad_level xs = xs @ [replicate OUTPUT_LEN 0]" by (simp add: pad_level_def zero_hash_def)
    then show ?thesis using hp False
      by (cases rest) (simp_all add: compute_level_def nth_append list_update_append Let_def)
  qed
qed

lemma levels_spec_nonempty [simp]: "merkle_levels_spec H xs \<noteq> []"
  by (subst merkle_levels_spec.simps) simp

lemma length_levels_spec: "\<exists>k. length (merkle_levels_spec H xs) = Suc k"
  by (cases "merkle_levels_spec H xs") auto

lemma compute_levels_eq:
  assumes "xs \<noteq> []"
  shows "(compute_levels H (length done) (length xs) (done @ xs # rest) :: ('e, nat \<times> hash list list) outcome)
           = Ok (length done + (length (merkle_levels_spec H xs) - 1),
                 done @ merkle_levels_spec H xs @ drop (length (merkle_levels_spec H xs) - 1) rest)"
  using assms
proof (induction H xs arbitrary: "done" rest rule: merkle_levels_spec.induct)
  case (1 H xs)
  show ?case
  proof (cases "length xs \<le> 1")
    case True
    then show ?thesis
      by (subst compute_levels.simps, subst (1 2 3) merkle_levels_spec.simps) simp
  next
    case False
    have ne: "next_level H xs \<noteq> []" using False by (auto simp flip: length_greater_0_conv)
    have "(compute_levels H (length (done @ [pad_level xs])) (length (next_level H xs))
            ((done @ [pad_level xs]) @ next_level H xs # drop 1 rest) :: ('e, nat \<times> hash list list) outcome)
          = Ok (length (done @ [pad_level xs]) + (length (merkle_levels_spec H (next_level H xs)) - 1),
               (done @ [pad_level xs]) @ merkle_levels_spec H (next_level H xs)
                 @ drop (length (merkle_levels_spec H (next_level H xs)) - 1) (drop 1 rest))"
      by (rule 1(1) [OF False ne])
    moreover obtain k where "length (merkle_levels_spec H (next_level H xs)) = Suc k"
      using length_levels_spec by blast
    ultimately show ?thesis
      using False
      by (subst compute_levels.simps, subst (1 2 3) merkle_levels_spec.simps)
        (simp add: compute_level_eq)
  qed
qed

lemma last_levels_spec: "xs \<noteq> [] \<Longrightarrow> last (merkle_levels_spec H xs) = [merkle_root_spec H xs]"
proof (induction H xs rule: merkle_levels_spec.induct)
  case (1 H xs)
  show ?case
  proof (cases "length xs \<le> 1")
    case True
    with 1(2) have "xs = [hd xs]" by (cases xs) auto
    with True show ?thesis by (subst merkle_levels_spec.simps, subst merkle_root_spec.simps) simp
  next
    case False
    have ne: "next_level H xs \<noteq> []" using False by (auto simp flip: length_greater_0_conv)
    have "merkle_levels_spec H (next_level H xs) \<noteq> []" by (subst merkle_levels_spec.simps) simp
    with 1(1) [OF False ne] False show ?thesis
      by (subst merkle_levels_spec.simps, subst merkle_root_spec.simps) simp
  qed
qed

text \<open>\<open>compute_root\<close> on a tree with leaves \<open>xs\<close>, whatever its other levels hold.\<close>

lemma compute_root_eq:
  assumes "mt_levels t = xs # rest" "xs \<noteq> []"
  shows "compute_root H t = Ok (merkle_root_spec H xs,
           t\<lparr>mt_levels := merkle_levels_spec H xs @ drop (length (merkle_levels_spec H xs) - 1) rest\<rparr>)"
proof -
  let ?ls = "merkle_levels_spec H xs"
  have "(?ls @ drop (length ?ls - 1) rest) ! (length ?ls - 1) = last ?ls"
    by (simp add: nth_append last_conv_nth)
  moreover obtain k where "length ?ls = Suc k" using length_levels_spec by blast
  ultimately show ?thesis
    using assms last_levels_spec [OF assms(2), of H]
    by (simp add: compute_root_def index_at_def compute_levels_eq [OF assms(2), of H "[]" rest, simplified])
qed

section \<open>Paths\<close>

lemma chunks_concat: "0 < n \<Longrightarrow> \<forall>e\<in>set es. length e = n \<Longrightarrow> chunks n (concat es) = es"
proof (induction es)
  case Nil
  then show ?case by (simp add: chunks.simps)
next
  case (Cons e es)
  then have "e @ concat es \<noteq> []" by auto
  with Cons show ?case by (subst chunks.simps) simp
qed

lemma path_elements_concat:
  "\<forall>e\<in>set es. length e = 32 \<Longrightarrow> paths mp = concat es \<Longrightarrow> path_elements mp = es"
  by (simp add: path_elements_def ELEMENT_SIZE_def chunks_concat)

text \<open>Every hash of the tree has 32 bytes.\<close>

definition hashes_ok :: "hash list \<Rightarrow> bool" where
  "hashes_ok xs \<longleftrightarrow> list_all (\<lambda>h. length h = 32) xs"

lemma length_hash [simp]:
  "sha512_ok H \<Longrightarrow> length (hash_parts H ps) = 32" "sha512_ok H \<Longrightarrow> length (hash_leaf H d) = 32"
  "sha512_ok H \<Longrightarrow> length (hash_nodes H a b) = 32"
  by (simp_all add: hash_parts_def hash_leaf_def hash_nodes_def sha512_ok_def OUTPUT_LEN_def)

lemma hashes_ok_next: "sha512_ok H \<Longrightarrow> hashes_ok (next_level H xs)"
  by (auto simp: hashes_ok_def next_level_def list_all_iff)

lemma hashes_ok_pad: "hashes_ok xs \<Longrightarrow> i < length (pad_level xs) \<Longrightarrow> length (pad_level xs ! i) = 32"
  by (auto simp: hashes_ok_def list_all_length pad_level_def nth_append zero_hash_def OUTPUT_LEN_def split: if_splits)

lemma hashes_ok_root: "sha512_ok H \<Longrightarrow> hashes_ok xs \<Longrightarrow> xs \<noteq> [] \<Longrightarrow> length (merkle_root_spec H xs) = 32"
proof (induction H xs rule: merkle_root_spec.induct)
  case (1 H xs)
  show ?case
  proof (cases "length xs \<le> 1")
    case True
    with 1(3,4) show ?thesis by (subst merkle_root_spec.simps) (cases xs; simp add: hashes_ok_def)
  next
    case False
    then have "next_level H xs \<noteq> []" by (auto simp flip: length_greater_0_conv)
    with 1 False show ?thesis by (subst merkle_root_spec.simps) (simp add: hashes_ok_next)
  qed
qed

lemma sibling_in_pad: "i < length xs \<Longrightarrow> 1 < length xs \<Longrightarrow> sibling_of i < length (pad_level xs)"
  by (auto simp: sibling_of_def length_pad_level) presburger+

lemma proof_elements_length:
  "sha512_ok H \<Longrightarrow> hashes_ok xs \<Longrightarrow> i < length xs \<Longrightarrow> \<forall>e\<in>set (merkle_proof_spec H i xs). length e = 32"
proof (induction H i xs rule: merkle_proof_spec.induct)
  case (1 H i xs)
  show ?case
  proof (cases "length xs \<le> 1")
    case True
    then show ?thesis by (subst merkle_proof_spec.simps) simp
  next
    case False
    have "i div 2 < length (next_level H xs)" using 1(4) by simp
    then have "\<forall>e\<in>set (merkle_proof_spec H (i div 2) (next_level H xs)). length e = 32"
      using 1(1) [OF False 1(2) hashes_ok_next [OF 1(2)]] by blast
    moreover have "length (pad_level xs ! sibling_of i) = 32"
      using hashes_ok_pad [OF 1(3) sibling_in_pad] 1(4) False by simp
    ultimately show ?thesis using False by (subst merkle_proof_spec.simps) simp
  qed
qed

lemma proof_length_bound: "length xs \<le> 2 ^ k \<Longrightarrow> length (merkle_proof_spec H i xs) \<le> k"
proof (induction H i xs arbitrary: k rule: merkle_proof_spec.induct)
  case (1 H i xs)
  show ?case
  proof (cases "length xs \<le> 1")
    case True
    then show ?thesis by (subst merkle_proof_spec.simps) simp
  next
    case False
    with 1(2) obtain k' where k: "k = Suc k'" by (cases k) auto
    with 1(2) have "length (next_level H xs) \<le> 2 ^ k'" by simp
    from 1(1) [OF False this] show ?thesis using False by (subst merkle_proof_spec.simps) (simp add: k)
  qed
qed

lemma get_paths_loop_eq:
  assumes "i < length xs" "levels = done @ merkle_levels_spec H xs @ rest" "level = length done"
    "path_ok mp" "mp_num_paths mp + length (merkle_proof_spec H i xs) \<le> 32"
    "\<forall>e\<in>set (merkle_proof_spec H i xs). length e = 32"
  shows "\<exists>mp'. (get_paths_loop levels level i mp :: ('e, nat \<times> merkle_path) outcome)
           = Ok (level + length (merkle_proof_spec H i xs), mp') \<and>
           path_ok mp' \<and> paths mp' = paths mp @ concat (merkle_proof_spec H i xs) \<and>
           mp_num_paths mp' = mp_num_paths mp + length (merkle_proof_spec H i xs)"
  using assms
proof (induction H i xs arbitrary: "done" level mp rule: merkle_proof_spec.induct)
  case (1 H i xs)
  show ?case
  proof (cases "length xs \<le> 1")
    case True
    then have "i = 0" "length xs = 1" using 1(2) by auto
    moreover have "levels ! level = xs" "level < length levels"
      using 1(3,4) True by (auto simp: nth_append merkle_levels_spec.simps [of H xs])
    ultimately show ?thesis using True 1(5)
      by (subst get_paths_loop.simps, subst (1 2 3) merkle_proof_spec.simps) auto
  next
    case False
    let ?nx = "next_level H xs" and ?e = "pad_level xs ! sibling_of i"
    have pr: "merkle_proof_spec H i xs = ?e # merkle_proof_spec H (i div 2) ?nx"
      using False by (subst merkle_proof_spec.simps) simp
    have lv: "levels ! level = pad_level xs" "level < length levels"
      "levels = (done @ [pad_level xs]) @ merkle_levels_spec H ?nx @ rest"
      using 1(3,4) False by (auto simp: nth_append merkle_levels_spec.simps [of H xs])
    have sib: "sibling_of i < length (pad_level xs)" "pad_level xs \<noteq> []"
      using sibling_in_pad [OF 1(2)] False by auto
    obtain mp1 where p1: "push_element ?e mp = (Ok mp1 :: ('e, merkle_path) outcome)"
      "mp_num_paths mp1 = mp_num_paths mp + 1"
      using 1(6) pr by (simp add: push_element_def path_consts Let_def)
    have e: "length ?e = 32" using 1(7) pr by simp
    note ok1 = path_ok_ops(4) [OF 1(5) e p1(1)] and ps1 = paths_ops(4) [OF 1(5) e p1(1)]
    have i2: "i div 2 < length ?nx" using 1(2) by simp
    obtain mp' where "(get_paths_loop levels (Suc level) (i div 2) mp1 :: ('e, nat \<times> merkle_path) outcome)
           = Ok (Suc level + length (merkle_proof_spec H (i div 2) ?nx), mp')"
       "path_ok mp'" "paths mp' = paths mp1 @ concat (merkle_proof_spec H (i div 2) ?nx)"
       "mp_num_paths mp' = mp_num_paths mp1 + length (merkle_proof_spec H (i div 2) ?nx)"
      using 1(1) [OF False i2 lv(3), of "Suc level" mp1] 1(4,6,7) ok1 p1 pr by auto
    then show ?thesis using lv(1,2) sib p1 ps1
      by (subst get_paths_loop.simps) (simp add: pr Let_def sibling_of_def split: if_splits)
  qed
qed

text \<open>The outcome of \<open>get_paths_to\<close> after \<open>compute_root\<close>.\<close>

lemma get_paths_to_eq:
  assumes "mt_levels t = merkle_levels_spec H xs @ rest" "i < length xs" "length xs \<le> 2 ^ 32"
    "sha512_ok H" "hashes_ok xs" "path_ok mp" "path_is_empty mp"
  shows "\<exists>mp'. (get_paths_to p t i mp :: ('e, merkle_path) outcome) = Ok mp' \<and> path_ok mp' \<and>
           path_elements mp' = merkle_proof_spec H i xs \<and>
           mp_num_paths mp' = length (merkle_proof_spec H i xs)"
proof -
  let ?pr = "merkle_proof_spec H i xs"
  have l: "length ?pr \<le> 32" using proof_length_bound [OF assms(3)] .
  have e: "\<forall>e\<in>set ?pr. length e = 32" using proof_elements_length assms by blast
  have z: "mp_num_paths mp = 0" "paths mp = []" using assms(7) by (auto simp: path_is_empty_def paths_def)
  obtain mp' where "(get_paths_loop (mt_levels t) 0 i mp :: ('e, nat \<times> merkle_path) outcome) = Ok (length ?pr, mp')"
    "path_ok mp'" "paths mp' = concat ?pr" "mp_num_paths mp' = length ?pr"
    using get_paths_loop_eq [of i xs "mt_levels t" "[]" H rest 0 mp] assms l e z by auto
  then show ?thesis using l e assms(7) path_elements_concat
    by (auto simp: get_paths_to_def)
qed

section \<open>Building a tree\<close>

definition tree_leaves :: "merkle_tree \<Rightarrow> hash list" where
  "tree_leaves t = hd (mt_levels t)"

definition tree_ok :: "merkle_tree \<Rightarrow> bool" where
  "tree_ok t \<longleftrightarrow> mt_levels t \<noteq> []"

lemma tree_levels: "tree_ok t \<Longrightarrow> mt_levels t = tree_leaves t # tl (mt_levels t)"
  by (simp add: tree_ok_def tree_leaves_def)

lemma tree_ok_ops [simp]:
  "tree_ok tree_new" "tree_ok t \<Longrightarrow> tree_ok (tree_clear t)" "tree_ok t \<Longrightarrow> tree_ok (tree_reserve n t)"
  by (auto simp: tree_ok_def tree_new_def tree_clear_def tree_reserve_def)

lemma tree_leaves_ops [simp]:
  "tree_leaves tree_new = []" "tree_ok t \<Longrightarrow> tree_leaves (tree_clear t) = []"
  "tree_ok t \<Longrightarrow> tree_leaves (tree_reserve n t) = tree_leaves t"
  by (auto simp: tree_ok_def tree_leaves_def tree_new_def tree_clear_def tree_reserve_def hd_map)

lemma push_leaf_ok:
  assumes "tree_ok t"
  shows "\<exists>t'. (push_leaf H d t :: ('e, merkle_tree) outcome) = Ok t' \<and> tree_ok t' \<and>
           tree_leaves t' = tree_leaves t @ [hash_leaf H d]"
  using assms by (cases "mt_levels t") (auto simp: push_leaf_def tree_ok_def tree_leaves_def)

lemma tree_is_empty_iff: "tree_ok t \<Longrightarrow> tree_is_empty t = Ok (tree_leaves t = [])"
  by (auto simp: tree_is_empty_def tree_ok_def tree_leaves_def hd_conv_nth)

lemma hashes_ok_leaves: "sha512_ok H \<Longrightarrow> hashes_ok (map (hash_leaf H) ds)"
  by (simp add: hashes_ok_def list_all_iff)

text \<open>Everything a server needs of the tree: the root and every path verify.\<close>

lemma tree_batch:
  assumes "tree_ok t" "tree_leaves t = map (hash_leaf H) ds" "ds \<noteq> []" "length ds \<le> 2 ^ 32" "sha512_ok H"
  obtains t' where
    "(compute_root H t :: ('e, hash \<times> merkle_tree) outcome) = Ok (merkle_root_spec H (map (hash_leaf H) ds), t')"
    "tree_ok t'"
    "\<And>i mp. i < length ds \<Longrightarrow> path_ok mp \<Longrightarrow> path_is_empty mp \<Longrightarrow>
       \<exists>mp'. (get_paths_to p t' i mp :: ('e, merkle_path) outcome) = Ok mp' \<and> path_ok mp' \<and>
         mp_num_paths mp' = length (merkle_proof_spec H i (map (hash_leaf H) ds)) \<and>
         root_from_paths H i (ds ! i) mp' = merkle_root_spec H (map (hash_leaf H) ds)"
proof -
  let ?xs = "map (hash_leaf H) ds"
  let ?t = "t\<lparr>mt_levels := merkle_levels_spec H ?xs @ drop (length (merkle_levels_spec H ?xs) - 1) (tl (mt_levels t))\<rparr>"
  have "(compute_root H t :: ('e, hash \<times> merkle_tree) outcome) = Ok (merkle_root_spec H ?xs, ?t)"
    using compute_root_eq [of t ?xs "tl (mt_levels t)"] tree_levels [OF assms(1)] assms(2,3) by simp
  moreover have "tree_ok ?t" by (simp add: tree_ok_def)
  moreover have "\<exists>mp'. (get_paths_to p ?t i mp :: ('e, merkle_path) outcome) = Ok mp' \<and> path_ok mp' \<and>
      mp_num_paths mp' = length (merkle_proof_spec H i ?xs) \<and>
      root_from_paths H i (ds ! i) mp' = merkle_root_spec H ?xs"
    if "i < length ds" "path_ok mp" "path_is_empty mp" for i mp
    using get_paths_to_eq [of ?t H ?xs _ i mp p] that assms hashes_ok_leaves [OF assms(5), of ds]
      fold_path_proof [of i ?xs H]
    by (auto simp: root_from_paths_def)
  ultimately show ?thesis by (rule that)
qed

section \<open>Binding\<close>

definition node_input :: "nat \<Rightarrow> hash \<Rightarrow> bytes \<Rightarrow> bytes" where
  "node_input i h e = concat (if i mod 2 = 0 then [NODE_TWEAK, h, e] else [NODE_TWEAK, e, h])"

text \<open>A collision of the truncated hash, searched along two paths.\<close>

fun path_collision ::
  "hash_fn \<Rightarrow> nat \<Rightarrow> hash \<Rightarrow> bytes list \<Rightarrow> hash \<Rightarrow> bytes list \<Rightarrow> bytes \<times> bytes" where
  "path_collision H i h (e # es) h' (e' # es') =
     (let x = node_input i h e; y = node_input i h' e' in
      if x \<noteq> y \<and> take OUTPUT_LEN (H x) = take OUTPUT_LEN (H y) then (x, y)
      else path_collision H (i div 2) (take OUTPUT_LEN (H x)) es (take OUTPUT_LEN (H y)) es')"
| "path_collision H i h _ h' _ = ([], [])"

definition leaf_collision :: "hash_fn \<Rightarrow> nat \<Rightarrow> bytes \<Rightarrow> merkle_path \<Rightarrow> bytes \<Rightarrow> merkle_path \<Rightarrow> bytes \<times> bytes" where
  "leaf_collision H i d mp d' mp' =
     (if hash_leaf H d = hash_leaf H d' then (LEAF_TWEAK @ d, LEAF_TWEAK @ d')
      else path_collision H i (hash_leaf H d) (path_elements mp) (hash_leaf H d') (path_elements mp'))"

definition is_collision :: "hash_fn \<Rightarrow> bytes \<times> bytes \<Rightarrow> bool" where
  "is_collision H xy \<longleftrightarrow> fst xy \<noteq> snd xy \<and> take OUTPUT_LEN (H (fst xy)) = take OUTPUT_LEN (H (snd xy))"

lemma node_input_inject:
  assumes "length h = 32" "length h' = 32" "length e = 32" "length e' = 32"
  shows "node_input i h e = node_input i h' e' \<longleftrightarrow> h = h' \<and> e = e'"
  using assms by (auto simp: node_input_def)

lemma path_collision_sound:
  assumes "sha512_ok H" "length h = 32" "length h' = 32" "h \<noteq> h'" "length es = length es'"
    "\<forall>e\<in>set es. length e = 32" "\<forall>e\<in>set es'. length e = 32"
    "fold_path H i h es = fold_path H i h' es'"
  shows "is_collision H (path_collision H i h es h' es')"
  using assms
proof (induction es es' arbitrary: i h h' rule: list_induct2')
  case (4 e es e' es')
  let ?x = "node_input i h e" and ?y = "node_input i h' e'"
  have ne: "?x \<noteq> ?y" using 4(3-5,7-8) node_input_inject [of h h' e e' i] by auto
  show ?case
  proof (cases "take OUTPUT_LEN (H ?x) = take OUTPUT_LEN (H ?y)")
    case True
    then show ?thesis using ne by (simp add: is_collision_def Let_def)
  next
    case False
    have step: "fold_path H i g (f # fs) = fold_path H (i div 2) (take OUTPUT_LEN (H (node_input i g f))) fs" for g f fs
      by (simp add: node_input_def hash_parts_def)
    have l: "length (take OUTPUT_LEN (H z)) = 32" for z using 4(2) by (simp add: sha512_ok_def OUTPUT_LEN_def)
    from 4(1) [OF 4(2) l l False, of "i div 2"] 4(6-9) show ?thesis
      using False by (simp add: Let_def step del: fold_path.simps)
  qed
qed auto

lemma root_from_paths_cong: "paths mp = paths mp' \<Longrightarrow> root_from_paths H i d mp = root_from_paths H i d mp'"
  by (simp add: root_from_paths_def path_elements_def)

lemma path_ok_elements: 
  assumes "path_ok mp"
  shows "\<forall>e\<in>set (path_elements mp). length e = 32" "length (path_elements mp) = mp_num_paths mp"
proof -
  have "length xs = 32 * n \<Longrightarrow> (\<forall>e\<in>set (chunks 32 xs). length e = 32) \<and> length (chunks 32 xs) = n" for xs :: bytes and n
  proof (induction n arbitrary: xs)
    case (Suc n)
    then have "xs \<noteq> []" by auto
    moreover have "length (drop 32 xs) = 32 * n" using Suc.prems by simp
    ultimately show ?case using Suc.IH [of "drop 32 xs"] Suc.prems by (subst (1 2) chunks.simps) simp
  qed (simp add: chunks.simps)
  from this [of "paths mp" "mp_num_paths mp"] assms
  show "\<forall>e\<in>set (path_elements mp). length e = 32" "length (path_elements mp) = mp_num_paths mp"
    by (auto simp: path_elements_def ELEMENT_SIZE_def)
qed

lemma fold_path_high_bits: "fold_path H (i + k * 2 ^ length es) h es = fold_path H i h es"
proof (induction es arbitrary: i h)
  case (Cons e es)
  have "(i + k * 2 ^ length (e # es)) div 2 = i div 2 + k * 2 ^ length es" by simp
  moreover have "(i + k * 2 ^ length (e # es)) mod 2 = i mod 2"
    by (simp add: mult.left_commute [of k])
  ultimately show ?case using Cons [of "i div 2"] by (simp del: length_Cons)
qed simp

section \<open>Properties\<close>

fun push_leaves :: "hash_fn \<Rightarrow> bytes list \<Rightarrow> merkle_tree \<Rightarrow> ('e, merkle_tree) outcome" where
  "push_leaves H [] t = Ok t"
| "push_leaves H (d # ds) t = and_then (push_leaf H d t) (push_leaves H ds)"

lemma push_leaves_ok:
  "tree_ok t \<Longrightarrow> \<exists>t'. (push_leaves H ds t :: ('e, merkle_tree) outcome) = Ok t' \<and> tree_ok t' \<and>
     tree_leaves t' = tree_leaves t @ map (hash_leaf H) ds"
proof (induction ds arbitrary: t)
  case (Cons d ds)
  from push_leaf_ok [OF Cons.prems, of H d, where 'e = 'e] obtain t1 where t1: "(push_leaf H d t :: ('e, merkle_tree) outcome) = Ok t1"
    "tree_ok t1" "tree_leaves t1 = tree_leaves t @ [hash_leaf H d]" by blast
  from Cons.IH [OF t1(2)] t1 show ?case by auto
qed simp

text \<open>C6. For every batch of between 1 and \<open>2 ^ 32\<close> leaves and every index: pushing the leaves into a
  cleared tree (which may keep levels of earlier batches), computing the root, and asking for the path
  of any leaf all succeed; the path has at most 32 elements; recomputing the root from that leaf and its
  path, as a client does, gives the tree's root, which is the root of the specification.\<close>

theorem merkle_inclusion:
  assumes "tree_ok t" "ds \<noteq> []" "length ds \<le> 2 ^ 32" "sha512_ok H" "i < length ds"
  shows "\<exists>t1 root t2 mp.
     push_leaves H ds (tree_clear t) = (Ok t1 :: (error, merkle_tree) outcome) \<and>
     compute_root H t1 = (Ok (root, t2) :: (error, hash \<times> merkle_tree) outcome) \<and>
     get_paths p t2 i = (Ok mp :: (error, merkle_path) outcome) \<and>
     path_depth mp \<le> 32 \<and> root_from_paths H i (ds ! i) mp = root \<and>
     root = merkle_root_spec H (map (hash_leaf H) ds)"
proof -
  obtain t1 where t1: "push_leaves H ds (tree_clear t) = (Ok t1 :: (error, merkle_tree) outcome)" "tree_ok t1"
    "tree_leaves t1 = map (hash_leaf H) ds"
    using push_leaves_ok [of "tree_clear t" H ds, where 'e = error] assms(1) by auto
  from tree_batch [OF t1(2,3) assms(2-4)] obtain t2 where
    r: "(compute_root H t1 :: (error, _) outcome) = Ok (merkle_root_spec H (map (hash_leaf H) ds), t2)" and
    g: "\<And>i mp. i < length ds \<Longrightarrow> path_ok mp \<Longrightarrow> path_is_empty mp \<Longrightarrow>
       \<exists>mp'. (get_paths_to p t2 i mp :: (error, merkle_path) outcome) = Ok mp' \<and> path_ok mp' \<and>
         mp_num_paths mp' = length (merkle_proof_spec H i (map (hash_leaf H) ds)) \<and>
         root_from_paths H i (ds ! i) mp' = merkle_root_spec H (map (hash_leaf H) ds)" by metis
  from g [OF assms(5) path_ok_ops(1)] obtain mp where
    "(get_paths p t2 i :: (error, merkle_path) outcome) = Ok mp" "path_ok mp"
    "root_from_paths H i (ds ! i) mp = merkle_root_spec H (map (hash_leaf H) ds)"
    by (auto simp: get_paths_def path_is_empty_def path_default_def)
  then show ?thesis using t1 r by (auto simp: path_depth_def path_ok_def MAX_PATHS_def)
qed

definition toy_hash :: hash_fn where
  "toy_hash x = take 64 (rev x @ replicate 64 0)"

lemma toy_hash_ok: "sha512_ok toy_hash"
  by (auto simp: sha512_ok_def toy_hash_def min_def)

theorem merkle_inclusion_witness:
  "\<exists>t1 root t2 mp.
     push_leaves toy_hash [[1], [2], [3]] (tree_clear tree_new) = (Ok t1 :: (error, merkle_tree) outcome) \<and>
     compute_root toy_hash t1 = (Ok (root, t2) :: (error, hash \<times> merkle_tree) outcome) \<and>
     get_paths Debug t2 2 = (Ok mp :: (error, merkle_path) outcome) \<and>
     path_depth mp \<le> 32 \<and> root_from_paths toy_hash 2 ([[1], [2], [3]] ! 2) mp = root \<and>
     root = merkle_root_spec toy_hash (map (hash_leaf toy_hash) [[1], [2], [3]])"
  by (rule merkle_inclusion) (simp_all add: toy_hash_ok)

text \<open>C7. A root binds each position to one leaf: if two different data items verify at the same
  index with paths of the same depth against the same root, then \<open>leaf_collision\<close> computes from them two
  different inputs on which the first 32 bytes of SHA-512 agree.\<close>

theorem merkle_binding:
  assumes "sha512_ok H" "path_ok mp" "path_ok mp'" "path_depth mp = path_depth mp'" "d \<noteq> d'"
    and "root_from_paths H i d mp = root_from_paths H i d' mp'"
  shows "is_collision H (leaf_collision H i d mp d' mp')"
proof (cases "hash_leaf H d = hash_leaf H d'")
  case True
  then show ?thesis using assms(5)
    by (auto simp: leaf_collision_def is_collision_def hash_leaf_def hash_parts_def LEAF_TWEAK_def)
next
  case False
  then show ?thesis
    using path_collision_sound [OF assms(1) _ _ False, of "path_elements mp" "path_elements mp'" i]
      path_ok_elements [OF assms(2)] path_ok_elements [OF assms(3)] assms(1,4,6)
    by (simp add: leaf_collision_def path_depth_def root_from_paths_def)
qed

theorem merkle_binding_witness:
  "is_collision (\<lambda>x. replicate 64 0) (leaf_collision (\<lambda>x. replicate 64 0) 0 [1] path_default [2] path_default)"
  by (rule merkle_binding) (simp_all add: sha512_ok_def path_ok_ops root_from_paths_def hash_leaf_def hash_parts_def)

text \<open>C25. Index bits above the depth of the path do not influence the root that is computed, so
  responses whose INDX differs only there are accepted alike.\<close>

theorem root_from_paths_high_bits:
  assumes "path_ok mp"
  shows "root_from_paths H (i + k * 2 ^ path_depth mp) d mp = root_from_paths H i d mp"
  using fold_path_high_bits [of H i k "path_elements mp"] path_ok_elements(2) [OF assms]
  by (simp add: root_from_paths_def path_depth_def)

theorem root_from_paths_high_bits_witness:
  "root_from_paths toy_hash (0 + 5 * 2 ^ path_depth path_default) [1] path_default
     = root_from_paths toy_hash 0 [1] path_default"
  by (rule root_from_paths_high_bits) (simp add: path_ok_ops)

end
