(* ===== verification/Keys.thy ===== *)
theory Keys
  imports Response Merkle
begin

text \<open>
  Keys: the clock (\<^verbatim>\<open>util/clocksource.rs\<close>), seed backends (\<^verbatim>\<open>seed.rs\<close>,
  \<^verbatim>\<open>online/memory.rs\<close>), online keys (\<^verbatim>\<open>online/onlinekey.rs\<close>), the long-term identity
  (\<^verbatim>\<open>longterm/identity.rs\<close>) and the server's key source (\<^verbatim>\<open>keysource.rs\<close>). Ed25519 is a parameter
  \<open>E\<close>: key derivation, signing and verification, with \<open>ed25519_ok\<close> for what its documentation
  promises. Random key generation is an argument (the secret that was drawn), and so is every reading of
  the system clock.
\<close>

section \<open>Ed25519\<close>

record ed25519 =
  ed_public :: "bytes \<Rightarrow> bytes"
  ed_sign :: "bytes \<Rightarrow> bytes \<Rightarrow> bytes"
  ed_verify :: "bytes \<Rightarrow> bytes \<Rightarrow> bytes \<Rightarrow> bool"

definition ed25519_ok :: "ed25519 \<Rightarrow> bool" where
  "ed25519_ok E \<longleftrightarrow>
     (\<forall>sk. length (ed_public E sk) = 32) \<and> (\<forall>sk m. length (ed_sign E sk m) = 64) \<and>
     (\<forall>sk m. ed_verify E (ed_public E sk) m (ed_sign E sk m))"

section \<open>Clock\<close>

text \<open>A mock clock holds the value of the shared atomic at the time of the call.\<close>

datatype clock_source = System | FixedOffset "16 word" | Mock u64

definition saturating_add_signed :: "u64 \<Rightarrow> int \<Rightarrow> u64" where
  "saturating_add_signed a d =
     (if 0 \<le> d then saturating_add a (of_int d)
      else if unat a < nat (- d) then 0 else a - of_int (- d))"

text \<open>The reading of the system clock is \<open>None\<close> when it stands before the Unix epoch.\<close>

definition system_seconds :: "u64 option \<Rightarrow> ('e, u64) outcome" where
  "system_seconds sys = (case sys of Some n \<Rightarrow> Ok n | None \<Rightarrow> Panic)"

fun epoch_seconds :: "u64 option \<Rightarrow> clock_source \<Rightarrow> ('e, u64) outcome" where
  "epoch_seconds sys System = system_seconds sys"
| "epoch_seconds sys (FixedOffset offset) =
     and_then (system_seconds sys) (\<lambda>n. Ok (saturating_add_signed n (sint offset)))"
| "epoch_seconds sys (Mock now) = Ok now"

fun set_time :: "u64 \<Rightarrow> clock_source \<Rightarrow> ('e, clock_source) outcome" where
  "set_time now System = Panic"
| "set_time now (FixedOffset offset) = Panic"
| "set_time now (Mock n) = Ok (Mock now)"

section \<open>Seed backends\<close>

text \<open>Errors of the kernel's key retention service, of which one has a meaning for the backend.\<close>

datatype key_error = KeyDoesNotExist | KeyFailure string

datatype backend_error =
    NotFound string
  | NotSupported string
  | BackendNotAvailable string string
  | Krs key_error
  | SshAgent string
  | Ssh string
  | Pkcs11 string
  | WorkerDisconnect

definition seed_new :: "bytes \<Rightarrow> ('e, bytes) outcome" where
  "seed_new val = and_then (assert_that (length val = 32)) (\<lambda>_. Ok val)"

text \<open>The methods of the trait \<open>SeedBackend\<close> a long-term identity uses, for a backend state \<open>'b\<close>.\<close>

record 'b seed_backend_ops =
  sb_sign :: "'b \<Rightarrow> bytes \<Rightarrow> (backend_error, bytes \<times> 'b) outcome"
  sb_seed_len :: "'b \<Rightarrow> nat"
  sb_public_key :: "'b \<Rightarrow> (backend_error, public_key) outcome"

record memory_backend =
  mb_seed :: "bytes option"
  mb_public_key :: "public_key option"

definition mb_new :: memory_backend where
  "mb_new = \<lparr>mb_seed = None, mb_public_key = None\<rparr>"

definition mb_store_seed :: "ed25519 \<Rightarrow> bytes \<Rightarrow> memory_backend \<Rightarrow> (backend_error, memory_backend) outcome" where
  "mb_store_seed E seed b =
     and_then (pubk_from_slice (ed_public E seed)) (\<lambda>pk.
     Ok (b\<lparr>mb_public_key := Some pk, mb_seed := Some seed\<rparr>))"

definition mb_from_value :: "ed25519 \<Rightarrow> bytes \<Rightarrow> (backend_error, memory_backend) outcome" where
  "mb_from_value E val =
     and_then (seed_new val) (\<lambda>seed. expect (mb_store_seed E seed mb_new))"

definition mb_get_seed :: "memory_backend \<Rightarrow> (backend_error, bytes) outcome" where
  "mb_get_seed b = (case mb_seed b of Some seed \<Rightarrow> seed_new seed | None \<Rightarrow> Panic)"

definition mb_sign :: "ed25519 \<Rightarrow> memory_backend \<Rightarrow> bytes \<Rightarrow> (backend_error, bytes \<times> memory_backend) outcome" where
  "mb_sign E b data =
     and_then (mb_get_seed b) (\<lambda>seed.
     and_then (copy_array 64 (ed_sign E seed data)) (\<lambda>sg. Ok (sg, b)))"

definition mb_seed_len :: "memory_backend \<Rightarrow> nat" where
  "mb_seed_len b = (case mb_seed b of Some seed \<Rightarrow> length seed | None \<Rightarrow> 0)"

definition mb_get_public_key :: "memory_backend \<Rightarrow> (backend_error, public_key) outcome" where
  "mb_get_public_key b = (case mb_public_key b of Some pk \<Rightarrow> Ok pk | None \<Rightarrow> Panic)"

definition memory_ops :: "ed25519 \<Rightarrow> memory_backend seed_backend_ops" where
  "memory_ops E = \<lparr>sb_sign = mb_sign E, sb_seed_len = mb_seed_len, sb_public_key = mb_get_public_key\<rparr>"

section \<open>Online keys\<close>

text \<open>\<open>Vec::with_capacity\<close> may allocate more than asked for; the bytes behind the signed message
  are never read, and the model allocates exactly what is asked for.\<close>

record online_key14 =
  ok14_secret :: bytes
  ok14_cert :: certificate
  ok14_clock :: clock_source
  ok14_template :: signed_response
  ok14_signing_buf :: bytes

definition ok14_new :: "bytes \<Rightarrow> protocol_version \<Rightarrow> clock_source \<Rightarrow> online_key14" where
  "ok14_new secret version clock =
     (let tmpl = srep_set_ver version
             (srep_set_vers (supported_versions_new [version])
              (srep_set_radi DEFAULT_RADI_SECONDS srep_default));
          pfx = srep_prefix RfcDraft14
      in \<lparr>ok14_secret = secret, ok14_cert = cert_default, ok14_clock = clock, ok14_template = tmpl,
          ok14_signing_buf = pfx @ replicate (srep_wire_size tmpl) 0\<rparr>)"

definition ok14_set_cert :: "certificate \<Rightarrow> online_key14 \<Rightarrow> online_key14" where
  "ok14_set_cert c k = k\<lparr>ok14_cert := c\<rparr>"

definition ok14_get_cert :: "profile \<Rightarrow> online_key14 \<Rightarrow> ('e, certificate) outcome" where
  "ok14_get_cert p k =
     and_then (debug_assert p (ok14_cert k \<noteq> cert_default)) (\<lambda>_. Ok (ok14_cert k))"

text \<open>\<open>OnlineSigner\<close>: both conversions panic when the library's output has the wrong length.\<close>

definition signer_public_key :: "ed25519 \<Rightarrow> bytes \<Rightarrow> ('e, public_key) outcome" where
  "signer_public_key E secret = copy_array 32 (ed_public E secret)"

definition signer_sign :: "ed25519 \<Rightarrow> bytes \<Rightarrow> bytes \<Rightarrow> ('e, bytes) outcome" where
  "signer_sign E secret data = copy_array 64 (ed_sign E secret data)"

definition ok14_make_srep ::
  "ed25519 \<Rightarrow> u64 option \<Rightarrow> merkle_root \<Rightarrow> online_key14 \<Rightarrow>
     ('e, (signed_response \<times> signature) \<times> online_key14) outcome" where
  "ok14_make_srep E sys root k =
     and_then (epoch_seconds sys (ok14_clock k)) (\<lambda>now.
     let srep = srep_set_midp now (srep_set_root root (ok14_template k));
         prefix_len = length (srep_prefix RfcDraft14);
         total_len = prefix_len + srep_wire_size srep
     in
     and_then (slice_of (ok14_signing_buf k) prefix_len total_len) (\<lambda>window.
     and_then (expect (srep_to_wire srep (cursor_new window))) (\<lambda>(_, cursor).
     let buf = take prefix_len (ok14_signing_buf k) @ cur_data cursor @ drop total_len (ok14_signing_buf k) in
     and_then (slice_of buf 0 total_len) (\<lambda>msg.
     and_then (signer_sign E (ok14_secret k) msg) (\<lambda>sg.
     Ok ((srep, sg), k\<lparr>ok14_signing_buf := buf\<rparr>))))))"

record online_key08 =
  ok08_secret :: bytes
  ok08_cert :: certificate
  ok08_clock :: clock_source
  ok08_template :: signed_response_draft08
  ok08_signing_buf :: bytes

definition ok08_new :: "bytes \<Rightarrow> clock_source \<Rightarrow> online_key08" where
  "ok08_new secret clock =
     (let tmpl = srep08_set_radi DEFAULT_RADI_SECONDS srep08_default;
          pfx = srep_prefix RfcDraft08
      in \<lparr>ok08_secret = secret, ok08_cert = cert_default, ok08_clock = clock, ok08_template = tmpl,
          ok08_signing_buf = pfx @ replicate (srep08_wire_size tmpl) 0\<rparr>)"

definition ok08_set_cert :: "certificate \<Rightarrow> online_key08 \<Rightarrow> online_key08" where
  "ok08_set_cert c k = k\<lparr>ok08_cert := c\<rparr>"

definition ok08_get_cert :: "profile \<Rightarrow> online_key08 \<Rightarrow> ('e, certificate) outcome" where
  "ok08_get_cert p k =
     and_then (debug_assert p (ok08_cert k \<noteq> cert_default)) (\<lambda>_. Ok (ok08_cert k))"

definition ok08_make_srep ::
  "ed25519 \<Rightarrow> u64 option \<Rightarrow> merkle_root \<Rightarrow> online_key08 \<Rightarrow>
     ('e, (signed_response_draft08 \<times> signature) \<times> online_key08) outcome" where
  "ok08_make_srep E sys root k =
     and_then (epoch_seconds sys (ok08_clock k)) (\<lambda>now.
     let srep = srep08_set_midp now (srep08_set_root root (ok08_template k));
         prefix_len = length (srep_prefix RfcDraft08);
         total_len = prefix_len + srep08_wire_size srep
     in
     and_then (slice_of (ok08_signing_buf k) prefix_len total_len) (\<lambda>window.
     and_then (expect (srep08_to_wire srep (cursor_new window))) (\<lambda>(_, cursor).
     let buf = take prefix_len (ok08_signing_buf k) @ cur_data cursor @ drop total_len (ok08_signing_buf k) in
     and_then (slice_of buf 0 total_len) (\<lambda>msg.
     and_then (signer_sign E (ok08_secret k) msg) (\<lambda>sg.
     Ok ((srep, sg), k\<lparr>ok08_signing_buf := buf\<rparr>))))))"

section \<open>Long-term identity and key source\<close>

record 'b identity =
  id_seed :: 'b
  id_version :: protocol_version

definition identity_new :: "'b seed_backend_ops \<Rightarrow> protocol_version \<Rightarrow> 'b \<Rightarrow> ('e, 'b identity) outcome" where
  "identity_new ops version seed =
     and_then (assert_that (sb_seed_len ops seed = 32)) (\<lambda>_. Ok \<lparr>id_seed = seed, id_version = version\<rparr>)"

definition identity_public_key :: "'b seed_backend_ops \<Rightarrow> 'b identity \<Rightarrow> (backend_error, public_key) outcome" where
  "identity_public_key ops i = sb_public_key ops (id_seed i)"

text \<open>A \<open>Duration\<close>: whole seconds and nanoseconds.\<close>

record duration =
  dur_secs :: u64
  dur_nanos :: u32

text \<open>\<open>secret\<close> is the online key drawn at random inside \<open>OnlineKeyDraft14::new\<close>.\<close>

definition make_online_key14 ::
  "ed25519 \<Rightarrow> 'b seed_backend_ops \<Rightarrow> u64 option \<Rightarrow> bytes \<Rightarrow> clock_source \<Rightarrow> duration \<Rightarrow> 'b identity \<Rightarrow>
     (backend_error, online_key14 \<times> 'b identity) outcome" where
  "make_online_key14 E ops sys secret clock validity i =
     and_then (epoch_seconds sys clock) (\<lambda>now.
     let olk = ok14_new secret (id_version i) clock in
     and_then (signer_public_key E (ok14_secret olk)) (\<lambda>pubkey.
     let dele = dele_new pubkey now (dur_secs validity) in
     and_then (expect (as_bytes dele_wire_size dele_to_wire dele)) (\<lambda>dele_bytes.
     let to_sign = dele_prefix (id_version i) @ dele_bytes in
     and_then (expect (sb_sign ops (id_seed i) to_sign)) (\<lambda>(sg, seed').
     Ok (ok14_set_cert (cert_new sg dele) olk, i\<lparr>id_seed := seed'\<rparr>)))))"

definition make_online_key08 ::
  "ed25519 \<Rightarrow> 'b seed_backend_ops \<Rightarrow> u64 option \<Rightarrow> bytes \<Rightarrow> clock_source \<Rightarrow> duration \<Rightarrow> 'b identity \<Rightarrow>
     (backend_error, online_key08 \<times> 'b identity) outcome" where
  "make_online_key08 E ops sys secret clock validity i =
     and_then (epoch_seconds sys clock) (\<lambda>now.
     let olk = ok08_new secret clock in
     and_then (signer_public_key E (ok08_secret olk)) (\<lambda>pubkey.
     let dele = dele_new pubkey now (dur_secs validity) in
     and_then (expect (as_bytes dele_wire_size dele_to_wire dele)) (\<lambda>dele_bytes.
     let to_sign = dele_prefix RfcDraft08 @ dele_bytes in
     and_then (expect (sb_sign ops (id_seed i) to_sign)) (\<lambda>(sg, seed').
     Ok (ok08_set_cert (cert_new sg dele) olk, i\<lparr>id_seed := seed'\<rparr>)))))"

text \<open>The mutex around the identity serialises the workers; a call holds it throughout.\<close>

record 'b key_source =
  ks_identity :: "'b identity"
  ks_validity_length :: duration
  ks_clock_source :: clock_source

definition key_source_new ::
  "'b seed_backend_ops \<Rightarrow> protocol_version \<Rightarrow> 'b \<Rightarrow> clock_source \<Rightarrow> duration \<Rightarrow> ('e, 'b key_source) outcome" where
  "key_source_new ops version seed clock validity =
     and_then (assert_that (\<not> (dur_secs validity = 0 \<and> dur_nanos validity = 0))) (\<lambda>_.
     and_then (identity_new ops version seed) (\<lambda>i.
     Ok \<lparr>ks_identity = i, ks_validity_length = validity, ks_clock_source = clock\<rparr>))"

definition ks_make_online_key14 ::
  "ed25519 \<Rightarrow> 'b seed_backend_ops \<Rightarrow> u64 option \<Rightarrow> bytes \<Rightarrow> 'b key_source \<Rightarrow>
     (backend_error, online_key14 \<times> 'b key_source) outcome" where
  "ks_make_online_key14 E ops sys secret ks =
     and_then (make_online_key14 E ops sys secret (ks_clock_source ks) (ks_validity_length ks) (ks_identity ks))
       (\<lambda>(k, i). Ok (k, ks\<lparr>ks_identity := i\<rparr>))"

definition ks_make_online_key08 ::
  "ed25519 \<Rightarrow> 'b seed_backend_ops \<Rightarrow> u64 option \<Rightarrow> bytes \<Rightarrow> 'b key_source \<Rightarrow>
     (backend_error, online_key08 \<times> 'b key_source) outcome" where
  "ks_make_online_key08 E ops sys secret ks =
     and_then (make_online_key08 E ops sys secret (ks_clock_source ks) (ks_validity_length ks) (ks_identity ks))
       (\<lambda>(k, i). Ok (k, ks\<lparr>ks_identity := i\<rparr>))"

definition ks_public_key :: "'b seed_backend_ops \<Rightarrow> 'b key_source \<Rightarrow> (backend_error, public_key) outcome" where
  "ks_public_key ops ks = identity_public_key ops (ks_identity ks)"

section \<open>What the keys promise\<close>

lemma ed25519_lengths:
  "ed25519_ok E \<Longrightarrow> length (ed_public E sk) = 32" "ed25519_ok E \<Longrightarrow> length (ed_sign E sk m) = 64"
  "ed25519_ok E \<Longrightarrow> ed_verify E (ed_public E sk) m (ed_sign E sk m)"
  by (auto simp: ed25519_ok_def)

lemma signer_ok:
  "ed25519_ok E \<Longrightarrow> signer_public_key E sk = Ok (ed_public E sk)"
  "ed25519_ok E \<Longrightarrow> signer_sign E sk m = Ok (ed_sign E sk m)"
  by (simp_all add: signer_public_key_def signer_sign_def copy_array_def ed25519_lengths)

text \<open>A certificate whose delegation names \<open>pk\<close> and is signed by the long-term key \<open>lt_pk\<close>.\<close>

definition cert_delegates :: "ed25519 \<Rightarrow> protocol_version \<Rightarrow> public_key \<Rightarrow> certificate \<Rightarrow> public_key \<Rightarrow> bool" where
  "cert_delegates E v lt_pk c pk \<longleftrightarrow>
     cert_valid c \<and> dele_public_key (cert_delegation c) = pk \<and>
     ed_verify E lt_pk (dele_prefix v @ dele_enc (cert_delegation c)) (cert_signature c)"

text \<open>An online key as the identity hands it out.\<close>

definition ok14_ok :: "ed25519 \<Rightarrow> protocol_version \<Rightarrow> public_key \<Rightarrow> online_key14 \<Rightarrow> bool" where
  "ok14_ok E v lt_pk k \<longleftrightarrow>
     cert_delegates E v lt_pk (ok14_cert k) (ed_public E (ok14_secret k)) \<and>
     ok14_template k = srep_make v DEFAULT_RADI_SECONDS 0 [v] (fixed_tag_default 32) \<and>
     take (length (srep_prefix RfcDraft14)) (ok14_signing_buf k) = srep_prefix RfcDraft14 \<and>
     length (ok14_signing_buf k) = length (srep_prefix RfcDraft14) + 92"

definition ok08_ok :: "ed25519 \<Rightarrow> public_key \<Rightarrow> online_key08 \<Rightarrow> bool" where
  "ok08_ok E lt_pk k \<longleftrightarrow>
     cert_delegates E RfcDraft08 lt_pk (ok08_cert k) (ed_public E (ok08_secret k)) \<and>
     ok08_template k = srep08_make DEFAULT_RADI_SECONDS 0 (fixed_tag_default 32) \<and>
     take (length (srep_prefix RfcDraft08)) (ok08_signing_buf k) = srep_prefix RfcDraft08 \<and>
     length (ok08_signing_buf k) = length (srep_prefix RfcDraft08) + 68"

lemma version_list_single: "version_list_valid [v]"
  by (simp add: version_list_valid_def MAX_VERSIONS_def)

lemma srep_make_size: "srep_wire_size (srep_make v r m [w] root) = 92"
  by (simp add: srep_wire_size_def srep_make_def header_wire_size_def version_wire_size_def
      vers_wire_size_def version_list_wire_size_def root_wire_size_def)

lemma take_append_eq: "take n xs = ys \<Longrightarrow> n = length ys \<Longrightarrow> \<exists>zs. xs = ys @ zs"
  by (metis append_take_drop_id)

lemma ok14_make_srep_ok:
  assumes E: "ed25519_ok E" and k: "ok14_ok E v lt_pk k" and r: "length root = 32"
    and now: "(epoch_seconds sys (ok14_clock k) :: ('e, u64) outcome) = Ok now"
  shows "\<exists>k'. (ok14_make_srep E sys root k :: ('e, _) outcome)
           = Ok ((srep_make v DEFAULT_RADI_SECONDS now [v] root,
                  ed_sign E (ok14_secret k) (srep_prefix RfcDraft14 @ srep_enc (srep_make v DEFAULT_RADI_SECONDS now [v] root))), k')
           \<and> ok14_ok E v lt_pk k' \<and> ok14_cert k' = ok14_cert k \<and> ok14_secret k' = ok14_secret k
           \<and> ok14_clock k' = ok14_clock k"
proof -
  let ?s = "srep_make v DEFAULT_RADI_SECONDS now [v] root" and ?p = "srep_prefix RfcDraft14"
  have sv: "srep_valid ?s" using r by (intro srep_make_valid version_list_single) simp_all
  obtain buf where buf: "ok14_signing_buf k = ?p @ buf" and lb: "length buf = 92"
    using k take_append_eq [of "length ?p" "ok14_signing_buf k" ?p] by (auto simp: ok14_ok_def)
  have w: "srep_to_wire ?s (cursor_new buf) = Ok ((), cursor_at (srep_enc ?s) [])"
    by (rule writes_new [OF srep_writes [OF sv]]) (simp add: lb sv)
  have l: "length (srep_enc ?s) = 92" using sv by simp
  have t: "srep_set_midp now (srep_set_root root (ok14_template k)) = ?s"
    using k by (simp add: ok14_ok_def srep_make_set)
  have s1: "slice_of (?p @ buf) (length ?p) (length ?p + 92) = Ok buf"
    using lb by (simp add: slice_of_def)
  have s2: "slice_of (?p @ srep_enc ?s) 0 (length ?p + 92) = Ok (?p @ srep_enc ?s)"
    using l by (simp add: slice_of_def)
  show ?thesis
    using now w l k lb
    by (simp add: ok14_make_srep_def t Let_def srep_make_size buf s1 s2 signer_ok E) (simp add: ok14_ok_def)
qed

lemma ok08_make_srep_ok:
  assumes E: "ed25519_ok E" and k: "ok08_ok E lt_pk k" and r: "length root = 32"
    and now: "(epoch_seconds sys (ok08_clock k) :: ('e, u64) outcome) = Ok now"
  shows "\<exists>k'. (ok08_make_srep E sys root k :: ('e, _) outcome)
           = Ok ((srep08_make DEFAULT_RADI_SECONDS now root,
                  ed_sign E (ok08_secret k) (srep_prefix RfcDraft08 @ srep08_enc (srep08_make DEFAULT_RADI_SECONDS now root))), k')
           \<and> ok08_ok E lt_pk k' \<and> ok08_cert k' = ok08_cert k \<and> ok08_secret k' = ok08_secret k
           \<and> ok08_clock k' = ok08_clock k"
proof -
  let ?s = "srep08_make DEFAULT_RADI_SECONDS now root" and ?p = "srep_prefix RfcDraft08"
  have sv: "srep08_valid ?s" using r by (rule srep08_make_valid)
  obtain buf where buf: "ok08_signing_buf k = ?p @ buf" and lb: "length buf = 68"
    using k take_append_eq [of "length ?p" "ok08_signing_buf k" ?p] by (auto simp: ok08_ok_def)
  have w: "srep08_to_wire ?s (cursor_new buf) = Ok ((), cursor_at (srep08_enc ?s) [])"
    by (rule writes_new [OF srep08_writes [OF sv]]) (simp add: lb sv)
  have l: "length (srep08_enc ?s) = 68" using sv by simp
  have t: "srep08_set_midp now (srep08_set_root root (ok08_template k)) = ?s"
    using k by (simp add: ok08_ok_def srep08_set_all)
  have s1: "slice_of (?p @ buf) (length ?p) (length ?p + 68) = Ok buf"
    using lb by (simp add: slice_of_def)
  have s2: "slice_of (?p @ srep08_enc ?s) 0 (length ?p + 68) = Ok (?p @ srep08_enc ?s)"
    using l by (simp add: slice_of_def)
  show ?thesis
    using now w l k lb
    by (simp add: ok08_make_srep_def t Let_def srep08_wire_size buf s1 s2 signer_ok E) (simp add: ok08_ok_def)
qed

text \<open>The contract of a seed backend: \<open>inv\<close> holds of a backend that holds a seed, \<open>pk\<close> is its
  public key, and signatures verify under it.\<close>

locale seed_backend =
  fixes E :: ed25519
    and ops :: "'b seed_backend_ops"
    and inv :: "'b \<Rightarrow> bool"
    and pk :: "'b \<Rightarrow> public_key"
  assumes backend_pk: "inv b \<Longrightarrow> sb_public_key ops b = Ok (pk b)"
    and backend_len: "inv b \<Longrightarrow> sb_seed_len ops b = 32"
    and backend_sign: "ed25519_ok E \<Longrightarrow> inv b \<Longrightarrow>
      \<exists>sg b'. sb_sign ops b m = Ok (sg, b') \<and> inv b' \<and> pk b' = pk b \<and> length sg = 64 \<and> ed_verify E (pk b) m sg"
begin

lemma make_online_key14_ok:
  assumes E: "ed25519_ok E" and i: "inv (id_seed i)"
    and now: "(epoch_seconds sys clock :: (backend_error, u64) outcome) = Ok now"
  shows "\<exists>k i'. make_online_key14 E ops sys secret clock validity i = Ok (k, i') \<and>
           ok14_ok E (id_version i) (pk (id_seed i)) k \<and> ok14_clock k = clock \<and>
           cert_delegation (ok14_cert k) = dele_new (ed_public E secret) now (dur_secs validity) \<and>
           inv (id_seed i') \<and> pk (id_seed i') = pk (id_seed i) \<and> id_version i' = id_version i"
proof -
  let ?d = "dele_new (ed_public E secret) now (dur_secs validity)"
  have d: "dele_valid ?d" using E by (intro dele_new_valid) (simp add: ed25519_lengths)
  obtain sg b' where sg: "sb_sign ops (id_seed i) (dele_prefix (id_version i) @ dele_enc ?d) = Ok (sg, b')"
    "inv b'" "pk b' = pk (id_seed i)" "length sg = 64"
    "ed_verify E (pk (id_seed i)) (dele_prefix (id_version i) @ dele_enc ?d) sg"
    using backend_sign [OF E i] by blast
  have cv: "cert_valid (cert_new sg ?d)" using sg(4) d by (rule cert_new_valid)
  have cf: "cert_delegation (cert_new sg ?d) = ?d" "cert_signature (cert_new sg ?d) = sg"
    by (simp_all add: cert_new_def)
  have df: "dele_public_key ?d = ed_public E secret" by (simp add: dele_new_def)
  have t: "ok14_new secret (id_version i) clock =
      \<lparr>ok14_secret = secret, ok14_cert = cert_default, ok14_clock = clock,
       ok14_template = srep_make (id_version i) DEFAULT_RADI_SECONDS 0 [id_version i] (fixed_tag_default 32),
       ok14_signing_buf = srep_prefix RfcDraft14 @ replicate 92 0\<rparr>"
    by (simp add: ok14_new_def Let_def srep_set_all srep_make_size supported_versions_new_def
        version_list_new_def MAX_VERSIONS_def)
  show ?thesis
    using now sg cv cf df
    by (simp add: make_online_key14_def Let_def signer_ok E t dele_codec.as_bytes_enc [OF d] ok14_set_cert_def)
      (simp add: ok14_ok_def cert_delegates_def)
qed

lemma make_online_key08_ok:
  assumes E: "ed25519_ok E" and i: "inv (id_seed i)"
    and now: "(epoch_seconds sys clock :: (backend_error, u64) outcome) = Ok now"
  shows "\<exists>k i'. make_online_key08 E ops sys secret clock validity i = Ok (k, i') \<and>
           ok08_ok E (pk (id_seed i)) k \<and> ok08_clock k = clock \<and>
           cert_delegation (ok08_cert k) = dele_new (ed_public E secret) now (dur_secs validity) \<and>
           inv (id_seed i') \<and> pk (id_seed i') = pk (id_seed i) \<and> id_version i' = id_version i"
proof -
  let ?d = "dele_new (ed_public E secret) now (dur_secs validity)"
  have d: "dele_valid ?d" using E by (intro dele_new_valid) (simp add: ed25519_lengths)
  obtain sg b' where sg: "sb_sign ops (id_seed i) (dele_prefix RfcDraft08 @ dele_enc ?d) = Ok (sg, b')"
    "inv b'" "pk b' = pk (id_seed i)" "length sg = 64"
    "ed_verify E (pk (id_seed i)) (dele_prefix RfcDraft08 @ dele_enc ?d) sg"
    using backend_sign [OF E i] by blast
  have cv: "cert_valid (cert_new sg ?d)" using sg(4) d by (rule cert_new_valid)
  have cf: "cert_delegation (cert_new sg ?d) = ?d" "cert_signature (cert_new sg ?d) = sg"
    by (simp_all add: cert_new_def)
  have df: "dele_public_key ?d = ed_public E secret" by (simp add: dele_new_def)
  have t: "ok08_new secret clock =
      \<lparr>ok08_secret = secret, ok08_cert = cert_default, ok08_clock = clock,
       ok08_template = srep08_make DEFAULT_RADI_SECONDS 0 (fixed_tag_default 32),
       ok08_signing_buf = srep_prefix RfcDraft08 @ replicate 68 0\<rparr>"
    by (simp add: ok08_new_def Let_def srep08_set_all srep08_wire_size)
  show ?thesis
    using now sg cv cf df
    by (simp add: make_online_key08_def Let_def signer_ok E t dele_codec.as_bytes_enc [OF d] ok08_set_cert_def
        del: dele_prefix.simps)
      (simp add: ok08_ok_def cert_delegates_def)
qed

end

definition mb_ok :: "ed25519 \<Rightarrow> memory_backend \<Rightarrow> bool" where
  "mb_ok E b \<longleftrightarrow> (case mb_seed b of
      Some seed \<Rightarrow> length seed = 32 \<and> mb_public_key b = Some (ed_public E seed) | None \<Rightarrow> False)"

definition mb_pk :: "ed25519 \<Rightarrow> memory_backend \<Rightarrow> public_key" where
  "mb_pk E b = (case mb_seed b of Some seed \<Rightarrow> ed_public E seed | None \<Rightarrow> [])"

lemma mb_ok_seed: "mb_ok E b \<Longrightarrow> \<exists>seed. mb_seed b = Some seed \<and> length seed = 32 \<and>
     mb_public_key b = Some (ed_public E seed) \<and> mb_pk E b = ed_public E seed"
  by (auto simp: mb_ok_def mb_pk_def split: option.splits)

interpretation memory_seed: seed_backend E "memory_ops E" "mb_ok E" "mb_pk E" for E
proof unfold_locales
  fix b m assume b: "mb_ok E b"
  then obtain seed where s: "mb_seed b = Some seed" "length seed = 32"
    "mb_public_key b = Some (ed_public E seed)" "mb_pk E b = ed_public E seed" using mb_ok_seed by blast
  show "sb_public_key (memory_ops E) b = Ok (mb_pk E b)" "sb_seed_len (memory_ops E) b = 32"
    using s by (simp_all add: memory_ops_def mb_get_public_key_def mb_seed_len_def)
  assume E: "ed25519_ok E"
  have "sb_sign (memory_ops E) b m = Ok (ed_sign E seed m, b)"
    using s E by (simp add: memory_ops_def mb_sign_def mb_get_seed_def seed_new_def copy_array_def ed25519_lengths)
  then show "\<exists>sg b'. sb_sign (memory_ops E) b m = Ok (sg, b') \<and> mb_ok E b' \<and> mb_pk E b' = mb_pk E b \<and>
      length sg = 64 \<and> ed_verify E (mb_pk E b) m sg"
    using b s E by (auto simp: ed25519_lengths)
qed

lemma mb_from_value_ok:
  "ed25519_ok E \<Longrightarrow> length val = 32 \<Longrightarrow>
     \<exists>b. mb_from_value E val = Ok b \<and> mb_ok E b \<and> mb_pk E b = ed_public E val"
  by (auto simp: mb_from_value_def seed_new_def mb_store_seed_def pubk_from_slice_def copy_array_def
      ed25519_lengths mb_ok_def mb_pk_def mb_new_def)

section \<open>Properties\<close>

lemma dele_new_times:
  "dele_min_time (dele_new pk now v) = now" "dele_min_time (dele_new pk now v) \<le> dele_max_time (dele_new pk now v)"
  by (simp_all add: dele_new_def saturating_add_ge)

text \<open>C13. From a 32-byte seed to a signed time, draft-14: loading the seed, creating the key source,
  making an online key and signing a response at a later clock reading all succeed, for every Merkle
  root. The online key's certificate is well-formed, starts at the time of its creation, never ends
  before it starts, and its delegation is signed by the long-term key the key source publishes; the
  signature on the response verifies under the delegated key over the context string and the encoded
  SREP, whose midpoint is the clock reading.\<close>

theorem key_chain_draft14:
  assumes "ed25519_ok E" "length seed = 32" "dur_secs validity \<noteq> 0" "length root = 32"
    and "epoch_seconds sys1 clock = (Ok t1 :: (backend_error, u64) outcome)"
    and "epoch_seconds sys2 clock = (Ok t2 :: (error, u64) outcome)"
  shows "\<exists>b ks k ks' srep sg k'.
     mb_from_value E seed = Ok b \<and>
     key_source_new (memory_ops E) v b clock validity = (Ok ks :: (backend_error, _) outcome) \<and>
     ks_public_key (memory_ops E) ks = Ok (ed_public E seed) \<and>
     ks_make_online_key14 E (memory_ops E) sys1 secret ks = Ok (k, ks') \<and>
     cert_delegates E v (ed_public E seed) (ok14_cert k) (ed_public E secret) \<and>
     dele_min_time (cert_delegation (ok14_cert k)) = t1 \<and>
     dele_min_time (cert_delegation (ok14_cert k)) \<le> dele_max_time (cert_delegation (ok14_cert k)) \<and>
     ok14_make_srep E sys2 root k = (Ok ((srep, sg), k') :: (error, _) outcome) \<and>
     srep_midpoint srep = t2 \<and> srep_merkle_root srep = root \<and> length sg = 64 \<and>
     ed_verify E (dele_public_key (cert_delegation (ok14_cert k))) (srep_prefix RfcDraft14 @ srep_enc srep) sg"
proof -
  note E = assms(1)
  obtain b where b: "mb_from_value E seed = Ok b" "mb_ok E b" "mb_pk E b = ed_public E seed"
    using mb_from_value_ok [OF E assms(2)] by blast
  let ?i = "\<lparr>id_seed = b, id_version = v\<rparr>"
  let ?ks = "\<lparr>ks_identity = ?i, ks_validity_length = validity, ks_clock_source = clock\<rparr>"
  have ks: "key_source_new (memory_ops E) v b clock validity = (Ok ?ks :: (backend_error, _) outcome)"
    using memory_seed.backend_len [OF b(2)] assms(3) by (simp add: key_source_new_def identity_new_def)
  obtain k i' where k: "make_online_key14 E (memory_ops E) sys1 secret clock validity ?i = Ok (k, i')"
      "ok14_ok E v (ed_public E seed) k" "ok14_clock k = clock"
      "cert_delegation (ok14_cert k) = dele_new (ed_public E secret) t1 (dur_secs validity)"
    using memory_seed.make_online_key14_ok [OF E _ assms(5), of ?i secret validity] b(2,3) by auto
  have sec: "ok14_secret k = secret"
    using k(1) assms(5) by (auto simp: make_online_key14_def and_then_Ok_iff Let_def ok14_set_cert_def ok14_new_def)
  have cd: "cert_delegates E v (ed_public E seed) (ok14_cert k) (ed_public E secret)"
    using k(2) sec by (simp add: ok14_ok_def)
  from ok14_make_srep_ok [OF E k(2) assms(4)] assms(6) k(3) sec obtain k' where
    "ok14_make_srep E sys2 root k = (Ok ((srep_make v DEFAULT_RADI_SECONDS t2 [v] root,
       ed_sign E secret (srep_prefix RfcDraft14 @ srep_enc (srep_make v DEFAULT_RADI_SECONDS t2 [v] root))), k') :: (error, _) outcome)"
    by blast
  with b ks k cd show ?thesis
    using memory_seed.backend_pk [OF b(2)] ed25519_lengths [OF E] dele_new_times
    by (simp add: ks_make_online_key14_def ks_public_key_def identity_public_key_def)
      (simp add: cert_delegates_def)
qed

text \<open>A concrete scheme that meets \<open>ed25519_ok\<close>.\<close>

definition toy_ed :: ed25519 where
  "toy_ed = \<lparr>ed_public = (\<lambda>sk. take 32 (sk @ replicate 32 0)),
             ed_sign = (\<lambda>sk m. take 64 (take 32 (sk @ replicate 32 0) @ rev m @ replicate 64 0)),
             ed_verify = (\<lambda>pk m sg. sg = take 64 (pk @ rev m @ replicate 64 0))\<rparr>"

lemma toy_ed_ok: "ed25519_ok toy_ed"
  by (auto simp: ed25519_ok_def toy_ed_def min_def)

theorem key_chain_draft14_witness:
  "\<exists>b ks k ks' srep sg k'.
     mb_from_value toy_ed (replicate 32 1) = Ok b \<and>
     key_source_new (memory_ops toy_ed) RfcDraft14 b System \<lparr>dur_secs = 3600, dur_nanos = 0\<rparr> = (Ok ks :: (backend_error, _) outcome) \<and>
     ks_public_key (memory_ops toy_ed) ks = Ok (ed_public toy_ed (replicate 32 1)) \<and>
     ks_make_online_key14 toy_ed (memory_ops toy_ed) (Some 100) (replicate 32 2) ks = Ok (k, ks') \<and>
     cert_delegates toy_ed RfcDraft14 (ed_public toy_ed (replicate 32 1)) (ok14_cert k) (ed_public toy_ed (replicate 32 2)) \<and>
     dele_min_time (cert_delegation (ok14_cert k)) = 100 \<and>
     dele_min_time (cert_delegation (ok14_cert k)) \<le> dele_max_time (cert_delegation (ok14_cert k)) \<and>
     ok14_make_srep toy_ed (Some 200) (replicate 32 3) k = (Ok ((srep, sg), k') :: (error, _) outcome) \<and>
     srep_midpoint srep = 200 \<and> srep_merkle_root srep = replicate 32 3 \<and> length sg = 64 \<and>
     ed_verify toy_ed (dele_public_key (cert_delegation (ok14_cert k))) (srep_prefix RfcDraft14 @ srep_enc srep) sg"
  by (rule key_chain_draft14) (simp_all add: toy_ed_ok system_seconds_def)

end
