(* ===== verification/Metrics.thy ===== *)
theory Metrics
  imports Prelude
begin

text \<open>
  The server's metrics (\<^verbatim>\<open>metrics/types.rs\<close> and the snapshots of \<^verbatim>\<open>metrics/aggregator.rs\<close>). The \<open>usize\<close>
  counters are natural numbers (64 bits are not exhausted); the batch-size histogram has \<open>u8\<close> counters, kept at their width because they do overflow.
\<close>

record network_metrics =
  num_recv_wouldblock :: nat
  num_successful_sends :: nat
  num_failed_sends :: nat
  num_failed_polls :: nat
  num_failed_recvs :: nat

definition network_metrics_default :: network_metrics where
  "network_metrics_default = \<lparr>num_recv_wouldblock = 0, num_successful_sends = 0, num_failed_sends = 0,
     num_failed_polls = 0, num_failed_recvs = 0\<rparr>"

definition network_metrics_add :: "network_metrics \<Rightarrow> network_metrics \<Rightarrow> network_metrics" where
  "network_metrics_add m rhs =
     \<lparr>num_recv_wouldblock = num_recv_wouldblock m + num_recv_wouldblock rhs,
      num_successful_sends = num_successful_sends m + num_successful_sends rhs,
      num_failed_sends = num_failed_sends m + num_failed_sends rhs,
      num_failed_polls = num_failed_polls m + num_failed_polls rhs,
      num_failed_recvs = num_failed_recvs m + num_failed_recvs rhs\<rparr>"

record request_metrics =
  num_ok_requests :: nat
  num_bad_requests :: nat
  num_runt_requests :: nat
  num_jumbo_requests :: nat

definition request_metrics_default :: request_metrics where
  "request_metrics_default =
     \<lparr>num_ok_requests = 0, num_bad_requests = 0, num_runt_requests = 0, num_jumbo_requests = 0\<rparr>"

definition request_metrics_add :: "request_metrics \<Rightarrow> request_metrics \<Rightarrow> request_metrics" where
  "request_metrics_add m rhs =
     \<lparr>num_ok_requests = num_ok_requests m + num_ok_requests rhs,
      num_bad_requests = num_bad_requests m + num_bad_requests rhs,
      num_runt_requests = num_runt_requests m + num_runt_requests rhs,
      num_jumbo_requests = num_jumbo_requests m + num_jumbo_requests rhs\<rparr>"

record response_metrics =
  num_responses :: nat
  num_bytes_sent :: nat
  batch_sizes :: "u8 list"

definition MAX_BATCH_SIZE :: nat where
  "MAX_BATCH_SIZE = 64"

definition response_metrics_default :: response_metrics where
  "response_metrics_default =
     \<lparr>num_responses = 0, num_bytes_sent = 0, batch_sizes = replicate MAX_BATCH_SIZE 0\<rparr>"

text \<open>\<open>self.batch_sizes[idx] += count\<close>.\<close>

definition bump_count :: "profile \<Rightarrow> nat \<Rightarrow> u8 \<Rightarrow> u8 list \<Rightarrow> ('e, u8 list) outcome" where
  "bump_count p idx count xs =
     and_then (index_at xs idx) (\<lambda>old.
     and_then (add_word p old count) (\<lambda>new. Ok (xs[idx := new])))"

definition add_batch_size :: "profile \<Rightarrow> u8 \<Rightarrow> response_metrics \<Rightarrow> ('e, response_metrics) outcome" where
  "add_batch_size p batch_size m =
     and_then (debug_assert p (batch_size > 0 \<and> batch_size \<le> of_nat MAX_BATCH_SIZE)) (\<lambda>_.
     and_then (sub_usize p (unat batch_size) 1) (\<lambda>idx.
     and_then (bump_count p idx 1 (batch_sizes m)) (\<lambda>sizes.
     Ok (m\<lparr>num_responses := num_responses m + unat batch_size, batch_sizes := sizes\<rparr>))))"

definition add_bytes_sent :: "nat \<Rightarrow> response_metrics \<Rightarrow> response_metrics" where
  "add_bytes_sent num_bytes m = m\<lparr>num_bytes_sent := num_bytes_sent m + num_bytes\<rparr>"

definition response_metrics_reset :: "response_metrics \<Rightarrow> response_metrics" where
  "response_metrics_reset m =
     m\<lparr>num_responses := 0, num_bytes_sent := 0, batch_sizes := replicate MAX_BATCH_SIZE 0\<rparr>"

text \<open>The loop of \<open>AddAssign for ResponseMetrics\<close>.\<close>

fun add_counts :: "profile \<Rightarrow> nat \<Rightarrow> u8 list \<Rightarrow> u8 list \<Rightarrow> ('e, u8 list) outcome" where
  "add_counts p idx [] xs = Ok xs"
| "add_counts p idx (c # cs) xs = and_then (bump_count p idx c xs) (add_counts p (Suc idx) cs)"

definition response_metrics_add :: "profile \<Rightarrow> response_metrics \<Rightarrow> response_metrics \<Rightarrow> ('e, response_metrics) outcome" where
  "response_metrics_add p m rhs =
     and_then (add_counts p 0 (batch_sizes rhs) (batch_sizes m)) (\<lambda>sizes.
     Ok \<lparr>num_responses = num_responses m + num_responses rhs,
         num_bytes_sent = num_bytes_sent m + num_bytes_sent rhs, batch_sizes = sizes\<rparr>)"

text \<open>What a worker publishes.\<close>

record worker_metrics =
  wm_worker_id :: nat
  wm_network :: network_metrics
  wm_request :: request_metrics
  wm_response :: response_metrics

section \<open>Lemmas\<close>

definition metrics_ok :: "response_metrics \<Rightarrow> bool" where
  "metrics_ok m \<longleftrightarrow> length (batch_sizes m) = MAX_BATCH_SIZE"

lemma metrics_ok_init: "metrics_ok response_metrics_default" "metrics_ok (response_metrics_reset m)"
  by (simp_all add: metrics_ok_def response_metrics_default_def response_metrics_reset_def)

text \<open>The histogram counter for a batch size has room for one more batch.\<close>

definition count_room :: "profile \<Rightarrow> nat \<Rightarrow> response_metrics \<Rightarrow> bool" where
  "count_room p n m \<longleftrightarrow> p = Release \<or> unat (batch_sizes m ! (n - 1)) < 255"

lemma add_batch_size_ok:
  assumes "metrics_ok m" "0 < n" "n \<le> 64" "count_room p n m"
  shows "(add_batch_size p (of_nat n) m :: ('e, response_metrics) outcome)
           = Ok (m\<lparr>num_responses := num_responses m + n,
                   batch_sizes := (batch_sizes m)[n - 1 := batch_sizes m ! (n - 1) + 1]\<rparr>)"
proof -
  have u: "unat (of_nat n :: u8) = n" using assms(3) by (simp add: unat_of_nat)
  have "(0 :: u8) < of_nat n" "of_nat n \<le> (64 :: u8)"
    using assms(2,3) u by (auto simp: word_less_nat_alt word_le_nat_alt)
  moreover have "n - 1 < length (batch_sizes m)" using assms by (simp add: metrics_ok_def MAX_BATCH_SIZE_def)
  moreover have "add_word p (batch_sizes m ! (n - 1)) 1 = (Ok (batch_sizes m ! (n - 1) + 1) :: ('e, u8) outcome)"
    using assms(4) by (auto simp: add_word_def count_room_def split: profile.splits)
  ultimately show ?thesis using assms(2) u
    by (simp add: add_batch_size_def bump_count_def MAX_BATCH_SIZE_def)
qed

section \<open>Properties\<close>

text \<open>The batch-size histogram overflows: the 256th batch of a size since the last reset makes a
  debug build panic, and in a release build the counter wraps around to zero while the number of
  responses keeps growing.\<close>

lemma batch_histogram_overflow:
  assumes "metrics_ok m" "0 < n" "n \<le> 64" "batch_sizes m ! (n - 1) = 255"
  shows "add_batch_size Debug (of_nat n) m = (Panic :: ('e, _) outcome) \<and>
    (\<exists>m'. add_batch_size Release (of_nat n) m = (Ok m' :: ('e, _) outcome) \<and> batch_sizes m' ! (n - 1) = 0 \<and>
       num_responses m' = num_responses m + n)"
proof -
  have u: "unat (of_nat n :: u8) = n" using assms(3) by (simp add: unat_of_nat)
  have g: "(0 :: u8) < of_nat n" "of_nat n \<le> (64 :: u8)"
    using assms(2,3) u by (auto simp: word_less_nat_alt word_le_nat_alt)
  have i: "n - 1 < length (batch_sizes m)" using assms by (simp add: metrics_ok_def MAX_BATCH_SIZE_def)
  have "add_word Debug (255 :: u8) 1 = (Panic :: ('e, u8) outcome)" by (simp add: add_word_def)
  then have "add_batch_size Debug (of_nat n) m = (Panic :: ('e, _) outcome)"
    using i u g assms(2,4) by (simp add: add_batch_size_def bump_count_def MAX_BATCH_SIZE_def)
  moreover have "count_room Release n m" by (simp add: count_room_def)
  ultimately show ?thesis using i assms(4) by (simp add: add_batch_size_ok [OF assms(1-3)])
qed

end
