(* ===== verification/Server.thy ===== *)
theory Server
  imports Keys Metrics
begin

text \<open>
  The server's request path: \<^verbatim>\<open>network.rs\<close> (draining a UDP socket), \<^verbatim>\<open>requests.rs\<close>
  (classification and parsing of datagrams) and \<^verbatim>\<open>responses.rs\<close> (batching into the Merkle tree,
  signing, building and framing of responses). Socket operations are arguments: the results of the
  successive \<open>recv_from\<close> calls, the results of \<open>send_to\<close>. A callback becomes the list of the values it
  is called with, in order. The handlers are parametric in the seed backend \<open>'b\<close> and in the type
  \<open>'addr\<close> of socket addresses.
\<close>

section \<open>Responses\<close>

record 'addr pending_request =
  pr_request :: request
  pr_src_addr :: 'addr

datatype online_key = Draft14Key online_key14 | Draft08Key online_key08

record ('b, 'addr) response_handler =
  rh_batch_size :: nat
  rh_merkle_tree :: merkle_tree
  rh_merkle_path :: merkle_path
  rh_key_source :: "'b key_source"
  rh_online_key :: online_key
  rh_metrics :: response_metrics
  rh_requests :: "'addr pending_request list"
  rh_response_buf :: bytes
  rh_protocol_version :: protocol_version

text \<open>The \<open>match\<close> on the protocol version in \<open>new\<close> and in \<open>replace_online_key\<close>.\<close>

fun fresh_online_key ::
  "ed25519 \<Rightarrow> 'b seed_backend_ops \<Rightarrow> u64 option \<Rightarrow> bytes \<Rightarrow> protocol_version \<Rightarrow> 'b key_source \<Rightarrow>
     (backend_error, online_key \<times> 'b key_source) outcome" where
  "fresh_online_key E ops sys secret RfcDraft08 ks =
     and_then (ks_make_online_key08 E ops sys secret ks) (\<lambda>(k, ks'). Ok (Draft08Key k, ks'))"
| "fresh_online_key E ops sys secret RfcDraft14 ks =
     and_then (ks_make_online_key14 E ops sys secret ks) (\<lambda>(k, ks'). Ok (Draft14Key k, ks'))"

definition response_handler_new ::
  "ed25519 \<Rightarrow> 'b seed_backend_ops \<Rightarrow> u64 option \<Rightarrow> bytes \<Rightarrow> u8 \<Rightarrow> 'b key_source \<Rightarrow> protocol_version \<Rightarrow>
     (backend_error, ('b, 'addr) response_handler) outcome" where
  "response_handler_new E ops sys secret batch_size ks version =
     and_then (fresh_online_key E ops sys secret version ks) (\<lambda>(k, ks').
     Ok \<lparr>rh_batch_size = unat batch_size,
         rh_merkle_tree = tree_reserve (unat batch_size) tree_new,
         rh_merkle_path = path_default, rh_key_source = ks', rh_online_key = k,
         rh_metrics = response_metrics_default, rh_requests = [],
         rh_response_buf = replicate 1024 0, rh_protocol_version = version\<rparr>)"

fun merkle_leaf :: "protocol_version \<Rightarrow> bytes \<Rightarrow> request \<Rightarrow> bytes" where
  "merkle_leaf RfcDraft08 request_bytes req = request_nonc req"
| "merkle_leaf RfcDraft14 request_bytes req = request_bytes"

definition add_request ::
  "profile \<Rightarrow> hash_fn \<Rightarrow> bytes \<Rightarrow> request \<Rightarrow> 'addr \<Rightarrow> ('b, 'addr) response_handler \<Rightarrow>
     (backend_error, ('b, 'addr) response_handler) outcome" where
  "add_request p H request_bytes req src h =
     and_then (debug_assert p (length (rh_requests h) < rh_batch_size h)) (\<lambda>_.
     and_then (push_leaf H (merkle_leaf (rh_protocol_version h) request_bytes req) (rh_merkle_tree h)) (\<lambda>tree.
     Ok (h\<lparr>rh_merkle_tree := tree,
           rh_requests := rh_requests h @ [\<lparr>pr_request = req, pr_src_addr = src\<rparr>]\<rparr>)))"

definition replace_online_key ::
  "ed25519 \<Rightarrow> 'b seed_backend_ops \<Rightarrow> u64 option \<Rightarrow> bytes \<Rightarrow> ('b, 'addr) response_handler \<Rightarrow>
     (backend_error, ('b, 'addr) response_handler) outcome" where
  "replace_online_key E ops sys secret h =
     and_then (fresh_online_key E ops sys secret (rh_protocol_version h) (rh_key_source h)) (\<lambda>(k, ks').
     Ok (h\<lparr>rh_online_key := k, rh_key_source := ks'\<rparr>))"

text \<open>The fields the response loops mutate: path, buffer and metrics. One iteration of the draft-14
  loop, then the loop.\<close>

type_synonym loop_state = "merkle_path \<times> bytes \<times> response_metrics"

definition respond_one14 ::
  "profile \<Rightarrow> merkle_tree \<Rightarrow> response \<Rightarrow> nat \<Rightarrow> 'addr pending_request \<Rightarrow> loop_state \<Rightarrow>
     (backend_error, ('addr \<times> bytes) \<times> loop_state) outcome" where
  "respond_one14 p tree response_common index pending st =
     (case st of (mp0, buf, m) \<Rightarrow>
     and_then (get_paths_to p tree index (path_clear mp0)) (\<lambda>mp.
     let resp = resp_set_indx (of_nat index)
                  (resp_set_nonc (request_nonc (pr_request pending))
                   (resp_copy_path mp response_common))
     in
     and_then (expect (to_frame resp_wire_size resp_to_wire resp (cursor_new buf))) (\<lambda>(_, cursor).
     let buf' = cur_data cursor; n = frame_size resp_wire_size resp in
     and_then (slice_of buf' 0 n) (\<lambda>frame.
     Ok ((pr_src_addr pending, frame), (mp, buf', add_bytes_sent n m))))))"

fun respond_loop14 ::
  "profile \<Rightarrow> merkle_tree \<Rightarrow> response \<Rightarrow> nat \<Rightarrow> 'addr pending_request list \<Rightarrow> loop_state \<Rightarrow>
     (backend_error, ('addr \<times> bytes) list \<times> loop_state) outcome" where
  "respond_loop14 p tree common index [] st = Ok ([], st)"
| "respond_loop14 p tree common index (r # rs) st =
     and_then (respond_one14 p tree common index r st) (\<lambda>(out, st').
     and_then (respond_loop14 p tree common (Suc index) rs st') (\<lambda>(outs, st'').
     Ok (out # outs, st'')))"

definition process_responses_draft14 ::
  "profile \<Rightarrow> ed25519 \<Rightarrow> u64 option \<Rightarrow> merkle_root \<Rightarrow> ('b, 'addr) response_handler \<Rightarrow>
     (backend_error, ('addr \<times> bytes) list \<times> ('b, 'addr) response_handler) outcome" where
  "process_responses_draft14 p E sys root h =
     (case rh_online_key h of
        Draft08Key _ \<Rightarrow> Panic
      | Draft14Key key \<Rightarrow>
          and_then (ok14_get_cert p key) (\<lambda>cert.
          and_then (ok14_make_srep E sys root key) (\<lambda>((srep, sg), key').
          let common = resp_set_sig sg (resp_set_srep srep (resp_set_cert cert resp_default)) in
          and_then (respond_loop14 p (rh_merkle_tree h) common 0 (rh_requests h)
                     (rh_merkle_path h, rh_response_buf h, rh_metrics h)) (\<lambda>(outs, (mp, buf, m)).
          Ok (outs, h\<lparr>rh_online_key := Draft14Key key', rh_merkle_path := mp, rh_response_buf := buf,
                      rh_metrics := m\<rparr>)))))"

definition respond_one08 ::
  "profile \<Rightarrow> merkle_tree \<Rightarrow> response_draft08 \<Rightarrow> nat \<Rightarrow> 'addr pending_request \<Rightarrow> loop_state \<Rightarrow>
     (backend_error, ('addr \<times> bytes) \<times> loop_state) outcome" where
  "respond_one08 p tree response_common index pending st =
     (case st of (mp0, buf, m) \<Rightarrow>
     and_then (get_paths_to p tree index (path_clear mp0)) (\<lambda>mp.
     let resp = resp08_set_indx (of_nat index) (resp08_copy_path mp response_common) in
     and_then (expect (to_frame resp08_wire_size resp08_to_wire resp (cursor_new buf))) (\<lambda>(_, cursor).
     let buf' = cur_data cursor; n = frame_size resp08_wire_size resp in
     and_then (slice_of buf' 0 n) (\<lambda>frame.
     Ok ((pr_src_addr pending, frame), (mp, buf', add_bytes_sent n m))))))"

fun respond_loop08 ::
  "profile \<Rightarrow> merkle_tree \<Rightarrow> response_draft08 \<Rightarrow> nat \<Rightarrow> 'addr pending_request list \<Rightarrow> loop_state \<Rightarrow>
     (backend_error, ('addr \<times> bytes) list \<times> loop_state) outcome" where
  "respond_loop08 p tree common index [] st = Ok ([], st)"
| "respond_loop08 p tree common index (r # rs) st =
     and_then (respond_one08 p tree common index r st) (\<lambda>(out, st').
     and_then (respond_loop08 p tree common (Suc index) rs st') (\<lambda>(outs, st'').
     Ok (out # outs, st'')))"

definition process_responses_draft08 ::
  "profile \<Rightarrow> ed25519 \<Rightarrow> u64 option \<Rightarrow> merkle_root \<Rightarrow> ('b, 'addr) response_handler \<Rightarrow>
     (backend_error, ('addr \<times> bytes) list \<times> ('b, 'addr) response_handler) outcome" where
  "process_responses_draft08 p E sys root h =
     (case rh_online_key h of
        Draft14Key _ \<Rightarrow> Panic
      | Draft08Key key \<Rightarrow>
          and_then (ok08_get_cert p key) (\<lambda>cert.
          and_then (ok08_make_srep E sys root key) (\<lambda>((srep, sg), key').
          let common = resp08_set_sig sg (resp08_set_srep srep (resp08_set_cert cert resp08_default)) in
          and_then (respond_loop08 p (rh_merkle_tree h) common 0 (rh_requests h)
                     (rh_merkle_path h, rh_response_buf h, rh_metrics h)) (\<lambda>(outs, (mp, buf, m)).
          Ok (outs, h\<lparr>rh_online_key := Draft08Key key', rh_merkle_path := mp, rh_response_buf := buf,
                      rh_metrics := m\<rparr>)))))"

text \<open>\<open>self.requests.len() as u8\<close> truncates; the batch size is itself a \<open>u8\<close>.\<close>

definition process_responses ::
  "profile \<Rightarrow> ed25519 \<Rightarrow> hash_fn \<Rightarrow> u64 option \<Rightarrow> ('b, 'addr) response_handler \<Rightarrow>
     (backend_error, ('addr \<times> bytes) list \<times> ('b, 'addr) response_handler) outcome" where
  "process_responses p E H sys h =
     (if rh_requests h = [] then Ok ([], h)
      else
      and_then (add_batch_size p (of_nat (length (rh_requests h))) (rh_metrics h)) (\<lambda>m.
      and_then (compute_root H (rh_merkle_tree h)) (\<lambda>(root, tree).
      let h' = h\<lparr>rh_metrics := m, rh_merkle_tree := tree\<rparr> in
      case rh_protocol_version h of
        RfcDraft08 \<Rightarrow> process_responses_draft08 p E sys root h'
      | RfcDraft14 \<Rightarrow> process_responses_draft14 p E sys root h')))"

definition response_handler_clear :: "('b, 'addr) response_handler \<Rightarrow> ('b, 'addr) response_handler" where
  "response_handler_clear h = h\<lparr>rh_merkle_tree := tree_clear (rh_merkle_tree h), rh_requests := []\<rparr>"

definition online_public_key :: "ed25519 \<Rightarrow> ('b, 'addr) response_handler \<Rightarrow> (backend_error, public_key) outcome" where
  "online_public_key E h =
     (case rh_online_key h of
        Draft14Key k \<Rightarrow> signer_public_key E (ok14_secret k)
      | Draft08Key k \<Rightarrow> signer_public_key E (ok08_secret k))"

definition response_handler_reset_metrics :: "('b, 'addr) response_handler \<Rightarrow> ('b, 'addr) response_handler" where
  "response_handler_reset_metrics h = h\<lparr>rh_metrics := response_metrics_reset (rh_metrics h)\<rparr>"

section \<open>Requests\<close>

record ('b, 'addr) request_handler =
  qh_responder :: "('b, 'addr) response_handler"
  qh_metrics :: request_metrics

definition request_handler_new :: "('b, 'addr) response_handler \<Rightarrow> ('b, 'addr) request_handler" where
  "request_handler_new h = \<lparr>qh_responder = h, qh_metrics = request_metrics_default\<rparr>"

definition collect_request ::
  "profile \<Rightarrow> hash_fn \<Rightarrow> bytes \<Rightarrow> 'addr \<Rightarrow> ('b, 'addr) request_handler \<Rightarrow>
     (backend_error, ('b, 'addr) request_handler) outcome" where
  "collect_request p H request_bytes src q =
     (let m = qh_metrics q in
      if length request_bytes < REQUEST_SIZE
      then Ok (q\<lparr>qh_metrics := m\<lparr>num_runt_requests := num_runt_requests m + 1\<rparr>\<rparr>)
      else if length request_bytes > REQUEST_SIZE
      then Ok (q\<lparr>qh_metrics := m\<lparr>num_jumbo_requests := num_jumbo_requests m + 1\<rparr>\<rparr>)
      else case parse (from_frame (request_from_wire p)) request_bytes of
             Ok req \<Rightarrow>
               and_then (add_request p H request_bytes req src (qh_responder q)) (\<lambda>h.
               Ok (q\<lparr>qh_responder := h, qh_metrics := m\<lparr>num_ok_requests := num_ok_requests m + 1\<rparr>\<rparr>))
           | Err _ \<Rightarrow> Ok (q\<lparr>qh_metrics := m\<lparr>num_bad_requests := num_bad_requests m + 1\<rparr>\<rparr>)
           | Panic \<Rightarrow> Panic)"

definition generate_responses ::
  "profile \<Rightarrow> ed25519 \<Rightarrow> hash_fn \<Rightarrow> u64 option \<Rightarrow> ('b, 'addr) request_handler \<Rightarrow>
     (backend_error, ('addr \<times> bytes) list \<times> ('b, 'addr) request_handler) outcome" where
  "generate_responses p E H sys q =
     and_then (process_responses p E H sys (qh_responder q)) (\<lambda>(outs, h).
     Ok (outs, q\<lparr>qh_responder := response_handler_clear h\<rparr>))"

definition request_handler_replace_key ::
  "ed25519 \<Rightarrow> 'b seed_backend_ops \<Rightarrow> u64 option \<Rightarrow> bytes \<Rightarrow> ('b, 'addr) request_handler \<Rightarrow>
     (backend_error, ('b, 'addr) request_handler) outcome" where
  "request_handler_replace_key E ops sys secret q =
     and_then (replace_online_key E ops sys secret (qh_responder q)) (\<lambda>h. Ok (q\<lparr>qh_responder := h\<rparr>))"

definition request_handler_reset_metrics :: "('b, 'addr) request_handler \<Rightarrow> ('b, 'addr) request_handler" where
  "request_handler_reset_metrics q =
     q\<lparr>qh_metrics := request_metrics_default,
       qh_responder := response_handler_reset_metrics (qh_responder q)\<rparr>"

section \<open>Network\<close>

record network_handler =
  nh_batch_size :: nat
  nh_metrics :: network_metrics

datatype collect_result = Empty | MoreData

definition RECV_BUFFER_SIZE :: nat where
  "RECV_BUFFER_SIZE = 1024"

definition network_handler_new :: "nat \<Rightarrow> network_handler" where
  "network_handler_new batch_size = \<lparr>nh_batch_size = batch_size, nh_metrics = network_metrics_default\<rparr>"

text \<open>What \<open>recv_from\<close> can return. The receive buffer has \<open>RECV_BUFFER_SIZE\<close> bytes; the rest of
  a longer datagram is discarded by the socket.\<close>

datatype 'addr recv_result = Datagram bytes 'addr | WouldBlock | RecvFailed

text \<open>One call of \<open>collect_requests\<close>: at most \<open>n\<close> receive calls, whose results are the head of the
  list; a list that runs out stands for a socket with nothing more to read. Returned are the datagrams
  passed to the callback, the result and the unread rest of the list.\<close>

fun collect_loop ::
  "nat \<Rightarrow> 'addr recv_result list \<Rightarrow> network_metrics \<Rightarrow>
     (bytes \<times> 'addr) list \<times> collect_result \<times> network_metrics \<times> 'addr recv_result list" where
  "collect_loop 0 rs m = ([], MoreData, m, rs)"
| "collect_loop (Suc n) [] m = ([], Empty, m\<lparr>num_recv_wouldblock := num_recv_wouldblock m + 1\<rparr>, [])"
| "collect_loop (Suc n) (WouldBlock # rs) m =
     ([], Empty, m\<lparr>num_recv_wouldblock := num_recv_wouldblock m + 1\<rparr>, rs)"
| "collect_loop (Suc n) (RecvFailed # rs) m =
     ([], MoreData, m\<lparr>num_failed_recvs := num_failed_recvs m + 1\<rparr>, rs)"
| "collect_loop (Suc n) (Datagram bs src # rs) m =
     (case collect_loop n rs m of (ds, res, m', rs') \<Rightarrow> ((take RECV_BUFFER_SIZE bs, src) # ds, res, m', rs'))"

definition collect_requests ::
  "network_handler \<Rightarrow> 'addr recv_result list \<Rightarrow>
     (bytes \<times> 'addr) list \<times> collect_result \<times> network_handler \<times> 'addr recv_result list" where
  "collect_requests h rs =
     (case collect_loop (nh_batch_size h) rs (nh_metrics h) of
        (ds, res, m, rs') \<Rightarrow> (ds, res, h\<lparr>nh_metrics := m\<rparr>, rs'))"

definition send_response :: "bool \<Rightarrow> network_handler \<Rightarrow> network_handler" where
  "send_response sent_ok h =
     (let m = nh_metrics h in
      if sent_ok then h\<lparr>nh_metrics := m\<lparr>num_successful_sends := num_successful_sends m + 1\<rparr>\<rparr>
      else h\<lparr>nh_metrics := m\<lparr>num_failed_sends := num_failed_sends m + 1\<rparr>\<rparr>)"

definition network_reset_metrics :: "network_handler \<Rightarrow> network_handler" where
  "network_reset_metrics h = h\<lparr>nh_metrics := network_metrics_default\<rparr>"

definition record_failed_poll :: "network_handler \<Rightarrow> network_handler" where
  "record_failed_poll h =
     h\<lparr>nh_metrics := (nh_metrics h)\<lparr>num_failed_polls := num_failed_polls (nh_metrics h) + 1\<rparr>\<rparr>"

text \<open>The callback of the worker's \<open>collect_requests\<close>: every datagram goes to the request handler.\<close>

fun collect_all ::
  "profile \<Rightarrow> hash_fn \<Rightarrow> (bytes \<times> 'addr) list \<Rightarrow> ('b, 'addr) request_handler \<Rightarrow>
     (backend_error, ('b, 'addr) request_handler) outcome" where
  "collect_all p H [] q = Ok q"
| "collect_all p H ((bs, src) # ds) q = and_then (collect_request p H bs src q) (collect_all p H ds)"

section \<open>One batch of responses\<close>

text \<open>What the tree promises the response loop: a short path that verifies for each index.\<close>

definition tree_serves :: "profile \<Rightarrow> hash_fn \<Rightarrow> merkle_tree \<Rightarrow> bytes list \<Rightarrow> hash \<Rightarrow> bool" where
  "tree_serves p H tree leaves root \<longleftrightarrow>
     (\<forall>i mp. i < length leaves \<longrightarrow> path_ok mp \<longrightarrow> path_is_empty mp \<longrightarrow>
        (\<exists>mp'. get_paths_to p tree i mp = (Ok mp' :: (backend_error, merkle_path) outcome) \<and> path_ok mp' \<and>
           mp_num_paths mp' \<le> 6 \<and> root_from_paths H i (leaves ! i) mp' = root))"

lemma tree_serves_batch:
  assumes "tree_ok t" "tree_leaves t = map (hash_leaf H) ds" "ds \<noteq> []" "length ds \<le> 64" "sha512_ok H"
  shows "\<exists>t'. compute_root H t = (Ok (merkle_root_spec H (map (hash_leaf H) ds), t') :: (backend_error, _) outcome) \<and>
           tree_ok t' \<and> tree_serves p H t' ds (merkle_root_spec H (map (hash_leaf H) ds))"
proof -
  have n: "length ds \<le> 2 ^ 32" using assms(4) by simp
  obtain t' where t': "compute_root H t = (Ok (merkle_root_spec H (map (hash_leaf H) ds), t') :: (backend_error, _) outcome)"
    "tree_ok t'"
    "\<And>i mp. i < length ds \<Longrightarrow> path_ok mp \<Longrightarrow> path_is_empty mp \<Longrightarrow>
       \<exists>mp'. (get_paths_to p t' i mp :: (backend_error, merkle_path) outcome) = Ok mp' \<and> path_ok mp' \<and>
         mp_num_paths mp' = length (merkle_proof_spec H i (map (hash_leaf H) ds)) \<and>
         root_from_paths H i (ds ! i) mp' = merkle_root_spec H (map (hash_leaf H) ds)"
    using tree_batch [OF assms(1-3) n assms(5), where p = p and 'e = backend_error] by metis
  have "length (merkle_proof_spec H i (map (hash_leaf H) ds)) \<le> 6" for i
    using proof_length_bound [of "map (hash_leaf H) ds" 6 H i] assms(4) by simp
  with t' show ?thesis unfolding tree_serves_def by metis
qed

text \<open>The response at position \<open>i\<close> of a draft-14 batch, and of a draft-08 batch.\<close>

definition response14_at ::
  "hash_fn \<Rightarrow> hash \<Rightarrow> response \<Rightarrow> nat \<Rightarrow> bytes \<Rightarrow> 'addr pending_request \<Rightarrow> 'addr \<times> bytes \<Rightarrow> bool" where
  "response14_at H root common i leaf pending out \<longleftrightarrow>
     (\<exists>resp. out = (pr_src_addr pending, frame_enc (resp_enc resp)) \<and> resp_ok resp \<and>
        resp_signature resp = resp_signature common \<and> resp_srep resp = resp_srep common \<and>
        resp_cert resp = resp_cert common \<and> resp_nonce resp = request_nonc (pr_request pending) \<and>
        resp_index resp = of_nat i \<and> mp_num_paths (resp_path resp) \<le> 6 \<and>
        root_from_paths H i leaf (resp_path resp) = root)"

definition response08_at ::
  "hash_fn \<Rightarrow> hash \<Rightarrow> response_draft08 \<Rightarrow> nat \<Rightarrow> bytes \<Rightarrow> 'addr pending_request \<Rightarrow> 'addr \<times> bytes \<Rightarrow> bool" where
  "response08_at H root common i leaf pending out \<longleftrightarrow>
     (\<exists>resp. out = (pr_src_addr pending, frame_enc (resp08_enc resp)) \<and> resp08_ok resp \<and>
        resp08_signature resp = resp08_signature common \<and> resp08_srep resp = resp08_srep common \<and>
        resp08_cert resp = resp08_cert common \<and>
        resp08_index resp = of_nat i \<and> mp_num_paths (resp08_path resp) \<le> 6 \<and>
        root_from_paths H i leaf (resp08_path resp) = root)"

lemma resp_copy_path_fields:
  assumes "resp_ok r" "path_ok mp"
  shows "resp_signature (resp_copy_path mp r) = resp_signature r" "resp_srep (resp_copy_path mp r) = resp_srep r"
    "resp_cert (resp_copy_path mp r) = resp_cert r" "paths (resp_path (resp_copy_path mp r)) = paths mp"
    "mp_num_paths (resp_path (resp_copy_path mp r)) = mp_num_paths mp"
proof -
  have "resp_frame_header_ok (r\<lparr>resp_path := path_copy_from mp (resp_path r)\<rparr>)"
    using resp_ok_frame_header [OF assms(1)] by (simp add: resp_frame_header_ok_def)
  moreover have "paths (path_copy_from mp (resp_path r)) = paths mp"
    using assms by (intro paths_ops(3)) (auto simp: resp_ok_def resp_fields_ok_def)
  ultimately show "resp_signature (resp_copy_path mp r) = resp_signature r" "resp_srep (resp_copy_path mp r) = resp_srep r"
    "resp_cert (resp_copy_path mp r) = resp_cert r" "paths (resp_path (resp_copy_path mp r)) = paths mp"
    "mp_num_paths (resp_path (resp_copy_path mp r)) = mp_num_paths mp"
    by (simp_all add: resp_copy_path_def update_offsets_header) (simp add: path_copy_from_def Let_def)
qed

lemma resp08_copy_path_ok:
  assumes "resp08_ok r" "path_ok mp"
  shows "resp08_ok (resp08_copy_path mp r)" "resp08_signature (resp08_copy_path mp r) = resp08_signature r"
    "resp08_srep (resp08_copy_path mp r) = resp08_srep r" "resp08_cert (resp08_copy_path mp r) = resp08_cert r"
    "paths (resp08_path (resp08_copy_path mp r)) = paths mp"
    "mp_num_paths (resp08_path (resp08_copy_path mp r)) = mp_num_paths mp"
proof -
  have "resp08_frame_header_ok (r\<lparr>resp08_path := path_copy_from mp (resp08_path r)\<rparr>)"
    using resp08_ok_frame_header [OF assms(1)] by (simp add: resp08_frame_header_ok_def)
  moreover have "path_ok (resp08_path r)" using assms by (auto simp: resp08_ok_def resp08_fields_ok_def)
  moreover from this have "paths (path_copy_from mp (resp08_path r)) = paths mp"
    "path_ok (path_copy_from mp (resp08_path r))"
    using assms(2) by (auto intro: paths_ops path_ok_ops)
  ultimately show "resp08_ok (resp08_copy_path mp r)" "resp08_signature (resp08_copy_path mp r) = resp08_signature r"
    "resp08_srep (resp08_copy_path mp r) = resp08_srep r" "resp08_cert (resp08_copy_path mp r) = resp08_cert r"
    "paths (resp08_path (resp08_copy_path mp r)) = paths mp"
    "mp_num_paths (resp08_path (resp08_copy_path mp r)) = mp_num_paths mp"
    using assms(1)
    by (simp_all add: resp08_copy_path_def update_offsets08_header resp08_ok_def resp08_fields_ok_def)
      (simp add: path_copy_from_def Let_def)
qed

lemma path_clear_empty: "path_is_empty (path_clear mp)"
  by (simp add: path_is_empty_def path_clear_def)

lemma frame_into_buf:
  assumes "to_frame ws tw m (cursor_new buf) = Ok ((), cursor_at (frame_enc bs) (drop (frame_size ws m) buf))"
    "length (frame_enc bs) = frame_size ws m" "frame_size ws m \<le> length buf"
  shows "length (frame_enc bs @ drop (frame_size ws m) buf) = length buf"
    "slice_of (frame_enc bs @ drop (frame_size ws m) buf) 0 (frame_size ws m)
       = (Ok (frame_enc bs) :: (backend_error, bytes) outcome)"
  using assms by (simp_all add: slice_of_def)

lemma respond_one14_ok:
  assumes c: "resp_ok common" "length (srep_supported_versions (resp_srep common)) = 1"
    and t: "tree_serves p H tree leaves root" "i < length leaves"
    and r: "length (request_nonc (pr_request r)) = 32" and st: "path_ok mp0" "length buf = 1024"
  shows "\<exists>out mp buf' n. respond_one14 p tree common i r (mp0, buf, m) = Ok (out, (mp, buf', add_bytes_sent n m)) \<and>
           response14_at H root common i (leaves ! i) r out \<and> path_ok mp \<and> length buf' = 1024"
proof -
  obtain mp where mp: "get_paths_to p tree i (path_clear mp0) = (Ok mp :: (backend_error, merkle_path) outcome)"
    "path_ok mp" "mp_num_paths mp \<le> 6" "root_from_paths H i (leaves ! i) mp = root"
    using t path_ok_ops(2) [OF st(1)] path_clear_empty unfolding tree_serves_def by metis
  define resp where "resp = resp_set_indx (of_nat i) (resp_set_nonc (request_nonc (pr_request r)) (resp_copy_path mp common))"
  note f = resp_copy_path_fields [OF c(1) mp(2)]
  have ok: "resp_ok resp" unfolding resp_def by (intro resp_ok_setters resp_ok_copy_path c mp r)
  have fs: "resp_signature resp = resp_signature common" "resp_srep resp = resp_srep common" "resp_cert resp = resp_cert common"
    "resp_nonce resp = request_nonc (pr_request r)" "resp_index resp = of_nat i" "paths (resp_path resp) = paths mp"
    "mp_num_paths (resp_path resp) = mp_num_paths mp"
    using f by (simp_all add: resp_def resp_set_indx_def resp_set_nonc_def)
  have v: "srep_valid (resp_srep resp)" using ok by (simp add: resp_ok_def resp_fields_ok_def)
  have sz: "frame_size resp_wire_size resp \<le> length buf"
    using mp(3) st(2) srep_wire_size_valid [OF v] c(2) fs
    by (simp add: frame_size_def resp_wire_size_def header_wire_size_def sig_wire_size_def nonce_wire_size_def
        message_type_wire_size_def cert_wire_size_def path_wire_size_def ELEMENT_SIZE_def FRAME_OVERHEAD_def)
  note tf = resp_writer.to_frame_prefix [OF ok sz]
  have len: "length (frame_enc (resp_enc resp)) = frame_size resp_wire_size resp"
    using length_resp_enc [OF ok] by (simp add: frame_size_def)
  note fb = frame_into_buf [OF tf len sz]
  have "response14_at H root common i (leaves ! i) r (pr_src_addr r, frame_enc (resp_enc resp))"
    unfolding response14_at_def
    by (rule exI [of _ resp]) (simp add: ok fs mp(3,4) root_from_paths_cong [OF fs(6)])
  moreover have "respond_one14 p tree common i r (mp0, buf, m)
      = Ok ((pr_src_addr r, frame_enc (resp_enc resp)), (mp, frame_enc (resp_enc resp) @ drop (frame_size resp_wire_size resp) buf,
         add_bytes_sent (frame_size resp_wire_size resp) m))"
    using mp(1) tf fb(2) by (simp add: respond_one14_def Let_def flip: resp_def)
  ultimately show ?thesis using mp(2) fb(1) st(2) by metis
qed

lemma respond_loop14_ok:
  assumes c: "resp_ok common" "length (srep_supported_versions (resp_srep common)) = 1"
    and t: "tree_serves p H tree leaves root"
    and r: "\<forall>r\<in>set rs. length (request_nonc (pr_request r)) = 32" "i + length rs = length leaves"
    and st: "path_ok mp0" "length buf = 1024"
  shows "\<exists>outs mp buf' n. respond_loop14 p tree common i rs (mp0, buf, m) = Ok (outs, (mp, buf', add_bytes_sent n m)) \<and>
           length outs = length rs \<and> (\<forall>j<length rs. response14_at H root common (i + j) (leaves ! (i + j)) (rs ! j) (outs ! j)) \<and>
           path_ok mp \<and> length buf' = 1024"
  using r st
proof (induction rs arbitrary: i mp0 buf m)
  case Nil
  then show ?case by (auto simp: add_bytes_sent_def intro!: exI [of _ 0])
next
  case (Cons r rs)
  have i: "i < length leaves" using Cons.prems by simp
  obtain out mp1 buf1 n1 where 1: "respond_one14 p tree common i r (mp0, buf, m) = Ok (out, (mp1, buf1, add_bytes_sent n1 m))"
    "response14_at H root common i (leaves ! i) r out" "path_ok mp1" "length buf1 = 1024"
    using respond_one14_ok [OF c t i _ Cons.prems(3,4), of r m] Cons.prems(1) by auto
  obtain outs mp2 buf2 n2 where 2: "respond_loop14 p tree common (Suc i) rs (mp1, buf1, add_bytes_sent n1 m)
      = Ok (outs, (mp2, buf2, add_bytes_sent n2 (add_bytes_sent n1 m)))" "length outs = length rs"
    "\<forall>j<length rs. response14_at H root common (Suc i + j) (leaves ! (Suc i + j)) (rs ! j) (outs ! j)"
    "path_ok mp2" "length buf2 = 1024"
    using Cons.IH [of "Suc i" mp1 buf1 "add_bytes_sent n1 m"] Cons.prems 1(3,4) by auto
  have m: "add_bytes_sent n2 (add_bytes_sent n1 m) = add_bytes_sent (n1 + n2) m" by (simp add: add_bytes_sent_def)
  have "\<forall>j<length (r # rs). response14_at H root common (i + j) (leaves ! (i + j)) ((r # rs) ! j) ((out # outs) ! j)"
    using 1(2) 2(3) by (auto simp: nth_Cons split: nat.splits)
  then show ?case using 1(1) 2 m by (intro exI [of _ "out # outs"] exI [of _ mp2] exI [of _ buf2] exI [of _ "n1 + n2"]) simp
qed

lemma respond_one08_ok:
  assumes c: "resp08_ok common"
    and t: "tree_serves p H tree leaves root" "i < length leaves"
    and st: "path_ok mp0" "length buf = 1024"
  shows "\<exists>out mp buf' n. respond_one08 p tree common i r (mp0, buf, m) = Ok (out, (mp, buf', add_bytes_sent n m)) \<and>
           response08_at H root common i (leaves ! i) r out \<and> path_ok mp \<and> length buf' = 1024"
proof -
  obtain mp where mp: "get_paths_to p tree i (path_clear mp0) = (Ok mp :: (backend_error, merkle_path) outcome)"
    "path_ok mp" "mp_num_paths mp \<le> 6" "root_from_paths H i (leaves ! i) mp = root"
    using t path_ok_ops(2) [OF st(1)] path_clear_empty unfolding tree_serves_def by metis
  define resp where "resp = resp08_set_indx (of_nat i) (resp08_copy_path mp common)"
  note f = resp08_copy_path_ok [OF c(1) mp(2)]
  have ok: "resp08_ok resp" using f(1) by (simp add: resp_def resp08_set_indx_def resp08_ok_def resp08_fields_ok_def)
  have fs: "resp08_signature resp = resp08_signature common" "resp08_srep resp = resp08_srep common"
    "resp08_cert resp = resp08_cert common" "resp08_index resp = of_nat i" "paths (resp08_path resp) = paths mp"
    "mp_num_paths (resp08_path resp) = mp_num_paths mp"
    using f by (simp_all add: resp_def resp08_set_indx_def)
  have sz: "frame_size resp08_wire_size resp \<le> length buf"
    using mp(3) st(2) fs
    by (simp add: frame_size_def resp08_wire_size_def header_wire_size_def sig_wire_size_def srep08_wire_size
        version_wire_size_def cert_wire_size_def path_wire_size_def ELEMENT_SIZE_def FRAME_OVERHEAD_def)
  note tf = resp08_writer.to_frame_prefix [OF ok sz]
  have len: "length (frame_enc (resp08_enc resp)) = frame_size resp08_wire_size resp"
    using length_resp08_enc [OF ok] by (simp add: frame_size_def)
  note fb = frame_into_buf [OF tf len sz]
  have "response08_at H root common i (leaves ! i) r (pr_src_addr r, frame_enc (resp08_enc resp))"
    unfolding response08_at_def
    by (rule exI [of _ resp]) (simp add: ok fs mp(3,4) root_from_paths_cong [OF fs(5)])
  moreover have "respond_one08 p tree common i r (mp0, buf, m)
      = Ok ((pr_src_addr r, frame_enc (resp08_enc resp)), (mp, frame_enc (resp08_enc resp) @ drop (frame_size resp08_wire_size resp) buf,
         add_bytes_sent (frame_size resp08_wire_size resp) m))"
    using mp(1) tf fb(2) by (simp add: respond_one08_def Let_def flip: resp_def)
  ultimately show ?thesis using mp(2) fb(1) st(2) by metis
qed

lemma respond_loop08_ok:
  assumes c: "resp08_ok common" and t: "tree_serves p H tree leaves root"
    and r: "i + length rs = length leaves" and st: "path_ok mp0" "length buf = 1024"
  shows "\<exists>outs mp buf' n. respond_loop08 p tree common i rs (mp0, buf, m) = Ok (outs, (mp, buf', add_bytes_sent n m)) \<and>
           length outs = length rs \<and> (\<forall>j<length rs. response08_at H root common (i + j) (leaves ! (i + j)) (rs ! j) (outs ! j)) \<and>
           path_ok mp \<and> length buf' = 1024"
  using r st
proof (induction rs arbitrary: i mp0 buf m)
  case Nil
  then show ?case by (auto simp: add_bytes_sent_def intro!: exI [of _ 0])
next
  case (Cons r rs)
  have i: "i < length leaves" using Cons.prems by simp
  obtain out mp1 buf1 n1 where 1: "respond_one08 p tree common i r (mp0, buf, m) = Ok (out, (mp1, buf1, add_bytes_sent n1 m))"
    "response08_at H root common i (leaves ! i) r out" "path_ok mp1" "length buf1 = 1024"
    using respond_one08_ok [OF c t i Cons.prems(2,3), of r m] by auto
  obtain outs mp2 buf2 n2 where 2: "respond_loop08 p tree common (Suc i) rs (mp1, buf1, add_bytes_sent n1 m)
      = Ok (outs, (mp2, buf2, add_bytes_sent n2 (add_bytes_sent n1 m)))" "length outs = length rs"
    "\<forall>j<length rs. response08_at H root common (Suc i + j) (leaves ! (Suc i + j)) (rs ! j) (outs ! j)"
    "path_ok mp2" "length buf2 = 1024"
    using Cons.IH [of "Suc i" mp1 buf1 "add_bytes_sent n1 m"] Cons.prems 1(3,4) by auto
  have m: "add_bytes_sent n2 (add_bytes_sent n1 m) = add_bytes_sent (n1 + n2) m" by (simp add: add_bytes_sent_def)
  have "\<forall>j<length (r # rs). response08_at H root common (i + j) (leaves ! (i + j)) ((r # rs) ! j) ((out # outs) ! j)"
    using 1(2) 2(3) by (auto simp: nth_Cons split: nat.splits)
  then show ?case using 1(1) 2 m by (intro exI [of _ "out # outs"] exI [of _ mp2] exI [of _ buf2] exI [of _ "n1 + n2"]) simp
qed

section \<open>The invariant of the response handler\<close>

text \<open>A key that fits the protocol version, with a certificate of the long-term key \<open>lt_pk\<close>.\<close>

fun key_ok :: "ed25519 \<Rightarrow> public_key \<Rightarrow> protocol_version \<Rightarrow> online_key \<Rightarrow> bool" where
  "key_ok E lt_pk RfcDraft14 (Draft14Key k) \<longleftrightarrow>
     ok14_ok E RfcDraft14 lt_pk k \<and> dele_max_time (cert_delegation (ok14_cert k)) \<noteq> 0"
| "key_ok E lt_pk RfcDraft08 (Draft08Key k) \<longleftrightarrow>
     ok08_ok E lt_pk k \<and> dele_max_time (cert_delegation (ok08_cert k)) \<noteq> 0"
| "key_ok E lt_pk _ _ \<longleftrightarrow> False"

fun key_clock :: "online_key \<Rightarrow> clock_source" where
  "key_clock (Draft14Key k) = ok14_clock k"
| "key_clock (Draft08Key k) = ok08_clock k"

fun key_cert :: "online_key \<Rightarrow> certificate" where
  "key_cert (Draft14Key k) = ok14_cert k"
| "key_cert (Draft08Key k) = ok08_cert k"

text \<open>\<open>leaves\<close> are the data pushed into the tree since the last clear, one for each pending request.\<close>

definition rh_inv :: "ed25519 \<Rightarrow> hash_fn \<Rightarrow> public_key \<Rightarrow> bytes list \<Rightarrow> ('b, 'addr) response_handler \<Rightarrow> bool" where
  "rh_inv E H lt_pk leaves h \<longleftrightarrow>
     tree_ok (rh_merkle_tree h) \<and> tree_leaves (rh_merkle_tree h) = map (hash_leaf H) leaves \<and>
     length leaves = length (rh_requests h) \<and>
     (\<forall>r\<in>set (rh_requests h). length (request_nonc (pr_request r)) = 32) \<and>
     path_ok (rh_merkle_path h) \<and> length (rh_response_buf h) = 1024 \<and> metrics_ok (rh_metrics h) \<and>
     key_ok E lt_pk (rh_protocol_version h) (rh_online_key h) \<and> rh_batch_size h \<le> 64"

lemma cert_not_default: "dele_max_time (cert_delegation c) \<noteq> 0 \<Longrightarrow> c \<noteq> cert_default"
  by (auto simp: cert_default_def dele_default_def)

lemma rh_inv_after:
  assumes "rh_inv E H lt_pk leaves h" "tree_ok t" "path_ok mp" "length buf = 1024" "metrics_ok m"
    "key_ok E lt_pk (rh_protocol_version h) k"
  shows "rh_inv E H lt_pk [] (response_handler_clear (h\<lparr>rh_metrics := m, rh_merkle_tree := t,
           rh_online_key := k, rh_merkle_path := mp, rh_response_buf := buf\<rparr>))"
  using assms by (simp add: rh_inv_def response_handler_clear_def)

lemma metrics_ok_bytes: "metrics_ok m \<Longrightarrow> metrics_ok (add_bytes_sent n m)"
  by (simp add: metrics_ok_def add_bytes_sent_def)

lemma process_responses14:
  assumes E: "ed25519_ok E" and H: "sha512_ok H" and i: "rh_inv E H lt_pk leaves h"
    and v: "rh_protocol_version h = RfcDraft14" and k: "rh_online_key h = Draft14Key k"
    and n: "rh_requests h \<noteq> []" "length (rh_requests h) \<le> 64" "count_room p (length (rh_requests h)) (rh_metrics h)"
    and now: "epoch_seconds sys (ok14_clock k) = (Ok now :: (backend_error, u64) outcome)"
  shows "\<exists>outs h' common. let root = merkle_root_spec H (map (hash_leaf H) leaves);
             srep = srep_make RfcDraft14 DEFAULT_RADI_SECONDS now [RfcDraft14] root in
           process_responses p E H sys h = Ok (outs, h') \<and>
           length outs = length (rh_requests h) \<and> length root = 32 \<and>
           (\<forall>j<length outs. response14_at H root common j (leaves ! j) (rh_requests h ! j) (outs ! j)) \<and>
           resp_cert common = ok14_cert k \<and> resp_srep common = srep \<and>
           resp_signature common = ed_sign E (ok14_secret k) (srep_prefix RfcDraft14 @ srep_enc srep) \<and>
           rh_inv E H lt_pk [] (response_handler_clear h')"
proof -
  let ?n = "length (rh_requests h)" and ?root = "merkle_root_spec H (map (hash_leaf H) leaves)"
  let ?srep = "srep_make RfcDraft14 DEFAULT_RADI_SECONDS now [RfcDraft14] ?root"
  let ?sg = "ed_sign E (ok14_secret k) (srep_prefix RfcDraft14 @ srep_enc ?srep)"
  have inv: "tree_ok (rh_merkle_tree h)" "tree_leaves (rh_merkle_tree h) = map (hash_leaf H) leaves"
    "length leaves = ?n" "\<forall>r\<in>set (rh_requests h). length (request_nonc (pr_request r)) = 32"
    "path_ok (rh_merkle_path h)" "length (rh_response_buf h) = 1024" "metrics_ok (rh_metrics h)"
    "ok14_ok E RfcDraft14 lt_pk k" "dele_max_time (cert_delegation (ok14_cert k)) \<noteq> 0"
    using i v k by (auto simp: rh_inv_def)
  have ne: "leaves \<noteq> []" "length leaves \<le> 64" using n inv(3) by auto
  obtain t where t: "compute_root H (rh_merkle_tree h) = (Ok (?root, t) :: (backend_error, _) outcome)" "tree_ok t"
    "tree_serves p H t leaves ?root" using tree_serves_batch [OF inv(1,2) ne H] by blast
  have rl: "length ?root = 32" using hashes_ok_root [OF H hashes_ok_leaves [OF H]] ne by simp
  obtain k' where k': "ok14_make_srep E sys ?root k = (Ok ((?srep, ?sg), k') :: (backend_error, _) outcome)"
    "ok14_ok E RfcDraft14 lt_pk k'" "ok14_cert k' = ok14_cert k"
    using ok14_make_srep_ok [OF E inv(8) rl now] by blast
  have cv: "cert_valid (ok14_cert k)" using inv(8) by (simp add: ok14_ok_def cert_delegates_def)
  have sv: "srep_valid ?srep" using rl by (intro srep_make_valid version_list_single) simp_all
  define common where "common = resp_set_sig ?sg (resp_set_srep ?srep (resp_set_cert (ok14_cert k) resp_default))"
  have sl: "length ?sg = 64" using E by (rule ed25519_lengths)
  note com = common14_ok [OF cv sv sl, folded common_def]
  obtain m where m: "add_batch_size p (of_nat ?n) (rh_metrics h) = (Ok m :: (backend_error, _) outcome)" "metrics_ok m"
    using add_batch_size_ok [OF inv(7) _ n(2,3), where 'e = backend_error] n(1) inv(7) by (simp add: metrics_ok_def)
  obtain outs mp buf nb where l: "respond_loop14 p t common 0 (rh_requests h) (rh_merkle_path h, rh_response_buf h, m)
      = Ok (outs, (mp, buf, add_bytes_sent nb m))" "length outs = ?n"
      "\<forall>j<?n. response14_at H ?root common (0 + j) (leaves ! (0 + j)) (rh_requests h ! j) (outs ! j)"
      "path_ok mp" "length buf = 1024"
    using respond_loop14_ok [OF com(1) _ t(3) inv(4) _ inv(5,6), where i = 0 and m = m] inv(3) by (auto simp: com(3))
  let ?h = "h\<lparr>rh_metrics := add_bytes_sent nb m, rh_merkle_tree := t, rh_online_key := Draft14Key k',
             rh_merkle_path := mp, rh_response_buf := buf\<rparr>"
  have "process_responses p E H sys h = Ok (outs, ?h)"
    using n(1) m(1) t(1) v k k'(1) l(1) cert_not_default [OF inv(9)]
    by (simp add: process_responses_def process_responses_draft14_def ok14_get_cert_def Let_def flip: common_def)
  moreover have "rh_inv E H lt_pk [] (response_handler_clear ?h)"
    using i t(2) l(4,5) metrics_ok_bytes [OF m(2)] v k'(2,3) inv(9) by (intro rh_inv_after) simp_all
  ultimately show ?thesis using com(2-4) l(2,3) rl unfolding Let_def by (intro exI conjI) auto
qed

lemma process_responses08:
  assumes E: "ed25519_ok E" and H: "sha512_ok H" and i: "rh_inv E H lt_pk leaves h"
    and v: "rh_protocol_version h = RfcDraft08" and k: "rh_online_key h = Draft08Key k"
    and n: "rh_requests h \<noteq> []" "length (rh_requests h) \<le> 64" "count_room p (length (rh_requests h)) (rh_metrics h)"
    and now: "epoch_seconds sys (ok08_clock k) = (Ok now :: (backend_error, u64) outcome)"
  shows "\<exists>outs h' common. let root = merkle_root_spec H (map (hash_leaf H) leaves);
             srep = srep08_make DEFAULT_RADI_SECONDS now root in
           process_responses p E H sys h = Ok (outs, h') \<and>
           length outs = length (rh_requests h) \<and> length root = 32 \<and>
           (\<forall>j<length outs. response08_at H root common j (leaves ! j) (rh_requests h ! j) (outs ! j)) \<and>
           resp08_cert common = ok08_cert k \<and> resp08_srep common = srep \<and>
           resp08_signature common = ed_sign E (ok08_secret k) (srep_prefix RfcDraft08 @ srep08_enc srep) \<and>
           rh_inv E H lt_pk [] (response_handler_clear h')"
proof -
  let ?n = "length (rh_requests h)" and ?root = "merkle_root_spec H (map (hash_leaf H) leaves)"
  let ?srep = "srep08_make DEFAULT_RADI_SECONDS now ?root"
  let ?sg = "ed_sign E (ok08_secret k) (srep_prefix RfcDraft08 @ srep08_enc ?srep)"
  have inv: "tree_ok (rh_merkle_tree h)" "tree_leaves (rh_merkle_tree h) = map (hash_leaf H) leaves"
    "length leaves = ?n"
    "path_ok (rh_merkle_path h)" "length (rh_response_buf h) = 1024" "metrics_ok (rh_metrics h)"
    "ok08_ok E lt_pk k" "dele_max_time (cert_delegation (ok08_cert k)) \<noteq> 0"
    using i v k by (auto simp: rh_inv_def)
  have ne: "leaves \<noteq> []" "length leaves \<le> 64" using n inv(3) by auto
  obtain t where t: "compute_root H (rh_merkle_tree h) = (Ok (?root, t) :: (backend_error, _) outcome)" "tree_ok t"
    "tree_serves p H t leaves ?root" using tree_serves_batch [OF inv(1,2) ne H] by blast
  have rl: "length ?root = 32" using hashes_ok_root [OF H hashes_ok_leaves [OF H]] ne by simp
  obtain k' where k': "ok08_make_srep E sys ?root k = (Ok ((?srep, ?sg), k') :: (backend_error, _) outcome)"
    "ok08_ok E lt_pk k'" "ok08_cert k' = ok08_cert k"
    using ok08_make_srep_ok [OF E inv(7) rl now] by blast
  have cv: "cert_valid (ok08_cert k)" using inv(7) by (simp add: ok08_ok_def cert_delegates_def)
  define common where "common = resp08_set_sig ?sg (resp08_set_srep ?srep (resp08_set_cert (ok08_cert k) resp08_default))"
  have sv: "srep08_valid ?srep" using rl by (rule srep08_make_valid)
  have sl: "length ?sg = 64" using E by (rule ed25519_lengths)
  note com = common08_ok [OF cv sv sl, folded common_def]
  obtain m where m: "add_batch_size p (of_nat ?n) (rh_metrics h) = (Ok m :: (backend_error, _) outcome)" "metrics_ok m"
    using add_batch_size_ok [OF inv(6) _ n(2,3), where 'e = backend_error] n(1) inv(6) by (simp add: metrics_ok_def)
  obtain outs mp buf nb where l: "respond_loop08 p t common 0 (rh_requests h) (rh_merkle_path h, rh_response_buf h, m)
      = Ok (outs, (mp, buf, add_bytes_sent nb m))" "length outs = ?n"
      "\<forall>j<?n. response08_at H ?root common (0 + j) (leaves ! (0 + j)) (rh_requests h ! j) (outs ! j)"
      "path_ok mp" "length buf = 1024"
    using respond_loop08_ok [OF com(1) t(3) _ inv(4,5), where i = 0 and rs = "rh_requests h" and m = m] inv(3) by auto
  let ?h = "h\<lparr>rh_metrics := add_bytes_sent nb m, rh_merkle_tree := t, rh_online_key := Draft08Key k',
             rh_merkle_path := mp, rh_response_buf := buf\<rparr>"
  have "process_responses p E H sys h = Ok (outs, ?h)"
    using n(1) m(1) t(1) v k k'(1) l(1) cert_not_default [OF inv(8)]
    by (simp add: process_responses_def process_responses_draft08_def ok08_get_cert_def Let_def flip: common_def)
  moreover have "rh_inv E H lt_pk [] (response_handler_clear ?h)"
    using i t(2) l(4,5) metrics_ok_bytes [OF m(2)] v k'(2,3) inv(8) by (intro rh_inv_after) simp_all
  ultimately show ?thesis using com(2-4) l(2,3) rl unfolding Let_def by (intro exI conjI) auto
qed

section \<open>Collecting a batch\<close>

text \<open>The datagrams of a list that are valid requests, in order.\<close>

fun accepted :: "profile \<Rightarrow> (bytes \<times> 'addr) list \<Rightarrow> (bytes \<times> request \<times> 'addr) list" where
  "accepted p [] = []"
| "accepted p ((bs, src) # ds) =
     (if length bs = REQUEST_SIZE
      then case parse (from_frame (request_from_wire p)) bs of
             Ok r \<Rightarrow> (bs, r, src) # accepted p ds
           | _ \<Rightarrow> accepted p ds
      else accepted p ds)"

definition leaf_of :: "protocol_version \<Rightarrow> bytes \<times> request \<times> 'addr \<Rightarrow> bytes" where
  "leaf_of v x = merkle_leaf v (fst x) (fst (snd x))"

definition pending_of :: "bytes \<times> request \<times> 'addr \<Rightarrow> 'addr pending_request" where
  "pending_of x = \<lparr>pr_request = fst (snd x), pr_src_addr = snd (snd x)\<rparr>"

definition total_requests :: "request_metrics \<Rightarrow> nat" where
  "total_requests m = num_ok_requests m + num_bad_requests m + num_runt_requests m + num_jumbo_requests m"

lemma add_request_ok:
  assumes "rh_inv E H lt_pk leaves h" "length (rh_requests h) < rh_batch_size h" "length (request_nonc r) = 32"
  shows "\<exists>h'. add_request p H bs r src h = Ok h' \<and>
           rh_inv E H lt_pk (leaves @ [merkle_leaf (rh_protocol_version h) bs r]) h' \<and>
           rh_requests h' = rh_requests h @ [\<lparr>pr_request = r, pr_src_addr = src\<rparr>] \<and>
           rh_online_key h' = rh_online_key h \<and> rh_metrics h' = rh_metrics h \<and>
           rh_protocol_version h' = rh_protocol_version h \<and> rh_batch_size h' = rh_batch_size h"
proof -
  have ok: "tree_ok (rh_merkle_tree h)" using assms(1) by (simp add: rh_inv_def)
  from push_leaf_ok [OF ok, of H "merkle_leaf (rh_protocol_version h) bs r", where 'e = backend_error]
  obtain t where t: "push_leaf H (merkle_leaf (rh_protocol_version h) bs r) (rh_merkle_tree h) = (Ok t :: (backend_error, _) outcome)"
    "tree_ok t" "tree_leaves t = tree_leaves (rh_merkle_tree h) @ [hash_leaf H (merkle_leaf (rh_protocol_version h) bs r)]"
    by blast
  then show ?thesis using assms by (auto simp: add_request_def rh_inv_def)
qed

text \<open>A datagram that is not a valid request changes exactly one counter.\<close>

lemma collect_request_reject:
  assumes "\<not> (length bs = REQUEST_SIZE \<and> (\<exists>r. parse (from_frame (request_from_wire p)) bs = Ok r))"
  shows "\<exists>m. collect_request p H bs src q = Ok (q\<lparr>qh_metrics := m\<rparr>) \<and>
           total_requests m = total_requests (qh_metrics q) + 1 \<and> num_ok_requests m = num_ok_requests (qh_metrics q)"
proof -
  let ?m = "qh_metrics q"
  have np: "parse (from_frame (request_from_wire p)) bs \<noteq> Panic" by (intro parse_no_panic safe_intro)
  consider "length bs < REQUEST_SIZE" | "length bs > REQUEST_SIZE"
    | e where "length bs = REQUEST_SIZE" "parse (from_frame (request_from_wire p)) bs = Err e"
    using assms np linorder_less_linear [of "length bs" REQUEST_SIZE]
    by (cases "parse (from_frame (request_from_wire p)) bs") blast+
  then show ?thesis
  proof cases
    case 1 then show ?thesis
      by (intro exI [of _ "?m\<lparr>num_runt_requests := num_runt_requests ?m + 1\<rparr>"])
        (simp add: collect_request_def Let_def total_requests_def)
  next
    case 2 then show ?thesis
      by (intro exI [of _ "?m\<lparr>num_jumbo_requests := num_jumbo_requests ?m + 1\<rparr>"])
        (simp add: collect_request_def Let_def total_requests_def)
  next
    case 3 then show ?thesis
      by (intro exI [of _ "?m\<lparr>num_bad_requests := num_bad_requests ?m + 1\<rparr>"])
        (simp add: collect_request_def Let_def total_requests_def)
  qed
qed

lemma collect_all_ok:
  assumes "rh_inv E H lt_pk leaves (qh_responder q)"
    "length (rh_requests (qh_responder q)) + length ds \<le> rh_batch_size (qh_responder q)"
  shows "\<exists>q'. collect_all p H ds q = Ok q' \<and>
           rh_inv E H lt_pk (leaves @ map (leaf_of (rh_protocol_version (qh_responder q))) (accepted p ds)) (qh_responder q') \<and>
           rh_requests (qh_responder q') = rh_requests (qh_responder q) @ map pending_of (accepted p ds) \<and>
           rh_online_key (qh_responder q') = rh_online_key (qh_responder q) \<and>
           rh_metrics (qh_responder q') = rh_metrics (qh_responder q) \<and>
           rh_protocol_version (qh_responder q') = rh_protocol_version (qh_responder q) \<and>
           num_ok_requests (qh_metrics q') = num_ok_requests (qh_metrics q) + length (accepted p ds) \<and>
           total_requests (qh_metrics q') = total_requests (qh_metrics q) + length ds"
  using assms
proof (induction ds arbitrary: q leaves)
  case (Cons d ds)
  obtain bs src where d: "d = (bs, src)" by (cases d)
  let ?h = "qh_responder q"
  show ?case
  proof (cases "length bs = REQUEST_SIZE \<and> (\<exists>r. parse (from_frame (request_from_wire p)) bs = Ok r)")
    case True
    then obtain r where l: "length bs = REQUEST_SIZE" and r: "parse (from_frame (request_from_wire p)) bs = Ok r" by blast
    from add_request_ok [OF Cons.prems(1) _ request_parse_nonce [OF r], of p bs src] Cons.prems(2) obtain h' where
      h': "add_request p H bs r src ?h = Ok h'"
      "rh_inv E H lt_pk (leaves @ [merkle_leaf (rh_protocol_version ?h) bs r]) h'"
      "rh_requests h' = rh_requests ?h @ [\<lparr>pr_request = r, pr_src_addr = src\<rparr>]"
      "rh_online_key h' = rh_online_key ?h" "rh_metrics h' = rh_metrics ?h"
      "rh_protocol_version h' = rh_protocol_version ?h" "rh_batch_size h' = rh_batch_size ?h" by auto
    let ?q = "q\<lparr>qh_responder := h', qh_metrics := (qh_metrics q)\<lparr>num_ok_requests := num_ok_requests (qh_metrics q) + 1\<rparr>\<rparr>"
    have "collect_request p H bs src q = Ok ?q" using l r h'(1) by (simp add: collect_request_def Let_def)
    moreover have "rh_inv E H lt_pk (leaves @ [merkle_leaf (rh_protocol_version ?h) bs r]) (qh_responder ?q)" using h'(2) by simp
    moreover have "length (rh_requests (qh_responder ?q)) + length ds \<le> rh_batch_size (qh_responder ?q)"
      using Cons.prems(2) h'(3,7) by simp
    ultimately show ?thesis using Cons.IH [of "leaves @ [merkle_leaf (rh_protocol_version ?h) bs r]" ?q] h' l r
      by (auto simp: d leaf_of_def pending_of_def total_requests_def)
  next
    case False
    have acc: "accepted p ((bs, src) # ds) = accepted p ds" using False by (auto split: outcome.splits)
    obtain m where c: "collect_request p H bs src q = Ok (q\<lparr>qh_metrics := m\<rparr>)"
      "total_requests m = total_requests (qh_metrics q) + 1" "num_ok_requests m = num_ok_requests (qh_metrics q)"
      using collect_request_reject [OF False, of H src q] by (elim exE conjE)
    have IH: "\<exists>q'. collect_all p H ds (q\<lparr>qh_metrics := m\<rparr>) = Ok q' \<and>
           rh_inv E H lt_pk (leaves @ map (leaf_of (rh_protocol_version ?h)) (accepted p ds)) (qh_responder q') \<and>
           rh_requests (qh_responder q') = rh_requests ?h @ map pending_of (accepted p ds) \<and>
           rh_online_key (qh_responder q') = rh_online_key ?h \<and> rh_metrics (qh_responder q') = rh_metrics ?h \<and>
           rh_protocol_version (qh_responder q') = rh_protocol_version ?h \<and>
           num_ok_requests (qh_metrics q') = num_ok_requests m + length (accepted p ds) \<and>
           total_requests (qh_metrics q') = total_requests m + length ds"
      using Cons.IH [of leaves "q\<lparr>qh_metrics := m\<rparr>"] Cons.prems by simp
    then show ?thesis unfolding d acc collect_all.simps c(1) and_then.simps c(2,3) by simp
  qed
qed simp

section \<open>What a batch leaves alone\<close>

text \<open>The parts of a response handler that only a key replacement changes.\<close>

definition rh_static :: "('b, 'addr) response_handler \<Rightarrow>
    nat \<times> 'b key_source \<times> protocol_version \<times> clock_source \<times> certificate" where
  "rh_static h = (rh_batch_size h, rh_key_source h, rh_protocol_version h,
     key_clock (rh_online_key h), key_cert (rh_online_key h))"

lemma make_srep_static:
  "ok14_make_srep E sys root k = Ok (x, k') \<Longrightarrow> ok14_clock k' = ok14_clock k \<and> ok14_cert k' = ok14_cert k"
  "ok08_make_srep E sys root k2 = Ok (y, k2') \<Longrightarrow> ok08_clock k2' = ok08_clock k2 \<and> ok08_cert k2' = ok08_cert k2"
  by (auto simp: ok14_make_srep_def ok08_make_srep_def and_then_Ok_iff Let_def)

lemma process_responses_static:
  "process_responses p E H sys h = Ok (outs, h') \<Longrightarrow> rh_static h' = rh_static h"
  by (cases "rh_protocol_version h"; cases "rh_online_key h")
    (auto simp: process_responses_def process_responses_draft14_def process_responses_draft08_def rh_static_def
      and_then_Ok_iff Let_def dest: make_srep_static split: if_splits)

lemma generate_responses_static:
  "generate_responses p E H sys q = Ok (outs, q') \<Longrightarrow>
     rh_static (qh_responder q') = rh_static (qh_responder q) \<and> qh_metrics q' = qh_metrics q"
  by (auto simp: generate_responses_def and_then_Ok_iff response_handler_clear_def rh_static_def
      dest!: process_responses_static)

lemma add_request_static: "add_request p H bs r src h = Ok h' \<Longrightarrow> rh_static h' = rh_static h"
  by (auto simp: add_request_def and_then_Ok_iff rh_static_def)

lemma collect_request_static:
  "collect_request p H bs src q = Ok q' \<Longrightarrow> rh_static (qh_responder q') = rh_static (qh_responder q)"
  by (auto simp: collect_request_def and_then_Ok_iff Let_def split: if_splits outcome.splits dest: add_request_static)

lemma collect_all_static:
  "collect_all p H ds q = Ok q' \<Longrightarrow> rh_static (qh_responder q') = rh_static (qh_responder q)"
  by (induction p H ds q rule: collect_all.induct) (auto simp: and_then_Ok_iff dest: collect_request_static)

section \<open>Making and replacing keys\<close>

definition ks_inv :: "('b \<Rightarrow> bool) \<Rightarrow> ('b \<Rightarrow> public_key) \<Rightarrow> public_key \<Rightarrow> protocol_version \<Rightarrow> 'b key_source \<Rightarrow> bool" where
  "ks_inv P pk lt_pk v ks \<longleftrightarrow>
     P (id_seed (ks_identity ks)) \<and> pk (id_seed (ks_identity ks)) = lt_pk \<and>
     id_version (ks_identity ks) = v \<and> dur_secs (ks_validity_length ks) \<noteq> 0"

lemma saturating_add_commute: "saturating_add a b = saturating_add b a"
  by (simp add: saturating_add_def add.commute)

lemma dele_new_max_nonzero: "n \<noteq> 0 \<Longrightarrow> dele_max_time (dele_new pk now n) \<noteq> 0"
  using saturating_add_ge [of n now] by (auto simp: dele_new_def saturating_add_commute)

context seed_backend
begin

lemma fresh_online_key_ok:
  assumes E: "ed25519_ok E" and ks: "ks_inv inv pk lt_pk v ks"
    and now: "(epoch_seconds sys (ks_clock_source ks) :: (backend_error, u64) outcome) = Ok now"
  shows "\<exists>k ks'. fresh_online_key E ops sys secret v ks = Ok (k, ks') \<and> key_ok E lt_pk v k \<and>
           key_clock k = ks_clock_source ks \<and>
           cert_delegation (key_cert k) = dele_new (ed_public E secret) now (dur_secs (ks_validity_length ks)) \<and>
           ks_inv inv pk lt_pk v ks' \<and> ks_clock_source ks' = ks_clock_source ks \<and>
           ks_validity_length ks' = ks_validity_length ks"
proof -
  note i = ks [unfolded ks_inv_def]
  show ?thesis
  proof (cases v)
    case RfcDraft08
    with make_online_key08_ok [OF E _ now, of "ks_identity ks" secret "ks_validity_length ks"] i show ?thesis
      by (auto simp: ks_make_online_key08_def ks_inv_def dele_new_max_nonzero)
  next
    case RfcDraft14
    with make_online_key14_ok [OF E _ now, of "ks_identity ks" secret "ks_validity_length ks"] i show ?thesis
      by (auto simp: ks_make_online_key14_def ks_inv_def dele_new_max_nonzero)
  qed
qed

lemma replace_online_key_ok:
  assumes E: "ed25519_ok E" and ks: "ks_inv inv pk lt_pk (rh_protocol_version h) (rh_key_source h)"
    and now: "(epoch_seconds sys (ks_clock_source (rh_key_source h)) :: (backend_error, u64) outcome) = Ok now"
    and h: "rh_inv E H lt_pk leaves h"
  shows "\<exists>h'. replace_online_key E ops sys secret h = Ok h' \<and> rh_inv E H lt_pk leaves h' \<and>
           ks_inv inv pk lt_pk (rh_protocol_version h') (rh_key_source h') \<and>
           key_clock (rh_online_key h') = ks_clock_source (rh_key_source h) \<and>
           ks_clock_source (rh_key_source h') = ks_clock_source (rh_key_source h) \<and>
           ks_validity_length (rh_key_source h') = ks_validity_length (rh_key_source h) \<and>
           rh_batch_size h' = rh_batch_size h \<and> rh_protocol_version h' = rh_protocol_version h \<and>
           rh_requests h' = rh_requests h \<and> rh_metrics h' = rh_metrics h \<and>
           cert_delegation (key_cert (rh_online_key h'))
             = dele_new (ed_public E secret) now (dur_secs (ks_validity_length (rh_key_source h)))"
proof -
  obtain k ks' where k: "fresh_online_key E ops sys secret (rh_protocol_version h) (rh_key_source h) = Ok (k, ks')"
    "key_ok E lt_pk (rh_protocol_version h) k" "key_clock k = ks_clock_source (rh_key_source h)"
    "cert_delegation (key_cert k) = dele_new (ed_public E secret) now (dur_secs (ks_validity_length (rh_key_source h)))"
    "ks_inv inv pk lt_pk (rh_protocol_version h) ks'" "ks_clock_source ks' = ks_clock_source (rh_key_source h)"
    "ks_validity_length ks' = ks_validity_length (rh_key_source h)"
    using fresh_online_key_ok [OF E ks now, of secret] by (elim exE conjE)
  then show ?thesis using h by (simp add: replace_online_key_def rh_inv_def)
qed

lemma response_handler_new_ok:
  assumes E: "ed25519_ok E" and ks: "ks_inv inv pk lt_pk v ks" and b: "unat batch_size \<le> 64"
    and now: "(epoch_seconds sys (ks_clock_source ks) :: (backend_error, u64) outcome) = Ok now"
  shows "\<exists>h :: ('b, 'addr) response_handler. response_handler_new E ops sys secret batch_size ks v = Ok h \<and> rh_inv E H lt_pk [] h \<and>
           ks_inv inv pk lt_pk v (rh_key_source h) \<and> ks_clock_source (rh_key_source h) = ks_clock_source ks \<and>
           ks_validity_length (rh_key_source h) = ks_validity_length ks \<and>
           key_clock (rh_online_key h) = ks_clock_source ks \<and>
           rh_batch_size h = unat batch_size \<and> rh_protocol_version h = v \<and> rh_requests h = [] \<and>
           rh_metrics h = response_metrics_default \<and>
           cert_delegation (key_cert (rh_online_key h))
             = dele_new (ed_public E secret) now (dur_secs (ks_validity_length ks))"
proof -
  obtain k ks' where k: "fresh_online_key E ops sys secret v ks = Ok (k, ks')"
    "key_ok E lt_pk v k" "key_clock k = ks_clock_source ks"
    "cert_delegation (key_cert k) = dele_new (ed_public E secret) now (dur_secs (ks_validity_length ks))"
    "ks_inv inv pk lt_pk v ks'" "ks_clock_source ks' = ks_clock_source ks"
    "ks_validity_length ks' = ks_validity_length ks"
    using fresh_online_key_ok [OF E ks now, of secret] by (elim exE conjE)
  then show ?thesis using b
    by (simp add: response_handler_new_def rh_inv_def metrics_ok_init path_ok_ops)
qed

end

section \<open>One batch, from datagrams to responses\<close>

lemma accepted_length: "length (accepted p ds) \<le> length ds"
proof (induction ds)
  case (Cons d ds)
  then show ?case by (cases d) (auto split: outcome.splits)
qed simp

lemma collect_batch:
  assumes i: "rh_inv E H lt_pk [] (qh_responder q)" and n: "length ds \<le> rh_batch_size (qh_responder q)"
    and room: "count_room p (length (accepted p ds)) (rh_metrics (qh_responder q))"
  obtains q1 where "collect_all p H ds q = Ok q1"
    "rh_inv E H lt_pk (map (leaf_of (rh_protocol_version (qh_responder q))) (accepted p ds)) (qh_responder q1)"
    "rh_requests (qh_responder q1) = map pending_of (accepted p ds)"
    "rh_online_key (qh_responder q1) = rh_online_key (qh_responder q)"
    "rh_static (qh_responder q1) = rh_static (qh_responder q)"
    "length (rh_requests (qh_responder q1)) \<le> 64"
    "count_room p (length (rh_requests (qh_responder q1))) (rh_metrics (qh_responder q1))"
    "num_ok_requests (qh_metrics q1) = num_ok_requests (qh_metrics q) + length (accepted p ds)"
    "total_requests (qh_metrics q1) = total_requests (qh_metrics q) + length ds"
proof -
  have nil: "rh_requests (qh_responder q) = []" and b: "rh_batch_size (qh_responder q) \<le> 64"
    using i by (simp_all add: rh_inv_def)
  obtain q1 where c: "collect_all p H ds q = Ok q1"
    "rh_inv E H lt_pk ([] @ map (leaf_of (rh_protocol_version (qh_responder q))) (accepted p ds)) (qh_responder q1)"
    "rh_requests (qh_responder q1) = rh_requests (qh_responder q) @ map pending_of (accepted p ds)"
    "rh_online_key (qh_responder q1) = rh_online_key (qh_responder q)"
    "rh_metrics (qh_responder q1) = rh_metrics (qh_responder q)"
    "num_ok_requests (qh_metrics q1) = num_ok_requests (qh_metrics q) + length (accepted p ds)"
    "total_requests (qh_metrics q1) = total_requests (qh_metrics q) + length ds"
    using collect_all_ok [OF i, of ds p] nil n by auto
  with nil b n room accepted_length [of p ds] collect_all_static [OF c(1)] show thesis by (intro that [of q1]) simp_all
qed

lemma empty_batch:
  assumes "rh_inv E H lt_pk [] (qh_responder q)" "rh_requests (qh_responder q) = []"
  shows "\<exists>q2. generate_responses p E H sys q = Ok ([], q2) \<and> rh_inv E H lt_pk [] (qh_responder q2) \<and>
           rh_static (qh_responder q2) = rh_static (qh_responder q) \<and> qh_metrics q2 = qh_metrics q"
  using assms by (auto simp: generate_responses_def process_responses_def rh_inv_def response_handler_clear_def rh_static_def)

text \<open>One batch, draft-14: the datagrams of a batch that are valid requests are all answered, in
  the order of arrival and to the address they came from, and nothing else is answered. Every response is
  a well-formed message, echoes the nonce of its request, carries its index, the shared certificate and
  the shared signed response, whose midpoint is the clock reading, and a Merkle path that leads from the
  bytes of the request to the signed root. The signature is the online key's over the context string
  and the encoded SREP. Neither collecting nor answering panics, every datagram is counted once, and
  the handler is ready for the next batch with an empty tree.\<close>

lemma serve_batch14:
  assumes "ed25519_ok E" "sha512_ok H" "rh_inv E H lt_pk [] (qh_responder q)"
    and "rh_protocol_version (qh_responder q) = RfcDraft14" "rh_online_key (qh_responder q) = Draft14Key k"
    and "length ds \<le> rh_batch_size (qh_responder q)"
    and "count_room p (length (accepted p ds)) (rh_metrics (qh_responder q))"
    and "epoch_seconds sys (ok14_clock k) = (Ok now :: (backend_error, u64) outcome)"
  shows "\<exists>q1 outs q2 common. let xs = accepted p ds;
             root = merkle_root_spec H (map (hash_leaf H) (map fst xs));
             srep = srep_make RfcDraft14 DEFAULT_RADI_SECONDS now [RfcDraft14] root in
           collect_all p H ds q = Ok q1 \<and> generate_responses p E H sys q1 = Ok (outs, q2) \<and>
           length outs = length xs \<and>
           (\<forall>j<length outs. response14_at H root common j (fst (xs ! j)) (pending_of (xs ! j)) (outs ! j)) \<and>
           (outs \<noteq> [] \<longrightarrow> resp_cert common = ok14_cert k \<and> resp_srep common = srep \<and>
              resp_signature common = ed_sign E (ok14_secret k) (srep_prefix RfcDraft14 @ srep_enc srep)) \<and>
           rh_inv E H lt_pk [] (qh_responder q2) \<and> rh_static (qh_responder q2) = rh_static (qh_responder q) \<and>
           num_ok_requests (qh_metrics q2) = num_ok_requests (qh_metrics q) + length outs \<and>
           total_requests (qh_metrics q2) = total_requests (qh_metrics q) + length ds"
proof -
  let ?xs = "accepted p ds"
  let ?root = "merkle_root_spec H (map (hash_leaf H) (map fst ?xs))"
  let ?srep = "srep_make RfcDraft14 DEFAULT_RADI_SECONDS now [RfcDraft14] ?root"
  have lf: "map (leaf_of RfcDraft14) ?xs = map fst ?xs" by (simp add: leaf_of_def)
  obtain q1 where c: "collect_all p H ds q = Ok q1" "rh_inv E H lt_pk (map fst ?xs) (qh_responder q1)"
    "rh_requests (qh_responder q1) = map pending_of ?xs" "rh_online_key (qh_responder q1) = Draft14Key k"
    "rh_static (qh_responder q1) = rh_static (qh_responder q)" "length (rh_requests (qh_responder q1)) \<le> 64"
    "count_room p (length (rh_requests (qh_responder q1))) (rh_metrics (qh_responder q1))"
    "num_ok_requests (qh_metrics q1) = num_ok_requests (qh_metrics q) + length ?xs"
    "total_requests (qh_metrics q1) = total_requests (qh_metrics q) + length ds"
    using collect_batch [OF assms(3,6,7)] unfolding assms(4,5) lf .
  have v: "rh_protocol_version (qh_responder q1) = RfcDraft14" using c(5) assms(4) by (simp add: rh_static_def)
  show ?thesis
  proof (cases "?xs = []")
    case True
    then show ?thesis using empty_batch [of E H lt_pk q1 p sys] c by (auto simp: Let_def)
  next
    case False
    then have n: "rh_requests (qh_responder q1) \<noteq> []" using c(3) by simp
    from process_responses14 [OF assms(1,2) c(2) v c(4) n c(6,7) assms(8)] c(3) obtain outs h' common where
      r: "process_responses p E H sys (qh_responder q1) = Ok (outs, h')" "length outs = length ?xs"
      "\<forall>j<length outs. response14_at H ?root common j (map fst ?xs ! j) (map pending_of ?xs ! j) (outs ! j)"
      "resp_cert common = ok14_cert k" "resp_srep common = ?srep"
      "resp_signature common = ed_sign E (ok14_secret k) (srep_prefix RfcDraft14 @ srep_enc ?srep)"
      "rh_inv E H lt_pk [] (response_handler_clear h')" unfolding Let_def by (auto simp del: map_map)
    let ?q2 = "q1\<lparr>qh_responder := response_handler_clear h'\<rparr>"
    have g: "generate_responses p E H sys q1 = Ok (outs, ?q2)" using r(1) by (simp add: generate_responses_def)
    have "rh_static (qh_responder ?q2) = rh_static (qh_responder q)" using generate_responses_static [OF g] c(5) by simp
    then show ?thesis unfolding Let_def
      using c(1,8,9) g r by (intro exI [of _ q1] exI [of _ outs] exI [of _ ?q2] exI [of _ common]) (simp del: map_map)
  qed
qed

text \<open>One batch, draft-08: as for draft-14, with the leaves of the tree being the nonces of the
  requests and no nonce in the response.\<close>

lemma serve_batch08:
  assumes "ed25519_ok E" "sha512_ok H" "rh_inv E H lt_pk [] (qh_responder q)"
    and "rh_protocol_version (qh_responder q) = RfcDraft08" "rh_online_key (qh_responder q) = Draft08Key k"
    and "length ds \<le> rh_batch_size (qh_responder q)"
    and "count_room p (length (accepted p ds)) (rh_metrics (qh_responder q))"
    and "epoch_seconds sys (ok08_clock k) = (Ok now :: (backend_error, u64) outcome)"
  shows "\<exists>q1 outs q2 common. let xs = accepted p ds;
             nonces = map (\<lambda>x. request_nonc (fst (snd x))) xs;
             root = merkle_root_spec H (map (hash_leaf H) nonces);
             srep = srep08_make DEFAULT_RADI_SECONDS now root in
           collect_all p H ds q = Ok q1 \<and> generate_responses p E H sys q1 = Ok (outs, q2) \<and>
           length outs = length xs \<and>
           (\<forall>j<length outs. response08_at H root common j (nonces ! j) (pending_of (xs ! j)) (outs ! j)) \<and>
           (outs \<noteq> [] \<longrightarrow> resp08_cert common = ok08_cert k \<and> resp08_srep common = srep \<and>
              resp08_signature common = ed_sign E (ok08_secret k) (srep_prefix RfcDraft08 @ srep08_enc srep)) \<and>
           rh_inv E H lt_pk [] (qh_responder q2) \<and> rh_static (qh_responder q2) = rh_static (qh_responder q) \<and>
           num_ok_requests (qh_metrics q2) = num_ok_requests (qh_metrics q) + length outs \<and>
           total_requests (qh_metrics q2) = total_requests (qh_metrics q) + length ds"
proof -
  let ?xs = "accepted p ds"
  let ?ns = "map (\<lambda>x. request_nonc (fst (snd x))) ?xs"
  let ?root = "merkle_root_spec H (map (hash_leaf H) ?ns)"
  let ?srep = "srep08_make DEFAULT_RADI_SECONDS now ?root"
  have lf: "map (leaf_of RfcDraft08) ?xs = ?ns" by (simp add: leaf_of_def)
  obtain q1 where c: "collect_all p H ds q = Ok q1" "rh_inv E H lt_pk ?ns (qh_responder q1)"
    "rh_requests (qh_responder q1) = map pending_of ?xs" "rh_online_key (qh_responder q1) = Draft08Key k"
    "rh_static (qh_responder q1) = rh_static (qh_responder q)" "length (rh_requests (qh_responder q1)) \<le> 64"
    "count_room p (length (rh_requests (qh_responder q1))) (rh_metrics (qh_responder q1))"
    "num_ok_requests (qh_metrics q1) = num_ok_requests (qh_metrics q) + length ?xs"
    "total_requests (qh_metrics q1) = total_requests (qh_metrics q) + length ds"
    using collect_batch [OF assms(3,6,7)] unfolding assms(4,5) lf .
  have v: "rh_protocol_version (qh_responder q1) = RfcDraft08" using c(5) assms(4) by (simp add: rh_static_def)
  show ?thesis
  proof (cases "?xs = []")
    case True
    then show ?thesis using empty_batch [of E H lt_pk q1 p sys] c by (auto simp: Let_def)
  next
    case False
    then have n: "rh_requests (qh_responder q1) \<noteq> []" using c(3) by simp
    from process_responses08 [OF assms(1,2) c(2) v c(4) n c(6,7) assms(8)] c(3) obtain outs h' common where
      r: "process_responses p E H sys (qh_responder q1) = Ok (outs, h')" "length outs = length ?xs"
      "\<forall>j<length outs. response08_at H ?root common j (?ns ! j) (map pending_of ?xs ! j) (outs ! j)"
      "resp08_cert common = ok08_cert k" "resp08_srep common = ?srep"
      "resp08_signature common = ed_sign E (ok08_secret k) (srep_prefix RfcDraft08 @ srep08_enc ?srep)"
      "rh_inv E H lt_pk [] (response_handler_clear h')" unfolding Let_def by (auto simp del: map_map)
    let ?q2 = "q1\<lparr>qh_responder := response_handler_clear h'\<rparr>"
    have g: "generate_responses p E H sys q1 = Ok (outs, ?q2)" using r(1) by (simp add: generate_responses_def)
    have "rh_static (qh_responder ?q2) = rh_static (qh_responder q)" using generate_responses_static [OF g] c(5) by simp
    then show ?thesis unfolding Let_def
      using c(1,8,9) g r by (intro exI [of _ q1] exI [of _ outs] exI [of _ ?q2] exI [of _ common]) (simp del: map_map)
  qed
qed

text \<open>A concrete key source and datagram.\<close>

definition sample_key_source :: "protocol_version \<Rightarrow> memory_backend key_source" where
  "sample_key_source v =
     \<lparr>ks_identity = \<lparr>id_seed = \<lparr>mb_seed = Some (replicate 32 1), mb_public_key = Some (ed_public toy_ed (replicate 32 1))\<rparr>,
                      id_version = v\<rparr>,
      ks_validity_length = \<lparr>dur_secs = 3600, dur_nanos = 0\<rparr>, ks_clock_source = Mock 100\<rparr>"

definition sample_handler :: "protocol_version \<Rightarrow> (backend_error, (memory_backend, nat) response_handler) outcome" where
  "sample_handler v = response_handler_new toy_ed (memory_ops toy_ed) None (replicate 32 2) 64 (sample_key_source v) v"

definition sample_datagram :: "bytes" where
  "sample_datagram = frame_enc (request_enc (request_new_draft14 (replicate 32 7)))"

lemma sample_handler_ok:
  obtains h where "sample_handler v = Ok h" "rh_inv toy_ed H (ed_public toy_ed (replicate 32 1)) [] h"
    "rh_batch_size h = 64" "rh_protocol_version h = v" "rh_metrics h = response_metrics_default"
    "key_clock (rh_online_key h) = Mock 100"
    "ks_inv (mb_ok toy_ed) (mb_pk toy_ed) (ed_public toy_ed (replicate 32 1)) v (rh_key_source h)"
    "ks_clock_source (rh_key_source h) = Mock 100"
    "ks_validity_length (rh_key_source h) = \<lparr>dur_secs = 3600, dur_nanos = 0\<rparr>"
    "cert_delegation (key_cert (rh_online_key h)) = dele_new (ed_public toy_ed (replicate 32 2)) 100 3600"
proof -
  have k: "ks_inv (mb_ok toy_ed) (mb_pk toy_ed) (ed_public toy_ed (replicate 32 1)) v (sample_key_source v)"
    by (simp add: ks_inv_def sample_key_source_def mb_ok_def mb_pk_def)
  have b: "unat (64 :: u8) \<le> 64" by simp
  have n: "(epoch_seconds None (ks_clock_source (sample_key_source v)) :: (backend_error, u64) outcome) = Ok 100"
    by (simp add: sample_key_source_def)
  from memory_seed.response_handler_new_ok [OF toy_ed_ok k b n, of "replicate 32 2" H]
  show thesis by (elim exE conjE, intro that) (simp_all add: sample_handler_def sample_key_source_def)
qed

lemma accepted_sample: "accepted p [(sample_datagram, src)] = [(sample_datagram, request_new_draft14 (replicate 32 7), src)]"
proof -
  have v: "request_valid (request_new_draft14 (replicate 32 7))" by (intro request_new_valid) simp
  have "length sample_datagram = REQUEST_SIZE"
    using length_request_enc [OF v] request_wire_size_valid [OF v]
    by (simp add: sample_datagram_def REQUEST_SIZE_def MINIMUM_FRAME_SIZE_def FRAME_OVERHEAD_def)
  moreover have "parse (from_frame (request_from_wire p)) sample_datagram = Ok (request_new_draft14 (replicate 32 7))"
    unfolding sample_datagram_def using request_wire_size_valid [OF v]
    by (intro request_message.frame_round_trip [OF v]) (simp_all add: MINIMUM_FRAME_SIZE_def)
  ultimately show ?thesis by simp
qed

lemma sample_room:
  assumes "rh_metrics h = response_metrics_default"
  shows "count_room p (length (accepted p [(sample_datagram, src)])) (rh_metrics h)"
  unfolding accepted_sample assms by (simp add: count_room_def response_metrics_default_def MAX_BATCH_SIZE_def)

end
