(* ===== verification/Worker.thy ===== *)
theory Worker
  imports Server
begin

text \<open>
  A worker thread of the server (\<^verbatim>\<open>worker.rs\<close>) with the parts of \<^verbatim>\<open>args.rs\<close> and
  \<^verbatim>\<open>main.rs\<close> that configure it. The event loop is a state machine: a tick publishes metrics, replaces
  the online key when it is due and polls; a readable socket is then drained in rounds of one batch each
  until a receive call finds it empty. Everything the operating system answers is an input: clock
  readings, the random secret and jitter of a key replacement, the results of \<open>poll\<close>, \<open>recv_from\<close>
  and \<open>send_to\<close>.
\<close>

section \<open>Configuration\<close>

datatype protocol_version_arg = V08 | V14

record server_args =
  sa_batch_size :: u8
  sa_num_threads :: "16 word"
  sa_protocol :: protocol_version_arg
  sa_fixed_offset :: "16 word"
  sa_rotation_interval :: "16 word"
  sa_metrics_interval :: u64

fun args_version :: "protocol_version_arg \<Rightarrow> protocol_version" where
  "args_version V08 = RfcDraft08"
| "args_version V14 = RfcDraft14"

text \<open>Hours as seconds; the widening to \<open>u64\<close> comes before the products, which cannot overflow.\<close>

definition args_rotation_interval :: "server_args \<Rightarrow> duration" where
  "args_rotation_interval a = \<lparr>dur_secs = ucast (sa_rotation_interval a) * 60 * 60, dur_nanos = 0\<rparr>"

definition choose_clock :: "server_args \<Rightarrow> clock_source" where
  "choose_clock a = (if sa_fixed_offset a = 0 then System else FixedOffset (sa_fixed_offset a))"

section \<open>State\<close>

text \<open>The sending half of the metrics channel: its capacity and what it holds.\<close>

record metrics_channel =
  ch_capacity :: nat
  ch_queue :: "worker_metrics list"

definition try_send :: "worker_metrics \<Rightarrow> metrics_channel \<Rightarrow> metrics_channel" where
  "try_send m ch = (if length (ch_queue ch) < ch_capacity ch then ch\<lparr>ch_queue := ch_queue ch @ [m]\<rparr> else ch)"

record ('b, 'addr) worker =
  wk_worker_id :: nat
  wk_clock :: clock_source
  wk_net_handler :: network_handler
  wk_req_handler :: "('b, 'addr) request_handler"
  wk_metrics_channel :: metrics_channel
  wk_key_replacement_interval :: duration
  wk_metrics_publish_interval :: duration
  wk_next_key_replacement :: u64
  wk_next_metrics_publication :: u64

definition worker_new ::
  "profile \<Rightarrow> u64 option \<Rightarrow> nat \<Rightarrow> server_args \<Rightarrow> ('b, 'addr) response_handler \<Rightarrow> clock_source \<Rightarrow>
     metrics_channel \<Rightarrow> duration \<Rightarrow> (backend_error, ('b, 'addr) worker) outcome" where
  "worker_new p sys worker_id args responder clock ch metrics_interval =
     and_then (epoch_seconds sys clock) (\<lambda>now.
     and_then (add_word p now (dur_secs metrics_interval)) (\<lambda>next_metrics.
     Ok \<lparr>wk_worker_id = worker_id, wk_clock = clock,
         wk_net_handler = network_handler_new (unat (sa_batch_size args)),
         wk_req_handler = request_handler_new responder,
         wk_metrics_channel = ch,
         wk_key_replacement_interval = args_rotation_interval args,
         wk_metrics_publish_interval = metrics_interval,
         wk_next_key_replacement = now,
         wk_next_metrics_publication = next_metrics\<rparr>))"

text \<open>The body of a worker thread up to the event loop. \<open>secret\<close> is the first online key drawn.\<close>

definition worker_task ::
  "profile \<Rightarrow> ed25519 \<Rightarrow> 'b seed_backend_ops \<Rightarrow> u64 option \<Rightarrow> u64 option \<Rightarrow> bytes \<Rightarrow> nat \<Rightarrow> 'b key_source \<Rightarrow>
     server_args \<Rightarrow> clock_source \<Rightarrow> metrics_channel \<Rightarrow> (backend_error, ('b, 'addr) worker) outcome" where
  "worker_task p E ops sys1 sys2 secret idx ks args clock ch =
     and_then (response_handler_new E ops sys1 secret (sa_batch_size args) ks (args_version (sa_protocol args))) (\<lambda>responder.
     worker_new p sys2 idx args responder clock ch \<lparr>dur_secs = sa_metrics_interval args, dur_nanos = 0\<rparr>)"

section \<open>Operations\<close>

definition worker_publish_metrics ::
  "profile \<Rightarrow> u64 option \<Rightarrow> ('b, 'addr) worker \<Rightarrow> (backend_error, ('b, 'addr) worker) outcome" where
  "worker_publish_metrics p sys w =
     (let snapshot = \<lparr>wm_worker_id = wk_worker_id w, wm_network = nh_metrics (wk_net_handler w),
                      wm_request = qh_metrics (wk_req_handler w),
                      wm_response = rh_metrics (qh_responder (wk_req_handler w))\<rparr>;
          w' = w\<lparr>wk_metrics_channel := try_send snapshot (wk_metrics_channel w),
                 wk_net_handler := network_reset_metrics (wk_net_handler w),
                 wk_req_handler := request_handler_reset_metrics (wk_req_handler w)\<rparr>
      in
      and_then (epoch_seconds sys (wk_clock w)) (\<lambda>now.
      and_then (add_word p now (dur_secs (wk_metrics_publish_interval w))) (\<lambda>next.
      Ok (w'\<lparr>wk_next_metrics_publication := next\<rparr>))))"

text \<open>The public key is read for the log line only.\<close>

definition worker_replace_online_key ::
  "profile \<Rightarrow> ed25519 \<Rightarrow> 'b seed_backend_ops \<Rightarrow> u64 option \<Rightarrow> bytes \<Rightarrow> u8 \<Rightarrow> ('b, 'addr) worker \<Rightarrow>
     (backend_error, ('b, 'addr) worker) outcome" where
  "worker_replace_online_key p E ops sys secret jitter w =
     and_then (request_handler_replace_key E ops sys secret (wk_req_handler w)) (\<lambda>q.
     and_then (online_public_key E (qh_responder q)) (\<lambda>_.
     and_then (sub_word p (dur_secs (wk_key_replacement_interval w)) (ucast jitter)) (\<lambda>delta.
     and_then (add_word p (wk_next_key_replacement w) delta) (\<lambda>next.
     Ok (w\<lparr>wk_req_handler := q, wk_next_key_replacement := next\<rparr>)))))"

text \<open>What a pass through the \<open>while\<close> loop reads before it looks at the events.\<close>

record tick_input =
  ti_now :: "u64 option"
  ti_publish :: "u64 option"
  ti_key :: "u64 option"
  ti_secret :: bytes
  ti_jitter :: u8
  ti_poll_ok :: bool

definition worker_tick ::
  "profile \<Rightarrow> ed25519 \<Rightarrow> 'b seed_backend_ops \<Rightarrow> tick_input \<Rightarrow> ('b, 'addr) worker \<Rightarrow>
     (backend_error, ('b, 'addr) worker) outcome" where
  "worker_tick p E ops ti w =
     and_then (epoch_seconds (ti_now ti) (wk_clock w)) (\<lambda>now.
     and_then (if now \<ge> wk_next_metrics_publication w then worker_publish_metrics p (ti_publish ti) w else Ok w) (\<lambda>w1.
     and_then (if now \<ge> wk_next_key_replacement w1
               then worker_replace_online_key p E ops (ti_key ti) (ti_secret ti) (ti_jitter ti) w1 else Ok w1) (\<lambda>w2.
     Ok (if ti_poll_ok ti then w2
         else w2\<lparr>wk_net_handler := record_failed_poll (wk_net_handler w2)\<rparr>))))"

text \<open>One round of the inner loop: a batch is collected, answered, and the answers are sent. The flags
  say which \<open>send_to\<close> calls succeed, in order; a missing flag stands for success.\<close>

fun send_all :: "bool list \<Rightarrow> ('addr \<times> bytes) list \<Rightarrow> network_handler \<Rightarrow> network_handler" where
  "send_all oks [] n = n"
| "send_all oks (out # outs) n = send_all (tl oks) outs (send_response (oks = [] \<or> hd oks) n)"

record 'addr round_input =
  ri_recv :: "'addr recv_result list"
  ri_clock :: "u64 option"
  ri_sends :: "bool list"

definition worker_round ::
  "profile \<Rightarrow> ed25519 \<Rightarrow> hash_fn \<Rightarrow> 'addr round_input \<Rightarrow> ('b, 'addr) worker \<Rightarrow>
     (backend_error, (('addr \<times> bytes) list \<times> collect_result) \<times> ('b, 'addr) worker) outcome" where
  "worker_round p E H ri w =
     (case collect_requests (wk_net_handler w) (ri_recv ri) of
        (ds, res, net, _) \<Rightarrow>
          and_then (collect_all p H ds (wk_req_handler w)) (\<lambda>q.
          and_then (generate_responses p E H (ri_clock ri) q) (\<lambda>(outs, q').
          Ok ((outs, res), w\<lparr>wk_net_handler := send_all (ri_sends ri) outs net, wk_req_handler := q'\<rparr>))))"

section \<open>The event loop\<close>

text \<open>\<open>Polling\<close>: at the head of the \<open>while\<close> loop. \<open>Serving\<close>: in the inner loop; a round that found the
  socket empty leaves it, or goes on with the next readable event. The time is the last clock reading;
  the environment's readings never go back.\<close>

datatype ('b, 'addr) worker_state =
    Polling u64 "('b, 'addr) worker"
  | Serving u64 "('b, 'addr) worker"
  | Stopped
  | Crashed

text \<open>The three readings of a tick are values of the clock, in order, from \<open>t\<close> on. The time after the
  tick is the reading of the key replacement, if there is one.\<close>

definition tick_clock :: "('b, 'addr) worker \<Rightarrow> u64 \<Rightarrow> tick_input \<Rightarrow> u64 \<Rightarrow> bool" where
  "tick_clock w t ti t' \<longleftrightarrow>
     (\<exists>now pub key. epoch_seconds (ti_now ti) (wk_clock w) = (Ok now :: (backend_error, u64) outcome) \<and>
        epoch_seconds (ti_publish ti) (wk_clock w) = (Ok pub :: (backend_error, u64) outcome) \<and>
        epoch_seconds (ti_key ti) (wk_clock w) = (Ok key :: (backend_error, u64) outcome) \<and>
        t \<le> now \<and> now \<le> pub \<and> pub \<le> key \<and>
        t' = (if now \<ge> wk_next_key_replacement w then key else now))"

inductive worker_step ::
  "profile \<Rightarrow> ed25519 \<Rightarrow> hash_fn \<Rightarrow> 'b seed_backend_ops \<Rightarrow> ('b, 'addr) worker_state \<Rightarrow> ('b, 'addr) worker_state \<Rightarrow> bool"
  for p E H ops where
  stop: "worker_step p E H ops (Polling t w) Stopped"
| tick_idle: "tick_clock w t ti t' \<Longrightarrow> worker_tick p E ops ti w = Ok w' \<Longrightarrow>
    worker_step p E H ops (Polling t w) (Polling t' w')"
| tick_ready: "tick_clock w t ti t' \<Longrightarrow> worker_tick p E ops ti w = Ok w' \<Longrightarrow>
    worker_step p E H ops (Polling t w) (Serving t' w')"
| tick_panic: "tick_clock w t ti t' \<Longrightarrow> worker_tick p E ops ti w = Panic \<Longrightarrow>
    worker_step p E H ops (Polling t w) Crashed"
| round_more: "epoch_seconds (ri_clock ri) (wk_clock w) = (Ok t' :: (backend_error, u64) outcome) \<Longrightarrow> t \<le> t' \<Longrightarrow>
    worker_round p E H ri w = Ok ((outs, res), w') \<Longrightarrow> worker_step p E H ops (Serving t w) (Serving t' w')"
| round_empty: "epoch_seconds (ri_clock ri) (wk_clock w) = (Ok t' :: (backend_error, u64) outcome) \<Longrightarrow> t \<le> t' \<Longrightarrow>
    worker_round p E H ri w = Ok ((outs, Empty), w') \<Longrightarrow> worker_step p E H ops (Serving t w) (Polling t' w')"
| round_panic: "epoch_seconds (ri_clock ri) (wk_clock w) = (Ok t' :: (backend_error, u64) outcome) \<Longrightarrow> t \<le> t' \<Longrightarrow>
    worker_round p E H ri w = Panic \<Longrightarrow> worker_step p E H ops (Serving t w) Crashed"

inductive_cases worker_step_cases [elim]:
  "worker_step p E H ops (Polling t w) s"
  "worker_step p E H ops (Serving t w) s"
  "worker_step p E H ops Stopped s"
  "worker_step p E H ops Crashed s"

section \<open>The invariant of a worker\<close>

definition worker_delegation :: "('b, 'addr) worker \<Rightarrow> delegation" where
  "worker_delegation w = cert_delegation (key_cert (rh_online_key (qh_responder (wk_req_handler w))))"

definition worker_inv ::
  "ed25519 \<Rightarrow> hash_fn \<Rightarrow> ('b \<Rightarrow> bool) \<Rightarrow> ('b \<Rightarrow> public_key) \<Rightarrow> public_key \<Rightarrow> protocol_version \<Rightarrow> u64 \<Rightarrow>
     ('b, 'addr) worker \<Rightarrow> bool" where
  "worker_inv E H P pk lt_pk v t w \<longleftrightarrow>
     (let h = qh_responder (wk_req_handler w) in
      rh_inv E H lt_pk [] h \<and> ks_inv P pk lt_pk v (rh_key_source h) \<and> rh_protocol_version h = v \<and>
      ks_clock_source (rh_key_source h) = wk_clock w \<and> key_clock (rh_online_key h) = wk_clock w \<and>
      ks_validity_length (rh_key_source h) = wk_key_replacement_interval w \<and>
      nh_batch_size (wk_net_handler w) = rh_batch_size h \<and>
      255 \<le> dur_secs (wk_key_replacement_interval w) \<and>
      dele_min_time (worker_delegation w) \<le> t \<and>
      wk_next_key_replacement w \<le> dele_max_time (worker_delegation w))"

lemma worker_inv_mono: "worker_inv E H P pk lt_pk v t w \<Longrightarrow> t \<le> t' \<Longrightarrow> worker_inv E H P pk lt_pk v t' w"
  unfolding worker_inv_def Let_def by (auto intro: order_trans)

lemma next_key_bound:
  fixes n k i j :: u64
  assumes "n \<le> k" "j \<le> i"
  shows "n + (i - j) \<le> saturating_add k i"
proof (cases "unat k + unat i < 2 ^ 64")
  case True
  have "unat (i - j) = unat i - unat j" using assms(2) by (rule unat_sub)
  moreover have "unat n \<le> unat k" using assms(1) by (simp add: word_le_nat_alt)
  ultimately show ?thesis using True by (simp add: saturating_add_def word_le_nat_alt unat_word_ariths)
next
  case False
  then show ?thesis by (simp add: saturating_add_def)
qed

lemma worker_publish_ok:
  assumes "worker_inv E H P pk lt_pk v t w" "epoch_seconds sys (wk_clock w) = (Ok now :: (backend_error, u64) outcome)"
  shows "\<exists>w'. worker_publish_metrics Release sys w = Ok w' \<and> worker_inv E H P pk lt_pk v t w' \<and> wk_clock w' = wk_clock w \<and>
           wk_next_key_replacement w' = wk_next_key_replacement w \<and> worker_delegation w' = worker_delegation w"
  using assms
  by (auto simp: worker_publish_metrics_def Let_def add_word_Release worker_inv_def worker_delegation_def
      network_reset_metrics_def request_handler_reset_metrics_def response_handler_reset_metrics_def rh_inv_def
      metrics_ok_init)

lemma key_ok_public_key:
  "ed25519_ok E \<Longrightarrow> key_ok E lt_pk v (rh_online_key h) \<Longrightarrow> \<exists>pk. online_public_key E h = Ok pk"
  by (cases v; cases "rh_online_key h") (auto simp: online_public_key_def signer_ok)

context seed_backend
begin

lemma worker_replace_ok:
  assumes E: "ed25519_ok E" and w: "worker_inv E H inv pk lt_pk v t w"
    and now: "epoch_seconds sys (wk_clock w) = (Ok now :: (backend_error, u64) outcome)"
    and due: "wk_next_key_replacement w \<le> now"
  shows "\<exists>w'. worker_replace_online_key Release E ops sys secret jitter w = Ok w' \<and>
           worker_inv E H inv pk lt_pk v now w' \<and> now \<le> dele_max_time (worker_delegation w')"
proof -
  let ?h = "qh_responder (wk_req_handler w)"
  have i: "rh_inv E H lt_pk [] ?h" "ks_inv inv pk lt_pk (rh_protocol_version ?h) (rh_key_source ?h)"
    "rh_protocol_version ?h = v"
    "ks_clock_source (rh_key_source ?h) = wk_clock w"
    "ks_validity_length (rh_key_source ?h) = wk_key_replacement_interval w"
    "nh_batch_size (wk_net_handler w) = rh_batch_size ?h" "255 \<le> dur_secs (wk_key_replacement_interval w)"
    using w by (simp_all add: worker_inv_def Let_def)
  have now': "epoch_seconds sys (ks_clock_source (rh_key_source ?h)) = (Ok now :: (backend_error, u64) outcome)"
    using now i(4) by simp
  obtain h' where h': "replace_online_key E ops sys secret ?h = Ok h'" "rh_inv E H lt_pk [] h'"
    "ks_inv inv pk lt_pk (rh_protocol_version h') (rh_key_source h')"
    "key_clock (rh_online_key h') = ks_clock_source (rh_key_source ?h)"
    "ks_clock_source (rh_key_source h') = ks_clock_source (rh_key_source ?h)"
    "ks_validity_length (rh_key_source h') = ks_validity_length (rh_key_source ?h)"
    "rh_batch_size h' = rh_batch_size ?h" "rh_protocol_version h' = rh_protocol_version ?h"
    "cert_delegation (key_cert (rh_online_key h'))
       = dele_new (ed_public E secret) now (dur_secs (ks_validity_length (rh_key_source ?h)))"
    using replace_online_key_ok [OF E i(2) now' i(1), of secret] by (elim exE conjE)
  obtain opk where opk: "online_public_key E h' = Ok opk"
    using key_ok_public_key [OF E, of lt_pk "rh_protocol_version h'" h'] h'(2) by (auto simp: rh_inv_def)
  have j: "(ucast jitter :: u64) \<le> dur_secs (wk_key_replacement_interval w)"
  proof -
    have "unat jitter < 2 ^ 8" using unsigned_less [of jitter, where 'a = nat] by simp
    then have "(ucast jitter :: u64) \<le> 255" by (simp add: word_le_nat_alt unsigned_ucast_eq take_bit_nat_eq_self)
    then show ?thesis using i(7) by (rule order_trans)
  qed
  let ?d = "dele_new (ed_public E secret) now (dur_secs (wk_key_replacement_interval w))"
  have "wk_next_key_replacement w + (dur_secs (wk_key_replacement_interval w) - ucast jitter) \<le> dele_max_time ?d"
    using next_key_bound [OF due j] by (simp add: dele_new_def)
  with h' opk i dele_new_times [of "ed_public E secret" now "dur_secs (wk_key_replacement_interval w)"] show ?thesis
    by (simp add: worker_replace_online_key_def request_handler_replace_key_def sub_word_Release add_word_Release
        worker_inv_def worker_delegation_def Let_def)
qed

lemma worker_tick_ok:
  assumes E: "ed25519_ok E" and w: "worker_inv E H inv pk lt_pk v t w" and c: "tick_clock w t ti t'"
  shows "\<exists>w'. worker_tick Release E ops ti w = Ok w' \<and> worker_inv E H inv pk lt_pk v t' w' \<and>
           t' \<le> dele_max_time (worker_delegation w')"
proof -
  obtain now pub key where r: "epoch_seconds (ti_now ti) (wk_clock w) = (Ok now :: (backend_error, u64) outcome)"
    "epoch_seconds (ti_publish ti) (wk_clock w) = (Ok pub :: (backend_error, u64) outcome)"
    "epoch_seconds (ti_key ti) (wk_clock w) = (Ok key :: (backend_error, u64) outcome)"
    "t \<le> now" "now \<le> pub" "pub \<le> key" "t' = (if now \<ge> wk_next_key_replacement w then key else now)"
    using c unfolding tick_clock_def by blast
  obtain w1 where w1: "(if now \<ge> wk_next_metrics_publication w then worker_publish_metrics Release (ti_publish ti) w else Ok w) = Ok w1"
    "worker_inv E H inv pk lt_pk v t w1" "wk_clock w1 = wk_clock w"
    "wk_next_key_replacement w1 = wk_next_key_replacement w"
    using worker_publish_ok [OF w r(2)] w by (cases "now \<ge> wk_next_metrics_publication w") auto
  obtain w2 where w2: "(if now \<ge> wk_next_key_replacement w1
        then worker_replace_online_key Release E ops (ti_key ti) (ti_secret ti) (ti_jitter ti) w1 else Ok w1) = Ok w2"
    "worker_inv E H inv pk lt_pk v t' w2" "t' \<le> dele_max_time (worker_delegation w2)"
  proof (cases "now \<ge> wk_next_key_replacement w1")
    case True
    then have "wk_next_key_replacement w1 \<le> key" using r(5,6) by simp
    from worker_replace_ok [OF E w1(2) _ this, of "ti_key ti" "ti_secret ti" "ti_jitter ti"] r(3,7) w1(3,4) True that
    show thesis by auto
  next
    case False
    have "wk_next_key_replacement w1 \<le> dele_max_time (worker_delegation w1)"
      using w1(2) by (simp add: worker_inv_def Let_def)
    then have "now \<le> dele_max_time (worker_delegation w1)" using False by simp
    with False r(7) w1(4) worker_inv_mono [OF w1(2) r(4)] that show thesis by simp
  qed
  have "worker_inv E H inv pk lt_pk v t' (w2\<lparr>wk_net_handler := record_failed_poll (wk_net_handler w2)\<rparr>)"
    "worker_delegation (w2\<lparr>wk_net_handler := record_failed_poll (wk_net_handler w2)\<rparr>) = worker_delegation w2"
    using w2(2) by (simp_all add: worker_inv_def worker_delegation_def record_failed_poll_def Let_def)
  with r(1) w1(1) w2 show ?thesis by (simp add: worker_tick_def)
qed

end

section \<open>Rounds\<close>

lemma collect_loop_bounds:
  "collect_loop n rs m = (ds, res, m', rs') \<Longrightarrow>
     length ds \<le> n \<and> (\<forall>d\<in>set ds. length (fst d) \<le> RECV_BUFFER_SIZE) \<and>
     (\<exists>used. rs = used @ rs' \<and> map snd ds = [src. Datagram bs src \<leftarrow> used])"
proof (induction n rs m arbitrary: ds res m' rs' rule: collect_loop.induct)
  case (5 n bs src rs m)
  obtain ds1 res1 m1 rs1 where l: "collect_loop n rs m = (ds1, res1, m1, rs1)" by (cases "collect_loop n rs m") auto
  from 5(1) [OF l] obtain used where "length ds1 \<le> n" "\<forall>d\<in>set ds1. length (fst d) \<le> RECV_BUFFER_SIZE"
    "rs = used @ rs1" "map snd ds1 = [src. Datagram bs src \<leftarrow> used]" by blast
  then show ?case using 5(2) l by (auto intro!: exI [of _ "Datagram bs src # used"])
qed auto

lemma collect_requests_bounds:
  "collect_requests net rs = (ds, res, net', rs') \<Longrightarrow>
     length ds \<le> nh_batch_size net \<and> nh_batch_size net' = nh_batch_size net \<and>
     (\<forall>d\<in>set ds. length (fst d) \<le> RECV_BUFFER_SIZE)"
  using collect_loop_bounds by (fastforce simp: collect_requests_def split: prod.splits)

lemma send_all_batch: "nh_batch_size (send_all oks outs net) = nh_batch_size net"
  by (induction oks outs net rule: send_all.induct) (auto simp: send_response_def Let_def)

lemma count_room_Release: "count_room Release n m"
  by (simp add: count_room_def)

lemma serve_batch_ok:
  assumes "ed25519_ok E" "sha512_ok H" "rh_inv E H lt_pk [] (qh_responder q)"
    and "length ds \<le> rh_batch_size (qh_responder q)"
    and "epoch_seconds sys (key_clock (rh_online_key (qh_responder q))) = (Ok now :: (backend_error, u64) outcome)"
  shows "\<exists>q1 outs q2. collect_all Release H ds q = Ok q1 \<and> generate_responses Release E H sys q1 = Ok (outs, q2) \<and>
           rh_inv E H lt_pk [] (qh_responder q2) \<and> rh_static (qh_responder q2) = rh_static (qh_responder q) \<and>
           num_ok_requests (qh_metrics q2) = num_ok_requests (qh_metrics q) + length outs \<and>
           total_requests (qh_metrics q2) = total_requests (qh_metrics q) + length ds"
proof (cases "rh_online_key (qh_responder q)")
  case (Draft14Key k)
  then have v: "rh_protocol_version (qh_responder q) = RfcDraft14"
    using assms(3) by (cases "rh_protocol_version (qh_responder q)") (simp_all add: rh_inv_def)
  show ?thesis using serve_batch14 [OF assms(1-3) v Draft14Key assms(4) count_room_Release, of sys now] assms(5) Draft14Key
    unfolding Let_def by auto
next
  case (Draft08Key k)
  then have v: "rh_protocol_version (qh_responder q) = RfcDraft08"
    using assms(3) by (cases "rh_protocol_version (qh_responder q)") (simp_all add: rh_inv_def)
  show ?thesis using serve_batch08 [OF assms(1-3) v Draft08Key assms(4) count_room_Release, of sys now] assms(5) Draft08Key
    unfolding Let_def by auto
qed

lemma worker_inv_round:
  assumes "worker_inv E H P pk lt_pk v t w" "rh_inv E H lt_pk [] (qh_responder q)"
    "rh_static (qh_responder q) = rh_static (qh_responder (wk_req_handler w))" "nh_batch_size n = nh_batch_size (wk_net_handler w)"
  shows "worker_inv E H P pk lt_pk v t (w\<lparr>wk_net_handler := n, wk_req_handler := q\<rparr>)"
  using assms by (simp add: worker_inv_def worker_delegation_def rh_static_def Let_def)

lemma worker_round_run:
  assumes "ed25519_ok E" "sha512_ok H" and w: "worker_inv E H P pk lt_pk v t w"
    and now: "epoch_seconds (ri_clock ri) (wk_clock w) = (Ok now :: (backend_error, u64) outcome)"
    and c: "collect_requests (wk_net_handler w) (ri_recv ri) = (ds, res, net, rest)"
  obtains q1 outs q2 where "collect_all Release H ds (wk_req_handler w) = Ok q1"
    "generate_responses Release E H (ri_clock ri) q1 = Ok (outs, q2)"
    "worker_round Release E H ri w = Ok ((outs, res), w\<lparr>wk_net_handler := send_all (ri_sends ri) outs net, wk_req_handler := q2\<rparr>)"
    "worker_inv E H P pk lt_pk v t (w\<lparr>wk_net_handler := send_all (ri_sends ri) outs net, wk_req_handler := q2\<rparr>)"
    "num_ok_requests (qh_metrics q2) = num_ok_requests (qh_metrics (wk_req_handler w)) + length outs"
    "total_requests (qh_metrics q2) = total_requests (qh_metrics (wk_req_handler w)) + length ds"
proof -
  let ?q = "wk_req_handler w"
  have i: "rh_inv E H lt_pk [] (qh_responder ?q)" "length ds \<le> rh_batch_size (qh_responder ?q)"
    "epoch_seconds (ri_clock ri) (key_clock (rh_online_key (qh_responder ?q))) = (Ok now :: (backend_error, u64) outcome)"
    using w now collect_requests_bounds [OF c] by (simp_all add: worker_inv_def Let_def)
  obtain q1 outs q2 where q: "collect_all Release H ds ?q = Ok q1" "generate_responses Release E H (ri_clock ri) q1 = Ok (outs, q2)"
    "rh_inv E H lt_pk [] (qh_responder q2)" "rh_static (qh_responder q2) = rh_static (qh_responder ?q)"
    "num_ok_requests (qh_metrics q2) = num_ok_requests (qh_metrics ?q) + length outs"
    "total_requests (qh_metrics q2) = total_requests (qh_metrics ?q) + length ds"
    using serve_batch_ok [OF assms(1,2) i] by (elim exE conjE)
  have n: "nh_batch_size (send_all (ri_sends ri) outs net) = nh_batch_size (wk_net_handler w)"
    using collect_requests_bounds [OF c] by (simp add: send_all_batch)
  show thesis using worker_inv_round [OF w q(3,4) n] q c by (intro that [of q1 outs q2]) (simp_all add: worker_round_def)
qed

lemma worker_round_ok:
  assumes "ed25519_ok E" "sha512_ok H" and w: "worker_inv E H P pk lt_pk v t w"
    and now: "epoch_seconds (ri_clock ri) (wk_clock w) = (Ok now :: (backend_error, u64) outcome)"
  shows "\<exists>outs res w'. worker_round Release E H ri w = Ok ((outs, res), w') \<and> worker_inv E H P pk lt_pk v t w'"
proof -
  obtain ds res net rs where c: "collect_requests (wk_net_handler w) (ri_recv ri) = (ds, res, net, rs)"
    by (cases "collect_requests (wk_net_handler w) (ri_recv ri)") auto
  show ?thesis by (rule worker_round_run [OF assms c]) blast
qed

lemma collect_all_jumbo:
  "collect_all p H ds q = Ok q' \<Longrightarrow> \<forall>d\<in>set ds. length (fst d) \<le> REQUEST_SIZE \<Longrightarrow>
     num_jumbo_requests (qh_metrics q') = num_jumbo_requests (qh_metrics q)"
  by (induction p H ds q rule: collect_all.induct)
    (auto simp: and_then_Ok_iff collect_request_def Let_def split: if_splits outcome.splits)

lemma send_all_counts:
  "num_successful_sends (nh_metrics (send_all oks outs net)) + num_failed_sends (nh_metrics (send_all oks outs net))
     = num_successful_sends (nh_metrics net) + num_failed_sends (nh_metrics net) + length outs"
  by (induction oks outs net rule: send_all.induct) (auto simp: send_response_def Let_def)

section \<open>Reachable states\<close>

fun state_inv ::
  "ed25519 \<Rightarrow> hash_fn \<Rightarrow> ('b \<Rightarrow> bool) \<Rightarrow> ('b \<Rightarrow> public_key) \<Rightarrow> public_key \<Rightarrow> protocol_version \<Rightarrow>
     ('b, 'addr) worker_state \<Rightarrow> bool" where
  "state_inv E H P pk lt_pk v (Polling t w) \<longleftrightarrow> worker_inv E H P pk lt_pk v t w"
| "state_inv E H P pk lt_pk v (Serving t w) \<longleftrightarrow> worker_inv E H P pk lt_pk v t w"
| "state_inv E H P pk lt_pk v Stopped \<longleftrightarrow> True"
| "state_inv E H P pk lt_pk v Crashed \<longleftrightarrow> False"

context seed_backend
begin

lemma worker_step_inv:
  assumes "ed25519_ok E" "sha512_ok H" "worker_step Release E H ops s s'" "state_inv E H inv pk lt_pk v s"
  shows "state_inv E H inv pk lt_pk v s'"
  using assms(3,4)
proof (cases rule: worker_step.cases)
  case (tick_idle w t ti t' w')
  then show ?thesis using worker_tick_ok [OF assms(1), of H lt_pk v t w ti t'] assms(4) by auto
next
  case (tick_ready w t ti t' w')
  then show ?thesis using worker_tick_ok [OF assms(1), of H lt_pk v t w ti t'] assms(4) by auto
next
  case (tick_panic w t ti t')
  then show ?thesis using worker_tick_ok [OF assms(1), of H lt_pk v t w ti t'] assms(4) by auto
next
  case (round_more ri w t' t outs res w')
  then show ?thesis using worker_round_ok [OF assms(1,2), of inv pk lt_pk v t w ri t'] assms(4) worker_inv_mono by fastforce
next
  case (round_empty ri w t' t outs w')
  then show ?thesis using worker_round_ok [OF assms(1,2), of inv pk lt_pk v t w ri t'] assms(4) worker_inv_mono by fastforce
next
  case (round_panic ri w t' t)
  then show ?thesis using worker_round_ok [OF assms(1,2), of inv pk lt_pk v t w ri t'] assms(4) by fastforce
qed simp

lemma worker_run_inv:
  assumes "ed25519_ok E" "sha512_ok H" "(worker_step Release E H ops)\<^sup>*\<^sup>* s s'" "state_inv E H inv pk lt_pk v s"
  shows "state_inv E H inv pk lt_pk v s'"
  using assms(3,4) by (induction rule: rtranclp_induct) (auto intro: worker_step_inv [OF assms(1,2)])

end

section \<open>Starting a worker\<close>

text \<open>\<open>main\<close> with the memory backend, up to the event loop of one worker: the seed is loaded, the key
  source is made with the rotation interval as the validity of its keys, and the worker thread starts.\<close>

definition start_worker ::
  "profile \<Rightarrow> ed25519 \<Rightarrow> u64 option \<Rightarrow> u64 option \<Rightarrow> bytes \<Rightarrow> bytes \<Rightarrow> nat \<Rightarrow> server_args \<Rightarrow> metrics_channel \<Rightarrow>
     (backend_error, (memory_backend, 'addr) worker) outcome" where
  "start_worker p E sys1 sys2 secret seed_bytes idx args ch =
     (let clock = choose_clock args in
      and_then (seed_new seed_bytes) (\<lambda>seed.
      and_then (expect (mb_store_seed E seed mb_new)) (\<lambda>backend.
      and_then (key_source_new (memory_ops E) (args_version (sa_protocol args)) backend clock (args_rotation_interval args)) (\<lambda>ks.
      worker_task p E (memory_ops E) sys1 sys2 secret idx ks args clock ch))))"

text \<open>The readings of the clock while a worker starts: no more than the rotation interval passes between the
  creation of the key and of the worker.\<close>

definition start_clock :: "server_args \<Rightarrow> u64 option \<Rightarrow> u64 option \<Rightarrow> u64 \<Rightarrow> bool" where
  "start_clock args sys1 sys2 t \<longleftrightarrow>
     (\<exists>t1. epoch_seconds sys1 (choose_clock args) = (Ok t1 :: (backend_error, u64) outcome) \<and>
        epoch_seconds sys2 (choose_clock args) = (Ok t :: (backend_error, u64) outcome) \<and>
        t1 \<le> t \<and> t \<le> saturating_add t1 (dur_secs (args_rotation_interval args)))"

text \<open>What the command line must grant: a batch size of at most 64, which its parser checks, and at least one
  hour between rotations, which it does not.\<close>

definition args_ok :: "server_args \<Rightarrow> bool" where
  "args_ok args \<longleftrightarrow> unat (sa_batch_size args) \<le> 64 \<and> sa_rotation_interval args \<noteq> 0"

definition start_ok :: "server_args \<Rightarrow> u64 option \<Rightarrow> u64 option \<Rightarrow> u64 \<Rightarrow> bytes \<Rightarrow> bool" where
  "start_ok args sys1 sys2 t seed \<longleftrightarrow> length seed = 32 \<and> args_ok args \<and> start_clock args sys1 sys2 t"

lemma rotation_interval_bounds:
  assumes "sa_rotation_interval a \<noteq> 0"
  shows "255 \<le> dur_secs (args_rotation_interval a)" "dur_secs (args_rotation_interval a) \<noteq> 0"
proof -
  let ?r = "sa_rotation_interval a"
  have l: "unat ?r < 2 ^ 16" using unsigned_less [of ?r, where 'a = nat] by simp
  have z: "0 < unat ?r" using assms by (simp add: unat_gt_0)
  have u: "unat (ucast ?r :: u64) = unat ?r" using l by (simp add: unsigned_ucast_eq take_bit_nat_eq_self)
  have "unat (ucast ?r * 60 * 60 :: u64) = unat ?r * 3600"
    using l u by (simp add: unat_word_ariths)
  then have s: "unat (dur_secs (args_rotation_interval a)) = unat ?r * 3600" by (simp add: args_rotation_interval_def)
  show "255 \<le> dur_secs (args_rotation_interval a)" using z s by (simp add: word_le_nat_alt)
  show "dur_secs (args_rotation_interval a) \<noteq> 0" using z s by auto
qed

context seed_backend
begin

lemma worker_task_ok:
  assumes E: "ed25519_ok E" and a: "args_ok args" and c: "start_clock args sys1 sys2 t"
    and ki: "ks_inv inv pk lt_pk (args_version (sa_protocol args)) ks"
    and ks: "ks_clock_source ks = choose_clock args" "ks_validity_length ks = args_rotation_interval args"
  shows "\<exists>w :: ('b, 'addr) worker. worker_task Release E ops sys1 sys2 secret idx ks args (choose_clock args) ch = Ok w \<and>
           worker_inv E H inv pk lt_pk (args_version (sa_protocol args)) t w \<and> wk_clock w = choose_clock args \<and>
           wk_worker_id w = idx \<and> wk_metrics_channel w = ch"
proof -
  let ?v = "args_version (sa_protocol args)" and ?c = "choose_clock args" and ?d = "args_rotation_interval args"
  obtain t1 where t: "epoch_seconds sys1 ?c = (Ok t1 :: (backend_error, u64) outcome)"
    "epoch_seconds sys2 ?c = (Ok t :: (backend_error, u64) outcome)" "t1 \<le> t" "t \<le> saturating_add t1 (dur_secs ?d)"
    using c unfolding start_clock_def by blast
  have b: "unat (sa_batch_size args) \<le> 64" "255 \<le> dur_secs ?d"
    using a rotation_interval_bounds by (simp_all add: args_ok_def)
  have t1: "(epoch_seconds sys1 (ks_clock_source ks) :: (backend_error, u64) outcome) = Ok t1" using t(1) ks(1) by simp
  obtain h :: "('b, 'addr) response_handler" where h:
    "response_handler_new E ops sys1 secret (sa_batch_size args) ks ?v = Ok h"
    "rh_inv E H lt_pk [] h" "ks_inv inv pk lt_pk ?v (rh_key_source h)"
    "ks_clock_source (rh_key_source h) = ks_clock_source ks" "ks_validity_length (rh_key_source h) = ks_validity_length ks"
    "key_clock (rh_online_key h) = ks_clock_source ks" "rh_batch_size h = unat (sa_batch_size args)"
    "rh_protocol_version h = ?v"
    "cert_delegation (key_cert (rh_online_key h)) = dele_new (ed_public E secret) t1 (dur_secs (ks_validity_length ks))"
    using response_handler_new_ok [OF E ki b(1) t1, of secret H] by (elim exE conjE)
  show ?thesis
    using h t ks b
    by (simp add: worker_task_def worker_new_def add_word_Release request_handler_new_def
        worker_inv_def worker_delegation_def Let_def network_handler_new_def dele_new_def)
qed

end

lemma start_worker_ok:
  assumes E: "ed25519_ok E" and s: "start_ok args sys1 sys2 t seed"
  shows "\<exists>w :: (memory_backend, 'addr) worker. start_worker Release E sys1 sys2 secret seed idx args ch = Ok w \<and>
           worker_inv E H (mb_ok E) (mb_pk E) (ed_public E seed) (args_version (sa_protocol args)) t w \<and>
           wk_clock w = choose_clock args"
proof -
  let ?v = "args_version (sa_protocol args)" and ?c = "choose_clock args" and ?d = "args_rotation_interval args"
  have a: "length seed = 32" "args_ok args" "start_clock args sys1 sys2 t" using s by (simp_all add: start_ok_def)
  have r: "dur_secs ?d \<noteq> 0" using a(2) rotation_interval_bounds(2) by (simp add: args_ok_def)
  obtain b where b: "expect (mb_store_seed E seed mb_new) = Ok b" "mb_ok E b" "mb_pk E b = ed_public E seed"
    using mb_from_value_ok [OF E a(1)] by (auto simp: mb_from_value_def seed_new_def a(1))
  define ks where "ks = \<lparr>ks_identity = \<lparr>id_seed = b, id_version = ?v\<rparr>, ks_validity_length = ?d, ks_clock_source = ?c\<rparr>"
  have ks: "key_source_new (memory_ops E) ?v b ?c ?d = (Ok ks :: (backend_error, _) outcome)"
    using memory_seed.backend_len [OF b(2)] r by (simp add: key_source_new_def identity_new_def ks_def)
  have "ks_inv (mb_ok E) (mb_pk E) (ed_public E seed) ?v ks" using b r by (simp add: ks_inv_def ks_def)
  from memory_seed.worker_task_ok [OF E a(2,3) this, of secret idx ch H] b(1) ks a(1) show ?thesis
    by (auto simp: start_worker_def seed_new_def ks_def Let_def)
qed

section \<open>Properties\<close>

text \<open>A worker never crashes: a server started with a 32-byte seed and arguments the command line
  parser accepts reaches its event loop in a release build, and whatever datagrams arrive, whatever the
  socket operations return and however long it runs, no step of the loop panics. In every reachable state
  no request is left over between batches, the online key is certified by the long-term key, and its
  next replacement is due before its delegation ends.\<close>

lemma worker_never_crashes:
  assumes "ed25519_ok E" "sha512_ok H" "start_ok args sys1 sys2 t seed"
  shows "\<exists>w. start_worker Release E sys1 sys2 secret seed idx args ch = Ok w \<and>
    (\<forall>s. (worker_step Release E H (memory_ops E))\<^sup>*\<^sup>* (Polling t w) s \<longrightarrow> s \<noteq> Crashed \<and>
      (\<forall>t' w'. s = Polling t' w' \<or> s = Serving t' w' \<longrightarrow>
         rh_requests (qh_responder (wk_req_handler w')) = [] \<and>
         key_ok E (ed_public E seed) (args_version (sa_protocol args)) (rh_online_key (qh_responder (wk_req_handler w'))) \<and>
         dele_min_time (worker_delegation w') \<le> t' \<and>
         wk_next_key_replacement w' \<le> dele_max_time (worker_delegation w')))"
proof -
  let ?v = "args_version (sa_protocol args)"
  obtain w :: "(memory_backend, 'a) worker" where w: "start_worker Release E sys1 sys2 secret seed idx args ch = Ok w"
    "worker_inv E H (mb_ok E) (mb_pk E) (ed_public E seed) ?v t w"
    using start_worker_ok [OF assms(1,3), of secret idx ch H] by blast
  have "state_inv E H (mb_ok E) (mb_pk E) (ed_public E seed) ?v s"
    if "(worker_step Release E H (memory_ops E))\<^sup>*\<^sup>* (Polling t w) s" for s
    using memory_seed.worker_run_inv [OF assms(1,2) that] w(2) by simp
  note i = this
  show ?thesis
  proof (intro exI [of _ w] conjI allI impI w(1))
    fix s assume "(worker_step Release E H (memory_ops E))\<^sup>*\<^sup>* (Polling t w) s"
    from i [OF this] show "s \<noteq> Crashed" by auto
  next
    fix s t' w' assume "(worker_step Release E H (memory_ops E))\<^sup>*\<^sup>* (Polling t w) s" "s = Polling t' w' \<or> s = Serving t' w'"
    with i [of s] have "worker_inv E H (mb_ok E) (mb_pk E) (ed_public E seed) ?v t' w'" by auto
    then show "rh_requests (qh_responder (wk_req_handler w')) = []"
      "key_ok E (ed_public E seed) ?v (rh_online_key (qh_responder (wk_req_handler w')))"
      "dele_min_time (worker_delegation w') \<le> t'" "wk_next_key_replacement w' \<le> dele_max_time (worker_delegation w')"
      by (auto simp: worker_inv_def rh_inv_def Let_def)
  qed
qed

definition sample_args :: "protocol_version_arg \<Rightarrow> server_args" where
  "sample_args v = \<lparr>sa_batch_size = 64, sa_num_threads = 1, sa_protocol = v, sa_fixed_offset = 0,
     sa_rotation_interval = 24, sa_metrics_interval = 60\<rparr>"

lemma sample_start_ok: "start_ok (sample_args v) (Some 1000) (Some 1001) 1001 (replicate 32 1)"
  by (simp add: start_ok_def args_ok_def start_clock_def sample_args_def choose_clock_def system_seconds_def saturating_add_def args_rotation_interval_def)

text \<open>C8. Rotation: after every tick of a reachable worker the delegation of the online key covers the
  clock reading the tick acted on, whether or not the key was replaced, and the next replacement is due
  before the delegation ends. So a worker that returns to the head of its loop never signs with an
  expired key.\<close>

theorem tick_key_valid:
  assumes "ed25519_ok E" "sha512_ok H" "start_ok args sys1 sys2 t seed"
    and "start_worker Release E sys1 sys2 secret seed idx args ch = Ok (w :: (memory_backend, 'addr) worker)"
    and "(worker_step Release E H (memory_ops E))\<^sup>*\<^sup>* (Polling t w) (Polling t1 w1)" "tick_clock w1 t1 ti t2"
  shows "\<exists>w2. worker_tick Release E (memory_ops E) ti w1 = Ok w2 \<and>
           dele_min_time (worker_delegation w2) \<le> t2 \<and> t2 \<le> dele_max_time (worker_delegation w2) \<and>
           wk_next_key_replacement w2 \<le> dele_max_time (worker_delegation w2)"
proof -
  let ?v = "args_version (sa_protocol args)"
  obtain w' :: "(memory_backend, 'addr) worker" where "start_worker Release E sys1 sys2 secret seed idx args ch = Ok w'"
    "worker_inv E H (mb_ok E) (mb_pk E) (ed_public E seed) ?v t w'"
    using start_worker_ok [OF assms(1,3), of secret idx ch H] by blast
  then have "worker_inv E H (mb_ok E) (mb_pk E) (ed_public E seed) ?v t1 w1"
    using memory_seed.worker_run_inv [OF assms(1,2,5)] assms(4) by simp
  from memory_seed.worker_tick_ok [OF assms(1) this assms(6)] show ?thesis
    by (auto simp: worker_inv_def Let_def)
qed

theorem tick_key_valid_witness:
  "\<exists>w w2. start_worker Release toy_ed (Some 1000) (Some 1001) (replicate 32 2) (replicate 32 1) 0 (sample_args V08)
      \<lparr>ch_capacity = 2, ch_queue = []\<rparr> = Ok (w :: (memory_backend, nat) worker) \<and>
     worker_tick Release toy_ed (memory_ops toy_ed)
       \<lparr>ti_now = Some 2000, ti_publish = Some 2000, ti_key = Some 2001, ti_secret = replicate 32 3, ti_jitter = 17, ti_poll_ok = True\<rparr> w
       = Ok w2 \<and> 2001 \<le> dele_max_time (worker_delegation w2)"
proof -
  let ?ti = "\<lparr>ti_now = Some 2000, ti_publish = Some 2000, ti_key = Some 2001, ti_secret = replicate 32 3, ti_jitter = 17, ti_poll_ok = True\<rparr>"
  obtain w :: "(memory_backend, nat) worker" where
    w: "start_worker Release toy_ed (Some 1000) (Some 1001) (replicate 32 2) (replicate 32 1) 0 (sample_args V08)
      \<lparr>ch_capacity = 2, ch_queue = []\<rparr> = Ok w" "wk_clock w = System"
    using start_worker_ok [OF toy_ed_ok sample_start_ok [of V08], of "replicate 32 2" 0 "\<lparr>ch_capacity = 2, ch_queue = []\<rparr>" toy_hash]
    by (auto simp: choose_clock_def sample_args_def)
  have n: "wk_next_key_replacement w = 1001"
    using w(1) by (auto simp: start_worker_def worker_task_def worker_new_def and_then_Ok_iff Let_def choose_clock_def
        sample_args_def system_seconds_def)
  have "tick_clock w 1001 ?ti 2001" using w(2) n by (simp add: tick_clock_def system_seconds_def)
  from tick_key_valid [OF toy_ed_ok toy_hash_ok sample_start_ok w(1) _ this] w(1) show ?thesis by blast
qed

text \<open>C24. Counting: in a round every received datagram is counted exactly once, every response is counted
  as sent or failed, and no datagram is ever counted as too large, however large it was, because the
  receive buffer cuts it to the size of a request.\<close>

theorem worker_round_counts:
  assumes "ed25519_ok E" "sha512_ok H" "worker_inv E H (mb_ok E) (mb_pk E) lt_pk v t w"
    and "epoch_seconds (ri_clock ri) (wk_clock w) = (Ok now :: (backend_error, u64) outcome)"
    and "collect_requests (wk_net_handler w) (ri_recv ri) = (ds, res, net, rest)"
  shows "\<exists>outs w'. worker_round Release E H ri w = Ok ((outs, res), w') \<and>
     total_requests (qh_metrics (wk_req_handler w')) = total_requests (qh_metrics (wk_req_handler w)) + length ds \<and>
     num_ok_requests (qh_metrics (wk_req_handler w')) = num_ok_requests (qh_metrics (wk_req_handler w)) + length outs \<and>
     num_jumbo_requests (qh_metrics (wk_req_handler w')) = num_jumbo_requests (qh_metrics (wk_req_handler w)) \<and>
     num_successful_sends (nh_metrics (wk_net_handler w')) + num_failed_sends (nh_metrics (wk_net_handler w'))
       = num_successful_sends (nh_metrics net) + num_failed_sends (nh_metrics net) + length outs"
proof -
  obtain q1 outs q2 where q: "collect_all Release H ds (wk_req_handler w) = Ok q1"
    "generate_responses Release E H (ri_clock ri) q1 = Ok (outs, q2)"
    "worker_round Release E H ri w = Ok ((outs, res), w\<lparr>wk_net_handler := send_all (ri_sends ri) outs net, wk_req_handler := q2\<rparr>)"
    "num_ok_requests (qh_metrics q2) = num_ok_requests (qh_metrics (wk_req_handler w)) + length outs"
    "total_requests (qh_metrics q2) = total_requests (qh_metrics (wk_req_handler w)) + length ds"
    by (rule worker_round_run [OF assms])
  have "\<forall>d\<in>set ds. length (fst d) \<le> REQUEST_SIZE"
    using collect_requests_bounds [OF assms(5)] by (simp add: RECV_BUFFER_SIZE_def REQUEST_SIZE_def)
  from collect_all_jumbo [OF q(1) this] generate_responses_static [OF q(2)] q(3-5) send_all_counts [of "ri_sends ri" outs net]
  show ?thesis by simp
qed

theorem worker_round_counts_witness:
  "\<exists>w outs w'. start_worker Release toy_ed (Some 1000) (Some 1001) (replicate 32 2) (replicate 32 1) 0 (sample_args V14)
      \<lparr>ch_capacity = 2, ch_queue = []\<rparr> = Ok (w :: (memory_backend, nat) worker) \<and>
     worker_round Release toy_ed toy_hash
       \<lparr>ri_recv = [Datagram (replicate 4096 0) 7, Datagram [1, 2, 3] 8], ri_clock = Some 2000, ri_sends = []\<rparr> w
       = Ok ((outs, Empty), w') \<and> num_jumbo_requests (qh_metrics (wk_req_handler w')) = 0 \<and>
     total_requests (qh_metrics (wk_req_handler w')) = 2"
proof -
  let ?ri = "\<lparr>ri_recv = [Datagram (replicate 4096 0) 7, Datagram [1, 2, 3] (8 :: nat)], ri_clock = Some 2000, ri_sends = []\<rparr>"
  obtain w :: "(memory_backend, nat) worker" where
    w: "start_worker Release toy_ed (Some 1000) (Some 1001) (replicate 32 2) (replicate 32 1) 0 (sample_args V14)
      \<lparr>ch_capacity = 2, ch_queue = []\<rparr> = Ok w" "wk_clock w = System"
    "worker_inv toy_ed toy_hash (mb_ok toy_ed) (mb_pk toy_ed) (ed_public toy_ed (replicate 32 1)) RfcDraft14 1001 w"
    using start_worker_ok [OF toy_ed_ok sample_start_ok [of V14], of "replicate 32 2" 0 "\<lparr>ch_capacity = 2, ch_queue = []\<rparr>" toy_hash]
    by (auto simp: choose_clock_def sample_args_def)
  have n: "wk_net_handler w = network_handler_new 64" "qh_metrics (wk_req_handler w) = request_metrics_default"
    using w(1) by (auto simp: start_worker_def worker_task_def worker_new_def and_then_Ok_iff Let_def request_handler_new_def
        sample_args_def)
  have c: "collect_requests (wk_net_handler w) (ri_recv ?ri)
    = ([(take 1024 (replicate 4096 0), 7), ([1, 2, 3], 8)], Empty, network_handler_new 64\<lparr>nh_metrics := network_metrics_default\<lparr>num_recv_wouldblock := 1\<rparr>\<rparr>, [])"
    by (simp add: n collect_requests_def network_handler_new_def RECV_BUFFER_SIZE_def numeral_eq_Suc network_metrics_default_def)
  from worker_round_counts [OF toy_ed_ok toy_hash_ok w(3) _ c, of 2000] w(1,2) n(2) show ?thesis
    by (auto simp: system_seconds_def total_requests_def request_metrics_default_def)
qed

end
