(* ===== verification/Text.thy ===== *)
theory Text
  imports Prelude
begin

text \<open>
  The operations of Rust's \<^verbatim>\<open>str\<close> that the sources use. A \<open>string\<close> holds the UTF-8 bytes of a Rust
  string, one character per byte; all patterns in the sources are ASCII, so that splitting and comparing
  bytes is what Rust does. Shown here: splitting at a separator, parsing and printing of 16-bit decimal
  numbers and that they are inverse.
\<close>

section \<open>Prefixes and splitting\<close>

definition starts_with :: "string \<Rightarrow> string \<Rightarrow> bool" where
  "starts_with pat s \<longleftrightarrow> take (length pat) s = pat"

definition strip_prefix :: "string \<Rightarrow> string \<Rightarrow> string option" where
  "strip_prefix pat s = (if starts_with pat s then Some (drop (length pat) s) else None)"

text \<open>\<open>s.split(c)\<close> collected, and \<open>s.splitn(2, c)\<close> collected.\<close>

fun split_on :: "char \<Rightarrow> string \<Rightarrow> string list" where
  "split_on c [] = [[]]"
| "split_on c (x # xs) =
     (if x = c then [] # split_on c xs
      else case split_on c xs of
             [] \<Rightarrow> [[x]]
           | y # ys \<Rightarrow> (x # y) # ys)"

definition splitn2 :: "char \<Rightarrow> string \<Rightarrow> string list" where
  "splitn2 c s =
     (if c \<in> set s then [takeWhile (\<lambda>x. x \<noteq> c) s, tl (dropWhile (\<lambda>x. x \<noteq> c) s)] else [s])"

lemma split_on_ne [simp]: "split_on c s \<noteq> []"
  by (induction s) (auto split: list.splits)

lemma split_on_none: "c \<notin> set s \<Longrightarrow> split_on c s = [s]"
  by (induction s) auto

lemma split_on_append: "c \<notin> set a \<Longrightarrow> split_on c (a @ c # b) = a # split_on c b"
  by (induction a) auto

lemma splitn2_append: "c \<notin> set a \<Longrightarrow> splitn2 c (a @ c # b) = [a, b]"
  by (induction a) (auto simp: splitn2_def split: if_splits)

lemma splitn2_two:
  assumes "length (splitn2 c s) = 2"
  obtains a b where "s = a @ c # b" "c \<notin> set a" "splitn2 c s = [a, b]"
proof -
  have "c \<in> set s" using assms by (auto simp: splitn2_def split: if_splits)
  then obtain a b where "s = a @ c # b" "c \<notin> set a" using split_list_first by metis
  with splitn2_append that show thesis by blast
qed

lemma strip_prefix_append [simp]: "strip_prefix pat (pat @ s) = Some s"
  by (simp add: strip_prefix_def starts_with_def)

lemma strip_prefix_Some_iff: "strip_prefix pat s = Some r \<longleftrightarrow> s = pat @ r"
  by (auto simp: strip_prefix_def starts_with_def) (metis append_take_drop_id)

section \<open>Numbers\<close>

definition digit_of :: "char \<Rightarrow> nat option" where
  "digit_of c = (let n = of_char c in if 48 \<le> n \<and> n \<le> 57 then Some (n - 48) else None)"

text \<open>The loop of \<open>from_str_radix\<close> with its overflow check after every digit.\<close>

fun parse_digits :: "nat \<Rightarrow> nat \<Rightarrow> string \<Rightarrow> nat option" where
  "parse_digits limit acc [] = Some acc"
| "parse_digits limit acc (c # cs) =
     (case digit_of c of
        None \<Rightarrow> None
      | Some d \<Rightarrow> if acc * 10 + d \<ge> limit then None else parse_digits limit (acc * 10 + d) cs)"

text \<open>\<open>s.parse::<u16>()\<close>: no digits at all and a lone sign are errors; a leading plus sign is skipped.\<close>

definition parse_u16 :: "string \<Rightarrow> u16 option" where
  "parse_u16 s =
     (let digits = (case s of c # cs \<Rightarrow> if c = CHR ''+'' then cs else s | [] \<Rightarrow> []) in
      if digits = [] then None else map_option of_nat (parse_digits 65536 0 digits))"

fun show_nat :: "nat \<Rightarrow> string" where
  "show_nat n = (if n < 10 then [char_of (n + 48)] else show_nat (n div 10) @ [char_of (n mod 10 + 48)])"

declare show_nat.simps [simp del]

lemma digit_of_char: "d < 10 \<Longrightarrow> digit_of (char_of (d + 48)) = Some d"
  by (simp add: digit_of_def Let_def)

lemma parse_digits_append:
  "parse_digits limit acc (xs @ ys) = Option.bind (parse_digits limit acc xs) (\<lambda>a. parse_digits limit a ys)"
  by (induction xs arbitrary: acc) (auto split: option.splits)

lemma parse_digits_show: "n < limit \<Longrightarrow> parse_digits limit 0 (show_nat n) = Some n"
proof (induction n rule: show_nat.induct)
  case (1 n)
  show ?case
  proof (cases "n < 10")
    case True
    then show ?thesis using 1(2) by (simp add: show_nat.simps [of n] digit_of_char)
  next
    case False
    have "n div 10 < limit" using 1(2) div_le_dividend le_less_trans by blast
    with 1(1) False have "parse_digits limit 0 (show_nat (n div 10)) = Some (n div 10)" by simp
    then show ?thesis using False 1(2)
      by (simp add: show_nat.simps [of n] parse_digits_append digit_of_char div_mult_mod_eq)
  qed
qed

lemma show_nat_digits: "c \<in> set (show_nat n) \<Longrightarrow> \<exists>d<10. c = char_of (d + 48 :: nat)"
proof (induction n rule: show_nat.induct)
  case (1 n)
  have m: "n mod 10 < 10" by simp
  show ?case
    using 1 m unfolding show_nat.simps [of n]
    by (cases "n < 10") (auto simp del: mod_less_divisor)
qed

lemma digit_not:
  assumes "d < (10 :: nat)"
  shows "(char_of (d + 48) :: char) \<noteq> CHR ''+''" "(char_of (d + 48) :: char) \<noteq> CHR '':''"
proof -
  have c: "of_char (char_of (d + 48) :: char) = d + 48" using assms by simp
  show "(char_of (d + 48) :: char) \<noteq> CHR ''+''"
  proof
    assume "(char_of (d + 48) :: char) = CHR ''+''"
    then have "d + 48 = of_char CHR ''+''" using c by metis
    then show False by simp
  qed
  show "(char_of (d + 48) :: char) \<noteq> CHR '':''"
  proof
    assume "(char_of (d + 48) :: char) = CHR '':''"
    then have "d + 48 = of_char CHR '':''" using c by metis
    then show False using assms by simp
  qed
qed

lemma show_nat_ne: "show_nat n \<noteq> []"
  by (subst show_nat.simps) simp

lemma show_nat_not: "CHR ''+'' \<notin> set (show_nat n)" "CHR '':'' \<notin> set (show_nat n)"
  using show_nat_digits digit_not by metis+

lemma parse_u16_show: "parse_u16 (show_nat (unat p)) = Some p"
proof -
  have "unat p < 65536" using unsigned_less [of p] by simp
  moreover have "hd (show_nat (unat p)) \<noteq> CHR ''+''" using show_nat_ne show_nat_not(1) by (metis hd_in_set)
  moreover have "parse_digits 65536 0 (show_nat (unat p)) = Some (unat p)" by (rule parse_digits_show) fact
  ultimately show ?thesis
    using show_nat_ne [of "unat p"]
    by (cases "show_nat (unat p)") (simp_all add: parse_u16_def del: parse_digits.simps)
qed

text \<open>Digits and a sign contain no separator.\<close>

lemma parse_digits_no_colon: "parse_digits limit acc s = Some n \<Longrightarrow> CHR '':'' \<notin> set s"
  by (induction limit acc s rule: parse_digits.induct) (auto simp: digit_of_def split: option.splits if_splits)

lemma parse_u16_no_colon: "parse_u16 s = Some p \<Longrightarrow> CHR '':'' \<notin> set s"
  by (cases s) (auto simp: parse_u16_def Let_def digit_of_def dest: parse_digits_no_colon split: if_splits option.splits)

end
