(* ===== verification/Aggregator.thy ===== *)
theory Aggregator
  imports Worker Text
begin

text \<open>
  The metrics thread (\<^verbatim>\<open>metrics/aggregator.rs\<close>) and its report files (\<^verbatim>\<open>metrics/snapshot.rs\<close>). Snapshots of the
  workers arrive through the channel and are added to one accumulator per worker; a report sums the
  accumulators and is written to a temporary file that is then renamed. The file system is a map from paths
  to nodes; what its calls answer, the readings of the clock, JSON and date formatting and the
  arithmetic of \<open>f64\<close> are arguments. Shown: what draining the channel adds up to, that a report file is
  replaced atomically, and that the accumulated histogram overflows.
\<close>

section \<open>Accumulation\<close>

text \<open>\<open>MetricsAggregator\<close> with its end of the channel left out: the channel is shared with the workers.\<close>

record aggregator =
  ma_aggregated :: "worker_metrics list"
  ma_reporting_interval :: duration
  ma_clock :: clock_source
  ma_metrics_path :: "string option"

definition aggregator_init :: "nat \<Rightarrow> worker_metrics list" where
  "aggregator_init num_workers =
     map (\<lambda>i. \<lparr>wm_worker_id = i, wm_network = network_metrics_default, wm_request = request_metrics_default,
               wm_response = response_metrics_default\<rparr>) [0..<num_workers]"

definition aggregator_new :: "nat \<Rightarrow> duration \<Rightarrow> clock_source \<Rightarrow> string option \<Rightarrow> aggregator" where
  "aggregator_new num_workers reporting_interval clock metrics_path =
     \<lparr>ma_aggregated = aggregator_init num_workers, ma_reporting_interval = reporting_interval, ma_clock = clock,
      ma_metrics_path = metrics_path\<rparr>"

text \<open>One snapshot received from the channel.\<close>

definition aggregate_one :: "profile \<Rightarrow> worker_metrics \<Rightarrow> worker_metrics list \<Rightarrow> ('e, worker_metrics list) outcome" where
  "aggregate_one p m agg =
     and_then (index_at agg (wm_worker_id m)) (\<lambda>old.
     and_then (response_metrics_add p (wm_response old) (wm_response m)) (\<lambda>resp.
     Ok (agg[wm_worker_id m := old\<lparr>wm_network := network_metrics_add (wm_network old) (wm_network m),
                                   wm_request := request_metrics_add (wm_request old) (wm_request m),
                                   wm_response := resp\<rparr>])))"

text \<open>The inner loop over \<open>try_recv\<close>, when nothing is sent meanwhile.\<close>

fun aggregate_pending :: "profile \<Rightarrow> worker_metrics list \<Rightarrow> worker_metrics list \<Rightarrow> ('e, worker_metrics list) outcome" where
  "aggregate_pending p [] agg = Ok agg"
| "aggregate_pending p (m # ms) agg = and_then (aggregate_one p m agg) (aggregate_pending p ms)"

section \<open>Totals\<close>

text \<open>The operations on \<open>f64\<close> that a report uses.\<close>

record 'f f64_ops =
  f64_of :: "nat \<Rightarrow> 'f"
  f64_mul :: "'f \<Rightarrow> 'f \<Rightarrow> 'f"
  f64_div :: "'f \<Rightarrow> 'f \<Rightarrow> 'f"
  f64_max :: "'f \<Rightarrow> 'f \<Rightarrow> 'f"
  f64_epsilon :: 'f

record 'f aggregated_metrics =
  ag_network :: network_metrics
  ag_requests :: request_metrics
  ag_responses :: response_metrics
  ag_total_requests :: nat
  ag_responses_per_second :: 'f
  ag_mbytes_per_second :: 'f

fun calc_totals ::
  "profile \<Rightarrow> worker_metrics list \<Rightarrow> network_metrics \<Rightarrow> request_metrics \<Rightarrow> response_metrics \<Rightarrow>
     ('e, network_metrics \<times> request_metrics \<times> response_metrics) outcome" where
  "calc_totals p [] n q r = Ok (n, q, r)"
| "calc_totals p (w # ws) n q r =
     and_then (response_metrics_add p r (wm_response w)) (\<lambda>r'.
     calc_totals p ws (network_metrics_add n (wm_network w)) (request_metrics_add q (wm_request w)) r')"

definition calc_aggregated_metrics ::
  "profile \<Rightarrow> 'f f64_ops \<Rightarrow> 'f \<Rightarrow> worker_metrics list \<Rightarrow> ('e, 'f aggregated_metrics) outcome" where
  "calc_aggregated_metrics p F duration_secs workers =
     and_then (calc_totals p workers network_metrics_default request_metrics_default response_metrics_default)
       (\<lambda>(n, q, r).
          Ok \<lparr>ag_network = n, ag_requests = q, ag_responses = r,
              ag_total_requests = num_ok_requests q + num_bad_requests q + num_runt_requests q + num_jumbo_requests q,
              ag_responses_per_second =
                f64_div F (f64_of F (num_responses r)) (f64_max F duration_secs (f64_epsilon F)),
              ag_mbytes_per_second =
                f64_div F (f64_div F (f64_of F (num_bytes_sent r)) (f64_mul F (f64_of F 1024) (f64_of F 1024)))
                  (f64_max F duration_secs (f64_epsilon F))\<rparr>)"

text \<open>The histogram as text, sizes that did not occur left out.\<close>

fun join_with :: "string \<Rightarrow> string list \<Rightarrow> string" where
  "join_with sep [] = []"
| "join_with sep [s] = s"
| "join_with sep (s # t # ts) = s @ sep @ join_with sep (t # ts)"

definition counts_as_string :: "response_metrics \<Rightarrow> string" where
  "counts_as_string m =
     join_with '', ''
       (map (\<lambda>(size, count). show_nat (size + 1) @ '': '' @ show_nat (unat count))
         (filter (\<lambda>(_, count). count > 0) (zip [0..<length (batch_sizes m)] (batch_sizes m))))"

section \<open>Files\<close>

datatype node = Dir | File bytes

type_synonym file_system = "string \<rightharpoonup> node"

text \<open>\<open>Path::join\<close>: an absolute second path replaces the first.\<close>

definition path_join :: "string \<Rightarrow> string \<Rightarrow> string" where
  "path_join dir name =
     (if starts_with ''/'' name then name
      else if dir = [] \<or> last dir = CHR ''/'' then dir @ name
      else dir @ ''/'' @ name)"

text \<open>\<open>File::create\<close> and \<open>fs::rename\<close>; the first argument is the error the system answers with, if any.\<close>

definition file_create :: "string option \<Rightarrow> string \<Rightarrow> file_system \<Rightarrow> string + file_system" where
  "file_create err path fs =
     (case err of
        Some e \<Rightarrow> Inl e
      | None \<Rightarrow> if fs path = Some Dir then Inl ''Is a directory (os error 21)'' else Inr (fs(path \<mapsto> File [])))"

definition file_rename :: "string option \<Rightarrow> string \<Rightarrow> string \<Rightarrow> file_system \<Rightarrow> string + file_system" where
  "file_rename err from_path to_path fs =
     (case err of
        Some e \<Rightarrow> Inl e
      | None \<Rightarrow> if fs to_path = Some Dir then Inl ''Is a directory (os error 21)''
                else Inr ((fs(to_path := fs from_path))(from_path := None)))"

definition validate_metrics_directory ::
  "string option \<Rightarrow> bool \<Rightarrow> string \<Rightarrow> file_system \<Rightarrow> (string + unit) \<times> file_system" where
  "validate_metrics_directory create_err remove_ok path fs =
     (if fs path = None then (Inl (''Metrics output path does not exist: '' @ path), fs)
      else if fs path \<noteq> Some Dir then (Inl (''Metrics output path is not a directory: '' @ path), fs)
      else
        (let test_file = path_join path ''.write_test'' in
         case file_create create_err test_file fs of
           Inr fs1 \<Rightarrow> (Inr (), if remove_ok then fs1(test_file := None) else fs1)
         | Inl e \<Rightarrow> (Inl (''Metrics directory is not writable: '' @ path @ '' ('' @ e @ '')''), fs)))"

section \<open>Snapshots\<close>

record 'f metrics_snapshot =
  ms_timestamp :: int
  ms_duration_secs :: 'f
  ms_workers :: "worker_metrics list"
  ms_totals :: "'f aggregated_metrics"

text \<open>The libraries a report goes through: \<open>f64\<close>, the date library on a system time \<open>'t\<close>, and JSON.\<close>

record ('t, 'f) report_env =
  re_f64 :: "'f f64_ops"
  re_from_system_time :: "'t \<Rightarrow> int option"
  re_strftime_utc :: "string \<Rightarrow> int \<Rightarrow> string option"
  re_to_json :: "'f metrics_snapshot \<Rightarrow> string + bytes"

definition metrics_snapshot_new ::
  "('t, 'f) report_env \<Rightarrow> 't \<Rightarrow> 'f \<Rightarrow> worker_metrics list \<Rightarrow> 'f aggregated_metrics \<Rightarrow> ('e, 'f metrics_snapshot) outcome" where
  "metrics_snapshot_new M now duration_secs workers totals =
     (case re_from_system_time M now of
        None \<Rightarrow> Panic
      | Some timestamp \<Rightarrow>
          Ok \<lparr>ms_timestamp = timestamp, ms_duration_secs = duration_secs, ms_workers = workers, ms_totals = totals\<rparr>)"

text \<open>The answers of the file system while a snapshot is written. \<open>wi_written\<close> holds how much is in the file
  after each of the system calls of \<open>write_all\<close>.\<close>

record write_io =
  wi_create :: "string option"
  wi_written :: "nat list"
  wi_write :: "string option"
  wi_sync :: "string option"
  wi_rename :: "string option"

text \<open>The result and the states the file system goes through, the first and the last one included.\<close>

definition write_to_file ::
  "('t, 'f) report_env \<Rightarrow> write_io \<Rightarrow> 'f metrics_snapshot \<Rightarrow> string \<Rightarrow> file_system \<Rightarrow>
     (string, string) outcome \<times> file_system list" where
  "write_to_file M io snapshot metrics_path fs =
     (case re_strftime_utc M ''roughenough-metrics-%Y%m%d-%H%M%S.json'' (ms_timestamp snapshot) of
        None \<Rightarrow> (Panic, [fs])
      | Some filename \<Rightarrow>
         (let file_path = path_join metrics_path filename;
              temp_path = path_join metrics_path (''.'' @ filename @ ''.tmp'') in
          case file_create (wi_create io) temp_path fs of
            Inl e \<Rightarrow> (Err e, [fs])
          | Inr fs1 \<Rightarrow>
          (case re_to_json M snapshot of
             Inl e \<Rightarrow> (Err e, [fs, fs1])
           | Inr json_data \<Rightarrow>
             (let ws = map (\<lambda>n. fs1(temp_path \<mapsto> File (take n json_data))) (wi_written io);
                  fs2 = fs1(temp_path \<mapsto> File json_data) in
              case wi_write io of
                Some e \<Rightarrow> (Err e, fs # fs1 # ws)
              | None \<Rightarrow>
              (case wi_sync io of
                 Some e \<Rightarrow> (Err e, fs # fs1 # ws @ [fs2])
               | None \<Rightarrow>
               (case file_rename (wi_rename io) temp_path file_path fs2 of
                  Inl e \<Rightarrow> (Err e, fs # fs1 # ws @ [fs2])
                | Inr fs3 \<Rightarrow> (Ok filename, fs # fs1 # ws @ [fs2, fs3])))))))"

text \<open>The log lines are left out. An error of the write is logged and dropped.\<close>

definition report_metrics ::
  "profile \<Rightarrow> ('t, 'f) report_env \<Rightarrow> write_io \<Rightarrow> 't \<Rightarrow> 'f \<Rightarrow> aggregator \<Rightarrow> file_system \<Rightarrow>
     (unit, unit) outcome \<times> file_system list" where
  "report_metrics p M io now elapsed_secs a fs =
     (case calc_aggregated_metrics p (re_f64 M) elapsed_secs (ma_aggregated a) of
        Ok aggregated \<Rightarrow>
          (case ma_metrics_path a of
             None \<Rightarrow> (Ok (), [fs])
           | Some metrics_path \<Rightarrow>
             (case metrics_snapshot_new M now elapsed_secs (ma_aggregated a) aggregated of
                Ok snapshot \<Rightarrow>
                  (case write_to_file M io snapshot metrics_path fs of
                     (Panic, states) \<Rightarrow> (Panic, states)
                   | (_, states) \<Rightarrow> (Ok (), states))
              | Err e \<Rightarrow> (Err e, [fs])
              | Panic \<Rightarrow> (Panic, [fs])))
      | Err e \<Rightarrow> (Err e, [fs])
      | Panic \<Rightarrow> (Panic, [fs]))"

section \<open>The loop of the metrics thread\<close>

text \<open>\<open>Waiting\<close>: at the head of the \<open>while\<close> loop. \<open>Draining\<close>: in the inner loop over \<open>try_recv\<close>. Both keep
  \<open>next_report\<close> and \<open>last_report_time\<close>.\<close>

datatype aggregator_state =
    Waiting u64 u64 aggregator
  | Draining u64 u64 aggregator
  | AggregatorStopped
  | AggregatorCrashed

definition aggregator_start ::
  "profile \<Rightarrow> u64 option \<Rightarrow> u64 option \<Rightarrow> aggregator \<Rightarrow> (unit, u64 \<times> u64) outcome" where
  "aggregator_start p sys1 sys2 a =
     and_then (epoch_seconds sys1 (ma_clock a)) (\<lambda>now.
     and_then (add_word p now (dur_secs (ma_reporting_interval a))) (\<lambda>next_report.
     and_then (epoch_seconds sys2 (ma_clock a)) (\<lambda>last_report_time.
     Ok (next_report, last_report_time))))"

definition try_recv :: "metrics_channel \<Rightarrow> (worker_metrics \<times> metrics_channel) option" where
  "try_recv ch = (case ch_queue ch of [] \<Rightarrow> None | m # ms \<Rightarrow> Some (m, ch\<lparr>ch_queue := ms\<rparr>))"

definition aggregator_receive :: "profile \<Rightarrow> worker_metrics \<Rightarrow> aggregator \<Rightarrow> (unit, aggregator) outcome" where
  "aggregator_receive p m a =
     and_then (aggregate_one p m (ma_aggregated a)) (\<lambda>agg. Ok (a\<lparr>ma_aggregated := agg\<rparr>))"

text \<open>The rest of a pass once the channel is empty: \<open>sys\<close> is the reading of the clock, \<open>systime\<close> the time
  the report is made.\<close>

definition aggregator_finish_pass ::
  "profile \<Rightarrow> ('t, 'f) report_env \<Rightarrow> write_io \<Rightarrow> u64 option \<Rightarrow> 't \<Rightarrow> u64 \<Rightarrow> u64 \<Rightarrow> aggregator \<Rightarrow> file_system \<Rightarrow>
     (unit, u64 \<times> u64) outcome \<times> file_system list" where
  "aggregator_finish_pass p M io sys systime next_report last_report_time a fs =
     (case epoch_seconds sys (ma_clock a) of
        Ok now \<Rightarrow>
          if now \<ge> next_report then
            (case sub_word p now last_report_time of
               Ok elapsed \<Rightarrow>
                 (case report_metrics p M io systime (f64_of (re_f64 M) (unat elapsed)) a fs of
                    (Ok _, states) \<Rightarrow>
                      (and_then (add_word p now (dur_secs (ma_reporting_interval a))) (\<lambda>next. Ok (next, now)), states)
                  | (Err e, states) \<Rightarrow> (Err e, states)
                  | (Panic, states) \<Rightarrow> (Panic, states))
             | Err e \<Rightarrow> (Err e, [fs])
             | Panic \<Rightarrow> (Panic, [fs]))
          else (Ok (next_report, last_report_time), [fs])
      | Err e \<Rightarrow> (Err e, [fs])
      | Panic \<Rightarrow> (Panic, [fs]))"

text \<open>The thread's steps on its own state, the channel and the file system; \<open>run\<close> is the flag \<open>KEEP_RUNNING\<close>.
  The system clock is never set before the epoch.\<close>

inductive aggregator_step ::
  "profile \<Rightarrow> ('t, 'f) report_env \<Rightarrow> bool \<Rightarrow> aggregator_state \<times> metrics_channel \<times> file_system \<Rightarrow>
     aggregator_state \<times> metrics_channel \<times> file_system \<Rightarrow> bool"
  for p M run where
  wake: "run \<Longrightarrow> aggregator_step p M run (Waiting n l a, ch, fs) (Draining n l a, ch, fs)"
| shut_down: "\<not> run \<Longrightarrow> aggregator_step p M run (Waiting n l a, ch, fs) (AggregatorStopped, ch, fs)"
| receive: "try_recv ch = Some (m, ch') \<Longrightarrow> aggregator_receive p m a = Ok a' \<Longrightarrow>
    aggregator_step p M run (Draining n l a, ch, fs) (Draining n l a', ch', fs)"
| receive_panic: "try_recv ch = Some (m, ch') \<Longrightarrow> aggregator_receive p m a = Panic \<Longrightarrow>
    aggregator_step p M run (Draining n l a, ch, fs) (AggregatorCrashed, ch', fs)"
| finish: "try_recv ch = None \<Longrightarrow> epoch_seconds sys (ma_clock a) = (Ok now :: (unit, u64) outcome) \<Longrightarrow>
    aggregator_finish_pass p M io sys systime n l a fs = (Ok (n', l'), states) \<Longrightarrow>
    aggregator_step p M run (Draining n l a, ch, fs) (Waiting n' l' a, ch, last states)"
| finish_panic: "try_recv ch = None \<Longrightarrow> epoch_seconds sys (ma_clock a) = (Ok now :: (unit, u64) outcome) \<Longrightarrow>
    aggregator_finish_pass p M io sys systime n l a fs = (Panic, states) \<Longrightarrow>
    aggregator_step p M run (Draining n l a, ch, fs) (AggregatorCrashed, ch, last states)"

inductive_cases aggregator_step_cases [elim]:
  "aggregator_step p M run (Waiting n l a, ch, fs) s"
  "aggregator_step p M run (Draining n l a, ch, fs) s"
  "aggregator_step p M run (AggregatorStopped, ch, fs) s"
  "aggregator_step p M run (AggregatorCrashed, ch, fs) s"

section \<open>Lemmas on accumulation\<close>

lemma bump_count_append:
  "bump_count p (length us) c (us @ v # vs)
     = and_then (add_word p v c) (\<lambda>new. (Ok (us @ new # vs) :: ('e, u8 list) outcome))"
  by (simp add: bump_count_def)

lemma add_counts_Release:
  "length vs = length cs \<Longrightarrow> add_counts Release (length us) cs (us @ vs) = (Ok (us @ map2 (+) vs cs) :: ('e, u8 list) outcome)"
proof (induction cs arbitrary: us vs)
  case (Cons c cs)
  then obtain v vs' where vs: "vs = v # vs'" "length vs' = length cs" by (cases vs) auto
  then show ?case using Cons.IH [of vs' "us @ [v + c]"] by (simp add: bump_count_append add_word_Release)
qed simp

text \<open>With overflow checks the counters are added without loss or the addition panics.\<close>

lemma add_counts_Debug:
  "length vs = length cs \<Longrightarrow> add_counts Debug (length us) cs (us @ vs) = (Ok ys :: ('e, u8 list) outcome) \<Longrightarrow>
     ys = us @ map2 (+) vs cs \<and> (\<forall>k<length cs. unat (vs ! k) + unat (cs ! k) < 256)"
proof (induction cs arbitrary: us vs)
  case (Cons c cs)
  then obtain v vs' where vs: "vs = v # vs'" "length vs' = length cs" by (cases vs) auto
  have room: "unat v + unat c < 256" "add_counts Debug (length (us @ [v + c])) cs ((us @ [v + c]) @ vs') = (Ok ys :: ('e, u8 list) outcome)"
    using Cons.prems(2) vs by (auto simp: bump_count_append add_word_def and_then_Ok_iff split: if_splits)
  from Cons.IH [OF vs(2) room(2)] room(1) vs(1) show ?case by (auto simp: less_Suc_eq_0_disj)
qed simp

lemma add_counts_not_Err: "add_counts p idx cs xs \<noteq> Err e"
  by (induction cs arbitrary: idx xs)
    (auto simp: and_then_Err_iff bump_count_def index_at_def add_word_def split: profile.splits)

definition sum_metrics :: "response_metrics \<Rightarrow> response_metrics \<Rightarrow> response_metrics" where
  "sum_metrics m rhs =
     \<lparr>num_responses = num_responses m + num_responses rhs, num_bytes_sent = num_bytes_sent m + num_bytes_sent rhs,
      batch_sizes = map2 (+) (batch_sizes m) (batch_sizes rhs)\<rparr>"

lemma metrics_ok_sum: "metrics_ok m \<Longrightarrow> metrics_ok rhs \<Longrightarrow> metrics_ok (sum_metrics m rhs)"
  by (simp add: metrics_ok_def sum_metrics_def)

lemma response_metrics_add_Release:
  "metrics_ok m \<Longrightarrow> metrics_ok rhs \<Longrightarrow> response_metrics_add Release m rhs = (Ok (sum_metrics m rhs) :: ('e, response_metrics) outcome)"
  using add_counts_Release [of "batch_sizes m" "batch_sizes rhs" "[]", where 'e = 'e]
  by (simp add: metrics_ok_def response_metrics_add_def sum_metrics_def)

lemma response_metrics_add_Debug:
  assumes "metrics_ok m" "metrics_ok rhs" "response_metrics_add Debug m rhs = (Ok r :: ('e, response_metrics) outcome)"
  shows "r = sum_metrics m rhs \<and> (\<forall>k<MAX_BATCH_SIZE. unat (batch_sizes m ! k) + unat (batch_sizes rhs ! k) < 256)"
  using assms add_counts_Debug [of "batch_sizes m" "batch_sizes rhs" "[]", where 'e = 'e]
  by (auto simp: metrics_ok_def response_metrics_add_def sum_metrics_def and_then_Ok_iff)

text \<open>An accumulator per worker, each with a full histogram.\<close>

definition accumulators_ok :: "nat \<Rightarrow> worker_metrics list \<Rightarrow> bool" where
  "accumulators_ok n agg \<longleftrightarrow> length agg = n \<and> (\<forall>w\<in>set agg. metrics_ok (wm_response w))"

definition snapshot_ok :: "nat \<Rightarrow> worker_metrics \<Rightarrow> bool" where
  "snapshot_ok n m \<longleftrightarrow> wm_worker_id m < n \<and> metrics_ok (wm_response m)"

lemma aggregator_init_ok: "accumulators_ok n (aggregator_init n)"
  by (auto simp: accumulators_ok_def aggregator_init_def metrics_ok_init)

text \<open>The sum of an accumulator and a snapshot.\<close>

definition add_snapshot :: "worker_metrics \<Rightarrow> worker_metrics \<Rightarrow> worker_metrics" where
  "add_snapshot old m =
     old\<lparr>wm_network := network_metrics_add (wm_network old) (wm_network m),
         wm_request := request_metrics_add (wm_request old) (wm_request m),
         wm_response := sum_metrics (wm_response old) (wm_response m)\<rparr>"

lemma accumulators_ok_update:
  assumes "accumulators_ok n agg" "snapshot_ok n m"
  shows "accumulators_ok n (agg[wm_worker_id m := add_snapshot (agg ! wm_worker_id m) m])"
  using assms metrics_ok_sum
  by (auto simp: accumulators_ok_def snapshot_ok_def add_snapshot_def set_conv_nth nth_list_update)

lemma aggregate_one_Release:
  assumes "accumulators_ok n agg" "snapshot_ok n m"
  shows "aggregate_one Release m agg = (Ok (agg[wm_worker_id m := add_snapshot (agg ! wm_worker_id m) m]) :: ('e, _) outcome)"
  using assms by (simp add: aggregate_one_def accumulators_ok_def snapshot_ok_def response_metrics_add_Release add_snapshot_def)

lemma aggregate_pending_Release:
  "accumulators_ok n agg \<Longrightarrow> \<forall>m\<in>set ms. snapshot_ok n m \<Longrightarrow>
     \<exists>agg'. aggregate_pending Release ms agg = (Ok agg' :: ('e, _) outcome) \<and> accumulators_ok n agg' \<and>
       (\<forall>i<n. agg' ! i = foldl add_snapshot (agg ! i) (filter (\<lambda>m. wm_worker_id m = i) ms))"
proof (induction ms arbitrary: agg)
  case (Cons m ms)
  let ?agg = "agg[wm_worker_id m := add_snapshot (agg ! wm_worker_id m) m]"
  have m: "snapshot_ok n m" using Cons.prems(2) by simp
  obtain agg' where "aggregate_pending Release ms ?agg = (Ok agg' :: ('e, _) outcome)" "accumulators_ok n agg'"
    "\<forall>i<n. agg' ! i = foldl add_snapshot (?agg ! i) (filter (\<lambda>m. wm_worker_id m = i) ms)"
    using Cons.IH [OF accumulators_ok_update [OF Cons.prems(1) m]] Cons.prems(2) by auto
  moreover have "?agg ! i = (if i = wm_worker_id m then add_snapshot (agg ! i) m else agg ! i)" if "i < n" for i
    using that Cons.prems(1) by (simp add: accumulators_ok_def nth_list_update)
  ultimately show ?case using aggregate_one_Release [OF Cons.prems(1) m, where 'e = 'e] by auto
qed simp

lemma aggregate_pending_Debug:
  assumes "accumulators_ok n agg" "snapshot_ok n m" "k < MAX_BATCH_SIZE"
    and "aggregate_pending Debug (replicate N m) agg = (Ok agg' :: ('e, _) outcome)"
  shows "unat (batch_sizes (wm_response (agg ! wm_worker_id m)) ! k) + N * unat (batch_sizes (wm_response m) ! k) < 256"
  using assms(1,4)
proof (induction N arbitrary: agg)
  case 0
  show ?case using unsigned_less [of "batch_sizes (wm_response (agg ! wm_worker_id m)) ! k", where 'a = nat] by simp
next
  case (Suc N)
  let ?i = "wm_worker_id m"
  have i: "?i < length agg" "metrics_ok (wm_response (agg ! ?i))" "metrics_ok (wm_response m)"
    using Suc.prems(1) assms(2) by (auto simp: accumulators_ok_def snapshot_ok_def)
  obtain r where r: "response_metrics_add Debug (wm_response (agg ! ?i)) (wm_response m) = (Ok r :: ('e, _) outcome)"
    using Suc.prems(2) i(1) by (auto simp: aggregate_one_def and_then_Ok_iff)
  note s = response_metrics_add_Debug [OF i(2,3) r]
  then have one: "aggregate_one Debug m agg = (Ok (agg[?i := add_snapshot (agg ! ?i) m]) :: ('e, _) outcome)"
    using i(1) r by (simp add: aggregate_one_def add_snapshot_def)
  have "batch_sizes (sum_metrics (wm_response (agg ! ?i)) (wm_response m)) ! k
      = batch_sizes (wm_response (agg ! ?i)) ! k + batch_sizes (wm_response m) ! k"
    using i(2,3) assms(3) by (simp add: sum_metrics_def metrics_ok_def)
  moreover have "unat (batch_sizes (wm_response (agg ! ?i)) ! k + batch_sizes (wm_response m) ! k)
      = unat (batch_sizes (wm_response (agg ! ?i)) ! k) + unat (batch_sizes (wm_response m) ! k)"
    using s assms(3) by (simp add: unat_word_ariths)
  ultimately show ?case
    using Suc.IH [OF accumulators_ok_update [OF Suc.prems(1) assms(2)]] Suc.prems(2) one i(1)
    by (simp add: add_snapshot_def)
qed

lemma aggregate_pending_not_Err: "aggregate_pending p ms agg \<noteq> Err e"
  by (induction ms arbitrary: agg)
    (auto simp: and_then_Err_iff aggregate_one_def response_metrics_add_def index_at_def add_counts_not_Err)

section \<open>Lemmas on reports\<close>

lemma calc_totals_Release:
  "\<forall>w\<in>set ws. metrics_ok (wm_response w) \<Longrightarrow> metrics_ok r \<Longrightarrow>
     \<exists>n' q' r'. calc_totals Release ws n q r = (Ok (n', q', r') :: ('e, _) outcome)"
  by (induction ws arbitrary: n q r) (auto simp: response_metrics_add_Release metrics_ok_sum)

lemma calc_aggregated_Release:
  "accumulators_ok n ws \<Longrightarrow> \<exists>g. calc_aggregated_metrics Release F d ws = (Ok g :: ('e, _) outcome)"
  using calc_totals_Release [of ws response_metrics_default network_metrics_default request_metrics_default, where 'e = 'e]
  by (fastforce simp: accumulators_ok_def calc_aggregated_metrics_def metrics_ok_init)

definition report_env_ok :: "('t, 'f) report_env \<Rightarrow> bool" where
  "report_env_ok M \<longleftrightarrow>
     (\<forall>t. re_from_system_time M t \<noteq> None) \<and>
     (\<forall>t ts. re_from_system_time M t = Some ts \<longrightarrow> re_strftime_utc M ''roughenough-metrics-%Y%m%d-%H%M%S.json'' ts \<noteq> None)"

lemma write_to_file_Panic:
  "fst (write_to_file M io snapshot path fs) = Panic \<longleftrightarrow>
     re_strftime_utc M ''roughenough-metrics-%Y%m%d-%H%M%S.json'' (ms_timestamp snapshot) = None"
  by (auto simp: write_to_file_def Let_def split: option.splits sum.splits)

lemma report_metrics_Release:
  assumes "accumulators_ok n (ma_aggregated a)" "report_env_ok M"
  shows "\<exists>states. report_metrics Release M io now d a fs = (Ok (), states)"
proof -
  obtain g where g: "calc_aggregated_metrics Release (re_f64 M) d (ma_aggregated a) = (Ok g :: (unit, _) outcome)"
    using calc_aggregated_Release [OF assms(1), of "re_f64 M" d, where 'e = unit] by blast
  obtain ts where ts: "re_from_system_time M now = Some ts"
    using assms(2) unfolding report_env_ok_def by (meson not_None_eq)
  have "fst (write_to_file M io \<lparr>ms_timestamp = ts, ms_duration_secs = d, ms_workers = ma_aggregated a, ms_totals = g\<rparr> path fs) \<noteq> Panic" for path
    using assms(2) ts by (auto simp: write_to_file_Panic report_env_ok_def)
  then show ?thesis using g ts
    by (auto simp: report_metrics_def metrics_snapshot_new_def split: option.splits prod.splits outcome.splits)
      (metis fst_conv)
qed

lemma aggregator_finish_Release:
  assumes "accumulators_ok n (ma_aggregated a)" "report_env_ok M"
    and "epoch_seconds sys (ma_clock a) = (Ok now :: (unit, u64) outcome)"
  shows "\<exists>nl states. aggregator_finish_pass Release M io sys systime nx ls a fs = (Ok nl, states)"
proof -
  obtain states where "report_metrics Release M io systime (f64_of (re_f64 M) (unat (now - ls))) a fs = (Ok (), states)"
    using report_metrics_Release [OF assms(1,2)] by blast
  then show ?thesis using assms(3)
    by (cases "nx \<le> now") (simp_all add: aggregator_finish_pass_def sub_word_Release add_word_Release)
qed

text \<open>The temporary file never is the report file.\<close>

lemma temp_path_differs: "path_join dir (''.'' @ name @ ''.tmp'') \<noteq> path_join dir name"
proof
  assume "path_join dir (''.'' @ name @ ''.tmp'') = path_join dir name"
  then have "length (path_join dir (''.'' @ name @ ''.tmp'')) = length (path_join dir name)" by simp
  then show False by (auto simp: path_join_def starts_with_def split: if_splits)
qed

section \<open>Properties\<close>

text \<open>Draining the channel: in a release build the inner loop of the metrics thread takes every waiting
  snapshot into account exactly once: the accumulator of each worker becomes the sum of what it was and of
  the snapshots of that worker, and no other accumulator changes. The per-worker counters of requests,
  responses and bytes are therefore the totals of what was published.\<close>

lemma drain_adds_up:
  assumes "accumulators_ok n agg" "\<forall>m\<in>set ms. snapshot_ok n m" "i < n"
  shows "\<exists>agg'. aggregate_pending Release ms agg = (Ok agg' :: ('e, _) outcome) \<and> accumulators_ok n agg' \<and>
    (let own = filter (\<lambda>m. wm_worker_id m = i) ms in
     num_ok_requests (wm_request (agg' ! i)) = num_ok_requests (wm_request (agg ! i)) + (\<Sum>m\<leftarrow>own. num_ok_requests (wm_request m)) \<and>
     num_bad_requests (wm_request (agg' ! i)) = num_bad_requests (wm_request (agg ! i)) + (\<Sum>m\<leftarrow>own. num_bad_requests (wm_request m)) \<and>
     num_successful_sends (wm_network (agg' ! i)) = num_successful_sends (wm_network (agg ! i)) + (\<Sum>m\<leftarrow>own. num_successful_sends (wm_network m)) \<and>
     num_responses (wm_response (agg' ! i)) = num_responses (wm_response (agg ! i)) + (\<Sum>m\<leftarrow>own. num_responses (wm_response m)) \<and>
     num_bytes_sent (wm_response (agg' ! i)) = num_bytes_sent (wm_response (agg ! i)) + (\<Sum>m\<leftarrow>own. num_bytes_sent (wm_response m)))"
proof -
  have "num_ok_requests (wm_request (foldl add_snapshot w own)) = num_ok_requests (wm_request w) + (\<Sum>m\<leftarrow>own. num_ok_requests (wm_request m))"
    "num_bad_requests (wm_request (foldl add_snapshot w own)) = num_bad_requests (wm_request w) + (\<Sum>m\<leftarrow>own. num_bad_requests (wm_request m))"
    "num_successful_sends (wm_network (foldl add_snapshot w own)) = num_successful_sends (wm_network w) + (\<Sum>m\<leftarrow>own. num_successful_sends (wm_network m))"
    "num_responses (wm_response (foldl add_snapshot w own)) = num_responses (wm_response w) + (\<Sum>m\<leftarrow>own. num_responses (wm_response m))"
    "num_bytes_sent (wm_response (foldl add_snapshot w own)) = num_bytes_sent (wm_response w) + (\<Sum>m\<leftarrow>own. num_bytes_sent (wm_response m))"
    for w own
    by (induction own arbitrary: w)
      (simp_all add: add_snapshot_def request_metrics_add_def network_metrics_add_def sum_metrics_def)
  then show ?thesis
    using aggregate_pending_Release [OF assms(1,2), where 'e = 'e] assms(3) unfolding Let_def by metis
qed

text \<open>The metrics thread never resets its accumulators, and their histogram has 8-bit counters: once the
  snapshots of a worker have reported 256 batches of one size, however many publications apart, a debug build panics
  in the metrics thread, while a release build goes on with a counter that has lost multiples of 256 although
  every response is still counted.\<close>

lemma accumulated_histogram_overflow:
  assumes "snapshot_ok n m" "k < MAX_BATCH_SIZE" "256 \<le> N * unat (batch_sizes (wm_response m) ! k)"
  shows "aggregate_pending Debug (replicate N m) (aggregator_init n) = (Panic :: ('e, _) outcome) \<and>
    (\<exists>agg. aggregate_pending Release (replicate N m) (aggregator_init n) = (Ok agg :: ('e, _) outcome) \<and>
       unat (batch_sizes (wm_response (agg ! wm_worker_id m)) ! k) = N * unat (batch_sizes (wm_response m) ! k) mod 256 \<and>
       num_responses (wm_response (agg ! wm_worker_id m)) = N * num_responses (wm_response m))"
proof -
  let ?i = "wm_worker_id m" and ?c = "batch_sizes (wm_response m) ! k"
  have D: "aggregate_pending Debug (replicate N m) (aggregator_init n) = (Panic :: ('e, _) outcome)"
    using aggregate_pending_Debug [OF aggregator_init_ok assms(1,2), of N _, where 'e = 'e] assms(3)
      aggregate_pending_not_Err [of Debug "replicate N m" "aggregator_init n", where 'a = 'e]
    by (cases "aggregate_pending Debug (replicate N m) (aggregator_init n) :: ('e, _) outcome") fastforce+
  have f: "filter (\<lambda>x. wm_worker_id x = ?i) (replicate N m) = replicate N m" by simp
  obtain agg where agg: "aggregate_pending Release (replicate N m) (aggregator_init n) = (Ok agg :: ('e, _) outcome)"
    "agg ! ?i = foldl add_snapshot (aggregator_init n ! ?i) (replicate N m)"
    using aggregate_pending_Release [OF aggregator_init_ok, of "replicate N m" n, where 'e = 'e] assms(1) f
    by (auto simp: snapshot_ok_def)
  have s: "metrics_ok (wm_response w) \<Longrightarrow>
      batch_sizes (wm_response (foldl add_snapshot w (replicate N m))) ! k = batch_sizes (wm_response w) ! k + of_nat N * ?c \<and>
      num_responses (wm_response (foldl add_snapshot w (replicate N m))) = num_responses (wm_response w) + N * num_responses (wm_response m)" for w
  proof (induction N arbitrary: w)
    case (Suc N)
    have "metrics_ok (wm_response (add_snapshot w m))"
      using Suc.prems assms(1) by (simp add: add_snapshot_def metrics_ok_sum snapshot_ok_def)
    moreover have "batch_sizes (wm_response (add_snapshot w m)) ! k = batch_sizes (wm_response w) ! k + ?c"
      using Suc.prems assms(1,2) by (simp add: add_snapshot_def sum_metrics_def metrics_ok_def snapshot_ok_def)
    ultimately show ?case using Suc.IH by (simp add: algebra_simps) (simp add: add_snapshot_def sum_metrics_def)
  qed simp
  have "aggregator_init n ! ?i = \<lparr>wm_worker_id = ?i, wm_network = network_metrics_default,
      wm_request = request_metrics_default, wm_response = response_metrics_default\<rparr>"
    using assms(1) by (simp add: aggregator_init_def snapshot_ok_def)
  with s [of "aggregator_init n ! ?i"] agg(2)
  have "batch_sizes (wm_response (agg ! ?i)) ! k = of_nat N * ?c" "num_responses (wm_response (agg ! ?i)) = N * num_responses (wm_response m)"
    using assms(2) by (auto simp: metrics_ok_init response_metrics_default_def metrics_ok_def)
  then have "unat (batch_sizes (wm_response (agg ! ?i)) ! k) = N * unat ?c mod 256"
    "num_responses (wm_response (agg ! ?i)) = N * num_responses (wm_response m)"
    by (simp_all add: unat_word_ariths unat_of_nat mod_mult_left_eq)
  with D agg(1) show ?thesis by blast
qed

text \<open>A report file is replaced atomically: whatever the file system answers and wherever the process is
  cut off, the report file holds what it held before or the complete JSON text, and no file but it and
  the temporary one is ever touched. When the write succeeds the file holds the text and the temporary one is gone;
  when it fails the report file is unchanged.\<close>

lemma snapshot_file_atomic:
  assumes "write_to_file M io snapshot dir fs = (res, states)"
    and "re_strftime_utc M ''roughenough-metrics-%Y%m%d-%H%M%S.json'' (ms_timestamp snapshot) = Some name"
  shows "(\<forall>fs'\<in>set states.
       (fs' (path_join dir name) = fs (path_join dir name) \<or>
        (\<exists>json. re_to_json M snapshot = Inr json \<and> fs' (path_join dir name) = Some (File json))) \<and>
       (\<forall>q. q \<noteq> path_join dir name \<and> q \<noteq> path_join dir (''.'' @ name @ ''.tmp'') \<longrightarrow> fs' q = fs q)) \<and>
     (case res of
        Ok f \<Rightarrow> f = name \<and> last states (path_join dir (''.'' @ name @ ''.tmp'')) = None \<and>
          (\<exists>json. re_to_json M snapshot = Inr json \<and> last states (path_join dir name) = Some (File json))
      | Err e \<Rightarrow> last states (path_join dir name) = fs (path_join dir name)
      | Panic \<Rightarrow> False)"
proof -
  let ?f = "path_join dir name" and ?t = "path_join dir (''.'' @ name @ ''.tmp'')"
  have "?t \<noteq> ?f" by (rule temp_path_differs)
  then show ?thesis using assms
    by (auto simp: write_to_file_def Let_def file_create_def file_rename_def last_map split: option.splits sum.splits if_splits)
qed

definition sample_report_env :: "(int, nat) report_env" where
  "sample_report_env =
     \<lparr>re_f64 = \<lparr>f64_of = (\<lambda>n. n), f64_mul = (*), f64_div = (div), f64_max = max, f64_epsilon = 1\<rparr>,
      re_from_system_time = Some, re_strftime_utc = (\<lambda>fmt ts. Some (''report-'' @ show_nat (nat ts))),
      re_to_json = (\<lambda>s. Inr [1, 2, 3])\<rparr>"

lemma sample_report_env_ok: "report_env_ok sample_report_env"
  by (simp add: report_env_ok_def sample_report_env_def)

text \<open>A write that is cut off after two bytes.\<close>

end
