(* ===== verification/Encoding.thy ===== *)
theory Encoding
  imports Tag_Values Text
begin

text \<open>
  Encodings of keys and other data: \<^verbatim>\<open>common/src/encoding.rs\<close> and \<^verbatim>\<open>protocol/src/util/hex.rs\<close>. The decoders
  of the encoding library are fields of a record; what is relied on is that the lower-case hexadecimal
  decoder reads what \<open>as_hex\<close> prints. Shown: a hexadecimal key or seed is decoded to itself, whatever the
  other decoders do, and the columns of a hex dump line up.
\<close>

section \<open>Hexadecimal printing\<close>

definition hex_digit :: "nat \<Rightarrow> char" where
  "hex_digit n = ''0123456789abcdef'' ! n"

definition hex2 :: "u8 \<Rightarrow> string" where
  "hex2 b = [hex_digit (unat b div 16), hex_digit (unat b mod 16)]"

definition as_hex :: "bytes \<Rightarrow> string" where
  "as_hex data = concat (map hex2 data)"

fun hex_nat :: "nat \<Rightarrow> string" where
  "hex_nat n = (if n < 16 then [hex_digit n] else hex_nat (n div 16) @ [hex_digit (n mod 16)])"

declare hex_nat.simps [simp del]

definition pad_zero :: "nat \<Rightarrow> string \<Rightarrow> string" where
  "pad_zero w s = replicate (w - length s) CHR ''0'' @ s"

section \<open>Decoding\<close>

record codecs =
  cd_hexlower :: "string \<Rightarrow> bytes option"
  cd_hexupper :: "string \<Rightarrow> bytes option"
  cd_base64url :: "string \<Rightarrow> bytes option"
  cd_base64url_nopad :: "string \<Rightarrow> bytes option"
  cd_base64 :: "string \<Rightarrow> bytes option"
  cd_base64_nopad :: "string \<Rightarrow> bytes option"

definition codecs_ok :: "codecs \<Rightarrow> bool" where
  "codecs_ok cs \<longleftrightarrow> (\<forall>bs. cd_hexlower cs (as_hex bs) = Some bs)"

datatype decode_error = DecodeFailed | DecodeLength nat

definition or_else :: "'a option \<Rightarrow> 'a option \<Rightarrow> 'a option" where
  "or_else x y = (case x of Some v \<Rightarrow> Some v | None \<Rightarrow> y)"

definition try_decode :: "codecs \<Rightarrow> string \<Rightarrow> (decode_error, bytes) outcome" where
  "try_decode cs s =
     (case or_else (or_else (or_else (or_else (or_else (cd_hexlower cs s) (cd_hexupper cs s))
             (cd_base64url cs s)) (cd_base64url_nopad cs s)) (cd_base64 cs s)) (cd_base64_nopad cs s) of
        Some value \<Rightarrow> Ok value
      | None \<Rightarrow> Err DecodeFailed)"

definition try_decode_key :: "codecs \<Rightarrow> string \<Rightarrow> (decode_error, public_key) outcome" where
  "try_decode_key cs encoded_key =
     and_then (try_decode cs encoded_key) (\<lambda>key.
     if length key \<noteq> 32 then Err (DecodeLength (length key))
     else pubk_from_slice key)"

section \<open>Hex dumps\<close>

text \<open>The pairs of digits, with a blank after every second byte, and the blanks that fill up a short line.
  \<open>i\<close> is the position in the line.\<close>

fun dump_bytes :: "nat \<Rightarrow> bytes \<Rightarrow> string" where
  "dump_bytes i [] = []"
| "dump_bytes i (b # bs) = hex2 b @ (if i mod 2 = 1 then '' '' else []) @ dump_bytes (Suc i) bs"

fun dump_padding :: "nat \<Rightarrow> nat \<Rightarrow> string" where
  "dump_padding i 0 = []"
| "dump_padding i (Suc n) = ''  '' @ (if i mod 2 = 1 then '' '' else []) @ dump_padding (Suc i) n"

definition dump_char :: "u8 \<Rightarrow> char" where
  "dump_char b = (if 32 \<le> unat b \<and> unat b \<le> 126 then char_of (unat b) else CHR ''.'')"

definition BYTES_PER_LINE :: nat where
  "BYTES_PER_LINE = 16"

definition dump_line :: "nat \<Rightarrow> bytes \<Rightarrow> string" where
  "dump_line offset chunk =
     pad_zero 8 (hex_nat (offset * BYTES_PER_LINE)) @ '': '' @ dump_bytes 0 chunk
     @ dump_padding (length chunk) (BYTES_PER_LINE - length chunk) @ '' |'' @ map dump_char chunk @ ''|'' @ [CHR 0x0A]"

fun dump_lines :: "nat \<Rightarrow> bytes list \<Rightarrow> string" where
  "dump_lines offset [] = []"
| "dump_lines offset (chunk # cs) = dump_line offset chunk @ dump_lines (Suc offset) cs"

definition hexdump :: "bytes \<Rightarrow> string" where
  "hexdump data = dump_lines 0 (chunks BYTES_PER_LINE data)"

section \<open>Lemmas\<close>

lemma dump_bytes_length: "length (dump_bytes i bs) + i div 2 = 2 * length bs + (i + length bs) div 2"
proof (induction i bs rule: dump_bytes.induct)
  case (2 i b bs)
  then show ?case by (cases "even i") (auto simp: hex2_def odd_iff_mod_2_eq_one)
qed simp

lemma dump_padding_length: "length (dump_padding i n) + i div 2 = 2 * n + (i + n) div 2"
proof (induction i n rule: dump_padding.induct)
  case (2 i n)
  then show ?case by (cases "even i") (auto simp: odd_iff_mod_2_eq_one)
qed simp

lemma hex_nat_length: "n < 16 ^ Suc k \<Longrightarrow> length (hex_nat n) \<le> Suc k"
proof (induction k arbitrary: n)
  case (Suc k)
  then have "n div 16 < 16 ^ Suc k" by (simp add: div_less_iff_less_mult mult.commute)
  from Suc.IH [OF this] show ?case by (subst hex_nat.simps) simp
qed (simp add: hex_nat.simps)

lemma dump_area_length:
  assumes "length chunk \<le> BYTES_PER_LINE"
  shows "length (dump_bytes 0 chunk @ dump_padding (length chunk) (BYTES_PER_LINE - length chunk)) = 40"
  using dump_bytes_length [of 0 chunk] dump_padding_length [of "length chunk" "BYTES_PER_LINE - length chunk"] assms
  by (simp add: BYTES_PER_LINE_def)

lemma try_decode_hex: "codecs_ok cs \<Longrightarrow> try_decode cs (as_hex bs) = Ok bs"
  by (simp add: try_decode_def codecs_ok_def or_else_def)

lemma chunks_length: "chunk \<in> set (chunks n xs) \<Longrightarrow> length chunk \<le> n"
proof (induction n xs rule: chunks.induct)
  case (1 n xs)
  then show ?case by (subst (asm) (2) chunks.simps) (auto split: if_splits)
qed

lemma concat_chunks: "0 < n \<Longrightarrow> concat (chunks n xs) = xs"
proof (induction n xs rule: chunks.induct)
  case (1 n xs)
  then show ?case by (subst chunks.simps) auto
qed

lemma length_chunks: "n * length (chunks n xs) < length xs + n \<or> n = 0"
proof (induction n xs rule: chunks.induct)
  case (1 n xs)
  show ?case
  proof (cases "xs = [] \<or> n = 0 \<or> length xs < n")
    case True
    then show ?thesis by (subst chunks.simps) (auto simp: chunks.simps [of n "[]"])
  next
    case False
    then show ?thesis using 1 by (subst chunks.simps) auto
  qed
qed

section \<open>Properties\<close>

text \<open>The lines of a hex dump are aligned and complete: the dump of at most \<open>2 ^ 32\<close> bytes is a sequence of lines, one for
  every 16 bytes of the data in order; in each of them, also in a last and shorter one, 50 characters precede
  the text column, which shows exactly the line's bytes.\<close>

lemma hexdump_aligned:
  assumes "length data \<le> 2 ^ 32"
  shows "\<exists>lines. hexdump data = concat lines \<and> length lines = length (chunks BYTES_PER_LINE data) \<and>
     concat (chunks BYTES_PER_LINE data) = data \<and>
     (\<forall>i<length lines. \<exists>lead. length lead = 50 \<and>
        lines ! i = lead @ '' |'' @ map dump_char (chunks BYTES_PER_LINE data ! i) @ ''|'' @ [CHR 0x0A])"
proof -
  let ?cs = "chunks BYTES_PER_LINE data" and ?ls = "\<lambda>off cs. map (\<lambda>i. dump_line (off + i) (cs ! i)) [0..<length cs]"
  have lines: "dump_lines off cs = concat (?ls off cs)" for off cs
  proof (induction off cs rule: dump_lines.induct)
    case (2 off c cs)
    have "?ls off (c # cs) = dump_line off c # ?ls (Suc off) cs"
      by (simp add: upt_conv_Cons map_Suc_upt [symmetric] comp_def del: upt_Suc)
    with 2 show ?case by simp
  qed simp
  have "\<exists>lead. length lead = 50 \<and> dump_line i (?cs ! i) = lead @ '' |'' @ map dump_char (?cs ! i) @ ''|'' @ [CHR 0x0A]"
    if i: "i < length ?cs" for i
  proof -
    have c: "length (?cs ! i) \<le> BYTES_PER_LINE" using chunks_length nth_mem [OF i] by blast
    have "BYTES_PER_LINE * length ?cs < length data + BYTES_PER_LINE"
      using length_chunks [of BYTES_PER_LINE data] by (auto simp: BYTES_PER_LINE_def)
    then have "i * BYTES_PER_LINE < 16 ^ Suc 7" using i assms by (simp add: BYTES_PER_LINE_def)
    from hex_nat_length [OF this] dump_area_length [OF c] show ?thesis
      by (intro exI [of _ "pad_zero 8 (hex_nat (i * BYTES_PER_LINE)) @ '': '' @ dump_bytes 0 (?cs ! i)
            @ dump_padding (length (?cs ! i)) (BYTES_PER_LINE - length (?cs ! i))"])
        (simp add: dump_line_def pad_zero_def)
  qed
  then show ?thesis
    using lines [of 0 ?cs] concat_chunks [of BYTES_PER_LINE data]
    by (intro exI [of _ "?ls 0 ?cs"]) (simp add: hexdump_def BYTES_PER_LINE_def)
qed

end
