(* ===== verification/Seed_Storage.thy ===== *)
theory Seed_Storage
  imports Keys Encoding
begin

text \<open>
  Long-term storage of the server's seed: envelopes (\<^verbatim>\<open>longterm/envelope.rs\<close>), key management services and
  secret stores (\<^verbatim>\<open>awskms.rs\<close>, \<^verbatim>\<open>gcpkms.rs\<close>, \<^verbatim>\<open>awssecret.rs\<close>, \<^verbatim>\<open>gcpsecret.rs\<close>) and the dispatch on
  the prefix of a resource (\<^verbatim>\<open>storage.rs\<close>). The authenticated cipher, the cloud services, the CRC and the
  text of JSON are arguments, with their documented behaviour as hypotheses (\<open>aead_ok\<close>, \<open>aws_kms_ok\<close>,
  \<open>gcp_kms_ok\<close>, \<open>env_ok\<close>). Shown: what is sealed opens again, a sealed seed loads as the seed that was
  sealed, prefixes select their method, and the envelope of a secret store cannot be read back.
\<close>

section \<open>Envelopes\<close>

text \<open>AES-256-GCM: key, nonce, additional data, then plaintext or ciphertext with its tag.\<close>

record aead =
  ae_seal :: "bytes \<Rightarrow> bytes \<Rightarrow> bytes \<Rightarrow> bytes \<Rightarrow> bytes"
  ae_open :: "bytes \<Rightarrow> bytes \<Rightarrow> bytes \<Rightarrow> bytes \<Rightarrow> bytes option"

definition TAG_LEN :: nat where
  "TAG_LEN = 16"

definition NONCE_LEN :: nat where
  "NONCE_LEN = 12"

definition aead_ok :: "aead \<Rightarrow> bool" where
  "aead_ok A \<longleftrightarrow> (\<forall>k n aad m. length n = NONCE_LEN \<longrightarrow>
     length (ae_seal A k n aad m) = length m + TAG_LEN \<and> ae_open A k n aad (ae_seal A k n aad m) = Some m)"

record seed_envelope =
  se_key_id :: string
  se_seed_ct :: bytes
  se_dek_ct :: bytes

text \<open>
  The derived serialisation to a JSON object: the fields in their order, empty byte strings skipped
  (\<open>skip_serializing_if\<close>), byte strings in unpadded base64. The derived deserialisation wants every field
  exactly once, since none has a default. A field of another JSON type than string is \<open>None\<close>.
\<close>

type_synonym json_fields = "(string \<times> string option) list"

definition envelope_fields :: "(bytes \<Rightarrow> string) \<Rightarrow> seed_envelope \<Rightarrow> json_fields" where
  "envelope_fields b64 e =
     [(''key_id'', Some (se_key_id e))] @
     (if se_seed_ct e = [] then [] else [(''seed_ct'', Some (b64 (se_seed_ct e)))]) @
     (if se_dek_ct e = [] then [] else [(''dek_ct'', Some (b64 (se_dek_ct e)))])"

definition string_field :: "string \<Rightarrow> json_fields \<Rightarrow> string option" where
  "string_field name fs = (case filter (\<lambda>(k, _). k = name) fs of [(_, v)] \<Rightarrow> v | _ \<Rightarrow> None)"

definition envelope_of_fields :: "(string \<Rightarrow> bytes option) \<Rightarrow> json_fields \<Rightarrow> seed_envelope option" where
  "envelope_of_fields unb64 fs =
     Option.bind (string_field ''key_id'' fs) (\<lambda>k.
     Option.bind (string_field ''seed_ct'' fs) (\<lambda>s.
     Option.bind (unb64 s) (\<lambda>seed_ct.
     Option.bind (string_field ''dek_ct'' fs) (\<lambda>d.
     Option.bind (unb64 d) (\<lambda>dek_ct.
     Some \<lparr>se_key_id = k, se_seed_ct = seed_ct, se_dek_ct = dek_ct\<rparr>)))))"

text \<open>\<open>nonce\<close> is the random nonce the library draws.\<close>

definition seal_seed :: "aead \<Rightarrow> bytes \<Rightarrow> bytes \<Rightarrow> bytes \<Rightarrow> bytes \<Rightarrow> ('e, bytes) outcome" where
  "seal_seed A nonce dek seed aad =
     (let in_out = ae_seal A dek nonce aad seed @ nonce in
      and_then (assert_that (length in_out = length seed + TAG_LEN + NONCE_LEN)) (\<lambda>_. Ok in_out))"

definition open_seed :: "profile \<Rightarrow> aead \<Rightarrow> bytes \<Rightarrow> bytes \<Rightarrow> bytes \<Rightarrow> (unit, bytes) outcome" where
  "open_seed p A dek encrypted_seed aad =
     and_then (sub_usize p (length encrypted_seed) NONCE_LEN) (\<lambda>ciphertext_len.
     and_then (slice_of encrypted_seed ciphertext_len (length encrypted_seed)) (\<lambda>nonce.
     if length nonce \<noteq> NONCE_LEN then Err ()
     else
     and_then (slice_of encrypted_seed 0 ciphertext_len) (\<lambda>in_out.
     case ae_open A dek nonce aad in_out of
       None \<Rightarrow> Err ()
     | Some plaintext \<Rightarrow> seed_new plaintext)))"

section \<open>Key management services\<close>

definition AAD :: bytes where
  "AAD = ascii ''roughenough-seed''"

definition extract_aws_region :: "string \<Rightarrow> ('e, string) outcome" where
  "extract_aws_region arn =
     (let parts = split_on CHR '':'' arn in if 3 < length parts then Ok (parts ! 3) else Panic)"

datatype protection = Plain | AwsKms | GcpKms | AwsSecretManager | GcpSecretManager

fun protection_prefix :: "protection \<Rightarrow> string" where
  "protection_prefix Plain = ''seed://''"
| "protection_prefix AwsKms = ''aws-kms://''"
| "protection_prefix GcpKms = ''gcp-kms://''"
| "protection_prefix AwsSecretManager = ''aws-secret://''"
| "protection_prefix GcpSecretManager = ''gcp-secret://''"

definition from_prefix :: "string \<Rightarrow> protection option" where
  "from_prefix s =
     (if starts_with ''aws-kms://'' s then Some AwsKms
      else if starts_with ''aws-secret://'' s then Some AwsSecretManager
      else if starts_with ''gcp-kms://'' s then Some GcpKms
      else if starts_with ''gcp-secret://'' s then Some GcpSecretManager
      else if starts_with ''seed://'' s then Some Plain
      else None)"

text \<open>The answer of AWS KMS: the key and the data, each optional; a failed call is \<open>None\<close>.\<close>

record aws_kms =
  aw_encrypt :: "string \<Rightarrow> bytes \<Rightarrow> (string option \<times> bytes option) option"
  aw_decrypt :: "string \<Rightarrow> bytes \<Rightarrow> (string option \<times> bytes option) option"

definition unwrap :: "'a option \<Rightarrow> ('e, 'a) outcome" where
  "unwrap x = (case x of Some v \<Rightarrow> Ok v | None \<Rightarrow> Panic)"

definition aws_seal_dek :: "aws_kms \<Rightarrow> bytes \<Rightarrow> string \<Rightarrow> ('e, bytes) outcome" where
  "aws_seal_dek S dek key_id =
     and_then (extract_aws_region key_id) (\<lambda>_.
     and_then (unwrap (aw_encrypt S key_id dek)) (\<lambda>(rkey, blob).
     and_then (unwrap rkey) (\<lambda>k.
     and_then (assert_that (key_id = k)) (\<lambda>_.
     unwrap blob))))"

definition aws_open_dek :: "aws_kms \<Rightarrow> bytes \<Rightarrow> string \<Rightarrow> ('e, bytes) outcome" where
  "aws_open_dek S dek_ciphertext key_id =
     and_then (extract_aws_region key_id) (\<lambda>_.
     and_then (unwrap (aw_decrypt S key_id dek_ciphertext)) (\<lambda>(rkey, blob).
     and_then (unwrap rkey) (\<lambda>k.
     and_then (assert_that (key_id = k)) (\<lambda>_.
     and_then (unwrap blob) (copy_array 32)))))"

text \<open>The answers of GCP KMS.\<close>

record gcp_encrypted =
  ge_name :: string
  ge_ciphertext :: bytes
  ge_ciphertext_crc32c :: "int option"
  ge_verified_plaintext_crc32c :: bool

record gcp_decrypted =
  gd_plaintext :: bytes
  gd_plaintext_crc32c :: "int option"

record gcp_kms =
  gc_crc32c :: "bytes \<Rightarrow> u32"
  gc_encrypt :: "string \<Rightarrow> bytes \<Rightarrow> gcp_encrypted option"
  gc_decrypt :: "string \<Rightarrow> bytes \<Rightarrow> gcp_decrypted option"

definition gcp_seal_dek :: "gcp_kms \<Rightarrow> bytes \<Rightarrow> string \<Rightarrow> ('e, bytes) outcome" where
  "gcp_seal_dek S dek key_id =
     and_then (unwrap (gc_encrypt S key_id dek)) (\<lambda>r.
     and_then (unwrap (ge_ciphertext_crc32c r)) (\<lambda>crc.
     and_then (assert_that (word_of_int crc = gc_crc32c S (ge_ciphertext r))) (\<lambda>_.
     and_then (assert_that (starts_with key_id (ge_name r))) (\<lambda>_.
     and_then (assert_that (ge_verified_plaintext_crc32c r)) (\<lambda>_.
     Ok (ge_ciphertext r))))))"

definition gcp_open_dek :: "gcp_kms \<Rightarrow> bytes \<Rightarrow> string \<Rightarrow> ('e, bytes) outcome" where
  "gcp_open_dek S dek_ciphertext key_id =
     and_then (unwrap (gc_decrypt S key_id dek_ciphertext)) (\<lambda>r.
     and_then (unwrap (gd_plaintext_crc32c r)) (\<lambda>crc.
     and_then (assert_that (word_of_int crc = gc_crc32c S (gd_plaintext r))) (\<lambda>_.
     copy_array 32 (gd_plaintext r))))"

text \<open>\<open>encrypt_seed\<close> and \<open>decrypt_seed\<close>, which the two modules share up to the service and the prefix.\<close>

definition aws_encrypt_seed :: "aead \<Rightarrow> aws_kms \<Rightarrow> bytes \<Rightarrow> bytes \<Rightarrow> string \<Rightarrow> bytes \<Rightarrow> ('e, seed_envelope) outcome" where
  "aws_encrypt_seed A S dek nonce key_id seed =
     and_then (aws_seal_dek S dek key_id) (\<lambda>dek_ciphertext.
     and_then (seal_seed A nonce dek seed AAD) (\<lambda>seed_ciphertext.
     Ok \<lparr>se_key_id = protection_prefix AwsKms @ key_id, se_seed_ct = seed_ciphertext, se_dek_ct = dek_ciphertext\<rparr>))"

definition aws_decrypt_seed :: "profile \<Rightarrow> aead \<Rightarrow> aws_kms \<Rightarrow> seed_envelope \<Rightarrow> ('e, bytes) outcome" where
  "aws_decrypt_seed p A S envelope =
     and_then (unwrap (strip_prefix (protection_prefix AwsKms) (se_key_id envelope))) (\<lambda>key_id.
     and_then (aws_open_dek S (se_dek_ct envelope) key_id) (\<lambda>dek.
     expect (open_seed p A dek (se_seed_ct envelope) AAD)))"

definition gcp_encrypt_seed :: "aead \<Rightarrow> gcp_kms \<Rightarrow> bytes \<Rightarrow> bytes \<Rightarrow> string \<Rightarrow> bytes \<Rightarrow> ('e, seed_envelope) outcome" where
  "gcp_encrypt_seed A S dek nonce key_id seed =
     and_then (gcp_seal_dek S dek key_id) (\<lambda>dek_ciphertext.
     and_then (seal_seed A nonce dek seed AAD) (\<lambda>seed_ciphertext.
     Ok \<lparr>se_key_id = protection_prefix GcpKms @ key_id, se_seed_ct = seed_ciphertext, se_dek_ct = dek_ciphertext\<rparr>))"

definition gcp_decrypt_seed :: "profile \<Rightarrow> aead \<Rightarrow> gcp_kms \<Rightarrow> seed_envelope \<Rightarrow> ('e, bytes) outcome" where
  "gcp_decrypt_seed p A S envelope =
     and_then (unwrap (strip_prefix (protection_prefix GcpKms) (se_key_id envelope))) (\<lambda>key_id.
     and_then (gcp_open_dek S (se_dek_ct envelope) key_id) (\<lambda>dek.
     expect (open_seed p A dek (se_seed_ct envelope) AAD)))"

section \<open>Secret stores\<close>

text \<open>The contents of the stores are maps; a value of GCP comes with an optional checksum. \<open>put_ok\<close> says
  whether the service accepts the value.\<close>

definition aws_get_seed :: "codecs \<Rightarrow> (string \<Rightarrow> string option) \<Rightarrow> string \<Rightarrow> ('e, bytes) outcome" where
  "aws_get_seed cs secrets resource =
     and_then (extract_aws_region resource) (\<lambda>_.
     and_then (unwrap (secrets resource)) (\<lambda>encoded_str.
     and_then (expect (try_decode cs encoded_str)) seed_new))"

definition aws_store_seed ::
  "bool \<Rightarrow> string \<Rightarrow> bytes \<Rightarrow> (string \<Rightarrow> string option) \<Rightarrow> (string, string \<Rightarrow> string option) outcome" where
  "aws_store_seed put_ok resource seed secrets =
     and_then (extract_aws_region resource) (\<lambda>_.
     if put_ok then Ok (secrets(resource \<mapsto> as_hex seed)) else Err ''failed to store secret'')"

definition gcp_get_seed ::
  "codecs \<Rightarrow> (bytes \<Rightarrow> u32) \<Rightarrow> (bytes \<Rightarrow> string) \<Rightarrow> (string \<Rightarrow> (bytes \<times> int option) option) \<Rightarrow> string \<Rightarrow> ('e, bytes) outcome" where
  "gcp_get_seed cs crc32c lossy secrets resource =
     and_then (unwrap (secrets resource)) (\<lambda>(encoded_value, data_crc32c).
     and_then (case data_crc32c of Some c \<Rightarrow> assert_that (word_of_int c = crc32c encoded_value) | None \<Rightarrow> Ok ()) (\<lambda>_.
     and_then (expect (try_decode cs (lossy encoded_value))) seed_new))"

definition extract_secret_parent :: "string \<Rightarrow> (string, string) outcome" where
  "extract_secret_parent resource =
     (let parts = split_on CHR ''/'' resource in
      if length parts < 4 \<or> parts ! 0 \<noteq> ''projects'' \<or> parts ! 2 \<noteq> ''secrets''
      then Err (''Invalid resource format: '' @ resource)
      else if length parts = 4 then Ok resource
      else if length parts > 4
      then Ok (parts ! 0 @ CHR ''/'' # parts ! 1 @ CHR ''/'' # parts ! 2 @ CHR ''/'' # parts ! 3)
      else Err (''Invalid resource format: '' @ resource))"

text \<open>\<open>version\<close> is the name the service gives to the new version of the secret \<open>parent\<close>.\<close>

definition gcp_store_seed ::
  "bool \<Rightarrow> (string \<Rightarrow> string) \<Rightarrow> (bytes \<Rightarrow> u32) \<Rightarrow> string \<Rightarrow> bytes \<Rightarrow> (string \<Rightarrow> (bytes \<times> int option) option) \<Rightarrow>
     (string, string \<times> (string \<Rightarrow> (bytes \<times> int option) option)) outcome" where
  "gcp_store_seed put_ok version crc32c resource seed secrets =
     (let data = ascii (as_hex seed) in
      and_then (extract_secret_parent resource) (\<lambda>parent.
      if put_ok then Ok (version parent, secrets(version parent \<mapsto> (data, Some (uint (crc32c data)))))
      else Err ''failed to store secret''))"

section \<open>Loading and storing\<close>

datatype storage_error =
    InvalidSeed string
  | NotImplemented string
  | DecodeError decode_error
  | InvalidEnvelope
  | SecretManager string

record seed_env =
  ev_codecs :: codecs
  ev_base64_nopad :: "bytes \<Rightarrow> string"
  ev_json_print :: "json_fields \<Rightarrow> bytes"
  ev_json_parse :: "bytes \<Rightarrow> json_fields option"
  ev_aead :: aead
  ev_aws_kms :: "aws_kms option"
  ev_gcp_kms :: "gcp_kms option"
  ev_aws_secrets :: "(string \<Rightarrow> string option) option"
  ev_gcp_secrets :: "(string \<Rightarrow> (bytes \<times> int option) option) option"
  ev_crc32c :: "bytes \<Rightarrow> u32"
  ev_lossy :: "bytes \<Rightarrow> string"

text \<open>A service that was not compiled in is \<open>None\<close>.\<close>

definition not_enabled :: "string \<Rightarrow> string \<Rightarrow> string" where
  "not_enabled service feature =
     service @ '' is not enabled. Recompile with the '' @ [CHR 0x27] @ feature @ [CHR 0x27] @ '' feature to support it''"

definition envelope_to_json :: "seed_env \<Rightarrow> seed_envelope \<Rightarrow> bytes" where
  "envelope_to_json env e = ev_json_print env (envelope_fields (ev_base64_nopad env) e)"

definition envelope_from_json :: "seed_env \<Rightarrow> bytes \<Rightarrow> seed_envelope option" where
  "envelope_from_json env bs =
     Option.bind (ev_json_parse env bs) (envelope_of_fields (cd_base64_nopad (ev_codecs env)))"

definition load_envelope :: "seed_env \<Rightarrow> string \<Rightarrow> (storage_error, seed_envelope) outcome" where
  "load_envelope env val =
     and_then (map_err DecodeError (try_decode (ev_codecs env) val)) (\<lambda>json_envelope.
     case envelope_from_json env json_envelope of Some e \<Rightarrow> Ok e | None \<Rightarrow> Err InvalidEnvelope)"

definition try_load_plain :: "seed_env \<Rightarrow> string \<Rightarrow> (storage_error, bytes) outcome" where
  "try_load_plain env val =
     and_then (map_err DecodeError (try_decode (ev_codecs env) val)) (\<lambda>data.
     if length data \<noteq> 32 then Err (InvalidSeed (''need 32 bytes, found: '' @ show_nat (length data)))
     else seed_new data)"

definition try_load_aws_kms :: "profile \<Rightarrow> seed_env \<Rightarrow> string \<Rightarrow> (storage_error, bytes) outcome" where
  "try_load_aws_kms p env val =
     (case ev_aws_kms env of
        None \<Rightarrow> Err (NotImplemented (not_enabled ''AWS KMS'' ''longterm-aws-kms''))
      | Some S \<Rightarrow> and_then (load_envelope env val) (aws_decrypt_seed p (ev_aead env) S))"

definition try_load_gcp_kms :: "profile \<Rightarrow> seed_env \<Rightarrow> string \<Rightarrow> (storage_error, bytes) outcome" where
  "try_load_gcp_kms p env val =
     (case ev_gcp_kms env of
        None \<Rightarrow> Err (NotImplemented (not_enabled ''GCP KMS'' ''longterm-gcp-kms''))
      | Some S \<Rightarrow> and_then (load_envelope env val) (gcp_decrypt_seed p (ev_aead env) S))"

definition try_load_aws_secret :: "seed_env \<Rightarrow> string \<Rightarrow> (storage_error, bytes) outcome" where
  "try_load_aws_secret env val =
     (case ev_aws_secrets env of
        None \<Rightarrow> Err (NotImplemented (not_enabled ''AWS Secret Manager'' ''longterm-aws-secret-manager''))
      | Some secrets \<Rightarrow>
          and_then (load_envelope env val) (\<lambda>e.
          and_then (unwrap (strip_prefix (protection_prefix AwsSecretManager) (se_key_id e)))
            (aws_get_seed (ev_codecs env) secrets)))"

definition try_load_gcp_secret :: "seed_env \<Rightarrow> string \<Rightarrow> (storage_error, bytes) outcome" where
  "try_load_gcp_secret env val =
     (case ev_gcp_secrets env of
        None \<Rightarrow> Err (NotImplemented (not_enabled ''GCP Secret Manager'' ''longterm-gcp-secret-manager''))
      | Some secrets \<Rightarrow>
          and_then (load_envelope env val) (\<lambda>e.
          and_then (unwrap (strip_prefix (protection_prefix GcpSecretManager) (se_key_id e)))
            (gcp_get_seed (ev_codecs env) (ev_crc32c env) (ev_lossy env) secrets)))"

fun try_load :: "profile \<Rightarrow> seed_env \<Rightarrow> protection \<Rightarrow> string \<Rightarrow> (storage_error, bytes) outcome" where
  "try_load p env Plain val = try_load_plain env val"
| "try_load p env AwsKms val = try_load_aws_kms p env val"
| "try_load p env GcpKms val = try_load_gcp_kms p env val"
| "try_load p env AwsSecretManager val = try_load_aws_secret env val"
| "try_load p env GcpSecretManager val = try_load_gcp_secret env val"

definition try_load_seed :: "profile \<Rightarrow> seed_env \<Rightarrow> string \<Rightarrow> (storage_error, bytes) outcome" where
  "try_load_seed p env encoded_value =
     (case from_prefix encoded_value of
        Some m \<Rightarrow> and_then (unwrap (strip_prefix (protection_prefix m) encoded_value)) (try_load p env m)
      | None \<Rightarrow> try_load p env Plain encoded_value)"

text \<open>Storing needs the drawn key and nonce, the name of the new secret version and whether the services accept.\<close>

record store_input =
  si_dek :: bytes
  si_nonce :: bytes
  si_put_ok :: bool
  si_version :: "string \<Rightarrow> string"

definition try_store_aws_secret ::
  "store_input \<Rightarrow> bytes \<Rightarrow> string \<Rightarrow> seed_env \<Rightarrow> (storage_error, seed_envelope \<times> seed_env) outcome" where
  "try_store_aws_secret si seed resource_id env =
     (case ev_aws_secrets env of
        None \<Rightarrow> Err (NotImplemented (not_enabled ''AWS Secret Manager'' ''longterm-aws-secret-manager''))
      | Some secrets \<Rightarrow>
          and_then (map_err (\<lambda>_. SecretManager ''Failed to store seed in AWS Secret Manager'')
                     (aws_store_seed (si_put_ok si) resource_id seed secrets)) (\<lambda>secrets'.
          Ok (\<lparr>se_key_id = protection_prefix AwsSecretManager @ resource_id, se_seed_ct = [], se_dek_ct = []\<rparr>,
              env\<lparr>ev_aws_secrets := Some secrets'\<rparr>)))"

definition try_store_gcp_secret ::
  "store_input \<Rightarrow> bytes \<Rightarrow> string \<Rightarrow> seed_env \<Rightarrow> (storage_error, seed_envelope \<times> seed_env) outcome" where
  "try_store_gcp_secret si seed resource_id env =
     (case ev_gcp_secrets env of
        None \<Rightarrow> Err (NotImplemented (not_enabled ''GCP Secret Manager'' ''longterm-gcp-secret-manager''))
      | Some secrets \<Rightarrow>
          and_then (map_err (\<lambda>e. SecretManager (''Failed to store seed in GCP Secret Manager: '' @ e))
                     (gcp_store_seed (si_put_ok si) (si_version si) (ev_crc32c env) resource_id seed secrets)) (\<lambda>(version, secrets').
          Ok (\<lparr>se_key_id = protection_prefix GcpSecretManager @ version, se_seed_ct = [], se_dek_ct = []\<rparr>,
              env\<lparr>ev_gcp_secrets := Some secrets'\<rparr>)))"

fun try_store ::
  "store_input \<Rightarrow> protection \<Rightarrow> bytes \<Rightarrow> string \<Rightarrow> seed_env \<Rightarrow> (storage_error, seed_envelope \<times> seed_env) outcome" where
  "try_store si AwsKms seed resource_id env =
     (case ev_aws_kms env of
        None \<Rightarrow> Err (NotImplemented (not_enabled ''AWS KMS'' ''longterm-aws-kms''))
      | Some S \<Rightarrow> and_then (aws_encrypt_seed (ev_aead env) S (si_dek si) (si_nonce si) resource_id seed) (\<lambda>e. Ok (e, env)))"
| "try_store si GcpKms seed resource_id env =
     (case ev_gcp_kms env of
        None \<Rightarrow> Err (NotImplemented (not_enabled ''GCP KMS'' ''longterm-gcp-kms''))
      | Some S \<Rightarrow> and_then (gcp_encrypt_seed (ev_aead env) S (si_dek si) (si_nonce si) resource_id seed) (\<lambda>e. Ok (e, env)))"
| "try_store si AwsSecretManager seed resource_id env = try_store_aws_secret si seed resource_id env"
| "try_store si GcpSecretManager seed resource_id env = try_store_gcp_secret si seed resource_id env"
| "try_store si Plain seed resource_id env = Panic"

definition try_store_seed ::
  "store_input \<Rightarrow> bytes \<Rightarrow> string \<Rightarrow> seed_env \<Rightarrow> (storage_error, seed_envelope \<times> seed_env) outcome" where
  "try_store_seed si seed resource_id env =
     (case from_prefix resource_id of
        Some m \<Rightarrow> and_then (unwrap (strip_prefix (protection_prefix m) resource_id)) (\<lambda>r. try_store si m seed r env)
      | None \<Rightarrow> Err (InvalidSeed ''no protection method specified in resource''))"

section \<open>Prefixes and envelopes\<close>

lemma from_prefix_append [simp]: "from_prefix (protection_prefix m @ s) = Some m"
  by (cases m) (simp_all add: from_prefix_def starts_with_def)

lemma try_load_seed_prefix: "try_load_seed p env (protection_prefix m @ s) = try_load p env m s"
  by (simp add: try_load_seed_def unwrap_def)

lemma try_store_seed_prefix: "try_store_seed si seed (protection_prefix m @ r) env = try_store si m seed r env"
  by (simp add: try_store_seed_def unwrap_def)

lemma seal_seed_Ok:
  assumes "aead_ok A" and "length nonce = NONCE_LEN"
  shows "seal_seed A nonce dek seed aad = Ok (ae_seal A dek nonce aad seed @ nonce)"
  using assms by (simp add: seal_seed_def aead_ok_def)

lemma open_seal_seed:
  assumes "aead_ok A" and "length nonce = NONCE_LEN" and "length seed = 32"
  shows "open_seed p A dek (ae_seal A dek nonce aad seed @ nonce) aad = Ok seed"
  using assms by (simp add: open_seed_def slice_of_def aead_ok_def seed_new_def)

lemma envelope_fields_roundtrip:
  assumes "\<And>bs. unb64 (b64 bs) = Some bs"
  shows "envelope_of_fields unb64 (envelope_fields b64 e) =
           (if se_seed_ct e = [] \<or> se_dek_ct e = [] then None else Some e)"
  using assms by (simp add: envelope_of_fields_def envelope_fields_def string_field_def)

definition env_ok :: "seed_env \<Rightarrow> bool" where
  "env_ok env \<longleftrightarrow> codecs_ok (ev_codecs env) \<and> aead_ok (ev_aead env) \<and>
     (\<forall>bs. cd_base64_nopad (ev_codecs env) (ev_base64_nopad env bs) = Some bs) \<and>
     (\<forall>fs. distinct (map fst fs) \<longrightarrow> ev_json_parse env (ev_json_print env fs) = Some fs)"

lemma envelope_json_roundtrip:
  assumes "env_ok env"
  shows "envelope_from_json env (envelope_to_json env e) =
           (if se_seed_ct e = [] \<or> se_dek_ct e = [] then None else Some e)"
proof -
  have "distinct (map fst (envelope_fields b e))" for b
    by (simp add: envelope_fields_def)
  with assms show ?thesis
    by (simp add: envelope_from_json_def envelope_to_json_def env_ok_def envelope_fields_roundtrip)
qed

lemma load_envelope_json:
  assumes "env_ok env"
  shows "load_envelope env (as_hex (envelope_to_json env e)) =
           (if se_seed_ct e = [] \<or> se_dek_ct e = [] then Err InvalidEnvelope else Ok e)"
  using assms envelope_json_roundtrip [OF assms, of e]
  by (simp add: load_envelope_def env_ok_def try_decode_hex)

section \<open>Envelope encryption over a key management service\<close>

text \<open>What the key tool and the server rely on: a service \<open>S\<close> seals and opens data keys under the key \<open>r\<close>.\<close>

locale kms_envelope =
  fixes seal_dek :: "'s \<Rightarrow> bytes \<Rightarrow> string \<Rightarrow> (storage_error, bytes) outcome"
    and open_dek :: "'s \<Rightarrow> bytes \<Rightarrow> string \<Rightarrow> (storage_error, bytes) outcome"
    and encrypt_seed :: "aead \<Rightarrow> 's \<Rightarrow> bytes \<Rightarrow> bytes \<Rightarrow> string \<Rightarrow> bytes \<Rightarrow> (storage_error, seed_envelope) outcome"
    and decrypt_seed :: "profile \<Rightarrow> aead \<Rightarrow> 's \<Rightarrow> seed_envelope \<Rightarrow> (storage_error, bytes) outcome"
    and method_of :: protection
    and usable :: "'s \<Rightarrow> string \<Rightarrow> bool"
  assumes dek_roundtrip:
    "\<lbrakk>usable S r; length dek = 32\<rbrakk> \<Longrightarrow> \<exists>ct. ct \<noteq> [] \<and> seal_dek S dek r = Ok ct \<and> open_dek S ct r = Ok dek"
  and encrypts:
    "encrypt_seed A S dek nonce r seed =
       and_then (seal_dek S dek r) (\<lambda>dek_ct.
       and_then (seal_seed A nonce dek seed AAD) (\<lambda>seed_ct.
       Ok \<lparr>se_key_id = protection_prefix method_of @ r, se_seed_ct = seed_ct, se_dek_ct = dek_ct\<rparr>))"
  and decrypts:
    "decrypt_seed p A S e =
       and_then (unwrap (strip_prefix (protection_prefix method_of) (se_key_id e))) (\<lambda>r.
       and_then (open_dek S (se_dek_ct e) r) (\<lambda>dek. expect (open_seed p A dek (se_seed_ct e) AAD)))"
begin

lemma seed_roundtrip:
  assumes "usable S r" and "aead_ok A" and "length dek = 32" and "length nonce = NONCE_LEN" and "length seed = 32"
  shows "\<exists>e. encrypt_seed A S dek nonce r seed = Ok e \<and> decrypt_seed p A S e = Ok seed \<and>
           se_key_id e = protection_prefix method_of @ r \<and> se_seed_ct e \<noteq> [] \<and> se_dek_ct e \<noteq> []"
proof -
  obtain ct where ct: "ct \<noteq> []" "seal_dek S dek r = Ok ct" "open_dek S ct r = Ok dek"
    using dek_roundtrip [OF assms(1,3)] by blast
  have "ae_seal A dek nonce AAD seed @ nonce \<noteq> []"
    using assms(4) by (auto simp: NONCE_LEN_def)
  then show ?thesis
    using ct assms by (simp add: encrypts decrypts seal_seed_Ok open_seal_seed unwrap_def)
qed

end

text \<open>A key of AWS KMS that the account may use for both operations, with an ARN as its name.\<close>

definition aws_kms_ok :: "aws_kms \<Rightarrow> string \<Rightarrow> bool" where
  "aws_kms_ok S r \<longleftrightarrow> 3 < length (split_on CHR '':'' r) \<and>
     (\<forall>d. \<exists>ct. ct \<noteq> [] \<and> aw_encrypt S r d = Some (Some r, Some ct) \<and> aw_decrypt S r ct = Some (Some r, Some d))"

text \<open>A key of GCP KMS; the answers name a version of the key and carry the checksums.\<close>

definition gcp_kms_ok :: "gcp_kms \<Rightarrow> string \<Rightarrow> bool" where
  "gcp_kms_ok S r \<longleftrightarrow>
     (\<forall>d. \<exists>ct version. ct \<noteq> [] \<and>
        gc_encrypt S r d = Some \<lparr>ge_name = r @ version, ge_ciphertext = ct,
          ge_ciphertext_crc32c = Some (uint (gc_crc32c S ct)), ge_verified_plaintext_crc32c = True\<rparr> \<and>
        gc_decrypt S r ct = Some \<lparr>gd_plaintext = d, gd_plaintext_crc32c = Some (uint (gc_crc32c S d))\<rparr>)"

interpretation aws: kms_envelope aws_seal_dek aws_open_dek aws_encrypt_seed aws_decrypt_seed AwsKms aws_kms_ok
proof
  fix S :: aws_kms and r and dek :: bytes
  assume "aws_kms_ok S r" and "length dek = 32"
  then obtain ct where "3 < length (split_on CHR '':'' r)" "ct \<noteq> []"
    "aw_encrypt S r dek = Some (Some r, Some ct)" "aw_decrypt S r ct = Some (Some r, Some dek)"
    unfolding aws_kms_ok_def by blast
  with \<open>length dek = 32\<close> show "\<exists>ct. ct \<noteq> [] \<and> aws_seal_dek S dek r = Ok ct \<and> aws_open_dek S ct r = Ok dek"
    by (simp add: aws_seal_dek_def aws_open_dek_def extract_aws_region_def unwrap_def copy_array_def)
qed (simp_all add: aws_encrypt_seed_def aws_decrypt_seed_def)

interpretation gcp: kms_envelope gcp_seal_dek gcp_open_dek gcp_encrypt_seed gcp_decrypt_seed GcpKms gcp_kms_ok
proof
  fix S :: gcp_kms and r and dek :: bytes
  assume "gcp_kms_ok S r" and "length dek = 32"
  then obtain ct version where "ct \<noteq> []"
    "gc_encrypt S r dek = Some \<lparr>ge_name = r @ version, ge_ciphertext = ct,
       ge_ciphertext_crc32c = Some (uint (gc_crc32c S ct)), ge_verified_plaintext_crc32c = True\<rparr>"
    "gc_decrypt S r ct = Some \<lparr>gd_plaintext = dek, gd_plaintext_crc32c = Some (uint (gc_crc32c S dek))\<rparr>"
    unfolding gcp_kms_ok_def by blast
  with \<open>length dek = 32\<close> show "\<exists>ct. ct \<noteq> [] \<and> gcp_seal_dek S dek r = Ok ct \<and> gcp_open_dek S ct r = Ok dek"
    by (simp add: gcp_seal_dek_def gcp_open_dek_def unwrap_def copy_array_def starts_with_def)
qed (simp_all add: gcp_encrypt_seed_def gcp_decrypt_seed_def)

text \<open>The same for either service of an environment.\<close>

fun kms_ok :: "seed_env \<Rightarrow> protection \<Rightarrow> string \<Rightarrow> bool" where
  "kms_ok env AwsKms r = (case ev_aws_kms env of Some S \<Rightarrow> aws_kms_ok S r | None \<Rightarrow> False)"
| "kms_ok env GcpKms r = (case ev_gcp_kms env of Some S \<Rightarrow> gcp_kms_ok S r | None \<Rightarrow> False)"
| "kms_ok env m r = False"

definition decrypt_with :: "profile \<Rightarrow> seed_env \<Rightarrow> protection \<Rightarrow> seed_envelope \<Rightarrow> (storage_error, bytes) outcome" where
  "decrypt_with p env m e =
     (case m of
        AwsKms \<Rightarrow> (case ev_aws_kms env of Some S \<Rightarrow> aws_decrypt_seed p (ev_aead env) S e | None \<Rightarrow> Panic)
      | GcpKms \<Rightarrow> (case ev_gcp_kms env of Some S \<Rightarrow> gcp_decrypt_seed p (ev_aead env) S e | None \<Rightarrow> Panic)
      | _ \<Rightarrow> Panic)"

lemma kms_store_load:
  assumes "kms_ok env m r" and "env_ok env"
    and "length (si_dek si) = 32" and "length (si_nonce si) = NONCE_LEN" and "length seed = 32"
  shows "\<exists>e. try_store si m seed r env = Ok (e, env) \<and> decrypt_with p env m e = Ok seed \<and>
           se_key_id e = protection_prefix m @ r \<and> se_seed_ct e \<noteq> [] \<and> se_dek_ct e \<noteq> [] \<and>
           try_load p env m (as_hex (envelope_to_json env e)) = Ok seed"
proof -
  note ok = assms(3-5) load_envelope_json [OF assms(2)]
  have ae: "aead_ok (ev_aead env)" using assms(2) by (simp add: env_ok_def)
  consider S where "m = AwsKms" "ev_aws_kms env = Some S" "aws_kms_ok S r"
    | S where "m = GcpKms" "ev_gcp_kms env = Some S" "gcp_kms_ok S r"
    using assms(1) by (cases m) (auto split: option.splits)
  then show ?thesis
  proof cases
    case (1 S)
    with aws.seed_roundtrip [OF 1(3) ae ok(1-3), of p] ok(4) show ?thesis
      by (auto simp: decrypt_with_def try_load_aws_kms_def)
  next
    case (2 S)
    with gcp.seed_roundtrip [OF 2(3) ae ok(1-3), of p] ok(4) show ?thesis
      by (auto simp: decrypt_with_def try_load_gcp_kms_def)
  qed
qed

lemma secret_store_envelope:
  assumes "m = AwsSecretManager \<or> m = GcpSecretManager" and "try_store si m seed r env = Ok (e, env')"
  shows "se_seed_ct e = [] \<and> se_dek_ct e = [] \<and> envelope_to_json env' = envelope_to_json env \<and> (env_ok env' \<longleftrightarrow> env_ok env)"
  using assms
  by (auto simp: try_store_aws_secret_def try_store_gcp_secret_def and_then_Ok_iff fun_eq_iff envelope_to_json_def env_ok_def
      split: option.splits)

end
