(* ===== verification/Key_Tool.thy ===== *)
theory Key_Tool
  imports Seed_Storage
begin

text \<open>
  The key tool (\<^verbatim>\<open>roughenough-keys/bin/keys.rs\<close>), the choice of a seed backend (\<^verbatim>\<open>seed.rs\<close>) and the server's
  \<open>load_seed\<close> (\<^verbatim>\<open>main.rs\<close>). The file system is a map from paths to contents, with a predicate for the paths the
  process may not use. Handlers return what they write. Shown: a sealed seed can be opened by the tool and is
  the identity the server starts with; the envelope of a secret store is rejected; opening an envelope of
  another kind prints a random seed.
\<close>

section \<open>Handlers\<close>

text \<open>\<open>random_seed\<close> is what \<open>Seed::new_random\<close> draws.\<close>

definition handle_generate ::
  "store_input \<Rightarrow> bytes \<Rightarrow> string option \<Rightarrow> string option \<Rightarrow> seed_env \<Rightarrow> (storage_error, bytes \<times> seed_env) outcome" where
  "handle_generate si random_seed key secret env =
     (if \<not> (key \<noteq> None \<or> secret \<noteq> None) then Ok ([], env)
      else
      and_then (unwrap (or_else key secret)) (\<lambda>resource.
      and_then (seed_new random_seed) (\<lambda>seed.
      case try_store_seed si seed resource env of
        Ok (envelope, env') \<Rightarrow> Ok (envelope_to_json env' envelope, env')
      | Err e \<Rightarrow> Ok ([], env)
      | Panic \<Rightarrow> Panic)))"

text \<open>\<open>utf8\<close> decodes the input; \<open>read_to_string\<close> fails on anything else.\<close>

definition handle_get :: "profile \<Rightarrow> (bytes \<Rightarrow> string option) \<Rightarrow> bytes \<Rightarrow> seed_env \<Rightarrow> (storage_error, bytes) outcome" where
  "handle_get p utf8 input env =
     and_then (unwrap (utf8 input)) (\<lambda>val.
     case try_load_seed p env val of
       Ok seed \<Rightarrow> Ok (ascii (as_hex seed) @ [10])
     | Err e \<Rightarrow> Ok []
     | Panic \<Rightarrow> Panic)"

definition handle_store :: "store_input \<Rightarrow> bytes \<Rightarrow> string \<Rightarrow> seed_env \<Rightarrow> (storage_error, bytes \<times> seed_env) outcome" where
  "handle_store si seed_bytes secret env =
     (if length seed_bytes \<noteq> 32 then Ok ([], env)
      else
      and_then (seed_new seed_bytes) (\<lambda>seed.
      case try_store_seed si seed secret env of
        Ok (envelope, env') \<Rightarrow> Ok (envelope_to_json env' envelope @ [10], env')
      | Err e \<Rightarrow> Ok ([], env)
      | Panic \<Rightarrow> Panic))"

definition handle_open ::
  "profile \<Rightarrow> bytes \<Rightarrow> bytes \<Rightarrow> string option \<Rightarrow> seed_env \<Rightarrow> (storage_error, bytes) outcome" where
  "handle_open p random_seed buf key env =
     and_then (unwrap (envelope_from_json env buf)) (\<lambda>read.
     let envelope = (case key of Some key_id \<Rightarrow> read\<lparr>se_key_id := key_id\<rparr> | None \<Rightarrow> read) in
     and_then (seed_new random_seed) (\<lambda>seed0.
     and_then (case ev_gcp_kms env of
         Some S \<Rightarrow> if starts_with (protection_prefix GcpKms) (se_key_id envelope)
                   then gcp_decrypt_seed p (ev_aead env) S envelope else Ok seed0
       | None \<Rightarrow> Ok seed0) (\<lambda>seed1.
     and_then (case ev_aws_kms env of
         Some S \<Rightarrow> if starts_with (protection_prefix AwsKms) (se_key_id envelope)
                   then aws_decrypt_seed p (ev_aead env) S envelope else Ok seed1
       | None \<Rightarrow> Ok seed1) (\<lambda>seed.
     if Option.is_none (ev_gcp_kms env) \<and> Option.is_none (ev_aws_kms env) then Ok []
     else Ok (ascii (as_hex seed) @ [10])))))"

definition handle_seal :: "store_input \<Rightarrow> bytes \<Rightarrow> string \<Rightarrow> seed_env \<Rightarrow> (storage_error, bytes \<times> seed_env) outcome" where
  "handle_seal si seed_bytes key env =
     (if length seed_bytes \<noteq> 32 then Ok ([], env)
      else
      and_then (seed_new seed_bytes) (\<lambda>seed.
      case try_store_seed si seed key env of
        Ok (envelope, env') \<Rightarrow> Ok (envelope_to_json env' envelope, env')
      | Err e \<Rightarrow> Ok ([], env)
      | Panic \<Rightarrow> Panic))"

section \<open>Commands\<close>

datatype command =
    Generate "string option" "string option" "string option"
  | Seal string "string option" string
  | Open string "string option" "string option"
  | Store string "string option" string
  | Get string "string option"

record tool_state =
  kt_files :: "string \<Rightarrow> bytes option"
  kt_denied :: "string \<Rightarrow> bool"
  kt_stdout :: bytes
  kt_env :: seed_env

definition infile_from_arg :: "string option \<Rightarrow> tool_state \<Rightarrow> (unit, bytes) outcome" where
  "infile_from_arg path st =
     (case path of
        Some f \<Rightarrow> if kt_denied st f then Err () else (case kt_files st f of Some bs \<Rightarrow> Ok bs | None \<Rightarrow> Err ())
      | None \<Rightarrow> Err ())"

definition outfile_from_arg :: "string option \<Rightarrow> tool_state \<Rightarrow> (unit, tool_state) outcome" where
  "outfile_from_arg path st =
     (case path of
        Some f \<Rightarrow> if kt_denied st f \<or> kt_files st f \<noteq> None then Err ()
                  else Ok (st\<lparr>kt_files := (kt_files st)(f \<mapsto> [])\<rparr>)
      | None \<Rightarrow> Ok st)"

definition write_all :: "string option \<Rightarrow> bytes \<Rightarrow> tool_state \<Rightarrow> tool_state" where
  "write_all path bs st =
     (case path of
        Some f \<Rightarrow> st\<lparr>kt_files := (kt_files st)(f \<mapsto> (case kt_files st f of Some old \<Rightarrow> old @ bs | None \<Rightarrow> bs))\<rparr>
      | None \<Rightarrow> st\<lparr>kt_stdout := kt_stdout st @ bs\<rparr>)"

text \<open>A handler with its files: the input is opened first, then the output created.\<close>

definition with_output ::
  "string option \<Rightarrow> (seed_env \<Rightarrow> (storage_error, bytes \<times> seed_env) outcome) \<Rightarrow> tool_state \<Rightarrow> (storage_error, tool_state) outcome" where
  "with_output output handler st =
     and_then (expect (outfile_from_arg output st)) (\<lambda>st'.
     and_then (handler (kt_env st')) (\<lambda>(bs, env).
     Ok ((write_all output bs st')\<lparr>kt_env := env\<rparr>)))"

definition keeping_env :: "(seed_env \<Rightarrow> (storage_error, bytes) outcome) \<Rightarrow> seed_env \<Rightarrow> (storage_error, bytes \<times> seed_env) outcome" where
  "keeping_env handler env = and_then (handler env) (\<lambda>bs. Ok (bs, env))"

fun keys_main ::
  "profile \<Rightarrow> (bytes \<Rightarrow> string option) \<Rightarrow> store_input \<Rightarrow> bytes \<Rightarrow> command \<Rightarrow> tool_state \<Rightarrow> (storage_error, tool_state) outcome" where
  "keys_main p utf8 si random_seed (Generate output key secret) st =
     with_output output (handle_generate si random_seed key secret) st"
| "keys_main p utf8 si random_seed (Seal input output key) st =
     and_then (expect (infile_from_arg (Some input) st)) (\<lambda>bs. with_output output (handle_seal si bs key) st)"
| "keys_main p utf8 si random_seed (Open input output key) st =
     and_then (expect (infile_from_arg (Some input) st)) (\<lambda>bs.
       with_output output (keeping_env (handle_open p random_seed bs key)) st)"
| "keys_main p utf8 si random_seed (Store input output secret) st =
     and_then (expect (infile_from_arg (Some input) st)) (\<lambda>bs. with_output output (handle_store si bs secret) st)"
| "keys_main p utf8 si random_seed (Get input output) st =
     and_then (expect (infile_from_arg (Some input) st)) (\<lambda>bs.
       with_output output (keeping_env (handle_get p utf8 bs)) st)"

section \<open>The seed of the server\<close>

text \<open>The backends that are compiled in; \<open>None\<close> for one that is not.\<close>

record 'b backends =
  bk_memory :: "(backend_error, 'b) outcome"
  bk_krs :: "(backend_error, 'b) outcome option"
  bk_ssh_agent :: "(backend_error, 'b) outcome option"
  bk_store_seed :: "bytes \<Rightarrow> 'b \<Rightarrow> (backend_error, 'b) outcome"

definition try_choose_backend :: "'b backends \<Rightarrow> string \<Rightarrow> (backend_error, 'b) outcome" where
  "try_choose_backend B backend =
     (let s = map ascii_lower backend in
      if s = ''memory'' then bk_memory B
      else if s = ''krs'' then
        (case bk_krs B of Some b \<Rightarrow> b | None \<Rightarrow> Err (BackendNotAvailable ''krs'' ''online-linux-krs''))
      else if s = ''sshagent'' \<or> s = ''ssh-agent'' then
        (case bk_ssh_agent B of Some b \<Rightarrow> b | None \<Rightarrow> Err (BackendNotAvailable ''ssh-agent'' ''online-ssh-agent''))
      else Panic)"

datatype seed_backend_arg = Memory | KrsArg | SshAgentArg

fun seed_backend_name :: "seed_backend_arg \<Rightarrow> string" where
  "seed_backend_name Memory = ''memory''"
| "seed_backend_name KrsArg = ''krs''"
| "seed_backend_name SshAgentArg = ''ssh-agent''"

definition load_seed ::
  "profile \<Rightarrow> seed_env \<Rightarrow> 'b backends \<Rightarrow> string \<Rightarrow> seed_backend_arg \<Rightarrow> (unit, 'b) outcome" where
  "load_seed p env B seed_arg backend_arg =
     and_then (if seed_arg = [] then seed_new (replicate 32 0) else expect (try_load_seed p env seed_arg)) (\<lambda>seed.
     and_then (expect (try_choose_backend B (seed_backend_name backend_arg))) (\<lambda>b.
     expect (bk_store_seed B seed b)))"

definition memory_backends :: "ed25519 \<Rightarrow> memory_backend backends" where
  "memory_backends E =
     \<lparr>bk_memory = Ok mb_new, bk_krs = None, bk_ssh_agent = None, bk_store_seed = mb_store_seed E\<rparr>"

section \<open>Correctness\<close>

lemma load_seed_memory:
  assumes "ed25519_ok E" and "try_load_seed p env seed_arg = Ok seed" and "seed_arg \<noteq> []"
  shows "load_seed p env (memory_backends E) seed_arg Memory =
           Ok \<lparr>mb_seed = Some seed, mb_public_key = Some (ed_public E seed)\<rparr>"
proof -
  have "map ascii_lower ''memory'' = ''memory''" by (simp add: ascii_lower_def)
  then show ?thesis
    using assms by (simp add: load_seed_def try_choose_backend_def memory_backends_def mb_store_seed_def mb_new_def
        pubk_from_slice_def copy_array_def ed25519_lengths)
qed

lemma handle_open_envelope:
  assumes "envelope_from_json env buf = Some e" and "length random_seed = 32"
    and "m = AwsKms \<and> ev_aws_kms env \<noteq> None \<or> m = GcpKms \<and> ev_gcp_kms env \<noteq> None"
    and "se_key_id e = protection_prefix m @ r" and "decrypt_with p env m e = Ok seed"
  shows "handle_open p random_seed buf None env = Ok (ascii (as_hex seed) @ [10])"
  using assms(3)
proof (elim disjE conjE)
  assume m: "m = AwsKms" "ev_aws_kms env \<noteq> None"
  then have "\<not> starts_with (protection_prefix GcpKms) (se_key_id e)" "starts_with (protection_prefix AwsKms) (se_key_id e)"
    using assms(4) by (simp_all add: starts_with_def)
  with m assms(1,2,5) show ?thesis
    by (auto simp: handle_open_def unwrap_def seed_new_def decrypt_with_def split: option.splits)
next
  assume m: "m = GcpKms" "ev_gcp_kms env \<noteq> None"
  then have "\<not> starts_with (protection_prefix AwsKms) (se_key_id e)" "starts_with (protection_prefix GcpKms) (se_key_id e)"
    using assms(4) by (simp_all add: starts_with_def)
  with m assms(1,2,5) show ?thesis
    by (auto simp: handle_open_def unwrap_def seed_new_def decrypt_with_def split: option.splits)
qed

lemma kms_ok_enabled:
  "kms_ok env m r \<Longrightarrow> m = AwsKms \<and> ev_aws_kms env \<noteq> None \<or> m = GcpKms \<and> ev_gcp_kms env \<noteq> None"
  by (cases m) (auto split: option.splits)

text \<open>C12. A sealed seed is the seed the server starts with. When the key tool seals a 32-byte file under a usable key
  of AWS or GCP KMS it writes an envelope; opening that file with the tool prints the seed in hexadecimal, and a
  server whose \<open>--seed\<close> is the prefix followed by the hexadecimal envelope starts with that seed and its public key.
\<close>

theorem sealed_seed_serves:
  assumes "env_ok (kt_env st)" and "kms_ok (kt_env st) m r" and "ed25519_ok E"
    and "length (si_dek si) = 32" and "length (si_nonce si) = NONCE_LEN" and "length random_seed = 32"
    and "kt_files st input = Some seed" and "length seed = 32" and "\<not> kt_denied st input"
    and "kt_files st output = None" and "\<not> kt_denied st output"
  shows "\<exists>json st'.
     keys_main p utf8 si random_seed (Seal input (Some output) (protection_prefix m @ r)) st = Ok st' \<and>
     kt_files st' = (kt_files st)(output \<mapsto> json) \<and>
     keys_main p utf8 si random_seed (Open output None None) st' =
       Ok (st'\<lparr>kt_stdout := kt_stdout st @ ascii (as_hex seed) @ [10]\<rparr>) \<and>
     load_seed p (kt_env st') (memory_backends E) (protection_prefix m @ as_hex json) Memory =
       Ok \<lparr>mb_seed = Some seed, mb_public_key = Some (ed_public E seed)\<rparr>"
proof -
  let ?env = "kt_env st"
  obtain e where e: "try_store si m seed r ?env = Ok (e, ?env)" "decrypt_with p ?env m e = Ok seed"
      "se_key_id e = protection_prefix m @ r" "se_seed_ct e \<noteq> []" "se_dek_ct e \<noteq> []"
      "try_load p ?env m (as_hex (envelope_to_json ?env e)) = Ok seed"
    using kms_store_load [OF assms(2,1,4,5,8), of p] by blast
  let ?json = "envelope_to_json ?env e"
  let ?st = "st\<lparr>kt_files := (kt_files st)(output \<mapsto> ?json)\<rparr>"
  have seal: "keys_main p utf8 si random_seed (Seal input (Some output) (protection_prefix m @ r)) st = Ok ?st"
    using assms e(1) by (simp add: infile_from_arg_def with_output_def outfile_from_arg_def handle_seal_def
        seed_new_def try_store_seed_prefix write_all_def)
  have from_json: "envelope_from_json ?env ?json = Some e"
    using envelope_json_roundtrip [OF assms(1), of e] e(4,5) by simp
  have "handle_open p random_seed ?json None ?env = Ok (ascii (as_hex seed) @ [10])"
    using handle_open_envelope [OF from_json assms(6) kms_ok_enabled [OF assms(2)] e(3,2)] .
  then have op: "keys_main p utf8 si random_seed (Open output None None) ?st =
      Ok (?st\<lparr>kt_stdout := kt_stdout st @ ascii (as_hex seed) @ [10]\<rparr>)"
    using assms(11) by (simp add: infile_from_arg_def with_output_def outfile_from_arg_def keeping_env_def write_all_def)
  have "protection_prefix m @ as_hex ?json \<noteq> []" by (cases m) simp_all
  then have "load_seed p ?env (memory_backends E) (protection_prefix m @ as_hex ?json) Memory =
      Ok \<lparr>mb_seed = Some seed, mb_public_key = Some (ed_public E seed)\<rparr>"
    using load_seed_memory [OF assms(3), of p ?env "protection_prefix m @ as_hex ?json" seed] e(6)
    by (simp add: try_load_seed_prefix)
  with seal op show ?thesis by auto
qed

text \<open>C31. The envelope the tool writes for a seed it put into a secret store cannot be used: its two empty fields are
  left out when it is written and required when it is read, so that loading it fails for either store.
\<close>

theorem secret_envelope_unreadable:
  assumes "env_ok env" and "m = AwsSecretManager \<or> m = GcpSecretManager"
    and "handle_store si seed (protection_prefix m @ r) env = Ok (written, env')" and "written \<noteq> []"
  shows "\<exists>json. written = json @ [10] \<and>
           try_load_seed p env' (protection_prefix m @ as_hex json) = Err InvalidEnvelope"
proof -
  obtain e where e: "try_store si m seed r env = Ok (e, env')" "written = envelope_to_json env' e @ [10]"
    using assms(3,4)
    by (auto simp: handle_store_def try_store_seed_prefix seed_new_def split: if_splits outcome.splits)
  have ok: "env_ok env'" "se_seed_ct e = []"
    using secret_store_envelope [OF assms(2) e(1)] assms(1) by simp_all
  have "load_envelope env' (as_hex (envelope_to_json env' e)) = Err InvalidEnvelope"
    using load_envelope_json [OF ok(1), of e] ok(2) by simp
  then have "try_load p env' m (as_hex (envelope_to_json env' e)) = Err InvalidEnvelope"
    using assms(2) e(1) by (auto simp: try_load_aws_secret_def try_load_gcp_secret_def try_store_aws_secret_def
        try_store_gcp_secret_def and_then_Ok_iff split: option.splits)
  with e(2) show ?thesis by (simp add: try_load_seed_prefix)
qed

text \<open>C32. Opening an envelope whose key carries the prefix of no enabled key management service does not fail: the
  tool writes the random seed it had drawn as a placeholder, as if it were the decrypted one.
\<close>

theorem open_foreign_random:
  assumes "envelope_from_json env buf = Some e" and "length random_seed = 32"
    and "ev_gcp_kms env \<noteq> None \<or> ev_aws_kms env \<noteq> None"
    and "ev_gcp_kms env \<noteq> None \<longrightarrow> \<not> starts_with (protection_prefix GcpKms) (se_key_id e)"
    and "ev_aws_kms env \<noteq> None \<longrightarrow> \<not> starts_with (protection_prefix AwsKms) (se_key_id e)"
  shows "handle_open p random_seed buf None env = Ok (ascii (as_hex random_seed) @ [10])"
  using assms by (auto simp: handle_open_def unwrap_def seed_new_def split: option.splits)

section \<open>A sample environment\<close>

text \<open>A decoder of hexadecimal digits, and simple stand-ins for base64, JSON, the cipher and the services.\<close>

definition hex_val :: "char \<Rightarrow> nat option" where
  "hex_val c = map_of (zip ''0123456789abcdef'' [0..<16]) c"

fun unhex :: "string \<Rightarrow> bytes option" where
  "unhex [] = Some []"
| "unhex [a] = None"
| "unhex (a # b # s) =
     Option.bind (hex_val a) (\<lambda>x. Option.bind (hex_val b) (\<lambda>y. map_option (\<lambda>r. of_nat (16 * x + y) # r) (unhex s)))"

lemma hex_val_digit: "n < 16 \<Longrightarrow> hex_val (hex_digit n) = Some n"
  unfolding hex_val_def hex_digit_def by (subst map_of_zip_nth) auto

lemma unhex_as_hex: "unhex (as_hex bs) = Some bs"
proof (induction bs)
  case (Cons b bs)
  have "unat b < 256" using unsigned_less [of b, where 'a = nat] by simp
  then have "unat b div 16 < 16" by auto
  then show ?case
    using Cons by (simp add: as_hex_def hex2_def hex_val_digit del: of_nat_add of_nat_mult)
qed (simp add: as_hex_def)

definition of_byte :: "u8 \<Rightarrow> char" where
  "of_byte b = char_of (unat b)"

definition to_byte :: "char \<Rightarrow> u8" where
  "to_byte c = of_nat (of_char c)"

lemma of_byte_inverse [simp]: "to_byte (of_byte b) = b" "of_byte (to_byte c) = c"
  using unsigned_less [of b, where 'a = nat] by (simp_all add: to_byte_def of_byte_def unat_of_nat)

definition put_string :: "string \<Rightarrow> bytes" where
  "put_string s = replicate (length s) 1 @ 0 # map to_byte s"

definition take_string :: "bytes \<Rightarrow> string \<times> bytes" where
  "take_string bs =
     (let n = length (takeWhile (\<lambda>b. b = 1) bs); r = drop (Suc n) bs in (map of_byte (take n r), drop n r))"

lemma take_put_string [simp]: "take_string (put_string s @ r) = (s, r)"
proof -
  have t: "length (takeWhile (\<lambda>b. b = 1) (replicate n 1 @ 0 # xs)) = n" for n and xs :: bytes
    by (induction n) auto
  show ?thesis
    by (simp add: take_string_def put_string_def t comp_def)
qed

fun put_field :: "string \<times> string option \<Rightarrow> bytes" where
  "put_field (k, None) = put_string k @ [0]"
| "put_field (k, Some v) = put_string k @ 1 # put_string v"

definition put_fields :: "json_fields \<Rightarrow> bytes" where
  "put_fields fs = put_string (replicate (length fs) CHR ''.'') @ concat (map put_field fs)"

primrec take_fields :: "nat \<Rightarrow> bytes \<Rightarrow> json_fields" where
  "take_fields 0 bs = []"
| "take_fields (Suc n) bs =
     (let (k, r) = take_string bs in
      if r ! 0 = 0 then (k, None) # take_fields n (tl r)
      else let (v, r') = take_string (tl r) in (k, Some v) # take_fields n r')"

lemma take_put_fields: "take_fields (length fs) (concat (map put_field fs)) = fs"
proof (induction fs)
  case (Cons f fs)
  then show ?case by (cases f rule: put_field.cases) simp_all
qed simp

definition sample_aead :: aead where
  "sample_aead = \<lparr>ae_seal = (\<lambda>k n aad m. m @ replicate 16 7), ae_open = (\<lambda>k n aad ct. Some (take (length ct - 16) ct))\<rparr>"

definition sample_env :: seed_env where
  "sample_env =
     \<lparr>ev_codecs = \<lparr>cd_hexlower = unhex, cd_hexupper = Map.empty, cd_base64url = Map.empty, cd_base64url_nopad = Map.empty,
                   cd_base64 = Map.empty, cd_base64_nopad = (\<lambda>s. Some (map to_byte s))\<rparr>,
      ev_base64_nopad = map of_byte,
      ev_json_print = put_fields,
      ev_json_parse = (\<lambda>bs. let (s, r) = take_string bs in Some (take_fields (length s) r)),
      ev_aead = sample_aead,
      ev_aws_kms = Some \<lparr>aw_encrypt = (\<lambda>k d. Some (Some k, Some (0 # d))), aw_decrypt = (\<lambda>k ct. Some (Some k, Some (tl ct)))\<rparr>,
      ev_gcp_kms = None,
      ev_aws_secrets = Some Map.empty,
      ev_gcp_secrets = None,
      ev_crc32c = (\<lambda>_. 0),
      ev_lossy = map of_byte\<rparr>"

lemma sample_env_ok: "env_ok sample_env"
  unfolding env_ok_def
proof (intro conjI allI impI)
  fix fs :: json_fields
  show "ev_json_parse sample_env (ev_json_print sample_env fs) = Some fs"
    by (simp add: sample_env_def put_fields_def take_put_fields)
qed (simp_all add: sample_env_def codecs_ok_def unhex_as_hex sample_aead_def aead_ok_def TAG_LEN_def comp_def)

definition sample_arn :: string where
  "sample_arn = ''arn:aws:kms:us-east-2:1:key''"

lemma sample_kms_ok: "kms_ok sample_env AwsKms sample_arn"
  by (simp add: sample_env_def aws_kms_ok_def sample_arn_def)

definition sample_input :: store_input where
  "sample_input = \<lparr>si_dek = replicate 32 1, si_nonce = replicate 12 2, si_put_ok = True, si_version = (\<lambda>s. s @ ''/versions/1'')\<rparr>"

definition sample_tool :: tool_state where
  "sample_tool = \<lparr>kt_files = [''seed'' \<mapsto> replicate 32 9], kt_denied = (\<lambda>_. False), kt_stdout = [], kt_env = sample_env\<rparr>"

theorem sealed_seed_serves_witness:
  "\<exists>json st'.
     keys_main Release Map.empty sample_input (replicate 32 4) (Seal ''seed'' (Some ''out'') (protection_prefix AwsKms @ sample_arn)) sample_tool
       = Ok st' \<and>
     kt_files st' = (kt_files sample_tool)(''out'' \<mapsto> json) \<and>
     keys_main Release Map.empty sample_input (replicate 32 4) (Open ''out'' None None) st' =
       Ok (st'\<lparr>kt_stdout := kt_stdout sample_tool @ ascii (as_hex (replicate 32 9)) @ [10]\<rparr>) \<and>
     load_seed Release (kt_env st') (memory_backends toy_ed) (protection_prefix AwsKms @ as_hex json) Memory =
       Ok \<lparr>mb_seed = Some (replicate 32 9), mb_public_key = Some (ed_public toy_ed (replicate 32 9))\<rparr>"
proof (rule sealed_seed_serves)
  show "env_ok (kt_env sample_tool)" "kms_ok (kt_env sample_tool) AwsKms sample_arn"
    by (simp_all add: sample_tool_def sample_env_ok sample_kms_ok del: kms_ok.simps)
  show "ed25519_ok toy_ed" by (rule toy_ed_ok)
qed (simp_all add: sample_input_def sample_tool_def NONCE_LEN_def)

theorem secret_envelope_unreadable_witness:
  "\<exists>json env'.
     handle_store sample_input (replicate 32 9) (protection_prefix AwsSecretManager @ sample_arn) sample_env = Ok (json @ [10], env') \<and>
     try_load_seed Release env' (protection_prefix AwsSecretManager @ as_hex json) = Err InvalidEnvelope"
proof -
  have "\<exists>bs env'. handle_store sample_input (replicate 32 9) (protection_prefix AwsSecretManager @ sample_arn) sample_env =
      Ok (bs @ [10], env')"
    by (simp add: handle_store_def seed_new_def try_store_seed_prefix try_store_aws_secret_def aws_store_seed_def
        extract_aws_region_def sample_arn_def sample_input_def sample_env_def del: protection_prefix.simps)
  then obtain bs env' where w:
    "handle_store sample_input (replicate 32 9) (protection_prefix AwsSecretManager @ sample_arn) sample_env = Ok (bs @ [10], env')"
    by blast
  show ?thesis
    using secret_envelope_unreadable [OF sample_env_ok disjI1 [OF refl] w, of Release] w by auto
qed

theorem open_foreign_random_witness:
  "handle_open Release (replicate 32 4)
     (envelope_to_json sample_env \<lparr>se_key_id = ''gcp-kms://k'', se_seed_ct = [1], se_dek_ct = [2]\<rparr>) None sample_env =
     Ok (ascii (as_hex (replicate 32 4)) @ [10])"
  by (rule open_foreign_random [of _ _ "\<lparr>se_key_id = ''gcp-kms://k'', se_seed_ct = [1], se_dek_ct = [2]\<rparr>"])
    (simp_all add: envelope_json_roundtrip [OF sample_env_ok], simp_all add: sample_env_def starts_with_def)

end
