(* ===== verification/Seed_Backends.thy ===== *)
theory Seed_Backends
  imports Key_Tool
begin

text \<open>
  The seed backends beside the one in memory: the Linux key retention service (\<^verbatim>\<open>online/linuxkrs.rs\<close>), where a
  worker thread owns the keyring and answers requests from a channel, and the SSH agent
  (\<^verbatim>\<open>online/sshagent.rs\<close>). The kernel's keyring and the agent are arguments with their documented behaviour
  as hypotheses (\<open>keyring_ok\<close>, \<open>ssh_agent_ok\<close>). \<open>any_backend\<close> is the boxed trait object the server keeps.
  Shown: every interleaving of clients of the worker thread answers as some sequential order does, all three
  backends meet the contract \<open>seed_backend\<close>, and a server certifies online keys under the seed it loaded.
\<close>

section \<open>The key retention service\<close>

text \<open>Calls of the keyring library on the thread's keyring \<open>'k\<close>; \<open>'h\<close> is a key handle. \<open>kr_read\<close> is given the
  size of the buffer and returns the number of bytes read with the contents of the buffer.\<close>

record ('k, 'h) keyring =
  kr_open :: "key_error + 'k"
  kr_search :: "'k \<Rightarrow> key_error + 'h"
  kr_add_key :: "bytes \<Rightarrow> 'k \<Rightarrow> (key_error + 'h) \<times> 'k"
  kr_set_perms :: "'h \<Rightarrow> 'k \<Rightarrow> (key_error + unit) \<times> 'k"
  kr_read :: "'h \<Rightarrow> nat \<Rightarrow> 'k \<Rightarrow> key_error + (nat \<times> bytes)"
  kr_clear :: "'k \<Rightarrow> (key_error + unit) \<times> 'k"

definition KEY_NAME :: string where
  "KEY_NAME = ''roughenough-seed''"

datatype krs_request = StoreSeed bytes | GetSeed | Sign bytes | Shutdown

text \<open>The response of \<open>store_seed\<close>, the seed, or a signature.\<close>

datatype krs_reply = Stored public_key nat | SeedIs bytes | Signed bytes

definition handle_store_seed ::
  "ed25519 \<Rightarrow> ('k, 'h) keyring \<Rightarrow> bytes \<Rightarrow> 'k \<Rightarrow> (backend_error, krs_reply) outcome \<times> 'k" where
  "handle_store_seed E R seed k =
     (case kr_search R k of
        Inr h \<Rightarrow> (Panic, k)
      | Inl _ \<Rightarrow>
          (case kr_add_key R seed k of
             (Inl e, k1) \<Rightarrow> (Err (Krs e), k1)
           | (Inr krs_key, k1) \<Rightarrow>
               (case kr_set_perms R krs_key k1 of
                  (Inl e, k2) \<Rightarrow> (Err (Krs e), k2)
                | (Inr _, k2) \<Rightarrow>
                    (and_then (pubk_from_slice (ed_public E seed)) (\<lambda>pk. Ok (Stored pk (length seed))), k2))))"

definition handle_get_seed :: "('k, 'h) keyring \<Rightarrow> 'k \<Rightarrow> (backend_error, bytes) outcome" where
  "handle_get_seed R k =
     (case kr_search R k of
        Inr seed_key \<Rightarrow>
          (case kr_read R seed_key 32 k of
             Inl e \<Rightarrow> Err (Krs e)
           | Inr (nread, buf) \<Rightarrow>
               if nread \<noteq> 32 then Err (NotFound (''Expected 32-byte seed, got '' @ show_nat nread @ '' bytes''))
               else seed_new buf)
      | Inl e \<Rightarrow> Err (if e = KeyDoesNotExist then NotFound KEY_NAME else Krs e))"

definition handle_sign :: "ed25519 \<Rightarrow> ('k, 'h) keyring \<Rightarrow> bytes \<Rightarrow> 'k \<Rightarrow> (backend_error, bytes) outcome" where
  "handle_sign E R data k =
     and_then (handle_get_seed R k) (\<lambda>seed. copy_array 64 (ed_sign E seed data))"

fun krs_handle ::
  "ed25519 \<Rightarrow> ('k, 'h) keyring \<Rightarrow> krs_request \<Rightarrow> 'k \<Rightarrow> (backend_error, krs_reply) outcome \<times> 'k" where
  "krs_handle E R (StoreSeed seed) k = handle_store_seed E R seed k"
| "krs_handle E R GetSeed k = (and_then (handle_get_seed R k) (\<lambda>seed. Ok (SeedIs seed)), k)"
| "krs_handle E R (Sign data) k = (and_then (handle_sign E R data k) (\<lambda>sg. Ok (Signed sg)), k)"
| "krs_handle E R Shutdown k = (Err WorkerDisconnect, snd (kr_clear R k))"

text \<open>The worker thread: it serves its keyring until it is told to shut down or a handler panics. A request to
  a thread that has ended, or one whose handler panics, gets no response, which its sender sees as
  \<open>WorkerDisconnect\<close>.\<close>

datatype 'k krs_thread = KrsServing 'k | KrsEnded

definition worker_thread_start :: "('k, 'h) keyring \<Rightarrow> 'k krs_thread" where
  "worker_thread_start R =
     (case kr_open R of
        Inl e \<Rightarrow> KrsEnded
      | Inr k \<Rightarrow> (case kr_search R k of Inl KeyDoesNotExist \<Rightarrow> KrsServing k | _ \<Rightarrow> KrsEnded))"

fun krs_serve ::
  "ed25519 \<Rightarrow> ('k, 'h) keyring \<Rightarrow> krs_request \<Rightarrow> 'k krs_thread \<Rightarrow> (backend_error, krs_reply) outcome \<times> 'k krs_thread" where
  "krs_serve E R req KrsEnded = (Err WorkerDisconnect, KrsEnded)"
| "krs_serve E R req (KrsServing k) =
     (case krs_handle E R req k of
        (Panic, k') \<Rightarrow> (Err WorkerDisconnect, KrsEnded)
      | (r, k') \<Rightarrow> (r, if req = Shutdown then KrsEnded else KrsServing k'))"

record 'k krs_backend =
  krs_thread :: "'k krs_thread"
  krs_public_key :: "public_key option"
  krs_seed_len :: nat

definition krs_new :: "('k, 'h) keyring \<Rightarrow> 'k krs_backend" where
  "krs_new R = \<lparr>krs_thread = worker_thread_start R, krs_public_key = None, krs_seed_len = 0\<rparr>"

definition krs_store_seed ::
  "ed25519 \<Rightarrow> ('k, 'h) keyring \<Rightarrow> bytes \<Rightarrow> 'k krs_backend \<Rightarrow> (backend_error, unit) outcome \<times> 'k krs_backend" where
  "krs_store_seed E R seed b =
     (case krs_serve E R (StoreSeed seed) (krs_thread b) of
        (Ok (Stored pk n), t) \<Rightarrow> (Ok (), b\<lparr>krs_thread := t, krs_public_key := Some pk, krs_seed_len := n\<rparr>)
      | (Ok _, t) \<Rightarrow> (Panic, b\<lparr>krs_thread := t\<rparr>)
      | (Err e, t) \<Rightarrow> (Err e, b\<lparr>krs_thread := t\<rparr>)
      | (Panic, t) \<Rightarrow> (Panic, b\<lparr>krs_thread := t\<rparr>))"

definition krs_get_seed :: "ed25519 \<Rightarrow> ('k, 'h) keyring \<Rightarrow> 'k krs_backend \<Rightarrow> (backend_error, bytes) outcome \<times> 'k krs_backend" where
  "krs_get_seed E R b =
     (case krs_serve E R GetSeed (krs_thread b) of
        (Ok (SeedIs seed), t) \<Rightarrow> (Ok seed, b\<lparr>krs_thread := t\<rparr>)
      | (Ok _, t) \<Rightarrow> (Panic, b\<lparr>krs_thread := t\<rparr>)
      | (Err e, t) \<Rightarrow> (Err e, b\<lparr>krs_thread := t\<rparr>)
      | (Panic, t) \<Rightarrow> (Panic, b\<lparr>krs_thread := t\<rparr>))"

definition krs_sign ::
  "ed25519 \<Rightarrow> ('k, 'h) keyring \<Rightarrow> 'k krs_backend \<Rightarrow> bytes \<Rightarrow> (backend_error, bytes \<times> 'k krs_backend) outcome" where
  "krs_sign E R b data =
     (case krs_serve E R (Sign data) (krs_thread b) of
        (Ok (Signed sg), t) \<Rightarrow> Ok (sg, b\<lparr>krs_thread := t\<rparr>)
      | (Ok _, t) \<Rightarrow> Panic
      | (Err e, t) \<Rightarrow> Err e
      | (Panic, t) \<Rightarrow> Panic)"

definition krs_get_public_key :: "'k krs_backend \<Rightarrow> (backend_error, public_key) outcome" where
  "krs_get_public_key b = unwrap (krs_public_key b)"

definition krs_drop :: "ed25519 \<Rightarrow> ('k, 'h) keyring \<Rightarrow> 'k krs_backend \<Rightarrow> 'k krs_thread" where
  "krs_drop E R b = snd (krs_serve E R Shutdown (krs_thread b))"

section \<open>The SSH agent\<close>

text \<open>Calls of the agent's client library over a connection \<open>'c\<close>. An identity is given by its seed and named by
  its public key.\<close>

record 'c ssh_agent =
  sa_connect :: "string \<Rightarrow> string + 'c"
  sa_add_identity :: "bytes \<Rightarrow> 'c \<Rightarrow> (string + unit) \<times> 'c"
  sa_sign :: "bytes \<Rightarrow> bytes \<Rightarrow> 'c \<Rightarrow> (string + bytes) \<times> 'c"
  sa_remove_all_identities :: "'c \<Rightarrow> (string + unit) \<times> 'c"

record 'c ssh_backend =
  ssh_connection :: 'c
  ssh_public_key :: "public_key option"
  ssh_seed_len :: nat

text \<open>\<open>auth_sock\<close> is the environment variable \<open>SSH_AUTH_SOCK\<close>.\<close>

definition ssh_new :: "'c ssh_agent \<Rightarrow> string option \<Rightarrow> string option \<Rightarrow> (backend_error, 'c ssh_backend) outcome" where
  "ssh_new A auth_sock sock_path =
     (case or_else sock_path auth_sock of
        None \<Rightarrow> Err (Ssh ''no path provided and SSH_AUTH_SOCK not set'')
      | Some path \<Rightarrow>
          (case sa_connect A path of
             Inl e \<Rightarrow> Err (Ssh (''failed connecting to ssh-agent: '' @ e))
           | Inr c \<Rightarrow> Ok \<lparr>ssh_connection = c, ssh_public_key = None, ssh_seed_len = 0\<rparr>))"

definition key_from_seed :: "bytes \<Rightarrow> ('e, bytes) outcome" where
  "key_from_seed seed = copy_array 32 seed"

definition ssh_store_seed :: "ed25519 \<Rightarrow> 'c ssh_agent \<Rightarrow> bytes \<Rightarrow> 'c ssh_backend \<Rightarrow> (backend_error, 'c ssh_backend) outcome" where
  "ssh_store_seed E A seed b =
     and_then (key_from_seed seed) (\<lambda>private_key.
     case sa_add_identity A private_key (ssh_connection b) of
       (Inl e, c) \<Rightarrow> Err (SshAgent e)
     | (Inr _, c) \<Rightarrow>
         Ok (b\<lparr>ssh_connection := c, ssh_public_key := Some (ed_public E private_key), ssh_seed_len := length seed\<rparr>))"

definition ssh_get_seed :: "'c ssh_backend \<Rightarrow> (backend_error, bytes) outcome" where
  "ssh_get_seed b = Err (NotSupported ''get_seed is not supported for ssh-agent backend'')"

definition ssh_sign :: "'c ssh_agent \<Rightarrow> 'c ssh_backend \<Rightarrow> bytes \<Rightarrow> (backend_error, bytes \<times> 'c ssh_backend) outcome" where
  "ssh_sign A b data =
     and_then (unwrap (ssh_public_key b)) (\<lambda>key.
     case sa_sign A key data (ssh_connection b) of
       (Inl e, c) \<Rightarrow> Err (SshAgent e)
     | (Inr sg, c) \<Rightarrow> and_then (copy_array 64 sg) (\<lambda>sig_bytes. Ok (sig_bytes, b\<lparr>ssh_connection := c\<rparr>)))"

definition ssh_get_public_key :: "'c ssh_backend \<Rightarrow> (backend_error, public_key) outcome" where
  "ssh_get_public_key b = and_then (unwrap (ssh_public_key b)) (copy_array 32)"

text \<open>Dropping the backend removes every identity of the agent, those of other programs too.\<close>

definition ssh_drop :: "'c ssh_agent \<Rightarrow> 'c ssh_backend \<Rightarrow> 'c" where
  "ssh_drop A b = snd (sa_remove_all_identities A (ssh_connection b))"

section \<open>Boxed backends\<close>

datatype ('k, 'c) any_backend = MemoryBackend memory_backend | KrsBackend "'k krs_backend" | SshBackend "'c ssh_backend"

definition any_sign ::
  "ed25519 \<Rightarrow> ('k, 'h) keyring \<Rightarrow> 'c ssh_agent \<Rightarrow> ('k, 'c) any_backend \<Rightarrow> bytes \<Rightarrow> (backend_error, bytes \<times> ('k, 'c) any_backend) outcome" where
  "any_sign E R A b data =
     (case b of
        MemoryBackend m \<Rightarrow> and_then (mb_sign E m data) (\<lambda>(sg, m'). Ok (sg, MemoryBackend m'))
      | KrsBackend k \<Rightarrow> and_then (krs_sign E R k data) (\<lambda>(sg, k'). Ok (sg, KrsBackend k'))
      | SshBackend s \<Rightarrow> and_then (ssh_sign A s data) (\<lambda>(sg, s'). Ok (sg, SshBackend s')))"

definition any_ops :: "ed25519 \<Rightarrow> ('k, 'h) keyring \<Rightarrow> 'c ssh_agent \<Rightarrow> ('k, 'c) any_backend seed_backend_ops" where
  "any_ops E R A =
     \<lparr>sb_sign = any_sign E R A,
      sb_seed_len = (\<lambda>b. case b of MemoryBackend m \<Rightarrow> mb_seed_len m | KrsBackend k \<Rightarrow> krs_seed_len k | SshBackend s \<Rightarrow> ssh_seed_len s),
      sb_public_key = (\<lambda>b. case b of MemoryBackend m \<Rightarrow> mb_get_public_key m | KrsBackend k \<Rightarrow> krs_get_public_key k
                                   | SshBackend s \<Rightarrow> ssh_get_public_key s)\<rparr>"

definition any_store_seed ::
  "ed25519 \<Rightarrow> ('k, 'h) keyring \<Rightarrow> 'c ssh_agent \<Rightarrow> bytes \<Rightarrow> ('k, 'c) any_backend \<Rightarrow> (backend_error, ('k, 'c) any_backend) outcome" where
  "any_store_seed E R A seed b =
     (case b of
        MemoryBackend m \<Rightarrow> and_then (mb_store_seed E seed m) (\<lambda>m'. Ok (MemoryBackend m'))
      | KrsBackend k \<Rightarrow> (case krs_store_seed E R seed k of (r, k') \<Rightarrow> and_then r (\<lambda>_. Ok (KrsBackend k')))
      | SshBackend s \<Rightarrow> and_then (ssh_store_seed E A seed s) (\<lambda>s'. Ok (SshBackend s')))"

text \<open>All backends compiled in.\<close>

definition all_backends ::
  "ed25519 \<Rightarrow> ('k, 'h) keyring \<Rightarrow> 'c ssh_agent \<Rightarrow> string option \<Rightarrow> ('k, 'c) any_backend backends" where
  "all_backends E R A auth_sock =
     \<lparr>bk_memory = Ok (MemoryBackend mb_new),
      bk_krs = Some (Ok (KrsBackend (krs_new R))),
      bk_ssh_agent = Some (and_then (ssh_new A auth_sock None) (\<lambda>s. Ok (SshBackend s))),
      bk_store_seed = any_store_seed E R A\<rparr>"

section \<open>Interleaved clients of the worker thread\<close>

text \<open>
  The channel and its clients: requests wait with the identity of their response channel; \<open>krs_log\<close> records
  them in the order they were sent. A request to an ended thread fails at once. When the thread ends, the
  requests that still wait are dropped with their response channels.
\<close>

record 'k krs_config =
  krs_queue :: "(nat \<times> krs_request) list"
  krs_worker :: "'k krs_thread"
  krs_replies :: "nat \<Rightarrow> (backend_error, krs_reply) outcome option"
  krs_log :: "(nat \<times> krs_request) list"

definition krs_init :: "'k krs_thread \<Rightarrow> 'k krs_config" where
  "krs_init t = \<lparr>krs_queue = [], krs_worker = t, krs_replies = Map.empty, krs_log = []\<rparr>"

definition disconnect ::
  "(nat \<times> krs_request) list \<Rightarrow> (nat \<Rightarrow> (backend_error, krs_reply) outcome option) \<Rightarrow> nat \<Rightarrow> (backend_error, krs_reply) outcome option" where
  "disconnect q replies i = (if i \<in> fst ` set q then Some (Err WorkerDisconnect) else replies i)"

inductive krs_step :: "ed25519 \<Rightarrow> ('k, 'h) keyring \<Rightarrow> 'k krs_config \<Rightarrow> 'k krs_config \<Rightarrow> bool" for E R where
  send: "\<lbrakk>krs_worker c = KrsServing k; i \<notin> fst ` set (krs_log c)\<rbrakk> \<Longrightarrow>
     krs_step E R c (c\<lparr>krs_queue := krs_queue c @ [(i, req)], krs_log := krs_log c @ [(i, req)]\<rparr>)"
| send_fails: "\<lbrakk>krs_worker c = KrsEnded; i \<notin> fst ` set (krs_log c)\<rbrakk> \<Longrightarrow>
     krs_step E R c (c\<lparr>krs_replies := (krs_replies c)(i \<mapsto> Err WorkerDisconnect), krs_log := krs_log c @ [(i, req)]\<rparr>)"
| serve: "\<lbrakk>krs_worker c = KrsServing k; krs_queue c = (i, req) # q; krs_serve E R req (KrsServing k) = (r, KrsServing k')\<rbrakk> \<Longrightarrow>
     krs_step E R c (c\<lparr>krs_queue := q, krs_worker := KrsServing k', krs_replies := (krs_replies c)(i \<mapsto> r)\<rparr>)"
| ends: "\<lbrakk>krs_worker c = KrsServing k; krs_queue c = (i, req) # q; krs_serve E R req (KrsServing k) = (r, KrsEnded)\<rbrakk> \<Longrightarrow>
     krs_step E R c (c\<lparr>krs_queue := [], krs_worker := KrsEnded, krs_replies := disconnect q ((krs_replies c)(i \<mapsto> r))\<rparr>)"

text \<open>The sequential specification: the requests one after the other.\<close>

fun krs_run ::
  "ed25519 \<Rightarrow> ('k, 'h) keyring \<Rightarrow> krs_request list \<Rightarrow> 'k krs_thread \<Rightarrow> (backend_error, krs_reply) outcome list \<times> 'k krs_thread" where
  "krs_run E R [] t = ([], t)"
| "krs_run E R (req # reqs) t =
     (let (r, t') = krs_serve E R req t; (rs, t'') = krs_run E R reqs t' in (r # rs, t''))"

lemma krs_run_append:
  "krs_run E R (xs @ ys) t =
     (fst (krs_run E R xs t) @ fst (krs_run E R ys (snd (krs_run E R xs t))), snd (krs_run E R ys (snd (krs_run E R xs t))))"
  by (induction xs arbitrary: t) (simp_all add: case_prod_beta)

lemma krs_run_ended: "krs_run E R reqs KrsEnded = (replicate (length reqs) (Err WorkerDisconnect), KrsEnded)"
  by (induction reqs) simp_all

lemma krs_run_length [simp]: "length (fst (krs_run E R reqs t)) = length reqs"
  by (induction reqs arbitrary: t) (simp_all add: case_prod_beta)

text \<open>What the steps preserve: a prefix of the log has been served as the specification says.\<close>

definition krs_inv :: "ed25519 \<Rightarrow> ('k, 'h) keyring \<Rightarrow> 'k krs_thread \<Rightarrow> 'k krs_config \<Rightarrow> (nat \<times> krs_request) list \<Rightarrow> bool" where
  "krs_inv E R t0 c served \<longleftrightarrow>
     krs_log c = served @ krs_queue c \<and> distinct (map fst (krs_log c)) \<and>
     snd (krs_run E R (map snd served) t0) = krs_worker c \<and>
     map (\<lambda>(i, _). krs_replies c i) served = map Some (fst (krs_run E R (map snd served) t0)) \<and>
     (krs_worker c = KrsEnded \<longrightarrow> krs_queue c = []) \<and>
     (\<forall>i. i \<notin> fst ` set served \<longrightarrow> krs_replies c i = None)"

lemma krs_inv_fresh:
  assumes "krs_inv E R t0 c served" and "krs_queue c = (i, req) # q"
  shows "i \<notin> fst ` set served" "fst ` set q \<inter> fst ` set served = {}" "i \<notin> fst ` set q"
proof -
  have "distinct (map fst served @ i # map fst q)"
    using assms unfolding krs_inv_def by (elim conjE) simp
  then show "i \<notin> fst ` set served" "fst ` set q \<inter> fst ` set served = {}" "i \<notin> fst ` set q"
    by auto
qed

lemma krs_step_inv:
  assumes "krs_step E R c c'" and "krs_inv E R t0 c served"
  shows "\<exists>served'. krs_inv E R t0 c' served'"
  using assms
proof (induction rule: krs_step.cases)
  case (send c k i req)
  then have "krs_inv E R t0 (c\<lparr>krs_queue := krs_queue c @ [(i, req)], krs_log := krs_log c @ [(i, req)]\<rparr>) served"
    unfolding krs_inv_def by (elim conjE) (simp add: image_Un)
  with send show ?case by blast
next
  case (send_fails c i req)
  then have "i \<notin> fst ` set served" "krs_queue c = []" by (auto simp: krs_inv_def)
  then have "map (\<lambda>(j, _). ((krs_replies c)(i \<mapsto> Err WorkerDisconnect)) j) served = map (\<lambda>(j, _). krs_replies c j) served"
    by (intro map_cong) (auto simp: image_iff)
  with send_fails have "krs_inv E R t0 c' (served @ [(i, req)])"
    unfolding krs_inv_def by (elim conjE) (simp add: krs_run_append image_Un del: map_eq_conv)
  then show ?case by blast
next
  case (serve c k i req q r k')
  then have "i \<notin> fst ` set served" using krs_inv_fresh by blast
  then have "map (\<lambda>(j, _). ((krs_replies c)(i \<mapsto> r)) j) served = map (\<lambda>(j, _). krs_replies c j) served"
    by (intro map_cong) (auto simp: image_iff)
  with serve have "krs_inv E R t0 c' (served @ [(i, req)])"
    unfolding krs_inv_def by (elim conjE) (simp add: krs_run_append image_Un del: krs_serve.simps map_eq_conv)
  then show ?case by blast
next
  case (ends c k i req q r)
  then have "i \<notin> fst ` set served" "fst ` set q \<inter> fst ` set served = {}" "i \<notin> fst ` set q"
    using krs_inv_fresh [of E R t0 c served i req q] by simp_all
  then have f: "fst x \<noteq> i \<and> fst x \<notin> fst ` set q" if "x \<in> set served" for x
    using that by (metis disjoint_iff image_eqI)
  let ?d = "disconnect q ((krs_replies c)(i \<mapsto> r))"
  have m: "map (\<lambda>(j, _). ?d j) served = map (\<lambda>(j, _). krs_replies c j) served"
    by (rule map_cong) (auto dest!: f simp: disconnect_def)
  have "map (\<lambda>(j, _). ?d j) q = map (\<lambda>_. Some (Err WorkerDisconnect)) q"
    by (rule map_cong) (force simp: disconnect_def)+
  then have mq: "map (\<lambda>(j, _). ?d j) q = replicate (length q) (Some (Err WorkerDisconnect))"
    by (simp only: map_replicate_const)
  have mi: "?d i = Some r" using \<open>i \<notin> fst ` set q\<close> by (simp add: disconnect_def)
  from ends m mq mi have "krs_inv E R t0 c' (served @ (i, req) # q)"
    unfolding krs_inv_def by (elim conjE) (simp add: krs_run_append krs_run_ended map_replicate image_Un disconnect_def del: krs_serve.simps map_eq_conv)
  then show ?case by blast
qed

lemma krs_reachable_inv:
  assumes "(krs_step E R)\<^sup>*\<^sup>* (krs_init t0) c"
  shows "\<exists>served. krs_inv E R t0 c served"
  using assms
proof (induction rule: rtranclp_induct)
  case base
  have "krs_inv E R t0 (krs_init t0) []" by (simp add: krs_inv_def krs_init_def)
  then show ?case by blast
next
  case (step c c')
  then show ?case using krs_step_inv by blast
qed

section \<open>Contracts\<close>

text \<open>What the documentation of the key retention service promises, \<open>kv\<close> being the payload under \<open>KEY_NAME\<close>: a
  new thread keyring is empty, a key that was added is found and read back, permissions of the possessor do not
  change it, and clearing removes it.\<close>

definition keyring_ok :: "('k, 'h) keyring \<Rightarrow> ('k \<Rightarrow> bytes option) \<Rightarrow> bool" where
  "keyring_ok R kv \<longleftrightarrow>
     (\<forall>k. kr_open R = Inr k \<longrightarrow> kv k = None) \<and>
     (\<forall>k. kv k = None \<longrightarrow> kr_search R k = Inl KeyDoesNotExist) \<and>
     (\<forall>k seed. kv k = Some seed \<longrightarrow>
        (\<exists>h. kr_search R k = Inr h \<and> (length seed = 32 \<longrightarrow> kr_read R h 32 k = Inr (32, seed)))) \<and>
     (\<forall>k k' seed h. kr_add_key R seed k = (Inr h, k') \<longrightarrow> kv k' = Some seed) \<and>
     (\<forall>k h. kv (snd (kr_set_perms R h k)) = kv k) \<and>
     (\<forall>k k'. kr_clear R k = (Inr (), k') \<longrightarrow> kv k' = None)"

lemma keyring_read:
  assumes "keyring_ok R kv" and "kv k = Some seed" and "length seed = 32"
  shows "handle_get_seed R k = Ok seed"
proof -
  obtain h where "kr_search R k = Inr h" "kr_read R h 32 k = Inr (32, seed)"
    using assms unfolding keyring_ok_def by metis
  then show ?thesis using assms(3) by (simp add: handle_get_seed_def seed_new_def)
qed

lemma keyring_stored:
  assumes "keyring_ok R kv" and "handle_store_seed E R seed k = (Ok r, k')" and "ed25519_ok E"
  shows "kv k' = Some seed \<and> r = Stored (ed_public E seed) (length seed)"
proof -
  obtain h k1 where a: "kr_add_key R seed k = (Inr h, k1)" "snd (kr_set_perms R h k1) = k'"
      "r = Stored (ed_public E seed) (length seed)"
    using assms(2,3) unfolding handle_store_seed_def
    by (auto simp: pubk_from_slice_def copy_array_def ed25519_lengths split: sum.splits prod.splits)
  then have "kv k1 = Some seed" "kv k' = kv k1"
    using assms(1) unfolding keyring_ok_def by blast+
  with a(3) show ?thesis by simp
qed

text \<open>A thread whose keyring holds a seed.\<close>

definition holds_seed :: "('k \<Rightarrow> bytes option) \<Rightarrow> bytes \<Rightarrow> 'k krs_thread \<Rightarrow> bool" where
  "holds_seed kv seed t \<longleftrightarrow> length seed = 32 \<and> (\<exists>k. t = KrsServing k \<and> kv k = Some seed)"

lemma serve_get:
  assumes "keyring_ok R kv" and "holds_seed kv seed t"
  shows "krs_serve E R GetSeed t = (Ok (SeedIs seed), t)"
  using assms keyring_read [OF assms(1)] by (auto simp: holds_seed_def)

lemma serve_sign:
  assumes "keyring_ok R kv" and "holds_seed kv seed t" and "ed25519_ok E"
  shows "krs_serve E R (Sign m) t = (Ok (Signed (ed_sign E seed m)), t)"
  using assms keyring_read [OF assms(1)]
  by (auto simp: holds_seed_def handle_sign_def copy_array_def ed25519_lengths)

lemma serve_store:
  assumes "keyring_ok R kv" and "ed25519_ok E" and "length seed = 32"
    and "krs_serve E R (StoreSeed seed) t = (Ok r, t')"
  shows "holds_seed kv seed t' \<and> r = Stored (ed_public E seed) 32"
proof -
  obtain k k' where "t = KrsServing k" "handle_store_seed E R seed k = (Ok r, k')" "t' = KrsServing k'"
    using assms(4) by (cases t) (auto split: prod.splits outcome.splits)
  then show ?thesis using keyring_stored [OF assms(1) _ assms(2)] assms(3) by (auto simp: holds_seed_def)
qed

text \<open>A second store finds the key and panics, which ends the thread.\<close>

lemma serve_store_again:
  assumes "keyring_ok R kv" and "holds_seed kv seed t"
  shows "krs_serve E R (StoreSeed seed') t = (Err WorkerDisconnect, KrsEnded)"
proof -
  obtain k where k: "t = KrsServing k" "kv k = Some seed" using assms(2) by (auto simp: holds_seed_def)
  then obtain h where "kr_search R k = Inr h" using assms(1) unfolding keyring_ok_def by metis
  with k show ?thesis by (simp add: handle_store_seed_def)
qed

text \<open>The reply a reader gets from a thread that holds \<open>seed\<close>.\<close>

fun reader_reply :: "ed25519 \<Rightarrow> bytes \<Rightarrow> krs_request \<Rightarrow> krs_reply option" where
  "reader_reply E seed GetSeed = Some (SeedIs seed)"
| "reader_reply E seed (Sign m) = Some (Signed (ed_sign E seed m))"
| "reader_reply E seed _ = None"

lemma krs_run_readers:
  assumes "keyring_ok R kv" and "ed25519_ok E" and "holds_seed kv seed t"
    and "\<forall>req\<in>set reqs. reader_reply E seed req \<noteq> None"
  shows "krs_run E R reqs t = (map (\<lambda>req. Ok (the (reader_reply E seed req))) reqs, t)"
  using assms(4)
proof (induction reqs)
  case (Cons req reqs)
  then show ?case
    using serve_get [OF assms(1,3), of E] serve_sign [OF assms(1,3,2)] by (cases req) (auto simp: Let_def)
qed simp

section \<open>The trait\<close>

definition krs_ok :: "ed25519 \<Rightarrow> ('k \<Rightarrow> bytes option) \<Rightarrow> 'k krs_backend \<Rightarrow> bool" where
  "krs_ok E kv b \<longleftrightarrow> (\<exists>seed. holds_seed kv seed (krs_thread b) \<and> krs_public_key b = Some (ed_public E seed) \<and> krs_seed_len b = 32)"

text \<open>What the agent promises: an identity that was added signs, and stays.\<close>

definition ssh_agent_ok :: "ed25519 \<Rightarrow> 'c ssh_agent \<Rightarrow> (bytes \<Rightarrow> 'c \<Rightarrow> bool) \<Rightarrow> bool" where
  "ssh_agent_ok E A holds \<longleftrightarrow>
     (\<forall>seed c c'. sa_add_identity A seed c = (Inr (), c') \<longrightarrow> holds (ed_public E seed) c') \<and>
     (\<forall>pk m c. holds pk c \<longrightarrow> (\<exists>sg c'. sa_sign A pk m c = (Inr sg, c') \<and> holds pk c' \<and> length sg = 64 \<and> ed_verify E pk m sg))"

definition ssh_ok :: "(bytes \<Rightarrow> 'c \<Rightarrow> bool) \<Rightarrow> 'c ssh_backend \<Rightarrow> bool" where
  "ssh_ok holds b \<longleftrightarrow> (\<exists>pk. ssh_public_key b = Some pk \<and> length pk = 32 \<and> holds pk (ssh_connection b) \<and> ssh_seed_len b = 32)"

lemma krs_sign_ok:
  assumes "keyring_ok R kv" and "ed25519_ok E" and "krs_ok E kv b" and "krs_public_key b = Some pk"
  shows "\<exists>sg. krs_sign E R b m = Ok (sg, b) \<and> length sg = 64 \<and> ed_verify E pk m sg"
proof -
  obtain seed where "holds_seed kv seed (krs_thread b)" "pk = ed_public E seed"
    using assms(3,4) by (auto simp: krs_ok_def)
  then show ?thesis
    using serve_sign [OF assms(1) _ assms(2)] by (simp add: krs_sign_def ed25519_lengths [OF assms(2)])
qed

lemma ssh_sign_ok:
  assumes "ssh_agent_ok E A holds" and "ssh_ok holds b" and "ssh_public_key b = Some pk"
  shows "\<exists>sg b'. ssh_sign A b m = Ok (sg, b') \<and> ssh_ok holds b' \<and> ssh_public_key b' = Some pk \<and> length sg = 64 \<and> ed_verify E pk m sg"
proof -
  obtain sg c' where "sa_sign A pk m (ssh_connection b) = (Inr sg, c')" "holds pk c'" "length sg = 64" "ed_verify E pk m sg"
    using assms unfolding ssh_agent_ok_def ssh_ok_def by (metis option.inject)
  then show ?thesis
    using assms(2,3) by (auto simp: ssh_sign_def ssh_ok_def unwrap_def copy_array_def)
qed

text \<open>The services together, so that one contract covers the three backends.\<close>

definition any_ok ::
  "ed25519 \<Rightarrow> ('k, 'h) keyring \<Rightarrow> ('k \<Rightarrow> bytes option) \<Rightarrow> 'c ssh_agent \<Rightarrow> (bytes \<Rightarrow> 'c \<Rightarrow> bool) \<Rightarrow> ('k, 'c) any_backend \<Rightarrow> bool" where
  "any_ok E R kv A holds b \<longleftrightarrow>
     (case b of MemoryBackend m \<Rightarrow> mb_ok E m
              | KrsBackend k \<Rightarrow> keyring_ok R kv \<and> krs_ok E kv k
              | SshBackend s \<Rightarrow> ssh_agent_ok E A holds \<and> ssh_ok holds s)"

definition any_pk :: "ed25519 \<Rightarrow> ('k, 'c) any_backend \<Rightarrow> public_key" where
  "any_pk E b =
     (case b of MemoryBackend m \<Rightarrow> mb_pk E m
              | KrsBackend k \<Rightarrow> (case krs_public_key k of Some pk \<Rightarrow> pk | None \<Rightarrow> [])
              | SshBackend s \<Rightarrow> (case ssh_public_key s of Some pk \<Rightarrow> pk | None \<Rightarrow> []))"

interpretation boxed_seed: seed_backend E "any_ops E R A" "any_ok E R kv A holds" "any_pk E" for E R A kv holds
proof
  fix b :: "('a, 'c) any_backend" and m
  assume ok: "any_ok E R kv A holds b"
  show "sb_public_key (any_ops E R A) b = Ok (any_pk E b)"
    using ok memory_seed.backend_pk [of E]
    by (cases b) (auto simp: any_ok_def any_ops_def any_pk_def krs_ok_def ssh_ok_def krs_get_public_key_def
        ssh_get_public_key_def unwrap_def copy_array_def memory_ops_def)
  show "sb_seed_len (any_ops E R A) b = 32"
    using ok memory_seed.backend_len [of E]
    by (cases b) (auto simp: any_ok_def any_ops_def krs_ok_def ssh_ok_def memory_ops_def)
  assume E: "ed25519_ok E"
  show "\<exists>sg b'. sb_sign (any_ops E R A) b m = Ok (sg, b') \<and> any_ok E R kv A holds b' \<and> any_pk E b' = any_pk E b \<and>
      length sg = 64 \<and> ed_verify E (any_pk E b) m sg"
  proof (cases b)
    case (MemoryBackend mb)
    then show ?thesis
      using ok memory_seed.backend_sign [OF E, of mb m]
      by (force simp: any_ok_def any_ops_def any_pk_def any_sign_def memory_ops_def)
  next
    case (KrsBackend k)
    then obtain pk where "keyring_ok R kv" "krs_ok E kv k" "krs_public_key k = Some pk"
      using ok by (auto simp: any_ok_def krs_ok_def)
    then show ?thesis
      using KrsBackend krs_sign_ok [of R kv E k pk m] E
      by (force simp: any_ok_def any_ops_def any_pk_def any_sign_def)
  next
    case (SshBackend s)
    then obtain pk where "ssh_agent_ok E A holds" "ssh_ok holds s" "ssh_public_key s = Some pk"
      using ok by (auto simp: any_ok_def ssh_ok_def)
    then show ?thesis
      using SshBackend ssh_sign_ok [of E A holds s pk m]
      by (force simp: any_ok_def any_ops_def any_pk_def any_sign_def)
  qed
qed

lemma any_store_seed_ok:
  assumes "ed25519_ok E" and "keyring_ok R kv" and "ssh_agent_ok E A holds" and "length seed = 32"
    and "any_store_seed E R A seed b = Ok b'"
  shows "any_ok E R kv A holds b' \<and> any_pk E b' = ed_public E seed"
proof (cases b)
  case (MemoryBackend m)
  then show ?thesis
    using assms by (auto simp: any_store_seed_def mb_store_seed_def any_ok_def any_pk_def mb_ok_def mb_pk_def
        pubk_from_slice_def copy_array_def ed25519_lengths and_then_Ok_iff split: if_splits)
next
  case (KrsBackend k)
  then obtain pk n t where "krs_serve E R (StoreSeed seed) (krs_thread k) = (Ok (Stored pk n), t)"
      "b' = KrsBackend (k\<lparr>krs_thread := t, krs_public_key := Some pk, krs_seed_len := n\<rparr>)"
    using assms(5) unfolding any_store_seed_def krs_store_seed_def
    by (auto simp del: krs_serve.simps split: prod.splits outcome.splits krs_reply.splits)
  then show ?thesis
    using serve_store [OF assms(2,1,4), of "krs_thread k" "Stored pk n" t] assms(2)
    by (auto simp: any_ok_def any_pk_def krs_ok_def)
next
  case (SshBackend s)
  then obtain c where c: "sa_add_identity A seed (ssh_connection s) = (Inr (), c)"
      "b' = SshBackend (s\<lparr>ssh_connection := c, ssh_public_key := Some (ed_public E seed), ssh_seed_len := length seed\<rparr>)"
    using assms(4,5) by (auto simp: any_store_seed_def ssh_store_seed_def key_from_seed_def copy_array_def and_then_Ok_iff
        split: prod.splits sum.splits)
  then have "holds (ed_public E seed) c" using assms(3) unfolding ssh_agent_ok_def by blast
  with c show ?thesis
    using assms(1,3,4) by (auto simp: any_ok_def any_pk_def ssh_ok_def ed25519_lengths)
qed

lemma seed_new_length: "seed_new v = Ok seed \<Longrightarrow> length seed = 32"
  by (auto simp: seed_new_def and_then_Ok_iff)

lemma open_seed_length: "open_seed p A dek ct aad = Ok seed \<Longrightarrow> length seed = 32"
  by (auto simp: open_seed_def and_then_Ok_iff split: if_splits option.splits dest: seed_new_length)

lemma try_load_length: "try_load p env m s = Ok seed \<Longrightarrow> length seed = 32"
  by (cases m) (auto simp: try_load_plain_def try_load_aws_kms_def try_load_gcp_kms_def try_load_aws_secret_def try_load_gcp_secret_def
      aws_decrypt_seed_def gcp_decrypt_seed_def aws_get_seed_def gcp_get_seed_def and_then_Ok_iff
      split: if_splits option.splits dest: seed_new_length open_seed_length)

lemma try_load_seed_length: "try_load_seed p env s = Ok seed \<Longrightarrow> length seed = 32"
  by (auto simp: try_load_seed_def and_then_Ok_iff simp del: try_load.simps split: option.splits dest: try_load_length)

section \<open>Properties\<close>

text \<open>Whatever backend the server is told to use, when the start-up loads a seed into it, then the key source
  over that backend has the public key of the seed, and the online keys it makes carry a certificate that is signed
  by it, starts at the time of creation and verifies.\<close>

lemma loaded_seed_certifies:
  assumes "ed25519_ok E" and "keyring_ok R kv" and "ssh_agent_ok E A holds"
    and "seed_arg \<noteq> []" and "load_seed p env (all_backends E R A sock) seed_arg backend = Ok b"
    and "dur_secs validity \<noteq> 0" and "epoch_seconds sys clock = (Ok now :: (backend_error, u64) outcome)"
  shows "\<exists>seed ks k ks'.
     try_load_seed p env seed_arg = Ok seed \<and> length seed = 32 \<and>
     key_source_new (any_ops E R A) v b clock validity = (Ok ks :: (backend_error, _) outcome) \<and>
     ks_public_key (any_ops E R A) ks = Ok (ed_public E seed) \<and>
     ks_make_online_key14 E (any_ops E R A) sys secret ks = Ok (k, ks') \<and>
     cert_delegates E v (ed_public E seed) (ok14_cert k) (ed_public E secret) \<and>
     dele_min_time (cert_delegation (ok14_cert k)) = now"
proof -
  obtain seed b0 where l: "try_load_seed p env seed_arg = Ok seed" "any_store_seed E R A seed b0 = Ok b"
    using assms(4,5) by (auto simp: load_seed_def and_then_Ok_iff all_backends_def)
  have len: "length seed = 32" using try_load_seed_length [OF l(1)] .
  have b: "any_ok E R kv A holds b" "any_pk E b = ed_public E seed"
    using any_store_seed_ok [OF assms(1-3) len l(2)] by simp_all
  let ?i = "\<lparr>id_seed = b, id_version = v\<rparr>"
  let ?ks = "\<lparr>ks_identity = ?i, ks_validity_length = validity, ks_clock_source = clock\<rparr>"
  have ks: "key_source_new (any_ops E R A) v b clock validity = (Ok ?ks :: (backend_error, _) outcome)"
    using boxed_seed.backend_len [OF b(1)] assms(6) by (simp add: key_source_new_def identity_new_def)
  obtain k i' where k: "make_online_key14 E (any_ops E R A) sys secret clock validity ?i = Ok (k, i')"
      "ok14_ok E v (ed_public E seed) k"
      "cert_delegation (ok14_cert k) = dele_new (ed_public E secret) now (dur_secs validity)"
    using boxed_seed.make_online_key14_ok [OF assms(1) _ assms(7), of R kv A holds ?i secret validity] b by auto
  have sec: "ok14_secret k = secret"
    using k(1) assms(7) by (auto simp: make_online_key14_def and_then_Ok_iff Let_def ok14_set_cert_def ok14_new_def)
  then have "cert_delegates E v (ed_public E seed) (ok14_cert k) (ed_public E secret)"
    using k(2) by (simp add: ok14_ok_def)
  with l(1) len ks k show ?thesis
    using boxed_seed.backend_pk [OF b(1)] b(2) dele_new_times(1)
    by (simp add: ks_make_online_key14_def ks_public_key_def identity_public_key_def)
qed

text \<open>C34. Clients of the keyring's worker thread in any interleaving: once a seed was stored successfully, every
  later request for the seed or for a signature is waiting or has been answered with that seed, or with the
  signature under it.\<close>

theorem krs_clients_interleaved:
  assumes "keyring_ok R kv" and "ed25519_ok E" and "length seed = 32"
    and "(krs_step E R)\<^sup>*\<^sup>* (krs_init (worker_thread_start R)) c"
    and "krs_log c = (i, StoreSeed seed) # rest" and "krs_replies c i = Some (Ok stored)"
    and "\<forall>(j, req)\<in>set rest. reader_reply E seed req \<noteq> None"
  shows "stored = Stored (ed_public E seed) 32 \<and>
     (\<forall>(j, req)\<in>set rest. (j, req) \<in> set (krs_queue c) \<or> krs_replies c j = Some (Ok (the (reader_reply E seed req))))"
proof -
  let ?t0 = "worker_thread_start R"
  obtain served where inv: "krs_inv E R ?t0 c served" using krs_reachable_inv [OF assms(4)] by blast
  have log: "served @ krs_queue c = (i, StoreSeed seed) # rest" and "i \<in> fst ` set served"
    using inv assms(5,6) unfolding krs_inv_def by (simp, fastforce)
  then obtain sv where sv: "served = (i, StoreSeed seed) # sv" "sv @ krs_queue c = rest"
    by (cases served) auto
  obtain r t' where r: "krs_serve E R (StoreSeed seed) ?t0 = (r, t')" by fastforce
  have rep: "map (\<lambda>(j, _). krs_replies c j) served = map Some (fst (krs_run E R (map snd served) ?t0))"
    using inv unfolding krs_inv_def by blast
  then have "r = Ok stored" using assms(6) r sv(1) by (simp add: case_prod_beta del: krs_serve.simps map_eq_conv)
  then have h: "holds_seed kv seed t'" "stored = Stored (ed_public E seed) 32"
    using serve_store [OF assms(1-3)] r by blast+
  have "\<forall>req\<in>set (map snd sv). reader_reply E seed req \<noteq> None" using assms(7) sv(2) by fastforce
  from krs_run_readers [OF assms(1,2) h(1) this]
  have "map (\<lambda>(j, _). krs_replies c j) sv = map (\<lambda>(_, req). Some (Ok (the (reader_reply E seed req)))) sv"
    using rep r sv(1) by (simp add: case_prod_beta comp_def del: krs_serve.simps)
  then have "krs_replies c j = Some (Ok (the (reader_reply E seed req)))" if "(j, req) \<in> set sv" for j req
    using that by fastforce
  with h(2) sv(2) show ?thesis by auto
qed

section \<open>A sample keyring and agent\<close>

definition sample_keyring :: "(bytes option, unit) keyring" where
  "sample_keyring =
     \<lparr>kr_open = Inr None,
      kr_search = (\<lambda>k. case k of None \<Rightarrow> Inl KeyDoesNotExist | Some _ \<Rightarrow> Inr ()),
      kr_add_key = (\<lambda>seed k. (Inr (), Some seed)),
      kr_set_perms = (\<lambda>h k. (Inr (), k)),
      kr_read = (\<lambda>h n k. case k of None \<Rightarrow> Inl KeyDoesNotExist | Some seed \<Rightarrow> Inr (length seed, take n seed)),
      kr_clear = (\<lambda>k. (Inr (), None))\<rparr>"

lemma sample_keyring_ok: "keyring_ok sample_keyring (\<lambda>k. k)"
  by (simp add: keyring_ok_def sample_keyring_def)

definition sample_agent :: "bytes list ssh_agent" where
  "sample_agent =
     \<lparr>sa_connect = (\<lambda>path. Inr []),
      sa_add_identity = (\<lambda>seed c. (Inr (), seed # c)),
      sa_sign = (\<lambda>pk m c. case find (\<lambda>s. ed_public toy_ed s = pk) c of
                   Some s \<Rightarrow> (Inr (ed_sign toy_ed s m), c) | None \<Rightarrow> (Inl ''no such identity'', c)),
      sa_remove_all_identities = (\<lambda>c. (Inr (), []))\<rparr>"

lemma sample_agent_ok: "ssh_agent_ok toy_ed sample_agent (\<lambda>pk c. \<exists>s\<in>set c. ed_public toy_ed s = pk)"
proof -
  have "\<exists>sg. sa_sign sample_agent pk m c = (Inr sg, c) \<and> length sg = 64 \<and> ed_verify toy_ed pk m sg"
    if k: "\<exists>s\<in>set c. ed_public toy_ed s = pk" for pk m c
  proof (cases "find (\<lambda>s. ed_public toy_ed s = pk) c")
    case None
    with k show ?thesis by (auto simp: find_None_iff)
  next
    case (Some s)
    then have "ed_public toy_ed s = pk" by (auto simp: find_Some_iff)
    with Some show ?thesis
      using ed25519_lengths(2,3) [OF toy_ed_ok, of s m] by (auto simp: sample_agent_def)
  qed
  then show ?thesis unfolding ssh_agent_ok_def by (fastforce simp: sample_agent_def)
qed

text \<open>A server that is told to keep a plain seed in the keyring.\<close>

definition sample_config :: "nat \<Rightarrow> bytes option krs_config" where
  "sample_config n =
     (let seed = replicate 32 9; st = (0, StoreSeed seed); get = (1, GetSeed);
          r0 = Ok (Stored (ed_public toy_ed seed) 32) in
      if n = 0 then krs_init (KrsServing None)
      else if n = 1 then \<lparr>krs_queue = [st], krs_worker = KrsServing None, krs_replies = Map.empty, krs_log = [st]\<rparr>
      else if n = 2 then \<lparr>krs_queue = [st, get], krs_worker = KrsServing None, krs_replies = Map.empty, krs_log = [st, get]\<rparr>
      else if n = 3 then \<lparr>krs_queue = [get], krs_worker = KrsServing (Some seed), krs_replies = [0 \<mapsto> r0], krs_log = [st, get]\<rparr>
      else \<lparr>krs_queue = [], krs_worker = KrsServing (Some seed), krs_replies = [0 \<mapsto> r0, 1 \<mapsto> Ok (SeedIs seed)], krs_log = [st, get]\<rparr>)"

lemma sample_reachable: "(krs_step toy_ed sample_keyring)\<^sup>*\<^sup>* (krs_init (KrsServing None)) (sample_config 4)"
proof -
  have a: "krs_step toy_ed sample_keyring (sample_config 0) (sample_config 1)"
    using krs_step.send [of "sample_config 0" None 0 toy_ed sample_keyring "StoreSeed (replicate 32 9)"]
    by (simp add: sample_config_def Let_def krs_init_def)
  have b: "krs_step toy_ed sample_keyring (sample_config 1) (sample_config 2)"
    using krs_step.send [of "sample_config 1" None 1 toy_ed sample_keyring GetSeed]
    by (simp add: sample_config_def Let_def)
  have c: "krs_step toy_ed sample_keyring (sample_config 2) (sample_config 3)"
    using krs_step.serve [of "sample_config 2" None 0 "StoreSeed (replicate 32 9)" "[(1, GetSeed)]" toy_ed sample_keyring]
      ed25519_lengths(1) [OF toy_ed_ok]
    by (simp add: sample_config_def Let_def sample_keyring_def handle_store_seed_def pubk_from_slice_def copy_array_def)
  have d: "krs_step toy_ed sample_keyring (sample_config 3) (sample_config 4)"
    using krs_step.serve [of "sample_config 3" "Some (replicate 32 9)" 1 GetSeed "[]" toy_ed sample_keyring]
    by (simp add: sample_config_def Let_def sample_keyring_def handle_get_seed_def seed_new_def)
  have "krs_init (KrsServing None) = sample_config 0" by (simp add: sample_config_def Let_def)
  with a b c d show ?thesis by (metis rtranclp.simps)
qed

theorem krs_clients_interleaved_witness:
  "krs_replies (sample_config 4) 1 = Some (Ok (SeedIs (replicate 32 9))) \<and> krs_queue (sample_config 4) = []"
proof -
  have "(krs_step toy_ed sample_keyring)\<^sup>*\<^sup>* (krs_init (worker_thread_start sample_keyring)) (sample_config 4)"
    using sample_reachable by (simp add: worker_thread_start_def sample_keyring_def)
  from krs_clients_interleaved [OF sample_keyring_ok toy_ed_ok _ this, of "replicate 32 9" 0 "[(1, GetSeed)]"
      "Stored (ed_public toy_ed (replicate 32 9)) 32"]
  have "(1, GetSeed) \<in> set (krs_queue (sample_config 4)) \<or>
      krs_replies (sample_config 4) 1 = Some (Ok (the (reader_reply toy_ed (replicate 32 9) GetSeed)))"
    by (simp add: sample_config_def Let_def)
  then show ?thesis by (simp add: sample_config_def Let_def)
qed

end
