(* ===== verification/Server_Main.thy ===== *)
theory Server_Main
  imports Aggregator Seed_Backends
begin

text \<open>
  The server process (\<^verbatim>\<open>server/src/main.rs\<close>): the seed is loaded into a backend, the key source is made, and \<open>main\<close>
  spawns the metrics thread and the workers and joins them. The threads share the long-term identity behind the
  mutex of the key source, the bounded metrics channel, the flag \<open>KEEP_RUNNING\<close> and the file system; everything
  else is their own. A step of the process is a step of one thread on its own state and the shared one, in
  any order, so that every interleaving is covered. Shown: no thread panics in any interleaving, all
  workers answer under the one long-term key, requests are never counted twice or lost but by a full
  channel, and the process can always be shut down.
\<close>

section \<open>Arguments and sockets\<close>

record main_args = server_args +
  sa_interface :: string
  sa_port :: u16
  sa_seed :: string
  sa_seed_backend :: seed_backend_arg
  sa_metrics_output :: "string option"

abbreviation worker_args :: "main_args \<Rightarrow> server_args" where
  "worker_args a \<equiv> server_args.truncate a"

text \<open>\<open>parse_ip\<close> is the parser of IP addresses of the standard library.\<close>

definition udp_socket_addr :: "(string \<Rightarrow> 'ip option) \<Rightarrow> main_args \<Rightarrow> ('e, 'ip \<times> u16) outcome" where
  "udp_socket_addr parse_ip a =
     (case parse_ip (sa_interface a) of None \<Rightarrow> Panic | Some addr \<Rightarrow> Ok (addr, sa_port a))"

text \<open>The errors of the socket calls, in their order.\<close>

record socket_calls =
  sk_new :: "string option"
  sk_nonblocking :: "string option"
  sk_reuse_address :: "string option"
  sk_reuse_port :: "string option"
  sk_bind :: "string option"

fun sys_call :: "string option \<Rightarrow> (string, unit) outcome" where
  "sys_call None = Ok ()"
| "sys_call (Some e) = Err e"

definition bind_socket :: "(string \<Rightarrow> 'ip option) \<Rightarrow> socket_calls \<Rightarrow> main_args \<Rightarrow> (string, 'ip \<times> u16) outcome" where
  "bind_socket parse_ip calls a =
     and_then (udp_socket_addr parse_ip a) (\<lambda>sock_addr.
     and_then (sys_call (sk_new calls)) (\<lambda>_.
     and_then (sys_call (sk_nonblocking calls)) (\<lambda>_.
     and_then (sys_call (sk_reuse_address calls)) (\<lambda>_.
     and_then (sys_call (sk_reuse_port calls)) (\<lambda>_.
     and_then (sys_call (sk_bind calls)) (\<lambda>_. Ok sock_addr))))))"

section \<open>The state of the process\<close>

text \<open>A thread that was spawned with its input, or that runs.\<close>

datatype ('i, 's) thread = Spawned 'i | Running 's

record ('b, 'addr) process =
  pr_keep_running :: bool
  pr_identity :: "'b identity"
  pr_channel :: metrics_channel
  pr_files :: file_system
  pr_metrics :: "(aggregator, aggregator_state) thread"
  pr_workers :: "(nat, ('b, 'addr) worker_state) thread list"

text \<open>\<open>start_metrics_thread\<close>: a metrics directory that cannot be used ends the process. The result is the
  aggregator the thread runs, the channel, and the files after the directory was checked.\<close>

datatype startup_error = ExitCode int

definition start_metrics_thread ::
  "string option \<Rightarrow> bool \<Rightarrow> main_args \<Rightarrow> clock_source \<Rightarrow> file_system \<Rightarrow>
     (startup_error, aggregator \<times> metrics_channel \<times> file_system) outcome" where
  "start_metrics_thread create_err remove_ok a clock fs =
     (let num_workers = unat (sa_num_threads a);
          metrics_interval = \<lparr>dur_secs = sa_metrics_interval a, dur_nanos = 0\<rparr> in
      and_then
        (case sa_metrics_output a of
           None \<Rightarrow> Ok (None, fs)
         | Some path \<Rightarrow>
             (case validate_metrics_directory create_err remove_ok path fs of
                (Inl e, _) \<Rightarrow> Err (ExitCode 1)
              | (Inr _, fs') \<Rightarrow> Ok (Some path, fs')))
        (\<lambda>(metrics_path, fs').
           Ok (aggregator_new num_workers metrics_interval clock metrics_path,
               \<lparr>ch_capacity = num_workers * 2, ch_queue = []\<rparr>, fs')))"

text \<open>\<open>main\<close> up to the loop that joins the threads.\<close>

definition server_start ::
  "profile \<Rightarrow> seed_env \<Rightarrow> 'b backends \<Rightarrow> 'b seed_backend_ops \<Rightarrow> string option \<Rightarrow> bool \<Rightarrow> main_args \<Rightarrow> file_system \<Rightarrow>
     (startup_error, ('b, 'addr) process) outcome" where
  "server_start p env B ops create_err remove_ok a fs =
     (let clock = choose_clock (worker_args a) in
      and_then (expect (load_seed p env B (sa_seed a) (sa_seed_backend a))) (\<lambda>seed.
      and_then (key_source_new ops (args_version (sa_protocol a)) seed clock (args_rotation_interval (worker_args a))) (\<lambda>key_source.
      and_then (expect (ks_public_key ops key_source)) (\<lambda>_.
      and_then (start_metrics_thread create_err remove_ok a clock fs) (\<lambda>(collector, channel, fs').
      Ok \<lparr>pr_keep_running = True, pr_identity = ks_identity key_source, pr_channel = channel, pr_files = fs',
          pr_metrics = Spawned collector, pr_workers = map Spawned [0..<unat (sa_num_threads a)]\<rparr>)))))"

section \<open>Steps\<close>

text \<open>A worker's view of the shared objects before a step.\<close>

definition attach :: "metrics_channel \<Rightarrow> 'b identity \<Rightarrow> ('b, 'addr) worker \<Rightarrow> ('b, 'addr) worker" where
  "attach ch i w =
     (let q = wk_req_handler w; h = qh_responder q; ks = rh_key_source h in
      w\<lparr>wk_metrics_channel := ch, wk_req_handler := q\<lparr>qh_responder := h\<lparr>rh_key_source := ks\<lparr>ks_identity := i\<rparr>\<rparr>\<rparr>\<rparr>)"

fun attach_state :: "metrics_channel \<Rightarrow> 'b identity \<Rightarrow> ('b, 'addr) worker_state \<Rightarrow> ('b, 'addr) worker_state" where
  "attach_state ch i (Polling t w) = Polling t (attach ch i w)"
| "attach_state ch i (Serving t w) = Serving t (attach ch i w)"
| "attach_state ch i Stopped = Stopped"
| "attach_state ch i Crashed = Crashed"

text \<open>The worker of a state, and the shared objects as a worker leaves them.\<close>

fun the_worker :: "('b, 'addr) worker_state \<Rightarrow> ('b, 'addr) worker option" where
  "the_worker (Polling t w) = Some w"
| "the_worker (Serving t w) = Some w"
| "the_worker Stopped = None"
| "the_worker Crashed = None"

definition worker_identity :: "('b, 'addr) worker \<Rightarrow> 'b identity" where
  "worker_identity w = ks_identity (rh_key_source (qh_responder (wk_req_handler w)))"

definition publish_back :: "nat \<Rightarrow> ('b, 'addr) worker_state \<Rightarrow> ('b, 'addr) process \<Rightarrow> ('b, 'addr) process" where
  "publish_back i ws d =
     (case the_worker ws of
        None \<Rightarrow> d\<lparr>pr_workers := (pr_workers d)[i := Running ws]\<rparr>
      | Some w \<Rightarrow> d\<lparr>pr_workers := (pr_workers d)[i := Running ws], pr_channel := wk_metrics_channel w, pr_identity := worker_identity w\<rparr>)"

fun is_polling :: "('b, 'addr) worker_state \<Rightarrow> bool" where
  "is_polling (Polling t w) = True"
| "is_polling _ = False"

text \<open>The body of a worker thread up to its loop. \<open>ks\<close> is its clone of the key source.\<close>

definition worker_thread_body ::
  "profile \<Rightarrow> ed25519 \<Rightarrow> 'b seed_backend_ops \<Rightarrow> (string \<Rightarrow> 'ip option) \<Rightarrow> socket_calls \<Rightarrow> u64 option \<Rightarrow> u64 option \<Rightarrow> bytes \<Rightarrow>
     nat \<Rightarrow> 'b key_source \<Rightarrow> main_args \<Rightarrow> clock_source \<Rightarrow> metrics_channel \<Rightarrow> (backend_error, ('b, 'addr) worker) outcome" where
  "worker_thread_body p E ops parse_ip calls sys1 sys2 secret idx ks a clock ch =
     and_then (expect (bind_socket parse_ip calls a)) (\<lambda>_.
     worker_task p E ops sys1 sys2 secret idx ks (worker_args a) clock ch)"

definition process_key_source :: "main_args \<Rightarrow> ('b, 'addr) process \<Rightarrow> 'b key_source" where
  "process_key_source a d =
     \<lparr>ks_identity = pr_identity d, ks_validity_length = args_rotation_interval (worker_args a),
      ks_clock_source = choose_clock (worker_args a)\<rparr>"

text \<open>\<open>ip\<close> and \<open>calls\<close> are the address parser and what the socket calls of each worker answer. A worker stops
  at the head of its loop, as soon as the flag is cleared.\<close>

inductive process_step ::
  "profile \<Rightarrow> ed25519 \<Rightarrow> hash_fn \<Rightarrow> 'b seed_backend_ops \<Rightarrow> ('t, 'f) report_env \<Rightarrow> (string \<Rightarrow> 'ip option) \<Rightarrow> (nat \<Rightarrow> socket_calls) \<Rightarrow>
     main_args \<Rightarrow> ('b, 'addr) process \<Rightarrow> ('b, 'addr) process \<Rightarrow> bool"
  for p E H ops M parse_ip calls a where
  ctrl_c: "process_step p E H ops M parse_ip calls a d (d\<lparr>pr_keep_running := False\<rparr>)"
| worker_start: "i < length (pr_workers d) \<Longrightarrow> pr_workers d ! i = Spawned idx \<Longrightarrow> start_clock (worker_args a) sys1 sys2 t \<Longrightarrow>
    worker_thread_body p E ops parse_ip (calls idx) sys1 sys2 secret idx (process_key_source a d) a
      (choose_clock (worker_args a)) (pr_channel d) = Ok w \<Longrightarrow>
    process_step p E H ops M parse_ip calls a d (publish_back i (Polling t w) d)"
| worker_start_panic: "i < length (pr_workers d) \<Longrightarrow> pr_workers d ! i = Spawned idx \<Longrightarrow> start_clock (worker_args a) sys1 sys2 t \<Longrightarrow>
    worker_thread_body p E ops parse_ip (calls idx) sys1 sys2 secret idx (process_key_source a d) a
      (choose_clock (worker_args a)) (pr_channel d) = (Panic :: (backend_error, ('b, 'addr) worker) outcome) \<Longrightarrow>
    process_step p E H ops M parse_ip calls a d (publish_back i Crashed d)"
| worker_run: "i < length (pr_workers d) \<Longrightarrow> pr_workers d ! i = Running ws \<Longrightarrow>
    worker_step p E H ops (attach_state (pr_channel d) (pr_identity d) ws) ws' \<Longrightarrow>
    (is_polling ws \<longrightarrow> (ws' = Stopped \<longleftrightarrow> \<not> pr_keep_running d)) \<Longrightarrow>
    process_step p E H ops M parse_ip calls a d (publish_back i ws' d)"
| metrics_start: "pr_metrics d = Spawned c \<Longrightarrow> epoch_seconds sys1 (ma_clock c) = (Ok t1 :: (unit, u64) outcome) \<Longrightarrow>
    epoch_seconds sys2 (ma_clock c) = (Ok t2 :: (unit, u64) outcome) \<Longrightarrow> aggregator_start p sys1 sys2 c = Ok (n, l) \<Longrightarrow>
    process_step p E H ops M parse_ip calls a d (d\<lparr>pr_metrics := Running (Waiting n l c)\<rparr>)"
| metrics_start_panic: "pr_metrics d = Spawned c \<Longrightarrow> epoch_seconds sys1 (ma_clock c) = (Ok t1 :: (unit, u64) outcome) \<Longrightarrow>
    epoch_seconds sys2 (ma_clock c) = (Ok t2 :: (unit, u64) outcome) \<Longrightarrow> aggregator_start p sys1 sys2 c = Panic \<Longrightarrow>
    process_step p E H ops M parse_ip calls a d (d\<lparr>pr_metrics := Running AggregatorCrashed\<rparr>)"
| metrics_run: "pr_metrics d = Running s \<Longrightarrow> aggregator_step p M (pr_keep_running d) (s, pr_channel d, pr_files d) (s', ch', fs') \<Longrightarrow>
    process_step p E H ops M parse_ip calls a d (d\<lparr>pr_metrics := Running s', pr_channel := ch', pr_files := fs'\<rparr>)"

section \<open>The end of \<open>main\<close>\<close>

datatype thread_end = StillRunning | Finished | Panicked

fun worker_end :: "(nat, ('b, 'addr) worker_state) thread \<Rightarrow> thread_end" where
  "worker_end (Running Stopped) = Finished"
| "worker_end (Running Crashed) = Panicked"
| "worker_end _ = StillRunning"

fun metrics_end :: "(aggregator, aggregator_state) thread \<Rightarrow> thread_end" where
  "metrics_end (Running AggregatorStopped) = Finished"
| "metrics_end (Running AggregatorCrashed) = Panicked"
| "metrics_end _ = StillRunning"

text \<open>\<open>thread.join().unwrap()\<close> in the order the threads were pushed: \<open>None\<close> while a thread is awaited.\<close>

fun join_threads :: "thread_end list \<Rightarrow> (unit, unit) outcome option" where
  "join_threads [] = Some (Ok ())"
| "join_threads (StillRunning # ts) = None"
| "join_threads (Finished # ts) = join_threads ts"
| "join_threads (Panicked # ts) = Some Panic"

definition main_result :: "('b, 'addr) process \<Rightarrow> (unit, unit) outcome option" where
  "main_result d = join_threads (metrics_end (pr_metrics d) # map worker_end (pr_workers d))"

section \<open>What a worker does to the shared objects\<close>

definition worker_snapshot :: "('b, 'addr) worker \<Rightarrow> worker_metrics" where
  "worker_snapshot w =
     \<lparr>wm_worker_id = wk_worker_id w, wm_network = nh_metrics (wk_net_handler w), wm_request = qh_metrics (wk_req_handler w),
      wm_response = rh_metrics (qh_responder (wk_req_handler w))\<rparr>"

lemma worker_round_shared:
  assumes "worker_round p E H ri w = Ok (x, w')"
  shows "wk_worker_id w' = wk_worker_id w" "wk_metrics_channel w' = wk_metrics_channel w"
    "worker_identity w' = worker_identity w"
proof -
  obtain ds res net rs q outs q' where "collect_all p H ds (wk_req_handler w) = Ok q" "generate_responses p E H (ri_clock ri) q = Ok (outs, q')"
    "w' = w\<lparr>wk_net_handler := send_all (ri_sends ri) outs net, wk_req_handler := q'\<rparr>"
    using assms by (auto simp: worker_round_def and_then_Ok_iff split: prod.splits)
  with collect_all_static [of p H ds "wk_req_handler w" q] generate_responses_static [of p E H "ri_clock ri" q outs q']
  show "wk_worker_id w' = wk_worker_id w" "wk_metrics_channel w' = wk_metrics_channel w"
    "worker_identity w' = worker_identity w"
    by (simp_all add: worker_identity_def rh_static_def)
qed

lemma worker_replace_shared:
  assumes "worker_replace_online_key p E ops sys secret jitter w = Ok w'"
  shows "wk_worker_id w' = wk_worker_id w \<and> wk_metrics_channel w' = wk_metrics_channel w \<and>
    qh_metrics (wk_req_handler w') = qh_metrics (wk_req_handler w)"
  using assms by (auto simp: worker_replace_online_key_def request_handler_replace_key_def and_then_Ok_iff)

text \<open>A tick publishes or leaves the channel and the counters alone.\<close>

lemma worker_tick_shared:
  assumes "worker_tick p E ops ti w = Ok w'"
  shows "wk_worker_id w' = wk_worker_id w \<and>
    (wk_metrics_channel w' = wk_metrics_channel w \<and> qh_metrics (wk_req_handler w') = qh_metrics (wk_req_handler w) \<or>
     wk_metrics_channel w' = try_send (worker_snapshot w) (wk_metrics_channel w) \<and>
     qh_metrics (wk_req_handler w') = request_metrics_default)"
proof -
  obtain now w1 w2 where
    w1: "(if now \<ge> wk_next_metrics_publication w then worker_publish_metrics p (ti_publish ti) w else Ok w) = Ok w1" and
    w2: "(if now \<ge> wk_next_key_replacement w1
          then worker_replace_online_key p E ops (ti_key ti) (ti_secret ti) (ti_jitter ti) w1 else Ok w1) = Ok w2" and
    w': "w' = (if ti_poll_ok ti then w2 else w2\<lparr>wk_net_handler := record_failed_poll (wk_net_handler w2)\<rparr>)"
    using assms by (auto simp: worker_tick_def and_then_Ok_iff)
  have "wk_worker_id w1 = wk_worker_id w \<and>
    (wk_metrics_channel w1 = wk_metrics_channel w \<and> qh_metrics (wk_req_handler w1) = qh_metrics (wk_req_handler w) \<or>
     wk_metrics_channel w1 = try_send (worker_snapshot w) (wk_metrics_channel w) \<and>
     qh_metrics (wk_req_handler w1) = request_metrics_default)"
    using w1 by (auto simp: worker_publish_metrics_def worker_snapshot_def request_handler_reset_metrics_def and_then_Ok_iff Let_def
        split: if_splits)
  moreover have "wk_worker_id w2 = wk_worker_id w1 \<and> wk_metrics_channel w2 = wk_metrics_channel w1 \<and>
      qh_metrics (wk_req_handler w2) = qh_metrics (wk_req_handler w1)"
    using w2 worker_replace_shared [of p E ops "ti_key ti" "ti_secret ti" "ti_jitter ti" w1 w2] by (simp split: if_splits)
  ultimately show ?thesis using w' by simp
qed

lemma worker_step_shared:
  assumes "worker_step p E H ops s s'" "the_worker s = Some w" "the_worker s' = Some w'"
  shows "wk_worker_id w' = wk_worker_id w \<and>
    (wk_metrics_channel w' = wk_metrics_channel w \<or> wk_metrics_channel w' = try_send (worker_snapshot w) (wk_metrics_channel w))"
  using assms
proof (cases rule: worker_step.cases)
  case (round_more ri w0 t' t outs res w1)
  then show ?thesis using worker_round_shared [of p E H ri w0 "(outs, res)" w1] assms(2,3) by auto
next
  case (round_empty ri w0 t' t outs w1)
  then show ?thesis using worker_round_shared [of p E H ri w0 "(outs, Empty)" w1] assms(2,3) by auto
qed (use assms(2,3) worker_tick_shared in \<open>fastforce+\<close>)

section \<open>The invariant of the process\<close>

definition identity_ok :: "('b \<Rightarrow> bool) \<Rightarrow> ('b \<Rightarrow> public_key) \<Rightarrow> public_key \<Rightarrow> protocol_version \<Rightarrow> 'b identity \<Rightarrow> bool" where
  "identity_ok P pk lt_pk v i \<longleftrightarrow> P (id_seed i) \<and> pk (id_seed i) = lt_pk \<and> id_version i = v"

fun thread_inv ::
  "ed25519 \<Rightarrow> hash_fn \<Rightarrow> ('b \<Rightarrow> bool) \<Rightarrow> ('b \<Rightarrow> public_key) \<Rightarrow> public_key \<Rightarrow> protocol_version \<Rightarrow> nat \<Rightarrow>
     (nat, ('b, 'addr) worker_state) thread \<Rightarrow> bool" where
  "thread_inv E H P pk lt_pk v i (Spawned idx) \<longleftrightarrow> idx = i"
| "thread_inv E H P pk lt_pk v i (Running ws) \<longleftrightarrow>
     state_inv E H P pk lt_pk v ws \<and> (\<forall>w. the_worker ws = Some w \<longrightarrow> wk_worker_id w = i)"

fun metrics_inv :: "nat \<Rightarrow> (aggregator, aggregator_state) thread \<Rightarrow> bool" where
  "metrics_inv n (Spawned c) \<longleftrightarrow> accumulators_ok n (ma_aggregated c)"
| "metrics_inv n (Running (Waiting nx l c)) \<longleftrightarrow> accumulators_ok n (ma_aggregated c)"
| "metrics_inv n (Running (Draining nx l c)) \<longleftrightarrow> accumulators_ok n (ma_aggregated c)"
| "metrics_inv n (Running AggregatorStopped) \<longleftrightarrow> True"
| "metrics_inv n (Running AggregatorCrashed) \<longleftrightarrow> False"

definition channel_ok :: "nat \<Rightarrow> metrics_channel \<Rightarrow> bool" where
  "channel_ok n ch \<longleftrightarrow> ch_capacity ch = n * 2 \<and> length (ch_queue ch) \<le> ch_capacity ch \<and> (\<forall>m\<in>set (ch_queue ch). snapshot_ok n m)"

definition process_inv ::
  "ed25519 \<Rightarrow> hash_fn \<Rightarrow> ('b \<Rightarrow> bool) \<Rightarrow> ('b \<Rightarrow> public_key) \<Rightarrow> public_key \<Rightarrow> protocol_version \<Rightarrow> nat \<Rightarrow> ('b, 'addr) process \<Rightarrow> bool" where
  "process_inv E H P pk lt_pk v n d \<longleftrightarrow>
     identity_ok P pk lt_pk v (pr_identity d) \<and> channel_ok n (pr_channel d) \<and> length (pr_workers d) = n \<and>
     (\<forall>i<n. thread_inv E H P pk lt_pk v i (pr_workers d ! i)) \<and> metrics_inv n (pr_metrics d)"

lemma attach_simps [simp]:
  "wk_worker_id (attach ch i w) = wk_worker_id w" "wk_metrics_channel (attach ch i w) = ch" "worker_identity (attach ch i w) = i"
  "qh_metrics (wk_req_handler (attach ch i w)) = qh_metrics (wk_req_handler w)"
  by (simp_all add: attach_def worker_identity_def Let_def)

lemma the_worker_attach [simp]: "the_worker (attach_state ch i ws) = map_option (attach ch i) (the_worker ws)"
  by (cases ws) simp_all

lemma attach_inv:
  assumes "state_inv E H P pk lt_pk v ws" "identity_ok P pk lt_pk v i"
  shows "state_inv E H P pk lt_pk v (attach_state ch i ws)"
proof -
  have "worker_inv E H P pk lt_pk v t (attach ch i w)" if "worker_inv E H P pk lt_pk v t w" for t w
    using that assms(2) by (auto simp: worker_inv_def attach_def worker_delegation_def Let_def ks_inv_def identity_ok_def rh_inv_def)
  then show ?thesis using assms(1) by (cases ws) simp_all
qed

lemma worker_inv_shared:
  assumes "worker_inv E H P pk lt_pk v t w"
  shows "identity_ok P pk lt_pk v (worker_identity w)" "metrics_ok (rh_metrics (qh_responder (wk_req_handler w)))"
  using assms by (simp_all add: worker_inv_def Let_def rh_inv_def ks_inv_def identity_ok_def worker_identity_def)

lemma try_send_ok: "channel_ok n ch \<Longrightarrow> snapshot_ok n m \<Longrightarrow> channel_ok n (try_send m ch)"
  by (auto simp: channel_ok_def try_send_def)

lemma try_recv_ok: "channel_ok n ch \<Longrightarrow> try_recv ch = Some (m, ch') \<Longrightarrow> channel_ok n ch' \<and> snapshot_ok n m"
  by (auto simp: channel_ok_def try_recv_def split: list.splits)

text \<open>The process after worker \<open>i\<close> made a step to \<open>ws\<close>.\<close>

lemma publish_back_inv:
  assumes "process_inv E H P pk lt_pk v n d" "i < n" "thread_inv E H P pk lt_pk v i (Running ws)"
    and "\<And>w. the_worker ws = Some w \<Longrightarrow> channel_ok n (wk_metrics_channel w)"
  shows "process_inv E H P pk lt_pk v n (publish_back i ws d)"
proof (cases "the_worker ws")
  case None
  then show ?thesis using assms(1-3) by (auto simp: process_inv_def publish_back_def nth_list_update)
next
  case (Some w)
  then obtain t where "worker_inv E H P pk lt_pk v t w" using assms(3) by (cases ws) auto
  with Some show ?thesis using assms worker_inv_shared(1) by (auto simp: process_inv_def publish_back_def nth_list_update)
qed

lemma aggregator_step_inv:
  assumes "aggregator_step Release M run (s, ch, fs) (s', ch', fs')" "report_env_ok M"
    and "metrics_inv n (Running s)" "channel_ok n ch"
  shows "metrics_inv n (Running s') \<and> channel_ok n ch'"
  using assms(1)
proof (cases rule: aggregator_step.cases)
  case (receive m a a' nx l)
  have a: "accumulators_ok n (ma_aggregated a)" using assms(3) receive by simp
  note r = try_recv_ok [OF assms(4) receive(4)]
  have "ma_aggregated a' = (ma_aggregated a)[wm_worker_id m := add_snapshot (ma_aggregated a ! wm_worker_id m) m]"
    using receive(5) aggregate_one_Release [OF a, of m, where 'e = unit] r
    by (auto simp: aggregator_receive_def and_then_Ok_iff)
  then show ?thesis using accumulators_ok_update [OF a, of m] r receive by simp
next
  case (receive_panic m a nx l)
  have a: "accumulators_ok n (ma_aggregated a)" using assms(3) receive_panic by simp
  then show ?thesis
    using aggregate_one_Release [OF a, of m, where 'e = unit] try_recv_ok [OF assms(4) receive_panic(4)] receive_panic(5)
    by (simp add: aggregator_receive_def)
next
  case (finish_panic sys a now io systime nx l states)
  then have a: "accumulators_ok n (ma_aggregated a)" using assms(3) by simp
  have "epoch_seconds sys (ma_clock a) = (Ok now :: (unit, u64) outcome)"
    "aggregator_finish_pass Release M io sys systime nx l a fs = (Panic, states)" by fact+
  with aggregator_finish_Release [OF a assms(2), of sys now io systime nx l fs] show ?thesis by auto
qed (use assms(3,4) in simp_all)

context seed_backend
begin

lemma process_worker_step_inv:
  assumes E: "ed25519_ok E" "sha512_ok H" and d: "process_inv E H inv pk lt_pk v n d" and i: "i < n"
    and ws: "pr_workers d ! i = Running ws" "worker_step Release E H ops (attach_state (pr_channel d) (pr_identity d) ws) ws'"
  shows "process_inv E H inv pk lt_pk v n (publish_back i ws' d)"
proof -
  let ?s = "attach_state (pr_channel d) (pr_identity d) ws"
  have t: "state_inv E H inv pk lt_pk v ws" "\<And>w. the_worker ws = Some w \<Longrightarrow> wk_worker_id w = i"
    and sh: "identity_ok inv pk lt_pk v (pr_identity d)" "channel_ok n (pr_channel d)"
    using d i ws(1) by (auto simp: process_inv_def)
  have s: "state_inv E H inv pk lt_pk v ?s" by (rule attach_inv [OF t(1) sh(1)])
  have s': "state_inv E H inv pk lt_pk v ws'" by (rule worker_step_inv [OF E ws(2) s])
  have w: "wk_worker_id w' = i \<and> channel_ok n (wk_metrics_channel w')" if w': "the_worker ws' = Some w'" for w'
  proof -
    obtain w where w: "the_worker ws = Some w"
      using ws(2) w' by (cases ws) auto
    let ?w = "attach (pr_channel d) (pr_identity d) w"
    have "\<exists>t. worker_inv E H inv pk lt_pk v t ?w" using s w by (cases ws) auto
    then have "snapshot_ok n (worker_snapshot ?w)"
      using worker_inv_shared(2) t(2) [OF w] i by (auto simp: snapshot_ok_def worker_snapshot_def)
    with worker_step_shared [OF ws(2) _ w', of ?w] w t(2) [OF w] sh(2) show ?thesis by (auto simp: try_send_ok)
  qed
  show ?thesis using w s' by (intro publish_back_inv [OF d i]) simp_all
qed

lemma process_worker_start_ok:
  fixes d :: "('b, 'addr) process"
  assumes E: "ed25519_ok E" and a: "args_ok (worker_args a)" and d: "process_inv E H inv pk lt_pk (args_version (sa_protocol a)) n d"
    and c: "start_clock (worker_args a) sys1 sys2 t" and b: "bind_socket parse_ip calls a = Ok addr"
  shows "\<exists>w :: ('b, 'addr) worker. worker_thread_body Release E ops parse_ip calls sys1 sys2 secret idx (process_key_source a d) a
      (choose_clock (worker_args a)) (pr_channel d) = Ok w \<and>
    worker_inv E H inv pk lt_pk (args_version (sa_protocol a)) t w \<and> wk_worker_id w = idx \<and> wk_metrics_channel w = pr_channel d"
proof -
  have p: "sa_protocol (worker_args a) = sa_protocol a" by (simp add: server_args.truncate_def)
  have "dur_secs (args_rotation_interval (worker_args a)) \<noteq> 0"
    using a rotation_interval_bounds(2) by (simp add: args_ok_def)
  then have "ks_inv inv pk lt_pk (args_version (sa_protocol (worker_args a))) (process_key_source a d)"
    using d p by (simp add: process_inv_def identity_ok_def ks_inv_def process_key_source_def)
  from worker_task_ok [OF E a c this, of secret idx "pr_channel d" H] p b show ?thesis
    by (auto simp: worker_thread_body_def process_key_source_def)
qed

lemma process_step_inv:
  assumes E: "ed25519_ok E" "sha512_ok H" and M: "report_env_ok M" and a: "args_ok (worker_args a)"
    and b: "\<And>i. \<exists>addr. bind_socket parse_ip (calls i) a = Ok addr"
    and s: "process_step Release E H ops M parse_ip calls a d d'"
    and d: "process_inv E H inv pk lt_pk (args_version (sa_protocol a)) n d"
  shows "process_inv E H inv pk lt_pk (args_version (sa_protocol a)) n d'"
  using s
proof (cases rule: process_step.cases)
  case ctrl_c
  then show ?thesis using d by (simp add: process_inv_def)
next
  case (worker_start i idx sys1 sys2 t secret w)
  then have i: "i < n" "idx = i" "channel_ok n (pr_channel d)" using d by (auto simp: process_inv_def)
  obtain addr where "bind_socket parse_ip (calls idx) a = Ok addr" using b by blast
  from process_worker_start_ok [OF E(1) a d worker_start(4) this, of secret idx] worker_start(5)
  have "worker_inv E H inv pk lt_pk (args_version (sa_protocol a)) t w" "wk_worker_id w = idx" "wk_metrics_channel w = pr_channel d"
    by auto
  then show ?thesis unfolding worker_start(1) using i by (intro publish_back_inv [OF d i(1)]) auto
next
  case (worker_start_panic i idx sys1 sys2 t secret)
  obtain addr where "bind_socket parse_ip (calls idx) a = Ok addr" using b by blast
  from process_worker_start_ok [OF E(1) a d worker_start_panic(4) this, of secret idx] worker_start_panic(5)
  show ?thesis by auto
next
  case (worker_run i ws ws')
  then show ?thesis using process_worker_step_inv [OF E d, of i ws ws'] d by (simp add: process_inv_def)
next
  case (metrics_start c sys1 t1 sys2 t2 nx l)
  then show ?thesis using d by (simp add: process_inv_def)
next
  case (metrics_start_panic c sys1 t1 sys2 t2)
  then show ?thesis by (simp add: aggregator_start_def add_word_Release)
next
  case (metrics_run s s' ch' fs')
  then show ?thesis using aggregator_step_inv [OF metrics_run(3) M, of n] d by (simp add: process_inv_def)
qed

lemma process_run_inv:
  assumes "ed25519_ok E" "sha512_ok H" "report_env_ok M" "args_ok (worker_args a)"
    and "\<And>i. \<exists>addr. bind_socket parse_ip (calls i) a = Ok addr"
    and "(process_step Release E H ops M parse_ip calls a)\<^sup>*\<^sup>* d d'"
    and "process_inv E H inv pk lt_pk (args_version (sa_protocol a)) n d"
  shows "process_inv E H inv pk lt_pk (args_version (sa_protocol a)) n d'"
  using assms(6,7) by (induction rule: rtranclp_induct) (auto intro: process_step_inv [OF assms(1-5)])

end

section \<open>Start-up\<close>

lemma truncate_simps [simp]:
  "sa_batch_size (worker_args a) = sa_batch_size a" "sa_rotation_interval (worker_args a) = sa_rotation_interval a"
  "sa_protocol (worker_args a) = sa_protocol a" "sa_fixed_offset (worker_args a) = sa_fixed_offset a"
  "sa_num_threads (worker_args a) = sa_num_threads a" "sa_metrics_interval (worker_args a) = sa_metrics_interval a"
  by (simp_all add: server_args.truncate_def)

text \<open>The seed the server is told to use.\<close>

definition configured_seed :: "profile \<Rightarrow> seed_env \<Rightarrow> main_args \<Rightarrow> bytes \<Rightarrow> bool" where
  "configured_seed p env a seed \<longleftrightarrow>
     length seed = 32 \<and> (if sa_seed a = [] then seed = replicate 32 0 else try_load_seed p env (sa_seed a) = Ok seed)"

lemma load_seed_any:
  assumes "ed25519_ok E" "keyring_ok R kv" "ssh_agent_ok E A holds"
    and "load_seed p env (all_backends E R A sock) (sa_seed a) backend = Ok b"
  obtains seed where "configured_seed p env a seed" "any_ok E R kv A holds b" "any_pk E b = ed_public E seed"
proof -
  obtain seed b0 where l: "(if sa_seed a = [] then seed_new (replicate 32 0) else expect (try_load_seed p env (sa_seed a))) = (Ok seed :: (unit, _) outcome)"
    "any_store_seed E R A seed b0 = Ok b"
    using assms(4) by (auto simp: load_seed_def and_then_Ok_iff all_backends_def)
  have c: "configured_seed p env a seed"
    using l(1) try_load_seed_length [of p env "sa_seed a" seed]
    by (auto simp: configured_seed_def seed_new_def split: if_splits)
  then have "any_ok E R kv A holds b \<and> any_pk E b = ed_public E seed"
    using any_store_seed_ok [OF assms(1-3) _ l(2)] by (simp add: configured_seed_def)
  with c that show thesis by blast
qed

lemma start_metrics_thread_ok:
  "start_metrics_thread ce ro a clock fs = Ok (c, ch, fs') \<Longrightarrow>
     accumulators_ok (unat (sa_num_threads a)) (ma_aggregated c) \<and> channel_ok (unat (sa_num_threads a)) ch \<and> ch_queue ch = [] \<and> ma_clock c = clock"
  by (auto simp: start_metrics_thread_def Let_def and_then_Ok_iff aggregator_new_def aggregator_init_ok channel_ok_def)

lemma start_metrics_thread_no_panic: "start_metrics_thread ce ro a clock fs \<noteq> Panic"
  by (auto simp: start_metrics_thread_def Let_def and_then_Panic_iff split: option.splits sum.splits prod.splits)

context seed_backend
begin

lemma server_start_inv:
  assumes "load_seed p env B (sa_seed a) (sa_seed_backend a) = Ok b" "inv b" "pk b = lt_pk" "args_ok (worker_args a)"
  shows "case server_start p env B ops ce ro a fs of
      Ok d \<Rightarrow> process_inv E H inv pk lt_pk (args_version (sa_protocol a)) (unat (sa_num_threads a)) (d :: ('b, 'addr) process) \<and>
        pr_keep_running d \<and> ch_queue (pr_channel d) = [] \<and> (\<forall>i<unat (sa_num_threads a). pr_workers d ! i = Spawned i) \<and>
        (\<exists>c. pr_metrics d = Spawned c \<and> ma_clock c = choose_clock (worker_args a))
    | Err e \<Rightarrow> e = ExitCode 1 \<and> sa_metrics_output a \<noteq> None
    | Panic \<Rightarrow> False"
proof -
  let ?clock = "choose_clock (worker_args a)" and ?v = "args_version (sa_protocol a)"
  let ?ks = "\<lparr>ks_identity = \<lparr>id_seed = b, id_version = ?v\<rparr>, ks_validity_length = args_rotation_interval (worker_args a), ks_clock_source = ?clock\<rparr>"
  have "key_source_new ops ?v b ?clock (args_rotation_interval (worker_args a)) = (Ok ?ks :: (startup_error, _) outcome)"
    using backend_len [OF assms(2)] rotation_interval_bounds(2) [of "worker_args a"] assms(4)
    by (simp add: key_source_new_def identity_new_def args_ok_def)
  moreover have "ks_public_key ops ?ks = Ok lt_pk"
    using backend_pk [OF assms(2)] assms(3) by (simp add: ks_public_key_def identity_public_key_def)
  ultimately have e: "(server_start p env B ops ce ro a fs :: (_, ('b, 'addr) process) outcome) =
      and_then (start_metrics_thread ce ro a ?clock fs) (\<lambda>(collector, channel, fs').
      Ok \<lparr>pr_keep_running = True, pr_identity = \<lparr>id_seed = b, id_version = ?v\<rparr>, pr_channel = channel, pr_files = fs',
          pr_metrics = Spawned collector, pr_workers = map Spawned [0..<unat (sa_num_threads a)]\<rparr>)"
    using assms(1) by (simp add: server_start_def Let_def)
  show ?thesis
  proof (cases "start_metrics_thread ce ro a ?clock fs")
    case (Ok x)
    obtain c ch fs' where x: "x = (c, ch, fs')" by (cases x) auto
    note m = start_metrics_thread_ok [OF Ok [unfolded x]]
    show ?thesis using e Ok x m assms(2,3) by (simp add: process_inv_def identity_ok_def)
  next
    case (Err err)
    then show ?thesis using e
      by (auto simp: start_metrics_thread_def Let_def and_then_Err_iff split: option.splits sum.splits prod.splits)
  next
    case Panic
    then show ?thesis using start_metrics_thread_no_panic by blast
  qed
qed

end

section \<open>Properties\<close>

definition no_thread_panicked :: "('b, 'addr) process \<Rightarrow> bool" where
  "no_thread_panicked d \<longleftrightarrow>
     metrics_end (pr_metrics d) \<noteq> Panicked \<and> (\<forall>th\<in>set (pr_workers d). worker_end th \<noteq> Panicked) \<and> main_result d \<noteq> Some Panic"

text \<open>Every running worker has its own number and an online key that is certified by the long-term key and
  replaced in time.\<close>

definition workers_certified :: "ed25519 \<Rightarrow> public_key \<Rightarrow> protocol_version \<Rightarrow> ('b, 'addr) process \<Rightarrow> bool" where
  "workers_certified E lt_pk v d \<longleftrightarrow>
     (\<forall>i<length (pr_workers d). \<forall>ws w. pr_workers d ! i = Running ws \<and> the_worker ws = Some w \<longrightarrow>
        wk_worker_id w = i \<and> key_ok E lt_pk v (rh_online_key (qh_responder (wk_req_handler w))) \<and>
        wk_next_key_replacement w \<le> dele_max_time (worker_delegation w))"

lemma thread_inv_end: "thread_inv E H P pk lt_pk v i th \<Longrightarrow> worker_end th \<noteq> Panicked"
  by (cases th rule: worker_end.cases) auto

lemma metrics_inv_end: "metrics_inv n th \<Longrightarrow> metrics_end th \<noteq> Panicked"
  by (cases th rule: metrics_end.cases) auto

lemma join_no_panic: "Panicked \<notin> set ts \<Longrightarrow> join_threads ts \<noteq> Some Panic"
  by (induction ts rule: join_threads.induct) auto

lemma process_inv_safe:
  assumes "process_inv E H P pk lt_pk v n d"
  shows "no_thread_panicked d" "workers_certified E lt_pk v d"
proof -
  have t: "thread_inv E H P pk lt_pk v i (pr_workers d ! i)" if "i < length (pr_workers d)" for i
    using assms that by (simp add: process_inv_def)
  then have w: "worker_end th \<noteq> Panicked" if "th \<in> set (pr_workers d)" for th
    using that thread_inv_end by (metis in_set_conv_nth)
  have m: "metrics_end (pr_metrics d) \<noteq> Panicked" using assms metrics_inv_end by (auto simp: process_inv_def)
  have "Panicked \<notin> set (metrics_end (pr_metrics d) # map worker_end (pr_workers d))" using w m by (auto dest: sym)
  with w m show "no_thread_panicked d" by (simp add: no_thread_panicked_def main_result_def join_no_panic)
  show "workers_certified E lt_pk v d"
    unfolding workers_certified_def
  proof (intro allI impI, elim conjE)
    fix i ws w assume i: "i < length (pr_workers d)" "pr_workers d ! i = Running ws" "the_worker ws = Some w"
    have "thread_inv E H P pk lt_pk v i (Running ws)" using t [OF i(1)] i(2) by simp
    then show "wk_worker_id w = i \<and> key_ok E lt_pk v (rh_online_key (qh_responder (wk_req_handler w))) \<and>
        wk_next_key_replacement w \<le> dele_max_time (worker_delegation w)"
      using i(3) by (cases ws) (auto simp: worker_inv_def rh_inv_def Let_def)
  qed
qed

text \<open>What a server needs to run: sound cryptography and seed backends that keep their promises, arguments in range,
  sockets that bind and date formatting that never fails.\<close>

definition deployment_ok ::
  "ed25519 \<Rightarrow> hash_fn \<Rightarrow> ('k, 'h) keyring \<Rightarrow> ('k \<Rightarrow> bytes option) \<Rightarrow> 'c ssh_agent \<Rightarrow> (bytes \<Rightarrow> 'c \<Rightarrow> bool) \<Rightarrow>
     ('t, 'f) report_env \<Rightarrow> (string \<Rightarrow> 'ip option) \<Rightarrow> (nat \<Rightarrow> socket_calls) \<Rightarrow> main_args \<Rightarrow> bool" where
  "deployment_ok E H R kv A holds M parse_ip calls a \<longleftrightarrow>
     ed25519_ok E \<and> sha512_ok H \<and> keyring_ok R kv \<and> ssh_agent_ok E A holds \<and> report_env_ok M \<and>
     args_ok (worker_args a) \<and> (\<forall>i. \<exists>addr. bind_socket parse_ip (calls i) a = Ok addr)"

lemma server_start_any:
  fixes R :: "('k, 'h) keyring" and A :: "'c ssh_agent"
  assumes "deployment_ok E H R kv A holds M parse_ip calls a"
    and "load_seed Release env (all_backends E R A sock) (sa_seed a) (sa_seed_backend a) = Ok b"
  obtains seed where "configured_seed Release env a seed"
    "case server_start Release env (all_backends E R A sock) (any_ops E R A) create_err remove_ok a fs of
       Ok d0 \<Rightarrow> process_inv E H (any_ok E R kv A holds) (any_pk E) (ed_public E seed) (args_version (sa_protocol a))
         (unat (sa_num_threads a)) (d0 :: (('k, 'c) any_backend, 'addr) process)
     | Err e \<Rightarrow> e = ExitCode 1 \<and> sa_metrics_output a \<noteq> None
     | Panic \<Rightarrow> False"
proof -
  have D: "ed25519_ok E" "keyring_ok R kv" "ssh_agent_ok E A holds" "args_ok (worker_args a)"
    using assms(1) by (simp_all add: deployment_ok_def)
  obtain seed where seed: "configured_seed Release env a seed" "any_ok E R kv A holds b" "any_pk E b = ed_public E seed"
    by (rule load_seed_any [OF D(1-3) assms(2)])
  show thesis
    using boxed_seed.server_start_inv [OF assms(2) seed(2,3) D(4), where ce = create_err and ro = remove_ok and fs = fs
        and H = H and 'addr = 'addr] seed(1)
    by (intro that [of seed]) (auto split: outcome.splits)
qed

lemma reachable_inv:
  fixes R :: "('k, 'h) keyring" and A :: "'c ssh_agent" and d0 :: "(('k, 'c) any_backend, 'addr) process"
  assumes "deployment_ok E H R kv A holds M parse_ip calls a"
    and "server_start Release env (all_backends E R A sock) (any_ops E R A) create_err remove_ok a fs = Ok d0"
    and "(process_step Release E H (any_ops E R A) M parse_ip calls a)\<^sup>*\<^sup>* d0 d"
  obtains seed where "configured_seed Release env a seed"
    "process_inv E H (any_ok E R kv A holds) (any_pk E) (ed_public E seed) (args_version (sa_protocol a)) (unat (sa_num_threads a)) d"
proof -
  have D: "ed25519_ok E" "sha512_ok H" "report_env_ok M" "args_ok (worker_args a)"
    "\<And>i. \<exists>addr. bind_socket parse_ip (calls i) a = Ok addr"
    using assms(1) by (simp_all add: deployment_ok_def)
  obtain b where b: "load_seed Release env (all_backends E R A sock) (sa_seed a) (sa_seed_backend a) = Ok b"
    using assms(2) by (auto simp: server_start_def and_then_Ok_iff Let_def)
  obtain seed where seed: "configured_seed Release env a seed"
    "process_inv E H (any_ok E R kv A holds) (any_pk E) (ed_public E seed) (args_version (sa_protocol a)) (unat (sa_num_threads a)) d0"
    using server_start_any [OF assms(1) b, where 'addr = 'addr and create_err = create_err and remove_ok = remove_ok and fs = fs]
      assms(2) by auto
  from boxed_seed.process_run_inv [OF D assms(3) seed(2)] seed(1) that show thesis by blast
qed

text \<open>C2. The whole server never crashes: with a seed loaded into any of the backends, a batch size and a rotation
  interval in range and sockets that bind, the start of a release build ends with exit code 1 over a metrics
  directory that cannot be used, or spawns the threads, and then in every interleaving of the workers, the metrics thread and Ctrl-C no
  thread panics and \<open>main\<close> never fails to join one. In every reachable state the identity the workers share
  has the public key of the configured seed, and the online key of every running worker is certified by it
  and is replaced before its delegation ends.\<close>

theorem server_never_crashes:
  fixes R :: "('k, 'h) keyring" and A :: "'c ssh_agent"
  assumes "deployment_ok E H R kv A holds M parse_ip calls a"
    and "load_seed Release env (all_backends E R A sock) (sa_seed a) (sa_seed_backend a) = Ok b"
  shows "case server_start Release env (all_backends E R A sock) (any_ops E R A) create_err remove_ok a fs of
       Panic \<Rightarrow> False
     | Err e \<Rightarrow> e = ExitCode 1 \<and> sa_metrics_output a \<noteq> None
     | Ok d0 \<Rightarrow> \<forall>d. (process_step Release E H (any_ops E R A) M parse_ip calls a)\<^sup>*\<^sup>* d0 (d :: (('k, 'c) any_backend, 'addr) process) \<longrightarrow>
         no_thread_panicked d \<and> length (pr_workers d) = unat (sa_num_threads a) \<and>
         (\<exists>seed. configured_seed Release env a seed \<and> any_pk E (id_seed (pr_identity d)) = ed_public E seed \<and>
            workers_certified E (ed_public E seed) (args_version (sa_protocol a)) d)"
proof (cases "server_start Release env (all_backends E R A sock) (any_ops E R A) create_err remove_ok a fs
    :: (startup_error, (('k, 'c) any_backend, 'addr) process) outcome")
  case (Ok d0)
  have "no_thread_panicked d \<and> length (pr_workers d) = unat (sa_num_threads a) \<and>
      (\<exists>seed. configured_seed Release env a seed \<and> any_pk E (id_seed (pr_identity d)) = ed_public E seed \<and>
         workers_certified E (ed_public E seed) (args_version (sa_protocol a)) d)"
    if "(process_step Release E H (any_ops E R A) M parse_ip calls a)\<^sup>*\<^sup>* d0 d" for d
  proof (rule reachable_inv [OF assms(1) Ok that])
    fix seed
    assume "configured_seed Release env a seed"
      "process_inv E H (any_ok E R kv A holds) (any_pk E) (ed_public E seed) (args_version (sa_protocol a)) (unat (sa_num_threads a)) d"
    with process_inv_safe [OF this(2)] show ?thesis by (auto simp: process_inv_def identity_ok_def)
  qed
  with Ok show ?thesis by simp
next
  case (Err e)
  with server_start_any [OF assms, where 'addr = 'addr and create_err = create_err and remove_ok = remove_ok and fs = fs]
  show ?thesis by auto
next
  case Panic
  with server_start_any [OF assms, where 'addr = 'addr and create_err = create_err and remove_ok = remove_ok and fs = fs]
  show ?thesis by auto
qed

definition sample_main_args :: main_args where
  "sample_main_args =
     \<lparr>sa_batch_size = 64, sa_num_threads = 2, sa_protocol = V14, sa_fixed_offset = 0, sa_rotation_interval = 24,
      sa_metrics_interval = 60, sa_interface = ''0.0.0.0'', sa_port = 2003, sa_seed = [], sa_seed_backend = Memory,
      sa_metrics_output = None\<rparr>"

definition sample_ip :: "string \<Rightarrow> u32 option" where
  "sample_ip s = (if s = ''0.0.0.0'' then Some 0 else None)"

definition sample_calls :: "nat \<Rightarrow> socket_calls" where
  "sample_calls i = \<lparr>sk_new = None, sk_nonblocking = None, sk_reuse_address = None, sk_reuse_port = None, sk_bind = None\<rparr>"

abbreviation sample_backends :: "(bytes option, bytes list) any_backend backends" where
  "sample_backends \<equiv> all_backends toy_ed sample_keyring sample_agent None"

abbreviation sample_ops :: "(bytes option, bytes list) any_backend seed_backend_ops" where
  "sample_ops \<equiv> any_ops toy_ed sample_keyring sample_agent"

lemma sample_deployment_ok:
  "deployment_ok toy_ed toy_hash sample_keyring (\<lambda>k. k) sample_agent (\<lambda>pk c. \<exists>s\<in>set c. ed_public toy_ed s = pk)
     sample_report_env sample_ip sample_calls sample_main_args"
  using toy_ed_ok toy_hash_ok sample_keyring_ok sample_agent_ok sample_report_env_ok
  by (simp add: deployment_ok_def args_ok_def bind_socket_def udp_socket_addr_def sample_ip_def sample_calls_def sample_main_args_def)

lemma sample_load_seed: "\<exists>b. load_seed Release sample_env sample_backends (sa_seed sample_main_args) (sa_seed_backend sample_main_args) = Ok b"
proof -
  have "map ascii_lower ''memory'' = ''memory''" by (simp add: ascii_lower_def)
  then show ?thesis
    using ed25519_lengths(1) [OF toy_ed_ok]
    by (simp add: sample_main_args_def load_seed_def seed_new_def try_choose_backend_def all_backends_def any_store_seed_def
        mb_store_seed_def mb_new_def pubk_from_slice_def copy_array_def)
qed

lemma sample_server_start:
  "\<exists>d0. server_start Release sample_env sample_backends sample_ops None True sample_main_args fs
     = Ok (d0 :: ((bytes option, bytes list) any_backend, nat) process)"
proof -
  obtain b where b: "load_seed Release sample_env sample_backends (sa_seed sample_main_args) (sa_seed_backend sample_main_args) = Ok b"
    using sample_load_seed by blast
  let ?S = "server_start Release sample_env sample_backends sample_ops None True sample_main_args fs
    :: (_, ((bytes option, bytes list) any_backend, nat) process) outcome"
  show ?thesis
    by (rule server_start_any [OF sample_deployment_ok b, where 'addr = nat and create_err = None and remove_ok = True and fs = fs])
      (cases ?S, auto simp: sample_main_args_def)
qed

theorem server_never_crashes_witness:
  "\<exists>d0. server_start Release sample_env sample_backends sample_ops None True sample_main_args Map.empty
      = Ok (d0 :: ((bytes option, bytes list) any_backend, nat) process) \<and>
    (\<forall>d. (process_step Release toy_ed toy_hash sample_ops sample_report_env sample_ip sample_calls sample_main_args)\<^sup>*\<^sup>* d0 d \<longrightarrow>
       no_thread_panicked d \<and> length (pr_workers d) = 2)"
proof -
  obtain b where b: "load_seed Release sample_env sample_backends (sa_seed sample_main_args) (sa_seed_backend sample_main_args) = Ok b"
    using sample_load_seed by blast
  obtain d0 where d0: "server_start Release sample_env sample_backends sample_ops None True sample_main_args Map.empty
      = Ok (d0 :: ((bytes option, bytes list) any_backend, nat) process)"
    using sample_server_start by blast
  have "unat (sa_num_threads sample_main_args) = 2" by (simp add: sample_main_args_def)
  then show ?thesis
    using server_never_crashes [OF sample_deployment_ok b, where 'addr = nat and create_err = None and remove_ok = True and fs = Map.empty] d0
    by auto
qed

section \<open>Counting requests\<close>

text \<open>Requests counted by the workers, on their way in the channel, and in the accumulators.\<close>

fun thread_requests :: "(nat, ('b, 'addr) worker_state) thread \<Rightarrow> nat" where
  "thread_requests (Spawned idx) = 0"
| "thread_requests (Running ws) = (case the_worker ws of None \<Rightarrow> 0 | Some w \<Rightarrow> total_requests (qh_metrics (wk_req_handler w)))"

definition snapshot_requests :: "worker_metrics list \<Rightarrow> nat" where
  "snapshot_requests ms = (\<Sum>m\<leftarrow>ms. total_requests (wm_request m))"

fun metrics_requests :: "(aggregator, aggregator_state) thread \<Rightarrow> nat" where
  "metrics_requests (Spawned c) = snapshot_requests (ma_aggregated c)"
| "metrics_requests (Running (Waiting n l c)) = snapshot_requests (ma_aggregated c)"
| "metrics_requests (Running (Draining n l c)) = snapshot_requests (ma_aggregated c)"
| "metrics_requests (Running _) = 0"

definition requests_counted :: "('b, 'addr) process \<Rightarrow> nat" where
  "requests_counted d =
     (\<Sum>th\<leftarrow>pr_workers d. thread_requests th) + snapshot_requests (ch_queue (pr_channel d)) + metrics_requests (pr_metrics d)"

lemma total_requests_simps [simp]:
  "total_requests request_metrics_default = 0"
  "total_requests (request_metrics_add m q) = total_requests m + total_requests q"
  by (simp_all add: total_requests_def request_metrics_default_def request_metrics_add_def)

lemma snapshot_requests_simps [simp]:
  "snapshot_requests [] = 0" "snapshot_requests (m # ms) = total_requests (wm_request m) + snapshot_requests ms"
  "snapshot_requests (xs @ ys) = snapshot_requests xs + snapshot_requests ys"
  by (simp_all add: snapshot_requests_def)

lemma sum_list_update:
  "i < length xs \<Longrightarrow> sum_list (map f (xs[i := x])) + f (xs ! i) = sum_list (map f xs) + (f x :: nat)"
proof (induction xs arbitrary: i)
  case (Cons y ys)
  then show ?case by (cases i) (auto simp: algebra_simps)
qed simp

lemma try_send_requests:
  "length (ch_queue ch) < ch_capacity ch \<Longrightarrow>
     snapshot_requests (ch_queue (try_send m ch)) = snapshot_requests (ch_queue ch) + total_requests (wm_request m)"
  by (simp add: try_send_def)

lemma publish_back_requests:
  assumes "i < length (pr_workers d)"
  shows "requests_counted (publish_back i ws d) + thread_requests (pr_workers d ! i) + snapshot_requests (ch_queue (pr_channel d))
    = requests_counted d + thread_requests (Running ws) +
      snapshot_requests (ch_queue (case the_worker ws of None \<Rightarrow> pr_channel d | Some w \<Rightarrow> wk_metrics_channel w))"
  using sum_list_update [OF assms, of thread_requests "Running ws"]
  by (simp add: requests_counted_def publish_back_def split: option.splits)

lemma aggregator_receive_requests:
  assumes "accumulators_ok n (ma_aggregated c)" "snapshot_ok n m" "aggregator_receive Release m c = Ok c'"
  shows "snapshot_requests (ma_aggregated c') = snapshot_requests (ma_aggregated c) + total_requests (wm_request m)"
proof -
  have i: "wm_worker_id m < length (ma_aggregated c)" using assms(1,2) by (simp add: accumulators_ok_def snapshot_ok_def)
  have "ma_aggregated c' = (ma_aggregated c)[wm_worker_id m := add_snapshot (ma_aggregated c ! wm_worker_id m) m]"
    using assms(3) aggregate_one_Release [OF assms(1,2), where 'e = unit] by (auto simp: aggregator_receive_def and_then_Ok_iff)
  then show ?thesis
    using sum_list_update [OF i, of "\<lambda>m. total_requests (wm_request m)" "add_snapshot (ma_aggregated c ! wm_worker_id m) m"]
    by (simp add: snapshot_requests_def add_snapshot_def)
qed

lemma aggregator_step_requests:
  assumes "aggregator_step Release M True (s, ch, fs) (s', ch', fs')" "report_env_ok M"
    and "metrics_inv n (Running s)" "channel_ok n ch"
  shows "metrics_requests (Running s') + snapshot_requests (ch_queue ch') = metrics_requests (Running s) + snapshot_requests (ch_queue ch)"
  using assms(1)
proof (cases rule: aggregator_step.cases)
  case (receive m c c' nx l)
  have "ch_queue ch = m # ch_queue ch'" using receive(4) by (auto simp: try_recv_def split: list.splits)
  with receive aggregator_receive_requests [of n c m c'] assms(3) try_recv_ok [OF assms(4) receive(4)] show ?thesis by simp
next
  case receive_panic
  then show ?thesis using aggregator_step_inv [OF assms] by simp
next
  case finish_panic
  then show ?thesis using aggregator_step_inv [OF assms] by simp
qed simp_all

text \<open>How many datagrams the results of the receive calls hold for one round: those before the first call that would block or
  fails, at most a batch.\<close>

fun is_datagram :: "'addr recv_result \<Rightarrow> bool" where
  "is_datagram (Datagram bs src) = True"
| "is_datagram _ = False"

definition datagrams_received :: "nat \<Rightarrow> 'addr recv_result list \<Rightarrow> nat" where
  "datagrams_received batch_size rs = length (takeWhile is_datagram (take batch_size rs))"

text \<open>The step in which worker \<open>i\<close> goes through the inner loop once, with the inputs \<open>ri\<close>, and the datagrams it receives.\<close>

definition process_round ::
  "profile \<Rightarrow> ed25519 \<Rightarrow> hash_fn \<Rightarrow> nat \<Rightarrow> 'addr round_input \<Rightarrow> ('b, 'addr) process \<Rightarrow> ('b, 'addr) process \<Rightarrow> bool" where
  "process_round p E H i ri d d' \<longleftrightarrow>
     (\<exists>t w t' outs res w' ws'. i < length (pr_workers d) \<and> pr_workers d ! i = Running (Serving t w) \<and>
        epoch_seconds (ri_clock ri) (wk_clock (attach (pr_channel d) (pr_identity d) w)) = (Ok t' :: (backend_error, u64) outcome) \<and> t \<le> t' \<and>
        worker_round p E H ri (attach (pr_channel d) (pr_identity d) w) = Ok ((outs, res), w') \<and>
        (ws' = Serving t' w' \<or> res = Empty \<and> ws' = Polling t' w') \<and> d' = publish_back i ws' d)"

definition round_datagrams :: "nat \<Rightarrow> 'addr round_input \<Rightarrow> ('b, 'addr) process \<Rightarrow> nat" where
  "round_datagrams i ri d =
     (case pr_workers d ! i of
        Running (Serving t w) \<Rightarrow> datagrams_received (nh_batch_size (wk_net_handler w)) (ri_recv ri)
      | _ \<Rightarrow> 0)"

lemma attach_net [simp]: "wk_net_handler (attach ch i w) = wk_net_handler w"
  by (simp add: attach_def Let_def)

lemma collect_loop_datagrams: "collect_loop n rs m = (ds, res, m', rest) \<Longrightarrow> length ds = datagrams_received n rs"
  by (induction n rs m arbitrary: ds res m' rest rule: collect_loop.induct)
    (auto simp: datagrams_received_def split: prod.splits)

lemma round_requests:
  assumes "ed25519_ok E" "sha512_ok H" "worker_inv E H P pk lt_pk v t w"
    and "epoch_seconds (ri_clock ri) (wk_clock w) = (Ok now :: (backend_error, u64) outcome)"
    and "worker_round Release E H ri w = Ok ((outs, res), w')"
  shows "total_requests (qh_metrics (wk_req_handler w')) =
    total_requests (qh_metrics (wk_req_handler w)) + datagrams_received (nh_batch_size (wk_net_handler w)) (ri_recv ri)"
proof -
  obtain ds res' net rest where c: "collect_requests (wk_net_handler w) (ri_recv ri) = (ds, res', net, rest)"
    by (cases "collect_requests (wk_net_handler w) (ri_recv ri)") auto
  have "length ds = datagrams_received (nh_batch_size (wk_net_handler w)) (ri_recv ri)"
    using c by (auto simp: collect_requests_def split: prod.splits intro: collect_loop_datagrams)
  moreover have "total_requests (qh_metrics (wk_req_handler w')) = total_requests (qh_metrics (wk_req_handler w)) + length ds"
    by (rule worker_round_run [OF assms(1-4) c]) (use assms(5) in auto)
  ultimately show ?thesis by simp
qed

context seed_backend
begin

lemma tick_requests:
  assumes "worker_tick Release E ops ti w = Ok w'" "length (ch_queue (wk_metrics_channel w)) < ch_capacity (wk_metrics_channel w)"
  shows "total_requests (qh_metrics (wk_req_handler w')) + snapshot_requests (ch_queue (wk_metrics_channel w'))
    = total_requests (qh_metrics (wk_req_handler w)) + snapshot_requests (ch_queue (wk_metrics_channel w))"
  using worker_tick_shared [OF assms(1)] try_send_requests [OF assms(2)] by (auto simp: worker_snapshot_def)

lemmas tick_made = worker_tick_ok

end

lemma attach_state_cases:
  "attach_state ch i ws = Polling t w' \<Longrightarrow> \<exists>w. ws = Polling t w \<and> w' = attach ch i w"
  "attach_state ch i ws = Serving t w' \<Longrightarrow> \<exists>w. ws = Serving t w \<and> w' = attach ch i w"
  by (cases ws; simp)+

lemma worker_start_requests:
  assumes "worker_thread_body p E ops parse_ip calls sys1 sys2 secret idx ks a clock ch = Ok w"
  shows "total_requests (qh_metrics (wk_req_handler w)) = 0" "wk_metrics_channel w = ch"
  using assms by (auto simp: worker_thread_body_def worker_task_def worker_new_def request_handler_new_def and_then_Ok_iff)

context seed_backend
begin

lemma process_round_requests:
  assumes E: "ed25519_ok E" "sha512_ok H" and d: "process_inv E H inv pk lt_pk v n d"
    and r: "process_round Release E H i ri d d'"
  shows "process_step Release E H ops M parse_ip calls a d d'" "requests_counted d' = requests_counted d + round_datagrams i ri d"
proof -
  from r obtain t w t' outs res w' ws' where w: "i < length (pr_workers d)" "pr_workers d ! i = Running (Serving t w)"
    "epoch_seconds (ri_clock ri) (wk_clock (attach (pr_channel d) (pr_identity d) w)) = (Ok t' :: (backend_error, u64) outcome)" "t \<le> t'"
    "worker_round Release E H ri (attach (pr_channel d) (pr_identity d) w) = Ok ((outs, res), w')"
    "ws' = Serving t' w' \<or> res = Empty \<and> ws' = Polling t' w'" "d' = publish_back i ws' d"
    unfolding process_round_def by blast
  let ?w = "attach (pr_channel d) (pr_identity d) w"
  have "worker_step Release E H ops (attach_state (pr_channel d) (pr_identity d) (Serving t w)) ws'"
    using w(3-6) worker_step.round_more [OF w(3-5)] worker_step.round_empty [OF w(3,4)] by auto
  then show "process_step Release E H ops M parse_ip calls a d d'"
    unfolding w(7) by (intro process_step.worker_run [OF w(1,2)]) simp_all
  have "state_inv E H inv pk lt_pk v (attach_state (pr_channel d) (pr_identity d) (Serving t w))"
    using d w(1,2) by (intro attach_inv) (auto simp: process_inv_def)
  then have iv: "worker_inv E H inv pk lt_pk v t ?w" by simp
  from w(6) have ws: "the_worker ws' = Some w'" by auto
  have "thread_requests (pr_workers d ! i) = total_requests (qh_metrics (wk_req_handler ?w))" using w(2) by simp
  then show "requests_counted d' = requests_counted d + round_datagrams i ri d"
    using publish_back_requests [OF w(1), of ws'] round_requests [OF E iv w(3,5)] worker_round_shared(2) [OF w(5)] ws w(2,7)
    by (simp add: round_datagrams_def)
qed

lemma other_step_requests:
  assumes E: "ed25519_ok E" "sha512_ok H" and M: "report_env_ok M" and d: "process_inv E H inv pk lt_pk v n d"
    and s: "process_step Release E H ops M parse_ip calls a d d'" and run: "pr_keep_running d'"
    and room: "length (ch_queue (pr_channel d)) < ch_capacity (pr_channel d)"
    and other: "\<nexists>i ri. process_round Release E H i ri d d'"
  shows "requests_counted d' = requests_counted d"
  using s
proof (cases rule: process_step.cases)
  case (worker_start i idx sys1 sys2 t secret w)
  then show ?thesis using publish_back_requests [of i d "Polling t w"] worker_start_requests [OF worker_start(5)] by simp
next
  case (worker_start_panic i idx sys1 sys2 t secret)
  then show ?thesis using publish_back_requests [of i d Crashed] by simp
next
  case (worker_run i ws ws')
  let ?s = "attach_state (pr_channel d) (pr_identity d) ws"
  have i: "i < n" "pr_keep_running d" using worker_run(1,2) d run by (auto simp: process_inv_def publish_back_def split: option.splits)
  have st: "state_inv E H inv pk lt_pk v ?s"
    using d i(1) worker_run(3) by (auto simp: process_inv_def intro!: attach_inv)
  have st': "state_inv E H inv pk lt_pk v ws'" by (rule worker_step_inv [OF E worker_run(4) st])
  have tick: "requests_counted d' = requests_counted d"
    if t: "?s = Polling t w0" "worker_tick Release E ops ti w0 = Ok w'" "the_worker ws' = Some w'" for t w0 ti w'
  proof -
    obtain w where w: "ws = Polling t w" "w0 = attach (pr_channel d) (pr_identity d) w" using attach_state_cases(1) [OF t(1)] by blast
    show ?thesis
      using publish_back_requests [OF worker_run(2), of ws'] tick_requests [OF t(2)] room worker_run(1,3) t(3) w by simp
  qed
  have round: "process_round Release E H i ri d d'"
    if r: "?s = Serving t w0" "epoch_seconds (ri_clock ri) (wk_clock w0) = (Ok t' :: (backend_error, u64) outcome)" "t \<le> t'"
      "worker_round Release E H ri w0 = Ok ((outs, res), w')" "ws' = Serving t' w' \<or> res = Empty \<and> ws' = Polling t' w'"
    for t w0 ri t' outs res w'
    using attach_state_cases(2) [OF r(1)] r(2-) worker_run(1-3) unfolding process_round_def by blast
  from worker_run(4) show ?thesis
  proof (cases rule: worker_step.cases)
    case (stop t w)
    then show ?thesis using attach_state_cases(1) [OF stop(1)] worker_run(5) i(2) by auto
  qed (use tick round other st' in \<open>fastforce\<close>)+
next
  case (metrics_start c sys1 t1 sys2 t2 nx l)
  then show ?thesis by (simp add: requests_counted_def)
next
  case (metrics_start_panic c sys1 t1 sys2 t2)
  then show ?thesis by (simp add: aggregator_start_def add_word_Release)
next
  case (metrics_run st st' ch' fs')
  have "pr_keep_running d" using run metrics_run(1) by simp
  then have "aggregator_step Release M True (st, pr_channel d, pr_files d) (st', ch', fs')" using metrics_run(3) by simp
  from aggregator_step_requests [OF this M, of n] d metrics_run(1,2) show ?thesis
    by (simp add: process_inv_def requests_counted_def)
qed (use run in simp)

end

text \<open>C9. Every request is counted once. Take the requests counted by the workers, waiting in the metrics channel and accumulated
  by the metrics thread, in any state that the threads of a running server reach. A round of any worker, whatever its socket
  returns, adds exactly the number of datagrams that this round received: those up to the first call that would block or fails, at most
  a batch. Every other step of a thread while the server runs, that is publishing, receiving, reporting, key rotation
  and starting, leaves the sum as it is, as long as the metrics channel is not full.\<close>

theorem requests_conserved:
  fixes R :: "('k, 'h) keyring" and A :: "'c ssh_agent" and d0 :: "(('k, 'c) any_backend, 'addr) process"
  assumes "deployment_ok E H R kv A holds M parse_ip calls a"
    and "server_start Release env (all_backends E R A sock) (any_ops E R A) create_err remove_ok a fs = Ok d0"
    and "(process_step Release E H (any_ops E R A) M parse_ip calls a)\<^sup>*\<^sup>* d0 d"
  shows "(\<forall>i ri d'. process_round Release E H i ri d d' \<longrightarrow>
        process_step Release E H (any_ops E R A) M parse_ip calls a d d' \<and>
        requests_counted d' = requests_counted d + round_datagrams i ri d) \<and>
    (\<forall>d'. process_step Release E H (any_ops E R A) M parse_ip calls a d d' \<and> pr_keep_running d' \<and>
        length (ch_queue (pr_channel d)) < 2 * unat (sa_num_threads a) \<and> (\<nexists>i ri. process_round Release E H i ri d d') \<longrightarrow>
        requests_counted d' = requests_counted d)"
proof (rule reachable_inv [OF assms(1-3)])
  fix seed
  assume i: "process_inv E H (any_ok E R kv A holds) (any_pk E) (ed_public E seed) (args_version (sa_protocol a)) (unat (sa_num_threads a)) d"
  have E: "ed25519_ok E" "sha512_ok H" and M: "report_env_ok M" using assms(1) by (simp_all add: deployment_ok_def)
  have "ch_capacity (pr_channel d) = 2 * unat (sa_num_threads a)" using i by (simp add: process_inv_def channel_ok_def)
  then show ?thesis
    using boxed_seed.process_round_requests [OF E i] boxed_seed.other_step_requests [OF E M i] by auto
qed

lemma sample_process:
  obtains d0 :: "((bytes option, bytes list) any_backend, nat) process" and c where
    "server_start Release sample_env sample_backends sample_ops None True sample_main_args Map.empty = Ok d0"
    "pr_workers d0 = [Spawned 0, Spawned 1]" "ch_queue (pr_channel d0) = []" "pr_metrics d0 = Spawned c" "ma_clock c = System"
    "pr_keep_running d0"
proof -
  obtain d0 where d0: "server_start Release sample_env sample_backends sample_ops None True sample_main_args Map.empty
      = Ok (d0 :: ((bytes option, bytes list) any_backend, nat) process)"
    using sample_server_start by blast
  have "[0..<unat (sa_num_threads sample_main_args)] = [0, 1]" by (simp add: sample_main_args_def upt_rec)
  with d0 have "pr_workers d0 = [Spawned 0, Spawned 1]" "ch_queue (pr_channel d0) = []" "pr_keep_running d0"
    "\<exists>c. pr_metrics d0 = Spawned c \<and> ma_clock c = System"
    by (auto simp: server_start_def start_metrics_thread_def and_then_Ok_iff Let_def aggregator_new_def choose_clock_def
        sample_main_args_def)
  with d0 that show thesis by blast
qed

lemma publish_static:
  "worker_publish_metrics p sys w = Ok w' \<Longrightarrow>
     wk_clock w' = wk_clock w \<and> nh_batch_size (wk_net_handler w') = nh_batch_size (wk_net_handler w)"
  by (auto simp: worker_publish_metrics_def and_then_Ok_iff Let_def network_reset_metrics_def)

lemma replace_static:
  "worker_replace_online_key p E ops sys secret jitter w = Ok w' \<Longrightarrow>
     wk_clock w' = wk_clock w \<and> wk_net_handler w' = wk_net_handler w"
  by (auto simp: worker_replace_online_key_def and_then_Ok_iff)

lemma worker_tick_static:
  assumes "worker_tick p E ops ti w = Ok w'"
  shows "wk_clock w' = wk_clock w \<and> nh_batch_size (wk_net_handler w') = nh_batch_size (wk_net_handler w)"
proof -
  obtain now w1 w2 where "(if now \<ge> wk_next_metrics_publication w then worker_publish_metrics p (ti_publish ti) w else Ok w) = Ok w1"
    "(if now \<ge> wk_next_key_replacement w1
      then worker_replace_online_key p E ops (ti_key ti) (ti_secret ti) (ti_jitter ti) w1 else Ok w1) = Ok w2"
    "w' = (if ti_poll_ok ti then w2 else w2\<lparr>wk_net_handler := record_failed_poll (wk_net_handler w2)\<rparr>)"
    using assms unfolding worker_tick_def and_then_Ok_iff by blast
  then show ?thesis
    by (auto dest!: publish_static replace_static simp: record_failed_poll_def split: if_split_asm)
qed

lemma attach_clock [simp]: "wk_clock (attach ch i w) = wk_clock w"
  by (simp add: attach_def Let_def)

abbreviation sample_step ::
  "((bytes option, bytes list) any_backend, nat) process \<Rightarrow> ((bytes option, bytes list) any_backend, nat) process \<Rightarrow> bool" where
  "sample_step \<equiv> process_step Release toy_ed toy_hash sample_ops sample_report_env sample_ip sample_calls sample_main_args"

abbreviation sample_any_ok :: "(bytes option, bytes list) any_backend \<Rightarrow> bool" where
  "sample_any_ok \<equiv> any_ok toy_ed sample_keyring (\<lambda>k. k) sample_agent (\<lambda>pk c. \<exists>s\<in>set c. ed_public toy_ed s = pk)"

text \<open>The first worker starts and finds its socket readable.\<close>

lemma sample_polling:
  assumes "server_start Release sample_env sample_backends sample_ops None True sample_main_args Map.empty = Ok d0"
    "pr_workers d0 = [Spawned 0, Spawned 1]"
  shows "\<exists>w. sample_step d0 (publish_back 0 (Polling 1001 w) d0) \<and> wk_clock w = System \<and> nh_batch_size (wk_net_handler w) = 64"
proof (rule reachable_inv [OF sample_deployment_ok assms(1) rtranclp.rtrancl_refl])
  fix seed
  assume i: "process_inv toy_ed toy_hash sample_any_ok (any_pk toy_ed) (ed_public toy_ed seed)
    (args_version (sa_protocol sample_main_args)) (unat (sa_num_threads sample_main_args)) d0"
  have a: "args_ok (worker_args sample_main_args)" "\<exists>addr. bind_socket sample_ip (sample_calls 0) sample_main_args = Ok addr"
    using sample_deployment_ok by (simp_all add: deployment_ok_def)
  have clock: "choose_clock (worker_args sample_main_args) = System"
    by (simp add: choose_clock_def sample_main_args_def server_args.defs)
  have c: "start_clock (worker_args sample_main_args) (Some 1001) (Some 1001) 1001"
    by (simp add: start_clock_def clock system_seconds_def saturating_add_ge)
  obtain w :: "((bytes option, bytes list) any_backend, nat) worker" where
    w: "worker_thread_body Release toy_ed sample_ops sample_ip (sample_calls 0) (Some 1001) (Some 1001) [] 0
      (process_key_source sample_main_args d0) sample_main_args (choose_clock (worker_args sample_main_args)) (pr_channel d0) = Ok w"
    using boxed_seed.process_worker_start_ok [OF toy_ed_ok a(1) i c] a(2) by blast
  have "wk_clock w = System" "nh_batch_size (wk_net_handler w) = 64"
    using w by (auto simp: worker_thread_body_def worker_task_def worker_new_def and_then_Ok_iff choose_clock_def network_handler_new_def
        sample_main_args_def server_args.defs)
  moreover have "sample_step d0 (publish_back 0 (Polling 1001 w) d0)"
    by (rule process_step.worker_start [where calls = sample_calls, OF _ _ c w]) (simp_all add: assms(2))
  ultimately show ?thesis by blast
qed

lemma process_serving:
  obtains d0 d t w where "server_start Release sample_env sample_backends sample_ops None True sample_main_args Map.empty = Ok d0"
    "sample_step\<^sup>*\<^sup>* d0 d" "0 < length (pr_workers d)" "pr_workers d ! 0 = Running (Serving t w)" "t \<le> 1002"
    "wk_clock w = System" "nh_batch_size (wk_net_handler w) = 64"
proof (rule sample_process)
  fix d0 :: "((bytes option, bytes list) any_backend, nat) process" and c
  assume d0: "server_start Release sample_env sample_backends sample_ops None True sample_main_args Map.empty = Ok d0"
    "pr_workers d0 = [Spawned 0, Spawned 1]" and run: "pr_keep_running d0"
  obtain w where w: "sample_step d0 (publish_back 0 (Polling 1001 w) d0)" "wk_clock w = System" "nh_batch_size (wk_net_handler w) = 64"
    using sample_polling [OF d0] by blast
  define d1 where "d1 = publish_back 0 (Polling 1001 w) d0"
  have r1: "sample_step\<^sup>*\<^sup>* d0 d1" using w(1) by (simp add: d1_def)
  have p1: "pr_workers d1 = [Running (Polling 1001 w), Spawned 1]" "pr_keep_running d1"
    using d0(2) run by (simp_all add: d1_def publish_back_def)
  let ?w = "attach (pr_channel d1) (pr_identity d1) w"
  let ?ti = "\<lparr>ti_now = Some 1002, ti_publish = Some 1002, ti_key = Some 1002, ti_secret = [], ti_jitter = 0, ti_poll_ok = True\<rparr>"
  have tc: "tick_clock ?w 1001 ?ti 1002" using w(2) by (simp add: tick_clock_def system_seconds_def)
  obtain w2 where w2: "worker_tick Release toy_ed sample_ops ?ti ?w = Ok w2"
  proof (rule reachable_inv [OF sample_deployment_ok d0(1) r1])
    fix seed
    assume "process_inv toy_ed toy_hash sample_any_ok (any_pk toy_ed) (ed_public toy_ed seed)
      (args_version (sa_protocol sample_main_args)) (unat (sa_num_threads sample_main_args)) d1"
    moreover have "0 < unat (sa_num_threads sample_main_args)" by (simp add: sample_main_args_def)
    ultimately have "thread_inv toy_ed toy_hash sample_any_ok (any_pk toy_ed) (ed_public toy_ed seed) (args_version (sa_protocol sample_main_args)) 0 (pr_workers d1 ! 0)"
      "identity_ok sample_any_ok (any_pk toy_ed) (ed_public toy_ed seed) (args_version (sa_protocol sample_main_args)) (pr_identity d1)"
      unfolding process_inv_def by blast+
    then have "worker_inv toy_ed toy_hash sample_any_ok (any_pk toy_ed) (ed_public toy_ed seed) (args_version (sa_protocol sample_main_args)) 1001 ?w"
      using attach_inv [of toy_ed toy_hash sample_any_ok "any_pk toy_ed" "ed_public toy_ed seed" "args_version (sa_protocol sample_main_args)"
          "Polling 1001 w" "pr_identity d1" "pr_channel d1"] p1(1) by simp
    from boxed_seed.tick_made [OF toy_ed_ok this tc] that show thesis by blast
  qed
  have "sample_step d1 (publish_back 0 (Serving 1002 w2) d1)"
    by (rule process_step.worker_run [of 0 d1 "Polling 1001 w"]) (use p1 worker_step.tick_ready [OF tc w2] in auto)
  then have "sample_step\<^sup>*\<^sup>* d0 (publish_back 0 (Serving 1002 w2) d1)" using r1 by (rule rtranclp.rtrancl_into_rtrancl [rotated])
  then show thesis
    by (rule that [OF d0(1), of _ 1002 w2]) (use p1 worker_tick_static [OF w2] w(2,3) in \<open>simp_all add: publish_back_def\<close>)
qed

text \<open>A round whose receive calls return two datagrams before one fails counts these two.\<close>

theorem requests_conserved_witness:
  "\<exists>d0 d ri d'. server_start Release sample_env sample_backends sample_ops None True sample_main_args Map.empty = Ok d0 \<and>
    sample_step\<^sup>*\<^sup>* d0 d \<and> ri_recv ri = [Datagram [1] 7, Datagram [2] 8, RecvFailed, Datagram [3] 9] \<and>
    process_round Release toy_ed toy_hash 0 ri d d' \<and> requests_counted d' = requests_counted d + 2"
proof (rule process_serving)
  fix d0 d :: "((bytes option, bytes list) any_backend, nat) process" and t w
  assume d: "server_start Release sample_env sample_backends sample_ops None True sample_main_args Map.empty = Ok d0"
    "sample_step\<^sup>*\<^sup>* d0 d" "0 < length (pr_workers d)" "pr_workers d ! 0 = Running (Serving t w)" "t \<le> 1002"
    "wk_clock w = System" "nh_batch_size (wk_net_handler w) = 64"
  define ri where "ri = \<lparr>ri_recv = [Datagram [1] (7 :: nat), Datagram [2] 8, RecvFailed, Datagram [3] 9], ri_clock = Some 1002, ri_sends = []\<rparr>"
  let ?w = "attach (pr_channel d) (pr_identity d) w"
  have now: "epoch_seconds (ri_clock ri) (wk_clock ?w) = (Ok 1002 :: (backend_error, u64) outcome)"
    using d(6) by (simp add: ri_def system_seconds_def)
  have "\<exists>outs res w'. worker_round Release toy_ed toy_hash ri ?w = Ok ((outs, res), w')"
  proof (rule reachable_inv [OF sample_deployment_ok d(1,2)])
    fix seed
    assume "process_inv toy_ed toy_hash sample_any_ok (any_pk toy_ed) (ed_public toy_ed seed)
      (args_version (sa_protocol sample_main_args)) (unat (sa_num_threads sample_main_args)) d"
    then have "state_inv toy_ed toy_hash sample_any_ok (any_pk toy_ed) (ed_public toy_ed seed) (args_version (sa_protocol sample_main_args))
        (attach_state (pr_channel d) (pr_identity d) (Serving t w))"
      using d(3,4) by (intro attach_inv) (auto simp: process_inv_def)
    then have iv: "worker_inv toy_ed toy_hash sample_any_ok (any_pk toy_ed) (ed_public toy_ed seed) (args_version (sa_protocol sample_main_args)) t ?w"
      by simp
    obtain ds res net rest where c: "collect_requests (wk_net_handler ?w) (ri_recv ri) = (ds, res, net, rest)"
      by (cases "collect_requests (wk_net_handler ?w) (ri_recv ri)") auto
    show ?thesis by (rule worker_round_run [OF toy_ed_ok toy_hash_ok iv now c]) blast
  qed
  then obtain outs res w' where "worker_round Release toy_ed toy_hash ri ?w = Ok ((outs, res), w')" by blast
  with d(3-5) now have r: "process_round Release toy_ed toy_hash 0 ri d (publish_back 0 (Serving 1002 w') d)"
    unfolding process_round_def by blast
  have "round_datagrams 0 ri d = 2" using d(4,7) by (simp add: round_datagrams_def datagrams_received_def ri_def)
  with requests_conserved [OF sample_deployment_ok d(1,2)] r
  have "requests_counted (publish_back 0 (Serving 1002 w') d) = requests_counted d + 2" by auto
  with d(1,2) r show ?thesis by (intro exI [of _ d0] exI [of _ d] exI [of _ ri] exI) (auto simp: ri_def)
qed

end
