(* ===== verification/Shutdown.thy ===== *)
theory Shutdown
  imports Server_Main
begin

text \<open>
  Shutting the server down. Ctrl-C clears the flag \<open>KEEP_RUNNING\<close>; workers and the metrics thread look at it at the head
  of their loops. Shown: from every reachable state of the process there is a run in which all threads end and
  \<open>main\<close> joins them, so no state is a dead end; the run is the one where the sockets have nothing more to read.
\<close>

section \<open>What a worker needs to end\<close>

text \<open>The time of a worker's state is a reading of its clock, so that a clock that stands still can show it again, and
  the worker asks its socket for at least one datagram per round.\<close>

definition can_end :: "u64 \<Rightarrow> ('b, 'addr) worker \<Rightarrow> bool" where
  "can_end t w \<longleftrightarrow> 0 < nh_batch_size (wk_net_handler w) \<and>
     (\<exists>sys. epoch_seconds sys (wk_clock w) = (Ok t :: (backend_error, u64) outcome))"

fun end_inv :: "('b, 'addr) worker_state \<Rightarrow> bool" where
  "end_inv (Polling t w) \<longleftrightarrow> can_end t w"
| "end_inv (Serving t w) \<longleftrightarrow> can_end t w"
| "end_inv Stopped \<longleftrightarrow> True"
| "end_inv Crashed \<longleftrightarrow> True"

definition ends_inv :: "('b, 'addr) process \<Rightarrow> bool" where
  "ends_inv d \<longleftrightarrow> (\<forall>ws. Running ws \<in> set (pr_workers d) \<longrightarrow> end_inv ws)"

lemma epoch_seconds_Some: "\<exists>t. epoch_seconds (Some n) c = (Ok t :: ('e, u64) outcome)"
  by (cases c) (auto simp: system_seconds_def)

lemma start_clock_exists: "\<exists>t. start_clock args (Some 0) (Some 0) t"
  using epoch_seconds_Some [of 0 "choose_clock args", where 'e = backend_error] saturating_add_ge
  by (auto simp: start_clock_def)

lemma attach_end [simp]: "end_inv (attach_state ch i ws) = end_inv ws"
  by (cases ws) (simp_all add: attach_def can_end_def Let_def)

text \<open>The parts of a worker no step changes.\<close>

abbreviation fixed_parts :: "('b, 'addr) worker \<Rightarrow> clock_source \<times> nat" where
  "fixed_parts w \<equiv> (wk_clock w, nh_batch_size (wk_net_handler w))"

lemma worker_publish_fixed: "worker_publish_metrics p sys w = Ok w' \<Longrightarrow> fixed_parts w' = fixed_parts w"
  by (auto simp: worker_publish_metrics_def and_then_Ok_iff Let_def network_reset_metrics_def)

lemma worker_replace_fixed: "worker_replace_online_key p E ops sys secret jitter w = Ok w' \<Longrightarrow> fixed_parts w' = fixed_parts w"
  by (auto simp: worker_replace_online_key_def and_then_Ok_iff)

lemma worker_tick_fixed:
  assumes "worker_tick p E ops ti w = Ok w'"
  shows "fixed_parts w' = fixed_parts w"
proof -
  obtain now w1 w2 where
    w1: "(if now \<ge> wk_next_metrics_publication w then worker_publish_metrics p (ti_publish ti) w else Ok w) = Ok w1" and
    w2: "(if now \<ge> wk_next_key_replacement w1
          then worker_replace_online_key p E ops (ti_key ti) (ti_secret ti) (ti_jitter ti) w1 else Ok w1) = Ok w2" and
    w': "w' = (if ti_poll_ok ti then w2 else w2\<lparr>wk_net_handler := record_failed_poll (wk_net_handler w2)\<rparr>)"
    using assms by (auto simp: worker_tick_def and_then_Ok_iff)
  have "fixed_parts w1 = fixed_parts w" using w1 worker_publish_fixed [of p "ti_publish ti" w w1] by (simp split: if_splits)
  moreover have "fixed_parts w2 = fixed_parts w1"
    using w2 worker_replace_fixed [of p E ops "ti_key ti" "ti_secret ti" "ti_jitter ti" w1 w2] by (simp split: if_splits)
  ultimately show ?thesis using w' by (simp add: record_failed_poll_def)
qed

lemma worker_round_fixed: "worker_round p E H ri w = Ok (x, w') \<Longrightarrow> fixed_parts w' = fixed_parts w"
  by (auto simp: worker_round_def and_then_Ok_iff send_all_batch split: prod.splits dest: collect_requests_bounds)

lemma worker_step_end:
  assumes "worker_step p E H ops s s'" "end_inv s"
  shows "end_inv s'"
  using assms(1)
proof (cases rule: worker_step.cases)
  case (tick_idle w t ti t' w')
  then show ?thesis using assms(2) worker_tick_fixed [of p E ops ti w w'] by (auto simp: can_end_def tick_clock_def)
next
  case (tick_ready w t ti t' w')
  then show ?thesis using assms(2) worker_tick_fixed [of p E ops ti w w'] by (auto simp: can_end_def tick_clock_def)
next
  case (round_more ri w t' t outs res w')
  then show ?thesis using assms(2) worker_round_fixed [of p E H ri w _ w'] by (auto simp: can_end_def)
next
  case (round_empty ri w t' t outs w')
  then show ?thesis using assms(2) worker_round_fixed [of p E H ri w _ w'] by (auto simp: can_end_def)
qed simp_all

lemma publish_back_ends:
  assumes "ends_inv d" "end_inv ws"
  shows "ends_inv (publish_back i ws d)"
proof -
  have "pr_workers (publish_back i ws d) = (pr_workers d)[i := Running ws]" by (simp add: publish_back_def split: option.splits)
  then show ?thesis using assms set_update_subset_insert [of "pr_workers d" i "Running ws"] by (auto simp: ends_inv_def)
qed

lemma worker_start_end:
  assumes "worker_thread_body p E ops parse_ip calls sys1 sys2 secret idx ks a (choose_clock (worker_args a)) ch = Ok w"
    and "start_clock (worker_args a) sys1 sys2 t" "sa_batch_size a \<noteq> 0"
  shows "end_inv (Polling t w)"
  using assms
  by (auto simp: worker_thread_body_def worker_task_def worker_new_def and_then_Ok_iff start_clock_def can_end_def
      network_handler_new_def unat_gt_0)

lemma process_step_ends:
  assumes "process_step p E H ops M parse_ip calls a d d'" "ends_inv d" "sa_batch_size a \<noteq> 0"
  shows "ends_inv d'"
  using assms(1)
proof (cases rule: process_step.cases)
  case (worker_start i idx sys1 sys2 t secret w)
  from publish_back_ends [OF assms(2) worker_start_end [OF worker_start(5,4) assms(3)]] worker_start(1) show ?thesis by simp
next
  case (worker_start_panic i idx sys1 sys2 t secret)
  then show ?thesis using publish_back_ends [OF assms(2), of Crashed i] by simp
next
  case (worker_run i ws ws')
  have "end_inv ws" using assms(2) worker_run(2,3) by (metis ends_inv_def nth_mem)
  then show ?thesis using publish_back_ends [OF assms(2) worker_step_end [OF worker_run(4)]] worker_run(1) by simp
qed (use assms(2) in \<open>auto simp: ends_inv_def\<close>)

lemma process_run_ends:
  "(process_step p E H ops M parse_ip calls a)\<^sup>*\<^sup>* d d' \<Longrightarrow> sa_batch_size a \<noteq> 0 \<Longrightarrow> ends_inv d \<Longrightarrow> ends_inv d'"
  by (induction rule: rtranclp_induct) (auto intro: process_step_ends)

section \<open>Ending the threads\<close>

lemma collect_nothing: "0 < nh_batch_size net \<Longrightarrow> \<exists>net'. collect_requests net [] = ([], Empty, net', [])"
  by (cases "nh_batch_size net") (auto simp: collect_requests_def)

lemma publish_back_simps [simp]:
  "pr_workers (publish_back i ws d) = (pr_workers d)[i := Running ws]" "pr_metrics (publish_back i ws d) = pr_metrics d"
  "pr_keep_running (publish_back i ws d) = pr_keep_running d"
  by (simp_all add: publish_back_def split: option.splits)

lemma polling_worker_stops:
  assumes "i < length (pr_workers d)" "pr_workers d ! i = Running (Polling t w)" "\<not> pr_keep_running d"
  shows "process_step p E H ops M parse_ip calls a d (publish_back i Stopped d)"
  using assms by (intro process_step.worker_run [OF assms(1,2)]) (auto intro: worker_step.stop)

text \<open>Worker \<open>i\<close> of \<open>d\<close> has ended in \<open>d'\<close>, and nothing happened to the other threads.\<close>

definition ended_worker :: "nat \<Rightarrow> ('b, 'addr) process \<Rightarrow> ('b, 'addr) process \<Rightarrow> bool" where
  "ended_worker i d d' \<longleftrightarrow>
     worker_end (pr_workers d' ! i) = Finished \<and> length (pr_workers d') = length (pr_workers d) \<and>
     (\<forall>j. j \<noteq> i \<longrightarrow> pr_workers d' ! j = pr_workers d ! j) \<and> pr_metrics d' = pr_metrics d \<and>
     pr_keep_running d' = pr_keep_running d"

lemma polling_worker_ends:
  assumes "i < length (pr_workers d)" "pr_workers d ! i = Running (Polling t w)" "\<not> pr_keep_running d"
  shows "\<exists>d'. (process_step p E H ops M parse_ip calls a)\<^sup>*\<^sup>* d d' \<and> ended_worker i d d'"
  using r_into_rtranclp [of "process_step p E H ops M parse_ip calls a", OF polling_worker_stops [OF assms]] assms(1)
  by (intro exI [of _ "publish_back i Stopped d"]) (simp add: ended_worker_def)

context seed_backend
begin

lemma serving_worker_round:
  fixes w :: "('b, 'addr) worker"
  assumes E: "ed25519_ok E" "sha512_ok H" and w: "worker_inv E H inv pk lt_pk v t w" and e: "can_end t w"
  shows "\<exists>w'. worker_step Release E H ops (Serving t w) (Polling t w')"
proof -
  obtain sys net' where s: "epoch_seconds sys (wk_clock w) = (Ok t :: (backend_error, u64) outcome)"
    "collect_requests (wk_net_handler w) ([] :: 'addr recv_result list) = ([], Empty, net', [])"
    using e collect_nothing unfolding can_end_def by blast
  let ?ri = "\<lparr>ri_recv = [], ri_clock = sys, ri_sends = []\<rparr> :: 'addr round_input"
  have now: "epoch_seconds (ri_clock ?ri) (wk_clock w) = (Ok t :: (backend_error, u64) outcome)" using s(1) by simp
  have c: "collect_requests (wk_net_handler w) (ri_recv ?ri) = ([], Empty, net', [])" using s(2) by simp
  obtain outs w' where r: "worker_round Release E H ?ri w = Ok ((outs, Empty), w')"
    by (rule worker_round_run [OF E w now c])
  from worker_step.round_empty [OF now order_refl r] show ?thesis by blast
qed

lemma worker_ends:
  fixes d :: "('b, 'addr) process"
  assumes E: "ed25519_ok E" "sha512_ok H" "args_ok (worker_args a)" "sa_batch_size a \<noteq> 0"
    and b: "\<And>i. \<exists>addr. bind_socket parse_ip (calls i) a = Ok addr"
    and d: "process_inv E H inv pk lt_pk (args_version (sa_protocol a)) n d" "ends_inv d" and i: "i < n" and stop: "\<not> pr_keep_running d"
  shows "\<exists>d'. (process_step Release E H ops M parse_ip calls a)\<^sup>*\<^sup>* d d' \<and> ended_worker i d d'"
proof -
  let ?S = "process_step Release E H ops M parse_ip calls a"
  have len: "i < length (pr_workers d)" and t: "thread_inv E H inv pk lt_pk (args_version (sa_protocol a)) i (pr_workers d ! i)"
    and id: "identity_ok inv pk lt_pk (args_version (sa_protocol a)) (pr_identity d)"
    using d(1) i by (auto simp: process_inv_def)
  have next_polling: "\<exists>d'. ?S\<^sup>*\<^sup>* d d' \<and> ended_worker i d d'" if st: "?S d (publish_back i (Polling t w) d)" for t w
  proof -
    let ?d = "publish_back i (Polling t w) d"
    have "i < length (pr_workers ?d)" "pr_workers ?d ! i = Running (Polling t w)" "\<not> pr_keep_running ?d"
      using len stop by simp_all
    from polling_worker_ends [OF this] obtain d' where "?S\<^sup>*\<^sup>* ?d d'" "ended_worker i ?d d'" by blast
    with st show ?thesis
      by (intro exI [of _ d']) (auto simp: ended_worker_def intro: converse_rtranclp_into_rtranclp)
  qed
  show ?thesis
  proof (cases "pr_workers d ! i")
    case (Spawned idx)
    obtain t where c: "start_clock (worker_args a) (Some 0) (Some 0) t" using start_clock_exists by blast
    obtain addr where "bind_socket parse_ip (calls idx) a = Ok addr" using b by blast
    from process_worker_start_ok [OF E(1,3) d(1) c this, of "[]" idx]
    obtain w :: "('b, 'addr) worker" where "worker_thread_body Release E ops parse_ip (calls idx) (Some 0) (Some 0) [] idx (process_key_source a d) a
      (choose_clock (worker_args a)) (pr_channel d) = Ok w" by blast
    from next_polling [OF process_step.worker_start [where calls = calls, OF len Spawned c this]] show ?thesis .
  next
    case (Running ws)
    show ?thesis
    proof (cases ws)
      case (Polling t w)
      then show ?thesis using polling_worker_ends [OF len _ stop] Running by blast
    next
      case (Serving t w)
      let ?w = "attach (pr_channel d) (pr_identity d) w"
      have "end_inv ws" using d(2) Running len by (metis ends_inv_def nth_mem)
      then have e: "can_end t ?w" using attach_end [of "pr_channel d" "pr_identity d" ws] Serving by simp
      have "worker_inv E H inv pk lt_pk (args_version (sa_protocol a)) t ?w"
        using attach_inv [OF _ id, of E H ws "pr_channel d"] t Running Serving by simp
      from serving_worker_round [OF E(1,2) this e] obtain w' where
        "worker_step Release E H ops (attach_state (pr_channel d) (pr_identity d) ws) (Polling t w')" using Serving by auto
      from next_polling [OF process_step.worker_run [OF len Running this]] Serving show ?thesis by simp
    next
      case Stopped
      then show ?thesis using Running by (intro exI [of _ d]) (simp add: ended_worker_def)
    next
      case Crashed
      then show ?thesis using t Running by simp
    qed
  qed
qed

lemma workers_end:
  assumes E: "ed25519_ok E" "sha512_ok H" "args_ok (worker_args a)" "sa_batch_size a \<noteq> 0" "report_env_ok M"
    and b: "\<And>i. \<exists>addr. bind_socket parse_ip (calls i) a = Ok addr"
    and d: "process_inv E H inv pk lt_pk (args_version (sa_protocol a)) n d" "ends_inv d" and stop: "\<not> pr_keep_running d" and k: "k \<le> n"
  shows "\<exists>d'. (process_step Release E H ops M parse_ip calls a)\<^sup>*\<^sup>* d d' \<and> (\<forall>i<k. worker_end (pr_workers d' ! i) = Finished) \<and>
    pr_metrics d' = pr_metrics d \<and> \<not> pr_keep_running d'"
  using k
proof (induction k)
  case 0
  then show ?case using stop by (intro exI [of _ d]) simp
next
  case (Suc k)
  then obtain d1 where d1: "(process_step Release E H ops M parse_ip calls a)\<^sup>*\<^sup>* d d1" "\<forall>i<k. worker_end (pr_workers d1 ! i) = Finished"
    "pr_metrics d1 = pr_metrics d" "\<not> pr_keep_running d1" by auto
  have i1: "process_inv E H inv pk lt_pk (args_version (sa_protocol a)) n d1" "ends_inv d1"
    using process_run_inv [OF E(1,2,5,3) b d1(1) d(1)] process_run_ends [OF d1(1) E(4) d(2)] by simp_all
  obtain d2 where d2: "(process_step Release E H ops M parse_ip calls a)\<^sup>*\<^sup>* d1 d2" "ended_worker k d1 d2"
    using worker_ends [OF E(1-4) _ i1 _ d1(4), of parse_ip calls k M] b Suc.prems by auto
  have "(process_step Release E H ops M parse_ip calls a)\<^sup>*\<^sup>* d d2" using d1(1) d2(1) by (rule rtranclp_trans)
  moreover have "worker_end (pr_workers d2 ! i) = Finished" if "i < Suc k" for i
    using that d1(2) d2(2) by (cases "i = k") (auto simp: ended_worker_def)
  ultimately show ?case using d1(3,4) d2(2) by (intro exI [of _ d2]) (simp add: ended_worker_def)
qed

end

text \<open>The metrics thread finishes its pass and ends.\<close>

lemma metrics_waiting_ends:
  assumes "pr_metrics d = Running (Waiting nx l c)" "\<not> pr_keep_running d"
  shows "process_step p E H ops M parse_ip calls a d (d\<lparr>pr_metrics := Running AggregatorStopped\<rparr>)"
proof -
  have "d\<lparr>pr_metrics := Running AggregatorStopped, pr_channel := pr_channel d, pr_files := pr_files d\<rparr>
      = d\<lparr>pr_metrics := Running AggregatorStopped\<rparr>" by (cases d) simp
  with process_step.metrics_run [OF assms(1) aggregator_step.shut_down [OF assms(2)], of p E H ops M parse_ip calls a]
  show ?thesis by simp
qed

text \<open>\<open>d'\<close> is \<open>d\<close> with its metrics thread ended.\<close>

definition ended_metrics :: "('b, 'addr) process \<Rightarrow> ('b, 'addr) process \<Rightarrow> bool" where
  "ended_metrics d d' \<longleftrightarrow> pr_workers d' = pr_workers d \<and> pr_metrics d' = Running AggregatorStopped"

lemma metrics_draining_ends:
  assumes "report_env_ok M" "\<not> pr_keep_running d" "channel_ok n (pr_channel d)"
    and "pr_metrics d = Running (Draining nx l c)" "accumulators_ok n (ma_aggregated c)"
  shows "\<exists>d'. (process_step Release E H ops M parse_ip calls a)\<^sup>*\<^sup>* d d' \<and> ended_metrics d d'"
  using assms(2-5)
proof (induction "ch_queue (pr_channel d)" arbitrary: d c)
  case Nil
  obtain now where now: "epoch_seconds (Some 0) (ma_clock c) = (Ok now :: (unit, u64) outcome)" using epoch_seconds_Some by blast
  let ?io = "\<lparr>wi_create = None, wi_written = [], wi_write = None, wi_sync = None, wi_rename = None\<rparr>"
  obtain n' l' states where f: "aggregator_finish_pass Release M ?io (Some 0) undefined nx l c (pr_files d) = (Ok (n', l'), states)"
    using aggregator_finish_Release [OF Nil(5) assms(1) now] by (metis surj_pair)
  have empty: "try_recv (pr_channel d) = None" using Nil(1) by (simp add: try_recv_def split: list.splits)
  let ?d = "d\<lparr>pr_metrics := Running (Waiting n' l' c), pr_channel := pr_channel d, pr_files := last states\<rparr>"
  from process_step.metrics_run [OF Nil(4) aggregator_step.finish [OF empty now f], of E H ops parse_ip calls a]
  have "process_step Release E H ops M parse_ip calls a d ?d" .
  moreover have "process_step Release E H ops M parse_ip calls a ?d (?d\<lparr>pr_metrics := Running AggregatorStopped\<rparr>)"
    using Nil(2) by (intro metrics_waiting_ends [of ?d n' l' c]) simp_all
  ultimately show ?case
    by (intro exI [of _ "?d\<lparr>pr_metrics := Running AggregatorStopped\<rparr>"]) (auto simp: ended_metrics_def)
next
  case (Cons m ms)
  let ?ch = "(pr_channel d)\<lparr>ch_queue := ms\<rparr>"
  have r: "try_recv (pr_channel d) = Some (m, ?ch)" using Cons(2) by (simp add: try_recv_def split: list.splits) (metis list.distinct(1) list.inject)
  note ok = try_recv_ok [OF Cons(4) r]
  let ?c = "c\<lparr>ma_aggregated := (ma_aggregated c)[wm_worker_id m := add_snapshot (ma_aggregated c ! wm_worker_id m) m]\<rparr>"
  have rc: "aggregator_receive Release m c = Ok ?c"
    using aggregate_one_Release [OF Cons(6), of m, where 'e = unit] ok by (simp add: aggregator_receive_def)
  let ?d = "d\<lparr>pr_metrics := Running (Draining nx l ?c), pr_channel := ?ch, pr_files := pr_files d\<rparr>"
  from process_step.metrics_run [OF Cons(5) aggregator_step.receive [OF r rc], of E H ops M parse_ip calls a]
  have st: "process_step Release E H ops M parse_ip calls a d ?d" .
  have "\<exists>d'. (process_step Release E H ops M parse_ip calls a)\<^sup>*\<^sup>* ?d d' \<and> ended_metrics ?d d'"
    using Cons(3) ok accumulators_ok_update [OF Cons(6)] by (intro Cons(1) [of ?d ?c]) simp_all
  then obtain d' where "(process_step Release E H ops M parse_ip calls a)\<^sup>*\<^sup>* ?d d'" "ended_metrics ?d d'" by blast
  with st show ?case by (intro exI [of _ d']) (auto simp: ended_metrics_def intro: converse_rtranclp_into_rtranclp)
qed

lemma metrics_end_reached:
  assumes "report_env_ok M" "\<not> pr_keep_running d" "channel_ok n (pr_channel d)" "metrics_inv n (pr_metrics d)"
  shows "\<exists>d'. (process_step Release E H ops M parse_ip calls a)\<^sup>*\<^sup>* d d' \<and> ended_metrics d d'"
proof (cases "pr_metrics d")
  case (Spawned c)
  obtain t where t: "epoch_seconds (Some 0) (ma_clock c) = (Ok t :: (unit, u64) outcome)" using epoch_seconds_Some by blast
  let ?d = "d\<lparr>pr_metrics := Running (Waiting (t + dur_secs (ma_reporting_interval c)) t c)\<rparr>"
  have "aggregator_start Release (Some 0) (Some 0) c = Ok (t + dur_secs (ma_reporting_interval c), t)"
    using t by (simp add: aggregator_start_def add_word_Release)
  from process_step.metrics_start [OF Spawned t t this] have "process_step Release E H ops M parse_ip calls a d ?d" .
  moreover have "process_step Release E H ops M parse_ip calls a ?d (?d\<lparr>pr_metrics := Running AggregatorStopped\<rparr>)"
    using assms(2) by (intro metrics_waiting_ends) simp_all
  ultimately show ?thesis
    by (intro exI [of _ "?d\<lparr>pr_metrics := Running AggregatorStopped\<rparr>"]) (auto simp: ended_metrics_def)
next
  case (Running s)
  show ?thesis
  proof (cases s)
    case (Waiting nx l c)
    from r_into_rtranclp [of "process_step Release E H ops M parse_ip calls a",
        OF metrics_waiting_ends [OF Running [unfolded this] assms(2)]] show ?thesis
      by (intro exI [of _ "d\<lparr>pr_metrics := Running AggregatorStopped\<rparr>"]) (simp add: ended_metrics_def)
  next
    case (Draining nx l c)
    have "accumulators_ok n (ma_aggregated c)" using assms(4) Running Draining by simp
    from metrics_draining_ends [OF assms(1-3) Running [unfolded Draining] this] show ?thesis .
  next
    case AggregatorStopped
    then show ?thesis using Running by (intro exI [of _ d]) (simp add: ended_metrics_def)
  next
    case AggregatorCrashed
    then show ?thesis using assms(4) Running by simp
  qed
qed

lemma join_all_finished: "\<forall>e\<in>set ts. e = Finished \<Longrightarrow> join_threads ts = Some (Ok ())"
  by (induction ts) auto

section \<open>Properties\<close>

lemma server_start_ends:
  assumes "server_start p env B ops create_err remove_ok a fs = Ok d0"
  shows "ends_inv d0"
  using assms by (auto simp: server_start_def and_then_Ok_iff Let_def ends_inv_def)

text \<open>C10. The server can always be shut down: from every state that the process reaches in any interleaving, after
  Ctrl-C there is a run in which every worker finishes its round and stops, the metrics thread takes what is
  left in the channel and stops, and \<open>main\<close> joins all threads and returns. No state is a deadlock.\<close>

theorem shutdown_possible:
  fixes R :: "('k, 'h) keyring" and A :: "'c ssh_agent" and d0 :: "(('k, 'c) any_backend, 'addr) process"
  assumes "deployment_ok E H R kv A holds M parse_ip calls a" "sa_batch_size a \<noteq> 0"
    and "server_start Release env (all_backends E R A sock) (any_ops E R A) create_err remove_ok a fs = Ok d0"
    and "(process_step Release E H (any_ops E R A) M parse_ip calls a)\<^sup>*\<^sup>* d0 d"
  shows "\<exists>d'. (process_step Release E H (any_ops E R A) M parse_ip calls a)\<^sup>*\<^sup>* (d\<lparr>pr_keep_running := False\<rparr>) d' \<and>
    main_result d' = Some (Ok ())"
proof (rule reachable_inv [OF assms(1,3,4)])
  fix seed
  let ?S = "process_step Release E H (any_ops E R A) M parse_ip calls a" and ?d = "d\<lparr>pr_keep_running := False\<rparr>"
  let ?n = "unat (sa_num_threads a)"
  let ?inv = "process_inv E H (any_ok E R kv A holds) (any_pk E) (ed_public E seed) (args_version (sa_protocol a)) ?n"
  assume i: "?inv d"
  have D: "ed25519_ok E" "sha512_ok H" "args_ok (worker_args a)" "report_env_ok M"
    "\<And>i. \<exists>addr. bind_socket parse_ip (calls i) a = Ok addr"
    using assms(1) by (simp_all add: deployment_ok_def)
  have "?inv ?d" "ends_inv ?d" "\<not> pr_keep_running ?d"
    using i process_run_ends [OF assms(4,2) server_start_ends [OF assms(3)]] by (simp_all add: process_inv_def ends_inv_def)
  from boxed_seed.workers_end [OF D(1-3) assms(2) D(4) _ this order_refl, of parse_ip calls] D(5)
  obtain d1 where d1: "?S\<^sup>*\<^sup>* ?d d1" "\<forall>i<?n. worker_end (pr_workers d1 ! i) = Finished" "\<not> pr_keep_running d1" by blast
  have "?inv d1" using boxed_seed.process_run_inv [OF D(1,2,4,3,5) d1(1) \<open>?inv ?d\<close>] .
  then have c: "channel_ok ?n (pr_channel d1)" "metrics_inv ?n (pr_metrics d1)" "length (pr_workers d1) = ?n"
    by (simp_all add: process_inv_def)
  obtain d2 where d2: "?S\<^sup>*\<^sup>* d1 d2" "ended_metrics d1 d2" using metrics_end_reached [OF D(4) d1(3) c(1,2)] by blast
  have "\<forall>e\<in>set (metrics_end (pr_metrics d2) # map worker_end (pr_workers d2)). e = Finished"
    using d2(2) d1(2) c(3) by (auto simp: ended_metrics_def in_set_conv_nth)
  then have "main_result d2 = Some (Ok ())" unfolding main_result_def by (rule join_all_finished)
  with rtranclp_trans [OF d1(1) d2(1)] show ?thesis by blast
qed

theorem shutdown_possible_witness:
  "\<exists>d0 d'. server_start Release sample_env sample_backends sample_ops None True sample_main_args Map.empty
      = Ok (d0 :: ((bytes option, bytes list) any_backend, nat) process) \<and>
    (process_step Release toy_ed toy_hash sample_ops sample_report_env sample_ip sample_calls sample_main_args)\<^sup>*\<^sup>* (d0\<lparr>pr_keep_running := False\<rparr>) d' \<and>
    main_result d' = Some (Ok ())"
proof -
  obtain d0 where d0: "server_start Release sample_env sample_backends sample_ops None True sample_main_args Map.empty
      = Ok (d0 :: ((bytes option, bytes list) any_backend, nat) process)"
    using sample_server_start by blast
  have "sa_batch_size sample_main_args \<noteq> 0" by (simp add: sample_main_args_def)
  from shutdown_possible [OF sample_deployment_ok this d0 rtranclp.rtrancl_refl] d0 show ?thesis by blast
qed

end
