(* ===== verification/Pkcs11_Backend.thy ===== *)
theory Pkcs11_Backend
  imports Seed_Backends
begin

text \<open>
  The PKCS#11 seed backend (\<^verbatim>\<open>online/pkcs11.rs\<close>): the long-term key stays in a hardware token, which signs.
  The calls of the token's library are arguments; \<open>token_ok\<close> is what they promise for a token that holds an
  Ed25519 key. Shown: both encodings of the public key are read, opening a token never panics, the
  backend meets the contract \<open>seed_backend\<close> and certifies online keys, and it cannot be given a seed.
\<close>

section \<open>The library\<close>

datatype attribute = EcPoint bytes | OtherAttribute

text \<open>A library handle \<open>'l\<close>, slots \<open>'s\<close>, sessions \<open>'c\<close> and object handles \<open>'h\<close>. \<open>pk_find_private_keys\<close> is
  \<open>find_objects\<close> with the template for private keys of an Edwards curve, \<open>pk_sign\<close> signs with the
  EdDSA mechanism and \<open>pk_ec_point\<close> asks for the attribute \<open>EcPoint\<close>.\<close>

record ('l, 's, 'c, 'h) pkcs11 =
  pk_open :: "string \<Rightarrow> string + 'l"
  pk_initialize :: "'l \<Rightarrow> string + unit"
  pk_library_info :: "'l \<Rightarrow> string + unit"
  pk_all_slots :: "'l \<Rightarrow> string + 's list"
  pk_slot_info :: "'s \<Rightarrow> 'l \<Rightarrow> string + unit"
  pk_open_ro_session :: "'s \<Rightarrow> 'l \<Rightarrow> string + 'c"
  pk_login :: "string \<Rightarrow> 'c \<Rightarrow> string + 'c"
  pk_find_private_keys :: "'c \<Rightarrow> string + 'h list"
  pk_sign :: "'h \<Rightarrow> bytes \<Rightarrow> 'c \<Rightarrow> string + (bytes \<times> 'c)"
  pk_ec_point :: "'h \<Rightarrow> 'c \<Rightarrow> string + attribute list"

record ('c, 'h) pkcs11_backend =
  p11_session :: 'c
  p11_key_handle :: 'h

text \<open>The conversion of a library error at a \<open>?\<close>.\<close>

fun lib_result :: "string + 'a \<Rightarrow> (backend_error, 'a) outcome" where
  "lib_result (Inl e) = Err (Pkcs11 e)"
| "lib_result (Inr x) = Ok x"

lemma lib_result_simps [simp]: "lib_result r \<noteq> Panic" "lib_result r = Ok x \<longleftrightarrow> r = Inr x"
  by (cases r; simp)+

section \<open>Operations\<close>

text \<open>The index is never formatted into the message of the second error.\<close>

definition get_slot :: "('l, 's, 'c, 'h) pkcs11 \<Rightarrow> 'l \<Rightarrow> nat \<Rightarrow> (backend_error, 's) outcome" where
  "get_slot L library slot_index =
     and_then (lib_result (pk_all_slots L library)) (\<lambda>slots.
     if slots = [] then Err (NotFound ''No PKCS11 slots found (not plugged in?)'')
     else and_then (if slot_index < length slots then Ok (slots ! slot_index)
                    else Err (NotFound ''slot index {} is out of range'')) (\<lambda>selected_slot.
          and_then (lib_result (pk_slot_info L selected_slot library)) (\<lambda>_. Ok selected_slot)))"

definition get_key_handle :: "('l, 's, 'c, 'h) pkcs11 \<Rightarrow> 'c \<Rightarrow> (backend_error, 'h) outcome" where
  "get_key_handle L session =
     and_then (lib_result (pk_find_private_keys L session)) (\<lambda>handles.
     if handles = [] then Err (NotFound ''No private keys found on the device'')
     else index_at handles 0)"

definition p11_new ::
  "('l, 's, 'c, 'h) pkcs11 \<Rightarrow> string \<Rightarrow> nat \<Rightarrow> string \<Rightarrow> (backend_error, ('c, 'h) pkcs11_backend) outcome" where
  "p11_new L lib_path slot_index auth_pin =
     and_then (lib_result (pk_open L lib_path)) (\<lambda>library.
     and_then (lib_result (pk_initialize L library)) (\<lambda>_.
     and_then (lib_result (pk_library_info L library)) (\<lambda>_.
     and_then (get_slot L library slot_index) (\<lambda>slot.
     and_then (lib_result (pk_open_ro_session L slot library)) (\<lambda>session0.
     and_then (lib_result (pk_login L auth_pin session0)) (\<lambda>session.
     and_then (get_key_handle L session) (\<lambda>key_handle.
     Ok \<lparr>p11_session = session, p11_key_handle = key_handle\<rparr>)))))))"

definition p11_store_seed :: "bytes \<Rightarrow> ('c, 'h) pkcs11_backend \<Rightarrow> (backend_error, ('c, 'h) pkcs11_backend) outcome" where
  "p11_store_seed seed b = Err (NotSupported ''store_seed is not supported by the SeedPkcs11 backend'')"

definition p11_get_seed :: "('c, 'h) pkcs11_backend \<Rightarrow> (backend_error, bytes) outcome" where
  "p11_get_seed b = Err (NotSupported ''get_seed is not supported by the SeedPkcs11 backend'')"

definition p11_sign ::
  "('l, 's, 'c, 'h) pkcs11 \<Rightarrow> ('c, 'h) pkcs11_backend \<Rightarrow> bytes \<Rightarrow> (backend_error, bytes \<times> ('c, 'h) pkcs11_backend) outcome" where
  "p11_sign L b data =
     and_then (lib_result (pk_sign L (p11_key_handle b) data (p11_session b))) (\<lambda>(sg, session).
     and_then (copy_array 64 sg) (\<lambda>sig_bytes. Ok (sig_bytes, b\<lparr>p11_session := session\<rparr>)))"

definition p11_seed_len :: "('c, 'h) pkcs11_backend \<Rightarrow> nat" where
  "p11_seed_len b = 32"

definition point_public_key :: "bytes \<Rightarrow> ('e, bytes) outcome" where
  "point_public_key point_data =
     (if length point_data \<ge> 34 \<and> point_data ! 0 = 0x04 \<and> point_data ! 1 = 0x20
      then and_then (slice_of point_data 2 34) (copy_array 32)
      else if length point_data = 32 then copy_array 32 point_data
      else Panic)"

definition p11_public_key_bytes :: "('l, 's, 'c, 'h) pkcs11 \<Rightarrow> ('c, 'h) pkcs11_backend \<Rightarrow> (backend_error, bytes) outcome" where
  "p11_public_key_bytes L b =
     and_then (expect (lib_result (pk_ec_point L (p11_key_handle b) (p11_session b)))) (\<lambda>attributes.
     and_then (index_at attributes 0) (\<lambda>a.
     case a of EcPoint point_data \<Rightarrow> point_public_key point_data | OtherAttribute \<Rightarrow> Panic))"

definition p11_public_key :: "('l, 's, 'c, 'h) pkcs11 \<Rightarrow> ('c, 'h) pkcs11_backend \<Rightarrow> (backend_error, public_key) outcome" where
  "p11_public_key L b = p11_public_key_bytes L b"

definition p11_ops :: "('l, 's, 'c, 'h) pkcs11 \<Rightarrow> ('c, 'h) pkcs11_backend seed_backend_ops" where
  "p11_ops L = \<lparr>sb_sign = p11_sign L, sb_seed_len = p11_seed_len, sb_public_key = p11_public_key L\<rparr>"

section \<open>The contract\<close>

text \<open>What a token promises about a handle of a private key it found: it signs and goes on to, and it tells the
  public key raw or in its DER encoding.\<close>

definition encodes_key :: "bytes \<Rightarrow> public_key \<Rightarrow> bool" where
  "encodes_key point pk \<longleftrightarrow> length pk = 32 \<and> (point = pk \<or> (\<exists>rest. point = [0x04, 0x20] @ pk @ rest))"

definition token_ok ::
  "ed25519 \<Rightarrow> ('l, 's, 'c, 'h) pkcs11 \<Rightarrow> ('h \<Rightarrow> 'c \<Rightarrow> public_key option) \<Rightarrow> bool" where
  "token_ok E L holds \<longleftrightarrow>
     (\<forall>c hs h. pk_find_private_keys L c = Inr hs \<and> h \<in> set hs \<longrightarrow> holds h c \<noteq> None) \<and>
     (\<forall>h c pk m. holds h c = Some pk \<longrightarrow>
        (\<exists>sg c'. pk_sign L h m c = Inr (sg, c') \<and> holds h c' = Some pk \<and> length sg = 64 \<and> ed_verify E pk m sg)) \<and>
     (\<forall>h c pk. holds h c = Some pk \<longrightarrow> (\<exists>point. pk_ec_point L h c = Inr [EcPoint point] \<and> encodes_key point pk))"

definition p11_ok ::
  "ed25519 \<Rightarrow> ('l, 's, 'c, 'h) pkcs11 \<Rightarrow> ('h \<Rightarrow> 'c \<Rightarrow> public_key option) \<Rightarrow> ('c, 'h) pkcs11_backend \<Rightarrow> bool" where
  "p11_ok E L holds b \<longleftrightarrow> token_ok E L holds \<and> holds (p11_key_handle b) (p11_session b) \<noteq> None"

definition p11_pk :: "('h \<Rightarrow> 'c \<Rightarrow> public_key option) \<Rightarrow> ('c, 'h) pkcs11_backend \<Rightarrow> public_key" where
  "p11_pk holds b = (case holds (p11_key_handle b) (p11_session b) of Some pk \<Rightarrow> pk | None \<Rightarrow> [])"

lemma point_public_key_decodes:
  assumes "encodes_key point pk"
  shows "point_public_key point = (Ok pk :: ('e, bytes) outcome)"
  using assms by (auto simp: encodes_key_def point_public_key_def slice_of_def copy_array_def)

lemma p11_public_key_ok:
  assumes "token_ok E L holds" and "holds (p11_key_handle b) (p11_session b) = Some pk"
  shows "p11_public_key L b = Ok pk"
proof -
  obtain point where "pk_ec_point L (p11_key_handle b) (p11_session b) = Inr [EcPoint point]" "encodes_key point pk"
    using assms unfolding token_ok_def by blast
  then show ?thesis by (simp add: p11_public_key_def p11_public_key_bytes_def point_public_key_decodes)
qed

lemma p11_sign_ok:
  assumes "token_ok E L holds" and "holds (p11_key_handle b) (p11_session b) = Some pk"
  shows "\<exists>sg b'. p11_sign L b m = Ok (sg, b') \<and> holds (p11_key_handle b') (p11_session b') = Some pk \<and>
           length sg = 64 \<and> ed_verify E pk m sg"
proof -
  obtain sg c' where "pk_sign L (p11_key_handle b) m (p11_session b) = Inr (sg, c')"
      "holds (p11_key_handle b) c' = Some pk" "length sg = 64" "ed_verify E pk m sg"
    using assms unfolding token_ok_def by blast
  then show ?thesis by (simp add: p11_sign_def copy_array_def)
qed

interpretation token_seed: seed_backend E "p11_ops L" "p11_ok E L holds" "p11_pk holds" for E L holds
proof
  fix b :: "('c, 'd) pkcs11_backend" and m
  assume ok: "p11_ok E L holds b"
  then obtain pk where pk: "token_ok E L holds" "holds (p11_key_handle b) (p11_session b) = Some pk"
    by (auto simp: p11_ok_def)
  show "sb_public_key (p11_ops L) b = Ok (p11_pk holds b)"
    using p11_public_key_ok [OF pk] pk(2) by (simp add: p11_ops_def p11_pk_def)
  show "sb_seed_len (p11_ops L) b = 32" by (simp add: p11_ops_def p11_seed_len_def)
  show "\<exists>sg b'. sb_sign (p11_ops L) b m = Ok (sg, b') \<and> p11_ok E L holds b' \<and> p11_pk holds b' = p11_pk holds b \<and>
      length sg = 64 \<and> ed_verify E (p11_pk holds b) m sg"
  proof -
    obtain sg b' where "p11_sign L b m = Ok (sg, b')" "holds (p11_key_handle b') (p11_session b') = Some pk"
        "length sg = 64" "ed_verify E pk m sg"
      using p11_sign_ok [OF pk] by blast
    then show ?thesis using pk by (intro exI [of _ sg] exI [of _ b']) (simp add: p11_ops_def p11_pk_def p11_ok_def)
  qed
qed

lemma p11_new_ok:
  assumes "token_ok E L holds" and "p11_new L lib_path slot_index auth_pin = Ok b"
  shows "p11_ok E L holds b"
proof -
  obtain hs where hs: "pk_find_private_keys L (p11_session b) = Inr hs" "hs \<noteq> []" "p11_key_handle b = hs ! 0"
    using assms(2) by (auto simp: p11_new_def get_key_handle_def and_then_Ok_iff index_at_def split: if_splits)
  then have "p11_key_handle b \<in> set hs" by simp
  then show ?thesis using assms(1) hs(1) unfolding token_ok_def p11_ok_def by blast
qed

lemma p11_new_no_panic: "p11_new L lib_path slot_index auth_pin \<noteq> Panic"
  by (auto simp: p11_new_def get_slot_def get_key_handle_def and_then_Panic_iff index_at_def split: if_splits)

section \<open>Properties\<close>

text \<open>C37. A token as the long-term identity: opening a token gives a backend or an error and never panics. With a
  backend over a token that keeps its promises, the key source has the public key the token tells, raw or DER-encoded,
  the online keys it makes carry a certificate the token signed, and a seed is refused.\<close>

theorem token_certifies:
  assumes "ed25519_ok E" and "token_ok E L holds"
    and "dur_secs validity \<noteq> 0" and "epoch_seconds sys clock = (Ok now :: (backend_error, u64) outcome)"
  shows "case p11_new L lib_path slot_index auth_pin of
      Panic \<Rightarrow> False
    | Err e \<Rightarrow> True
    | Ok b \<Rightarrow> \<exists>pk ks k ks'.
        holds (p11_key_handle b) (p11_session b) = Some pk \<and>
        key_source_new (p11_ops L) v b clock validity = (Ok ks :: (backend_error, _) outcome) \<and>
        ks_public_key (p11_ops L) ks = Ok pk \<and>
        ks_make_online_key14 E (p11_ops L) sys secret ks = Ok (k, ks') \<and>
        cert_delegates E v pk (ok14_cert k) (ed_public E secret) \<and>
        dele_min_time (cert_delegation (ok14_cert k)) = now \<and>
        (\<forall>seed. \<exists>msg. p11_store_seed seed b = Err (NotSupported msg))"
proof (cases "p11_new L lib_path slot_index auth_pin")
  case (Ok b)
  have b: "p11_ok E L holds b" using p11_new_ok [OF assms(2) Ok] .
  then obtain pk where pk: "holds (p11_key_handle b) (p11_session b) = Some pk" by (auto simp: p11_ok_def)
  then have p: "p11_pk holds b = pk" by (simp add: p11_pk_def)
  let ?i = "\<lparr>id_seed = b, id_version = v\<rparr>"
  let ?ks = "\<lparr>ks_identity = ?i, ks_validity_length = validity, ks_clock_source = clock\<rparr>"
  have ks: "key_source_new (p11_ops L) v b clock validity = (Ok ?ks :: (backend_error, _) outcome)"
    using token_seed.backend_len [OF b] assms(3) by (simp add: key_source_new_def identity_new_def)
  obtain k i' where k: "make_online_key14 E (p11_ops L) sys secret clock validity ?i = Ok (k, i')"
      "ok14_ok E v pk k" "cert_delegation (ok14_cert k) = dele_new (ed_public E secret) now (dur_secs validity)"
    using token_seed.make_online_key14_ok [OF assms(1) _ assms(4), of L holds ?i secret validity] b p by auto
  have "ok14_secret k = secret"
    using k(1) assms(4) by (auto simp: make_online_key14_def and_then_Ok_iff Let_def ok14_set_cert_def ok14_new_def)
  then have "cert_delegates E v pk (ok14_cert k) (ed_public E secret)" using k(2) by (simp add: ok14_ok_def)
  with Ok pk ks k show ?thesis
    using token_seed.backend_pk [OF b] p dele_new_times(1)
    by (simp add: ks_make_online_key14_def ks_public_key_def identity_public_key_def p11_store_seed_def)
next
  case Panic
  then show ?thesis using p11_new_no_panic by blast
qed simp

text \<open>A token with one key in a slot, which tells its public key in DER.\<close>

definition sample_token :: "(unit, nat, unit, bytes) pkcs11" where
  "sample_token =
     \<lparr>pk_open = (\<lambda>path. Inr ()), pk_initialize = (\<lambda>l. Inr ()), pk_library_info = (\<lambda>l. Inr ()),
      pk_all_slots = (\<lambda>l. Inr [0]), pk_slot_info = (\<lambda>s l. Inr ()), pk_open_ro_session = (\<lambda>s l. Inr ()),
      pk_login = (\<lambda>pin c. if pin = ''123456'' then Inr () else Inl ''CKR_PIN_INCORRECT''),
      pk_find_private_keys = (\<lambda>c. Inr [replicate 32 5]),
      pk_sign = (\<lambda>h m c. Inr (ed_sign toy_ed h m, c)),
      pk_ec_point = (\<lambda>h c. Inr [EcPoint (0x04 # 0x20 # ed_public toy_ed h)])\<rparr>"

lemma sample_token_ok: "token_ok toy_ed sample_token (\<lambda>h c. Some (ed_public toy_ed h))"
  using ed25519_lengths [OF toy_ed_ok] by (auto simp: token_ok_def sample_token_def encodes_key_def)

theorem token_certifies_witness:
  "\<exists>b ks k ks'. p11_new sample_token ''libykcs11.so'' 0 ''123456'' = Ok b \<and>
     key_source_new (p11_ops sample_token) RfcDraft14 b System \<lparr>dur_secs = 3600, dur_nanos = 0\<rparr> = (Ok ks :: (backend_error, _) outcome) \<and>
     ks_make_online_key14 toy_ed (p11_ops sample_token) (Some 100) (replicate 32 2) ks = Ok (k, ks') \<and>
     cert_delegates toy_ed RfcDraft14 (ed_public toy_ed (replicate 32 5)) (ok14_cert k) (ed_public toy_ed (replicate 32 2))"
proof -
  have n: "p11_new sample_token ''libykcs11.so'' 0 ''123456'' = Ok \<lparr>p11_session = (), p11_key_handle = replicate 32 5\<rparr>"
    by (simp add: p11_new_def get_slot_def get_key_handle_def sample_token_def)
  show ?thesis
    using token_certifies [OF toy_ed_ok sample_token_ok, where validity = "\<lparr>dur_secs = 3600, dur_nanos = 0\<rparr>" and sys = "Some 100" and clock = System
        and now = 100 and lib_path = "''libykcs11.so''" and slot_index = 0 and auth_pin = "''123456''" and v = RfcDraft14
        and secret = "replicate 32 2"] n
    by (auto simp: system_seconds_def)
qed

end
