(* ===== verification/Validation.thy ===== *)
theory Validation
  imports Keys
begin

text \<open>
  Response validation in the client (\<^verbatim>\<open>validation.rs\<close>) and the measurements it works on
  (\<^verbatim>\<open>measurement.rs\<close>). Error messages are kept without the numbers formatted into them.
\<close>

section \<open>Measurements\<close>

record 'addr measurement =
  ms_server :: 'addr
  ms_hostname :: string
  ms_public_key :: "public_key option"
  ms_request :: request
  ms_response :: response
  ms_rand_value :: "bytes option"
  ms_prior_response :: "response option"

definition midpoint :: "'addr measurement \<Rightarrow> u64" where
  "midpoint m = srep_midpoint (resp_srep (ms_response m))"

definition radius :: "'addr measurement \<Rightarrow> u32" where
  "radius m = srep_radius (resp_srep (ms_response m))"

section \<open>Validation of one response\<close>

datatype validation_error =
    InvalidMidpoint string
  | BadSignature string
  | FailedProof string
  | InvalidMessage error
  | VersionMismatch protocol_version
  | InvalidRadius string

type_synonym validation = "(validation_error, unit) outcome"

text \<open>A \<open>ResponseValidator\<close> is the long-term public key, if the client knows it.\<close>

type_synonym response_validator = "public_key option"

definition validator_new_with_key :: "public_key \<Rightarrow> ('e, response_validator) outcome" where
  "validator_new_with_key pk = and_then (copy_array 32 pk) (\<lambda>bs. Ok (Some bs))"

definition check_dele_signature_with_key ::
  "ed25519 \<Rightarrow> public_key \<Rightarrow> certificate \<Rightarrow> protocol_version \<Rightarrow> validation" where
  "check_dele_signature_with_key E pub_key cert version =
     (let dele = cert_delegation cert; pfx = dele_prefix version in
      and_then (map_err InvalidMessage (dele_to_wire dele (cursor_new (replicate (dele_wire_size dele) 0)))) (\<lambda>(_, cursor).
      if ed_verify E pub_key (pfx @ cur_data cursor) (cert_signature cert) then Ok ()
      else Err (BadSignature ''signature on DELE is invalid'')))"

definition check_vers_contains_ver :: "response \<Rightarrow> validation" where
  "check_vers_contains_ver r =
     (let ver = srep_version (resp_srep r) in
      if \<not> is_supported (srep_supported_versions (resp_srep r)) ver then Err (VersionMismatch ver) else Ok ())"

definition verify_srep_signature :: "ed25519 \<Rightarrow> bytes \<Rightarrow> bytes \<Rightarrow> signature \<Rightarrow> public_key \<Rightarrow> validation" where
  "verify_srep_signature E pfx srep_bytes sg pubk =
     (if ed_verify E pubk (pfx @ srep_bytes) sg then Ok () else Err (BadSignature ''signature on SREP is invalid''))"

definition check_srep_signature_draft14 :: "ed25519 \<Rightarrow> response \<Rightarrow> bytes \<Rightarrow> validation" where
  "check_srep_signature_draft14 E r response_bytes =
     (let pfx = srep_prefix (srep_version (resp_srep r));
          offsets = hdr_offsets (resp_header r);
          values_start = 12 + 56;
          srep_start = values_start + unat (offsets ! 3);
          srep_end = values_start + unat (offsets ! 4)
      in
      if srep_end > length response_bytes
      then Err (BadSignature ''SREP offset extends beyond response bytes'')
      else
      and_then (slice_of response_bytes srep_start srep_end) (\<lambda>srep_bytes.
      verify_srep_signature E pfx srep_bytes (resp_signature r) (dele_public_key (cert_delegation (resp_cert r)))))"

definition check_midpoint_inner :: "u64 \<Rightarrow> u64 \<Rightarrow> u64 \<Rightarrow> validation" where
  "check_midpoint_inner midp mint maxt =
     (if midp < mint then Err (InvalidMidpoint ''midpoint is *before* delegation span'')
      else if midp > maxt then Err (InvalidMidpoint ''midpoint is *after* delegation span'')
      else Ok ())"

definition check_radius :: "u32 \<Rightarrow> validation" where
  "check_radius r = (if r = 0 then Err (InvalidRadius ''RADI must not be zero (RFC 5.2.5)'') else Ok ())"

definition check_merkle_proof_inner :: "hash_fn \<Rightarrow> bytes \<Rightarrow> merkle_path \<Rightarrow> nat \<Rightarrow> bytes \<Rightarrow> validation" where
  "check_merkle_proof_inner H leaf_data path index root =
     (let computed_root = root_from_paths H index leaf_data path in
      if computed_root \<noteq> root then Err (FailedProof ''Nonce is not present in the response's merkle tree'')
      else Ok ())"

definition check_merkle_proof_draft14 :: "hash_fn \<Rightarrow> bytes \<Rightarrow> response \<Rightarrow> validation" where
  "check_merkle_proof_draft14 H req r =
     check_merkle_proof_inner H req (resp_path r) (unat (resp_index r)) (srep_merkle_root (resp_srep r))"

definition validate_draft14 ::
  "ed25519 \<Rightarrow> hash_fn \<Rightarrow> response_validator \<Rightarrow> bytes \<Rightarrow> response \<Rightarrow> bytes \<Rightarrow> (validation_error, u64) outcome" where
  "validate_draft14 E H pub_key req r response_bytes =
     and_then (case pub_key of
                 Some pk \<Rightarrow> check_dele_signature_with_key E pk (resp_cert r) (srep_version (resp_srep r))
               | None \<Rightarrow> Ok ()) (\<lambda>_.
     and_then (check_vers_contains_ver r) (\<lambda>_.
     and_then (check_midpoint_inner (srep_midpoint (resp_srep r))
                 (dele_min_time (cert_delegation (resp_cert r))) (dele_max_time (cert_delegation (resp_cert r)))) (\<lambda>_.
     and_then (check_radius (srep_radius (resp_srep r))) (\<lambda>_.
     and_then (check_merkle_proof_draft14 H req r) (\<lambda>_.
     and_then (check_srep_signature_draft14 E r response_bytes) (\<lambda>_.
     Ok (srep_midpoint (resp_srep r))))))))"

definition check_srep_signature_draft08 :: "ed25519 \<Rightarrow> response_draft08 \<Rightarrow> bytes \<Rightarrow> validation" where
  "check_srep_signature_draft08 E r response_bytes =
     (let pfx = srep_prefix RfcDraft08;
          offsets = hdr_offsets (resp08_header r);
          values_start = 12 + 48;
          srep_start = values_start + unat (offsets ! 2);
          srep_end = values_start + unat (offsets ! 3)
      in
      if srep_end > length response_bytes
      then Err (BadSignature ''SREP offset extends beyond response bytes'')
      else
      and_then (slice_of response_bytes srep_start srep_end) (\<lambda>srep_bytes.
      verify_srep_signature E pfx srep_bytes (resp08_signature r) (dele_public_key (cert_delegation (resp08_cert r)))))"

definition check_merkle_proof_draft08 :: "hash_fn \<Rightarrow> bytes \<Rightarrow> response_draft08 \<Rightarrow> validation" where
  "check_merkle_proof_draft08 H req r =
     (let nonce_end = FRAMED_NONCE_OFFSET + 32 in
      if length req < nonce_end then Err (InvalidMessage (BufferTooSmall nonce_end (length req)))
      else
      and_then (slice_of req FRAMED_NONCE_OFFSET nonce_end) (\<lambda>nonce.
      check_merkle_proof_inner H nonce (resp08_path r) (unat (resp08_index r)) (srep08_merkle_root (resp08_srep r))))"

definition validate_draft08 ::
  "ed25519 \<Rightarrow> hash_fn \<Rightarrow> response_validator \<Rightarrow> bytes \<Rightarrow> response_draft08 \<Rightarrow> bytes \<Rightarrow> (validation_error, u64) outcome" where
  "validate_draft08 E H pub_key req r response_bytes =
     and_then (case pub_key of
                 Some pk \<Rightarrow> check_dele_signature_with_key E pk (resp08_cert r) RfcDraft08
               | None \<Rightarrow> Ok ()) (\<lambda>_.
     and_then (check_midpoint_inner (srep08_midpoint (resp08_srep r))
                 (dele_min_time (cert_delegation (resp08_cert r))) (dele_max_time (cert_delegation (resp08_cert r)))) (\<lambda>_.
     and_then (check_radius (srep08_radius (resp08_srep r))) (\<lambda>_.
     and_then (check_merkle_proof_draft08 H req r) (\<lambda>_.
     and_then (check_srep_signature_draft08 E r response_bytes) (\<lambda>_.
     Ok (srep08_midpoint (resp08_srep r)))))))"

section \<open>Causality\<close>

record 'addr causality_violation =
  cv_measurement_i :: "'addr measurement"
  cv_measurement_j :: "'addr measurement"
  cv_lower_bound_i :: u64
  cv_upper_bound_j :: u64

definition lower_bound :: "profile \<Rightarrow> 'addr measurement \<Rightarrow> ('e, u64) outcome" where
  "lower_bound p m = sub_word p (midpoint m) (ucast (radius m))"

definition upper_bound :: "profile \<Rightarrow> 'addr measurement \<Rightarrow> ('e, u64) outcome" where
  "upper_bound p m = add_word p (midpoint m) (ucast (radius m))"

definition causality_violation_new ::
  "profile \<Rightarrow> 'addr measurement \<Rightarrow> 'addr measurement \<Rightarrow> ('e, 'addr causality_violation) outcome" where
  "causality_violation_new p mi mj =
     and_then (lower_bound p mi) (\<lambda>lo.
     and_then (upper_bound p mj) (\<lambda>up.
     and_then (assert_that (lo > up)) (\<lambda>_.
     Ok \<lparr>cv_measurement_i = mi, cv_measurement_j = mj, cv_lower_bound_i = lo, cv_upper_bound_j = up\<rparr>)))"

text \<open>The inner loop of \<open>validate_causality\<close> for a fixed \<open>i\<close>, over the later measurements; then the outer
  loop.\<close>

fun causality_from ::
  "profile \<Rightarrow> 'addr measurement \<Rightarrow> 'addr measurement list \<Rightarrow> ('e, 'addr causality_violation list) outcome" where
  "causality_from p mi [] = Ok []"
| "causality_from p mi (mj # ms) =
     and_then (lower_bound p mi) (\<lambda>lo.
     and_then (upper_bound p mj) (\<lambda>up.
     if lo > up
     then and_then (causality_violation_new p mi mj) (\<lambda>v.
          and_then (causality_from p mi ms) (\<lambda>vs. Ok (v # vs)))
     else causality_from p mi ms))"

fun causality_loop ::
  "profile \<Rightarrow> 'addr measurement list \<Rightarrow> ('e, 'addr causality_violation list) outcome" where
  "causality_loop p [] = Ok []"
| "causality_loop p (m # ms) =
     and_then (causality_from p m ms) (\<lambda>vs.
     and_then (causality_loop p ms) (\<lambda>ws. Ok (vs @ ws)))"

definition validate_causality ::
  "profile \<Rightarrow> 'addr measurement list \<Rightarrow> ('e, 'addr causality_violation list) outcome" where
  "validate_causality p ms = (if length ms < 2 then Ok [] else causality_loop p ms)"

section \<open>What a parsed response guarantees\<close>

lemma yields_parts:
  "yields (header_from_wire N) (header_accepted N)" "yields cert_from_wire cert_valid"
  "yields (path_from_wire_n n) path_valid" "yields sig_from_wire (sized 64)" "yields nonce_from_wire (sized 32)"
  "yields root_from_wire (sized 32)"
  unfolding yields_def
  using consumes_wf hdr_exact.exact cert_exact.exact path_from_wire_n_Ok values_Ok(1,3,4)
  by (metis sized_def)+

lemma yields_read_versions: "yields (read_versions p k n acc prior) (\<lambda>_. True)"
proof (induction k arbitrary: n acc prior)
  case (Suc k)
  then show ?case unfolding read_versions.simps
    by (intro yields_basic(4,2) yields_bind [OF safe_yields [OF safe_version(1)]] yields_bind [OF yields_basic(3)])
      (auto intro: yields_basic(1))
qed (simp add: yields_basic(1))

lemma yields_vers: "yields (vers_from_wire_n p n) (\<lambda>_. True)"
  using yields_read_versions by (simp add: vers_from_wire_n_def version_list_from_wire_n_def)

text \<open>What is needed to encode a value again; the offsets may be anything.\<close>

definition srep_wf :: "signed_response \<Rightarrow> bool" where
  "srep_wf s \<longleftrightarrow> header_accepted 5 (srep_header s) \<and> sized 32 (srep_merkle_root s)"

definition resp_wf :: "response \<Rightarrow> bool" where
  "resp_wf r \<longleftrightarrow> header_accepted 7 (resp_header r) \<and> sized 64 (resp_signature r) \<and> sized 32 (resp_nonce r) \<and>
     path_ok (resp_path r) \<and> srep_wf (resp_srep r) \<and> cert_valid (resp_cert r)"

definition resp08_wf :: "response_draft08 \<Rightarrow> bool" where
  "resp08_wf r \<longleftrightarrow> header_accepted 6 (resp08_header r) \<and> sized 64 (resp08_signature r) \<and>
     path_ok (resp08_path r) \<and> sized 32 (srep08_merkle_root (resp08_srep r)) \<and> cert_valid (resp08_cert r)"

lemmas yields_ints = safe_yields [OF safe_try_ints(1)] safe_yields [OF safe_try_ints(3)]
  safe_yields [OF safe_version(1)] safe_yields [OF safe_version(2)] safe_yields [OF safe_asks]

lemma yields_srep: "yields (srep_from_wire p) srep_wf"
  unfolding srep_from_wire_def Let_def
  by (rule yields_bind [OF yields_parts(1)],
      intro yields_ints [THEN yields_bind] yields_bind [OF yields_basic(3)] yields_basic(4,2) yields_bind [OF yields_vers]
        yields_bind [OF yields_parts(6)],
      rule yields_basic(1), simp add: srep_wf_def)

lemma yields_srep08: "yields srep08_from_wire (\<lambda>s. sized 32 (srep08_merkle_root s))"
  unfolding srep08_from_wire_def
  by (rule yields_bind [OF yields_parts(1)],
      intro yields_ints [THEN yields_bind] yields_bind [OF yields_basic(3)] yields_basic(4,2) yields_bind [OF yields_parts(6)],
      rule yields_basic(1), simp)

lemmas yields_steps =
  yields_ints [THEN yields_bind] yields_bind [OF yields_basic(3)] yields_basic(4,2)
  yields_bind [OF yields_parts(4)] yields_bind [OF yields_parts(5)] yields_bind [OF yields_parts(3)]
  yields_bind [OF yields_srep] yields_bind [OF yields_srep08] yields_bind [OF yields_parts(2)]

lemma resp_yields: "yields (resp_from_wire p) resp_wf"
  unfolding resp_from_wire_def
  by (rule yields_bind [OF yields_parts(1)], intro yields_steps, rule yields_basic(1))
    (simp add: resp_wf_def path_valid_def)

lemma resp08_yields: "yields (resp08_from_wire p) resp08_wf"
  unfolding resp08_from_wire_def
  by (rule yields_bind [OF yields_parts(1)], intro yields_steps, rule yields_basic(1))
    (simp add: resp08_wf_def path_valid_def)

lemma length_srep_wf: "srep_wf s \<Longrightarrow> length (srep_enc s) = srep_wire_size s"
  by (simp add: srep_wf_def srep_enc_def length_header_enc srep_wire_size_def version_wire_size_def vers_wire_size_def
      version_list_wire_size_def root_wire_size_def sized_def)

lemma srep_wf_writes: "srep_wf s \<Longrightarrow> writes (srep_to_wire s) (srep_enc s)"
  unfolding srep_to_wire_def srep_enc_def
  by (intro writes_bind writes_intro header_writes) (simp add: srep_wf_def)

lemma length_resp_wf: "resp_wf r \<Longrightarrow> length (resp_enc r) = resp_wire_size r"
  using path_wire_size_ok [of "resp_path r"]
  by (auto simp: resp_wf_def resp_enc_def resp_body_def sized_def length_header_enc length_srep_wf resp_wire_size_def
      sig_wire_size_def nonce_wire_size_def message_type_wire_size_def cert_wire_size_def)

lemma resp_wf_writes:
  assumes "resp_wf r"
  shows "writes (resp_to_wire r) (resp_enc r)"
  unfolding resp_to_wire_def
proof (rule writes_capacity)
  have f: "header_accepted 7 (resp_header r)" "path_ok (resp_path r)" "srep_wf (resp_srep r)" "cert_valid (resp_cert r)"
    using assms by (auto simp: resp_wf_def)
  show "writes (bind (header_to_wire 7 (resp_header r)) (\<lambda>_.
     bind (sig_to_wire (resp_signature r)) (\<lambda>_. bind (nonce_to_wire (resp_nonce r)) (\<lambda>_.
     bind (message_type_to_wire (resp_msg_type r)) (\<lambda>_. bind (path_to_wire (resp_path r)) (\<lambda>_.
     bind (srep_to_wire (resp_srep r)) (\<lambda>_. bind (cert_to_wire (resp_cert r)) (\<lambda>_.
     put_u32_le (resp_index r)))))))) ) (resp_enc r)"
    unfolding resp_enc_def resp_body_def
    by (intro writes_bind writes_intro header_writes srep_wf_writes cert_codec.enc_writes f)
qed (rule length_resp_wf [OF assms])

interpretation parsed_writer: wire_writer resp_wire_size resp_to_wire resp_wf resp_enc
  by unfold_locales (auto intro: length_resp_wf resp_wf_writes)

lemma resp_ok_wf: "resp_ok r \<Longrightarrow> resp_wf r"
  using resp_ok_header(1) [of r] srep_valid_header [of "resp_srep r"]
  by (auto simp: resp_ok_def resp_fields_ok_def resp_wf_def srep_wf_def srep_valid_def)

lemma draft08_wf: "resp08_wf d \<Longrightarrow> resp_wf (resp_from_draft08 d)"
  by (intro resp_ok_wf resp_from_draft08_ok) (auto simp: resp08_wf_def)

lemma parse_yields:
  assumes "yields fw P" "parse (from_frame fw) bs = Ok r"
  shows "P r"
proof -
  obtain c' where "from_frame fw (cursor_new bs) = Ok (r, c')" using assms(2) by (auto simp: parse_Ok_iff)
  from from_frame_Ok [OF wf_cursor_new this] obtain c1 where "wf_cursor c1" "fw c1 = Ok (r, c')" using consumes_wf by blast
  then show ?thesis by (rule yieldsD [OF assms(1)])
qed

lemma check_dele_run:
  assumes "cert_valid c"
  shows "check_dele_signature_with_key E pk c v =
    (if ed_verify E pk (dele_prefix v @ dele_enc (cert_delegation c)) (cert_signature c) then Ok ()
     else Err (BadSignature ''signature on DELE is invalid''))"
proof -
  have d: "dele_valid (cert_delegation c)" using assms by (simp add: cert_valid_def)
  from dele_codec.as_bytes_enc [OF d] show ?thesis
    by (auto simp: check_dele_signature_with_key_def as_bytes_def and_then_Ok_iff Let_def split: if_splits)
qed

text \<open>The bytes of a frame whose signature a draft-14 and a draft-08 validation checks.\<close>

definition signed_window14 :: "response \<Rightarrow> bytes \<Rightarrow> bytes" where
  "signed_window14 r bs =
     (let o3 = unat (hdr_offsets (resp_header r) ! 3); o4 = unat (hdr_offsets (resp_header r) ! 4)
      in take (o4 - o3) (drop (68 + o3) bs))"

definition signed_window08 :: "response_draft08 \<Rightarrow> bytes \<Rightarrow> bytes" where
  "signed_window08 r bs =
     (let o2 = unat (hdr_offsets (resp08_header r) ! 2); o3 = unat (hdr_offsets (resp08_header r) ! 3)
      in take (o3 - o2) (drop (60 + o2) bs))"

lemma check_srep14_run:
  assumes "header_accepted 7 (resp_header r)"
  shows "check_srep_signature_draft14 E r bs =
    (if 68 + unat (hdr_offsets (resp_header r) ! 4) > length bs
     then Err (BadSignature ''SREP offset extends beyond response bytes'')
     else if ed_verify E (dele_public_key (cert_delegation (resp_cert r)))
               (srep_prefix (srep_version (resp_srep r)) @ signed_window14 r bs) (resp_signature r)
     then Ok () else Err (BadSignature ''signature on SREP is invalid''))"
proof -
  have "sorted (hdr_offsets (resp_header r))" "length (hdr_offsets (resp_header r)) = 6"
    using assms by (auto simp: header_accepted_def)
  then have "hdr_offsets (resp_header r) ! 3 \<le> hdr_offsets (resp_header r) ! 4" by (simp add: sorted_nth_mono)
  then show ?thesis
    by (auto simp: check_srep_signature_draft14_def verify_srep_signature_def slice_of_def signed_window14_def
        Let_def word_le_nat_alt)
qed

lemma check_srep08_run:
  assumes "header_accepted 6 (resp08_header r)"
  shows "check_srep_signature_draft08 E r bs =
    (if 60 + unat (hdr_offsets (resp08_header r) ! 3) > length bs
     then Err (BadSignature ''SREP offset extends beyond response bytes'')
     else if ed_verify E (dele_public_key (cert_delegation (resp08_cert r)))
               (srep_prefix RfcDraft08 @ signed_window08 r bs) (resp08_signature r)
     then Ok () else Err (BadSignature ''signature on SREP is invalid''))"
proof -
  have "sorted (hdr_offsets (resp08_header r))" "length (hdr_offsets (resp08_header r)) = 5"
    using assms by (auto simp: header_accepted_def)
  then have "hdr_offsets (resp08_header r) ! 2 \<le> hdr_offsets (resp08_header r) ! 3" by (simp add: sorted_nth_mono)
  then show ?thesis
    by (auto simp: check_srep_signature_draft08_def verify_srep_signature_def slice_of_def signed_window08_def
        Let_def word_le_nat_alt)
qed

lemma validate14_iff:
  assumes "header_accepted 7 (resp_header r)" "cert_valid (resp_cert r)"
  shows "validate_draft14 E H key req r bs = Ok t \<longleftrightarrow>
      (let s = resp_srep r; c = resp_cert r; d = cert_delegation c in
       t = srep_midpoint s \<and>
       (\<forall>pk. key = Some pk \<longrightarrow> ed_verify E pk (dele_prefix (srep_version s) @ dele_enc d) (cert_signature c)) \<and>
       srep_version s \<in> set (srep_supported_versions s) \<and>
       dele_min_time d \<le> t \<and> t \<le> dele_max_time d \<and> srep_radius s \<noteq> 0 \<and>
       root_from_paths H (unat (resp_index r)) req (resp_path r) = srep_merkle_root s \<and>
       68 + unat (hdr_offsets (resp_header r) ! 4) \<le> length bs \<and>
       ed_verify E (dele_public_key d) (srep_prefix (srep_version s) @ signed_window14 r bs) (resp_signature r))"
    "validate_draft14 E H key req r bs \<noteq> Panic"
  using assms
  by (auto simp: validate_draft14_def check_dele_run check_srep14_run check_vers_contains_ver_def check_midpoint_inner_def
      check_radius_def check_merkle_proof_draft14_def check_merkle_proof_inner_def is_supported_def and_then_Ok_iff
      Let_def split: option.splits if_splits)

lemma validate08_iff:
  assumes "header_accepted 6 (resp08_header r)" "cert_valid (resp08_cert r)"
  shows "validate_draft08 E H key req r bs = Ok t \<longleftrightarrow>
      (let s = resp08_srep r; c = resp08_cert r; d = cert_delegation c in
       t = srep08_midpoint s \<and>
       (\<forall>pk. key = Some pk \<longrightarrow> ed_verify E pk (dele_prefix RfcDraft08 @ dele_enc d) (cert_signature c)) \<and>
       dele_min_time d \<le> t \<and> t \<le> dele_max_time d \<and> srep08_radius s \<noteq> 0 \<and> FRAMED_NONCE_OFFSET + 32 \<le> length req \<and>
       root_from_paths H (unat (resp08_index r)) (take 32 (drop FRAMED_NONCE_OFFSET req)) (resp08_path r) = srep08_merkle_root s \<and>
       60 + unat (hdr_offsets (resp08_header r) ! 3) \<le> length bs \<and>
       ed_verify E (dele_public_key d) (srep_prefix RfcDraft08 @ signed_window08 r bs) (resp08_signature r))"
    "validate_draft08 E H key req r bs \<noteq> Panic"
  using assms
  by (auto simp: validate_draft08_def check_dele_run check_srep08_run check_midpoint_inner_def slice_of_def
      check_radius_def check_merkle_proof_draft08_def check_merkle_proof_inner_def and_then_Ok_iff
      Let_def split: option.splits if_splits)

section \<open>Frames of well-formed responses\<close>

lemma drop_frame: "drop (12 + n) (frame_enc bs) = drop n bs"
  by (simp add: frame_enc_def)

lemma resp_ok_window:
  assumes "resp_ok r"
  shows "signed_window14 r (frame_enc (resp_enc r)) = srep_enc (resp_srep r)"
    "68 + unat (hdr_offsets (resp_header r) ! 4) \<le> length (frame_enc (resp_enc r))"
proof -
  let ?pl = "path_wire_size (resp_path r)" and ?sl = "srep_wire_size (resp_srep r)"
  have f: "resp_fields_ok r" and h: "resp_header r = header_of (resp_offsets ?pl ?sl) resp_tags"
    and v: "path_ok (resp_path r)" "srep_valid (resp_srep r)" "length (resp_signature r) = 64" "length (resp_nonce r) = 32"
    using assms by (auto simp: resp_ok_def resp_fields_ok_def sized_def)
  have pl: "?pl = length (paths (resp_path r))" "?pl \<le> 1024" using path_wire_size_ok [OF v(1)] v(1) by simp_all
  have sl: "?sl = length (srep_enc (resp_srep r))" "?sl \<le> 216"
    using srep_versions_bound [OF v(2)] srep_wire_size_valid [OF v(2)] srep_message.enc_length [OF v(2)] by auto
  have o: "unat (hdr_offsets (resp_header r) ! 3) = 100 + ?pl" "unat (hdr_offsets (resp_header r) ! 4) = 100 + ?pl + ?sl"
    using pl(2) sl(2) by (simp_all add: h del: of_nat_add)
  have "drop (68 + (100 + ?pl)) (frame_enc (resp_enc r)) = drop (56 + (100 + ?pl)) (resp_enc r)"
    using drop_frame [of "56 + (100 + ?pl)"] by simp
  also have "\<dots> = drop (100 + ?pl) (resp_body r)" using resp_ok_header(2) [OF assms] by (simp add: resp_enc_def)
  also have "\<dots> = srep_enc (resp_srep r) @ cert_enc (resp_cert r) @ u32_to_le_bytes (resp_index r)"
    using v(3,4) by (simp add: resp_body_def pl(1) del: length_paths)
  finally show "signed_window14 r (frame_enc (resp_enc r)) = srep_enc (resp_srep r)"
    unfolding signed_window14_def Let_def o by (simp add: sl(1))
  show "68 + unat (hdr_offsets (resp_header r) ! 4) \<le> length (frame_enc (resp_enc r))"
    using o(2) length_resp_body [OF f] resp_ok_header(2) [OF assms] by (simp add: resp_enc_def FRAME_OVERHEAD_def)
qed

lemma resp08_ok_window:
  assumes "resp08_ok r"
  shows "signed_window08 r (frame_enc (resp08_enc r)) = srep08_enc (resp08_srep r)"
    "60 + unat (hdr_offsets (resp08_header r) ! 3) \<le> length (frame_enc (resp08_enc r))"
proof -
  let ?pl = "path_wire_size (resp08_path r)"
  have f: "resp08_fields_ok r" and h: "resp08_header r = header_of (resp08_offsets ?pl) resp08_tags"
    and v: "path_ok (resp08_path r)" "srep08_valid (resp08_srep r)" "length (resp08_signature r) = 64"
    using assms by (auto simp: resp08_ok_def resp08_fields_ok_def sized_def)
  have pl: "?pl = length (paths (resp08_path r))" "?pl \<le> 1024" using path_wire_size_ok [OF v(1)] v(1) by simp_all
  have sl: "length (srep08_enc (resp08_srep r)) = 68" using v(2) by simp
  have o: "unat (hdr_offsets (resp08_header r) ! 2) = 68 + ?pl" "unat (hdr_offsets (resp08_header r) ! 3) = 136 + ?pl"
    using pl(2) by (simp_all add: h del: of_nat_add)
  have "drop (60 + (68 + ?pl)) (frame_enc (resp08_enc r)) = drop (48 + (68 + ?pl)) (resp08_enc r)"
    using drop_frame [of "48 + (68 + ?pl)"] by simp
  also have "\<dots> = drop (68 + ?pl) (resp08_body r)" using resp08_ok_header(2) [OF assms] by (simp add: resp08_enc_def)
  also have "\<dots> = srep08_enc (resp08_srep r) @ cert_enc (resp08_cert r) @ u32_to_le_bytes (resp08_index r)"
    using v(3) by (simp add: resp08_body_def pl(1) del: length_paths)
  finally show "signed_window08 r (frame_enc (resp08_enc r)) = srep08_enc (resp08_srep r)"
    unfolding signed_window08_def Let_def o by (simp add: sl)
  show "60 + unat (hdr_offsets (resp08_header r) ! 3) \<le> length (frame_enc (resp08_enc r))"
    using o(2) length_resp08_body [OF f] resp08_ok_header(2) [OF assms] by (simp add: resp08_enc_def FRAME_OVERHEAD_def)
qed

section \<open>Forging the time\<close>

text \<open>A response with a chosen SREP and an empty path, and the header that points SIG's window at the
  bytes appended behind it.\<close>

definition forged_response :: "response \<Rightarrow> signed_response \<Rightarrow> response" where
  "forged_response r s = resp_default\<lparr>resp_signature := resp_signature r, resp_cert := resp_cert r, resp_srep := s\<rparr>"

definition forged_header :: "signed_response \<Rightarrow> header" where
  "forged_header genuine =
     header_of (map of_nat [64, 96, 348, 348, 348 + srep_wire_size genuine, 348 + srep_wire_size genuine]) resp_tags"

lemma nth_numeral_Cons: "(x # xs) ! numeral k = xs ! (pred_numeral k)"
  by (simp add: numeral_eq_Suc)

lemma forged_parse:
  assumes r: "resp_ok r" and s: "srep_valid s" "length (srep_supported_versions s) = 1"
  defines "g \<equiv> srep_enc (resp_srep r)"
  defines "bs \<equiv> frame_enc (header_enc (forged_header (resp_srep r)) @ resp_body (forged_response r s) @ g)"
  defines "f \<equiv> (forged_response r s)\<lparr>resp_header := forged_header (resp_srep r)\<rparr>"
  shows "parse (from_frame (resp_from_wire p)) bs = Ok f" "header_accepted 7 (resp_header f)"
    "signed_window14 f bs = g" "68 + unat (hdr_offsets (resp_header f) ! 4) \<le> length bs" "length bs \<le> 1024"
proof -
  let ?n = "srep_wire_size (resp_srep r)"
  have v: "srep_valid (resp_srep r)" "length (resp_signature r) = 64" "cert_valid (resp_cert r)"
    using r by (auto simp: resp_ok_def resp_fields_ok_def sized_def)
  have n: "length g = ?n" "?n \<le> 216" "?n mod 4 = 0"
    using srep_versions_bound [OF v(1)] srep_wire_size_valid [OF v(1)] srep_message.enc_length [OF v(1)] by (auto simp: g_def)
  have ff: "resp_fields_ok (forged_response r s)"
    using v s by (simp add: forged_response_def resp_default_def resp_fields_ok_def path_ok_ops sized_def)
  have pz: "path_wire_size (resp_path (forged_response r s)) = 0"
    by (simp add: forged_response_def resp_default_def path_default_def path_wire_size_def)
  have lb: "length (resp_body (forged_response r s)) = 348"
    using length_resp_body [OF ff] srep_wire_size_valid [OF s(1)] s(2) pz by (simp add: forged_response_def)
  have hv: "header_accepted 7 (forged_header (resp_srep r))"
    unfolding forged_header_def by (rule header_valid_nat) (use n in \<open>auto simp: resp_tags_sorted mod_eq_0_iff_dvd\<close>)
  have ho: "hdr_offsets (forged_header (resp_srep r)) = map of_nat [64, 96, 348, 348, 348 + ?n, 348 + ?n]"
    "hdr_tags (forged_header (resp_srep r)) = resp_tags" by (simp_all add: forged_header_def header_of_def)
  have o: "unat (hdr_offsets (forged_header (resp_srep r)) ! 3) = 348" "unat (hdr_offsets (forged_header (resp_srep r)) ! 4) = 348 + ?n"
    "unat (hdr_offsets (forged_header (resp_srep r)) ! 3 - hdr_offsets (forged_header (resp_srep r)) ! 2) = 0"
    using n(2) by (simp_all add: ho nth_numeral_Cons del: of_nat_add)
  have b: "check_offset_bounds (forged_header (resp_srep r)) (length (resp_body (forged_response r s)) + length g) = Ok ()"
    by (rule check_bounds_in) (use n lb in \<open>simp_all add: ho del: of_nat_add\<close>)
  have canon: "resp_canon (forged_response r s) = forged_response r s"
    using path_valid_default by (simp add: resp_canon_def forged_response_def resp_default_def path_valid_def)
  have lh: "length (header_enc (forged_header (resp_srep r))) = 56" using length_header_enc [OF hv] by (simp add: header_wire_size_def)
  note rd = resp_read_gen [OF ff hv ho(2) b, of p, unfolded canon o(3) pz]
  show "header_accepted 7 (resp_header f)" using hv by (simp add: f_def)
  show "length bs \<le> 1024" "68 + unat (hdr_offsets (resp_header f) ! 4) \<le> length bs"
    using n lb lh o(2) by (simp_all add: bs_def f_def FRAME_OVERHEAD_def)
  have "drop (68 + 348) bs = drop (56 + 348) (header_enc (forged_header (resp_srep r)) @ resp_body (forged_response r s) @ g)"
    unfolding bs_def using drop_frame [of "56 + 348"] by simp
  also have "\<dots> = g" using lh lb by simp
  finally show "signed_window14 f bs = g"
    unfolding signed_window14_def Let_def using o n(1) by (simp add: f_def)
  show "parse (from_frame (resp_from_wire p)) bs = Ok f"
    using n lb lh readsD [OF rd, of "take FRAME_OVERHEAD bs"]
      from_frame_run [of "header_enc (forged_header (resp_srep r)) @ resp_body (forged_response r s) @ g" "resp_from_wire p" "[]" "[]"]
    by (auto simp: parse_Ok_iff cursor_new_at bs_def f_def MINIMUM_FRAME_SIZE_def)
qed

section \<open>Honest responses\<close>

lemma parse_frame14:
  assumes "resp_ok r"
  shows "parse (from_frame (resp_from_wire p)) (frame_enc (resp_enc r)) = Ok (resp_canon r)"
proof -
  have v: "resp_valid (resp_canon r)" and e: "resp_enc (resp_canon r) = resp_enc r" using resp_canon_valid assms by auto
  have ok: "resp_ok (resp_canon r)" using v by (simp add: resp_valid_def)
  have "MINIMUM_FRAME_SIZE \<le> length (resp_enc r)" "length (resp_enc r) < 2 ^ 32"
    using assms resp_ok_header(2) [OF assms] path_wire_size_ok [of "resp_path r"] srep_versions_bound [of "resp_srep r"]
      srep_wire_size_valid [of "resp_srep r"] length_resp_body [of r]
    by (auto simp: resp_enc_def resp_ok_def resp_fields_ok_def MINIMUM_FRAME_SIZE_def)
  then show ?thesis using resp_message.frame_round_trip [OF v, of p] e length_resp_enc [OF ok] by simp
qed

lemma parse_frame08:
  assumes "resp08_ok r"
  shows "parse (from_frame (resp08_from_wire p)) (frame_enc (resp08_enc r)) = Ok (resp08_canon r)"
proof -
  have v: "resp08_valid (resp08_canon r)" and e: "resp08_enc (resp08_canon r) = resp08_enc r" using resp08_canon_valid assms by auto
  have ok: "resp08_ok (resp08_canon r)" using v by (simp add: resp08_valid_def)
  have "MINIMUM_FRAME_SIZE \<le> length (resp08_enc r)" "length (resp08_enc r) < 2 ^ 32"
    using assms resp08_ok_header(2) [OF assms] path_wire_size_ok [of "resp08_path r"] length_resp08_body [of r]
    by (auto simp: resp08_enc_def resp08_ok_def resp08_fields_ok_def MINIMUM_FRAME_SIZE_def)
  then show ?thesis using resp08_message.frame_round_trip [OF v, of p] e length_resp08_enc [OF ok] by simp
qed

text \<open>A response signed by a delegated key within its term is accepted.\<close>

lemma honest14_accepted:
  assumes E: "ed25519_ok E" and r: "resp_ok r" and c: "cert_delegates E v pk (resp_cert r) (ed_public E sk)"
    and s: "resp_srep r = srep_make v radi now [v] root" "radi \<noteq> 0"
    and sg: "resp_signature r = ed_sign E sk (srep_prefix v @ srep_enc (resp_srep r))"
    and t: "dele_min_time (cert_delegation (resp_cert r)) \<le> now" "now \<le> dele_max_time (cert_delegation (resp_cert r))"
    and m: "root_from_paths H (unat (resp_index r)) req (resp_path r) = root"
  shows "validate_draft14 E H (Some pk) req (resp_canon r) (frame_enc (resp_enc r)) = Ok now"
proof -
  have f: "resp_header (resp_canon r) = resp_header r" "resp_cert (resp_canon r) = resp_cert r"
    "resp_srep (resp_canon r) = resp_srep r" "resp_signature (resp_canon r) = resp_signature r"
    "resp_index (resp_canon r) = resp_index r" "signed_window14 (resp_canon r) = signed_window14 r"
    by (simp_all add: resp_canon_def signed_window14_def fun_eq_iff)
  have "paths (resp_path (resp_canon r)) = paths (resp_path r)"
    using r by (simp add: resp_canon_def resp_ok_def resp_fields_ok_def path_valid_canon)
  note mp = root_from_paths_cong [OF this, of H "unat (resp_index r)" req]
  have h: "header_accepted 7 (resp_header (resp_canon r))" "cert_valid (resp_cert (resp_canon r))"
    using resp_ok_header(1) [OF r] r by (simp_all add: f resp_ok_def resp_fields_ok_def)
  show ?thesis
    unfolding validate14_iff(1) [OF h] Let_def f mp resp_ok_window(1) [OF r]
    using c s t m resp_ok_window(2) [OF r] ed25519_lengths(3) [OF E, of sk] sg
    by (simp add: cert_delegates_def)
qed

lemma honest08_accepted:
  assumes E: "ed25519_ok E" and r: "resp08_ok r" and c: "cert_delegates E RfcDraft08 pk (resp08_cert r) (ed_public E sk)"
    and s: "resp08_srep r = srep08_make radi now root" "radi \<noteq> 0"
    and sg: "resp08_signature r = ed_sign E sk (srep_prefix RfcDraft08 @ srep08_enc (resp08_srep r))"
    and t: "dele_min_time (cert_delegation (resp08_cert r)) \<le> now" "now \<le> dele_max_time (cert_delegation (resp08_cert r))"
    and q: "FRAMED_NONCE_OFFSET + 32 \<le> length req"
    and m: "root_from_paths H (unat (resp08_index r)) (take 32 (drop FRAMED_NONCE_OFFSET req)) (resp08_path r) = root"
  shows "validate_draft08 E H (Some pk) req (resp08_canon r) (frame_enc (resp08_enc r)) = Ok now"
proof -
  have f: "resp08_header (resp08_canon r) = resp08_header r" "resp08_cert (resp08_canon r) = resp08_cert r"
    "resp08_srep (resp08_canon r) = resp08_srep r" "resp08_signature (resp08_canon r) = resp08_signature r"
    "resp08_index (resp08_canon r) = resp08_index r" "signed_window08 (resp08_canon r) = signed_window08 r"
    by (simp_all add: resp08_canon_def signed_window08_def fun_eq_iff)
  have "paths (resp08_path (resp08_canon r)) = paths (resp08_path r)"
    using r by (simp add: resp08_canon_def resp08_ok_def resp08_fields_ok_def path_valid_canon)
  note mp = root_from_paths_cong [OF this, of H "unat (resp08_index r)" "take 32 (drop FRAMED_NONCE_OFFSET req)"]
  have h: "header_accepted 6 (resp08_header (resp08_canon r))" "cert_valid (resp08_cert (resp08_canon r))"
    using resp08_ok_header(1) [OF r] r by (simp_all add: f resp08_ok_def resp08_fields_ok_def)
  show ?thesis
    unfolding validate08_iff(1) [OF h] Let_def f mp resp08_ok_window(1) [OF r]
    using c s t m q resp08_ok_window(2) [OF r] ed25519_lengths(3) [OF E, of sk] sg
    by (simp add: cert_delegates_def srep08_make_def)
qed

section \<open>Causality lemmas\<close>

text \<open>The bounds of a measurement neither underflow nor overflow.\<close>

definition bounds_ok :: "'addr measurement \<Rightarrow> bool" where
  "bounds_ok m \<longleftrightarrow> unat (radius m) \<le> unat (midpoint m) \<and> unat (midpoint m) + unat (radius m) < 2 ^ 64"

definition violates :: "'addr measurement \<Rightarrow> 'addr measurement \<Rightarrow> bool" where
  "violates mi mj \<longleftrightarrow> int (unat (midpoint mi)) - int (unat (radius mi)) > int (unat (midpoint mj)) + int (unat (radius mj))"

lemma unat_radius: "unat (ucast (radius m) :: u64) = unat (radius m)"
proof -
  have "unat (radius m) < 2 ^ 32" using unsigned_less [of "radius m", where 'a = nat] by simp
  then show ?thesis by (simp add: unsigned_ucast_eq take_bit_nat_eq_self)
qed

lemma bounds_run:
  assumes "bounds_ok m"
  shows "lower_bound p m = Ok (midpoint m - ucast (radius m))" "upper_bound p m = Ok (midpoint m + ucast (radius m))"
    "unat (midpoint m - ucast (radius m) :: u64) = unat (midpoint m) - unat (radius m)"
    "unat (midpoint m + ucast (radius m) :: u64) = unat (midpoint m) + unat (radius m)"
proof -
  have "(ucast (radius m) :: u64) \<le> midpoint m" using assms unat_radius [of m] by (simp add: bounds_ok_def word_le_nat_alt)
  then show "lower_bound p m = Ok (midpoint m - ucast (radius m))"
    "unat (midpoint m - ucast (radius m) :: u64) = unat (midpoint m) - unat (radius m)"
    by (simp_all add: lower_bound_def unat_sub unat_radius)
  show "upper_bound p m = Ok (midpoint m + ucast (radius m))"
    "unat (midpoint m + ucast (radius m) :: u64) = unat (midpoint m) + unat (radius m)"
    using assms by (simp_all add: upper_bound_def bounds_ok_def unat_radius unat_word_ariths)
qed

definition violation_of :: "'addr measurement \<Rightarrow> 'addr measurement \<Rightarrow> 'addr causality_violation" where
  "violation_of mi mj = \<lparr>cv_measurement_i = mi, cv_measurement_j = mj,
     cv_lower_bound_i = midpoint mi - ucast (radius mi), cv_upper_bound_j = midpoint mj + ucast (radius mj)\<rparr>"

lemma violates_iff:
  assumes "bounds_ok mi" "bounds_ok mj"
  shows "midpoint mj + ucast (radius mj) < midpoint mi - ucast (radius mi) \<longleftrightarrow> violates mi mj"
proof -
  have "unat (radius mi) \<le> unat (midpoint mi)" using assms(1) by (simp add: bounds_ok_def)
  then show ?thesis
    unfolding word_less_nat_alt bounds_run(3) [OF assms(1)] bounds_run(4) [OF assms(2)] violates_def by linarith
qed

lemma causality_from_run:
  assumes "bounds_ok mi" "\<forall>m\<in>set ms. bounds_ok m"
  shows "causality_from p mi ms = Ok (map (violation_of mi) (filter (violates mi) ms))"
  using assms(2)
proof (induction ms)
  case (Cons mj ms)
  then have j: "bounds_ok mj" by simp
  show ?case using Cons violates_iff [OF assms(1) j]
    by (simp add: bounds_run(1) [OF assms(1)] bounds_run(2) [OF j] causality_violation_new_def violation_of_def)
qed simp

text \<open>All pairs of an earlier and a later element, in the order of the two loops.\<close>

fun ordered_pairs :: "'a list \<Rightarrow> ('a \<times> 'a) list" where
  "ordered_pairs [] = []"
| "ordered_pairs (x # xs) = map (Pair x) xs @ ordered_pairs xs"

lemma ordered_pairs_iff:
  "(a, b) \<in> set (ordered_pairs xs) \<longleftrightarrow> (\<exists>i j. i < j \<and> j < length xs \<and> a = xs ! i \<and> b = xs ! j)"
proof (induction xs)
  case (Cons x xs)
  have "(\<exists>i j. i < j \<and> j < length (x # xs) \<and> a = (x # xs) ! i \<and> b = (x # xs) ! j) \<longleftrightarrow>
      (\<exists>j. j < length xs \<and> a = x \<and> b = xs ! j) \<or> (\<exists>i j. i < j \<and> j < length xs \<and> a = xs ! i \<and> b = xs ! j)"
    (is "?l \<longleftrightarrow> ?r")
  proof
    assume ?l
    then obtain i j where "i < j" "j < length (x # xs)" "a = (x # xs) ! i" "b = (x # xs) ! j" by blast
    then show ?r by (cases i; cases j) auto
  next
    assume ?r
    then show ?l
    proof
      assume "\<exists>j. j < length xs \<and> a = x \<and> b = xs ! j"
      then obtain j where "j < length xs" "a = x" "b = xs ! j" by blast
      then show ?l by (intro exI [of _ 0] exI [of _ "Suc j"]) simp
    next
      assume "\<exists>i j. i < j \<and> j < length xs \<and> a = xs ! i \<and> b = xs ! j"
      then obtain i j where "i < j" "j < length xs" "a = xs ! i" "b = xs ! j" by blast
      then show ?l by (intro exI [of _ "Suc i"] exI [of _ "Suc j"]) simp
    qed
  qed
  moreover have "(a, b) \<in> set (map (Pair x) xs) \<longleftrightarrow> (\<exists>j. j < length xs \<and> a = x \<and> b = xs ! j)"
    by (auto simp: in_set_conv_nth intro!: imageI)
  ultimately show ?case unfolding ordered_pairs.simps set_append Un_iff Cons by blast
qed simp

lemma causality_loop_run:
  assumes "\<forall>m\<in>set ms. bounds_ok m"
  shows "causality_loop p ms = Ok (map (\<lambda>(mi, mj). violation_of mi mj) (filter (\<lambda>(mi, mj). violates mi mj) (ordered_pairs ms)))"
  using assms
proof (induction ms)
  case (Cons m ms)
  have "map (\<lambda>(mi, mj). violation_of mi mj) (filter (\<lambda>(mi, mj). violates mi mj) (map (Pair m) ms))
      = map (violation_of m) (filter (violates m) ms)" by (simp add: filter_map comp_def)
  then show ?case using Cons by (simp add: causality_from_run)
qed simp

lemma validate_causality_run:
  assumes "\<forall>m\<in>set ms. bounds_ok m"
  shows "validate_causality p ms = Ok (map (\<lambda>(mi, mj). violation_of mi mj) (filter (\<lambda>(mi, mj). violates mi mj) (ordered_pairs ms)))"
proof (cases "length ms < 2")
  case True
  then have "ordered_pairs ms = []" by (cases ms; cases "tl ms") auto
  then show ?thesis using True by (simp add: validate_causality_def)
qed (simp add: validate_causality_def causality_loop_run [OF assms])

definition sample_response08 :: response_draft08 where
  "sample_response08 = resp08_set_sig (replicate 64 1)
     (resp08_set_srep (srep08_make 5 1000 (replicate 32 3)) (resp08_set_cert sample_cert resp08_default))"

lemma sample_response08_ok: "resp08_ok sample_response08"
  unfolding sample_response08_def
  by (intro common08_ok) (simp_all add: sample_cert_def cert_new_valid dele_new_valid srep08_make_valid)

section \<open>Properties\<close>

text \<open>C3. Exactly what a client that knows the server's long-term key accepts, draft-14. For a response
  parsed from the received bytes, validation returns the midpoint, exactly when the long-term key signed
  the delegation, the version is among the supported ones, the midpoint lies in the delegation's term,
  the radius is not zero, the path leads from the request to the root, and the delegated key signed
  the bytes of the frame between the offsets 3 and 4 of the header. On everything that parses,
  validation never panics.\<close>

theorem validate_draft14_exact:
  assumes "parse (from_frame (resp_from_wire p)) bs = Ok r"
  shows "(validate_draft14 E H (Some pk) req r bs = Ok t \<longleftrightarrow>
      (let s = resp_srep r; c = resp_cert r; d = cert_delegation c in
       t = srep_midpoint s \<and>
       ed_verify E pk (dele_prefix (srep_version s) @ dele_enc d) (cert_signature c) \<and>
       srep_version s \<in> set (srep_supported_versions s) \<and>
       dele_min_time d \<le> t \<and> t \<le> dele_max_time d \<and> srep_radius s \<noteq> 0 \<and>
       root_from_paths H (unat (resp_index r)) req (resp_path r) = srep_merkle_root s \<and>
       68 + unat (hdr_offsets (resp_header r) ! 4) \<le> length bs \<and>
       ed_verify E (dele_public_key d) (srep_prefix (srep_version s) @ signed_window14 r bs) (resp_signature r)))
     \<and> validate_draft14 E H key req r bs \<noteq> Panic"
proof -
  have "header_accepted 7 (resp_header r)" "cert_valid (resp_cert r)" using parse_yields [OF resp_yields assms] by (auto simp: resp_wf_def)
  from validate14_iff [OF this] show ?thesis by (simp add: Let_def)
qed

theorem validate_draft14_exact_witness:
  "validate_draft14 toy_ed toy_hash (Some (replicate 32 1)) [1, 2] (resp_canon sample_response)
     (frame_enc (resp_enc sample_response)) \<noteq> Panic"
  using validate_draft14_exact [OF parse_frame14 [OF sample_response_ok, of Release]] by blast

text \<open>C14. Exactly what a client accepts, draft-08: the leaf is the nonce at its place in the framed
  request, and the signed bytes are those between the offsets 2 and 3. On everything that parses,
  validation never panics.\<close>

theorem validate_draft08_exact:
  assumes "parse (from_frame (resp08_from_wire p)) bs = Ok r"
  shows "(validate_draft08 E H (Some pk) req r bs = Ok t \<longleftrightarrow>
      (let s = resp08_srep r; c = resp08_cert r; d = cert_delegation c in
       t = srep08_midpoint s \<and>
       ed_verify E pk (dele_prefix RfcDraft08 @ dele_enc d) (cert_signature c) \<and>
       dele_min_time d \<le> t \<and> t \<le> dele_max_time d \<and> srep08_radius s \<noteq> 0 \<and> FRAMED_NONCE_OFFSET + 32 \<le> length req \<and>
       root_from_paths H (unat (resp08_index r)) (take 32 (drop FRAMED_NONCE_OFFSET req)) (resp08_path r) = srep08_merkle_root s \<and>
       60 + unat (hdr_offsets (resp08_header r) ! 3) \<le> length bs \<and>
       ed_verify E (dele_public_key d) (srep_prefix RfcDraft08 @ signed_window08 r bs) (resp08_signature r)))
     \<and> validate_draft08 E H key req r bs \<noteq> Panic"
proof -
  have "header_accepted 6 (resp08_header r)" "cert_valid (resp08_cert r)" using parse_yields [OF resp08_yields assms] by (auto simp: resp08_wf_def)
  from validate08_iff [OF this] show ?thesis by (simp add: Let_def)
qed

theorem validate_draft08_exact_witness:
  "validate_draft08 toy_ed toy_hash (Some (replicate 32 1)) [1, 2] (resp08_canon sample_response08)
     (frame_enc (resp08_enc sample_response08)) \<noteq> Panic"
  using validate_draft08_exact [OF parse_frame08 [OF sample_response08_ok, of Release]] by blast

text \<open>C5. The signature does not bind the time that is returned. From any one response a client accepted,
  anyone can make a frame that parses and that the same client accepts as the answer to any other request,
  with any midpoint in the term of the delegation. The parser reads SREP behind the path, the signature
  check takes the bytes between two offsets of the header, and nothing ties the one to the other: the
  frame carries a chosen SREP where it is parsed and the genuine one behind the message, where the offsets
  point.\<close>

theorem srep_forgery_draft14:
  assumes "sha512_ok H" "resp_ok r" "validate_draft14 E H (Some pk) req r (frame_enc (resp_enc r)) = Ok t0"
    and "dele_min_time (cert_delegation (resp_cert r)) \<le> t" "t \<le> dele_max_time (cert_delegation (resp_cert r))"
  shows "\<exists>bs f. parse (from_frame (resp_from_wire p)) bs = Ok f \<and> length bs \<le> 1024 \<and>
           validate_draft14 E H (Some pk) req' f bs = Ok t"
proof -
  let ?v = "srep_version (resp_srep r)"
  define s where "s = srep_make ?v DEFAULT_RADI_SECONDS t [?v] (hash_leaf H req')"
  have s: "srep_valid s" "length (srep_supported_versions s) = 1"
    unfolding s_def using hashes_ok_leaves [OF assms(1), of "[req']"]
    by (auto intro!: srep_make_valid version_list_single simp: hashes_ok_def)
  note f = forged_parse [OF assms(2) s]
  let ?f = "(forged_response r s)\<lparr>resp_header := forged_header (resp_srep r)\<rparr>"
  have g: "header_accepted 7 (resp_header r)" "cert_valid (resp_cert r)"
    using resp_ok_header(1) [OF assms(2)] assms(2) by (simp_all add: resp_ok_def resp_fields_ok_def)
  note a = assms(3) [unfolded validate14_iff(1) [OF g] Let_def resp_ok_window(1) [OF assms(2)]]
  have c: "cert_valid (resp_cert ?f)" using g by (simp add: forged_response_def)
  have "root_from_paths H (unat (resp_index ?f)) req' (resp_path ?f) = hash_leaf H req'"
    by (simp add: forged_response_def resp_default_def root_from_paths_def path_elements_def paths_ops chunks.simps [of _ "[]"])
  then have "validate_draft14 E H (Some pk) req' ?f
      (frame_enc (header_enc (forged_header (resp_srep r)) @ resp_body (forged_response r s) @ srep_enc (resp_srep r))) = Ok t"
    unfolding validate14_iff(1) [OF f(2) c] Let_def f(3)
    using a f(4) assms(4,5) by (simp add: forged_response_def s_def DEFAULT_RADI_SECONDS_def)
  with f(1,5) show ?thesis by blast
qed

text \<open>A genuine response to a request at time 200, signed with the toy scheme.\<close>

definition genuine_cert :: certificate where
  "genuine_cert =
     (let d = dele_new (ed_public toy_ed (replicate 32 2)) 100 3600
      in cert_new (ed_sign toy_ed (replicate 32 1) (dele_prefix RfcDraft14 @ dele_enc d)) d)"

definition genuine_srep :: "bytes \<Rightarrow> signed_response" where
  "genuine_srep q = srep_make RfcDraft14 5 200 [RfcDraft14] (hash_leaf toy_hash q)"

definition genuine_response :: "bytes \<Rightarrow> response" where
  "genuine_response q =
     resp_set_sig (ed_sign toy_ed (replicate 32 2) (srep_prefix RfcDraft14 @ srep_enc (genuine_srep q)))
      (resp_set_srep (genuine_srep q) (resp_set_cert genuine_cert resp_default))"

lemma genuine_response_ok:
  "resp_ok (genuine_response q)" "resp_cert (genuine_response q) = genuine_cert"
  "validate_draft14 toy_ed toy_hash (Some (ed_public toy_ed (replicate 32 1))) q (genuine_response q)
     (frame_enc (resp_enc (genuine_response q))) = Ok 200"
  "resp_canon (genuine_response q) = genuine_response q" "length (resp_enc (genuine_response q)) = 404"
proof -
  let ?sk = "replicate 32 2" and ?d = "dele_new (ed_public toy_ed (replicate 32 2)) 100 3600"
  have d: "dele_valid ?d" by (intro dele_new_valid) (simp add: ed25519_lengths [OF toy_ed_ok])
  have cv: "cert_valid genuine_cert"
    unfolding genuine_cert_def Let_def by (intro cert_new_valid d) (simp add: ed25519_lengths [OF toy_ed_ok])
  have cf: "cert_delegation genuine_cert = ?d"
    "cert_signature genuine_cert = ed_sign toy_ed (replicate 32 1) (dele_prefix RfcDraft14 @ dele_enc ?d)"
    by (simp_all add: genuine_cert_def Let_def cert_new_def)
  have cd: "cert_delegates toy_ed RfcDraft14 (ed_public toy_ed (replicate 32 1)) genuine_cert (ed_public toy_ed ?sk)"
    unfolding cert_delegates_def cf using cv ed25519_lengths(3) [OF toy_ed_ok] by (simp add: dele_new_def)
  have sv: "srep_valid (genuine_srep q)"
    unfolding genuine_srep_def using hashes_ok_leaves [OF toy_hash_ok, of "[q]"]
    by (intro srep_make_valid version_list_single) (simp_all add: hashes_ok_def)
  note com = common14_ok [OF cv sv ed25519_lengths(2) [OF toy_ed_ok], of ?sk "srep_prefix RfcDraft14 @ srep_enc (genuine_srep q)",
    folded genuine_response_def]
  show "resp_ok (genuine_response q)" "resp_cert (genuine_response q) = genuine_cert" by (rule com(1), rule com(4))
  have f: "resp_path (genuine_response q) = path_default" "resp_index (genuine_response q) = 0"
    by (simp_all add: genuine_response_def resp_set_sig_def resp_set_srep_def resp_set_cert_def update_offsets_def
        Let_def resp_default_def)
  show canon: "resp_canon (genuine_response q) = genuine_response q"
    using path_valid_default f(1) by (simp add: resp_canon_def path_valid_def)
  show "length (resp_enc (genuine_response q)) = 404"
    using com(1,3) resp_ok_header(2) [OF com(1)] length_resp_body [of "genuine_response q"] f(1)
    by (simp add: resp_enc_def resp_ok_def genuine_srep_def srep_make_size path_wire_size_def path_default_def)
  have "root_from_paths toy_hash (unat (resp_index (genuine_response q))) q (resp_path (genuine_response q)) = hash_leaf toy_hash q"
    by (simp add: f root_from_paths_def path_elements_def paths_ops chunks.simps [of _ "[]"])
  from honest14_accepted [OF toy_ed_ok com(1) _ _ _ _ _ _ this, of RfcDraft14 _ ?sk 5 200] canon cd cf com
  show "validate_draft14 toy_ed toy_hash (Some (ed_public toy_ed (replicate 32 1))) q (genuine_response q)
     (frame_enc (resp_enc (genuine_response q))) = Ok 200"
    by (simp add: genuine_srep_def dele_new_def saturating_add_def)
qed

theorem srep_forgery_draft14_witness:
  "\<exists>bs f. parse (from_frame (resp_from_wire Release)) bs = Ok f \<and> length bs \<le> 1024 \<and>
     validate_draft14 toy_ed toy_hash (Some (ed_public toy_ed (replicate 32 1))) [9, 9] f bs = Ok 3000"
  by (rule srep_forgery_draft14 [OF toy_hash_ok genuine_response_ok(1,3)])
    (simp_all add: genuine_response_ok(2) genuine_cert_def Let_def cert_new_def dele_new_def saturating_add_def)

text \<open>C15. Causality: for measurements whose intervals stay within 64 bits, \<open>validate_causality\<close> returns
  and reports exactly the pairs of an earlier and a later measurement for which the earlier interval
  starts after the later one has ended, in order, with the two bounds; the check inside the constructor
  of a violation never fails.\<close>

theorem validate_causality_exact:
  assumes "\<forall>m\<in>set ms. bounds_ok m"
  shows "\<exists>vs. validate_causality p ms = (Ok vs :: ('e, _) outcome) \<and>
     vs = map (\<lambda>(mi, mj). violation_of mi mj) (filter (\<lambda>(mi, mj). violates mi mj) (ordered_pairs ms)) \<and>
     (\<forall>v. v \<in> set vs \<longleftrightarrow> (\<exists>i j. i < j \<and> j < length ms \<and> violates (ms ! i) (ms ! j) \<and> v = violation_of (ms ! i) (ms ! j)))"
proof -
  let ?vs = "map (\<lambda>(mi, mj). violation_of mi mj) (filter (\<lambda>(mi, mj). violates mi mj) (ordered_pairs ms))"
  have "v \<in> set ?vs \<longleftrightarrow> (\<exists>a b. (a, b) \<in> set (ordered_pairs ms) \<and> violates a b \<and> v = violation_of a b)" for v by force
  then have "v \<in> set ?vs \<longleftrightarrow> (\<exists>i j. i < j \<and> j < length ms \<and> violates (ms ! i) (ms ! j) \<and> v = violation_of (ms ! i) (ms ! j))" for v
    unfolding ordered_pairs_iff by blast
  moreover have "validate_causality p ms = (Ok ?vs :: ('e, _) outcome)" by (rule validate_causality_run [OF assms])
  ultimately show ?thesis by blast
qed

text \<open>A measurement with a given midpoint and radius.\<close>

definition sample_measurement :: "u64 \<Rightarrow> u32 \<Rightarrow> nat measurement" where
  "sample_measurement midp radi =
     \<lparr>ms_server = 0, ms_hostname = ''host'', ms_public_key = None, ms_request = request_new_draft14 (replicate 32 7),
      ms_response = resp_default\<lparr>resp_srep := srep_make RfcDraft14 radi midp [RfcDraft14] (replicate 32 0)\<rparr>,
      ms_rand_value = None, ms_prior_response = None\<rparr>"

lemma sample_measurement_fields [simp]: "midpoint (sample_measurement m r) = m" "radius (sample_measurement m r) = r"
  by (simp_all add: sample_measurement_def midpoint_def radius_def)

theorem validate_causality_exact_witness:
  "\<exists>vs. validate_causality Debug [sample_measurement 1000 5, sample_measurement 900 5] = (Ok vs :: (unit, _) outcome) \<and>
     vs = [violation_of (sample_measurement 1000 5) (sample_measurement 900 5)]"
  using validate_causality_exact [of "[sample_measurement 1000 5, sample_measurement 900 5]" Debug, where 'e = unit]
  by (simp add: bounds_ok_def violates_def)

text \<open>C26. The lower bound underflows: two measurements of the same time at which the midpoint is smaller
  than the radius are consistent, yet a debug build panics on them and a release build reports a
  causality violation.\<close>

theorem causality_underflow:
  assumes "unat (midpoint m) < unat (radius m)" "unat (midpoint m) + unat (radius m) < 2 ^ 32"
  shows "\<not> violates m m \<and> validate_causality Debug [m, m] = (Panic :: ('e, _) outcome) \<and>
     validate_causality Release [m, m] = (Ok [violation_of m m] :: ('e, _) outcome)"
proof -
  have lt: "midpoint m < ucast (radius m)" using assms(1) by (simp add: word_less_nat_alt unat_radius)
  have up: "unat (midpoint m + ucast (radius m) :: u64) = unat (midpoint m) + unat (radius m)"
    using assms(2) by (simp add: unat_word_ariths unat_radius)
  have lo: "unat (midpoint m - ucast (radius m) :: u64) = 2 ^ 64 + unat (midpoint m) - unat (radius m)"
    using assms by (simp add: unat_sub_if' unat_radius)
  have gt: "midpoint m + ucast (radius m) < midpoint m - ucast (radius m)"
    unfolding word_less_nat_alt up lo using assms by simp
  have d: "lower_bound Debug m = (Panic :: ('e, u64) outcome)" using lt by (simp add: lower_bound_def sub_word_def)
  have r: "lower_bound Release m = (Ok (midpoint m - ucast (radius m)) :: ('e, u64) outcome)"
    "upper_bound Release m = (Ok (midpoint m + ucast (radius m)) :: ('e, u64) outcome)"
    by (simp_all add: lower_bound_def upper_bound_def sub_word_Release add_word_Release)
  show ?thesis using d r gt
    by (simp add: validate_causality_def causality_violation_new_def violation_of_def violates_def)
qed

theorem causality_underflow_witness:
  "validate_causality Debug [sample_measurement 3 5, sample_measurement 3 5] = (Panic :: (unit, _) outcome)"
  using causality_underflow [of "sample_measurement 3 5", where 'e = unit] by simp

end
