(* ===== verification/Client.thy ===== *)
theory Client
  imports Validation Encoding
begin

text \<open>
  The client: \<^verbatim>\<open>common/src/crypto.rs\<close> (chained nonces and server commitments), the measurement
  builder of \<^verbatim>\<open>measurement.rs\<close>, single queries (\<^verbatim>\<open>client.rs\<close>) and chained measurement sequences over
  several servers (\<^verbatim>\<open>sequence.rs\<close>). The transport is an argument: how many bytes a send reports as sent
  and which datagram arrives after it. Random values and name resolution are arguments too.
\<close>

section \<open>Chaining\<close>

definition calculate_chained_nonce :: "hash_fn \<Rightarrow> response \<Rightarrow> bytes \<Rightarrow> ('e, nonce) outcome" where
  "calculate_chained_nonce H prior_response rand =
     and_then (expect (as_frame_bytes resp_wire_size resp_to_wire prior_response)) (\<lambda>frame.
     let chain_value = frame @ rand; digest = H chain_value in
     and_then (slice_of digest 0 32) (\<lambda>n. copy_array 32 n))"

definition make_srv_commitment :: "hash_fn \<Rightarrow> public_key \<Rightarrow> ('e, srv_commitment) outcome" where
  "make_srv_commitment H pub_key =
     (let data = HASH_PREFIX_SRV @ pub_key; digest = H data in
      and_then (slice_of digest 0 32) (\<lambda>d. copy_array 32 d))"

section \<open>Errors and measurements\<close>

datatype client_error =
    ServerTimeout
  | BadResponse error
  | BadPublicKey decode_error
  | ClientIoError string
  | ValidationFailed validation_error
  | InvalidConfiguration string
  | DnsLookupFailed string

record 'addr measurement_builder =
  mb_server :: "'addr option"
  mb_hostname :: "string option"
  mb_server_key :: "public_key option"
  mb_request :: "request option"
  mb_response :: "response option"
  mb_rand_value :: "bytes option"
  mb_prior_response :: "response option"

definition measurement_builder_new :: "'addr measurement_builder" where
  "measurement_builder_new =
     \<lparr>mb_server = None, mb_hostname = None, mb_server_key = None, mb_request = None, mb_response = None,
      mb_rand_value = None, mb_prior_response = None\<rparr>"

definition ok_or :: "'e \<Rightarrow> 'a option \<Rightarrow> ('e, 'a) outcome" where
  "ok_or e x = (case x of Some v \<Rightarrow> Ok v | None \<Rightarrow> Err e)"

definition measurement_build :: "'addr measurement_builder \<Rightarrow> (client_error, 'addr measurement) outcome" where
  "measurement_build b =
     and_then (ok_or (InvalidConfiguration ''server is required'') (mb_server b)) (\<lambda>server.
     and_then (ok_or (InvalidConfiguration ''request is required'') (mb_request b)) (\<lambda>req.
     and_then (ok_or (InvalidConfiguration ''response is required'') (mb_response b)) (\<lambda>resp.
     Ok \<lparr>ms_server = server,
         ms_hostname = (case mb_hostname b of Some h \<Rightarrow> h | None \<Rightarrow> ''unknown''),
         ms_public_key = mb_server_key b, ms_request = req, ms_response = resp,
         ms_rand_value = mb_rand_value b, ms_prior_response = mb_prior_response b\<rparr>)))"

section \<open>Transport\<close>

text \<open>One exchange with a server: the result of sending the given bytes, and the datagram that is received
  next. A receive call fills a buffer of 1024 bytes.\<close>

record 'addr exchange =
  ex_send :: "bytes \<Rightarrow> 'addr \<Rightarrow> (client_error, nat) outcome"
  ex_recv :: "bytes \<Rightarrow> 'addr \<Rightarrow> (client_error, bytes) outcome"

definition recv_into_buffer :: "'addr exchange \<Rightarrow> bytes \<Rightarrow> 'addr \<Rightarrow> (client_error, bytes) outcome" where
  "recv_into_buffer ex sent addr = and_then (ex_recv ex sent addr) (\<lambda>d. Ok (take 1024 d))"

section \<open>Clients\<close>

record 'addr client =
  cl_server :: 'addr
  cl_hostname :: string
  cl_validator :: response_validator
  cl_public_key :: "public_key option"
  cl_srv_commit :: "srv_commitment option"
  cl_protocol_version :: protocol_version

text \<open>\<open>ClientBuilder\<close> without its transport and timeout.\<close>

record 'addr client_builder =
  cb_server :: 'addr
  cb_hostname :: string
  cb_public_key :: "public_key option"
  cb_protocol_version :: protocol_version

definition client_builder_new :: "'addr \<Rightarrow> 'addr client_builder" where
  "client_builder_new server =
     \<lparr>cb_server = server, cb_hostname = ''unknown'', cb_public_key = None, cb_protocol_version = RfcDraft14\<rparr>"

definition client_build :: "hash_fn \<Rightarrow> 'addr client_builder \<Rightarrow> ('e, 'addr client) outcome" where
  "client_build H b =
     and_then (case cb_public_key b of
                 Some pk \<Rightarrow> and_then (make_srv_commitment H pk) (\<lambda>c. Ok (Some c))
               | None \<Rightarrow> Ok None) (\<lambda>srv_commit.
     and_then (case cb_public_key b of
                 Some pk \<Rightarrow> validator_new_with_key pk
               | None \<Rightarrow> Ok None) (\<lambda>validator.
     Ok \<lparr>cl_server = cb_server b, cl_hostname = cb_hostname b, cl_validator = validator,
         cl_public_key = cb_public_key b, cl_srv_commit = srv_commit,
         cl_protocol_version = cb_protocol_version b\<rparr>))"

definition client_new ::
  "hash_fn \<Rightarrow> codecs \<Rightarrow> (string \<Rightarrow> (client_error, 'addr list) outcome) \<Rightarrow> string \<Rightarrow> u16 \<Rightarrow> string option \<Rightarrow>
     (client_error, 'addr client) outcome" where
  "client_new H cs resolve hostname port pub_key =
     (let host_port = hostname @ CHR '':'' # show_nat (unat port) in
      and_then (resolve host_port) (\<lambda>addrs.
      and_then (case addrs of [] \<Rightarrow> Err (DnsLookupFailed host_port) | a # _ \<Rightarrow> Ok a) (\<lambda>addr.
      let b = (client_builder_new addr)\<lparr>cb_hostname := hostname\<rparr> in
      and_then (case pub_key of
                  Some k \<Rightarrow> and_then (map_err BadPublicKey (try_decode_key cs k)) (\<lambda>pk. Ok (b\<lparr>cb_public_key := Some pk\<rparr>))
                | None \<Rightarrow> Ok b) (\<lambda>b'.
      client_build H b'))))"

text \<open>\<open>rand\<close> is the nonce drawn when none is given.\<close>

definition create_request :: "bytes \<Rightarrow> nonce option \<Rightarrow> 'addr client \<Rightarrow> request" where
  "create_request rand nonce c =
     (let n = (case nonce of Some n \<Rightarrow> n | None \<Rightarrow> rand) in
      case cl_protocol_version c of
        RfcDraft08 \<Rightarrow> request_new_draft08 n
      | RfcDraft14 \<Rightarrow>
          (case cl_srv_commit c of
             Some sc \<Rightarrow> request_new_draft14_srv n sc
           | None \<Rightarrow> request_new_draft14 n))"

definition send_request :: "'addr exchange \<Rightarrow> request \<Rightarrow> 'addr client \<Rightarrow> (client_error, bytes) outcome" where
  "send_request ex req c =
     and_then (map_err BadResponse (as_frame_bytes request_wire_size request_to_wire req)) (\<lambda>request_bytes.
     and_then (ex_send ex request_bytes (cl_server c)) (\<lambda>count.
     if count \<noteq> length request_bytes then Err (InvalidConfiguration ''partial send'')
     else Ok request_bytes))"

text \<open>Parsing and validation, the same in \<open>Client::validate_response\<close> and \<open>MeasurementSequence::query\<close>.\<close>

definition parse_and_validate ::
  "profile \<Rightarrow> ed25519 \<Rightarrow> hash_fn \<Rightarrow> 'addr client \<Rightarrow> bytes \<Rightarrow> bytes \<Rightarrow> (client_error, response) outcome" where
  "parse_and_validate p E H c request_bytes response_bytes =
     (case cl_protocol_version c of
        RfcDraft08 \<Rightarrow>
          and_then (map_err BadResponse (parse (from_frame (resp08_from_wire p)) response_bytes)) (\<lambda>r.
          and_then (map_err ValidationFailed (validate_draft08 E H (cl_validator c) request_bytes r response_bytes)) (\<lambda>_.
          Ok (resp_from_draft08 r)))
      | RfcDraft14 \<Rightarrow>
          and_then (map_err BadResponse (parse (from_frame (resp_from_wire p)) response_bytes)) (\<lambda>r.
          and_then (map_err ValidationFailed (validate_draft14 E H (cl_validator c) request_bytes r response_bytes)) (\<lambda>_.
          Ok r)))"

definition validate_response ::
  "profile \<Rightarrow> ed25519 \<Rightarrow> hash_fn \<Rightarrow> 'addr client \<Rightarrow> request \<Rightarrow> bytes \<Rightarrow> bytes \<Rightarrow> (client_error, 'addr measurement) outcome" where
  "validate_response p E H c req request_bytes response_bytes =
     and_then (parse_and_validate p E H c request_bytes response_bytes) (\<lambda>resp.
     measurement_build
       (measurement_builder_new\<lparr>mb_server := Some (cl_server c), mb_hostname := Some (cl_hostname c),
          mb_server_key := cl_public_key c, mb_request := Some req, mb_response := Some resp,
          mb_rand_value := None, mb_prior_response := None\<rparr>))"

definition query_raw ::
  "profile \<Rightarrow> ed25519 \<Rightarrow> hash_fn \<Rightarrow> bytes \<Rightarrow> 'addr exchange \<Rightarrow> 'addr client \<Rightarrow>
     (client_error, (client_error, 'addr measurement) outcome \<times> bytes \<times> bytes) outcome" where
  "query_raw p E H rand ex c =
     (let req = create_request rand None c in
      and_then (send_request ex req c) (\<lambda>request_bytes.
      and_then (recv_into_buffer ex request_bytes (cl_server c)) (\<lambda>response_bytes.
      case validate_response p E H c req request_bytes response_bytes of
        Panic \<Rightarrow> Panic
      | result \<Rightarrow> Ok (result, request_bytes, response_bytes))))"

definition query ::
  "profile \<Rightarrow> ed25519 \<Rightarrow> hash_fn \<Rightarrow> bytes \<Rightarrow> 'addr exchange \<Rightarrow> 'addr client \<Rightarrow> (client_error, 'addr measurement) outcome" where
  "query p E H rand ex c = and_then (query_raw p E H rand ex c) (\<lambda>(result, _, _). result)"

section \<open>Measurement sequences\<close>

definition MIN_SERVERS :: nat where
  "MIN_SERVERS = 3"

definition DEFAULT_ROUNDS :: nat where
  "DEFAULT_ROUNDS = 2"

definition sequence_new :: "'addr client list \<Rightarrow> (client_error, 'addr client list) outcome" where
  "sequence_new clients =
     (if length clients < MIN_SERVERS
      then Err (InvalidConfiguration ''measurement sequence requires at least 3 servers (RFC section 10)'')
      else Ok clients)"

fun generate_nonce :: "hash_fn \<Rightarrow> bytes \<Rightarrow> response option \<Rightarrow> (client_error, nonce \<times> bytes option) outcome" where
  "generate_nonce H rand (Some prior) =
     and_then (calculate_chained_nonce H prior rand) (\<lambda>n. Ok (n, Some rand))"
| "generate_nonce H rand None = Ok (rand, None)"

definition sequence_query ::
  "profile \<Rightarrow> ed25519 \<Rightarrow> hash_fn \<Rightarrow> bytes \<Rightarrow> 'addr exchange \<Rightarrow> 'addr client \<Rightarrow> response option \<Rightarrow>
     (client_error, 'addr measurement) outcome" where
  "sequence_query p E H rand ex c prior =
     and_then (generate_nonce H rand prior) (\<lambda>(nonce, rand_value).
     and_then (case cl_protocol_version c of
                 RfcDraft08 \<Rightarrow> Ok (request_new_draft08 nonce)
               | RfcDraft14 \<Rightarrow>
                   (case cl_srv_commit c of
                      Some sc \<Rightarrow> Ok (request_new_draft14_srv nonce sc)
                    | None \<Rightarrow> Panic)) (\<lambda>req.
     and_then (map_err BadResponse (as_frame_bytes request_wire_size request_to_wire req)) (\<lambda>request_bytes.
     and_then (ex_send ex request_bytes (cl_server c)) (\<lambda>_.
     and_then (recv_into_buffer ex request_bytes (cl_server c)) (\<lambda>response_bytes.
     and_then (parse_and_validate p E H c request_bytes response_bytes) (\<lambda>resp.
     measurement_build
       (measurement_builder_new\<lparr>mb_server := Some (cl_server c), mb_hostname := Some (cl_hostname c),
          mb_server_key := cl_public_key c, mb_request := Some req, mb_response := Some resp,
          mb_rand_value := rand_value, mb_prior_response := prior\<rparr>)))))))"

text \<open>The two nested loops of \<open>run\<close> as one pass over the clients, repeated once per round. Exchange and
  random value number \<open>k\<close> belong to query number \<open>k\<close>.\<close>

fun sequence_loop ::
  "profile \<Rightarrow> ed25519 \<Rightarrow> hash_fn \<Rightarrow> (nat \<Rightarrow> bytes) \<Rightarrow> (nat \<Rightarrow> 'addr exchange) \<Rightarrow> nat \<Rightarrow> 'addr client list \<Rightarrow>
     response option \<Rightarrow> (client_error, 'addr measurement list) outcome" where
  "sequence_loop p E H rands exs k [] prior = Ok []"
| "sequence_loop p E H rands exs k (c # cs) prior =
     and_then (sequence_query p E H (rands k) (exs k) c prior) (\<lambda>m.
     and_then (sequence_loop p E H rands exs (Suc k) cs (Some (ms_response m))) (\<lambda>ms.
     Ok (m # ms)))"

definition sequence_run ::
  "profile \<Rightarrow> ed25519 \<Rightarrow> hash_fn \<Rightarrow> (nat \<Rightarrow> bytes) \<Rightarrow> (nat \<Rightarrow> 'addr exchange) \<Rightarrow> nat \<Rightarrow> 'addr client list \<Rightarrow>
     (client_error, 'addr measurement list) outcome" where
  "sequence_run p E H rands exs rounds clients =
     (if \<exists>c\<in>set clients. cl_public_key c = None
      then Err (InvalidConfiguration ''measurement sequence requires all servers to have public keys'')
      else sequence_loop p E H rands exs 0 (concat (replicate rounds clients)) None)"

section \<open>Clients that were built\<close>

definition client_ok :: "'addr client \<Rightarrow> bool" where
  "client_ok c \<longleftrightarrow> cl_validator c = cl_public_key c \<and>
     (cl_srv_commit c = None \<longleftrightarrow> cl_public_key c = None) \<and>
     (\<forall>sc. cl_srv_commit c = Some sc \<longrightarrow> length sc = 32)"

lemma make_srv_commitment_run:
  "sha512_ok H \<Longrightarrow> make_srv_commitment H pk = Ok (take 32 (H (HASH_PREFIX_SRV @ pk)))"
  by (simp add: make_srv_commitment_def Let_def slice_of_def copy_array_def sha512_ok_def)

lemma client_build_ok:
  assumes "sha512_ok H" "\<forall>pk. cb_public_key b = Some pk \<longrightarrow> length pk = 32"
  shows "\<exists>c. client_build H b = Ok c \<and> client_ok c \<and> cl_public_key c = cb_public_key b \<and>
           cl_protocol_version c = cb_protocol_version b \<and> cl_server c = cb_server b"
  using assms
  by (cases "cb_public_key b")
    (simp_all add: client_build_def make_srv_commitment_run validator_new_with_key_def copy_array_def client_ok_def sha512_ok_def)

lemma create_request_valid:
  assumes "client_ok c" "length rand = 32"
  shows "request_valid (create_request rand None c)" "request_nonc (create_request rand None c) = rand"
  using assms request_new_valid request_new_nonc
  by (auto simp: create_request_def client_ok_def Let_def split: protocol_version.splits option.splits)

lemma request_frame:
  "request_valid r \<Longrightarrow> as_frame_bytes request_wire_size request_to_wire r = Ok (frame_enc (request_enc r))"
  by (rule request_message.as_frame_bytes_enc)

lemma parse_and_validate_no_panic: "parse_and_validate p E H c q bs \<noteq> Panic"
proof
  assume a: "parse_and_validate p E H c q bs = Panic"
  show False
  proof (cases "cl_protocol_version c")
    case RfcDraft08
    have "parse (from_frame (resp08_from_wire p)) bs \<noteq> Panic" by (intro parse_no_panic safe_intro)
    with a RfcDraft08 obtain r where r: "parse (from_frame (resp08_from_wire p)) bs = Ok r"
      "validate_draft08 E H (cl_validator c) q r bs = Panic"
      by (cases "parse (from_frame (resp08_from_wire p)) bs")
        (auto simp: parse_and_validate_def and_then_Panic_iff split: outcome.splits)
    have "resp08_wf r" by (rule parse_yields [OF resp08_yields r(1)])
    then show False using validate08_iff(2) [of r] r(2) by (auto simp: resp08_wf_def)
  next
    case RfcDraft14
    have "parse (from_frame (resp_from_wire p)) bs \<noteq> Panic" by (intro parse_no_panic safe_intro)
    with a RfcDraft14 obtain r where r: "parse (from_frame (resp_from_wire p)) bs = Ok r"
      "validate_draft14 E H (cl_validator c) q r bs = Panic"
      by (cases "parse (from_frame (resp_from_wire p)) bs")
        (auto simp: parse_and_validate_def and_then_Panic_iff split: outcome.splits)
    have "resp_wf r" by (rule parse_yields [OF resp_yields r(1)])
    then show False using validate14_iff(2) [of r] r(2) by (auto simp: resp_wf_def)
  qed
qed

lemma parse_and_validate_wf: "parse_and_validate p E H c q bs = Ok r \<Longrightarrow> resp_wf r"
  by (cases "cl_protocol_version c")
    (auto simp: parse_and_validate_def and_then_Ok_iff
      intro: draft08_wf parse_yields [OF resp08_yields] parse_yields [OF resp_yields])

section \<open>Queries\<close>

definition exchange_ok :: "'addr exchange \<Rightarrow> bool" where
  "exchange_ok ex \<longleftrightarrow> (\<forall>bs a. ex_send ex bs a \<noteq> Panic \<and> ex_recv ex bs a \<noteq> Panic)"

lemma send_request_run:
  assumes "request_valid req"
  shows "send_request ex req c =
    and_then (ex_send ex (frame_enc (request_enc req)) (cl_server c)) (\<lambda>count.
      if count \<noteq> length (frame_enc (request_enc req)) then Err (InvalidConfiguration ''partial send'')
      else Ok (frame_enc (request_enc req)))"
  by (simp add: send_request_def request_frame [OF assms])

lemma measurement_build_full:
  "measurement_build (measurement_builder_new\<lparr>mb_server := Some s, mb_hostname := Some h, mb_server_key := k,
      mb_request := Some q, mb_response := Some r, mb_rand_value := v, mb_prior_response := pr\<rparr>)
   = Ok \<lparr>ms_server = s, ms_hostname = h, ms_public_key = k, ms_request = q, ms_response = r, ms_rand_value = v,
         ms_prior_response = pr\<rparr>"
  by (simp add: measurement_build_def measurement_builder_new_def ok_or_def)

lemma validate_response_no_panic: "validate_response p E H c req q bs \<noteq> Panic"
  using parse_and_validate_no_panic [of p E H c q bs]
  by (auto simp: validate_response_def and_then_Panic_iff measurement_build_full)

lemma query_run:
  "query p E H rand ex c =
    and_then (send_request ex (create_request rand None c) c) (\<lambda>q.
    and_then (recv_into_buffer ex q (cl_server c)) (validate_response p E H c (create_request rand None c) q))"
  unfolding query_def query_raw_def Let_def and_then_assoc
  by (intro arg_cong2 [where f = and_then] refl ext) (simp split: outcome.splits)

lemma query_no_panic_aux:
  assumes "client_ok c" "length rand = 32" "exchange_ok ex"
  shows "query p E H rand ex c \<noteq> Panic"
  unfolding query_run send_request_run [OF create_request_valid(1) [OF assms(1,2)]]
  using assms(3) by (auto simp: and_then_Panic_iff and_then_Ok_iff recv_into_buffer_def exchange_ok_def
      validate_response_no_panic split: if_splits)

lemma query_Ok:
  assumes "client_ok c" "length rand = 32" "query p E H rand ex c = Ok m"
  defines "q \<equiv> frame_enc (request_enc (create_request rand None c))"
  obtains bs where "ex_recv ex q (cl_server c) = Ok bs"
    "parse_and_validate p E H c q (take 1024 bs) = Ok (ms_response m)"
    "ms_request m = create_request rand None c" "ms_server m = cl_server c" "ms_public_key m = cl_public_key c"
  using assms(3) unfolding query_run send_request_run [OF create_request_valid(1) [OF assms(1,2)]] q_def
  by (auto simp: recv_into_buffer_def validate_response_def measurement_build_full and_then_Ok_iff split: if_splits)

section \<open>Sequences\<close>

lemma chained_nonce_run:
  assumes "sha512_ok H" "resp_wf r"
  shows "calculate_chained_nonce H r rand = Ok (take 32 (H (frame_enc (resp_enc r) @ rand)))"
  using assms(1)
  by (simp add: calculate_chained_nonce_def parsed_writer.as_frame_bytes_enc [OF assms(2)] Let_def slice_of_def
      copy_array_def sha512_ok_def)

definition chained_nonce :: "hash_fn \<Rightarrow> bytes \<Rightarrow> response option \<Rightarrow> nonce" where
  "chained_nonce H rand prior =
     (case prior of Some r \<Rightarrow> take 32 (H (frame_enc (resp_enc r) @ rand)) | None \<Rightarrow> rand)"

lemma generate_nonce_run:
  assumes "sha512_ok H" "\<forall>r. prior = Some r \<longrightarrow> resp_wf r"
  shows "generate_nonce H rand prior = Ok (chained_nonce H rand prior, map_option (\<lambda>_. rand) prior)"
  using assms by (cases prior) (simp_all add: chained_nonce_run chained_nonce_def)

lemma chained_nonce_length: "sha512_ok H \<Longrightarrow> length rand = 32 \<Longrightarrow> length (chained_nonce H rand prior) = 32"
  by (auto simp: chained_nonce_def sha512_ok_def split: option.splits)

definition sequence_request :: "'addr client \<Rightarrow> nonce \<Rightarrow> request" where
  "sequence_request c n = (case cl_protocol_version c of RfcDraft08 \<Rightarrow> request_new_draft08 n
     | RfcDraft14 \<Rightarrow> request_new_draft14_srv n (the (cl_srv_commit c)))"

lemma sequence_request_valid:
  assumes "client_ok c" "cl_public_key c \<noteq> None" "length n = 32"
  shows "request_valid (sequence_request c n)" "request_nonc (sequence_request c n) = n"
  using assms request_new_valid request_new_nonc
  by (auto simp: sequence_request_def client_ok_def split: protocol_version.splits)

lemma sequence_query_run:
  assumes H: "sha512_ok H" and prior: "\<forall>r. prior = Some r \<longrightarrow> resp_wf r" and c: "client_ok c" "cl_public_key c \<noteq> None"
    and rand: "length rand = 32"
  defines "req \<equiv> sequence_request c (chained_nonce H rand prior)"
  shows "sequence_query p E H rand ex c prior =
    and_then (ex_send ex (frame_enc (request_enc req)) (cl_server c)) (\<lambda>_.
    and_then (recv_into_buffer ex (frame_enc (request_enc req)) (cl_server c)) (\<lambda>bs.
    and_then (parse_and_validate p E H c (frame_enc (request_enc req)) bs) (\<lambda>r.
    Ok \<lparr>ms_server = cl_server c, ms_hostname = cl_hostname c, ms_public_key = cl_public_key c, ms_request = req,
        ms_response = r, ms_rand_value = map_option (\<lambda>_. rand) prior, ms_prior_response = prior\<rparr>)))"
proof -
  obtain sc where sc: "cl_srv_commit c = Some sc" using c by (auto simp: client_ok_def)
  have v: "request_valid req"
    unfolding req_def by (intro sequence_request_valid c chained_nonce_length H rand)
  have "(case cl_protocol_version c of RfcDraft08 \<Rightarrow> Ok (request_new_draft08 (chained_nonce H rand prior))
      | RfcDraft14 \<Rightarrow> (case cl_srv_commit c of Some sc \<Rightarrow> Ok (request_new_draft14_srv (chained_nonce H rand prior) sc) | None \<Rightarrow> Panic))
      = (Ok req :: (client_error, request) outcome)"
    by (simp add: req_def sequence_request_def sc split: protocol_version.splits)
  then show ?thesis
    by (simp add: sequence_query_def generate_nonce_run [OF H prior] request_frame [OF v] measurement_build_full)
qed

lemma sequence_loop_no_panic:
  assumes "sha512_ok H" "\<forall>c\<in>set cs. client_ok c \<and> cl_public_key c \<noteq> None" "\<forall>k. length (rands k) = 32" "\<forall>k. exchange_ok (exs k)"
    and "\<forall>r. prior = Some r \<longrightarrow> resp_wf r"
  shows "sequence_loop p E H rands exs k cs prior \<noteq> Panic"
  using assms(2,5)
proof (induction cs arbitrary: k prior)
  case (Cons c cs)
  have c: "client_ok c" "cl_public_key c \<noteq> None" and r: "length (rands k) = 32" using Cons.prems assms(3) by auto
  note run = sequence_query_run [OF assms(1) Cons.prems(2) c r, of p E "exs k"]
  have np: "sequence_query p E H (rands k) (exs k) c prior \<noteq> Panic"
    unfolding run using assms(4)
    by (auto simp: and_then_Panic_iff recv_into_buffer_def exchange_ok_def parse_and_validate_no_panic)
  have "resp_wf (ms_response m)" if "sequence_query p E H (rands k) (exs k) c prior = Ok m" for m
    using that unfolding run by (auto simp: and_then_Ok_iff intro: parse_and_validate_wf)
  then have "sequence_loop p E H rands exs (Suc k) cs (Some (ms_response m)) \<noteq> Panic"
    if "sequence_query p E H (rands k) (exs k) c prior = Ok m" for m
    using that Cons.IH [of "Some (ms_response m)" "Suc k"] Cons.prems(1) by auto
  then show ?case using np by (auto simp: and_then_Panic_iff)
qed simp

text \<open>What query number \<open>k\<close> with client \<open>c\<close> after the response \<open>prior\<close> measured.\<close>

definition measured ::
  "profile \<Rightarrow> ed25519 \<Rightarrow> hash_fn \<Rightarrow> bytes \<Rightarrow> 'addr exchange \<Rightarrow> 'addr client \<Rightarrow> response option \<Rightarrow> 'addr measurement \<Rightarrow> bool" where
  "measured p E H rand ex c prior m \<longleftrightarrow>
     ms_server m = cl_server c \<and> ms_public_key m = cl_public_key c \<and> ms_prior_response m = prior \<and>
     ms_rand_value m = map_option (\<lambda>_. rand) prior \<and> request_nonc (ms_request m) = chained_nonce H rand prior \<and>
     (\<exists>bs. ex_recv ex (frame_enc (request_enc (ms_request m))) (cl_server c) = Ok bs \<and>
        parse_and_validate p E H c (frame_enc (request_enc (ms_request m))) (take 1024 bs) = Ok (ms_response m))"

lemma sequence_query_measured:
  assumes "sha512_ok H" "\<forall>r. prior = Some r \<longrightarrow> resp_wf r" "client_ok c" "cl_public_key c \<noteq> None" "length rand = 32"
    and "sequence_query p E H rand ex c prior = Ok m"
  shows "measured p E H rand ex c prior m" "resp_wf (ms_response m)"
  using assms(6) sequence_request_valid(2) [OF assms(3,4) chained_nonce_length [OF assms(1,5)]]
  unfolding sequence_query_run [OF assms(1-5)] measured_def
  by (auto simp: and_then_Ok_iff recv_into_buffer_def intro: parse_and_validate_wf)

lemma sequence_loop_chain:
  assumes "sha512_ok H" "\<forall>c\<in>set cs. client_ok c \<and> cl_public_key c \<noteq> None" "\<forall>k. length (rands k) = 32"
    and "\<forall>r. prior = Some r \<longrightarrow> resp_wf r" "sequence_loop p E H rands exs k cs prior = Ok ms"
  shows "length ms = length cs \<and> (\<forall>i<length ms.
    measured p E H (rands (k + i)) (exs (k + i)) (cs ! i) (if i = 0 then prior else Some (ms_response (ms ! (i - 1)))) (ms ! i))"
  using assms(2,4,5)
proof (induction cs arbitrary: k prior ms)
  case (Cons c cs)
  obtain m ms' where m: "sequence_query p E H (rands k) (exs k) c prior = Ok m"
    "sequence_loop p E H rands exs (Suc k) cs (Some (ms_response m)) = Ok ms'" "ms = m # ms'"
    using Cons.prems(3) by (auto simp: and_then_Ok_iff)
  have c: "client_ok c" "cl_public_key c \<noteq> None" using Cons.prems(1) by auto
  note q = sequence_query_measured [OF assms(1) Cons.prems(2) c assms(3) [rule_format] m(1)]
  have IH: "length ms' = length cs \<and> (\<forall>i<length ms'. measured p E H (rands (Suc k + i)) (exs (Suc k + i)) (cs ! i)
      (if i = 0 then Some (ms_response m) else Some (ms_response (ms' ! (i - 1)))) (ms' ! i))"
    using Cons.IH [OF _ _ m(2)] Cons.prems(1) q(2) by auto
  have "measured p E H (rands (k + i)) (exs (k + i)) ((c # cs) ! i)
      (if i = 0 then prior else Some (ms_response ((m # ms') ! (i - 1)))) ((m # ms') ! i)" if "i < length (m # ms')" for i
  proof (cases i)
    case 0 then show ?thesis using q(1) by simp
  next
    case (Suc j)
    then have "measured p E H (rands (Suc k + j)) (exs (Suc k + j)) (cs ! j)
      (if j = 0 then Some (ms_response m) else Some (ms_response (ms' ! (j - 1)))) (ms' ! j)" using IH that by simp
    then show ?thesis using Suc by (cases j) simp_all
  qed
  note step = this
  show ?case unfolding m(3) by (intro conjI allI impI step) (use IH in simp_all)
qed simp

lemma concat_replicate_nth: "i < n * length xs \<Longrightarrow> concat (replicate n xs) ! i = xs ! (i mod length xs)"
proof (induction n arbitrary: i)
  case (Suc n)
  show ?case
  proof (cases "i < length xs")
    case False
    then have "concat (replicate n xs) ! (i - length xs) = xs ! ((i - length xs) mod length xs)" using Suc by simp
    then show ?thesis using False by (simp add: nth_append le_mod_geq)
  qed (simp add: nth_append)
qed simp

lemma length_concat_replicate: "length (concat (replicate n xs)) = n * length xs"
  by (induction n) simp_all

section \<open>Properties\<close>

text \<open>C17. A query never panics: for every client the builder makes (with or without a 32-byte key, for both
  protocol versions), whatever the transport reports and whatever bytes come back, \<open>query\<close> returns a
  measurement or an error, in both build profiles. The builder itself never panics either.\<close>

theorem query_no_panic:
  assumes "sha512_ok H" "\<forall>pk. cb_public_key b = Some pk \<longrightarrow> length pk = 32" "length rand = 32" "exchange_ok ex"
  shows "\<exists>c. client_build H b = (Ok c :: (client_error, _) outcome) \<and> query p E H rand ex c \<noteq> Panic"
proof -
  obtain c where "client_build H b = (Ok c :: (client_error, _) outcome)" "client_ok c"
    using client_build_ok [OF assms(1,2)] by blast
  with query_no_panic_aux [OF _ assms(3,4)] show ?thesis by blast
qed

definition sample_exchange :: "bytes \<Rightarrow> nat exchange" where
  "sample_exchange reply = \<lparr>ex_send = (\<lambda>bs a. Ok (length bs)), ex_recv = (\<lambda>bs a. Ok reply)\<rparr>"

definition sample_builder :: "protocol_version \<Rightarrow> nat client_builder" where
  "sample_builder v = (client_builder_new 1)\<lparr>cb_public_key := Some (ed_public toy_ed (replicate 32 1)), cb_protocol_version := v\<rparr>"

lemma sample_builder_key: "\<forall>pk. cb_public_key (sample_builder v) = Some pk \<longrightarrow> length pk = 32"
  by (simp add: sample_builder_def ed25519_lengths [OF toy_ed_ok])

theorem query_no_panic_witness:
  "\<exists>c. client_build toy_hash (sample_builder RfcDraft08) = (Ok c :: (client_error, _) outcome) \<and>
     query Debug toy_ed toy_hash (replicate 32 5) (sample_exchange [1, 2, 3]) c \<noteq> Panic"
  by (rule query_no_panic [OF toy_hash_ok sample_builder_key]) (simp_all add: exchange_ok_def sample_exchange_def)

lemma draft08_midpoint: "srep_midpoint (resp_srep (resp_from_draft08 r)) = srep08_midpoint (resp08_srep r)"
  by (simp add: resp_from_draft08_def resp_set_indx_def resp_set_cert_def resp_set_srep_def resp_set_path_def resp_set_sig_def
      update_offsets_def Let_def srep_from_draft08_fields)

text \<open>C16. What a query vouches for, for both protocol versions: a measurement is returned only when a datagram was received
  after the request with the drawn nonce, its first 1024 bytes parse as a response of the client's version, and that response
  passes that version's validation against those bytes, the sent request and the configured key; the measurement's
  midpoint is the validated one, and its response the parsed one, converted from draft-08 where that is the version.\<close>

theorem query_sound:
  assumes "sha512_ok H" "\<forall>pk. cb_public_key b = Some pk \<longrightarrow> length pk = 32" "length rand = 32"
    and "client_build H b = (Ok c :: (client_error, _) outcome)" "query p E H rand ex c = Ok m"
  shows "request_nonc (ms_request m) = rand \<and> ms_server m = cb_server b \<and> ms_public_key m = cb_public_key b \<and>
    (\<exists>bs. ex_recv ex (frame_enc (request_enc (ms_request m))) (cb_server b) = Ok bs \<and>
       (case cb_protocol_version b of
          RfcDraft14 \<Rightarrow>
            parse (from_frame (resp_from_wire p)) (take 1024 bs) = Ok (ms_response m) \<and>
            validate_draft14 E H (cb_public_key b) (frame_enc (request_enc (ms_request m))) (ms_response m) (take 1024 bs)
              = Ok (midpoint m)
        | RfcDraft08 \<Rightarrow>
            (\<exists>r. parse (from_frame (resp08_from_wire p)) (take 1024 bs) = Ok r \<and> ms_response m = resp_from_draft08 r \<and>
               validate_draft08 E H (cb_public_key b) (frame_enc (request_enc (ms_request m))) r (take 1024 bs)
                 = Ok (midpoint m))))"
proof -
  obtain c' where "client_build H b = (Ok c' :: (client_error, _) outcome)" "client_ok c'" "cl_public_key c' = cb_public_key b"
    "cl_protocol_version c' = cb_protocol_version b" "cl_server c' = cb_server b"
    using client_build_ok [OF assms(1,2)] by blast
  then have c: "client_ok c" "cl_public_key c = cb_public_key b" "cl_protocol_version c = cb_protocol_version b" "cl_server c = cb_server b"
    using assms(4) by simp_all
  obtain bs where q: "ex_recv ex (frame_enc (request_enc (create_request rand None c))) (cl_server c) = Ok bs"
    "parse_and_validate p E H c (frame_enc (request_enc (create_request rand None c))) (take 1024 bs) = Ok (ms_response m)"
    "ms_request m = create_request rand None c" "ms_server m = cl_server c" "ms_public_key m = cl_public_key c"
    by (rule query_Ok [OF c(1) assms(3,5)])
  let ?q = "frame_enc (request_enc (create_request rand None c))"
  have "cl_validator c = cb_public_key b" using c(1,2) by (simp add: client_ok_def)
  with q(2) have "case cb_protocol_version b of
          RfcDraft14 \<Rightarrow>
            parse (from_frame (resp_from_wire p)) (take 1024 bs) = Ok (ms_response m) \<and>
            validate_draft14 E H (cb_public_key b) ?q (ms_response m) (take 1024 bs) = Ok (midpoint m)
        | RfcDraft08 \<Rightarrow>
            (\<exists>r. parse (from_frame (resp08_from_wire p)) (take 1024 bs) = Ok r \<and> ms_response m = resp_from_draft08 r \<and>
               validate_draft08 E H (cb_public_key b) ?q r (take 1024 bs) = Ok (midpoint m))"
    by (cases "cb_protocol_version b")
      (auto simp: parse_and_validate_def c(3) and_then_Ok_iff validate_draft14_def validate_draft08_def midpoint_def
        draft08_midpoint [symmetric])
  then show ?thesis using q(1,4,5) c create_request_valid(2) [OF c(1) assms(3)] unfolding q(3) by auto
qed

text \<open>An exchange with an honest server at time 200.\<close>

definition honest_exchange :: "nat exchange" where
  "honest_exchange = \<lparr>ex_send = (\<lambda>bs a. Ok (length bs)), ex_recv = (\<lambda>bs a. Ok (frame_enc (resp_enc (genuine_response bs))))\<rparr>"

theorem query_sound_witness:
  "\<exists>c m. client_build toy_hash (sample_builder RfcDraft14) = (Ok c :: (client_error, _) outcome) \<and>
     query Release toy_ed toy_hash (replicate 32 5) honest_exchange c = Ok m \<and>
     request_nonc (ms_request m) = replicate 32 5 \<and> midpoint m = 200"
proof -
  let ?pk = "ed_public toy_ed (replicate 32 1)" and ?b = "sample_builder RfcDraft14"
  obtain c where c: "client_build toy_hash ?b = (Ok c :: (client_error, _) outcome)" "client_ok c"
    "cl_public_key c = cb_public_key ?b" "cl_protocol_version c = cb_protocol_version ?b"
    using client_build_ok [OF toy_hash_ok sample_builder_key [of RfcDraft14]] by blast
  let ?q = "frame_enc (request_enc (create_request (replicate 32 5) None c))"
  have a: "take 1024 (frame_enc (resp_enc (genuine_response ?q))) = frame_enc (resp_enc (genuine_response ?q))"
    by (simp add: genuine_response_ok(5) FRAME_OVERHEAD_def)
  have v: "cl_validator c = Some ?pk" "cl_protocol_version c = RfcDraft14"
    using c by (simp_all add: client_ok_def sample_builder_def)
  have "parse_and_validate Release toy_ed toy_hash c ?q (frame_enc (resp_enc (genuine_response ?q))) = Ok (genuine_response ?q)"
    using parse_frame14 [OF genuine_response_ok(1) [of ?q], of Release] genuine_response_ok(3,4) [of ?q] v
    by (simp add: parse_and_validate_def)
  with a have "\<exists>m. query Release toy_ed toy_hash (replicate 32 5) honest_exchange c = Ok m \<and> ms_response m = genuine_response ?q"
    unfolding query_run send_request_run [OF create_request_valid(1) [OF c(2), of "replicate 32 5", simplified]]
    by (simp add: honest_exchange_def recv_into_buffer_def validate_response_def measurement_build_full)
  then obtain m where m: "query Release toy_ed toy_hash (replicate 32 5) honest_exchange c = Ok m" "ms_response m = genuine_response ?q"
    by blast
  from query_sound [OF toy_hash_ok sample_builder_key _ c(1) m(1)] have "request_nonc (ms_request m) = replicate 32 5"
    by (simp add: sample_builder_def)
  moreover have "midpoint m = 200"
    using genuine_response_ok(3) [of ?q] m(2) by (auto simp: validate_draft14_def and_then_Ok_iff midpoint_def)
  ultimately show ?thesis using c(1) m(1) by blast
qed

lemma sequence_run_loop:
  assumes "\<forall>c\<in>set clients. cl_public_key c \<noteq> None"
  shows "sequence_run p E H rands exs rounds clients = sequence_loop p E H rands exs 0 (concat (replicate rounds clients)) None"
  using assms by (auto simp: sequence_run_def)

lemma sequence_run_keys:
  assumes "sequence_run p E H rands exs rounds clients = Ok ms"
  shows "\<forall>c\<in>set clients. cl_public_key c \<noteq> None"
  using assms by (auto simp: sequence_run_def split: if_splits)

lemma sequence_run_chain:
  assumes "sha512_ok H" "\<forall>c\<in>set clients. client_ok c" "\<forall>k. length (rands k) = 32"
    and "sequence_run p E H rands exs rounds clients = Ok ms"
  shows "length ms = rounds * length clients"
    "i < length ms \<Longrightarrow> measured p E H (rands i) (exs i) (clients ! (i mod length clients))
       (if i = 0 then None else Some (ms_response (ms ! (i - 1)))) (ms ! i)"
proof -
  note k = sequence_run_keys [OF assms(4)]
  have cs: "\<forall>c\<in>set (concat (replicate rounds clients)). client_ok c \<and> cl_public_key c \<noteq> None" using assms(2) k by auto
  note ch = sequence_loop_chain [OF assms(1) cs assms(3) _ assms(4) [unfolded sequence_run_loop [OF k]], simplified]
  show l: "length ms = rounds * length clients" using ch by (simp add: length_concat_replicate)
  show "measured p E H (rands i) (exs i) (clients ! (i mod length clients))
       (if i = 0 then None else Some (ms_response (ms ! (i - 1)))) (ms ! i)" if i: "i < length ms"
  proof -
    have "concat (replicate rounds clients) ! i = clients ! (i mod length clients)"
      using i l by (simp add: concat_replicate_nth)
    then show ?thesis using ch [THEN conjunct2, rule_format, OF i] by (simp split del: if_split)
  qed
qed


text \<open>A sequence against honest servers.\<close>

definition honest_client :: "nat client \<Rightarrow> bool" where
  "honest_client c \<longleftrightarrow> client_ok c \<and> cl_public_key c = Some (ed_public toy_ed (replicate 32 1)) \<and> cl_protocol_version c = RfcDraft14"

lemma honest_accepts:
  assumes "honest_client c"
  shows "parse_and_validate p toy_ed toy_hash c q (frame_enc (resp_enc (genuine_response q))) = Ok (genuine_response q)"
    "take 1024 (frame_enc (resp_enc (genuine_response q))) = frame_enc (resp_enc (genuine_response q))"
  using assms parse_frame14 [OF genuine_response_ok(1) [of q], of p] genuine_response_ok(3-5) [of q]
  by (simp_all add: parse_and_validate_def honest_client_def client_ok_def FRAME_OVERHEAD_def)

lemma honest_sequence_loop:
  assumes "\<forall>c\<in>set cs. honest_client c" "\<forall>k. length (rands k) = 32" "\<forall>r. prior = Some r \<longrightarrow> (\<exists>q. r = genuine_response q)"
  shows "\<exists>ms. sequence_loop p toy_ed toy_hash rands (\<lambda>_. honest_exchange) k cs prior = Ok ms \<and>
    (\<forall>m\<in>set ms. (\<exists>q. ms_response m = genuine_response q) \<and> request_valid (ms_request m) \<and> ms_public_key m \<noteq> None)"
  using assms(1,3)
proof (induction cs arbitrary: k prior)
  case (Cons c cs)
  have c: "client_ok c" "cl_public_key c \<noteq> None" "honest_client c" using Cons.prems by (auto simp: honest_client_def)
  have wf: "\<forall>r. prior = Some r \<longrightarrow> resp_wf r" using Cons.prems(2) resp_ok_wf genuine_response_ok(1) by auto
  let ?q = "frame_enc (request_enc (sequence_request c (chained_nonce toy_hash (rands k) prior)))"
  obtain m where m: "sequence_query p toy_ed toy_hash (rands k) honest_exchange c prior = Ok m" "ms_response m = genuine_response ?q"
    "request_valid (ms_request m)" "ms_public_key m \<noteq> None"
    using sequence_request_valid(1) [OF c(1,2) chained_nonce_length [OF toy_hash_ok assms(2) [rule_format]], of k prior] c(2)
    unfolding sequence_query_run [OF toy_hash_ok wf c(1,2) assms(2) [rule_format]]
    by (simp add: honest_exchange_def recv_into_buffer_def honest_accepts [OF c(3)])
  have "\<forall>r. Some (ms_response m) = Some r \<longrightarrow> (\<exists>q. r = genuine_response q)" using m(2) by blast
  then obtain ms where "sequence_loop p toy_ed toy_hash rands (\<lambda>_. honest_exchange) (Suc k) cs (Some (ms_response m)) = Ok ms"
    "\<forall>m\<in>set ms. (\<exists>q. ms_response m = genuine_response q) \<and> request_valid (ms_request m) \<and> ms_public_key m \<noteq> None"
    using Cons.IH [of "Some (ms_response m)" "Suc k"] Cons.prems(1) by auto
  with m show ?case by auto
qed simp

lemma sample_honest:
  "\<exists>c. client_build toy_hash (sample_builder RfcDraft14) = (Ok c :: (client_error, _) outcome) \<and> honest_client c"
  using client_build_ok [OF toy_hash_ok sample_builder_key [of RfcDraft14]]
  by (auto simp: honest_client_def sample_builder_def)


end
