(* ===== verification/Transport.thy ===== *)
theory Transport
  imports Client
begin

text \<open>
  The UDP transport of the client (\<^verbatim>\<open>client/src/transport.rs\<close>) over the results of the socket calls, and the
  exchange it gives to queries. Shown: over UDP a query ends in a measurement or an error whatever the socket
  does; no answer, an I/O error and a short send are told apart; datagrams from any sender are read.
\<close>

datatype io_error = WouldBlock | OtherIo string

fun io_text :: "io_error \<Rightarrow> string" where
  "io_text WouldBlock = ''operation would block''"
| "io_text (OtherIo s) = s"

text \<open>The socket: binding to an address, setting the two timeouts, sending, and the datagram with its sender
  that is waiting, or arrives within the timeout, after the given bytes were sent to the given address.\<close>

record 'addr socket =
  so_bind :: "string \<Rightarrow> io_error option"
  so_set_read_timeout :: "io_error option"
  so_set_write_timeout :: "io_error option"
  so_send_to :: "bytes \<Rightarrow> 'addr \<Rightarrow> io_error + nat"
  so_recv_from :: "bytes \<Rightarrow> 'addr \<Rightarrow> io_error + (bytes \<times> 'addr)"

definition io_result :: "io_error option \<Rightarrow> (client_error, unit) outcome" where
  "io_result r = (case r of None \<Rightarrow> Ok () | Some e \<Rightarrow> Err (ClientIoError (io_text e)))"

text \<open>\<open>is_v4\<close> tells the two families of socket addresses apart.\<close>

definition bind_addr :: "('addr \<Rightarrow> bool) \<Rightarrow> 'addr \<Rightarrow> string" where
  "bind_addr is_v4 target = (if is_v4 target then ''0.0.0.0:0'' else ''[::]:0'')"

definition udp_new :: "('addr \<Rightarrow> bool) \<Rightarrow> 'addr socket \<Rightarrow> 'addr \<Rightarrow> (client_error, 'addr socket) outcome" where
  "udp_new is_v4 so target =
     and_then (io_result (so_bind so (bind_addr is_v4 target))) (\<lambda>_.
     and_then (io_result (so_set_read_timeout so)) (\<lambda>_.
     and_then (io_result (so_set_write_timeout so)) (\<lambda>_. Ok so)))"

text \<open>Writing the dump to a vector does not fail.\<close>

definition trace_dump :: "bool \<Rightarrow> bytes \<Rightarrow> (client_error, string option) outcome" where
  "trace_dump trace_enabled data = Ok (if trace_enabled then Some (hexdump data) else None)"

definition udp_send :: "bool \<Rightarrow> 'addr socket \<Rightarrow> bytes \<Rightarrow> 'addr \<Rightarrow> (client_error, nat) outcome" where
  "udp_send trace so data addr =
     and_then (trace_dump trace data) (\<lambda>_.
     case so_send_to so data addr of Inl e \<Rightarrow> Err (ClientIoError (io_text e)) | Inr n \<Rightarrow> Ok n)"

text \<open>\<open>buf_len\<close> is the length of the buffer: a longer datagram is cut.\<close>

definition udp_recv ::
  "bool \<Rightarrow> 'addr socket \<Rightarrow> nat \<Rightarrow> bytes \<Rightarrow> 'addr \<Rightarrow> (client_error, bytes \<times> 'addr) outcome" where
  "udp_recv trace so buf_len sent addr =
     (case so_recv_from so sent addr of
        Inr (datagram, from_addr) \<Rightarrow>
          and_then (trace_dump trace (take buf_len datagram)) (\<lambda>_. Ok (take buf_len datagram, from_addr))
      | Inl e \<Rightarrow> Err (if e = WouldBlock then ServerTimeout else ClientIoError (io_text e)))"

text \<open>The transport as the client sees it: the sender's address is dropped.\<close>

definition udp_exchange :: "bool \<Rightarrow> 'addr socket \<Rightarrow> 'addr exchange" where
  "udp_exchange trace so =
     \<lparr>ex_send = udp_send trace so,
      ex_recv = (\<lambda>sent addr. and_then (udp_recv trace so 1024 sent addr) (\<lambda>(datagram, _). Ok datagram))\<rparr>"

section \<open>The builder with its transport\<close>

record 'addr udp_builder = "'addr client_builder" +
  ub_transport :: "'addr exchange option"
  ub_timeout :: "duration option"

definition builder_new :: "'addr \<Rightarrow> 'addr udp_builder" where
  "builder_new server =
     \<lparr>cb_server = server, cb_hostname = ''unknown'', cb_public_key = None, cb_protocol_version = RfcDraft14,
      ub_transport = None, ub_timeout = None\<rparr>"

definition builder_hostname :: "string \<Rightarrow> 'addr udp_builder \<Rightarrow> 'addr udp_builder" where
  "builder_hostname hostname b = b\<lparr>cb_hostname := hostname\<rparr>"

definition builder_timeout :: "duration \<Rightarrow> 'addr udp_builder \<Rightarrow> 'addr udp_builder" where
  "builder_timeout timeout b = b\<lparr>ub_timeout := Some timeout\<rparr>"

definition builder_transport :: "'addr exchange \<Rightarrow> 'addr udp_builder \<Rightarrow> 'addr udp_builder" where
  "builder_transport transport b = b\<lparr>ub_transport := Some transport\<rparr>"

definition builder_public_key :: "public_key \<Rightarrow> 'addr udp_builder \<Rightarrow> 'addr udp_builder" where
  "builder_public_key public_key b = b\<lparr>cb_public_key := Some public_key\<rparr>"

definition builder_protocol_version :: "protocol_version \<Rightarrow> 'addr udp_builder \<Rightarrow> 'addr udp_builder" where
  "builder_protocol_version version b = b\<lparr>cb_protocol_version := version\<rparr>"

definition DEFAULT_TIMEOUT :: duration where
  "DEFAULT_TIMEOUT = \<lparr>dur_secs = 2, dur_nanos = 0\<rparr>"

text \<open>\<open>sock\<close> is the socket that the system gives for a timeout. The result is the client and its transport.\<close>

definition builder_build ::
  "bool \<Rightarrow> ('addr \<Rightarrow> bool) \<Rightarrow> (duration \<Rightarrow> 'addr socket) \<Rightarrow> hash_fn \<Rightarrow> 'addr udp_builder \<Rightarrow>
     (client_error, 'addr client \<times> 'addr exchange) outcome" where
  "builder_build trace is_v4 sock H b =
     (let timeout = (case ub_timeout b of Some t \<Rightarrow> t | None \<Rightarrow> DEFAULT_TIMEOUT) in
      and_then (case ub_transport b of
                  Some transport \<Rightarrow> Ok transport
                | None \<Rightarrow> and_then (expect (udp_new is_v4 (sock timeout) (cb_server b))) (\<lambda>so. Ok (udp_exchange trace so))) (\<lambda>transport.
      and_then (client_build H (client_builder.truncate b)) (\<lambda>c. Ok (c, transport))))"

text \<open>The function \<open>query\<close> of the library: \<open>Client::new\<close> with its UDP transport, then one query.\<close>

definition client_new_udp ::
  "bool \<Rightarrow> ('addr \<Rightarrow> bool) \<Rightarrow> (duration \<Rightarrow> 'addr socket) \<Rightarrow> hash_fn \<Rightarrow> codecs \<Rightarrow> (string \<Rightarrow> (client_error, 'addr list) outcome) \<Rightarrow>
     string \<Rightarrow> u16 \<Rightarrow> string option \<Rightarrow> (client_error, 'addr client \<times> 'addr exchange) outcome" where
  "client_new_udp trace is_v4 sock H cs resolve hostname port pub_key =
     (let host_port = hostname @ '':'' @ show_nat (unat port) in
      and_then (resolve host_port) (\<lambda>addrs.
      case addrs of
        [] \<Rightarrow> Err (DnsLookupFailed host_port)
      | sock_addr # _ \<Rightarrow>
          let builder = builder_hostname hostname (builder_new sock_addr) in
          and_then (case pub_key of
                      Some encoded_key \<Rightarrow> and_then (map_err BadPublicKey (try_decode_key cs encoded_key)) (\<lambda>pk. Ok (builder_public_key pk builder))
                    | None \<Rightarrow> Ok builder) (builder_build trace is_v4 sock H)))"

definition query_host ::
  "profile \<Rightarrow> ed25519 \<Rightarrow> bool \<Rightarrow> ('addr \<Rightarrow> bool) \<Rightarrow> (duration \<Rightarrow> 'addr socket) \<Rightarrow> hash_fn \<Rightarrow> codecs \<Rightarrow>
     (string \<Rightarrow> (client_error, 'addr list) outcome) \<Rightarrow> bytes \<Rightarrow> string \<Rightarrow> u16 \<Rightarrow> string option \<Rightarrow> (client_error, 'addr measurement) outcome" where
  "query_host p E trace is_v4 sock H cs resolve rand hostname port key =
     and_then (client_new_udp trace is_v4 sock H cs resolve hostname port key) (\<lambda>(c, ex). query p E H rand ex c)"

section \<open>Lemmas\<close>

lemma udp_exchange_ok: "exchange_ok (udp_exchange trace so)"
  by (auto simp: exchange_ok_def udp_exchange_def udp_send_def udp_recv_def trace_dump_def and_then_Panic_iff
      split: sum.splits)

lemma udp_send_exchange:
  "ex_send (udp_exchange trace so) data addr =
     (case so_send_to so data addr of Inl e \<Rightarrow> Err (ClientIoError (io_text e)) | Inr n \<Rightarrow> Ok n)"
  by (simp add: udp_exchange_def udp_send_def trace_dump_def)

lemma udp_recv_exchange:
  "recv_into_buffer (udp_exchange trace so) sent addr =
     (case so_recv_from so sent addr of
        Inr (datagram, _) \<Rightarrow> Ok (take 1024 datagram)
      | Inl e \<Rightarrow> Err (if e = WouldBlock then ServerTimeout else ClientIoError (io_text e)))"
  by (simp add: recv_into_buffer_def udp_exchange_def udp_recv_def trace_dump_def split: sum.split)

text \<open>A socket that can be set up. With it, the builder gives the client of \<open>client_build\<close>; without, it panics, although
  \<open>Client::new\<close> could report an error.\<close>

definition socket_ready :: "('addr \<Rightarrow> bool) \<Rightarrow> 'addr socket \<Rightarrow> 'addr \<Rightarrow> bool" where
  "socket_ready is_v4 so addr \<longleftrightarrow> so_bind so (bind_addr is_v4 addr) = None \<and> so_set_read_timeout so = None \<and> so_set_write_timeout so = None"

lemma udp_new_ready: "udp_new is_v4 so addr = Ok so' \<longleftrightarrow> socket_ready is_v4 so addr \<and> so' = so"
  by (auto simp: udp_new_def io_result_def socket_ready_def and_then_Ok_iff split: option.splits)

lemma builder_build_udp:
  assumes "ub_transport b = None"
  shows "builder_build trace is_v4 sock H b =
    (let so = sock (case ub_timeout b of Some t \<Rightarrow> t | None \<Rightarrow> DEFAULT_TIMEOUT) in
     if socket_ready is_v4 so (cb_server b)
     then and_then (client_build H (client_builder.truncate b)) (\<lambda>c. Ok (c, udp_exchange trace so)) else Panic)"
proof -
  let ?so = "sock (case ub_timeout b of Some t \<Rightarrow> t | None \<Rightarrow> DEFAULT_TIMEOUT)"
  have "expect (udp_new is_v4 ?so (cb_server b)) = (if socket_ready is_v4 ?so (cb_server b) then Ok ?so else (Panic :: (client_error, _) outcome))"
    using udp_new_ready [of is_v4 ?so "cb_server b"] by (cases "udp_new is_v4 ?so (cb_server b)") auto
  then show ?thesis using assms by (simp add: builder_build_def Let_def)
qed

lemma client_new_udp_ready:
  assumes "\<And>addr. socket_ready is_v4 (sock DEFAULT_TIMEOUT) addr"
  shows "client_new_udp trace is_v4 sock H cs resolve hostname port pub_key =
    and_then (client_new H cs resolve hostname port pub_key) (\<lambda>c. Ok (c, udp_exchange trace (sock DEFAULT_TIMEOUT)))"
  using assms
  by (auto simp: client_new_udp_def client_new_def builder_build_udp builder_new_def builder_hostname_def builder_public_key_def
      client_builder.truncate_def client_builder_new_def and_then_assoc Let_def
      intro!: arg_cong [of _ _ "and_then _"] split: list.split option.split)

text \<open>C35. A query over UDP, for every client the builder makes and every behaviour of the socket: it does not
  panic; a failed or short send is reported as such and nothing is received; no datagram within the timeout
  is \<open>ServerTimeout\<close>; and a datagram is judged by its first 1024 bytes alone, whoever sent it.\<close>

theorem udp_query_outcomes:
  assumes "sha512_ok H" and "\<forall>pk. cb_public_key b = Some pk \<longrightarrow> length pk = 32" and "length rand = 32"
  shows "\<exists>c q. client_build H b = (Ok c :: (client_error, _) outcome) \<and>
     q = frame_enc (request_enc (create_request rand None c)) \<and> length q = REQUEST_SIZE \<and>
     query p E H rand (udp_exchange trace so) c =
       (case so_send_to so q (cb_server b) of
          Inl e \<Rightarrow> Err (ClientIoError (io_text e))
        | Inr n \<Rightarrow>
            if n \<noteq> REQUEST_SIZE then Err (InvalidConfiguration ''partial send'')
            else (case so_recv_from so q (cb_server b) of
                    Inl WouldBlock \<Rightarrow> Err ServerTimeout
                  | Inl (OtherIo s) \<Rightarrow> Err (ClientIoError s)
                  | Inr (datagram, from_addr) \<Rightarrow> validate_response p E H c (create_request rand None c) q (take 1024 datagram))) \<and>
     query p E H rand (udp_exchange trace so) c \<noteq> Panic"
proof -
  obtain c where c: "client_build H b = (Ok c :: (client_error, _) outcome)" "client_ok c"
    using client_build_ok [OF assms(1,2)] by blast
  have srv: "cl_server c = cb_server b"
    using c(1) by (auto simp: client_build_def and_then_Ok_iff)
  note valid = create_request_valid(1) [OF c(2) assms(3)]
  note len = request_frame_ok(1) [OF valid]
  let ?q = "frame_enc (request_enc (create_request rand None c))"
  have "query p E H rand (udp_exchange trace so) c =
      (case so_send_to so ?q (cb_server b) of
          Inl e \<Rightarrow> Err (ClientIoError (io_text e))
        | Inr n \<Rightarrow>
            if n \<noteq> REQUEST_SIZE then Err (InvalidConfiguration ''partial send'')
            else (case so_recv_from so ?q (cb_server b) of
                    Inl WouldBlock \<Rightarrow> Err ServerTimeout
                  | Inl (OtherIo s) \<Rightarrow> Err (ClientIoError s)
                  | Inr (datagram, from_addr) \<Rightarrow> validate_response p E H c (create_request rand None c) ?q (take 1024 datagram)))"
    using len unfolding query_run send_request_run [OF valid] udp_send_exchange udp_recv_exchange srv
    by (auto split: sum.splits io_error.splits)
  then show ?thesis
    using c(1) len query_no_panic_aux [OF c(2) assms(3) udp_exchange_ok] by blast
qed

text \<open>A server that does not answer.\<close>

definition silent_socket :: "nat socket" where
  "silent_socket =
     \<lparr>so_bind = (\<lambda>_. None), so_set_read_timeout = None, so_set_write_timeout = None,
      so_send_to = (\<lambda>bs _. Inr (length bs)), so_recv_from = (\<lambda>_ _. Inl WouldBlock)\<rparr>"

theorem udp_query_outcomes_witness:
  "\<exists>c. client_build toy_hash (sample_builder RfcDraft14) = (Ok c :: (client_error, _) outcome) \<and>
     query Debug toy_ed toy_hash (replicate 32 5) (udp_exchange True silent_socket) c = Err ServerTimeout"
  using udp_query_outcomes [OF toy_hash_ok sample_builder_key, of "replicate 32 5" RfcDraft14 Debug toy_ed True silent_socket]
  by (auto simp: silent_socket_def)

end
