(* ===== verification/Reporting.thy ===== *)
theory Reporting
  imports Client Text "HOL-Library.AList"
begin

text \<open>
  Malfeasance reports: how the client makes them from a causality violation and submits them
  (\<^verbatim>\<open>reporting.rs\<close>), and how the reporting server checks and stores them (\<^verbatim>\<open>validation.rs\<close>, \<^verbatim>\<open>storage.rs\<close>
  and the handlers of \<^verbatim>\<open>lib.rs\<close> of that crate). Arguments are the Base64 codec, the results of the HTTP
  posts, identifiers and time stamps, and the method \<open>validate\<close> the reporting server calls, which the client
  library does not have. Shown: submission ends and backs off exponentially; the server answers every
  report without panicking; a report on measurements other than the first two of a sequence is rejected.
\<close>

section \<open>Report entries\<close>

record report_entry =
  re_rand :: "string option"
  re_request :: string
  re_response :: string
  re_public_key :: string

type_synonym malfeasance_report = "report_entry list"

definition entry_from_measurement :: "(bytes \<Rightarrow> string) \<Rightarrow> 'addr measurement \<Rightarrow> ('e, report_entry) outcome" where
  "entry_from_measurement encode m =
     and_then (expect (as_frame_bytes request_wire_size request_to_wire (ms_request m))) (\<lambda>request_bytes.
     and_then (expect (as_frame_bytes resp_wire_size resp_to_wire (ms_response m))) (\<lambda>response_bytes.
     and_then (case ms_public_key m of Some pk \<Rightarrow> Ok pk | None \<Rightarrow> Panic) (\<lambda>public_key.
     Ok \<lparr>re_rand = map_option encode (ms_rand_value m), re_request = encode request_bytes,
         re_response = encode response_bytes, re_public_key = encode public_key\<rparr>)))"

definition from_violation :: "(bytes \<Rightarrow> string) \<Rightarrow> 'addr causality_violation \<Rightarrow> ('e, malfeasance_report) outcome" where
  "from_violation encode v =
     and_then (entry_from_measurement encode (cv_measurement_i v)) (\<lambda>ei.
     and_then (entry_from_measurement encode (cv_measurement_j v)) (\<lambda>ej. Ok [ei, ej]))"

section \<open>Submission\<close>

datatype reporting_error = SerializationError error | HttpError string

definition MIN_BACKOFF_SECS :: u64 where
  "MIN_BACKOFF_SECS = 10"

definition mul_word :: "profile \<Rightarrow> 'w::len word \<Rightarrow> 'w word \<Rightarrow> ('e, 'w word) outcome" where
  "mul_word p a b =
     (if unat a * unat b < 2 ^ LENGTH('w) then Ok (a * b)
      else case p of Debug \<Rightarrow> Panic | Release \<Rightarrow> Ok (a * b))"

text \<open>The loop of \<open>submit\<close>. Post number \<open>k\<close> succeeds if \<open>post k\<close> is \<open>None\<close> and fails with the given text
  otherwise; the result comes with the seconds slept.\<close>

partial_function (option) submit_loop ::
  "profile \<Rightarrow> u32 \<Rightarrow> (nat \<Rightarrow> string option) \<Rightarrow> nat \<Rightarrow> u32 \<Rightarrow> u64 \<Rightarrow> u64 list \<Rightarrow>
     ((reporting_error, unit) outcome \<times> u64 list) option" where
  "submit_loop p retries post k attempts backoff_secs slept =
     (case post k of
        None \<Rightarrow> Some (Ok (), slept)
      | Some e \<Rightarrow>
          (case add_word p attempts 1 of
             Ok attempts' \<Rightarrow>
               if attempts' > retries then Some (Err (HttpError e), slept)
               else (case mul_word p backoff_secs 2 of
                       Ok backoff' \<Rightarrow> submit_loop p retries post (Suc k) attempts' backoff' (slept @ [backoff_secs])
                     | Err (u :: unit) \<Rightarrow> Some (Panic, slept @ [backoff_secs])
                     | Panic \<Rightarrow> Some (Panic, slept @ [backoff_secs]))
           | Err (u :: unit) \<Rightarrow> Some (Panic, slept)
           | Panic \<Rightarrow> Some (Panic, slept)))"

declare submit_loop.simps [code]

definition submit :: "profile \<Rightarrow> u32 \<Rightarrow> (nat \<Rightarrow> string option) \<Rightarrow> ((reporting_error, unit) outcome \<times> u64 list) option" where
  "submit p retries post = submit_loop p retries post 0 0 MIN_BACKOFF_SECS []"

text \<open>Without the \<open>reporting\<close> feature.\<close>

definition submit_disabled :: "(reporting_error, unit) outcome" where
  "submit_disabled = Err (HttpError ''Reporting is disabled'')"

section \<open>Validation of reports\<close>

record decoded_entry =
  de_request_bytes :: bytes
  de_response_bytes :: bytes
  de_public_key_bytes :: bytes
  de_rand_bytes :: "bytes option"

text \<open>The error texts, with the index of the entry.\<close>

datatype report_error =
    TooFewEntries
  | InvalidRequest nat
  | InvalidResponse nat
  | InvalidPublicKey nat
  | PublicKeyLength nat nat
  | InvalidRand nat
  | RandLength nat nat
  | ValidationFailedAt nat validation_error
  | UnexpectedRand nat
  | MissingRand nat
  | NonceMismatch nat

definition decode_entry_base64 ::
  "(string \<Rightarrow> bytes option) \<Rightarrow> report_entry \<Rightarrow> nat \<Rightarrow> (report_error, decoded_entry) outcome" where
  "decode_entry_base64 decode entry index =
     and_then (ok_or (InvalidRequest index) (decode (re_request entry))) (\<lambda>request_bytes.
     and_then (ok_or (InvalidResponse index) (decode (re_response entry))) (\<lambda>response_bytes.
     and_then (ok_or (InvalidPublicKey index) (decode (re_public_key entry))) (\<lambda>public_key_bytes.
     if length public_key_bytes \<noteq> 32 then Err (PublicKeyLength index (length public_key_bytes))
     else and_then (case re_rand entry of
                      None \<Rightarrow> Ok None
                    | Some rand_str \<Rightarrow>
                        and_then (ok_or (InvalidRand index) (decode rand_str)) (\<lambda>bytes.
                        if length bytes \<noteq> 32 then Err (RandLength index (length bytes)) else Ok (Some bytes))) (\<lambda>rand_bytes.
     Ok \<lparr>de_request_bytes = request_bytes, de_response_bytes = response_bytes,
         de_public_key_bytes = public_key_bytes, de_rand_bytes = rand_bytes\<rparr>))))"

definition parse_interaction_pair ::
  "profile \<Rightarrow> decoded_entry \<Rightarrow> nat \<Rightarrow> (report_error, request \<times> response) outcome" where
  "parse_interaction_pair p decoded index =
     and_then (map_err (\<lambda>_. InvalidRequest index) (parse (from_frame (request_from_wire p)) (de_request_bytes decoded))) (\<lambda>req.
     and_then (map_err (\<lambda>_. InvalidResponse index) (parse (from_frame (resp_from_wire p)) (de_response_bytes decoded))) (\<lambda>resp.
     Ok (req, resp)))"

type_synonym validate_fn = "response_validator \<Rightarrow> bytes \<Rightarrow> response \<Rightarrow> (validation_error, u64) outcome"

definition validate_entry ::
  "validate_fn \<Rightarrow> bytes \<Rightarrow> response \<Rightarrow> bytes \<Rightarrow> nat \<Rightarrow> (report_error, unit) outcome" where
  "validate_entry validate request_bytes resp public_key_bytes index =
     and_then (pubk_from_slice public_key_bytes) (\<lambda>public_key.
     and_then (validator_new_with_key public_key) (\<lambda>validator.
     and_then (map_err (ValidationFailedAt index) (validate validator request_bytes resp)) (\<lambda>_. Ok ())))"

definition validate_chaining ::
  "hash_fn \<Rightarrow> request \<Rightarrow> decoded_entry \<Rightarrow> response option \<Rightarrow> nat \<Rightarrow> (report_error, unit) outcome" where
  "validate_chaining H req decoded previous_response index =
     (case previous_response of
        None \<Rightarrow> if de_rand_bytes decoded \<noteq> None then Err (UnexpectedRand index) else Ok ()
      | Some prev \<Rightarrow>
          and_then (ok_or (MissingRand index) (de_rand_bytes decoded)) (\<lambda>rand_bytes.
          and_then (calculate_chained_nonce H prev rand_bytes) (\<lambda>expected_nonce.
          if request_nonc req \<noteq> expected_nonce then Err (NonceMismatch index) else Ok ())))"

fun validate_entries ::
  "profile \<Rightarrow> hash_fn \<Rightarrow> (string \<Rightarrow> bytes option) \<Rightarrow> validate_fn \<Rightarrow> nat \<Rightarrow> response option \<Rightarrow> report_entry list \<Rightarrow>
     (report_error, unit) outcome" where
  "validate_entries p H decode validate i previous_response [] = Ok ()"
| "validate_entries p H decode validate i previous_response (entry # entries) =
     and_then (decode_entry_base64 decode entry i) (\<lambda>decoded.
     and_then (parse_interaction_pair p decoded i) (\<lambda>(req, resp).
     and_then (validate_entry validate (de_request_bytes decoded) resp (de_public_key_bytes decoded) i) (\<lambda>_.
     and_then (validate_chaining H req decoded previous_response i) (\<lambda>_.
     validate_entries p H decode validate (Suc i) (Some resp) entries))))"

definition validate_report ::
  "profile \<Rightarrow> hash_fn \<Rightarrow> (string \<Rightarrow> bytes option) \<Rightarrow> validate_fn \<Rightarrow> malfeasance_report \<Rightarrow> (report_error, unit) outcome" where
  "validate_report p H decode validate report =
     (if length report < 2 then Err TooFewEntries
      else validate_entries p H decode validate 0 None report)"

section \<open>Storage and handlers\<close>

record stored_report =
  st_id :: string
  st_timestamp :: int
  st_source_ip :: string
  st_report :: malfeasance_report

text \<open>The hash map of \<open>InMemoryStorage\<close>, in one of its iteration orders.\<close>

type_synonym in_memory_storage = "(string \<times> stored_report) list"

definition storage_new :: in_memory_storage where
  "storage_new = []"

definition storage_store ::
  "string \<Rightarrow> int \<Rightarrow> malfeasance_report \<Rightarrow> string \<Rightarrow> in_memory_storage \<Rightarrow> ('e, string) outcome \<times> in_memory_storage" where
  "storage_store rid now report source_ip st =
     (Ok rid, AList.update rid \<lparr>st_id = rid, st_timestamp = now, st_source_ip = source_ip, st_report = report\<rparr> st)"

definition storage_get :: "string \<Rightarrow> in_memory_storage \<Rightarrow> ('e, stored_report option) outcome" where
  "storage_get rid st = Ok (map_of st rid)"

definition storage_list :: "nat \<Rightarrow> in_memory_storage \<Rightarrow> ('e, stored_report list) outcome" where
  "storage_list limit st = Ok (take limit (sort_key (\<lambda>r. - st_timestamp r) (map snd st)))"

datatype status_code = CREATED | BAD_REQUEST | INTERNAL_SERVER_ERROR | NOT_FOUND

text \<open>The text sent with an error status: that of the validation or that of the storage.\<close>

datatype error_text = ValidationText report_error | StorageText string

text \<open>The handlers over any storage: \<open>store\<close> and \<open>get\<close> are the methods of the trait.\<close>

definition handle_report ::
  "profile \<Rightarrow> hash_fn \<Rightarrow> (string \<Rightarrow> bytes option) \<Rightarrow> validate_fn \<Rightarrow>
     (malfeasance_report \<Rightarrow> string \<Rightarrow> 'st \<Rightarrow> (string, string) outcome \<times> 'st) \<Rightarrow> string \<Rightarrow> malfeasance_report \<Rightarrow> 'st \<Rightarrow>
     (status_code \<times> error_text, status_code \<times> string) outcome \<times> 'st" where
  "handle_report p H decode validate store addr report st =
     (case validate_report p H decode validate report of
        Panic \<Rightarrow> (Panic, st)
      | Err e \<Rightarrow> (Err (BAD_REQUEST, ValidationText e), st)
      | Ok _ \<Rightarrow>
          (case store report addr st of
             (Ok rid, st') \<Rightarrow> (Ok (CREATED, rid), st')
           | (Err e, st') \<Rightarrow> (Err (INTERNAL_SERVER_ERROR, StorageText e), st')
           | (Panic, st') \<Rightarrow> (Panic, st')))"

definition get_report ::
  "(string \<Rightarrow> 'st \<Rightarrow> (string, stored_report option) outcome) \<Rightarrow> string \<Rightarrow> 'st \<Rightarrow> (status_code, stored_report) outcome" where
  "get_report get rid st =
     (case get rid st of
        Ok (Some r) \<Rightarrow> Ok r
      | Ok None \<Rightarrow> Err NOT_FOUND
      | Err e \<Rightarrow> Err INTERNAL_SERVER_ERROR
      | Panic \<Rightarrow> Panic)"

section \<open>The storage contract\<close>

text \<open>What the handlers rely on: a report that was stored is found under the identifier that was returned,
  and storing it leaves the other reports alone.\<close>

locale report_storage =
  fixes store :: "'k \<Rightarrow> malfeasance_report \<Rightarrow> string \<Rightarrow> 'st \<Rightarrow> (string, string) outcome \<times> 'st"
    and get :: "string \<Rightarrow> 'st \<Rightarrow> (string, stored_report option) outcome"
  assumes store_panic: "fst (store k report ip st) \<noteq> Panic"
    and get_store: "store k report ip st = (Ok rid, st') \<Longrightarrow>
          \<exists>r. get rid st' = Ok (Some r) \<and> st_report r = report \<and> st_source_ip r = ip"
    and get_other: "store k report ip st = (Ok rid, st') \<Longrightarrow> rid' \<noteq> rid \<Longrightarrow> get rid' st' = get rid' st"
begin

lemma handle_then_get:
  assumes "handle_report p H decode validate (store k) addr report st = (Ok (c, rid), st')"
  shows "\<exists>r. get_report get rid st' = Ok r \<and> st_report r = report \<and> st_source_ip r = addr"
    and "rid' \<noteq> rid \<Longrightarrow> get_report get rid' st' = get_report get rid' st"
    and "validate_report p H decode validate report = Ok ()"
proof -
  have s: "store k report addr st = (Ok rid, st')" "validate_report p H decode validate report = Ok ()"
    using assms by (auto simp: handle_report_def split: outcome.splits prod.splits)
  from get_store [OF s(1)] show "\<exists>r. get_report get rid st' = Ok r \<and> st_report r = report \<and> st_source_ip r = addr"
    by (auto simp: get_report_def)
  show "rid' \<noteq> rid \<Longrightarrow> get_report get rid' st' = get_report get rid' st"
    using get_other [OF s(1)] by (simp add: get_report_def)
  show "validate_report p H decode validate report = Ok ()" by (rule s(2))
qed

lemma handle_no_panic:
  assumes "validate_report p H decode validate report \<noteq> Panic"
  shows "fst (handle_report p H decode validate (store k) addr report st) \<noteq> Panic"
  using assms store_panic [of k report addr st]
  by (auto simp: handle_report_def split: outcome.splits prod.splits)

lemma handle_unchanged:
  assumes "\<forall>u. validate_report p H decode validate report \<noteq> Ok u"
  shows "snd (handle_report p H decode validate (store k) addr report st) = st"
  using assms by (auto simp: handle_report_def split: outcome.splits)

end

interpretation memory_storage: report_storage "\<lambda>(rid, now). storage_store rid now" storage_get
  by unfold_locales (auto simp: storage_store_def storage_get_def update_conv split: prod.splits)

section \<open>Where a panic can come from\<close>

text \<open>\<open>validate\<close> panics on one of the entries, with the key and the request of that entry.\<close>

definition validate_panics ::
  "profile \<Rightarrow> (string \<Rightarrow> bytes option) \<Rightarrow> validate_fn \<Rightarrow> nat \<Rightarrow> report_entry list \<Rightarrow> bool" where
  "validate_panics p decode validate i entries \<longleftrightarrow>
     (\<exists>k<length entries. \<exists>d req resp. decode_entry_base64 decode (entries ! k) (i + k) = Ok d \<and>
        parse_interaction_pair p d (i + k) = Ok (req, resp) \<and>
        validate (Some (de_public_key_bytes d)) (de_request_bytes d) resp = Panic)"

lemma decode_entry_no_panic: "decode_entry_base64 decode entry i \<noteq> Panic"
  by (auto simp: decode_entry_base64_def ok_or_def and_then_Panic_iff split: option.splits if_splits)

lemma decode_entry_length: "decode_entry_base64 decode entry i = Ok d \<Longrightarrow> length (de_public_key_bytes d) = 32"
  by (auto simp: decode_entry_base64_def and_then_Ok_iff split: if_splits)

lemma parse_pair_no_panic: "parse_interaction_pair p d i \<noteq> Panic"
proof -
  have "parse (from_frame (request_from_wire p)) (de_request_bytes d) \<noteq> Panic"
    "parse (from_frame (resp_from_wire p)) (de_response_bytes d) \<noteq> Panic"
    by (intro parse_no_panic safe_intro)+
  then show ?thesis
    by (auto simp: parse_interaction_pair_def and_then_Panic_iff map_err_Panic_iff split: outcome.splits)
qed

lemma parse_pair_wf: "parse_interaction_pair p d i = Ok (req, resp) \<Longrightarrow> resp_wf resp"
  by (auto simp: parse_interaction_pair_def and_then_Ok_iff intro: parse_yields [OF resp_yields])

lemma validate_entry_panic:
  assumes "validate_entry validate q r pk i = Panic" "length pk = 32"
  shows "validate (Some pk) q r = Panic"
  using assms by (auto simp: validate_entry_def pubk_from_slice_def validator_new_with_key_def copy_array_def and_then_Panic_iff
      map_err_Panic_iff)

lemma validate_chaining_no_panic:
  assumes "sha512_ok H" "\<forall>r. prev = Some r \<longrightarrow> resp_wf r"
  shows "validate_chaining H req d prev i \<noteq> Panic"
  using assms
  by (auto simp: validate_chaining_def ok_or_def and_then_Panic_iff chained_nonce_run split: option.splits if_splits)

lemma validate_entries_panic:
  assumes "sha512_ok H" "\<forall>r. prev = Some r \<longrightarrow> resp_wf r" "validate_entries p H decode validate i prev entries = Panic"
  shows "validate_panics p decode validate i entries"
  using assms(2,3)
proof (induction entries arbitrary: i prev)
  case (Cons e es)
  obtain d req resp where d: "decode_entry_base64 decode e i = Ok d" "parse_interaction_pair p d i = Ok (req, resp)"
    "validate_entry validate (de_request_bytes d) resp (de_public_key_bytes d) i = Panic \<or>
       validate_entries p H decode validate (Suc i) (Some resp) es = Panic"
    using Cons.prems decode_entry_no_panic parse_pair_no_panic validate_chaining_no_panic [OF assms(1)]
    by (auto simp: and_then_Panic_iff)
  from d(3) show ?case
  proof
    assume "validate_entry validate (de_request_bytes d) resp (de_public_key_bytes d) i = Panic"
    from validate_entry_panic [OF this decode_entry_length [OF d(1)]] d(1,2) show ?case
      unfolding validate_panics_def by (intro exI [of _ 0]) auto
  next
    assume "validate_entries p H decode validate (Suc i) (Some resp) es = Panic"
    then have "validate_panics p decode validate (Suc i) es" using Cons.IH [of "Some resp"] parse_pair_wf [OF d(2)] by simp
    then obtain k where "k < length es" "\<exists>d req resp. decode_entry_base64 decode (es ! k) (Suc i + k) = Ok d \<and>
        parse_interaction_pair p d (Suc i + k) = Ok (req, resp) \<and> validate (Some (de_public_key_bytes d)) (de_request_bytes d) resp = Panic"
      unfolding validate_panics_def by blast
    then show ?case unfolding validate_panics_def by (intro exI [of _ "Suc k"]) auto
  qed
qed simp

lemma validate_report_panic:
  assumes "sha512_ok H" "validate_report p H decode validate report = Panic"
  shows "validate_panics p decode validate 0 report"
  using validate_entries_panic [OF assms(1), of None] assms(2) by (simp add: validate_report_def split: if_splits)

section \<open>Submission ends\<close>

lemma submit_loop_run:
  assumes "unat retries < 2 ^ 32 - 1" "k \<le> unat retries" "\<forall>i<k. post i \<noteq> None"
  shows "\<exists>r n. submit_loop Release retries post k (of_nat k) (10 * 2 ^ k) (map (\<lambda>i. 10 * 2 ^ i) [0..<k])
      = Some (r, map (\<lambda>i. 10 * 2 ^ i) [0..<n]) \<and> n \<le> unat retries \<and> (\<forall>i<n. post i \<noteq> None) \<and>
    (r = Ok () \<and> post n = None \<or> (\<exists>e. r = Err (HttpError e) \<and> post n = Some e \<and> n = unat retries))"
  using assms(2,3)
proof (induction "unat retries - k" arbitrary: k)
  case 0
  then have k: "k = unat retries" by simp
  have "unat (of_nat k :: u32) = k" using k by simp
  then have "add_word Release (of_nat k :: u32) 1 = (Ok (of_nat k + 1) :: (unit, u32) outcome)"
    using assms(1) k by (simp add: add_word_def)
  moreover have "of_nat k + 1 > retries"
    using assms(1) k by (simp add: word_less_nat_alt unat_word_ariths)
  ultimately show ?case
    using k 0(3) by (subst submit_loop.simps) (auto split: option.splits intro!: exI [of _ k])
next
  case (Suc d)
  then have k: "k < unat retries" by simp
  have u: "unat (of_nat k :: u32) = k" using k assms(1) by (simp add: unat_of_nat take_bit_nat_eq_self)
  then have a: "add_word Release (of_nat k :: u32) 1 = (Ok (of_nat (Suc k)) :: (unit, u32) outcome)"
    using assms(1) k by (simp add: add_word_def)
  have le: "\<not> (of_nat (Suc k) :: u32) > retries"
    using assms(1) k by (simp add: word_less_nat_alt unat_of_nat take_bit_nat_eq_self del: of_nat_Suc)
  have m: "mul_word Release (10 * 2 ^ k :: u64) 2 = (Ok (10 * 2 ^ Suc k) :: (unit, u64) outcome)"
    by (simp add: mul_word_def)
  show ?case
  proof (cases "post k")
    case None
    then show ?thesis using k Suc(4) by (subst submit_loop.simps) (auto intro!: exI [of _ k])
  next
    case (Some e)
    have s: "submit_loop Release retries post k (of_nat k) (10 * 2 ^ k) (map (\<lambda>i. 10 * 2 ^ i) [0..<k])
      = submit_loop Release retries post (Suc k) (of_nat (Suc k)) (10 * 2 ^ Suc k) (map (\<lambda>i. 10 * 2 ^ i) [0..<Suc k])"
      by (subst submit_loop.simps) (simp add: Some a le m del: of_nat_Suc power_Suc)
    have "\<forall>i<Suc k. post i \<noteq> None" using Suc(4) Some less_Suc_eq by auto
    then show ?thesis unfolding s using Suc(1) [of "Suc k"] Suc(2) k by simp
  qed
qed

section \<open>Properties\<close>

text \<open>C29. Submitting a report ends, in a release build with fewer than \<open>2 ^ 32 - 1\<close> retries: after at most
  that many failed posts it returns, with success if a post succeeded and with the error of the last post
  otherwise; before retry number \<open>i\<close> it has slept \<open>10 * 2 ^ i\<close> seconds.\<close>

theorem submit_ends:
  assumes "unat retries < 2 ^ 32 - 1"
  shows "\<exists>r n. submit Release retries post = Some (r, map (\<lambda>i. 10 * 2 ^ i) [0..<n]) \<and> n \<le> unat retries \<and>
    (\<forall>i<n. post i \<noteq> None) \<and>
    (r = Ok () \<and> post n = None \<or> (\<exists>e. r = Err (HttpError e) \<and> post n = Some e \<and> n = unat retries))"
  using submit_loop_run [OF assms, of 0 post] by (simp add: submit_def MIN_BACKOFF_SECS_def)

theorem submit_ends_witness:
  "submit Release 3 (\<lambda>k. if k = 2 then None else Some ''timeout'') = Some (Ok (), [10, 20])"
proof -
  obtain r n where r: "submit Release 3 (\<lambda>k. if k = 2 then None else Some ''timeout'') = Some (r, map (\<lambda>i. 10 * 2 ^ i) [0..<n])"
    "n \<le> 3" "\<forall>i<n. i \<noteq> 2" "r = Ok () \<and> n = 2 \<or> n = 3"
    using submit_ends [of 3 "\<lambda>k. if k = 2 then None else Some ''timeout''"] by (auto split: if_splits)
  moreover have "\<not> 2 < n" using r(3) by blast
  ultimately have "n = 2" "r = Ok ()" by auto
  with r(1) show ?thesis by (simp add: numeral_eq_Suc)
qed

text \<open>The reporting server with its in-memory storage: a report makes the handler panic only where the
  validator panics on an entry of it, however it was encoded; a report that does not validate changes nothing; and a report that
  was accepted is returned under the new identifier, while all other reports stay as they were.\<close>

lemma report_service:
  assumes "sha512_ok H" "\<not> validate_panics p decode validate 0 report"
  shows "fst (handle_report p H decode validate (storage_store rid now) addr report st) \<noteq> Panic \<and>
    (validate_report p H decode validate report \<noteq> Ok () \<longrightarrow>
       snd (handle_report p H decode validate (storage_store rid now) addr report st) = st) \<and>
    (\<forall>c i st'. handle_report p H decode validate (storage_store rid now) addr report st = (Ok (c, i), st') \<longrightarrow>
       validate_report p H decode validate report = Ok () \<and>
       (\<exists>r. get_report storage_get i st' = Ok r \<and> st_report r = report \<and> st_source_ip r = addr) \<and>
       (\<forall>j. j \<noteq> i \<longrightarrow> get_report storage_get j st' = get_report storage_get j st))"
proof -
  have np: "validate_report p H decode validate report \<noteq> Panic"
    using validate_report_panic [OF assms(1)] assms(2) by blast
  note m = memory_storage.handle_no_panic [OF np, of "(rid, now)", simplified]
    memory_storage.handle_then_get [of p H decode validate "(rid, now)", simplified]
    memory_storage.handle_unchanged [of p H decode validate report "(rid, now)", simplified]
  show ?thesis by (intro conjI allI impI) (use m in auto)
qed

lemma rand_entry_rejected:
  assumes "\<forall>b. decode (encode b) = Some b" "entry_from_measurement encode m = (Ok e :: ('e, report_entry) outcome)"
    and "ms_rand_value m \<noteq> None"
  shows "validate_entries p H decode validate i None (e # es) \<noteq> Ok ()"
proof -
  obtain rand where "re_rand e = Some (encode rand)"
    using assms(2,3) by (auto simp: entry_from_measurement_def and_then_Ok_iff split: option.splits)
  then have "de_rand_bytes d = Some rand" if "decode_entry_base64 decode e i = Ok d" for d
    using that assms(1) by (auto simp: decode_entry_base64_def ok_or_def and_then_Ok_iff split: if_splits option.splits)
  then have "validate_chaining H req d None i \<noteq> Ok ()" if "decode_entry_base64 decode e i = Ok d" for d req
    using that by (simp add: validate_chaining_def)
  then show ?thesis by (auto simp: and_then_Ok_iff)
qed

text \<open>C33. Only a violation that involves the first measurement of a sequence can be reported: the client
  puts the two measurements of the violation into the report, with their random values, and the reporting
  server rejects a report whose first entry has a random value. Every later measurement of a sequence has
  one, so that the report on a violation between measurements \<open>i > 0\<close> and \<open>j\<close> is never accepted.\<close>

theorem late_violation_rejected:
  assumes "sha512_ok H" "\<forall>c\<in>set clients. client_ok c" "\<forall>k. length (rands k) = 32"
    and "sequence_run q E H rands exs rounds clients = Ok ms" "0 < i" "i < length ms"
    and "cv_measurement_i v = ms ! i" "\<forall>b. decode (encode b) = Some b"
    and "from_violation encode v = (Ok report :: ('e, malfeasance_report) outcome)"
  shows "validate_report p H decode validate report \<noteq> Ok ()"
proof -
  have "measured q E H (rands i) (exs i) (clients ! (i mod length clients)) (Some (ms_response (ms ! (i - 1)))) (ms ! i)"
    using sequence_run_chain(2) [OF assms(1-4,6)] assms(5) by simp
  then have r: "ms_rand_value (cv_measurement_i v) \<noteq> None" using assms(7) by (simp add: measured_def)
  obtain ei ej where e: "entry_from_measurement encode (cv_measurement_i v) = (Ok ei :: ('e, report_entry) outcome)" "report = [ei, ej]"
    using assms(9) by (auto simp: from_violation_def and_then_Ok_iff)
  show ?thesis using rand_entry_rejected [OF assms(8) e(1) r]
    by (simp add: validate_report_def e(2) del: validate_entries.simps)
qed

text \<open>A codec that keeps the bytes.\<close>

definition byte_encode :: "bytes \<Rightarrow> string" where
  "byte_encode bs = map (\<lambda>b. char_of (unat b)) bs"

definition byte_decode :: "string \<Rightarrow> bytes option" where
  "byte_decode s = Some (map (\<lambda>c. of_nat (of_char c)) s)"

lemma byte_codec: "\<forall>b. byte_decode (byte_encode b) = Some b"
proof -
  have "of_nat (of_char (char_of (unat b) :: char) :: nat) = b" for b :: u8
  proof -
    have "unat b < 256" using unsigned_less [of b] by simp
    then show ?thesis by simp
  qed
  then show ?thesis by (simp add: byte_encode_def byte_decode_def comp_def)
qed

lemma entry_of_measurement:
  assumes "request_valid (ms_request m)" "resp_wf (ms_response m)" "ms_public_key m \<noteq> None"
  shows "\<exists>e. entry_from_measurement encode m = Ok e"
  using assms request_frame [OF assms(1)] parsed_writer.as_frame_bytes_enc [OF assms(2)]
  by (auto simp: entry_from_measurement_def)

theorem late_violation_rejected_witness:
  "\<exists>c ms report. client_build toy_hash (sample_builder RfcDraft14) = (Ok c :: (client_error, _) outcome) \<and>
     sequence_run Release toy_ed toy_hash (\<lambda>k. replicate 32 (of_nat k)) (\<lambda>_. honest_exchange) 1 [c, c, c] = Ok ms \<and>
     from_violation byte_encode (violation_of (ms ! 1) (ms ! 2)) = (Ok report :: (error, malfeasance_report) outcome) \<and>
     validate_report Release toy_hash byte_decode (\<lambda>_ _ _. Ok 0) report \<noteq> Ok ()"
proof -
  let ?rands = "\<lambda>k. replicate 32 (of_nat k) :: bytes"
  obtain c where c: "client_build toy_hash (sample_builder RfcDraft14) = (Ok c :: (client_error, _) outcome)" "honest_client c"
    using sample_honest by blast
  have k: "\<forall>c\<in>set [c, c, c]. cl_public_key c \<noteq> None" using c(2) by (simp add: honest_client_def)
  obtain ms where ms: "sequence_run Release toy_ed toy_hash ?rands (\<lambda>_. honest_exchange) 1 [c, c, c] = Ok ms"
    and all: "\<forall>m\<in>set ms. (\<exists>q. ms_response m = genuine_response q) \<and> request_valid (ms_request m) \<and> ms_public_key m \<noteq> None"
    unfolding sequence_run_loop [OF k]
    using honest_sequence_loop [of "concat (replicate 1 [c, c, c])" ?rands None Release 0] c(2) by auto
  have ok: "\<forall>c\<in>set [c, c, c]. client_ok c" "\<forall>k. length (?rands k) = 32" using c(2) by (simp_all add: honest_client_def)
  have l: "length ms = 3" using sequence_run_chain(1) [OF toy_hash_ok ok ms] by simp
  have "\<exists>e. entry_from_measurement byte_encode (ms ! i) = (Ok e :: (error, _) outcome)" if "i < 3" for i
    using all that l genuine_response_ok(1) by (intro entry_of_measurement) (metis nth_mem resp_ok_wf)+
  from this [of 1] this [of 2]
  obtain report where r: "from_violation byte_encode (violation_of (ms ! 1) (ms ! 2)) = (Ok report :: (error, malfeasance_report) outcome)"
    by (auto simp: from_violation_def violation_of_def)
  have "validate_report Release toy_hash byte_decode (\<lambda>_ _ _. Ok 0) report \<noteq> Ok ()"
    by (rule late_violation_rejected [OF toy_hash_ok ok ms, of 1 "violation_of (ms ! 1) (ms ! 2)", OF _ _ _ byte_codec r])
      (simp_all add: l violation_of_def)
  with c(1) ms r show ?thesis by blast
qed

end
