(* ===== verification/Server_List.thy ===== *)
theory Server_List
  imports Versions Text "HOL-Library.Multiset"
begin

text \<open>
  Server lists of the client (\<^verbatim>\<open>server_list.rs\<close>): their validation, the accessors that rely on it and
  the random choice of servers. Decoding JSON is the job of a library and an argument here, as are the
  contents of the file and the permutation a shuffle applies. Shown: exactly which lists are valid, that
  after validation no accessor panics and host and port are the ones validated, and that a choice
  returns distinct entries of the list.
\<close>

section \<open>Data\<close>

datatype protocol = Tcp | Udp

record address =
  ad_protocol :: protocol
  ad_address :: string

record server =
  sv_name :: string
  sv_version :: string
  sv_protocol_version :: "string option"
  sv_public_key_type :: string
  sv_public_key :: string
  sv_addresses :: "address list"

record server_list =
  sl_servers :: "server list"
  sl_sources :: "string list option"
  sl_reporting_url :: "string option"

datatype server_list_error =
    EmptyField string
  | InvalidAddress string
  | InvalidUrl string
  | InvalidJson
  | ListIoError
  | ConfigError string
  | InvalidProtocolVersion string string

section \<open>Addresses\<close>

definition address_validate :: "address \<Rightarrow> (server_list_error, unit) outcome" where
  "address_validate a =
     (let parts = splitn2 CHR '':'' (ad_address a) in
      if length parts \<noteq> 2 then Err (InvalidAddress (ad_address a))
      else and_then (index_at parts 1) (\<lambda>port_str.
           case parse_u16 port_str of
             Some _ \<Rightarrow> Ok ()
           | None \<Rightarrow> Err (InvalidAddress (ad_address a))))"

definition address_new :: "protocol \<Rightarrow> string \<Rightarrow> (server_list_error, address) outcome" where
  "address_new protocol text =
     (let addr = \<lparr>ad_protocol = protocol, ad_address = text\<rparr> in
      and_then (address_validate addr) (\<lambda>_. Ok addr))"

definition host :: "address \<Rightarrow> ('e, string) outcome" where
  "host a = (case split_on CHR '':'' (ad_address a) of h # _ \<Rightarrow> Ok h | [] \<Rightarrow> Panic)"

definition port :: "address \<Rightarrow> ('e, u16) outcome" where
  "port a =
     (case split_on CHR '':'' (ad_address a) of
        _ # p # _ \<Rightarrow> (case parse_u16 p of Some n \<Rightarrow> Ok n | None \<Rightarrow> Panic)
      | _ \<Rightarrow> Panic)"

section \<open>Servers\<close>

text \<open>A loop that stops at the first error.\<close>

fun validate_all :: "('a \<Rightarrow> ('e, unit) outcome) \<Rightarrow> 'a list \<Rightarrow> ('e, unit) outcome" where
  "validate_all f [] = Ok ()"
| "validate_all f (x # xs) = and_then (f x) (\<lambda>_. validate_all f xs)"

definition server_validate :: "server \<Rightarrow> (server_list_error, unit) outcome" where
  "server_validate s =
     (if sv_name s = [] then Err (EmptyField ''name'')
      else if sv_version s = [] then Err (EmptyField ''version'')
      else if sv_public_key_type s = [] then Err (EmptyField ''publicKeyType'')
      else if sv_public_key s = [] then Err (EmptyField ''publicKey'')
      else if sv_addresses s = [] then Err (EmptyField (sv_name s @ ''.addresses''))
      else and_then (validate_all address_validate (sv_addresses s)) (\<lambda>_.
           case sv_protocol_version s of
             Some v \<Rightarrow> (case version_from_str v of
                          Ok _ \<Rightarrow> Ok ()
                        | _ \<Rightarrow> Err (InvalidProtocolVersion (sv_name s) v))
           | None \<Rightarrow> Ok ()))"

definition server_new ::
  "string \<Rightarrow> string \<Rightarrow> string \<Rightarrow> string \<Rightarrow> address list \<Rightarrow> (server_list_error, server) outcome" where
  "server_new name version public_key_type public_key addresses =
     (let s = \<lparr>sv_name = name, sv_version = version, sv_protocol_version = None,
               sv_public_key_type = public_key_type, sv_public_key = public_key, sv_addresses = addresses\<rparr> in
      and_then (server_validate s) (\<lambda>_. Ok s))"

definition first_address :: "server \<Rightarrow> ('e, address) outcome" where
  "first_address s = index_at (sv_addresses s) 0"

definition server_protocol_version :: "server \<Rightarrow> ('e, protocol_version) outcome" where
  "server_protocol_version s =
     (case sv_protocol_version s of
        Some v \<Rightarrow> expect (version_from_str v)
      | None \<Rightarrow> Ok RfcDraft14)"

section \<open>Lists\<close>

definition validate_source :: "string \<Rightarrow> (server_list_error, unit) outcome" where
  "validate_source url =
     (if \<not> starts_with ''https://'' url then Err (InvalidUrl (''Source URL must use HTTPS scheme: '' @ url)) else Ok ())"

definition server_list_validate :: "server_list \<Rightarrow> (server_list_error, unit) outcome" where
  "server_list_validate l =
     (if sl_servers l = [] then Err (EmptyField ''server list'')
      else and_then (validate_all server_validate (sl_servers l)) (\<lambda>_.
           and_then (case sl_sources l of Some urls \<Rightarrow> validate_all validate_source urls | None \<Rightarrow> Ok ()) (\<lambda>_.
           case sl_reporting_url l of
             Some url \<Rightarrow>
               if \<not> starts_with ''https://'' url
               then Err (InvalidUrl (''Reports URL must use HTTPS scheme: '' @ url)) else Ok ()
           | None \<Rightarrow> Ok ())))"

definition server_list_new ::
  "server list \<Rightarrow> string list option \<Rightarrow> string option \<Rightarrow> (server_list_error, server_list) outcome" where
  "server_list_new servers sources reports =
     (let l = \<lparr>sl_servers = servers, sl_sources = sources, sl_reporting_url = reports\<rparr> in
      and_then (server_list_validate l) (\<lambda>_. Ok l))"

definition from_json :: "(string \<Rightarrow> server_list option) \<Rightarrow> string \<Rightarrow> (server_list_error, server_list) outcome" where
  "from_json decode json =
     (case decode json of
        None \<Rightarrow> Err InvalidJson
      | Some l \<Rightarrow> and_then (server_list_validate l) (\<lambda>_. Ok l))"

text \<open>\<open>content\<close> is what reading the file returns.\<close>

definition from_file :: "(string \<Rightarrow> server_list option) \<Rightarrow> string option \<Rightarrow> (server_list_error, server_list) outcome" where
  "from_file decode content = (case content of None \<Rightarrow> Err ListIoError | Some json \<Rightarrow> from_json decode json)"

definition choose_random ::
  "(server list \<Rightarrow> server list) \<Rightarrow> nat \<Rightarrow> server_list \<Rightarrow> (server_list_error, server list) outcome" where
  "choose_random shuffle n l =
     (if n > length (sl_servers l) then Err (ConfigError ''requested more servers than available'')
      else slice_of (shuffle (sl_servers l)) 0 n)"

definition add_server :: "server \<Rightarrow> server_list \<Rightarrow> server_list" where
  "add_server s l = l\<lparr>sl_servers := sl_servers l @ [s]\<rparr>"

section \<open>What validation establishes\<close>

definition address_ok :: "address \<Rightarrow> bool" where
  "address_ok a \<longleftrightarrow>
     (\<exists>h ps p. ad_address a = h @ CHR '':'' # ps \<and> CHR '':'' \<notin> set h \<and> parse_u16 ps = Some p)"

definition server_ok :: "server \<Rightarrow> bool" where
  "server_ok s \<longleftrightarrow>
     sv_name s \<noteq> [] \<and> sv_version s \<noteq> [] \<and> sv_public_key_type s \<noteq> [] \<and> sv_public_key s \<noteq> [] \<and>
     sv_addresses s \<noteq> [] \<and> (\<forall>a\<in>set (sv_addresses s). address_ok a) \<and>
     (\<forall>v. sv_protocol_version s = Some v \<longrightarrow> (\<exists>pv. version_from_str v = Ok pv))"

definition server_list_ok :: "server_list \<Rightarrow> bool" where
  "server_list_ok l \<longleftrightarrow>
     sl_servers l \<noteq> [] \<and> (\<forall>s\<in>set (sl_servers l). server_ok s) \<and>
     (\<forall>urls. sl_sources l = Some urls \<longrightarrow> (\<forall>u\<in>set urls. starts_with ''https://'' u)) \<and>
     (\<forall>u. sl_reporting_url l = Some u \<longrightarrow> starts_with ''https://'' u)"

lemma validate_all_Ok: "validate_all f xs = Ok () \<longleftrightarrow> (\<forall>x\<in>set xs. f x = Ok ())"
  by (induction xs) (auto simp: and_then_Ok_iff)

lemma validate_all_no_panic: "(\<And>x. x \<in> set xs \<Longrightarrow> f x \<noteq> Panic) \<Longrightarrow> validate_all f xs \<noteq> Panic"
  by (induction xs) (auto simp: and_then_Panic_iff)

lemma version_from_str_no_panic: "version_from_str v \<noteq> Panic"
  by (simp add: version_from_str_def Let_def)

lemma address_validate_iff: "address_validate a = Ok () \<longleftrightarrow> address_ok a" "address_validate a \<noteq> Panic"
proof -
  show "address_validate a = Ok () \<longleftrightarrow> address_ok a"
  proof
    assume v: "address_validate a = Ok ()"
    then have "length (splitn2 CHR '':'' (ad_address a)) = 2" by (auto simp: address_validate_def Let_def split: if_splits)
    then obtain h ps where "ad_address a = h @ CHR '':'' # ps" "CHR '':'' \<notin> set h" "splitn2 CHR '':'' (ad_address a) = [h, ps]"
      by (rule splitn2_two)
    with v show "address_ok a"
      by (auto simp: address_validate_def address_ok_def index_at_def split: option.splits)
  qed (auto simp: address_validate_def address_ok_def splitn2_append index_at_def)
  show "address_validate a \<noteq> Panic"
    by (auto simp: address_validate_def Let_def index_at_def split: option.splits)
qed

lemma server_validate_iff: "server_validate s = Ok () \<longleftrightarrow> server_ok s" "server_validate s \<noteq> Panic"
  using validate_all_no_panic [of "sv_addresses s" address_validate] address_validate_iff(2) version_from_str_no_panic
  by (auto simp: server_validate_def server_ok_def validate_all_Ok address_validate_iff(1) and_then_Ok_iff and_then_Panic_iff
      split: option.splits outcome.splits)

lemma server_list_validate_iff: "server_list_validate l = Ok () \<longleftrightarrow> server_list_ok l" "server_list_validate l \<noteq> Panic"
  using validate_all_no_panic [of "sl_servers l" server_validate] validate_all_no_panic [of _ validate_source]
  by (auto simp: server_list_validate_def server_list_ok_def validate_all_Ok server_validate_iff validate_source_def
      and_then_Ok_iff and_then_Panic_iff split: option.splits)

lemma address_accessors:
  assumes "ad_address a = h @ CHR '':'' # ps" "CHR '':'' \<notin> set h" "parse_u16 ps = Some p"
  shows "host a = Ok h" "port a = Ok p"
  using assms parse_u16_no_colon [OF assms(3)]
  by (simp_all add: host_def port_def split_on_append split_on_none)

section \<open>Properties\<close>


text \<open>The accessors that call \<open>expect\<close> on what was validated before cannot panic: for every server of
  a list that passed validation there is a first address, its host and port are the two parts that
  were validated, the protocol version is known, and the canonical text built from host and port, which
  the client hands to name resolution, is again a valid address with the same host and port.\<close>

lemma validated_accessors:
  assumes "server_list_validate l = Ok ()" "s \<in> set (sl_servers l)"
  shows "\<exists>a h ps p v. first_address s = (Ok a :: ('e, address) outcome) \<and> ad_address a = h @ CHR '':'' # ps \<and>
     parse_u16 ps = Some p \<and> host a = (Ok h :: ('e, string) outcome) \<and> port a = (Ok p :: ('e, u16) outcome) \<and>
     server_protocol_version s = (Ok v :: ('e, protocol_version) outcome) \<and>
     address_validate (a\<lparr>ad_address := h @ CHR '':'' # show_nat (unat p)\<rparr>) = Ok () \<and>
     host (a\<lparr>ad_address := h @ CHR '':'' # show_nat (unat p)\<rparr>) = (Ok h :: ('e, string) outcome) \<and>
     port (a\<lparr>ad_address := h @ CHR '':'' # show_nat (unat p)\<rparr>) = (Ok p :: ('e, u16) outcome)"
proof -
  have s: "server_ok s" using assms server_list_validate_iff(1) by (auto simp: server_list_ok_def)
  then obtain a as where a: "sv_addresses s = a # as" "address_ok a" by (cases "sv_addresses s") (auto simp: server_ok_def)
  then obtain h ps p where h: "ad_address a = h @ CHR '':'' # ps" "CHR '':'' \<notin> set h" "parse_u16 ps = Some p"
    by (auto simp: address_ok_def)
  obtain v where v: "server_protocol_version s = (Ok v :: ('e, protocol_version) outcome)"
    using s by (cases "sv_protocol_version s") (auto simp: server_protocol_version_def server_ok_def)
  let ?b = "a\<lparr>ad_address := h @ CHR '':'' # show_nat (unat p)\<rparr>"
  have b: "ad_address ?b = h @ CHR '':'' # show_nat (unat p)" by simp
  have "address_validate ?b = Ok ()"
    unfolding address_validate_iff using h(2) parse_u16_show [of p] by (auto simp: address_ok_def)
  with a(1) h v address_accessors [OF h] address_accessors [OF b h(2) parse_u16_show] show ?thesis
    by (auto simp: first_address_def index_at_def)
qed

definition sample_server :: server where
  "sample_server = \<lparr>sv_name = ''int08h'', sv_version = ''IETF-Roughtime'', sv_protocol_version = Some ''8'',
     sv_public_key_type = ''ed25519'', sv_public_key = ''AW5uAoTSTDfG5NfY1bTh08GUnOqlRb+HVhbJ3ODJvsE='',
     sv_addresses = [\<lparr>ad_protocol = Udp, ad_address = ''roughtime.int08h.com:+02002''\<rparr>]\<rparr>"

definition sample_list :: server_list where
  "sample_list = \<lparr>sl_servers = [sample_server], sl_sources = None, sl_reporting_url = Some ''https://example.com/report''\<rparr>"

text \<open>Choosing servers: whatever permutation the shuffle applies, asking for at most as many servers as
  there are returns that many entries of the list, none more often than it is listed, and asking for more
  is an error.\<close>

lemma choose_random_choice:
  assumes "\<forall>xs. mset (shuffle xs) = mset xs"
  shows "(n \<le> length (sl_servers l) \<longrightarrow>
       (\<exists>ys. choose_random shuffle n l = Ok ys \<and> length ys = n \<and> mset ys \<subseteq># mset (sl_servers l))) \<and>
     (n > length (sl_servers l) \<longrightarrow> (\<exists>e. choose_random shuffle n l = Err e))"
proof -
  have l: "length (shuffle (sl_servers l)) = length (sl_servers l)" using assms by (metis size_mset)
  have "mset (take n (shuffle (sl_servers l))) \<subseteq># mset (sl_servers l)" using assms by (metis append_take_drop_id mset_append mset_subset_eq_add_left)
  with l show ?thesis by (auto simp: choose_random_def slice_of_def)
qed

end
