(* ===== verification/Raw_Frame.thy ===== *)
theory Raw_Frame
  imports Cert Text
begin

text \<open>
  The parser behind the client's debugging dump (\<open>RawFrameInfo::parse\<close> in \<^verbatim>\<open>client/src/main.rs\<close>), which reads
  the frame and the message header without the protocol library. The lossy conversion of bytes to text
  is an argument. Shown: it never panics, and on a frame whose message starts with a well-formed header it
  reads the number of tags, the offsets and the tags of that header.
\<close>

record raw_frame_info =
  rf_magic :: bytes
  rf_frame_length :: u32
  rf_num_tags :: u32
  rf_offsets :: "u32 list"
  rf_tags :: "(u32 \<times> string) list"
  rf_values_start :: nat

definition MAX_TAGS :: u32 where
  "MAX_TAGS = 20"

text \<open>\<open>u32::from_le_bytes\<close> of four indexed bytes.\<close>

definition raw_u32 :: "bytes \<Rightarrow> nat \<Rightarrow> ('e, u32) outcome" where
  "raw_u32 bs pos = and_then (slice_of bs pos (pos + 4)) (\<lambda>b. Ok (u32_from_le_bytes b))"

text \<open>The two loops, from index \<open>i\<close> on, \<open>n\<close> more elements.\<close>

fun raw_offsets :: "bytes \<Rightarrow> nat \<Rightarrow> nat \<Rightarrow> nat \<Rightarrow> ('e, u32 list) outcome" where
  "raw_offsets bs offsets_start i 0 = Ok []"
| "raw_offsets bs offsets_start i (Suc n) =
     and_then (raw_u32 bs (offsets_start + i * 4)) (\<lambda>offset.
     and_then (raw_offsets bs offsets_start (Suc i) n) (\<lambda>offsets. Ok (offset # offsets)))"

definition trim_end_zero :: "string \<Rightarrow> string" where
  "trim_end_zero s = rev (dropWhile (\<lambda>c. c = CHR 0x00) (rev s))"

fun raw_tags :: "(bytes \<Rightarrow> string) \<Rightarrow> bytes \<Rightarrow> nat \<Rightarrow> nat \<Rightarrow> nat \<Rightarrow> ('e, (u32 \<times> string) list) outcome" where
  "raw_tags lossy bs tags_start i 0 = Ok []"
| "raw_tags lossy bs tags_start i (Suc n) =
     and_then (slice_of bs (tags_start + i * 4) (tags_start + i * 4 + 4)) (\<lambda>tag_bytes.
     and_then (raw_tags lossy bs tags_start (Suc i) n) (\<lambda>tags.
     Ok ((u32_from_be_bytes tag_bytes, trim_end_zero (lossy tag_bytes)) # tags)))"

definition raw_frame_parse :: "(bytes \<Rightarrow> string) \<Rightarrow> bytes \<Rightarrow> ('e, raw_frame_info option) outcome" where
  "raw_frame_parse lossy bs =
     (if length bs < 16 then Ok None
      else
      and_then (slice_of bs 0 8) (\<lambda>magic.
      and_then (raw_u32 bs 8) (\<lambda>frame_length.
      let msg_start = 12 in
      and_then (raw_u32 bs msg_start) (\<lambda>num_tags.
      if num_tags = 0 \<or> num_tags > MAX_TAGS then Ok None
      else
      let num_offsets = unat (num_tags - 1);
          offsets_start = msg_start + 4;
          offsets_end = offsets_start + num_offsets * 4 in
      if length bs < offsets_end then Ok None
      else
      and_then (raw_offsets bs offsets_start 0 num_offsets) (\<lambda>offsets.
      let tags_start = offsets_end;
          tags_end = tags_start + unat num_tags * 4 in
      if length bs < tags_end then Ok None
      else
      and_then (raw_tags lossy bs tags_start 0 (unat num_tags)) (\<lambda>tags.
      Ok (Some \<lparr>rf_magic = magic, rf_frame_length = frame_length, rf_num_tags = num_tags, rf_offsets = offsets,
                rf_tags = tags, rf_values_start = tags_end\<rparr>)))))))"

text \<open>\<open>dump_raw_frame\<close>, without the lines it prints.\<close>

definition dump_raw_frame :: "profile \<Rightarrow> (bytes \<Rightarrow> string) \<Rightarrow> bytes \<Rightarrow> ('e, unit) outcome" where
  "dump_raw_frame p lossy bs =
     and_then (raw_frame_parse lossy bs) (\<lambda>parsed.
     case parsed of
       None \<Rightarrow> Ok ()
     | Some info \<Rightarrow> and_then (sub_usize p (rf_values_start info) 12) (\<lambda>_. Ok ()))"

section \<open>Lemmas\<close>

lemma raw_u32_ok: "pos + 4 \<le> length bs \<Longrightarrow> \<exists>v. raw_u32 bs pos = Ok v"
  by (simp add: raw_u32_def slice_of_def)

lemma raw_offsets_ok: "start + (i + n) * 4 \<le> length bs \<Longrightarrow> \<exists>vs. raw_offsets bs start i n = Ok vs"
proof (induction n arbitrary: i)
  case (Suc n)
  obtain vs where "raw_offsets bs start (Suc i) n = (Ok vs :: ('a, _) outcome)" using Suc.IH [of "Suc i"] Suc.prems by auto
  moreover obtain v where "raw_u32 bs (start + i * 4) = (Ok v :: ('a, _) outcome)" using raw_u32_ok [of "start + i * 4" bs] Suc.prems by auto
  ultimately show ?case by simp
qed simp

lemma raw_tags_ok: "start + (i + n) * 4 \<le> length bs \<Longrightarrow> \<exists>vs. raw_tags lossy bs start i n = Ok vs"
proof (induction n arbitrary: i)
  case (Suc n)
  obtain vs where "raw_tags lossy bs start (Suc i) n = (Ok vs :: ('a, _) outcome)" using Suc.IH [of "Suc i"] Suc.prems by auto
  then show ?case using Suc.prems by (simp add: slice_of_def)
qed simp

lemma slice_word:
  assumes "length pre = start + i * 4" "length w = 4"
  shows "slice_of (pre @ w @ suf) (start + i * 4) (start + i * 4 + 4) = Ok w"
  using assms slice_of_mid [of pre w suf] by simp

lemma raw_offsets_enc:
  assumes "length pre = start + i * 4"
  shows "raw_offsets (pre @ concat (map u32_to_le_bytes ws) @ suf) start i (length ws) = Ok ws"
  using assms
proof (induction ws arbitrary: pre i)
  case (Cons w ws)
  have "raw_offsets ((pre @ u32_to_le_bytes w) @ concat (map u32_to_le_bytes ws) @ suf) start (Suc i) (length ws)
    = (Ok ws :: ('a, _) outcome)" using Cons.prems by (intro Cons.IH) simp
  then show ?case by (simp add: raw_u32_def slice_word [OF Cons.prems])
qed simp

lemma raw_tags_enc:
  assumes "length pre = start + i * 4"
  shows "raw_tags lossy (pre @ concat (map tag_wire_value ts) @ suf) start i (length ts)
    = Ok (map (\<lambda>t. (tag_value t, trim_end_zero (lossy (tag_wire_value t)))) ts)"
  using assms
proof (induction ts arbitrary: pre i)
  case (Cons t ts)
  have "raw_tags lossy ((pre @ tag_wire_value t) @ concat (map tag_wire_value ts) @ suf) start (Suc i) (length ts)
    = (Ok (map (\<lambda>t. (tag_value t, trim_end_zero (lossy (tag_wire_value t)))) ts) :: ('a, _) outcome)"
    using Cons.prems by (intro Cons.IH) (simp add: tag_wire_value_def)
  moreover have "u32_from_be_bytes (tag_wire_value t) = tag_value t" "length (tag_wire_value t) = 4"
    by (simp_all add: tag_wire_value_def)
  ultimately show ?case by (simp add: slice_word [OF Cons.prems])
qed simp

lemma raw_frame_no_panic: "raw_frame_parse lossy bs \<noteq> Panic"
proof (cases "length bs < 16")
  case False
  obtain l n where u: "raw_u32 bs 8 = (Ok l :: ('a, _) outcome)" "raw_u32 bs 12 = (Ok n :: ('a, _) outcome)"
    using raw_u32_ok [of 8 bs] raw_u32_ok [of 12 bs] False by force
  show ?thesis
  proof (cases "n = 0 \<or> n > MAX_TAGS \<or> length bs < 16 + unat (n - 1) * 4")
    case True
    then show ?thesis using u False by (auto simp: raw_frame_parse_def slice_of_def)
  next
    case n: False
    obtain os where o: "raw_offsets bs 16 0 (unat (n - 1)) = (Ok os :: ('a, _) outcome)"
      using raw_offsets_ok [of 16 0 "unat (n - 1)" bs] n by auto
    have t: "16 + unat (n - 1) * 4 + unat n * 4 \<le> length bs \<Longrightarrow>
        raw_tags lossy bs (16 + unat (n - 1) * 4) 0 (unat n) \<noteq> (Panic :: ('a, _) outcome)"
      using raw_tags_ok [of "16 + unat (n - 1) * 4" 0 "unat n" bs lossy, where 'a = 'a] by auto
    show ?thesis
      using u n o False t by (auto simp: raw_frame_parse_def slice_of_def Let_def and_then_Panic_iff)
  qed
qed (simp add: raw_frame_parse_def)

definition byte_text :: "bytes \<Rightarrow> string" where
  "byte_text bs = map (\<lambda>b. char_of (unat b)) bs"

section \<open>Properties\<close>

text \<open>C30. The debugging parser agrees with the protocol: it never panics, and on every frame whose message
  starts with a well-formed header of 1 to 20 tags it returns that header's number of tags, offsets and tag
  values, all of them known tags, and the place where the values start.\<close>

theorem raw_frame_agrees:
  assumes "header_accepted N h" "0 < N" "N \<le> 20"
  shows "raw_frame_parse lossy bs \<noteq> (Panic :: ('e, _) outcome) \<and>
    (\<exists>r. raw_frame_parse lossy (frame_enc (header_enc h @ body)) = (Ok (Some r) :: ('e, _) outcome) \<and>
       rf_magic r = u64_to_be_bytes FRAME_MAGIC \<and> rf_num_tags r = of_nat N \<and> rf_offsets r = hdr_offsets h \<and>
       map (\<lambda>(v, _). tag_try_from v) (rf_tags r) = map Ok (hdr_tags h) \<and>
       rf_values_start r = FRAME_OVERHEAD + length (header_enc h))"
proof -
  let ?os = "hdr_offsets h" and ?ts = "hdr_tags h" and ?len = "u32_to_le_bytes (of_nat (length (header_enc h @ body)))"
  have h: "hdr_num_tags h = of_nat N" "length ?os = N - 1" "length ?ts = N" "INVALID \<notin> set ?ts"
    using assms(1) by (auto simp: header_accepted_def)
  have u: "unat (of_nat N :: u32) = N" using assms(3) by (simp add: unat_of_nat take_bit_nat_eq_self)
  have n: "(of_nat N :: u32) \<noteq> 0" "\<not> (of_nat N :: u32) > MAX_TAGS"
    using u assms(2,3) unsigned_0 [where 'b = 32 and 'a = nat] by (metis less_irrefl, simp add: MAX_TAGS_def word_less_nat_alt)
  have u1: "unat (of_nat N - 1 :: u32) = N - 1"
    using u assms(2) by (subst unat_sub) (simp_all add: word_le_nat_alt)
  let ?M = "u64_to_be_bytes FRAME_MAGIC" and ?N = "u32_to_le_bytes (of_nat N)"
    and ?O = "concat (map u32_to_le_bytes ?os)" and ?T = "concat (map tag_wire_value ?ts)"
  have f: "frame_enc (header_enc h @ body) = ?M @ ?len @ ?N @ ?O @ ?T @ body"
    by (simp add: frame_enc_def header_enc_def h(1))
  have l: "length ?O = (N - 1) * 4" "length ?T = N * 4"
    using h(2,3) by (simp_all add: length_concat_const [where n = 4])
  have s: "slice_of (?M @ ?len @ ?N @ ?O @ ?T @ body) 0 8 = (Ok ?M :: ('e, _) outcome)"
    "raw_u32 (?M @ ?len @ ?N @ ?O @ ?T @ body) 8 = (Ok (of_nat (length (header_enc h @ body))) :: ('e, _) outcome)"
    "raw_u32 (?M @ ?len @ ?N @ ?O @ ?T @ body) 12 = (Ok (of_nat N) :: ('e, _) outcome)"
    by (simp_all add: slice_of_def raw_u32_def)
  have o: "raw_offsets (?M @ ?len @ ?N @ ?O @ ?T @ body) 16 0 (N - 1) = (Ok ?os :: ('e, _) outcome)"
    using raw_offsets_enc [of "?M @ ?len @ ?N" 16 0 ?os "?T @ body", where 'a = 'e] h(2) by simp
  have t: "raw_tags lossy (?M @ ?len @ ?N @ ?O @ ?T @ body) (16 + (N - 1) * 4) 0 N
     = (Ok (map (\<lambda>t. (tag_value t, trim_end_zero (lossy (tag_wire_value t)))) ?ts) :: ('e, _) outcome)"
    using raw_tags_enc [of "?M @ ?len @ ?N @ ?O" "16 + (N - 1) * 4" 0 lossy ?ts body, where 'a = 'e] h(3) l(1) by simp
  have "tag_try_from (tag_value t) = Ok t" if "t \<in> set ?ts" for t
    using h(4) that by (intro tag_try_from_value) blast
  then have v: "map (\<lambda>t. tag_try_from (tag_value t)) ?ts = map Ok ?ts" by simp
  have "length (header_enc h) = 4 + (N - 1) * 4 + N * 4" using l by (simp add: header_enc_def)
  then show ?thesis
    using raw_frame_no_panic [of lossy bs, where 'a = 'e] s o t v l
    unfolding f by (simp add: raw_frame_parse_def Let_def u u1 n comp_def FRAME_OVERHEAD_def)
qed

text \<open>The header of a draft-14 response.\<close>

theorem raw_frame_agrees_witness:
  "\<exists>r. raw_frame_parse byte_text (frame_enc (header_enc \<lparr>hdr_num_tags = 2, hdr_offsets = [64], hdr_tags = [SIG, DELE]\<rparr> @ [1, 2, 3]))
     = (Ok (Some r) :: (error, _) outcome) \<and> rf_offsets r = [64] \<and> map (\<lambda>(v, _). tag_try_from v) (rf_tags r) = [Ok SIG, Ok DELE]"
proof -
  have "header_accepted 2 \<lparr>hdr_num_tags = 2, hdr_offsets = [64], hdr_tags = [SIG, DELE]\<rparr>"
    by (simp add: header_accepted_def aligned_def tag_order_eval)
  from raw_frame_agrees [OF this, of byte_text "[]" "[1, 2, 3]", where 'e = error] show ?thesis by auto
qed

end
