(* ===== verification/Cli.thy ===== *)
theory Cli
  imports Reporting Server_List Raw_Frame
begin

text \<open>
  The client program (\<^verbatim>\<open>client/src/main.rs\<close> and the arguments of \<^verbatim>\<open>args.rs\<close> it uses): querying one server,
  measurement sequences over servers of a list with retries after causality violations, malfeasance
  reports, setting the clock, dumps of frames. Exiting the process is an
  error value with its code. Arguments are name resolution, the file contents, the codecs, the range of
  time stamps the date library accepts, and for each attempt the shuffle, the random values, the transport and
  the results of posts. Shown: a time that is returned is trusted or the user asked for untrusted time,
  clients built from a validated list do not panic, and the number of
  attempts overflows for 255 retries.
\<close>

section \<open>Arguments and exits\<close>

datatype client_version_arg = ClientV08 | ClientV14

record client_args =
  ca_hostname :: "string option"
  ca_port :: "u16 option"
  ca_pub_key :: "string option"
  ca_num_requests :: nat
  ca_protocol :: client_version_arg
  ca_server_list :: "string option"
  ca_num_unique_servers :: nat
  ca_num_measurement_rounds :: nat
  ca_causality_violation_retries :: u8
  ca_allow_untrusted_time :: bool
  ca_send_report :: bool
  ca_report_retries :: u32
  ca_set_clock :: bool
  ca_dump_dir :: "string option"
  ca_dump_console :: bool

definition client_args_version :: "client_args \<Rightarrow> protocol_version" where
  "client_args_version args = (case ca_protocol args of ClientV08 \<Rightarrow> RfcDraft08 | ClientV14 \<Rightarrow> RfcDraft14)"

text \<open>\<open>Hangs\<close> stands for a submission that retries forever.\<close>

datatype cli_exit = Exit int | Hangs

fun or_exit :: "int \<Rightarrow> ('e, 'a) outcome \<Rightarrow> (cli_exit, 'a) outcome" where
  "or_exit code (Ok x) = Ok x"
| "or_exit code (Err e) = Err (Exit code)"
| "or_exit code Panic = Panic"

datatype cli_error =
    CliIo
  | CliClient client_error
  | CliServerList server_list_error
  | CliDecode decode_error

section \<open>Display\<close>

text \<open>\<open>Timestamp::from_second(t as i64).unwrap()\<close>; \<open>ts_ok\<close> is the range of the date library.\<close>

definition timestamp :: "(int \<Rightarrow> bool) \<Rightarrow> u64 \<Rightarrow> ('e, int) outcome" where
  "timestamp ts_ok t = (if ts_ok (sint t) then Ok (sint t) else Panic)"

definition display_measurement :: "(int \<Rightarrow> bool) \<Rightarrow> 'addr measurement \<Rightarrow> ('e, unit) outcome" where
  "display_measurement ts_ok m = and_then (timestamp ts_ok (midpoint m)) (\<lambda>_. Ok ())"

definition display_violation :: "profile \<Rightarrow> (int \<Rightarrow> bool) \<Rightarrow> 'addr causality_violation \<Rightarrow> ('e, unit) outcome" where
  "display_violation p ts_ok v =
     (let m1 = cv_measurement_i v; m2 = cv_measurement_j v in
      and_then (sub_word p (midpoint m1) (ucast (radius m1))) (\<lambda>m1_lower.
      and_then (add_word p (midpoint m2) (ucast (radius m2))) (\<lambda>m2_upper.
      and_then (timestamp ts_ok m1_lower) (\<lambda>_.
      and_then (timestamp ts_ok (midpoint m1)) (\<lambda>_.
      and_then (timestamp ts_ok m2_upper) (\<lambda>_.
      and_then (timestamp ts_ok (midpoint m2)) (\<lambda>_. Ok ())))))))"

section \<open>One server\<close>

text \<open>What dumping meets: whether the directory can be created and whether the file of a request or response
  (numbered in turn) can be written; the lossy reading of bytes as text.\<close>

record dump_env =
  de_create_dir :: "string \<Rightarrow> bool"
  de_write :: "nat \<Rightarrow> bytes \<Rightarrow> bool"
  de_lossy :: "bytes \<Rightarrow> string"

definition write_bytes_to_file :: "dump_env \<Rightarrow> nat \<Rightarrow> bytes \<Rightarrow> (cli_exit, unit) outcome" where
  "write_bytes_to_file D k bs = (if de_write D k bs then Ok () else Err (Exit (- 1)))"

definition dump_exchange :: "profile \<Rightarrow> dump_env \<Rightarrow> client_args \<Rightarrow> nat \<Rightarrow> bytes \<Rightarrow> bytes \<Rightarrow> (cli_exit, unit) outcome" where
  "dump_exchange p D args k request_bytes response_bytes =
     and_then (if ca_dump_dir args \<noteq> None
               then and_then (write_bytes_to_file D (2 * k) request_bytes) (\<lambda>_.
                    write_bytes_to_file D (2 * k + 1) response_bytes)
               else Ok ()) (\<lambda>_.
     if ca_dump_console args
     then and_then (dump_raw_frame p (de_lossy D) request_bytes) (\<lambda>_. dump_raw_frame p (de_lossy D) response_bytes)
     else Ok ())"

fun single_loop ::
  "profile \<Rightarrow> ed25519 \<Rightarrow> hash_fn \<Rightarrow> (int \<Rightarrow> bool) \<Rightarrow> dump_env \<Rightarrow> (nat \<Rightarrow> bytes) \<Rightarrow> (nat \<Rightarrow> 'addr exchange) \<Rightarrow> client_args \<Rightarrow>
     'addr client \<Rightarrow> nat \<Rightarrow> nat \<Rightarrow> u64 \<Rightarrow> (cli_exit, u64) outcome" where
  "single_loop p E H ts_ok D rands exs args c k 0 last_midpoint = Ok last_midpoint"
| "single_loop p E H ts_ok D rands exs args c k (Suc n) last_midpoint =
     and_then (or_exit (- 1) (query_raw p E H (rands k) (exs k) c)) (\<lambda>(result, request_bytes, response_bytes).
     and_then (dump_exchange p D args k request_bytes response_bytes) (\<lambda>_.
     and_then (or_exit (- 1) result) (\<lambda>m.
     and_then (display_measurement ts_ok m) (\<lambda>_.
     single_loop p E H ts_ok D rands exs args c (Suc k) n (midpoint m)))))"

definition query_single_server ::
  "profile \<Rightarrow> ed25519 \<Rightarrow> hash_fn \<Rightarrow> codecs \<Rightarrow> (string \<Rightarrow> (cli_error, 'addr list) outcome) \<Rightarrow> (int \<Rightarrow> bool) \<Rightarrow> dump_env \<Rightarrow>
     (nat \<Rightarrow> bytes) \<Rightarrow> (nat \<Rightarrow> 'addr exchange) \<Rightarrow> client_args \<Rightarrow> string \<Rightarrow> (cli_exit, u64) outcome" where
  "query_single_server p E H cs resolve ts_ok D rands exs args hostname =
     and_then (case ca_port args of Some n \<Rightarrow> Ok n | None \<Rightarrow> Panic) (\<lambda>pt.
     and_then (or_exit (- 1) (resolve (hostname @ CHR '':'' # show_nat (unat pt)))) (\<lambda>addrs.
     and_then (case addrs of [] \<Rightarrow> Err (Exit (- 1)) | a # _ \<Rightarrow> Ok a) (\<lambda>sock_addr.
     let b = (client_builder_new sock_addr)\<lparr>cb_hostname := hostname, cb_protocol_version := client_args_version args\<rparr> in
     and_then (case ca_pub_key args of
                 Some k \<Rightarrow> and_then (or_exit (- 1) (try_decode_key cs k)) (\<lambda>pk. Ok (b\<lparr>cb_public_key := Some pk\<rparr>))
               | None \<Rightarrow> Ok b) (\<lambda>b'.
     and_then (client_build H b') (\<lambda>c.
     and_then (case ca_dump_dir args of
                 Some dir \<Rightarrow> if de_create_dir D dir then Ok () else Err (Exit (- 1))
               | None \<Rightarrow> Ok ()) (\<lambda>_.
     single_loop p E H ts_ok D rands exs args c 0 (ca_num_requests args) 0))))))"

section \<open>Several servers\<close>

text \<open>The body of the loop of \<open>clients_from_list\<close>.\<close>

definition client_for ::
  "hash_fn \<Rightarrow> codecs \<Rightarrow> (string \<Rightarrow> (cli_error, 'addr list) outcome) \<Rightarrow> server \<Rightarrow> (cli_error, 'addr client) outcome" where
  "client_for H cs resolve s =
     and_then (first_address s) (\<lambda>a.
     and_then (host a) (\<lambda>h.
     and_then (port a) (\<lambda>pt.
     and_then (resolve (h @ CHR '':'' # show_nat (unat pt))) (\<lambda>addrs.
     and_then (case addrs of [] \<Rightarrow> Err (CliClient (DnsLookupFailed h)) | a # _ \<Rightarrow> Ok a) (\<lambda>sock_addr.
     and_then (map_err CliDecode (try_decode_key cs (sv_public_key s))) (\<lambda>pk.
     and_then (server_protocol_version s) (\<lambda>v.
     client_build H ((client_builder_new sock_addr)\<lparr>cb_hostname := sv_name s, cb_public_key := Some pk,
                       cb_protocol_version := v\<rparr>))))))))"

fun clients_for ::
  "hash_fn \<Rightarrow> codecs \<Rightarrow> (string \<Rightarrow> (cli_error, 'addr list) outcome) \<Rightarrow> server list \<Rightarrow> (cli_error, 'addr client list) outcome" where
  "clients_for H cs resolve [] = Ok []"
| "clients_for H cs resolve (s # ss) =
     and_then (client_for H cs resolve s) (\<lambda>c.
     and_then (clients_for H cs resolve ss) (\<lambda>clients. Ok (c # clients)))"

definition clients_from_list ::
  "hash_fn \<Rightarrow> codecs \<Rightarrow> (string \<Rightarrow> (cli_error, 'addr list) outcome) \<Rightarrow> (server list \<Rightarrow> server list) \<Rightarrow> server_list \<Rightarrow> client_args \<Rightarrow>
     (cli_error, 'addr client list) outcome" where
  "clients_from_list H cs resolve shuffle l args =
     and_then (map_err CliServerList (choose_random shuffle (ca_num_unique_servers args) l)) (clients_for H cs resolve)"

text \<open>What one attempt meets: the results of the posts are indexed by violation and by post.\<close>

record 'addr attempt_env =
  at_shuffle :: "server list \<Rightarrow> server list"
  at_rands :: "nat \<Rightarrow> bytes"
  at_exs :: "nat \<Rightarrow> 'addr exchange"
  at_posts :: "nat \<Rightarrow> nat \<Rightarrow> string option"

fun display_violations :: "profile \<Rightarrow> (int \<Rightarrow> bool) \<Rightarrow> 'addr causality_violation list \<Rightarrow> ('e, unit) outcome" where
  "display_violations p ts_ok [] = Ok ()"
| "display_violations p ts_ok (v # vs) = and_then (display_violation p ts_ok v) (\<lambda>_. display_violations p ts_ok vs)"

text \<open>Reports on all violations; an error of a submission is logged only. \<open>reporting\<close> says whether the
  program was compiled with that feature.\<close>

fun report_violations ::
  "profile \<Rightarrow> bool \<Rightarrow> (bytes \<Rightarrow> string) \<Rightarrow> u32 \<Rightarrow> (nat \<Rightarrow> nat \<Rightarrow> string option) \<Rightarrow> nat \<Rightarrow> 'addr causality_violation list \<Rightarrow>
     (cli_exit, unit) outcome" where
  "report_violations p reporting encode retries posts k [] = Ok ()"
| "report_violations p reporting encode retries posts k (v # vs) =
     and_then (from_violation encode v) (\<lambda>_.
     and_then (if reporting
               then (case submit p retries (posts k) of
                       None \<Rightarrow> Err Hangs
                     | Some (Panic, _) \<Rightarrow> Panic
                     | Some _ \<Rightarrow> Ok ())
               else (case submit_disabled of Panic \<Rightarrow> Panic | _ \<Rightarrow> Ok ())) (\<lambda>_.
     report_violations p reporting encode retries posts (Suc k) vs))"

text \<open>The attempts of \<open>query_multiple_servers\<close>: \<open>Inl\<close> a time without a violation, \<open>Inr\<close> the last time after
  attempts that all had violations.\<close>

fun attempt_loop ::
  "profile \<Rightarrow> ed25519 \<Rightarrow> hash_fn \<Rightarrow> codecs \<Rightarrow> (string \<Rightarrow> (cli_error, 'addr list) outcome) \<Rightarrow> (int \<Rightarrow> bool) \<Rightarrow> bool \<Rightarrow>
     (bytes \<Rightarrow> string) \<Rightarrow> (nat \<Rightarrow> 'addr attempt_env) \<Rightarrow> client_args \<Rightarrow> server_list \<Rightarrow> nat \<Rightarrow> nat \<Rightarrow> u64 \<Rightarrow>
     (cli_exit, u64 + u64) outcome" where
  "attempt_loop p E H cs resolve ts_ok reporting encode env args l a 0 last_midpoint = Ok (Inr last_midpoint)"
| "attempt_loop p E H cs resolve ts_ok reporting encode env args l a (Suc n) last_midpoint =
     and_then (or_exit (- 1) (clients_from_list H cs resolve (at_shuffle (env a)) l args)) (\<lambda>clients.
     and_then (or_exit (- 1) (sequence_new clients)) (\<lambda>sequence.
     and_then (or_exit (- 1) (sequence_run p E H (at_rands (env a)) (at_exs (env a)) (ca_num_measurement_rounds args) sequence)) (\<lambda>ms.
     and_then (if ms = [] then Panic else Ok (midpoint (last ms))) (\<lambda>t.
     and_then (validate_causality p ms) (\<lambda>vs.
     if vs = [] then Ok (Inl t)
     else
     and_then (display_violations p ts_ok vs) (\<lambda>_.
     and_then (if ca_send_report args \<and> sl_reporting_url l \<noteq> None
               then report_violations p reporting encode (ca_report_retries args) (at_posts (env a)) 0 vs else Ok ()) (\<lambda>_.
     attempt_loop p E H cs resolve ts_ok reporting encode env args l (Suc a) n t)))))))"

definition query_multiple_servers ::
  "profile \<Rightarrow> ed25519 \<Rightarrow> hash_fn \<Rightarrow> codecs \<Rightarrow> (string \<Rightarrow> (cli_error, 'addr list) outcome) \<Rightarrow> (int \<Rightarrow> bool) \<Rightarrow> bool \<Rightarrow>
     (bytes \<Rightarrow> string) \<Rightarrow> (nat \<Rightarrow> 'addr attempt_env) \<Rightarrow> (string \<Rightarrow> server_list option) \<Rightarrow> string option \<Rightarrow> client_args \<Rightarrow>
     (cli_exit, u64) outcome" where
  "query_multiple_servers p E H cs resolve ts_ok reporting encode env decode content args =
     and_then (or_exit (- 1) (from_file decode content)) (\<lambda>l.
     and_then (add_word p 1 (ca_causality_violation_retries args)) (\<lambda>max_attempts.
     and_then (attempt_loop p E H cs resolve ts_ok reporting encode env args l 1 (unat max_attempts) 0) (\<lambda>r.
     case r of
       Inl t \<Rightarrow> Ok t
     | Inr last_midpoint \<Rightarrow> if ca_allow_untrusted_time args then Ok last_midpoint else Err (Exit 1))))"

section \<open>The program\<close>

text \<open>A failing \<open>clock_settime\<close> is logged only. The result is the time the clock is set to.\<close>

definition set_system_clock :: "u64 \<Rightarrow> ('e, u64) outcome" where
  "set_system_clock t = and_then (assert_that (t > 1500000000)) (\<lambda>_. Ok t)"

text \<open>\<open>main\<close>, given the two queries: the time, and the new setting of the clock if there is one.\<close>

definition client_main ::
  "(string \<Rightarrow> (cli_exit, u64) outcome) \<Rightarrow> (string \<Rightarrow> (cli_exit, u64) outcome) \<Rightarrow> client_args \<Rightarrow>
     (cli_exit, u64 \<times> u64 option) outcome" where
  "client_main single multiple args =
     and_then (case (ca_hostname args, ca_server_list args) of
                 (Some h, None) \<Rightarrow> single h
               | (None, Some f) \<Rightarrow> multiple f
               | _ \<Rightarrow> Err (Exit (- 1))) (\<lambda>t.
     if ca_set_clock args then and_then (set_system_clock t) (\<lambda>c. Ok (t, Some c)) else Ok (t, None))"

section \<open>Clients from a validated list\<close>

lemma try_decode_key_ok:
  "try_decode_key cs s \<noteq> Panic" "try_decode_key cs s = Ok pk \<Longrightarrow> length pk = 32"
  by (auto simp: try_decode_key_def try_decode_def pubk_from_slice_def copy_array_def and_then_Ok_iff and_then_Panic_iff
      split: option.splits if_splits)

definition keyed_client :: "'addr client \<Rightarrow> bool" where
  "keyed_client c \<longleftrightarrow> client_ok c \<and> cl_public_key c \<noteq> None"

lemma built_keyed:
  assumes "sha512_ok H" "length pk = 32" "cb_public_key b = Some pk"
  shows "\<exists>c. client_build H b = Ok c \<and> keyed_client c"
  using client_build_ok [OF assms(1), of b] assms(2,3) by (fastforce simp: keyed_client_def)

lemma client_for_ok:
  assumes H: "sha512_ok H" and s: "server_ok s" and r: "\<forall>n. resolve n \<noteq> (Panic :: (cli_error, 'addr list) outcome)"
  shows "client_for H cs resolve s \<noteq> Panic" "client_for H cs resolve s = Ok c \<Longrightarrow> keyed_client c"
proof -
  obtain a as where a: "sv_addresses s = a # as" "address_ok a" using s by (cases "sv_addresses s") (auto simp: server_ok_def)
  then obtain h ps pt where h: "ad_address a = h @ CHR '':'' # ps" "CHR '':'' \<notin> set h" "parse_u16 ps = Some pt"
    by (auto simp: address_ok_def)
  obtain v where v: "server_protocol_version s = (Ok v :: (cli_error, protocol_version) outcome)"
    using s by (cases "sv_protocol_version s") (auto simp: server_protocol_version_def server_ok_def)
  have run: "client_for H cs resolve s =
     and_then (resolve (h @ CHR '':'' # show_nat (unat pt))) (\<lambda>addrs.
     and_then (case addrs of [] \<Rightarrow> Err (CliClient (DnsLookupFailed h)) | a # _ \<Rightarrow> Ok a) (\<lambda>sock_addr.
     and_then (map_err CliDecode (try_decode_key cs (sv_public_key s))) (\<lambda>pk.
     client_build H ((client_builder_new sock_addr)\<lparr>cb_hostname := sv_name s, cb_public_key := Some pk,
                       cb_protocol_version := v\<rparr>))))"
    using a(1) v by (simp add: client_for_def first_address_def index_at_def address_accessors [OF h])
  have b: "\<exists>c. client_build H ((client_builder_new x)\<lparr>cb_hostname := sv_name s, cb_public_key := Some pk,
      cb_protocol_version := v\<rparr>) = (Ok c :: (cli_error, _) outcome) \<and> keyed_client c"
    if "try_decode_key cs (sv_public_key s) = Ok pk" for x :: 'addr and pk
    by (rule built_keyed [OF H try_decode_key_ok(2) [OF that]]) simp
  let ?b = "\<lambda>x pk. (client_builder_new x)\<lparr>cb_hostname := sv_name s, cb_public_key := Some pk, cb_protocol_version := v\<rparr>"
  have b1: "client_build H (?b x pk) \<noteq> (Panic :: (cli_error, _) outcome)" if "try_decode_key cs (sv_public_key s) = Ok pk" for x :: 'addr and pk
    using b [OF that, of x] by auto
  have b2: "keyed_client c" if "try_decode_key cs (sv_public_key s) = Ok pk" "client_build H (?b x pk) = (Ok c :: (cli_error, _) outcome)" for x :: 'addr and pk c
    using b [OF that(1), of x] that(2) by auto
  show "client_for H cs resolve s \<noteq> Panic"
    unfolding run using r b1 try_decode_key_ok(1) [of cs "sv_public_key s"] by (auto simp: and_then_Panic_iff split: list.splits)
  show "client_for H cs resolve s = Ok c \<Longrightarrow> keyed_client c"
    unfolding run and_then_Ok_iff map_err_Ok_iff using b2 by blast
qed

lemma clients_for_ok:
  assumes H: "sha512_ok H" and s: "\<forall>s\<in>set ss. server_ok s" and r: "\<forall>n. resolve n \<noteq> Panic"
  shows "clients_for H cs resolve ss \<noteq> Panic"
    "clients_for H cs resolve ss = Ok clients \<Longrightarrow> length clients = length ss \<and> (\<forall>c\<in>set clients. keyed_client c)"
  using s by (induction ss arbitrary: clients)
    (auto simp: and_then_Panic_iff and_then_Ok_iff client_for_ok [OF H _ r])

lemma clients_from_list_ok:
  assumes H: "sha512_ok H" and l: "server_list_ok l" and r: "\<forall>n. resolve n \<noteq> Panic"
    and sh: "\<forall>xs. mset (shuffle xs) = mset xs"
  shows "clients_from_list H cs resolve shuffle l args \<noteq> Panic"
    "clients_from_list H cs resolve shuffle l args = Ok clients \<Longrightarrow>
       length clients = ca_num_unique_servers args \<and> (\<forall>c\<in>set clients. keyed_client c)"
proof -
  have len: "length (shuffle (sl_servers l)) = length (sl_servers l)" using sh by (metis size_mset)
  have set: "set (shuffle (sl_servers l)) = set (sl_servers l)" using sh by (metis set_mset_mset)
  have ch: "choose_random shuffle n l \<noteq> Panic"
    "choose_random shuffle n l = Ok ss \<Longrightarrow> length ss = n \<and> (\<forall>s\<in>set ss. server_ok s)" for n ss
    using l set by (auto simp: choose_random_def slice_of_def len server_list_ok_def dest: in_set_takeD split: if_splits)
  show "clients_from_list H cs resolve shuffle l args \<noteq> Panic"
    using ch clients_for_ok(1) [OF H _ r] by (auto simp: clients_from_list_def and_then_Panic_iff)
  assume "clients_from_list H cs resolve shuffle l args = Ok clients"
  then obtain ss where ss: "choose_random shuffle (ca_num_unique_servers args) l = Ok ss" "clients_for H cs resolve ss = Ok clients"
    by (auto simp: clients_from_list_def and_then_Ok_iff)
  show "length clients = ca_num_unique_servers args \<and> (\<forall>c\<in>set clients. keyed_client c)"
    using ch(2) [OF ss(1)] clients_for_ok(2) [OF H _ r ss(2)] by simp
qed

lemma from_file_ok: "from_file decode content = Ok l \<Longrightarrow> server_list_ok l"
  using server_list_validate_iff(1) by (auto simp: from_file_def from_json_def and_then_Ok_iff split: option.splits)

section \<open>What an accepted attempt measured\<close>

lemma or_exit_Ok [simp]: "or_exit code r = Ok x \<longleftrightarrow> r = Ok x"
  by (cases r) auto

lemma attempt_loop_Inl:
  assumes "attempt_loop p E H cs resolve ts_ok reporting encode env args l a n t0 = Ok (Inl t)"
  shows "\<exists>i clients ms. a \<le> i \<and> i < a + n \<and> clients_from_list H cs resolve (at_shuffle (env i)) l args = Ok clients \<and>
     MIN_SERVERS \<le> length clients \<and>
     sequence_run p E H (at_rands (env i)) (at_exs (env i)) (ca_num_measurement_rounds args) clients = Ok ms \<and>
     ms \<noteq> [] \<and> t = midpoint (last ms) \<and> validate_causality p ms = (Ok [] :: (cli_exit, _) outcome)"
  using assms
proof (induction n arbitrary: a t0)
  case (Suc n)
  from Suc.prems obtain clients sequence ms vs where s:
    "clients_from_list H cs resolve (at_shuffle (env a)) l args = Ok clients" "sequence_new clients = Ok sequence"
    "sequence_run p E H (at_rands (env a)) (at_exs (env a)) (ca_num_measurement_rounds args) sequence = Ok ms"
    "ms \<noteq> []" "validate_causality p ms = (Ok vs :: (cli_exit, _) outcome)"
    and rest: "vs = [] \<longrightarrow> t = midpoint (last ms)"
      "vs \<noteq> [] \<longrightarrow> attempt_loop p E H cs resolve ts_ok reporting encode env args l (Suc a) n (midpoint (last ms)) = Ok (Inl t)"
    by (auto simp: and_then_Ok_iff split: if_splits)
  have q: "sequence = clients" "MIN_SERVERS \<le> length clients" using s(2) by (auto simp: sequence_new_def split: if_splits)
  show ?case
  proof (cases "vs = []")
    case True
    then show ?thesis using s q rest(1)
      by (intro exI [of _ a] exI [of _ clients] exI [of _ ms]) auto
  next
    case False
    from Suc.IH [of "Suc a"] rest(2) False obtain i clients ms where "Suc a \<le> i" "i < Suc a + n"
      "clients_from_list H cs resolve (at_shuffle (env i)) l args = Ok clients" "MIN_SERVERS \<le> length clients"
      "sequence_run p E H (at_rands (env i)) (at_exs (env i)) (ca_num_measurement_rounds args) clients = Ok ms"
      "ms \<noteq> []" "t = midpoint (last ms)" "validate_causality p ms = (Ok [] :: (cli_exit, _) outcome)" by blast
    then show ?thesis by (intro exI [of _ i] exI [of _ clients] exI [of _ ms]) simp
  qed
qed simp

section \<open>Properties\<close>


text \<open>The number of attempts overflows: with 255 retries the sum of one and the number of retries does
  not fit 8 bits. A debug build panics; a release build makes no attempt at all, and returns the time zero
  if the user allowed untrusted time.\<close>

lemma retries_overflow:
  assumes "from_file decode content = Ok l" "ca_causality_violation_retries args = 255"
  shows "query_multiple_servers Debug E H cs resolve ts_ok reporting encode env decode content args = Panic \<and>
     query_multiple_servers Release E H cs resolve ts_ok reporting encode env decode content args
       = (if ca_allow_untrusted_time args then Ok 0 else Err (Exit 1))"
  using assms by (simp add: query_multiple_servers_def add_word_def)

text \<open>Clients from a list: for a list that was loaded from a file, whatever the shuffle, however names
  resolve and keys decode, building the clients returns them or an error, without a panic; it returns exactly the
  number asked for, each with a 32-byte key and a commitment to it.\<close>

lemma clients_from_list_safe:
  assumes "sha512_ok H" "from_file decode content = Ok l" "\<forall>n. resolve n \<noteq> Panic" "\<forall>xs. mset (shuffle xs) = mset xs"
  shows "clients_from_list H cs resolve shuffle l args \<noteq> Panic \<and>
     (\<forall>clients. clients_from_list H cs resolve shuffle l args = Ok clients \<longrightarrow>
        length clients = ca_num_unique_servers args \<and> (\<forall>c\<in>set clients. client_ok c \<and> cl_public_key c \<noteq> None))"
  using clients_from_list_ok [OF assms(1) from_file_ok [OF assms(2)] assms(3,4)] by (auto simp: keyed_client_def)

section \<open>Witnesses\<close>

definition triple_list :: server_list where
  "triple_list = (let s = sample_server\<lparr>sv_protocol_version := None\<rparr> in sample_list\<lparr>sl_servers := [s, s, s]\<rparr>)"

definition toy_codecs :: codecs where
  "toy_codecs = \<lparr>cd_hexlower = (\<lambda>s. Some (ed_public toy_ed (replicate 32 1))), cd_hexupper = Map.empty, cd_base64url = Map.empty,
     cd_base64url_nopad = Map.empty, cd_base64 = Map.empty, cd_base64_nopad = Map.empty\<rparr>"

definition toy_env :: "nat attempt_env" where
  "toy_env = \<lparr>at_shuffle = rev, at_rands = (\<lambda>k. replicate 32 (of_nat k)), at_exs = (\<lambda>_. honest_exchange),
     at_posts = (\<lambda>_ _. None)\<rparr>"

definition toy_args :: client_args where
  "toy_args = \<lparr>ca_hostname = None, ca_port = None, ca_pub_key = None, ca_num_requests = 1, ca_protocol = ClientV14,
     ca_server_list = Some ''list.json'', ca_num_unique_servers = 3, ca_num_measurement_rounds = 2,
     ca_causality_violation_retries = 0, ca_allow_untrusted_time = False, ca_send_report = False, ca_report_retries = 0,
     ca_set_clock = False, ca_dump_dir = None, ca_dump_console = False\<rparr>"

lemma triple_file: "from_file (\<lambda>_. Some triple_list) (Some []) = Ok triple_list"
  by (simp add: from_file_def from_json_def triple_list_def Let_def server_list_validate_def sample_list_def sample_server_def
      server_validate_def address_validate_def splitn2_def parse_u16_def digit_of_def starts_with_def index_at_def)

lemma triple_clients:
  "\<exists>c. clients_from_list toy_hash toy_codecs (\<lambda>_. Ok [1]) rev triple_list toy_args = Ok [c, c, c] \<and> honest_client c"
proof -
  let ?s = "sample_server\<lparr>sv_protocol_version := None\<rparr>" and ?pk = "ed_public toy_ed (replicate 32 1)"
  let ?b = "(client_builder_new (1 :: nat))\<lparr>cb_hostname := sv_name ?s, cb_public_key := Some ?pk, cb_protocol_version := RfcDraft14\<rparr>"
  obtain c where c: "client_build toy_hash ?b = (Ok c :: (cli_error, _) outcome)" "client_ok c" "cl_public_key c = cb_public_key ?b"
    "cl_protocol_version c = cb_protocol_version ?b"
    using client_build_ok [OF toy_hash_ok, of ?b] ed25519_lengths(1) [OF toy_ed_ok] by auto
  have a: "ad_address \<lparr>ad_protocol = Udp, ad_address = ''roughtime.int08h.com:+02002''\<rparr> = ''roughtime.int08h.com'' @ CHR '':'' # ''+02002''"
    "CHR '':'' \<notin> set ''roughtime.int08h.com''" "parse_u16 ''+02002'' = Some 2002"
    by (simp_all add: parse_u16_def digit_of_def)
  have k: "try_decode_key toy_codecs t = Ok ?pk" for t
    using ed25519_lengths(1) [OF toy_ed_ok]
    by (simp add: try_decode_key_def try_decode_def toy_codecs_def or_else_def pubk_from_slice_def copy_array_def)
  have "client_for toy_hash toy_codecs (\<lambda>_. Ok [1]) ?s = Ok c"
    unfolding client_for_def using c(1) k
    by (simp add: first_address_def index_at_def sample_server_def address_accessors [OF a] server_protocol_version_def)
  then have "clients_from_list toy_hash toy_codecs (\<lambda>_. Ok [1]) rev triple_list toy_args = Ok [c, c, c]"
    by (simp add: clients_from_list_def choose_random_def slice_of_def triple_list_def Let_def toy_args_def numeral_eq_Suc)
  moreover have "honest_client c" using c(2-4) by (simp add: honest_client_def)
  ultimately show ?thesis by blast
qed

lemma genuine_time:
  assumes "ms_response m = genuine_response q"
  shows "midpoint m = 200" "radius m = 5"
proof -
  have "resp_srep (genuine_response q) = genuine_srep q"
    by (simp add: genuine_response_def resp_set_sig_def resp_set_srep_def update_offsets_def Let_def)
  then show "midpoint m = 200" "radius m = 5" using assms by (simp_all add: midpoint_def radius_def genuine_srep_def)
qed

lemma genuine_pair:
  assumes "ms_response m = genuine_response q" "ms_response m' = genuine_response q'"
  shows "bounds_ok m" "\<not> violates m m'"
  using genuine_time [OF assms(1)] genuine_time [OF assms(2)] by (simp_all add: bounds_ok_def violates_def)

lemma genuine_consistent:
  assumes "\<forall>m\<in>set ms. \<exists>q. ms_response m = genuine_response q"
  shows "validate_causality p ms = Ok []"
proof -
  have b: "\<forall>m\<in>set ms. bounds_ok m" using assms genuine_pair(1) by blast
  have "\<not> violates a b" if "(a, b) \<in> set (ordered_pairs ms)" for a b
  proof -
    have "a \<in> set ms" "b \<in> set ms" using that unfolding ordered_pairs_iff by auto
    then show ?thesis using assms genuine_pair(2) by blast
  qed
  then have "filter (\<lambda>(mi, mj). violates mi mj) (ordered_pairs ms) = []" by (auto simp: filter_empty_conv)
  then show ?thesis by (simp add: validate_causality_run [OF b])
qed

lemma triple_query:
  "query_multiple_servers Release toy_ed toy_hash toy_codecs (\<lambda>_. Ok [1]) (\<lambda>_. True) False byte_encode (\<lambda>_. toy_env)
     (\<lambda>_. Some triple_list) (Some []) toy_args = Ok 200"
proof -
  obtain c where c: "clients_from_list toy_hash toy_codecs (\<lambda>_. Ok [1]) rev triple_list toy_args = Ok [c, c, c]" "honest_client c"
    using triple_clients by blast
  have k: "\<forall>c\<in>set [c, c, c]. cl_public_key c \<noteq> None" "\<forall>c\<in>set [c, c, c]. client_ok c" using c(2) by (simp_all add: honest_client_def)
  let ?r = "\<lambda>k. replicate 32 (of_nat k) :: bytes"
  obtain ms where ms: "sequence_run Release toy_ed toy_hash ?r (\<lambda>_. honest_exchange) 2 [c, c, c] = Ok ms"
    "\<forall>m\<in>set ms. \<exists>q. ms_response m = genuine_response q"
    unfolding sequence_run_loop [OF k(1)]
    using honest_sequence_loop [of "concat (replicate 2 [c, c, c])" ?r None Release 0] c(2) by auto
  have "length ms = 6" using sequence_run_chain(1) [OF toy_hash_ok k(2) _ ms(1)] by simp
  then have ne: "ms \<noteq> []" by auto
  have "midpoint (last ms) = 200" using genuine_time(1) ms(2) last_in_set [OF ne] by blast
  then show ?thesis
    using c(1) ms(1) ne
    by (simp add: query_multiple_servers_def triple_file add_word_def toy_args_def toy_env_def sequence_new_def MIN_SERVERS_def
        genuine_consistent [OF ms(2)])
qed


end
