(* ===== verification/Reporting_Service.thy ===== *)
theory Reporting_Service
  imports Reporting "HOL-Library.Multiset"
begin

text \<open>
  The reporting server as a service: the routes of \<open>create_app\<close> and the start of the process (\<^verbatim>\<open>lib.rs\<close>, \<^verbatim>\<open>main.rs\<close> of
  that crate) over the handlers and the storage of \<open>Reporting\<close>. The matching of a request with a route and the
  decoding of a JSON body belong to the web framework and are arguments. Every handler locks the storage at
  most once, so that concurrent requests act in the order in which they get the lock. The replies to any
  sequence of requests are those of an append-only log of accepted reports.
\<close>

section \<open>Routes and requests\<close>

datatype http_method = GET | POST

datatype handler = HandleReport | GetReport | HealthCheck

definition create_app :: "(string \<times> http_method \<times> handler) list" where
  "create_app =
     [(''/api/v1/reports'', POST, HandleReport),
      (''/api/v1/reports/{id}'', GET, GetReport),
      (''/health'', GET, HealthCheck)]"

definition health_check :: string where
  "health_check = ''OK''"

text \<open>A request with the peer's address and, for a report that is stored, the identifier and the time stamp that
  are drawn then.\<close>

record http_request =
  rq_method :: http_method
  rq_path :: string
  rq_addr :: string
  rq_body :: string
  rq_ulid :: string
  rq_now :: int

datatype http_reply =
    CreationResponse status_code string
  | ErrorResponse status_code error_text
  | ReportResponse stored_report
  | StatusResponse status_code
  | TextResponse string
  | FrameworkResponse

text \<open>What the framework contributes: the route of a request with the values of its path parameters, and the
  report in a body.\<close>

record framework =
  fw_route :: "(string \<times> http_method \<times> handler) list \<Rightarrow> http_method \<Rightarrow> string \<Rightarrow> (handler \<times> string list) option"
  fw_json :: "string \<Rightarrow> malfeasance_report option"

definition serve_request ::
  "framework \<Rightarrow> profile \<Rightarrow> hash_fn \<Rightarrow> (string \<Rightarrow> bytes option) \<Rightarrow> validate_fn \<Rightarrow> http_request \<Rightarrow> in_memory_storage \<Rightarrow>
     (unit, http_reply) outcome \<times> in_memory_storage" where
  "serve_request F p H decode validate req st =
     (case fw_route F create_app (rq_method req) (rq_path req) of
        Some (HandleReport, _) \<Rightarrow>
          (case fw_json F (rq_body req) of
             None \<Rightarrow> (Ok FrameworkResponse, st)
           | Some report \<Rightarrow>
               (case handle_report p H decode validate (storage_store (rq_ulid req) (rq_now req)) (rq_addr req) report st of
                  (Ok (code, rid), st') \<Rightarrow> (Ok (CreationResponse code rid), st')
                | (Err (code, txt), st') \<Rightarrow> (Ok (ErrorResponse code txt), st')
                | (Panic, st') \<Rightarrow> (Panic, st')))
      | Some (GetReport, [rid]) \<Rightarrow>
          (case get_report storage_get rid st of
             Ok r \<Rightarrow> (Ok (ReportResponse r), st)
           | Err code \<Rightarrow> (Ok (StatusResponse code), st)
           | Panic \<Rightarrow> (Panic, st))
      | Some (HealthCheck, _) \<Rightarrow> (Ok (TextResponse health_check), st)
      | _ \<Rightarrow> (Ok FrameworkResponse, st))"

fun serve_all ::
  "framework \<Rightarrow> profile \<Rightarrow> hash_fn \<Rightarrow> (string \<Rightarrow> bytes option) \<Rightarrow> validate_fn \<Rightarrow> http_request list \<Rightarrow> in_memory_storage \<Rightarrow>
     (unit, http_reply) outcome list \<times> in_memory_storage" where
  "serve_all F p H decode validate [] st = ([], st)"
| "serve_all F p H decode validate (req # reqs) st =
     (case serve_request F p H decode validate req st of (r, st') \<Rightarrow>
      case serve_all F p H decode validate reqs st' of (rs, st'') \<Rightarrow> (r # rs, st''))"

text \<open>\<open>main\<close>: the storage of a server that could bind its port. \<open>serve\<close> runs until the process is killed.\<close>

definition reporting_main :: "(string, unit) outcome \<Rightarrow> (unit, in_memory_storage) outcome" where
  "reporting_main bind_result = and_then (expect bind_result) (\<lambda>_. Ok storage_new)"

section \<open>The log of accepted reports\<close>

text \<open>The specification: the newest accepted report first.\<close>

type_synonym report_log = "(string \<times> stored_report) list"

definition log_reply ::
  "framework \<Rightarrow> profile \<Rightarrow> hash_fn \<Rightarrow> (string \<Rightarrow> bytes option) \<Rightarrow> validate_fn \<Rightarrow> http_request \<Rightarrow> report_log \<Rightarrow>
     (unit, http_reply) outcome \<times> report_log" where
  "log_reply F p H decode validate req log =
     (case fw_route F create_app (rq_method req) (rq_path req) of
        Some (HandleReport, _) \<Rightarrow>
          (case fw_json F (rq_body req) of
             None \<Rightarrow> (Ok FrameworkResponse, log)
           | Some report \<Rightarrow>
               (case validate_report p H decode validate report of
                  Ok _ \<Rightarrow> (Ok (CreationResponse CREATED (rq_ulid req)),
                           (rq_ulid req, \<lparr>st_id = rq_ulid req, st_timestamp = rq_now req, st_source_ip = rq_addr req, st_report = report\<rparr>) # log)
                | Err e \<Rightarrow> (Ok (ErrorResponse BAD_REQUEST (ValidationText e)), log)
                | Panic \<Rightarrow> (Panic, log)))
      | Some (GetReport, [rid]) \<Rightarrow>
          (Ok (case map_of log rid of None \<Rightarrow> StatusResponse NOT_FOUND | Some r \<Rightarrow> ReportResponse r), log)
      | Some (HealthCheck, _) \<Rightarrow> (Ok (TextResponse ''OK''), log)
      | _ \<Rightarrow> (Ok FrameworkResponse, log))"

fun log_all ::
  "framework \<Rightarrow> profile \<Rightarrow> hash_fn \<Rightarrow> (string \<Rightarrow> bytes option) \<Rightarrow> validate_fn \<Rightarrow> http_request list \<Rightarrow> report_log \<Rightarrow>
     (unit, http_reply) outcome list \<times> report_log" where
  "log_all F p H decode validate [] log = ([], log)"
| "log_all F p H decode validate (req # reqs) log =
     (case log_reply F p H decode validate req log of (r, log') \<Rightarrow>
      case log_all F p H decode validate reqs log' of (rs, log'') \<Rightarrow> (r # rs, log''))"

text \<open>The storage holds the newest entry of each identifier; while identifiers are not used twice, it holds them all.\<close>

definition stores_log :: "in_memory_storage \<Rightarrow> report_log \<Rightarrow> bool" where
  "stores_log st log \<longleftrightarrow> map_of st = map_of log \<and> (distinct (map fst log) \<longrightarrow> st = rev log)"

lemma stores_log_update:
  assumes "stores_log st log"
  shows "stores_log (AList.update k v st) ((k, v) # log)"
proof -
  have "AList.update k v xs = xs @ [(k, v)]" if "k \<notin> fst ` set xs" for xs
    using that by (induction xs) auto
  then show ?thesis using assms by (auto simp: stores_log_def update_conv')
qed

lemma serve_request_log:
  assumes "stores_log st log" "log_reply F p H decode validate req log = (r, log')"
  shows "\<exists>st'. serve_request F p H decode validate req st = (r, st') \<and> stores_log st' log'"
proof -
  have m: "map_of st rid = map_of log rid" for rid using assms(1) by (simp add: stores_log_def)
  show ?thesis
    using assms
    by (auto simp: serve_request_def log_reply_def handle_report_def get_report_def storage_store_def storage_get_def
        m health_check_def stores_log_update split: option.splits handler.splits list.splits outcome.splits prod.splits)
qed

lemma serve_all_log:
  assumes "stores_log st log" "log_all F p H decode validate reqs log = (rs, log')"
  shows "\<exists>st'. serve_all F p H decode validate reqs st = (rs, st') \<and> stores_log st' log'"
  using assms
proof (induction reqs arbitrary: st log rs)
  case (Cons req reqs)
  obtain r log1 where r: "log_reply F p H decode validate req log = (r, log1)" by fastforce
  obtain rs1 where rs: "log_all F p H decode validate reqs log1 = (rs1, log')" "rs = r # rs1"
    using Cons.prems(2) r by (auto split: prod.splits)
  obtain st1 where "serve_request F p H decode validate req st = (r, st1)" "stores_log st1 log1"
    using serve_request_log [OF Cons.prems(1) r] by blast
  with Cons.IH [OF this(2) rs(1)] rs(2) show ?case by auto
qed simp

text \<open>A reply that is a panic belongs to a report on which \<open>validate\<close> panics.\<close>

lemma log_reply_panic:
  assumes "sha512_ok H" "log_reply F p H decode validate req log = (Panic, log')"
  shows "\<exists>report. fw_json F (rq_body req) = Some report \<and> validate_panics p decode validate 0 report"
  using assms(2) validate_report_panic [OF assms(1)]
  by (auto simp: log_reply_def split: option.splits handler.splits list.splits outcome.splits prod.splits)

lemma log_all_panic:
  assumes "sha512_ok H" "log_all F p H decode validate reqs log = (rs, log')" "i < length rs" "rs ! i = Panic"
  shows "i < length reqs \<and> (\<exists>report. fw_json F (rq_body (reqs ! i)) = Some report \<and> validate_panics p decode validate 0 report)"
  using assms(2-)
proof (induction reqs arbitrary: log rs i)
  case (Cons req reqs)
  obtain r log1 where r: "log_reply F p H decode validate req log = (r, log1)" by fastforce
  obtain rs1 where rs: "log_all F p H decode validate reqs log1 = (rs1, log')" "rs = r # rs1"
    using Cons.prems(1) r by (auto split: prod.splits)
  then show ?case using Cons.IH [OF rs(1)] Cons.prems(2,3) log_reply_panic [OF assms(1)] r by (cases i) auto
qed simp

lemma sorted_newest_first: "sorted (rev (map st_timestamp (sort_key (\<lambda>r. - st_timestamp r) xs)))"
proof -
  have "sorted (map (\<lambda>r. - st_timestamp r) (sort_key (\<lambda>r. - st_timestamp r) xs))" by (rule sorted_sort_key)
  then have "sorted_wrt (\<lambda>a b. - st_timestamp a \<le> - st_timestamp b) (sort_key (\<lambda>r. - st_timestamp r) xs)"
    by (simp add: sorted_map)
  then show ?thesis by (simp add: sorted_wrt_rev sorted_wrt_map flip: rev_map)
qed

text \<open>C27. The reporting server refines an append-only log, whatever the method \<open>validate\<close> that it calls on the client's validator may do: from
  its start, the replies to any sequence of requests, whatever the reports hold, are those of the log. A report is accepted exactly when it
  validates, and then every later request for its identifier returns it, with the address it came from. A handler panics
  only on a report with an entry on which \<open>validate\<close> panics, and then stores nothing. As
  long as identifiers are not drawn twice, no accepted report is lost: a listing gives the newest ones first.\<close>

theorem report_history:
  assumes "sha512_ok H" "reporting_main bind_result = Ok st0" "serve_all F p H decode validate reqs st0 = (rs, st)"
    and "log_all F p H decode validate reqs [] = (specified, log)"
  shows "rs = specified \<and>
    (\<forall>i<length rs. rs ! i = Panic \<longrightarrow>
       (\<exists>report. fw_json F (rq_body (reqs ! i)) = Some report \<and> validate_panics p decode validate 0 report)) \<and>
    (distinct (map fst log) \<longrightarrow>
       (\<forall>limit. \<exists>items. storage_list limit st = (Ok (take limit items) :: ('e, _) outcome) \<and>
          mset items = mset (map snd log) \<and> sorted (rev (map st_timestamp items))))"
proof -
  have "st0 = storage_new" using assms(2) by (cases bind_result) (simp_all add: reporting_main_def)
  then have "stores_log st0 []" by (simp add: stores_log_def storage_new_def)
  from serve_all_log [OF this assms(4)] assms(3) have s: "rs = specified" "stores_log st log" by auto
  have "st = rev log" if "distinct (map fst log)" using s(2) that by (simp add: stores_log_def)
  then have "\<exists>items. storage_list limit st = (Ok (take limit items) :: ('e, _) outcome) \<and>
      mset items = mset (map snd log) \<and> sorted (rev (map st_timestamp items))" if "distinct (map fst log)" for limit
    using that sorted_newest_first [of "map snd st"]
    by (intro exI [of _ "sort_key (\<lambda>r. - st_timestamp r) (map snd st)"]) (simp add: storage_list_def rev_map)
  with s(1) log_all_panic [OF assms(1,4)] show ?thesis by blast
qed

section \<open>Reports that are accepted, refused and fatal\<close>

text \<open>Two exchanges with one response, the second chained to the first, by a server with the key \<open>k\<close>.\<close>

definition sample_nonce :: nonce where
  "sample_nonce = take 32 (toy_hash (frame_enc (resp_enc (resp_canon sample_response)) @ replicate 32 4))"

definition sample_entry :: "u8 \<Rightarrow> nonce \<Rightarrow> bytes option \<Rightarrow> report_entry" where
  "sample_entry k n rand =
     \<lparr>re_rand = map_option byte_encode rand, re_request = byte_encode (frame_enc (request_enc (request_new_draft14 n))),
      re_response = byte_encode (frame_enc (resp_enc sample_response)), re_public_key = byte_encode (replicate 32 k)\<rparr>"

definition sample_report :: "u8 \<Rightarrow> malfeasance_report" where
  "sample_report k = [sample_entry k (replicate 32 7) None, sample_entry k sample_nonce (Some (replicate 32 4))]"

text \<open>A validator that accepts one server, refuses another and panics on the rest.\<close>

definition sample_validate :: validate_fn where
  "sample_validate v q r =
     (if v = Some (replicate 32 5) then Ok 200 else if v = Some (replicate 32 6) then Err (InvalidMidpoint []) else Panic)"

lemma sample_entry_decoded:
  assumes "\<forall>b. rand = Some b \<longrightarrow> length b = 32"
  shows "decode_entry_base64 byte_decode (sample_entry k n rand) i =
    Ok \<lparr>de_request_bytes = frame_enc (request_enc (request_new_draft14 n)), de_response_bytes = frame_enc (resp_enc sample_response),
        de_public_key_bytes = replicate 32 k, de_rand_bytes = rand\<rparr>"
  using assms by (cases rand) (simp_all add: decode_entry_base64_def sample_entry_def byte_codec ok_or_def)

lemma sample_report_validated:
  "validate_report p toy_hash byte_decode sample_validate (sample_report 5) = Ok ()"
  "validate_report p toy_hash byte_decode sample_validate (sample_report 6) = Err (ValidationFailedAt 0 (InvalidMidpoint []))"
  "validate_report p toy_hash byte_decode sample_validate (sample_report 7) = Panic"
proof -
  have n: "length sample_nonce = 32" using toy_hash_ok by (simp add: sample_nonce_def sha512_ok_def)
  have wf: "resp_wf (resp_canon sample_response)"
    using parse_frame14 [OF sample_response_ok, of p] by (rule parse_yields [OF resp_yields])
  have pr: "parse (from_frame (request_from_wire p)) (frame_enc (request_enc (request_new_draft14 m))) = Ok (request_new_draft14 m)"
    if "length m = 32" for m using request_frame_ok(2) [OF request_new_valid(2) [OF that]] .
  have sn: "take 32 (toy_hash (frame_enc (resp_enc (resp_canon sample_response)) @ replicate 32 4)) = sample_nonce"
    by (simp add: sample_nonce_def)
  note defs = validate_report_def sample_report_def sample_entry_decoded parse_interaction_pair_def pr n
    parse_frame14 [OF sample_response_ok] validate_entry_def pubk_from_slice_def copy_array_def validator_new_with_key_def
    validate_chaining_def ok_or_def chained_nonce_run [OF toy_hash_ok wf] request_new_nonc sn sample_validate_def
  show "validate_report p toy_hash byte_decode sample_validate (sample_report 5) = Ok ()"
    "validate_report p toy_hash byte_decode sample_validate (sample_report 6) = Err (ValidationFailedAt 0 (InvalidMidpoint []))"
    "validate_report p toy_hash byte_decode sample_validate (sample_report 7) = Panic"
    by (simp_all add: defs)
qed

definition sample_framework :: framework where
  "sample_framework =
     \<lparr>fw_route = (\<lambda>app m path. if m = POST then Some (HandleReport, []) else Some (GetReport, [path])),
      fw_json = (\<lambda>body. if body = [] then None else Some (sample_report (of_nat (length body))))\<rparr>"

definition sample_post :: "nat \<Rightarrow> string \<Rightarrow> int \<Rightarrow> http_request" where
  "sample_post k ulid now =
     \<lparr>rq_method = POST, rq_path = [], rq_addr = ''::1'', rq_body = replicate k (CHR ''x''), rq_ulid = ulid, rq_now = now\<rparr>"

definition sample_get :: "string \<Rightarrow> http_request" where
  "sample_get rid = \<lparr>rq_method = GET, rq_path = rid, rq_addr = ''::1'', rq_body = [], rq_ulid = [], rq_now = 0\<rparr>"

text \<open>A report that is accepted, one that is refused, one that makes the handler panic and one that is accepted again, then a
  request for the first and for the one that was refused.\<close>

theorem report_history_witness:
  "\<exists>st r. serve_all sample_framework Debug toy_hash byte_decode sample_validate
       [sample_post 5 ''a'' 1, sample_post 6 ''b'' 2, sample_post 7 ''c'' 3, sample_post 5 ''d'' 4, sample_get ''a'', sample_get ''b''] storage_new =
       ([Ok (CreationResponse CREATED ''a''), Ok (ErrorResponse BAD_REQUEST (ValidationText (ValidationFailedAt 0 (InvalidMidpoint [])))), Panic,
         Ok (CreationResponse CREATED ''d''), Ok (ReportResponse r), Ok (StatusResponse NOT_FOUND)], st) \<and>
     st_report r = sample_report 5 \<and>
     (\<exists>items. storage_list 1 st = (Ok (take 1 items) :: (unit, _) outcome) \<and> length items = 2)"
proof -
  let ?reqs = "[sample_post 5 ''a'' 1, sample_post 6 ''b'' 2, sample_post 7 ''c'' 3, sample_post 5 ''d'' 4, sample_get ''a'', sample_get ''b'']"
  let ?r = "\<lambda>i t. \<lparr>st_id = i, st_timestamp = t, st_source_ip = ''::1'', st_report = sample_report 5\<rparr>"
  let ?rs = "[Ok (CreationResponse CREATED ''a''), Ok (ErrorResponse BAD_REQUEST (ValidationText (ValidationFailedAt 0 (InvalidMidpoint [])))), Panic,
         Ok (CreationResponse CREATED ''d''), Ok (ReportResponse (?r ''a'' 1)), Ok (StatusResponse NOT_FOUND)]"
  have l: "log_all sample_framework Debug toy_hash byte_decode sample_validate ?reqs [] = (?rs, [(''d'', ?r ''d'' 4), (''a'', ?r ''a'' 1)])"
    by (simp add: log_reply_def sample_framework_def sample_post_def sample_get_def sample_report_validated)
  have m: "reporting_main (Ok () :: (string, unit) outcome) = Ok storage_new" by (simp add: reporting_main_def)
  obtain rs st where s: "serve_all sample_framework Debug toy_hash byte_decode sample_validate ?reqs storage_new = (rs, st)" by fastforce
  have h: "rs = ?rs" "\<exists>items. storage_list 1 st = (Ok (take 1 items) :: (unit, _) outcome) \<and>
      mset items = mset (map snd [(''d'', ?r ''d'' 4), (''a'', ?r ''a'' 1)])"
    using report_history [OF toy_hash_ok m s l, where 'e = unit] by auto
  obtain items where i: "storage_list 1 st = (Ok (take 1 items) :: (unit, _) outcome)"
    "mset items = mset (map snd [(''d'', ?r ''d'' 4), (''a'', ?r ''a'' 1)])" using h(2) by blast
  have "length items = 2" using mset_eq_length [OF i(2)] by simp
  with s h(1) i(1) show ?thesis by (intro exI [of _ st] exI [of _ "?r ''a'' 1"]) auto
qed

end
