(* ===== verification/Metrics_Watcher.thy ===== *)
theory Metrics_Watcher
  imports Aggregator
begin

text \<open>
  The program that watches the directory of the metrics reports (\<^verbatim>\<open>examples/metrics_watcher.rs\<close>), a separate
  process beside the server. What the operating system lists and the states of the file system at its calls
  are arguments, as are JSON reading and the formatting of \<open>f64\<close>. Shown: how it composes with the writer of
  the reports: whatever the interleaving, it only ever reads complete reports, and each file once.
\<close>

section \<open>Paths and text\<close>

text \<open>\<open>Path::file_name\<close>: the last component; empty components and \<open>.\<close> are skipped.\<close>

definition path_components :: "string \<Rightarrow> string list" where
  "path_components path = filter (\<lambda>c. c \<noteq> [] \<and> c \<noteq> ''.'') (split_on (CHR ''/'') path)"

definition file_name :: "string \<Rightarrow> string option" where
  "file_name path =
     (let cs = path_components path in
      if cs = [] \<or> last cs = ''..'' then None else Some (last cs))"

text \<open>\<open>Path::extension\<close>: what follows the last dot of the file name, unless that dot is its first character.\<close>

definition extension :: "string \<Rightarrow> string option" where
  "extension path =
     (case file_name path of
        None \<Rightarrow> None
      | Some name \<Rightarrow>
          let parts = split_on (CHR ''.'') name in
          if length parts = 1 \<or> (length parts = 2 \<and> hd parts = []) then None else Some (last parts))"

text \<open>Well-formed UTF-8, which \<open>read_to_string\<close> demands.\<close>

definition utf8_tail :: "u8 \<Rightarrow> bool" where
  "utf8_tail b \<longleftrightarrow> 0x80 \<le> b \<and> b \<le> 0xBF"

fun valid_utf8 :: "bytes \<Rightarrow> bool" where
  "valid_utf8 [] = True"
| "valid_utf8 (b # bs) =
     (if b < 0x80 then valid_utf8 bs
      else case bs of
        [] \<Rightarrow> False
      | c1 # cs1 \<Rightarrow>
          if 0xC2 \<le> b \<and> b \<le> 0xDF then utf8_tail c1 \<and> valid_utf8 cs1
          else (case cs1 of
            [] \<Rightarrow> False
          | c2 # cs2 \<Rightarrow>
              if 0xE0 \<le> b \<and> b \<le> 0xEF then
                utf8_tail c1 \<and> (b = 0xE0 \<longrightarrow> 0xA0 \<le> c1) \<and> (b = 0xED \<longrightarrow> c1 \<le> 0x9F) \<and> utf8_tail c2 \<and> valid_utf8 cs2
              else (case cs2 of
                [] \<Rightarrow> False
              | c3 # cs3 \<Rightarrow>
                  0xF0 \<le> b \<and> b \<le> 0xF4 \<and> utf8_tail c1 \<and> (b = 0xF0 \<longrightarrow> 0x90 \<le> c1) \<and> (b = 0xF4 \<longrightarrow> c1 \<le> 0x8F) \<and>
                  utf8_tail c2 \<and> utf8_tail c3 \<and> valid_utf8 cs3)))"

definition show_int :: "int \<Rightarrow> string" where
  "show_int i = (if i < 0 then ''-'' @ show_nat (nat (- i)) else show_nat (nat i))"

section \<open>Display\<close>

text \<open>The libraries: reading JSON, and printing an \<open>f64\<close> with a number of decimals.\<close>

record 'f watch_env =
  we_from_json :: "bytes \<Rightarrow> string + 'f metrics_snapshot"
  we_show_f64 :: "nat \<Rightarrow> 'f \<Rightarrow> string"

definition worker_total :: "worker_metrics \<Rightarrow> nat" where
  "worker_total w = num_ok_requests (wm_request w) + num_bad_requests (wm_request w)
     + num_runt_requests (wm_request w) + num_jumbo_requests (wm_request w)"

definition worker_lines :: "worker_metrics list \<Rightarrow> string list" where
  "worker_lines ws =
     map (\<lambda>w. ''    Worker '' @ show_nat (wm_worker_id w) @ '': '' @ show_nat (worker_total w) @ '' requests, ''
                @ show_nat (num_responses (wm_response w)) @ '' responses'')
       (filter (\<lambda>w. worker_total w > 0 \<or> num_responses (wm_response w) > 0) ws)"

text \<open>The lines printed.\<close>

definition display_metrics :: "'f watch_env \<Rightarrow> string \<Rightarrow> 'f metrics_snapshot \<Rightarrow> string list" where
  "display_metrics W filename m =
     (let t = ms_totals m; q = ag_requests t; n = ag_network t in
      [''=== New Metrics File: '' @ filename @ '' ==='',
       ''Timestamp: '' @ show_int (ms_timestamp m),
       ''Duration: '' @ we_show_f64 W 1 (ms_duration_secs m) @ ''s'',
       [],
       ''Aggregate Totals:'',
       ''  Total Requests: '' @ show_nat (ag_total_requests t),
       ''  - OK: '' @ show_nat (num_ok_requests q),
       ''  - Bad: '' @ show_nat (num_bad_requests q),
       ''  - Runt: '' @ show_nat (num_runt_requests q),
       ''  - Jumbo: '' @ show_nat (num_jumbo_requests q),
       [],
       ''  Responses: '' @ show_nat (num_responses (ag_responses t)),
       ''  - Rate: '' @ we_show_f64 W 2 (ag_responses_per_second t) @ '' req/s'',
       ''  - Bandwidth: '' @ we_show_f64 W 2 (ag_mbytes_per_second t) @ '' MB/s'',
       [],
       ''  Network:'',
       ''  - Successful sends: '' @ show_nat (num_successful_sends n),
       ''  - Failed sends: '' @ show_nat (num_failed_sends n),
       ''  - Failed polls: '' @ show_nat (num_failed_polls n),
       ''  - Failed recvs: '' @ show_nat (num_failed_recvs n),
       ''  - Recv would block: '' @ show_nat (num_recv_wouldblock n),
       []] @
      (if length (ms_workers m) > 1 then ''  Per-Worker Summary:'' # worker_lines (ms_workers m) else []) @
      [[], []])"

section \<open>One file, one pass\<close>

datatype watch_event =
    ListFailed string
  | ReadFailed string string
  | ParseFailed string string
  | Displayed string "string list"

text \<open>\<open>fs::read_to_string\<close> in a state of the file system; the first argument is an error of the system.\<close>

definition read_to_string :: "string option \<Rightarrow> file_system \<Rightarrow> string \<Rightarrow> string + bytes" where
  "read_to_string err fs path =
     (case err of
        Some e \<Rightarrow> Inl e
      | None \<Rightarrow>
        (case fs path of
           None \<Rightarrow> Inl ''No such file or directory (os error 2)''
         | Some Dir \<Rightarrow> Inl ''Is a directory (os error 21)''
         | Some (File bs) \<Rightarrow> if valid_utf8 bs then Inr bs else Inl ''stream did not contain valid UTF-8''))"

definition process_metrics_file ::
  "'f watch_env \<Rightarrow> string option \<Rightarrow> file_system \<Rightarrow> string \<Rightarrow> string \<Rightarrow> watch_event" where
  "process_metrics_file W err fs path filename =
     (case read_to_string err fs path of
        Inl e \<Rightarrow> ReadFailed filename e
      | Inr contents \<Rightarrow>
        (case we_from_json W contents of
           Inl e \<Rightarrow> ParseFailed filename e
         | Inr metrics \<Rightarrow> Displayed filename (display_metrics W filename metrics)))"

text \<open>What the system answers in one pass: the listing, with an entry it fails to read as \<open>None\<close> and beside
  each entry the state in which \<open>is_file\<close> looks at it; then, for each path, the state in which it is read.\<close>

record watch_io =
  wi_entries :: "string + (string option \<times> file_system) list"
  wi_view :: "string \<Rightarrow> file_system"
  wi_read_err :: "string \<Rightarrow> string option"

definition is_file :: "file_system \<Rightarrow> string \<Rightarrow> bool" where
  "is_file fs path = (case fs path of Some (File _) \<Rightarrow> True | _ \<Rightarrow> False)"

definition get_json_files :: "string \<Rightarrow> string + (string option \<times> file_system) list \<Rightarrow> string + string list" where
  "get_json_files dir entries =
     (case entries of
        Inl e \<Rightarrow> Inl e
      | Inr es \<Rightarrow>
          Inr (map fst (filter (\<lambda>(path, fs). is_file fs path \<and> extension path = Some ''json'')
                 (map (\<lambda>(name, fs). (path_join dir (the name), fs)) (filter (\<lambda>(name, fs). name \<noteq> None) es)))))"

fun process_paths ::
  "'f watch_env \<Rightarrow> watch_io \<Rightarrow> string list \<Rightarrow> string set \<Rightarrow> watch_event list \<Rightarrow>
     ('e, string set \<times> watch_event list) outcome" where
  "process_paths W io [] seen_files out = Ok (seen_files, out)"
| "process_paths W io (path # rest) seen_files out =
     (case file_name path of
        None \<Rightarrow> Panic
      | Some filename \<Rightarrow>
          if filename \<in> seen_files then process_paths W io rest seen_files out
          else process_paths W io rest (insert filename seen_files)
                 (out @ [process_metrics_file W (wi_read_err io path) (wi_view io path) path filename]))"

definition process_new_metrics_files ::
  "'f watch_env \<Rightarrow> string \<Rightarrow> watch_io \<Rightarrow> string set \<Rightarrow> ('e, string set \<times> watch_event list) outcome" where
  "process_new_metrics_files W metrics_dir io seen_files =
     (case get_json_files metrics_dir (wi_entries io) of
        Inl e \<Rightarrow> Ok (seen_files, [ListFailed e])
      | Inr json_files \<Rightarrow> process_paths W io json_files seen_files [])"

text \<open>The endless loop, up to the last of the given passes.\<close>

fun watch_passes ::
  "'f watch_env \<Rightarrow> string \<Rightarrow> watch_io list \<Rightarrow> string set \<Rightarrow> ('e, string set \<times> watch_event list) outcome" where
  "watch_passes W dir [] seen_files = Ok (seen_files, [])"
| "watch_passes W dir (io # ios) seen_files =
     and_then (process_new_metrics_files W dir io seen_files) (\<lambda>(seen', out).
     and_then (watch_passes W dir ios seen') (\<lambda>(seen'', out'). Ok (seen'', out @ out')))"

text \<open>\<open>main\<close>: an error is the exit code.\<close>

definition watcher_main ::
  "'f watch_env \<Rightarrow> string list \<Rightarrow> file_system \<Rightarrow> watch_io list \<Rightarrow> (int, string set \<times> watch_event list) outcome" where
  "watcher_main W args fs ios =
     (if length args \<noteq> 2 then and_then (index_at args 0) (\<lambda>_. Err 1)
      else if fs (args ! 1) = None \<or> fs (args ! 1) \<noteq> Some Dir then Err 1
      else watch_passes W (args ! 1) ios {})"

section \<open>Lemmas\<close>

lemma last_split_on_suffix:
  "c \<notin> set b \<Longrightarrow> \<exists>a'. last (split_on c (a @ b)) = a' @ b"
proof (induction a)
  case Nil
  then show ?case by (auto simp: split_on_none)
next
  case (Cons x a)
  then show ?case by (auto split: list.splits)
qed

lemma last_split_on_sep: "c \<notin> set b \<Longrightarrow> last (split_on c (a @ c # b)) = b"
proof (induction a)
  case Nil
  then show ?case by (simp add: split_on_none)
next
  case (Cons x a)
  have "split_on c (a @ c # b) \<noteq> [] \<and> tl (split_on c (a @ c # b)) \<noteq> []"
    by (induction a) (auto split: list.splits)
  with Cons show ?case by (auto split: list.splits)
qed

lemma file_name_suffix:
  assumes "CHR ''/'' \<notin> set b" "length b > 2"
  shows "\<exists>a'. file_name (a @ b) = Some (a' @ b)"
proof -
  have long: "2 < length x \<Longrightarrow> x \<noteq> [] \<and> x \<noteq> ''.'' \<and> x \<noteq> ''..''" for x :: string by auto
  obtain a' where l: "last (split_on (CHR ''/'') (a @ b)) = a' @ b" using last_split_on_suffix [OF assms(1)] by blast
  obtain cs c where cs: "split_on (CHR ''/'') (a @ b) = cs @ [c]" using split_on_ne rev_exhaust by metis
  have "c = a' @ b" using l cs by simp
  moreover have "a' @ b \<noteq> []" "a' @ b \<noteq> ''.''" "a' @ b \<noteq> ''..''"
    using long [of "a' @ b"] assms(2) by simp_all
  ultimately show ?thesis using cs by (auto simp: file_name_def path_components_def Let_def)
qed

lemma path_join_suffix: "\<not> starts_with ''/'' name \<Longrightarrow> \<exists>a. path_join dir name = a @ name"
  by (cases "dir = [] \<or> last dir = CHR ''/''") (auto simp: path_join_def)

text \<open>The temporary file of a report is never taken for a report.\<close>

lemma temp_file_not_json: "extension (path_join dir (''.'' @ name @ ''.tmp'')) \<noteq> Some ''json''"
proof -
  have "\<exists>a. path_join dir (''.'' @ name @ ''.tmp'') = a @ ''.'' @ name @ ''.tmp''"
    by (rule path_join_suffix) (simp add: starts_with_def)
  then obtain a where a: "path_join dir (''.'' @ name @ ''.tmp'') = a @ ''.tmp''" by (metis append.assoc)
  obtain a' where "file_name (a @ ''.tmp'') = Some (a' @ ''.tmp'')" using file_name_suffix [of "''.tmp''" a] by auto
  then show ?thesis using last_split_on_sep [of "CHR ''.''" "''tmp''" a'] unfolding a extension_def by (auto simp: Let_def)
qed

lemma write_test_not_json: "extension (path_join dir ''.write_test'') \<noteq> Some ''json''"
proof -
  obtain a where a: "path_join dir ''.write_test'' = a @ ''.write_test''"
    using path_join_suffix [of "''.write_test''" dir] by (auto simp: starts_with_def)
  obtain a' where "file_name (a @ ''.write_test'') = Some (a' @ ''.write_test'')" using file_name_suffix [of "''.write_test''" a] by auto
  then show ?thesis using last_split_on_sep [of "CHR ''.''" "''write_test''" a'] unfolding a extension_def by (auto simp: Let_def)
qed

lemma extension_file_name: "extension path = Some x \<Longrightarrow> \<exists>name. file_name path = Some name"
  by (auto simp: extension_def split: option.splits)

text \<open>The states of the file system that the server can leave or pass through, from one that it finds: it
  checks the directory when it starts and writes reports; it may be killed and started again at any time.\<close>

inductive server_writes :: "('t, 'f) report_env \<Rightarrow> string \<Rightarrow> file_system \<Rightarrow> file_system \<Rightarrow> bool" for M dir fs0 where
  found: "server_writes M dir fs0 fs0"
| checked: "server_writes M dir fs0 fs \<Longrightarrow> validate_metrics_directory create_err remove_ok dir fs = (res, fs') \<Longrightarrow>
    server_writes M dir fs0 fs'"
| report: "server_writes M dir fs0 fs \<Longrightarrow> write_to_file M io snapshot dir fs = (res', states) \<Longrightarrow> fs' \<in> set states \<Longrightarrow>
    server_writes M dir fs0 fs'"

text \<open>The complete text of some report that goes to this path.\<close>

definition complete_report :: "('t, 'f) report_env \<Rightarrow> string \<Rightarrow> string \<Rightarrow> bytes \<Rightarrow> bool" where
  "complete_report M dir path text \<longleftrightarrow>
     (\<exists>snapshot name. re_strftime_utc M ''roughenough-metrics-%Y%m%d-%H%M%S.json'' (ms_timestamp snapshot) = Some name \<and>
        path = path_join dir name \<and> re_to_json M snapshot = Inr text)"

lemma write_to_file_json:
  assumes "write_to_file M io snapshot dir fs = (res, states)" "fs' \<in> set states" "extension path = Some ''json''"
  shows "fs' path = fs path \<or> (\<exists>text. fs' path = Some (File text) \<and> complete_report M dir path text)"
proof (cases "re_strftime_utc M ''roughenough-metrics-%Y%m%d-%H%M%S.json'' (ms_timestamp snapshot)")
  case None
  with assms(1,2) show ?thesis by (auto simp: write_to_file_def)
next
  case (Some name)
  note at = snapshot_file_atomic [OF assms(1) Some, THEN conjunct1, rule_format, OF assms(2)]
  have "path \<noteq> path_join dir (''.'' @ name @ ''.tmp'')" using assms(3) temp_file_not_json by auto
  with at Some show ?thesis
    by (cases "path = path_join dir name") (auto simp: complete_report_def)
qed

lemma server_writes_json:
  "server_writes M dir fs0 fs \<Longrightarrow> extension path = Some ''json'' \<Longrightarrow>
     fs path = fs0 path \<or> (\<exists>text. fs path = Some (File text) \<and> complete_report M dir path text)"
proof (induction rule: server_writes.induct)
  case (checked fs create_err remove_ok res fs')
  have "path \<noteq> path_join dir ''.write_test''" using checked.prems write_test_not_json by auto
  then have "fs' path = fs path" using checked.hyps(2)
    by (auto simp: validate_metrics_directory_def file_create_def Let_def split: if_splits option.splits sum.splits)
  with checked.IH [OF checked.prems] show ?case by simp
next
  case (report fs io snapshot res' states fs')
  from write_to_file_json [OF report.hyps(2,3) report.prems] report.IH [OF report.prems] show ?case by auto
qed simp

section \<open>What the watcher reads\<close>

text \<open>The file an event is about.\<close>

fun event_file :: "watch_event \<Rightarrow> string option" where
  "event_file (ListFailed e) = None"
| "event_file (ReadFailed name e) = Some name"
| "event_file (ParseFailed name e) = Some name"
| "event_file (Displayed name lines) = Some name"

lemma event_file_process [simp]: "event_file (process_metrics_file W err fs path name) = Some name"
  by (simp add: process_metrics_file_def split: sum.splits)

text \<open>The events of a pass: one for each file not seen before.\<close>

definition pass_events :: "'f watch_env \<Rightarrow> watch_io \<Rightarrow> string list \<Rightarrow> string set \<Rightarrow> string set \<Rightarrow> watch_event list \<Rightarrow> bool" where
  "pass_events W io ps seen seen' new \<longleftrightarrow>
     seen' = seen \<union> {name. \<exists>path\<in>set ps. file_name path = Some name} \<and>
     distinct (map event_file new) \<and> event_file ` set new = Some ` (seen' - seen) \<and>
     (\<forall>ev\<in>set new. \<exists>path\<in>set ps. \<exists>name. file_name path = Some name \<and>
        ev = process_metrics_file W (wi_read_err io path) (wi_view io path) path name)"

lemma process_paths_events:
  "\<forall>path\<in>set ps. extension path = Some ''json'' \<Longrightarrow>
     \<exists>seen' new. process_paths W io ps seen out = (Ok (seen', out @ new) :: ('e, _) outcome) \<and> pass_events W io ps seen seen' new"
proof (induction ps arbitrary: seen out)
  case Nil
  show ?case by (auto simp: pass_events_def)
next
  case (Cons path ps)
  obtain name where name: "file_name path = Some name" using Cons.prems extension_file_name by force
  show ?case
  proof (cases "name \<in> seen")
    case True
    obtain seen' new where "process_paths W io ps seen out = (Ok (seen', out @ new) :: ('e, _) outcome)"
      "pass_events W io ps seen seen' new" using Cons by fastforce
    moreover from this(2) have "pass_events W io (path # ps) seen seen' new" using True name by (auto simp: pass_events_def)
    ultimately show ?thesis using True name by auto
  next
    case False
    let ?ev = "process_metrics_file W (wi_read_err io path) (wi_view io path) path name"
    obtain seen' new where 1: "process_paths W io ps (insert name seen) (out @ [?ev]) = (Ok (seen', (out @ [?ev]) @ new) :: ('e, _) outcome)"
      and 2: "pass_events W io ps (insert name seen) seen' new" using Cons by fastforce
    from 2 have "Some name \<notin> event_file ` set new" by (auto simp: pass_events_def)
    with 2 have "pass_events W io (path # ps) seen seen' (?ev # new)" using False name
      by (auto simp: pass_events_def)
    with 1 False name show ?thesis by auto
  qed
qed

lemma get_json_files_json: "get_json_files dir entries = Inr ps \<Longrightarrow> \<forall>path\<in>set ps. extension path = Some ''json''"
  by (auto simp: get_json_files_def split: sum.splits)

lemma get_json_files_complete:
  "(Some name, fs) \<in> set es \<Longrightarrow> is_file fs (path_join dir name) \<Longrightarrow> extension (path_join dir name) = Some ''json'' \<Longrightarrow>
     \<exists>ps. get_json_files dir (Inr es) = Inr ps \<and> path_join dir name \<in> set ps"
  by (force simp: get_json_files_def)

text \<open>What a pass leaves of an earlier state: nothing is forgotten, nothing is repeated.\<close>

definition pass_done :: "'f watch_env \<Rightarrow> string \<Rightarrow> watch_io \<Rightarrow> string set \<Rightarrow> string set \<Rightarrow> watch_event list \<Rightarrow> bool" where
  "pass_done W dir io seen seen' new \<longleftrightarrow>
     seen \<subseteq> seen' \<and> distinct (List.map_filter event_file new) \<and>
     set (List.map_filter event_file new) = seen' - seen \<and>
     (\<forall>ps path name. get_json_files dir (wi_entries io) = Inr ps \<and> path \<in> set ps \<and> file_name path = Some name \<longrightarrow> name \<in> seen') \<and>
     (\<forall>ev\<in>set new. event_file ev \<noteq> None \<longrightarrow> (\<exists>path name. extension path = Some ''json'' \<and> file_name path = Some name \<and>
        ev = process_metrics_file W (wi_read_err io path) (wi_view io path) path name))"

lemma map_filter_Some: "None \<notin> f ` set xs \<Longrightarrow> map Some (List.map_filter f xs) = map f xs"
  by (induction xs) (auto simp: List.map_filter_simps split: option.splits)

lemma process_new_done:
  "\<exists>seen' new. process_new_metrics_files W dir io seen = (Ok (seen', new) :: ('e, _) outcome) \<and> pass_done W dir io seen seen' new"
proof (cases "get_json_files dir (wi_entries io)")
  case (Inl e)
  then show ?thesis by (simp add: process_new_metrics_files_def pass_done_def List.map_filter_simps)
next
  case (Inr ps)
  obtain seen' new where 1: "process_paths W io ps seen [] = (Ok (seen', new) :: ('e, _) outcome)" and 2: "pass_events W io ps seen seen' new"
    using process_paths_events [OF get_json_files_json [OF Inr], of W io seen "[]", where 'e = 'e] by auto
  then have m: "map Some (List.map_filter event_file new) = map event_file new"
    by (intro map_filter_Some) (auto simp: pass_events_def)
  then have "distinct (List.map_filter event_file new)" using 2 by (metis pass_events_def distinct_map)
  moreover have "Some ` set (List.map_filter event_file new) = Some ` (seen' - seen)"
    using arg_cong [OF m, of set] 2 by (simp add: pass_events_def)
  then have "set (List.map_filter event_file new) = seen' - seen" by (simp add: inj_image_eq_iff)
  ultimately have "pass_done W dir io seen seen' new"
    using 2 Inr get_json_files_json [OF Inr] by (fastforce simp: pass_done_def pass_events_def)
  with 1 Inr show ?thesis by (auto simp: process_new_metrics_files_def)
qed

definition passes_done :: "'f watch_env \<Rightarrow> string \<Rightarrow> watch_io list \<Rightarrow> string set \<Rightarrow> string set \<Rightarrow> watch_event list \<Rightarrow> bool" where
  "passes_done W dir ios seen seen' out \<longleftrightarrow>
     seen \<subseteq> seen' \<and> distinct (List.map_filter event_file out) \<and>
     set (List.map_filter event_file out) = seen' - seen \<and>
     (\<forall>io\<in>set ios. \<forall>ps path name. get_json_files dir (wi_entries io) = Inr ps \<and> path \<in> set ps \<and> file_name path = Some name \<longrightarrow> name \<in> seen') \<and>
     (\<forall>ev\<in>set out. event_file ev \<noteq> None \<longrightarrow> (\<exists>io\<in>set ios. \<exists>path name. extension path = Some ''json'' \<and> file_name path = Some name \<and>
        ev = process_metrics_file W (wi_read_err io path) (wi_view io path) path name))"

lemma map_filter_append: "List.map_filter f (xs @ ys) = List.map_filter f xs @ List.map_filter f ys"
  by (simp add: List.map_filter_def)

lemma passes_done_Cons:
  assumes "pass_done W dir io seen seen' new" "passes_done W dir ios seen' seen'' out"
  shows "passes_done W dir (io # ios) seen seen'' (new @ out)"
proof -
  have "set (List.map_filter event_file new) \<inter> set (List.map_filter event_file out) = {}"
    using assms by (auto simp: pass_done_def passes_done_def)
  moreover have "set (List.map_filter event_file (new @ out)) = seen'' - seen"
    using assms by (auto simp: pass_done_def passes_done_def map_filter_append)
  moreover have "name \<in> seen''"
    if "get_json_files dir (wi_entries i) = Inr ps" "path \<in> set ps" "file_name path = Some name" "i \<in> set (io # ios)" for i ps path name
    using assms that unfolding pass_done_def passes_done_def by (metis set_ConsD subsetD)
  ultimately show ?thesis using assms
    by (fastforce simp: pass_done_def passes_done_def map_filter_append)
qed

lemma watch_passes_done:
  "\<exists>seen' out. watch_passes W dir ios seen = (Ok (seen', out) :: ('e, _) outcome) \<and> passes_done W dir ios seen seen' out"
proof (induction ios arbitrary: seen)
  case Nil
  show ?case by (simp add: passes_done_def List.map_filter_simps)
next
  case (Cons io ios)
  obtain seen' new where 1: "process_new_metrics_files W dir io seen = (Ok (seen', new) :: ('e, _) outcome)" "pass_done W dir io seen seen' new"
    using process_new_done [of W dir io seen, where 'e = 'e] by blast
  obtain seen'' out where 2: "watch_passes W dir ios seen' = (Ok (seen'', out) :: ('e, _) outcome)" "passes_done W dir ios seen' seen'' out"
    using Cons.IH by blast
  from passes_done_Cons [OF 1(2) 2(2)] 1(1) 2(1) show ?case by auto
qed

text \<open>The requests of the workers add up to the total that is shown above them.\<close>

lemma calc_totals_requests:
  "calc_totals p ws n q r = (Ok (n', q', r') :: ('e, _) outcome) \<Longrightarrow>
     num_ok_requests q' + num_bad_requests q' + num_runt_requests q' + num_jumbo_requests q' =
     num_ok_requests q + num_bad_requests q + num_runt_requests q + num_jumbo_requests q + (\<Sum>w\<leftarrow>ws. worker_total w)"
  by (induction ws arbitrary: n q r)
    (auto simp: and_then_Ok_iff request_metrics_add_def worker_total_def)

lemma total_is_sum_of_workers:
  "calc_aggregated_metrics p F d ws = (Ok g :: ('e, _) outcome) \<Longrightarrow> ag_total_requests g = (\<Sum>w\<leftarrow>ws. worker_total w)"
  by (auto simp: calc_aggregated_metrics_def and_then_Ok_iff request_metrics_default_def dest!: calc_totals_requests)

text \<open>An event about a file was made from a whole text.\<close>

lemma processed_is_complete:
  assumes "server_writes M dir fs0 (wi_view io path)" "extension path = Some ''json''"
    and "ev = process_metrics_file W (wi_read_err io path) (wi_view io path) path name"
  shows "(\<exists>e. ev = ReadFailed name e) \<or>
    (\<exists>text. (fs0 path = Some (File text) \<or> complete_report M dir path text) \<and>
       (case we_from_json W text of
          Inl e \<Rightarrow> ev = ParseFailed name e
        | Inr m \<Rightarrow> ev = Displayed name (display_metrics W name m)))"
proof (cases "read_to_string (wi_read_err io path) (wi_view io path) path")
  case (Inl e)
  then show ?thesis using assms(3) by (simp add: process_metrics_file_def)
next
  case (Inr contents)
  then have "wi_view io path path = Some (File contents)"
    by (auto simp: read_to_string_def split: option.splits node.splits if_splits)
  then have "fs0 path = Some (File contents) \<or> complete_report M dir path contents"
    using server_writes_json [OF assms(1,2)] by auto
  moreover have "case we_from_json W contents of Inl e \<Rightarrow> ev = ParseFailed name e | Inr m \<Rightarrow> ev = Displayed name (display_metrics W name m)"
    using Inr assms(3) by (simp add: process_metrics_file_def split: sum.splits)
  ultimately show ?thesis by blast
qed

section \<open>Property\<close>

text \<open>C36. The watcher beside the server: at whatever moments its calls fall between those of the server,
  which may also be killed and started again, the watcher never panics; whatever it displays or fails to parse is
  the complete text of one report the server wrote, or of a file that was there before; it handles each file name once;
  and every report that a listing shows it, it handles.\<close>

theorem watcher_reads_complete_reports:
  assumes "\<forall>io\<in>set ios. \<forall>path. server_writes M dir fs0 (wi_view io path)"
  shows "\<exists>seen out. watch_passes W dir ios {} = (Ok (seen, out) :: (int, _) outcome) \<and>
    distinct (List.map_filter event_file out) \<and>
    (\<forall>ev\<in>set out. \<forall>name. event_file ev = Some name \<longrightarrow>
       (\<exists>e. ev = ReadFailed name e) \<or>
       (\<exists>path text. file_name path = Some name \<and> (fs0 path = Some (File text) \<or> complete_report M dir path text) \<and>
          (case we_from_json W text of
             Inl e \<Rightarrow> ev = ParseFailed name e
           | Inr m \<Rightarrow> ev = Displayed name (display_metrics W name m)))) \<and>
    (\<forall>io\<in>set ios. \<forall>es entry fs. wi_entries io = Inr es \<and> (Some entry, fs) \<in> set es \<and>
       is_file fs (path_join dir entry) \<and> extension (path_join dir entry) = Some ''json'' \<longrightarrow>
       (\<exists>ev\<in>set out. event_file ev = file_name (path_join dir entry)))"
proof -
  obtain seen out where run: "watch_passes W dir ios {} = (Ok (seen, out) :: (int, _) outcome)" and d: "passes_done W dir ios {} seen out"
    using watch_passes_done [of W dir ios "{}", where 'e = int] by blast
  have made: "\<forall>ev\<in>set out. event_file ev \<noteq> None \<longrightarrow> (\<exists>io\<in>set ios. \<exists>path name. extension path = Some ''json'' \<and>
      file_name path = Some name \<and> ev = process_metrics_file W (wi_read_err io path) (wi_view io path) path name)"
    using d by (simp add: passes_done_def)
  have complete: "(\<exists>e. ev = ReadFailed name e) \<or>
       (\<exists>path text. file_name path = Some name \<and> (fs0 path = Some (File text) \<or> complete_report M dir path text) \<and>
          (case we_from_json W text of Inl e \<Rightarrow> ev = ParseFailed name e | Inr m \<Rightarrow> ev = Displayed name (display_metrics W name m)))"
    if ev: "ev \<in> set out" and ef: "event_file ev = Some name" for ev name
  proof -
    obtain io path name' where *: "io \<in> set ios" "extension path = Some ''json''" "file_name path = Some name'"
      "ev = process_metrics_file W (wi_read_err io path) (wi_view io path) path name'"
      using made [rule_format, OF ev] ef by auto
    have "name' = name" using *(4) ef by simp
    with processed_is_complete [OF assms [rule_format, OF *(1)] *(2,4)] *(3) show ?thesis by blast
  qed
  have handled: "\<exists>ev\<in>set out. event_file ev = file_name (path_join dir entry)"
    if io: "io \<in> set ios" "wi_entries io = Inr es" and e: "(Some entry, fs) \<in> set es" "is_file fs (path_join dir entry)"
      "extension (path_join dir entry) = Some ''json''" for io es entry fs
  proof -
    obtain name where name: "file_name (path_join dir entry) = Some name" using e(3) extension_file_name by blast
    obtain ps where ps: "get_json_files dir (wi_entries io) = Inr ps" "path_join dir entry \<in> set ps"
      using get_json_files_complete [OF e] io(2) by auto
    have "name \<in> seen" using d io(1) ps name unfolding passes_done_def by blast
    moreover have "set (List.map_filter event_file out) = seen" using d by (simp add: passes_done_def)
    ultimately show ?thesis using name by (force simp: List.map_filter_def)
  qed
  have once: "distinct (List.map_filter event_file out)" using d by (simp add: passes_done_def)
  show ?thesis
    by (rule exI [of _ seen], rule exI [of _ out], intro conjI, rule run, rule once)
      (use complete in blast, use handled in blast)
qed

text \<open>A directory with a report and the rest of an interrupted write.\<close>

definition sample_watch_env :: "nat watch_env" where
  "sample_watch_env =
     \<lparr>we_from_json = (\<lambda>b. if b = [123, 125] then Inr undefined else Inl ''EOF while parsing''), we_show_f64 = (\<lambda>d f. show_nat f)\<rparr>"

definition sample_json_env :: "(int, nat) report_env" where
  "sample_json_env = sample_report_env\<lparr>re_strftime_utc := (\<lambda>fmt ts. Some ''r.json''), re_to_json := (\<lambda>s. Inr [123, 125])\<rparr>"

definition sample_dir_before :: file_system where
  "sample_dir_before = [''/m'' \<mapsto> Dir]"

definition sample_dir_after :: file_system where
  "sample_dir_after = [''/m'' \<mapsto> Dir, ''/m/r.json'' \<mapsto> File [123, 125], ''/m/.r.json.tmp'' \<mapsto> File [123]]"

definition sample_pass :: watch_io where
  "sample_pass =
     \<lparr>wi_entries = Inr [(Some ''.r.json.tmp'', sample_dir_after), (None, sample_dir_after), (Some ''r.json'', sample_dir_after)],
      wi_view = (\<lambda>path. sample_dir_after), wi_read_err = (\<lambda>path. None)\<rparr>"

lemma sample_dir_written: "server_writes sample_json_env ''/m'' sample_dir_before sample_dir_after"
proof -
  let ?s = "undefined :: nat metrics_snapshot"
  let ?io1 = "\<lparr>wi_create = None, wi_written = [], wi_write = None, wi_sync = None, wi_rename = None\<rparr>"
  let ?io2 = "\<lparr>wi_create = None, wi_written = [1], wi_write = Some ''disk full'', wi_sync = None, wi_rename = None\<rparr>"
  let ?mid = "[''/m'' \<mapsto> Dir, ''/m/r.json'' \<mapsto> File [123, 125]] :: file_system"
  have j: "path_join ''/m'' ''r.json'' = ''/m/r.json''" "path_join ''/m'' ''.r.json.tmp'' = ''/m/.r.json.tmp''"
    by (simp_all add: path_join_def starts_with_def)
  have env: "re_strftime_utc sample_json_env fmt ts = Some ''r.json''" "re_to_json sample_json_env s = Inr [123, 125]" for fmt ts s
    by (simp_all add: sample_json_env_def)
  have d: "''/m/r.json'' \<noteq> ''/m/.r.json.tmp''" "''/m'' \<noteq> ''/m/.r.json.tmp''" "''/m'' \<noteq> ''/m/r.json''" by simp_all
  obtain r1 s1 where w1: "write_to_file sample_json_env ?io1 ?s ''/m'' sample_dir_before = (r1, s1)" by (metis surj_pair)
  then have "?mid \<in> set s1" using d
    by (auto simp: write_to_file_def env j Let_def file_create_def file_rename_def sample_dir_before_def fun_eq_iff)
  from server_writes.report [OF server_writes.found w1 this] have m: "server_writes sample_json_env ''/m'' sample_dir_before ?mid" .
  obtain r2 s2 where w2: "write_to_file sample_json_env ?io2 ?s ''/m'' ?mid = (r2, s2)" by (metis surj_pair)
  then have "sample_dir_after \<in> set s2" using d
    by (auto simp: write_to_file_def env j Let_def file_create_def sample_dir_after_def fun_eq_iff)
  from server_writes.report [OF m w2 this] show ?thesis .
qed

theorem watcher_reads_complete_reports_witness:
  "\<exists>seen out. watch_passes sample_watch_env ''/m'' [sample_pass, sample_pass] {} = (Ok (seen, out) :: (int, _) outcome) \<and>
     distinct (List.map_filter event_file out) \<and> (\<exists>ev\<in>set out. event_file ev = Some ''r.json'')"
proof -
  have v: "\<forall>io\<in>set [sample_pass, sample_pass]. \<forall>path. server_writes sample_json_env ''/m'' sample_dir_before (wi_view io path)"
    using sample_dir_written by (simp add: sample_pass_def)
  have j: "path_join ''/m'' ''r.json'' = ''/m/r.json''" by (simp add: path_join_def starts_with_def)
  have n: "file_name ''/m/r.json'' = Some ''r.json''" by (simp add: file_name_def path_components_def)
  then have x: "extension ''/m/r.json'' = Some ''json''" by (simp add: extension_def)
  have f: "is_file sample_dir_after ''/m/r.json''" by (simp add: is_file_def sample_dir_after_def)
  have e: "wi_entries sample_pass = Inr [(Some ''.r.json.tmp'', sample_dir_after), (None, sample_dir_after), (Some ''r.json'', sample_dir_after)]"
    by (simp add: sample_pass_def)
  obtain seen out where "watch_passes sample_watch_env ''/m'' [sample_pass, sample_pass] {} = (Ok (seen, out) :: (int, _) outcome)"
    "distinct (List.map_filter event_file out)"
    and h: "\<forall>io\<in>set [sample_pass, sample_pass]. \<forall>es entry fs. wi_entries io = Inr es \<and> (Some entry, fs) \<in> set es \<and>
       is_file fs (path_join ''/m'' entry) \<and> extension (path_join ''/m'' entry) = Some ''json'' \<longrightarrow>
       (\<exists>ev\<in>set out. event_file ev = file_name (path_join ''/m'' entry))"
    using watcher_reads_complete_reports [OF v, of sample_watch_env] by blast
  moreover have "\<exists>ev\<in>set out. event_file ev = Some ''r.json''"
    using h [rule_format, of sample_pass _ "''r.json''" sample_dir_after] e j n x f by simp
  ultimately show ?thesis by blast
qed

end
