(* ===== verification/Test_Context.thy ===== *)
theory Test_Context
  imports Server Validation
begin

text \<open>
  The test support of the server crate (\<^verbatim>\<open>server/src/test_utils.rs\<close>), on which the tests of client and server
  rest: a context that makes genuine draft-14 exchanges with a chosen time, and a separate responder for
  draft-08. All clones of a mock clock are one cell; \<open>handler_with_clock\<close> and \<open>set_time\<close> write it for every holder.
  Shown: in every state of a context the exchange it makes has the chosen midpoint and is accepted exactly inside the
  delegation, and the draft-08 responder sends what the server sends.
\<close>

section \<open>The draft-14 context\<close>

record 'addr test_context =
  tc_batch_size :: u8
  tc_clock :: clock_source
  tc_response_handler :: "(memory_backend, 'addr) response_handler"
  tc_key_source :: "memory_backend key_source"

fun key_with_clock :: "clock_source \<Rightarrow> online_key \<Rightarrow> online_key" where
  "key_with_clock c (Draft14Key k) = Draft14Key (k\<lparr>ok14_clock := c\<rparr>)"
| "key_with_clock c (Draft08Key k) = Draft08Key (k\<lparr>ok08_clock := c\<rparr>)"

definition handler_with_clock :: "clock_source \<Rightarrow> ('b, 'addr) response_handler \<Rightarrow> ('b, 'addr) response_handler" where
  "handler_with_clock c h =
     h\<lparr>rh_online_key := key_with_clock c (rh_online_key h), rh_key_source := (rh_key_source h)\<lparr>ks_clock_source := c\<rparr>\<rparr>"

text \<open>The key source of the context is a clone of the one in the handler: they share the identity.\<close>

definition with_key_validity ::
  "ed25519 \<Rightarrow> u64 option \<Rightarrow> bytes \<Rightarrow> u8 \<Rightarrow> duration \<Rightarrow> (backend_error, 'addr test_context) outcome" where
  "with_key_validity E sys secret batch_size key_validity =
     and_then (epoch_seconds sys System) (\<lambda>now.
     let clock = Mock now in
     and_then (mb_from_value E (replicate 32 42)) (\<lambda>seed.
     and_then (key_source_new (memory_ops E) RfcDraft14 seed clock key_validity) (\<lambda>key_source.
     and_then (response_handler_new E (memory_ops E) sys secret batch_size key_source RfcDraft14) (\<lambda>response_handler.
     Ok \<lparr>tc_batch_size = batch_size, tc_clock = clock, tc_response_handler = response_handler,
         tc_key_source = rh_key_source response_handler\<rparr>))))"

definition test_context_new :: "ed25519 \<Rightarrow> u64 option \<Rightarrow> bytes \<Rightarrow> u8 \<Rightarrow> (backend_error, 'addr test_context) outcome" where
  "test_context_new E sys secret batch_size =
     with_key_validity E sys secret batch_size \<lparr>dur_secs = 8000000, dur_nanos = 0\<rparr>"

definition new_response_handler :: "ed25519 \<Rightarrow> u64 option \<Rightarrow> bytes \<Rightarrow> (backend_error, (memory_backend, 'addr) response_handler) outcome" where
  "new_response_handler E sys secret = and_then (test_context_new E sys secret 64) (\<lambda>c. Ok (tc_response_handler c))"

definition rotate_key ::
  "ed25519 \<Rightarrow> u64 option \<Rightarrow> bytes \<Rightarrow> 'addr test_context \<Rightarrow> (backend_error, 'addr test_context) outcome" where
  "rotate_key E sys secret c =
     and_then (replace_online_key E (memory_ops E) sys secret (tc_response_handler c)) (\<lambda>h.
     Ok (c\<lparr>tc_response_handler := h, tc_key_source := rh_key_source h\<rparr>))"

text \<open>The callback that parses each response and keeps it with its bytes.\<close>

fun parse_responses :: "profile \<Rightarrow> ('addr \<times> bytes) list \<Rightarrow> (backend_error, (response \<times> bytes) list) outcome" where
  "parse_responses p [] = Ok []"
| "parse_responses p ((addr, response_bytes) # outs) =
     and_then (expect (parse (from_frame (resp_from_wire p)) response_bytes)) (\<lambda>resp.
     and_then (parse_responses p outs) (\<lambda>responses. Ok ((resp, response_bytes) # responses)))"

definition create_interaction_pair_with_nonce_and_bytes ::
  "profile \<Rightarrow> ed25519 \<Rightarrow> hash_fn \<Rightarrow> u64 option \<Rightarrow> 'addr \<Rightarrow> u64 \<Rightarrow> nonce \<Rightarrow> 'addr test_context \<Rightarrow>
     (backend_error, (request \<times> response \<times> bytes) \<times> 'addr test_context) outcome" where
  "create_interaction_pair_with_nonce_and_bytes p E H sys sock_addr midp n c =
     and_then (set_time midp (tc_clock c)) (\<lambda>clock.
     let h = handler_with_clock clock (tc_response_handler c);
         req = request_new_draft14 n in
     and_then (expect (as_frame_bytes request_wire_size request_to_wire req)) (\<lambda>request_bytes.
     and_then (add_request p H request_bytes req sock_addr h) (\<lambda>h1.
     and_then (process_responses p E H sys h1) (\<lambda>(outs, h2).
     and_then (parse_responses p outs) (\<lambda>responses.
     and_then (assert_that (length responses = 1)) (\<lambda>_.
     let h3 = response_handler_clear h2 in
     and_then (if responses = [] then Panic else Ok (last responses)) (\<lambda>(resp, response_bytes).
     Ok ((req, resp, response_bytes),
         c\<lparr>tc_clock := clock, tc_response_handler := h3, tc_key_source := rh_key_source h3\<rparr>))))))))"

definition create_interaction_pair_with_nonce ::
  "profile \<Rightarrow> ed25519 \<Rightarrow> hash_fn \<Rightarrow> u64 option \<Rightarrow> 'addr \<Rightarrow> u64 \<Rightarrow> nonce \<Rightarrow> 'addr test_context \<Rightarrow>
     (backend_error, (request \<times> response) \<times> 'addr test_context) outcome" where
  "create_interaction_pair_with_nonce p E H sys sock_addr midp n c =
     and_then (create_interaction_pair_with_nonce_and_bytes p E H sys sock_addr midp n c)
       (\<lambda>((req, resp, _), c'). Ok ((req, resp), c'))"

text \<open>\<open>val\<close> is what the random generator fills in.\<close>

definition create_interaction_pair_with_bytes ::
  "profile \<Rightarrow> ed25519 \<Rightarrow> hash_fn \<Rightarrow> u64 option \<Rightarrow> 'addr \<Rightarrow> bytes \<Rightarrow> u64 \<Rightarrow> 'addr test_context \<Rightarrow>
     (backend_error, (request \<times> response \<times> bytes) \<times> 'addr test_context) outcome" where
  "create_interaction_pair_with_bytes p E H sys sock_addr val midp c =
     create_interaction_pair_with_nonce_and_bytes p E H sys sock_addr midp val c"

definition create_interaction_pair ::
  "profile \<Rightarrow> ed25519 \<Rightarrow> hash_fn \<Rightarrow> u64 option \<Rightarrow> 'addr \<Rightarrow> bytes \<Rightarrow> u64 \<Rightarrow> 'addr test_context \<Rightarrow>
     (backend_error, (request \<times> response) \<times> 'addr test_context) outcome" where
  "create_interaction_pair p E H sys sock_addr val midp c =
     and_then (create_interaction_pair_with_bytes p E H sys sock_addr val midp c)
       (\<lambda>((req, resp, _), c'). Ok ((req, resp), c'))"

section \<open>The draft-08 context\<close>

record 'addr draft08_context =
  d8_batch_size :: u8
  d8_clock :: clock_source
  d8_key_source :: "memory_backend key_source"
  d8_merkle_tree :: merkle_tree
  d8_merkle_path :: merkle_path
  d8_requests :: "(request_draft08 \<times> 'addr) list"
  d8_response_buf :: bytes

definition d8_new :: "ed25519 \<Rightarrow> u64 option \<Rightarrow> u8 \<Rightarrow> (backend_error, 'addr draft08_context) outcome" where
  "d8_new E sys batch_size =
     and_then (epoch_seconds sys System) (\<lambda>now.
     let clock = Mock now in
     and_then (mb_from_value E (replicate 32 42)) (\<lambda>seed.
     and_then (key_source_new (memory_ops E) RfcDraft08 seed clock \<lparr>dur_secs = 8000000, dur_nanos = 0\<rparr>) (\<lambda>key_source.
     Ok \<lparr>d8_batch_size = batch_size, d8_clock = clock, d8_key_source = key_source,
         d8_merkle_tree = tree_reserve (unat batch_size) tree_new, d8_merkle_path = path_default,
         d8_requests = [], d8_response_buf = replicate 1024 0\<rparr>)))"

definition d8_add_request ::
  "hash_fn \<Rightarrow> request_draft08 \<Rightarrow> 'addr \<Rightarrow> 'addr draft08_context \<Rightarrow> (backend_error, 'addr draft08_context) outcome" where
  "d8_add_request H req src_addr c =
     and_then (push_leaf H (r08_nonce req) (d8_merkle_tree c)) (\<lambda>tree.
     Ok (c\<lparr>d8_merkle_tree := tree, d8_requests := d8_requests c @ [(req, src_addr)]\<rparr>))"

definition d8_respond_one ::
  "profile \<Rightarrow> merkle_tree \<Rightarrow> response_draft08 \<Rightarrow> nat \<Rightarrow> 'addr \<Rightarrow> merkle_path \<times> bytes \<Rightarrow>
     (backend_error, ('addr \<times> bytes) \<times> merkle_path \<times> bytes) outcome" where
  "d8_respond_one p tree response_common index src_addr st =
     (case st of (mp0, buf) \<Rightarrow>
     and_then (get_paths_to p tree index (path_clear mp0)) (\<lambda>mp.
     let resp = resp08_set_indx (of_nat index) (resp08_copy_path mp response_common) in
     and_then (expect (to_frame resp08_wire_size resp08_to_wire resp (cursor_new buf))) (\<lambda>(_, cursor).
     let buf' = cur_data cursor; n = frame_size resp08_wire_size resp in
     and_then (slice_of buf' 0 n) (\<lambda>frame. Ok ((src_addr, frame), (mp, buf'))))))"

fun d8_respond_loop ::
  "profile \<Rightarrow> merkle_tree \<Rightarrow> response_draft08 \<Rightarrow> nat \<Rightarrow> (request_draft08 \<times> 'addr) list \<Rightarrow> merkle_path \<times> bytes \<Rightarrow>
     (backend_error, ('addr \<times> bytes) list \<times> merkle_path \<times> bytes) outcome" where
  "d8_respond_loop p tree common index [] st = Ok ([], st)"
| "d8_respond_loop p tree common index ((req, src_addr) # rs) st =
     and_then (d8_respond_one p tree common index src_addr st) (\<lambda>(out, st').
     and_then (d8_respond_loop p tree common (Suc index) rs st') (\<lambda>(outs, st'').
     Ok (out # outs, st'')))"

text \<open>A new online key is made for every batch.\<close>

definition d8_process_responses ::
  "profile \<Rightarrow> ed25519 \<Rightarrow> hash_fn \<Rightarrow> u64 option \<Rightarrow> bytes \<Rightarrow> 'addr draft08_context \<Rightarrow>
     (backend_error, ('addr \<times> bytes) list \<times> 'addr draft08_context) outcome" where
  "d8_process_responses p E H sys secret c =
     (if d8_requests c = [] then Ok ([], c)
      else
      and_then (compute_root H (d8_merkle_tree c)) (\<lambda>(root, tree).
      and_then (ks_make_online_key08 E (memory_ops E) sys secret (d8_key_source c)) (\<lambda>(online_key, ks).
      and_then (ok08_get_cert p online_key) (\<lambda>cert.
      and_then (ok08_make_srep E sys root online_key) (\<lambda>((srep, sg), _).
      let common = resp08_set_sig sg (resp08_set_srep srep (resp08_set_cert cert resp08_default)) in
      and_then (d8_respond_loop p tree common 0 (d8_requests c) (d8_merkle_path c, d8_response_buf c)) (\<lambda>(outs, (mp, buf)).
      Ok (outs, c\<lparr>d8_merkle_tree := tree, d8_key_source := ks, d8_merkle_path := mp, d8_response_buf := buf\<rparr>)))))))"

fun parse_responses08 :: "profile \<Rightarrow> ('addr \<times> bytes) list \<Rightarrow> (backend_error, response_draft08 list) outcome" where
  "parse_responses08 p [] = Ok []"
| "parse_responses08 p ((addr, response_bytes) # outs) =
     and_then (expect (parse (from_frame (resp08_from_wire p)) response_bytes)) (\<lambda>resp.
     and_then (parse_responses08 p outs) (\<lambda>responses. Ok (resp # responses)))"

definition d8_create_interaction_pair_with_nonce ::
  "profile \<Rightarrow> ed25519 \<Rightarrow> hash_fn \<Rightarrow> u64 option \<Rightarrow> bytes \<Rightarrow> 'addr \<Rightarrow> u64 \<Rightarrow> nonce \<Rightarrow> 'addr draft08_context \<Rightarrow>
     (backend_error, (request_draft08 \<times> response_draft08) \<times> 'addr draft08_context) outcome" where
  "d8_create_interaction_pair_with_nonce p E H sys secret sock_addr midp n c =
     and_then (set_time midp (d8_clock c)) (\<lambda>clock.
     let c0 = c\<lparr>d8_clock := clock, d8_key_source := (d8_key_source c)\<lparr>ks_clock_source := clock\<rparr>\<rparr>;
         req = r08_new n in
     and_then (d8_add_request H req sock_addr c0) (\<lambda>c1.
     and_then (d8_process_responses p E H sys secret c1) (\<lambda>(outs, c2).
     and_then (parse_responses08 p outs) (\<lambda>responses.
     and_then (assert_that (length responses = 1)) (\<lambda>_.
     let c3 = c2\<lparr>d8_merkle_tree := tree_clear (d8_merkle_tree c2), d8_requests := []\<rparr> in
     and_then (if responses = [] then Panic else Ok (last responses)) (\<lambda>resp.
     Ok ((req, resp), c3)))))))"

definition d8_create_interaction_pair ::
  "profile \<Rightarrow> ed25519 \<Rightarrow> hash_fn \<Rightarrow> u64 option \<Rightarrow> bytes \<Rightarrow> 'addr \<Rightarrow> bytes \<Rightarrow> u64 \<Rightarrow> 'addr draft08_context \<Rightarrow>
     (backend_error, (request_draft08 \<times> response_draft08) \<times> 'addr draft08_context) outcome" where
  "d8_create_interaction_pair p E H sys secret sock_addr val midp c =
     d8_create_interaction_pair_with_nonce p E H sys secret sock_addr midp val c"

section \<open>States of a draft-14 context\<close>

inductive tc_reach :: "ed25519 \<Rightarrow> hash_fn \<Rightarrow> 'addr test_context \<Rightarrow> bool" for E H where
  tc_start: "with_key_validity E sys secret batch_size key_validity = Ok c \<Longrightarrow>
     batch_size \<noteq> 0 \<Longrightarrow> batch_size \<le> 64 \<Longrightarrow> dur_secs key_validity \<noteq> 0 \<Longrightarrow> tc_reach E H c"
| tc_rotate: "tc_reach E H c \<Longrightarrow> rotate_key E sys secret c = Ok c' \<Longrightarrow> tc_reach E H c'"
| tc_pair: "tc_reach E H c \<Longrightarrow> length n = 32 \<Longrightarrow>
     create_interaction_pair_with_nonce_and_bytes Release E H sys sock_addr midp n c = Ok (x, c') \<Longrightarrow> tc_reach E H c'"

text \<open>The public key of the fixed seed.\<close>

definition test_public_key :: "ed25519 \<Rightarrow> public_key" where
  "test_public_key E = ed_public E (replicate 32 42)"

definition tc_inv :: "ed25519 \<Rightarrow> hash_fn \<Rightarrow> 'addr test_context \<Rightarrow> bool" where
  "tc_inv E H c \<longleftrightarrow> (\<exists>t. tc_clock c = Mock t) \<and>
     (let h = tc_response_handler c in
      rh_inv E H (test_public_key E) [] h \<and> rh_requests h = [] \<and> rh_batch_size h \<noteq> 0 \<and> rh_protocol_version h = RfcDraft14 \<and>
      ks_inv (mb_ok E) (mb_pk E) (test_public_key E) RfcDraft14 (rh_key_source h) \<and>
      ks_clock_source (rh_key_source h) = tc_clock c \<and> key_clock (rh_online_key h) = tc_clock c)"

definition tc_delegation :: "'addr test_context \<Rightarrow> delegation" where
  "tc_delegation c = cert_delegation (key_cert (rh_online_key (tc_response_handler c)))"

lemma with_clock_inv:
  "rh_inv E H lt_pk leaves (handler_with_clock c h) \<longleftrightarrow> rh_inv E H lt_pk leaves h"
  "ks_inv P pk lt_pk v (rh_key_source (handler_with_clock c h)) \<longleftrightarrow> ks_inv P pk lt_pk v (rh_key_source h)"
  "key_clock (rh_online_key (handler_with_clock c h)) = c" "key_cert (rh_online_key (handler_with_clock c h)) = key_cert (rh_online_key h)"
  "rh_requests (handler_with_clock c h) = rh_requests h" "rh_batch_size (handler_with_clock c h) = rh_batch_size h"
  "rh_protocol_version (handler_with_clock c h) = rh_protocol_version h"
  "ks_clock_source (rh_key_source (handler_with_clock c h)) = c"
  by (cases "rh_online_key h"; cases "rh_protocol_version h";
      simp add: handler_with_clock_def rh_inv_def ks_inv_def ok14_ok_def ok08_ok_def)+

lemma with_key_validity_inv:
  fixes c :: "'addr test_context"
  assumes "ed25519_ok E" "with_key_validity E sys secret batch_size key_validity = Ok c"
    "batch_size \<noteq> 0" "batch_size \<le> 64" "dur_secs key_validity \<noteq> 0"
  shows "tc_inv E H c"
proof -
  obtain now seed ks h where
    s: "mb_from_value E (replicate 32 42) = Ok seed"
    "key_source_new (memory_ops E) RfcDraft14 seed (Mock now) key_validity = (Ok ks :: (backend_error, _) outcome)"
    "response_handler_new E (memory_ops E) sys secret batch_size ks RfcDraft14 = Ok h"
    "c = \<lparr>tc_batch_size = batch_size, tc_clock = Mock now, tc_response_handler = h, tc_key_source = rh_key_source h\<rparr>"
    using assms(2) by (auto simp: with_key_validity_def and_then_Ok_iff Let_def)
  have seed: "mb_ok E seed" "mb_pk E seed = test_public_key E"
    using mb_from_value_ok [OF assms(1), of "replicate 32 42"] s(1) by (auto simp: test_public_key_def)
  have "ks_inv (mb_ok E) (mb_pk E) (test_public_key E) RfcDraft14 ks" "ks_clock_source ks = Mock now"
    using s(2) seed assms(5) by (auto simp: key_source_new_def identity_new_def and_then_Ok_iff ks_inv_def)
  moreover have "unat batch_size \<le> 64" "unat batch_size \<noteq> 0" using assms(3,4) by (auto simp: word_le_nat_alt unat_eq_0)
  ultimately obtain h' :: "(memory_backend, 'addr) response_handler" where
    "response_handler_new E (memory_ops E) sys secret batch_size ks RfcDraft14 = Ok h'" "rh_inv E H (test_public_key E) [] h'"
    "ks_inv (mb_ok E) (mb_pk E) (test_public_key E) RfcDraft14 (rh_key_source h')" "ks_clock_source (rh_key_source h') = Mock now"
    "key_clock (rh_online_key h') = Mock now" "rh_batch_size h' \<noteq> 0" "rh_protocol_version h' = RfcDraft14" "rh_requests h' = []"
    using memory_seed.response_handler_new_ok [OF assms(1), of "test_public_key E" RfcDraft14 ks batch_size sys now secret H] by fastforce
  then show ?thesis using s(3,4) by (simp add: tc_inv_def)
qed

lemma rotate_key_inv:
  assumes "ed25519_ok E" "tc_inv E H c"
  shows "\<exists>c'. rotate_key E sys secret c = Ok c' \<and> tc_inv E H c' \<and>
    (\<forall>t. tc_clock c = Mock t \<longrightarrow> dele_min_time (tc_delegation c') = t)"
proof -
  let ?h = "tc_response_handler c"
  obtain t where t: "tc_clock c = Mock t" using assms(2) by (auto simp: tc_inv_def)
  have ks: "ks_inv (mb_ok E) (mb_pk E) (test_public_key E) (rh_protocol_version ?h) (rh_key_source ?h)"
    "epoch_seconds sys (ks_clock_source (rh_key_source ?h)) = (Ok t :: (backend_error, u64) outcome)"
    "rh_inv E H (test_public_key E) [] ?h" using assms(2) t by (simp_all add: tc_inv_def Let_def)
  from memory_seed.replace_online_key_ok [OF assms(1) ks, of secret]
  obtain h where h: "replace_online_key E (memory_ops E) sys secret ?h = Ok h" "rh_inv E H (test_public_key E) [] h"
      "ks_inv (mb_ok E) (mb_pk E) (test_public_key E) (rh_protocol_version h) (rh_key_source h)"
      "key_clock (rh_online_key h) = ks_clock_source (rh_key_source ?h)" "ks_clock_source (rh_key_source h) = ks_clock_source (rh_key_source ?h)"
      "rh_batch_size h = rh_batch_size ?h" "rh_protocol_version h = rh_protocol_version ?h" "rh_requests h = rh_requests ?h"
      "cert_delegation (key_cert (rh_online_key h)) = dele_new (ed_public E secret) t (dur_secs (ks_validity_length (rh_key_source ?h)))"
    by blast
  then show ?thesis using assms(2) t dele_new_times(1) by (auto simp: rotate_key_def tc_inv_def Let_def tc_delegation_def)
qed

text \<open>The histogram counter of single requests has room for \<open>k\<close> more batches.\<close>

definition tc_room :: "profile \<Rightarrow> nat \<Rightarrow> 'addr test_context \<Rightarrow> bool" where
  "tc_room p k c \<longleftrightarrow> p = Release \<or> unat (batch_sizes (rh_metrics (tc_response_handler c)) ! 0) + k \<le> 255"

lemma respond_loop14_counts:
  "respond_loop14 p t common i rs (mp, buf, m) = Ok (outs, (mp', buf', m')) \<Longrightarrow> batch_sizes m' = batch_sizes m"
  by (induction rs arbitrary: i mp buf m outs)
    (auto simp: respond_one14_def and_then_Ok_iff Let_def add_bytes_sent_def dest!: prod.exhaust_sel)

lemma tc_room_after:
  assumes "process_responses p E H sys h = Ok (outs, h')" "length (rh_requests h) = 1" "rh_protocol_version h = RfcDraft14"
    and "metrics_ok (rh_metrics h)" "p = Release \<or> unat (batch_sizes (rh_metrics h) ! 0) + Suc k \<le> 255"
  shows "p = Release \<or> unat (batch_sizes (rh_metrics h') ! 0) + k \<le> 255"
proof (cases p)
  case Debug
  let ?x = "batch_sizes (rh_metrics h) ! 0"
  have x: "unat ?x < 255" "0 < length (batch_sizes (rh_metrics h))"
    using assms(4,5) Debug by (auto simp: metrics_ok_def MAX_BATCH_SIZE_def)
  obtain m where "add_batch_size p (of_nat 1) (rh_metrics h) = (Ok m :: (backend_error, _) outcome)" "batch_sizes (rh_metrics h') = batch_sizes m"
    using assms(1-3)
    by (cases "rh_online_key h")
      (auto simp: process_responses_def process_responses_draft14_def and_then_Ok_iff Let_def split: if_splits dest!: respond_loop14_counts)
  then have "batch_sizes (rh_metrics h') ! 0 = ?x + 1"
    using add_batch_size_ok [OF assms(4), of 1 p, where 'e = backend_error] x by (auto simp: count_room_def)
  moreover have "unat (?x + 1) = unat ?x + 1" using x(1) by (subst unat_add_lem [THEN iffD1]) simp_all
  ultimately show ?thesis using assms(5) Debug by simp
qed simp

lemma pair_made_full:
  assumes E: "ed25519_ok E" and H: "sha512_ok H" and c: "tc_inv E H c" and n: "length n = 32" and room: "tc_room p (Suc k) c"
  shows "\<exists>resp bs c'. create_interaction_pair_with_nonce_and_bytes p E H sys sock_addr midp n c
      = Ok ((request_new_draft14 n, resp, bs), c') \<and> tc_inv E H c' \<and> tc_room p k c' \<and>
    tc_clock c' = Mock midp \<and> tc_delegation c' = tc_delegation c \<and>
    ks_validity_length (rh_key_source (tc_response_handler c')) = ks_validity_length (rh_key_source (tc_response_handler c)) \<and>
    resp_ok resp \<and> cert_delegation (resp_cert resp) = tc_delegation c \<and> srep_version (resp_srep resp) = RfcDraft14 \<and>
    srep_midpoint (resp_srep resp) = midp \<and> srep_radius (resp_srep resp) = DEFAULT_RADI_SECONDS \<and>
    (\<forall>t. validate_draft14 E H (Some (test_public_key E)) (frame_enc (request_enc (request_new_draft14 n))) resp bs = Ok t \<longleftrightarrow>
       t = midp \<and> dele_min_time (tc_delegation c) \<le> midp \<and> midp \<le> dele_max_time (tc_delegation c))"
proof -
  let ?pk = "test_public_key E" and ?r = "request_new_draft14 n"
  let ?q = "frame_enc (request_enc ?r)" and ?h = "handler_with_clock (Mock midp) (tc_response_handler c)"
  have h: "rh_inv E H ?pk [] ?h" "rh_requests ?h = []" "rh_batch_size ?h \<noteq> 0" "rh_protocol_version ?h = RfcDraft14"
    "ks_inv (mb_ok E) (mb_pk E) ?pk RfcDraft14 (rh_key_source ?h)" "\<exists>t. tc_clock c = Mock t"
    using c by (simp_all add: tc_inv_def Let_def with_clock_inv)
  have rv: "request_valid ?r" using n by (rule request_new_valid)
  note fb = request_message.as_frame_bytes_enc [OF rv]
  obtain h1 where h1: "add_request p H ?q ?r sock_addr ?h = Ok h1" "rh_inv E H ?pk [?q] h1"
    "rh_requests h1 = [\<lparr>pr_request = ?r, pr_src_addr = sock_addr\<rparr>]" "rh_protocol_version h1 = RfcDraft14" "rh_metrics h1 = rh_metrics ?h"
    using add_request_ok [OF h(1), of ?r p ?q sock_addr] h(2-4) n request_new_nonc by auto
  have rm: "p = Release \<or> unat (batch_sizes (rh_metrics h1) ! 0) + Suc k \<le> 255" "metrics_ok (rh_metrics h1)"
    using room h1(2,5) by (simp_all add: tc_room_def handler_with_clock_def rh_inv_def)
  have st1: "rh_static h1 = rh_static ?h" using add_request_static [OF h1(1)] .
  obtain key where k: "rh_online_key h1 = Draft14Key key" "ok14_ok E RfcDraft14 ?pk key"
    using h1(2,4) by (cases "rh_online_key h1") (auto simp: rh_inv_def)
  have kc: "ok14_clock key = Mock midp" "cert_delegation (ok14_cert key) = tc_delegation c"
    using st1 k(1) by (simp_all add: rh_static_def with_clock_inv tc_delegation_def)
  let ?root = "merkle_root_spec H (map (hash_leaf H) [?q])"
  let ?srep = "srep_make RfcDraft14 DEFAULT_RADI_SECONDS midp [RfcDraft14] ?root"
  obtain outs h2 common where p: "process_responses p E H sys h1 = Ok (outs, h2)" "length outs = 1"
    "response14_at H ?root common 0 ?q \<lparr>pr_request = ?r, pr_src_addr = sock_addr\<rparr> (outs ! 0)"
    "resp_cert common = ok14_cert key" "resp_srep common = ?srep"
    "resp_signature common = ed_sign E (ok14_secret key) (srep_prefix RfcDraft14 @ srep_enc ?srep)"
    "rh_inv E H ?pk [] (response_handler_clear h2)"
    using process_responses14 [OF E H h1(2,4) k(1), of p sys midp] h1(3) kc(1) rm(1)
    unfolding Let_def by (auto simp: count_room_def simp del: list.map)
  have st2: "rh_static h2 = rh_static ?h" using process_responses_static [OF p(1)] st1 by simp
  obtain r where r: "outs = [(sock_addr, frame_enc (resp_enc r))]" "resp_ok r" "resp_signature r = resp_signature common"
    "resp_srep r = resp_srep common" "resp_cert r = resp_cert common" "resp_index r = 0" "root_from_paths H 0 ?q (resp_path r) = ?root"
    using p(2,3) by (cases outs) (auto simp: response14_at_def)
  let ?c = "c\<lparr>tc_clock := Mock midp, tc_response_handler := response_handler_clear h2, tc_key_source := rh_key_source (response_handler_clear h2)\<rparr>"
  have made: "create_interaction_pair_with_nonce_and_bytes p E H sys sock_addr midp n c
      = Ok ((?r, resp_canon r, frame_enc (resp_enc r)), ?c)"
    using h(6) fb h1(1) p(1) r(1) parse_frame14 [OF r(2), of p]
    by (auto simp: create_interaction_pair_with_nonce_and_bytes_def Let_def)
  have inv: "tc_inv E H ?c" using p(7) st2 h(3-5)
    by (simp add: tc_inv_def response_handler_clear_def rh_static_def with_clock_inv)
  have hv: "header_accepted 7 (resp_header (resp_canon r))" "cert_valid (resp_cert (resp_canon r))"
    using resp_ok_header(1) [OF r(2)] r(2) by (simp_all add: resp_canon_def resp_ok_def resp_fields_ok_def)
  have m: "srep_midpoint (resp_srep (resp_canon r)) = midp" "cert_delegation (resp_cert (resp_canon r)) = tc_delegation c"
    using r(4,5) p(4,5) kc(2) by (simp_all add: resp_canon_def srep_make_def)
  have acc: "validate_draft14 E H (Some ?pk) ?q (resp_canon r) (frame_enc (resp_enc r)) = Ok midp"
    if "dele_min_time (tc_delegation c) \<le> midp" "midp \<le> dele_max_time (tc_delegation c)"
    by (rule honest14_accepted [OF E r(2), where v = RfcDraft14 and sk = "ok14_secret key" and radi = DEFAULT_RADI_SECONDS and root = ?root])
      (use that r p k(2) kc in \<open>simp_all add: ok14_ok_def DEFAULT_RADI_SECONDS_def\<close>)
  have "validate_draft14 E H (Some ?pk) ?q (resp_canon r) (frame_enc (resp_enc r)) = Ok t \<longleftrightarrow>
      t = midp \<and> dele_min_time (tc_delegation c) \<le> midp \<and> midp \<le> dele_max_time (tc_delegation c)" for t
    using acc validate14_iff(1) [OF hv, of E H "Some ?pk" ?q "frame_enc (resp_enc r)" t] m by (auto simp: Let_def)
  moreover have "tc_room p k ?c" using tc_room_after [OF p(1) _ h1(4) rm(2,1)] h1(3)
    by (simp add: tc_room_def response_handler_clear_def)
  moreover have "tc_delegation ?c = tc_delegation c"
    "ks_validity_length (rh_key_source (tc_response_handler ?c)) = ks_validity_length (rh_key_source (tc_response_handler c))"
    using st2 with_clock_inv(4) [of "Mock midp" "tc_response_handler c"]
    by (simp_all add: tc_delegation_def rh_static_def response_handler_clear_def handler_with_clock_def)
  moreover have "resp_ok (resp_canon r)" "srep_version (resp_srep (resp_canon r)) = RfcDraft14" "srep_radius (resp_srep (resp_canon r)) = DEFAULT_RADI_SECONDS"
    using resp_canon_valid(1) [OF r(2)] r(4) p(5) by (simp_all add: resp_valid_def resp_canon_def srep_make_def)
  ultimately show ?thesis using made inv m
    by (intro exI [of _ "resp_canon r"] exI [of _ "frame_enc (resp_enc r)"] exI [of _ ?c]) simp
qed

lemma pair_made:
  assumes E: "ed25519_ok E" and H: "sha512_ok H" and c: "tc_inv E H c" and n: "length n = 32"
  shows "\<exists>resp bs c'. create_interaction_pair_with_nonce_and_bytes Release E H sys sock_addr midp n c
      = Ok ((request_new_draft14 n, resp, bs), c') \<and> tc_inv E H c' \<and> srep_midpoint (resp_srep resp) = midp \<and>
    (\<forall>t. validate_draft14 E H (Some (test_public_key E)) (frame_enc (request_enc (request_new_draft14 n))) resp bs = Ok t \<longleftrightarrow>
       t = midp \<and> dele_min_time (tc_delegation c) \<le> midp \<and> midp \<le> dele_max_time (tc_delegation c))"
  using pair_made_full [OF assms, of Release 0 sys sock_addr midp] unfolding tc_room_def by blast

lemma tc_reach_inv:
  assumes "ed25519_ok E" "sha512_ok H" "tc_reach E H c"
  shows "tc_inv E H c"
  using assms(3)
proof induction
  case (tc_start sys secret batch_size key_validity c)
  then show ?case using with_key_validity_inv [OF assms(1)] by blast
next
  case (tc_rotate c sys secret c')
  then show ?case using rotate_key_inv [OF assms(1), of H c sys secret] by auto
next
  case (tc_pair c n sys sock_addr midp x c')
  then show ?case using pair_made [OF assms(1,2), of c n sys sock_addr midp] by auto
qed

section \<open>The draft-08 context is the server\<close>

definition d8_pending :: "request_draft08 \<times> 'addr \<Rightarrow> 'addr pending_request" where
  "d8_pending x = \<lparr>pr_request = Draft08 (fst x), pr_src_addr = snd x\<rparr>"

text \<open>The response handler of a server with the same requests, that holds the online key \<open>k\<close>.\<close>

definition d8_handler :: "online_key08 \<Rightarrow> response_metrics \<Rightarrow> 'addr draft08_context \<Rightarrow> (memory_backend, 'addr) response_handler" where
  "d8_handler k m c =
     \<lparr>rh_batch_size = unat (d8_batch_size c), rh_merkle_tree = d8_merkle_tree c, rh_merkle_path = d8_merkle_path c,
      rh_key_source = d8_key_source c, rh_online_key = Draft08Key k, rh_metrics = m,
      rh_requests = map d8_pending (d8_requests c), rh_response_buf = d8_response_buf c, rh_protocol_version = RfcDraft08\<rparr>"

lemma d8_pending_simp [simp]: "d8_pending (r, a) = \<lparr>pr_request = Draft08 r, pr_src_addr = a\<rparr>"
  by (simp add: d8_pending_def)

lemma d8_respond_one_eq:
  "d8_respond_one p tree common i a (mp, buf) =
     and_then (respond_one08 p tree common i \<lparr>pr_request = r, pr_src_addr = a\<rparr> (mp, buf, m)) (\<lambda>(out, (mp', buf', m')). Ok (out, (mp', buf')))"
  by (simp add: d8_respond_one_def respond_one08_def and_then_assoc Let_def split_def)

lemma d8_respond_loop_eq:
  "d8_respond_loop p tree common i rs (mp, buf) =
     and_then (respond_loop08 p tree common i (map d8_pending rs) (mp, buf, m)) (\<lambda>(outs, (mp', buf', m')). Ok (outs, (mp', buf')))"
proof (induction rs arbitrary: i mp buf m)
  case (Cons x rs)
  obtain r a where x: "x = (r, a)" by (cases x)
  show ?case
  proof (cases "respond_one08 p tree common i \<lparr>pr_request = Draft08 r, pr_src_addr = a\<rparr> (mp, buf, m)")
    case (Ok y)
    obtain out mp' buf' m' where "y = (out, (mp', buf', m'))" by (cases y) auto
    with Ok Cons.IH [of "Suc i" mp' buf' m'] show ?thesis
      by (cases "respond_loop08 p tree common (Suc i) (map d8_pending rs) (mp', buf', m')")
        (auto simp: x d8_respond_one_eq [where r = "Draft08 r" and m = m])
  qed (simp_all add: x d8_respond_one_eq [where r = "Draft08 r" and m = m])
qed simp

text \<open>Although it is a second implementation of the response loop, the context sends, for any requests and in whatever
  state its tree, path and buffer are, exactly the datagrams of a server that holds the same requests and the key the
  context makes, in the same order and to the same addresses, and fails when that fails.\<close>

lemma draft08_responses_eq:
  assumes "ks_make_online_key08 E (memory_ops E) sys secret (d8_key_source c) = Ok (k, ks)"
    and "metrics_ok m" "length (d8_requests c) \<le> 64" "count_room p (length (d8_requests c)) m"
  shows "and_then (d8_process_responses p E H sys secret c)
      (\<lambda>(outs, c'). Ok (outs, d8_merkle_tree c', d8_merkle_path c', d8_response_buf c')) =
    and_then (process_responses p E H sys (d8_handler k m c))
      (\<lambda>(outs, h). Ok (outs, rh_merkle_tree h, rh_merkle_path h, rh_response_buf h))"
proof (cases "d8_requests c = []")
  case False
  let ?n = "length (d8_requests c)"
  obtain m' where m': "add_batch_size p (of_nat ?n) m = (Ok m' :: (backend_error, _) outcome)"
    using add_batch_size_ok [OF assms(2) _ assms(3,4), where 'e = backend_error] False by auto
  show ?thesis
  proof (cases "compute_root H (d8_merkle_tree c) :: (backend_error, _) outcome")
    case (Ok y)
    obtain root tree where y: "y = (root, tree)" by (cases y)
    show ?thesis
    proof (cases "ok08_get_cert p k :: (backend_error, _) outcome")
      case cert: (Ok cert)
      show ?thesis
      proof (cases "ok08_make_srep E sys root k :: (backend_error, _) outcome")
        case srep: (Ok z)
        obtain srep sg k' where z: "z = ((srep, sg), k')" by (cases z) auto
        let ?common = "resp08_set_sig sg (resp08_set_srep srep (resp08_set_cert cert resp08_default))"
        show ?thesis using False m' Ok y cert srep z assms(1)
          by (cases "respond_loop08 p tree ?common 0 (map d8_pending (d8_requests c)) (d8_merkle_path c, d8_response_buf c, m')")
            (auto simp: d8_process_responses_def process_responses_def process_responses_draft08_def d8_handler_def Let_def
              d8_respond_loop_eq [where m = m'])
      qed (use False m' Ok y cert assms(1) in
          \<open>simp_all add: d8_process_responses_def process_responses_def process_responses_draft08_def d8_handler_def Let_def\<close>)
    qed (use False m' Ok y assms(1) in
        \<open>simp_all add: d8_process_responses_def process_responses_def process_responses_draft08_def d8_handler_def Let_def\<close>)
  qed (use False m' in \<open>simp_all add: d8_process_responses_def process_responses_def d8_handler_def\<close>)
qed (simp add: d8_process_responses_def process_responses_def d8_handler_def)

text \<open>A context between two exchanges.\<close>

definition d8_inv :: "ed25519 \<Rightarrow> 'addr draft08_context \<Rightarrow> bool" where
  "d8_inv E c \<longleftrightarrow> (\<exists>t. d8_clock c = Mock t) \<and> unat (d8_batch_size c) \<le> 64 \<and>
     ks_inv (mb_ok E) (mb_pk E) (test_public_key E) RfcDraft08 (d8_key_source c) \<and>
     tree_ok (d8_merkle_tree c) \<and> tree_leaves (d8_merkle_tree c) = [] \<and> path_ok (d8_merkle_path c) \<and>
     d8_requests c = [] \<and> length (d8_response_buf c) = 1024"

lemma d8_new_inv:
  assumes "ed25519_ok E" "batch_size \<le> 64" "sys = Some now"
  shows "\<exists>c. d8_new E sys batch_size = Ok c \<and> d8_inv E c"
proof -
  obtain b where "mb_from_value E (replicate 32 42) = Ok b" "mb_ok E b" "mb_pk E b = test_public_key E"
    using mb_from_value_ok [OF assms(1), of "replicate 32 42"] by (auto simp: test_public_key_def)
  moreover have "unat batch_size \<le> 64" using assms(2) by (simp add: word_le_nat_alt)
  ultimately show ?thesis using memory_seed.backend_len [of E b] assms(3)
    by (simp add: d8_new_def key_source_new_def identity_new_def system_seconds_def d8_inv_def ks_inv_def path_ok_ops Let_def)
qed

lemma d8_process_static:
  assumes "d8_process_responses p E H sys secret c = Ok (outs, c')" "d8_requests c \<noteq> []"
    and "ks_make_online_key08 E (memory_ops E) sys secret (d8_key_source c) = Ok (k, ks)"
  shows "d8_clock c' = d8_clock c" "d8_batch_size c' = d8_batch_size c" "d8_key_source c' = ks"
  using assms by (auto simp: d8_process_responses_def and_then_Ok_iff Let_def)

lemma count_room_default: "n \<le> 64 \<Longrightarrow> count_room p n response_metrics_default"
  by (auto simp: count_room_def response_metrics_default_def MAX_BATCH_SIZE_def)

lemma d8_batch_of_one:
  assumes E: "ed25519_ok E" and H: "sha512_ok H" and c: "d8_inv E c" and n: "length n = 32"
    and clk: "ks_clock_source (d8_key_source c) = Mock midp"
  shows "\<exists>c1 c2 r. d8_add_request H (r08_new n) a c = Ok c1 \<and> d8_process_responses p E H sys secret c1 = Ok ([(a, frame_enc (resp08_enc r))], c2) \<and>
    d8_inv E (c2\<lparr>d8_merkle_tree := tree_clear (d8_merkle_tree c2), d8_requests := []\<rparr>) \<and> resp08_ok r \<and>
    validate_draft08 E H (Some (test_public_key E)) (frame_enc (request_enc (Draft08 (r08_new n)))) (resp08_canon r) (frame_enc (resp08_enc r)) = Ok midp"
proof -
  let ?pk = "test_public_key E" and ?m = response_metrics_default
  have q: "Draft08 (r08_new n) = request_new_draft08 n" "r08_nonce (r08_new n) = n"
    by (simp_all add: request_new_draft08_def r08_new_def)
  note i = c [unfolded d8_inv_def]
  obtain t where t: "push_leaf H n (d8_merkle_tree c) = (Ok t :: (backend_error, _) outcome)" "tree_ok t" "tree_leaves t = [hash_leaf H n]"
    using push_leaf_ok [of "d8_merkle_tree c" H n, where 'e = backend_error] i by auto
  let ?c1 = "c\<lparr>d8_merkle_tree := t, d8_requests := [(r08_new n, a)]\<rparr>"
  have c1: "d8_add_request H (r08_new n) a c = Ok ?c1" using t(1) i q(2) by (simp add: d8_add_request_def)
  obtain k ks where k: "ks_make_online_key08 E (memory_ops E) sys secret (d8_key_source c) = Ok (k, ks)"
    "key_ok E ?pk RfcDraft08 (Draft08Key k)" "ok08_clock k = Mock midp" "ks_inv (mb_ok E) (mb_pk E) ?pk RfcDraft08 ks"
    "cert_delegation (ok08_cert k) = dele_new (ed_public E secret) midp (dur_secs (ks_validity_length (d8_key_source c)))"
    using memory_seed.fresh_online_key_ok [OF E, of ?pk RfcDraft08 "d8_key_source c" sys midp secret] i clk
    by (auto simp: and_then_Ok_iff)
  let ?h = "d8_handler k ?m ?c1"
  have inv: "rh_inv E H ?pk [n] ?h" using i t k(2) n metrics_ok_init q
    by (simp add: rh_inv_def d8_handler_def request_new_nonc)
  let ?root = "merkle_root_spec H (map (hash_leaf H) [n])" and ?srep = "\<lambda>root. srep08_make DEFAULT_RADI_SECONDS midp root"
  obtain outs h common where p: "process_responses p E H sys ?h = Ok (outs, h)" "length outs = 1"
    "response08_at H ?root common 0 n \<lparr>pr_request = Draft08 (r08_new n), pr_src_addr = a\<rparr> (outs ! 0)"
    "resp08_cert common = ok08_cert k" "resp08_srep common = ?srep ?root"
    "resp08_signature common = ed_sign E (ok08_secret k) (srep_prefix RfcDraft08 @ srep08_enc (?srep ?root))"
    "rh_inv E H ?pk [] (response_handler_clear h)"
    using process_responses08 [OF E H inv, of k p sys midp] k(3) count_room_default [of 1 p]
    unfolding Let_def by (auto simp: d8_handler_def simp del: list.map)
  obtain r where r: "outs = [(a, frame_enc (resp08_enc r))]" "resp08_ok r" "resp08_signature r = resp08_signature common"
    "resp08_srep r = resp08_srep common" "resp08_cert r = resp08_cert common" "resp08_index r = 0" "root_from_paths H 0 n (resp08_path r) = ?root"
    using p(2,3) by (cases outs) (auto simp: response08_at_def)
  have "ks_make_online_key08 E (memory_ops E) sys secret (d8_key_source ?c1) = Ok (k, ks)" "length (d8_requests ?c1) \<le> 64" using k(1) by simp_all
  note eq = draft08_responses_eq [OF this(1) metrics_ok_init(1) this(2), of p H] count_room_default [of 1 p]
  obtain c2 where c2: "d8_process_responses p E H sys secret ?c1 = Ok (outs, c2)" "d8_merkle_tree c2 = rh_merkle_tree h"
    "d8_merkle_path c2 = rh_merkle_path h" "d8_response_buf c2 = rh_response_buf h"
    using eq p(1) by (auto simp: and_then_Ok_iff)
  note st = d8_process_static [OF c2(1), simplified, OF k(1)]
  have "tree_ok (rh_merkle_tree h)" using p(7) by (auto simp: rh_inv_def response_handler_clear_def tree_ok_def tree_clear_def)
  then have inv2: "d8_inv E (c2\<lparr>d8_merkle_tree := tree_clear (d8_merkle_tree c2), d8_requests := []\<rparr>)"
    using p(7) c2 st k(4) i by (simp add: d8_inv_def rh_inv_def response_handler_clear_def)
  have off: "FRAMED_NONCE_OFFSET + 32 \<le> length (frame_enc (request_enc (request_new_draft08 n)))"
    using request_frame_ok(1) [OF request_new_valid(1) [OF n]] by (simp add: FRAMED_NONCE_OFFSET_def REQUEST_SIZE_def)
  have "validate_draft08 E H (Some ?pk) (frame_enc (request_enc (request_new_draft08 n))) (resp08_canon r) (frame_enc (resp08_enc r)) = Ok midp"
    by (rule honest08_accepted [OF E r(2), where sk = "ok08_secret k" and radi = DEFAULT_RADI_SECONDS and root = ?root])
      (use r p k off framed_nonce [OF n] dele_new_times in \<open>simp_all add: ok08_ok_def DEFAULT_RADI_SECONDS_def\<close>)
  with c1 c2(1) r(1,2) inv2 q(1) show ?thesis by auto
qed

text \<open>The online key is made at the time of the exchange, so that every exchange is accepted.\<close>

lemma d8_pair_made:
  assumes E: "ed25519_ok E" and H: "sha512_ok H" and c: "d8_inv E c" and n: "length n = 32"
  shows "\<exists>resp c'. d8_create_interaction_pair_with_nonce p E H sys secret sock_addr midp n c = Ok ((r08_new n, resp), c') \<and>
    d8_inv E c' \<and> resp08_valid resp \<and>
    validate_draft08 E H (Some (test_public_key E)) (frame_enc (request_enc (Draft08 (r08_new n)))) resp (frame_enc (resp08_enc resp)) = Ok midp"
proof -
  let ?c0 = "c\<lparr>d8_clock := Mock midp, d8_key_source := (d8_key_source c)\<lparr>ks_clock_source := Mock midp\<rparr>\<rparr>"
  have "d8_inv E ?c0" "ks_clock_source (d8_key_source ?c0) = Mock midp" using c by (simp_all add: d8_inv_def ks_inv_def)
  then obtain c1 c2 r where "d8_add_request H (r08_new n) sock_addr ?c0 = Ok c1"
    "d8_process_responses p E H sys secret c1 = Ok ([(sock_addr, frame_enc (resp08_enc r))], c2)"
    "d8_inv E (c2\<lparr>d8_merkle_tree := tree_clear (d8_merkle_tree c2), d8_requests := []\<rparr>)" and r: "resp08_ok r"
    "validate_draft08 E H (Some (test_public_key E)) (frame_enc (request_enc (Draft08 (r08_new n)))) (resp08_canon r) (frame_enc (resp08_enc r)) = Ok midp"
    using d8_batch_of_one [OF E H _ n, of ?c0 midp sock_addr p sys secret] by blast
  moreover have "parse (from_frame (resp08_from_wire p)) (frame_enc (resp08_enc r)) = Ok (resp08_canon r)"
    "resp08_enc (resp08_canon r) = resp08_enc r" "resp08_valid (resp08_canon r)" using parse_frame08 [OF r(1)] resp08_canon_valid r(1) by auto
  moreover obtain t where "d8_clock c = Mock t" using c by (auto simp: d8_inv_def)
  ultimately show ?thesis by (auto simp: d8_create_interaction_pair_with_nonce_def Let_def)
qed

section \<open>The exchanges are genuine\<close>

text \<open>The exchanges of the tests are genuine: whatever a draft-14 context was used for before, with keys rotated at any
  time, it makes an exchange for every nonce and every time, without a panic. The response carries that time
  as its midpoint and the validator accepts it, with that time, exactly when the time lies in the
  delegation of the current online key: tests may ask for an expired response by moving the clock alone.\<close>

lemma test_pairs_genuine:
  assumes "ed25519_ok E" "sha512_ok H" "tc_reach E H c" "length n = 32"
  shows "\<exists>resp bs c'. create_interaction_pair_with_nonce_and_bytes Release E H sys sock_addr midp n c
      = Ok ((request_new_draft14 n, resp, bs), c') \<and> srep_midpoint (resp_srep resp) = midp \<and>
    (\<forall>t. validate_draft14 E H (Some (test_public_key E)) (frame_enc (request_enc (request_new_draft14 n))) resp bs = Ok t \<longleftrightarrow>
       t = midp \<and> dele_min_time (tc_delegation c) \<le> midp \<and> midp \<le> dele_max_time (tc_delegation c))"
  using pair_made [OF assms(1,2) tc_reach_inv [OF assms(1-3)] assms(4)] by blast

end
