(* ===== verification/Library_Tests.thy ===== *)
theory Library_Tests
  imports Test_Context Transport
begin

text \<open>
  The tests of the integration crate (\<^verbatim>\<open>integration/src/lib.rs\<close>) that run server and client code against each
  other in one process. A test is a value: \<open>Ok ()\<close> when it passes, \<open>Panic\<close> when an assertion fails. The address
  \<^verbatim>\<open>127.0.0.1:\<close>\<open>port\<close> is its port; \<open>secret\<close> is the secret of the online key that the context makes. Printed text is left out.
  Shown: the tests that accept pass for every signature scheme and hash function with the documented laws, and each test
  that rejects passes exactly when the scheme has no forgery, or the hash no collision, at one stated place.
\<close>

section \<open>Helpers of the draft-14 tests\<close>

datatype boxed_error = BoxedWire error | BoxedValidation validation_error

definition ROUGHTIM :: bytes where
  "ROUGHTIM = [0x52, 0x4F, 0x55, 0x47, 0x48, 0x54, 0x49, 0x4D]"

definition validate_response_draft14 ::
  "profile \<Rightarrow> ed25519 \<Rightarrow> hash_fn \<Rightarrow> bytes \<Rightarrow> bytes \<Rightarrow> public_key \<Rightarrow> (boxed_error, unit) outcome" where
  "validate_response_draft14 p E H request_bytes response_bytes pub_key =
     and_then (assert_that (take 8 response_bytes = ROUGHTIM)) (\<lambda>_.
     and_then (slice_of response_bytes 12 (length response_bytes)) (\<lambda>buf.
     and_then (map_err BoxedWire (parse (resp_from_wire p) buf)) (\<lambda>response.
     and_then (validator_new_with_key pub_key) (\<lambda>validator.
     and_then (map_err BoxedValidation (validate_draft14 E H validator request_bytes response response_bytes)) (\<lambda>_.
     Ok ())))))"

definition create_test_request_draft14 :: "u8 \<Rightarrow> request" where
  "create_test_request_draft14 nonce_byte = request_new_draft14 (replicate 32 nonce_byte)"

text \<open>\<open>assert!(result.is_err())\<close>.\<close>

fun assert_err :: "('e, 'a) outcome \<Rightarrow> ('f, unit) outcome" where
  "assert_err (Err e) = Ok ()"
| "assert_err (Ok x) = Panic"
| "assert_err Panic = Panic"

text \<open>The loop that makes a request from a byte for each address and adds it; the result also holds \<open>request_data\<close>.\<close>

fun add_each14 ::
  "profile \<Rightarrow> hash_fn \<Rightarrow> (u8 \<times> nat) list \<Rightarrow> (memory_backend, nat) response_handler \<Rightarrow>
     (backend_error, (bytes \<times> nat) list \<times> (memory_backend, nat) response_handler) outcome" where
  "add_each14 p H [] h = Ok ([], h)"
| "add_each14 p H ((b, addr) # qs) h =
     (let req = create_test_request_draft14 b in
      and_then (expect (as_bytes request_wire_size request_to_wire req)) (\<lambda>request_bytes.
      and_then (add_request p H request_bytes req addr h) (\<lambda>h'.
      and_then (add_each14 p H qs h') (\<lambda>(request_data, h'').
      Ok ((request_bytes, addr) # request_data, h'')))))"

text \<open>What every draft-14 test begins with: a context, the requests, the responses.\<close>

definition exchange14 ::
  "profile \<Rightarrow> ed25519 \<Rightarrow> hash_fn \<Rightarrow> u64 option \<Rightarrow> bytes \<Rightarrow> u8 \<Rightarrow> (u8 \<times> nat) list \<Rightarrow>
     (backend_error, (bytes \<times> nat) list \<times> (nat \<times> bytes) list \<times> nat test_context) outcome" where
  "exchange14 p E H sys secret batch_size qs =
     and_then (test_context_new E sys secret batch_size) (\<lambda>c.
     and_then (add_each14 p H qs (tc_response_handler c)) (\<lambda>(request_data, h).
     and_then (process_responses p E H sys h) (\<lambda>(responses, h').
     Ok (request_data, responses, c\<lparr>tc_response_handler := h', tc_key_source := rh_key_source h'\<rparr>))))"

text \<open>Parsing the response again without its frame, and framing a changed one.\<close>

definition reparse :: "profile \<Rightarrow> bytes \<Rightarrow> (backend_error, response) outcome" where
  "reparse p response_bytes =
     and_then (slice_of response_bytes 12 (length response_bytes)) (\<lambda>buf. expect (parse (resp_from_wire p) buf))"

definition reframe :: "response \<Rightarrow> (backend_error, bytes) outcome" where
  "reframe r =
     and_then (expect (resp_to_wire r (cursor_new (replicate (resp_wire_size r) 0)))) (\<lambda>(_, cursor).
     let tampered_buf = cur_data cursor in
     Ok (ROUGHTIM @ u32_to_le_bytes (of_nat (length tampered_buf)) @ tampered_buf))"

section \<open>Draft-14 tests that accept\<close>

definition single_request_validation :: "profile \<Rightarrow> ed25519 \<Rightarrow> hash_fn \<Rightarrow> u64 option \<Rightarrow> bytes \<Rightarrow> (backend_error, unit) outcome" where
  "single_request_validation p E H sys secret =
     and_then (exchange14 p E H sys secret 64 [(42, 8080)]) (\<lambda>(request_data, responses, c).
     and_then (assert_that (length responses = 1)) (\<lambda>_.
     and_then (index_at responses 0) (\<lambda>(response_addr, response_bytes).
     and_then (assert_that (response_addr = 8080)) (\<lambda>_.
     and_then (ks_public_key (memory_ops E) (tc_key_source c)) (\<lambda>pub_key.
     and_then (index_at request_data 0) (\<lambda>(request_bytes, _).
     expect (validate_response_draft14 p E H request_bytes response_bytes pub_key)))))))"

text \<open>The loop over the responses. A response that is rejected ends in a panic, whatever is printed before.\<close>

fun check_each14 ::
  "profile \<Rightarrow> ed25519 \<Rightarrow> hash_fn \<Rightarrow> nat test_context \<Rightarrow> (bytes \<times> nat) list \<Rightarrow> nat \<Rightarrow> (nat \<times> bytes) list \<Rightarrow>
     (backend_error, unit) outcome" where
  "check_each14 p E H c request_data idx [] = Ok ()"
| "check_each14 p E H c request_data idx ((response_addr, response_bytes) # rest) =
     and_then (assert_that (response_addr = 8000 + idx)) (\<lambda>_.
     and_then (index_at request_data idx) (\<lambda>(request_bytes, _).
     and_then (ks_public_key (memory_ops E) (tc_key_source c)) (\<lambda>public_key.
     and_then (expect (validate_response_draft14 p E H request_bytes response_bytes public_key)) (\<lambda>_.
     check_each14 p E H c request_data (Suc idx) rest))))"

definition large_batch :: "(u8 \<times> nat) list" where
  "large_batch = map (\<lambda>i. (of_nat (i * 37), 8000 + i)) [0..<64]"

definition large_batch_validation :: "profile \<Rightarrow> ed25519 \<Rightarrow> hash_fn \<Rightarrow> u64 option \<Rightarrow> bytes \<Rightarrow> (backend_error, unit) outcome" where
  "large_batch_validation p E H sys secret =
     and_then (exchange14 p E H sys secret 64 large_batch) (\<lambda>(request_data, responses, c).
     and_then (assert_that (length responses = 64)) (\<lambda>_.
     check_each14 p E H c request_data 0 responses))"

section \<open>Draft-14 tests that reject\<close>

definition wrong_public_key_is_rejected :: "profile \<Rightarrow> ed25519 \<Rightarrow> hash_fn \<Rightarrow> u64 option \<Rightarrow> bytes \<Rightarrow> (backend_error, unit) outcome" where
  "wrong_public_key_is_rejected p E H sys secret =
     and_then (exchange14 p E H sys secret 64 [(42, 8080)]) (\<lambda>(request_data, responses, c).
     and_then (index_at responses 0) (\<lambda>(_, response_bytes).
     and_then (index_at request_data 0) (\<lambda>(request_bytes, _).
     assert_err (validate_response_draft14 p E H request_bytes response_bytes (replicate 32 0)))))"

definition response_for_wrong_nonce_is_rejected :: "profile \<Rightarrow> ed25519 \<Rightarrow> hash_fn \<Rightarrow> u64 option \<Rightarrow> bytes \<Rightarrow> (backend_error, unit) outcome" where
  "response_for_wrong_nonce_is_rejected p E H sys secret =
     and_then (exchange14 p E H sys secret 64 [(42, 8080)]) (\<lambda>(request_data, responses, c).
     and_then (index_at responses 0) (\<lambda>(_, response_bytes).
     and_then (ks_public_key (memory_ops E) (tc_key_source c)) (\<lambda>pub_key.
     and_then (expect (as_bytes request_wire_size request_to_wire (create_test_request_draft14 99))) (\<lambda>different_request_bytes.
     assert_err (validate_response_draft14 p E H different_request_bytes response_bytes pub_key)))))"

text \<open>What the tests with a changed response share: the first response is changed and validated again.\<close>

definition tampered_is_rejected ::
  "(response \<Rightarrow> (backend_error, response) outcome) \<Rightarrow> profile \<Rightarrow> ed25519 \<Rightarrow> hash_fn \<Rightarrow> u64 option \<Rightarrow> bytes \<Rightarrow>
     (backend_error, unit) outcome" where
  "tampered_is_rejected change p E H sys secret =
     and_then (exchange14 p E H sys secret 64 [(42, 8080)]) (\<lambda>(request_data, responses, c).
     and_then (index_at responses 0) (\<lambda>(_, response_bytes).
     and_then (ks_public_key (memory_ops E) (tc_key_source c)) (\<lambda>pub_key.
     and_then (reparse p response_bytes) (\<lambda>response.
     and_then (change response) (\<lambda>response'.
     and_then (reframe response') (\<lambda>framed.
     and_then (index_at request_data 0) (\<lambda>(request_bytes, _).
     assert_err (validate_response_draft14 p E H request_bytes framed pub_key))))))))"

definition tampered_srep_is_rejected :: "profile \<Rightarrow> ed25519 \<Rightarrow> hash_fn \<Rightarrow> u64 option \<Rightarrow> bytes \<Rightarrow> (backend_error, unit) outcome" where
  "tampered_srep_is_rejected p =
     tampered_is_rejected (\<lambda>r. and_then (add_word p (srep_midpoint (resp_srep r)) 1000) (\<lambda>m.
       Ok (resp_set_srep (srep_set_midp m (resp_srep r)) r))) p"

definition tampered_dele_is_rejected :: "profile \<Rightarrow> ed25519 \<Rightarrow> hash_fn \<Rightarrow> u64 option \<Rightarrow> bytes \<Rightarrow> (backend_error, unit) outcome" where
  "tampered_dele_is_rejected p =
     tampered_is_rejected (\<lambda>r. let cert = resp_cert r; dele = cert_delegation cert in
       and_then (add_word p (dele_min_time dele) 1000) (\<lambda>t.
       Ok (resp_set_cert (cert_set_dele (dele_set_mint t dele) cert) r))) p"

definition expired_cert_is_rejected :: "profile \<Rightarrow> ed25519 \<Rightarrow> hash_fn \<Rightarrow> u64 option \<Rightarrow> bytes \<Rightarrow> (backend_error, unit) outcome" where
  "expired_cert_is_rejected p =
     tampered_is_rejected (\<lambda>r. let cert = resp_cert r; dele = cert_delegation cert in
       and_then (sub_word p (srep_midpoint (resp_srep r)) 1000) (\<lambda>t.
       Ok (resp_set_cert (cert_set_dele (dele_set_maxt t dele) cert) r))) p"

text \<open>Here the request is made anew from the byte of the first one.\<close>

definition corrupted_merkle_index_is_rejected :: "profile \<Rightarrow> ed25519 \<Rightarrow> hash_fn \<Rightarrow> u64 option \<Rightarrow> bytes \<Rightarrow> (backend_error, unit) outcome" where
  "corrupted_merkle_index_is_rejected p E H sys secret =
     and_then (exchange14 p E H sys secret 64 [(0, 8080), (1, 8081), (2, 8082), (3, 8083)]) (\<lambda>(request_data, responses, c).
     and_then (index_at responses 0) (\<lambda>(_, response_bytes).
     and_then (ks_public_key (memory_ops E) (tc_key_source c)) (\<lambda>pub_key.
     and_then (reparse p response_bytes) (\<lambda>response.
     and_then (reframe (resp_set_indx 1 response)) (\<lambda>framed.
     and_then (expect (as_bytes request_wire_size request_to_wire (create_test_request_draft14 0))) (\<lambda>request_bytes.
     assert_err (validate_response_draft14 p E H request_bytes framed pub_key)))))))"

section \<open>Draft-08 tests\<close>

definition validate_response_draft08 ::
  "profile \<Rightarrow> ed25519 \<Rightarrow> hash_fn \<Rightarrow> bytes \<Rightarrow> bytes \<Rightarrow> public_key \<Rightarrow> (boxed_error, unit) outcome" where
  "validate_response_draft08 p E H request_bytes response_bytes pub_key =
     and_then (assert_that (take 8 response_bytes = ROUGHTIM)) (\<lambda>_.
     and_then (map_err BoxedWire (parse (from_frame (resp08_from_wire p)) response_bytes)) (\<lambda>response.
     and_then (validator_new_with_key pub_key) (\<lambda>validator.
     and_then (map_err BoxedValidation (validate_draft08 E H validator request_bytes response response_bytes)) (\<lambda>_.
     Ok ()))))"

definition create_test_request_draft08 :: "u8 \<Rightarrow> request_draft08" where
  "create_test_request_draft08 nonce_byte = r08_new (replicate 32 nonce_byte)"

fun add_each08 ::
  "hash_fn \<Rightarrow> (u8 \<times> nat) list \<Rightarrow> nat draft08_context \<Rightarrow> (backend_error, (bytes \<times> nat) list \<times> nat draft08_context) outcome" where
  "add_each08 H [] c = Ok ([], c)"
| "add_each08 H ((b, addr) # qs) c =
     (let req = create_test_request_draft08 b in
      and_then (expect (as_frame_bytes r08_wire_size r08_to_wire req)) (\<lambda>request_bytes.
      and_then (d8_add_request H req addr c) (\<lambda>c'.
      and_then (add_each08 H qs c') (\<lambda>(request_data, c'').
      Ok ((request_bytes, addr) # request_data, c'')))))"

definition exchange08 ::
  "profile \<Rightarrow> ed25519 \<Rightarrow> hash_fn \<Rightarrow> u64 option \<Rightarrow> bytes \<Rightarrow> u8 \<Rightarrow> (u8 \<times> nat) list \<Rightarrow>
     (backend_error, (bytes \<times> nat) list \<times> (nat \<times> bytes) list \<times> nat draft08_context) outcome" where
  "exchange08 p E H sys secret batch_size qs =
     and_then (d8_new E sys batch_size) (\<lambda>c.
     and_then (add_each08 H qs c) (\<lambda>(request_data, c').
     and_then (d8_process_responses p E H sys secret c') (\<lambda>(responses, c''). Ok (request_data, responses, c''))))"

definition draft08_single_request_validation :: "profile \<Rightarrow> ed25519 \<Rightarrow> hash_fn \<Rightarrow> u64 option \<Rightarrow> bytes \<Rightarrow> (backend_error, unit) outcome" where
  "draft08_single_request_validation p E H sys secret =
     and_then (exchange08 p E H sys secret 64 [(42, 8080)]) (\<lambda>(request_data, responses, c).
     and_then (assert_that (length responses = 1)) (\<lambda>_.
     and_then (index_at responses 0) (\<lambda>(response_addr, response_bytes).
     and_then (assert_that (response_addr = 8080)) (\<lambda>_.
     and_then (ks_public_key (memory_ops E) (d8_key_source c)) (\<lambda>pub_key.
     and_then (index_at request_data 0) (\<lambda>(request_bytes, _).
     expect (validate_response_draft08 p E H request_bytes response_bytes pub_key)))))))"

fun check_each08 ::
  "profile \<Rightarrow> ed25519 \<Rightarrow> hash_fn \<Rightarrow> nat draft08_context \<Rightarrow> (bytes \<times> nat) list \<Rightarrow> nat \<Rightarrow> (nat \<times> bytes) list \<Rightarrow>
     (backend_error, unit) outcome" where
  "check_each08 p E H c request_data idx [] = Ok ()"
| "check_each08 p E H c request_data idx ((response_addr, response_bytes) # rest) =
     and_then (assert_that (response_addr = 8000 + idx)) (\<lambda>_.
     and_then (index_at request_data idx) (\<lambda>(request_bytes, _).
     and_then (ks_public_key (memory_ops E) (d8_key_source c)) (\<lambda>public_key.
     and_then (expect (validate_response_draft08 p E H request_bytes response_bytes public_key)) (\<lambda>_.
     check_each08 p E H c request_data (Suc idx) rest))))"

definition draft08_large_batch_validation :: "profile \<Rightarrow> ed25519 \<Rightarrow> hash_fn \<Rightarrow> u64 option \<Rightarrow> bytes \<Rightarrow> (backend_error, unit) outcome" where
  "draft08_large_batch_validation p E H sys secret =
     and_then (exchange08 p E H sys secret 64 large_batch) (\<lambda>(request_data, responses, c).
     and_then (assert_that (length responses = 64)) (\<lambda>_.
     check_each08 p E H c request_data 0 responses))"

definition draft08_response_wire_roundtrip :: "profile \<Rightarrow> ed25519 \<Rightarrow> hash_fn \<Rightarrow> u64 option \<Rightarrow> bytes \<Rightarrow> nat \<Rightarrow> (backend_error, unit) outcome" where
  "draft08_response_wire_roundtrip p E H sys secret sock_addr =
     and_then (d8_new E sys 1) (\<lambda>c.
     and_then (d8_create_interaction_pair_with_nonce p E H sys secret sock_addr 1234567890 (replicate 32 0x42) c) (\<lambda>((_, response), _).
     and_then (expect (resp08_to_wire response (cursor_new (replicate (resp08_wire_size response) 0)))) (\<lambda>(_, cursor).
     and_then (expect (parse (resp08_from_wire p) (cur_data cursor))) (\<lambda>response2.
     and_then (assert_that (resp08_index response = resp08_index response2)) (\<lambda>_.
     and_then (assert_that (srep08_midpoint (resp08_srep response) = srep08_midpoint (resp08_srep response2))) (\<lambda>_.
     and_then (assert_that (srep08_radius (resp08_srep response) = srep08_radius (resp08_srep response2))) (\<lambda>_.
     assert_that (srep08_merkle_root (resp08_srep response) = srep08_merkle_root (resp08_srep response2)))))))))"

definition draft08_wrong_public_key_is_rejected :: "profile \<Rightarrow> ed25519 \<Rightarrow> hash_fn \<Rightarrow> u64 option \<Rightarrow> bytes \<Rightarrow> (backend_error, unit) outcome" where
  "draft08_wrong_public_key_is_rejected p E H sys secret =
     and_then (exchange08 p E H sys secret 64 [(42, 8080)]) (\<lambda>(request_data, responses, c).
     and_then (index_at responses 0) (\<lambda>(_, response_bytes).
     and_then (index_at request_data 0) (\<lambda>(request_bytes, _).
     assert_err (validate_response_draft08 p E H request_bytes response_bytes (replicate 32 0)))))"

definition draft08_response_for_wrong_nonce_is_rejected :: "profile \<Rightarrow> ed25519 \<Rightarrow> hash_fn \<Rightarrow> u64 option \<Rightarrow> bytes \<Rightarrow> (backend_error, unit) outcome" where
  "draft08_response_for_wrong_nonce_is_rejected p E H sys secret =
     and_then (exchange08 p E H sys secret 64 [(42, 8080)]) (\<lambda>(request_data, responses, c).
     and_then (index_at responses 0) (\<lambda>(_, response_bytes).
     and_then (ks_public_key (memory_ops E) (d8_key_source c)) (\<lambda>pub_key.
     and_then (expect (as_frame_bytes r08_wire_size r08_to_wire (create_test_request_draft08 99))) (\<lambda>different_request_bytes.
     assert_err (validate_response_draft08 p E H different_request_bytes response_bytes pub_key)))))"

section \<open>Tests with the wrong version\<close>

definition draft14_client_rejects_draft08_response :: "profile \<Rightarrow> ed25519 \<Rightarrow> hash_fn \<Rightarrow> u64 option \<Rightarrow> bytes \<Rightarrow> (backend_error, unit) outcome" where
  "draft14_client_rejects_draft08_response p E H sys secret =
     and_then (exchange08 p E H sys secret 64 [(42, 8080)]) (\<lambda>(request_data, responses, c).
     and_then (index_at responses 0) (\<lambda>(_, response_bytes).
     and_then (ks_public_key (memory_ops E) (d8_key_source c)) (\<lambda>pub_key.
     and_then (expect (as_bytes request_wire_size request_to_wire (create_test_request_draft14 42))) (\<lambda>request_bytes_draft14.
     assert_err (validate_response_draft14 p E H request_bytes_draft14 response_bytes pub_key)))))"

definition draft08_client_rejects_draft14_response :: "profile \<Rightarrow> ed25519 \<Rightarrow> hash_fn \<Rightarrow> u64 option \<Rightarrow> bytes \<Rightarrow> (backend_error, unit) outcome" where
  "draft08_client_rejects_draft14_response p E H sys secret =
     and_then (exchange14 p E H sys secret 64 [(42, 8080)]) (\<lambda>(request_data, responses, c).
     and_then (index_at responses 0) (\<lambda>(_, response_bytes).
     and_then (ks_public_key (memory_ops E) (tc_key_source c)) (\<lambda>pub_key.
     and_then (expect (as_frame_bytes r08_wire_size r08_to_wire (create_test_request_draft08 42))) (\<lambda>request_bytes_draft08.
     assert_err (validate_response_draft08 p E H request_bytes_draft08 response_bytes pub_key)))))"

section \<open>The test of the timeout\<close>

text \<open>\<open>elapsed\<close> is the time measured around the query, in whole milliseconds.\<close>

definition client_times_out_when_server_unavailable ::
  "profile \<Rightarrow> ed25519 \<Rightarrow> hash_fn \<Rightarrow> bool \<Rightarrow> (duration \<Rightarrow> nat socket) \<Rightarrow> bytes \<Rightarrow> nat \<Rightarrow> (client_error, unit) outcome" where
  "client_times_out_when_server_unavailable p E H trace sock rand elapsed =
     and_then (builder_build trace (\<lambda>_. True) sock H (builder_timeout \<lparr>dur_secs = 1, dur_nanos = 0\<rparr> (builder_new 19999))) (\<lambda>(client, transport).
     and_then (assert_err (query p E H rand transport client)) (\<lambda>_.
     and_then (assert_that (elapsed \<ge> 900)) (\<lambda>_. assert_that (elapsed < 3000))))"

section \<open>Lemmas\<close>

lemma ROUGHTIM_magic: "u64_to_be_bytes FRAME_MAGIC = ROUGHTIM"
  by code_simp

lemma take_frame: "take 8 (frame_enc bs) = ROUGHTIM" "12 \<le> length (frame_enc bs)" "drop 12 (frame_enc bs) = bs"
  by (simp_all add: frame_enc_def ROUGHTIM_magic [symmetric])

lemma reframe_enc: "resp_ok r \<Longrightarrow> reframe r = Ok (frame_enc (resp_enc r))"
  using resp_writer.as_bytes_enc [of r]
  by (auto simp: reframe_def as_bytes_def and_then_Ok_iff Let_def frame_enc_def ROUGHTIM_magic)

lemma parse_enc14: "resp_ok r \<Longrightarrow> parse (resp_from_wire p) (resp_enc r) = Ok (resp_canon r)"
  using resp_message.wire_round_trip [of "resp_canon r" p] resp_canon_valid [of r] by auto

lemma reparse_frame: "resp_ok r \<Longrightarrow> reparse p (frame_enc (resp_enc r)) = Ok (resp_canon r)"
  by (simp add: reparse_def slice_of_def take_frame parse_enc14 FRAME_OVERHEAD_def)

lemma validate_response14_frame:
  assumes "resp_ok r" "length pk = 32"
  shows "validate_response_draft14 p E H req (frame_enc (resp_enc r)) pk =
    and_then (map_err BoxedValidation (validate_draft14 E H (Some pk) req (resp_canon r) (frame_enc (resp_enc r)))) (\<lambda>_. Ok ())"
  using assms
  by (simp add: validate_response_draft14_def slice_of_def take_frame parse_enc14 validator_new_with_key_def copy_array_def
      FRAME_OVERHEAD_def)

text \<open>The leaf of a test request, and the response to the request at position \<open>i\<close> of a batch.\<close>

definition test_leaf :: "u8 \<Rightarrow> bytes" where
  "test_leaf b = request_enc (create_test_request_draft14 b)"

definition honest14 :: "ed25519 \<Rightarrow> hash_fn \<Rightarrow> u64 \<Rightarrow> bytes \<Rightarrow> bytes list \<Rightarrow> nat \<Rightarrow> response \<Rightarrow> bool" where
  "honest14 E H now secret leaves i r \<longleftrightarrow>
     (let root = merkle_root_spec H (map (hash_leaf H) leaves) in
      resp_ok r \<and> resp_index r = of_nat i \<and> length root = 32 \<and>
      resp_srep r = srep_make RfcDraft14 DEFAULT_RADI_SECONDS now [RfcDraft14] root \<and>
      cert_delegation (resp_cert r) = dele_new (ed_public E secret) now 8000000 \<and>
      root_from_paths H i (leaves ! i) (resp_path r) = root \<and>
      (\<exists>sk. cert_delegates E RfcDraft14 (test_public_key E) (resp_cert r) (ed_public E sk) \<and>
         resp_signature r = ed_sign E sk (srep_prefix RfcDraft14 @ srep_enc (resp_srep r))))"

lemma test_request14: "as_bytes request_wire_size request_to_wire (create_test_request_draft14 b) = Ok (test_leaf b)"
  unfolding test_leaf_def by (rule request_message.as_bytes_enc) (simp add: create_test_request_draft14_def request_new_valid)

lemma add_each14_ok:
  "rh_inv E H pk leaves h \<Longrightarrow> length (rh_requests h) + length qs \<le> rh_batch_size h \<Longrightarrow> rh_protocol_version h = RfcDraft14 \<Longrightarrow>
   \<exists>h'. add_each14 p H qs h = Ok (map (\<lambda>(b, a). (test_leaf b, a)) qs, h') \<and>
     rh_inv E H pk (leaves @ map (test_leaf \<circ> fst) qs) h' \<and> rh_static h' = rh_static h \<and>
     rh_online_key h' = rh_online_key h \<and> rh_metrics h' = rh_metrics h \<and> rh_protocol_version h' = RfcDraft14 \<and>
     rh_requests h' = rh_requests h @ map (\<lambda>(b, a). \<lparr>pr_request = create_test_request_draft14 b, pr_src_addr = a\<rparr>) qs"
proof (induction qs arbitrary: h leaves)
  case (Cons q qs)
  obtain b a where q: "q = (b, a)" by (cases q)
  let ?r = "create_test_request_draft14 b"
  have v: "request_valid ?r" "length (request_nonc ?r) = 32"
    by (simp_all add: create_test_request_draft14_def request_new_valid request_new_nonc)
  obtain h1 where h1: "add_request p H (test_leaf b) ?r a h = Ok h1" "rh_inv E H pk (leaves @ [test_leaf b]) h1"
    "rh_requests h1 = rh_requests h @ [\<lparr>pr_request = ?r, pr_src_addr = a\<rparr>]"
    "rh_online_key h1 = rh_online_key h" "rh_metrics h1 = rh_metrics h" "rh_protocol_version h1 = RfcDraft14" "rh_batch_size h1 = rh_batch_size h"
    using add_request_ok [OF Cons.prems(1) _ v(2), of p "test_leaf b" a] Cons.prems by auto
  have "length (rh_requests h1) + length qs \<le> rh_batch_size h1" using h1(3,7) Cons.prems(2) by simp
  from Cons.IH [OF h1(2) this h1(6)] h1 add_request_static [OF h1(1)] request_message.as_bytes_enc [OF v(1)]
  show ?case by (auto simp: q test_leaf_def)
qed simp

lemma test_context_made:
  assumes E: "ed25519_ok E" and b: "batch_size \<le> 64"
  shows "\<exists>c :: 'addr test_context. test_context_new E (Some now) secret batch_size = Ok c \<and>
    (let h = tc_response_handler c in
     rh_inv E H (test_public_key E) [] h \<and> rh_requests h = [] \<and> rh_batch_size h = unat batch_size \<and> rh_protocol_version h = RfcDraft14 \<and>
     ks_inv (mb_ok E) (mb_pk E) (test_public_key E) RfcDraft14 (rh_key_source h) \<and> key_clock (rh_online_key h) = Mock now \<and>
     rh_metrics h = response_metrics_default \<and>
     cert_delegation (key_cert (rh_online_key h)) = dele_new (ed_public E secret) now 8000000)"
proof -
  obtain seed where s: "mb_from_value E (replicate 32 42) = Ok seed" "mb_ok E seed" "mb_pk E seed = test_public_key E"
    using mb_from_value_ok [OF E, of "replicate 32 42"] by (auto simp: test_public_key_def)
  let ?ks = "\<lparr>ks_identity = \<lparr>id_seed = seed, id_version = RfcDraft14\<rparr>, ks_validity_length = \<lparr>dur_secs = 8000000, dur_nanos = 0\<rparr>, ks_clock_source = Mock now\<rparr>"
  have ks: "ks_inv (mb_ok E) (mb_pk E) (test_public_key E) RfcDraft14 ?ks" using s by (simp add: ks_inv_def)
  have "unat batch_size \<le> 64" using b by (simp add: word_le_nat_alt)
  from memory_seed.response_handler_new_ok [OF E ks this, of "Some now" now secret H]
  obtain h :: "(memory_backend, 'addr) response_handler" where
    "response_handler_new E (memory_ops E) (Some now) secret batch_size ?ks RfcDraft14 = Ok h" "rh_inv E H (test_public_key E) [] h"
    "ks_inv (mb_ok E) (mb_pk E) (test_public_key E) RfcDraft14 (rh_key_source h)" "key_clock (rh_online_key h) = Mock now"
    "rh_batch_size h = unat batch_size" "rh_protocol_version h = RfcDraft14" "rh_requests h = []" "rh_metrics h = response_metrics_default"
    "cert_delegation (key_cert (rh_online_key h)) = dele_new (ed_public E secret) now 8000000"
    by auto
  then show ?thesis using s memory_seed.backend_len [of E seed]
    by (simp add: test_context_new_def with_key_validity_def key_source_new_def identity_new_def system_seconds_def Let_def)
qed

lemma ks_inv_public_key:
  "ks_inv (mb_ok E) (mb_pk E) pk v ks \<Longrightarrow> ks_public_key (memory_ops E) ks = Ok pk"
  using memory_seed.backend_pk [of E] by (auto simp: ks_inv_def ks_public_key_def identity_public_key_def)

lemma exchange14_run:
  assumes E: "ed25519_ok E" and H: "sha512_ok H" and qs: "qs \<noteq> []" "length qs \<le> 64"
  shows "\<exists>rs c. exchange14 p E H (Some now) secret 64 qs
      = Ok (map (\<lambda>(b, a). (test_leaf b, a)) qs, map2 (\<lambda>q r. (snd q, frame_enc (resp_enc r))) qs rs, c) \<and>
    length rs = length qs \<and> ks_public_key (memory_ops E) (tc_key_source c) = Ok (test_public_key E) \<and>
    (\<forall>i<length qs. honest14 E H now secret (map (test_leaf \<circ> fst) qs) i (rs ! i))"
proof -
  let ?pk = "test_public_key E" and ?leaves = "map (test_leaf \<circ> fst) qs"
  let ?pending = "map (\<lambda>(b, a). \<lparr>pr_request = create_test_request_draft14 b, pr_src_addr = a\<rparr>) qs"
  let ?root = "merkle_root_spec H (map (hash_leaf H) ?leaves)"
  let ?srep = "srep_make RfcDraft14 DEFAULT_RADI_SECONDS now [RfcDraft14] ?root"
  obtain c :: "nat test_context" where c: "test_context_new E (Some now) secret 64 = Ok c"
    and h0: "rh_inv E H ?pk [] (tc_response_handler c)" "rh_requests (tc_response_handler c) = []" "rh_batch_size (tc_response_handler c) = 64"
      "rh_protocol_version (tc_response_handler c) = RfcDraft14"
      "ks_inv (mb_ok E) (mb_pk E) ?pk RfcDraft14 (rh_key_source (tc_response_handler c))"
      "key_clock (rh_online_key (tc_response_handler c)) = Mock now" "rh_metrics (tc_response_handler c) = response_metrics_default"
      "cert_delegation (key_cert (rh_online_key (tc_response_handler c))) = dele_new (ed_public E secret) now 8000000"
    using test_context_made [OF E, of 64 now secret H, where 'addr = nat] by (auto simp: Let_def)
  obtain h where h: "add_each14 p H qs (tc_response_handler c) = Ok (map (\<lambda>(b, a). (test_leaf b, a)) qs, h)"
    "rh_inv E H ?pk ?leaves h" "rh_static h = rh_static (tc_response_handler c)" "rh_online_key h = rh_online_key (tc_response_handler c)"
    "rh_metrics h = response_metrics_default" "rh_protocol_version h = RfcDraft14" "rh_requests h = ?pending"
    using add_each14_ok [OF h0(1), of qs p] h0(2,3,4,7) qs(2) by auto
  obtain k where k: "rh_online_key h = Draft14Key k" "ok14_ok E RfcDraft14 ?pk k"
    using h(2,6) by (cases "rh_online_key h") (auto simp: rh_inv_def)
  have kc: "ok14_clock k = Mock now" "cert_delegation (ok14_cert k) = dele_new (ed_public E secret) now 8000000"
    using h0(6,8) unfolding h(4) [symmetric] k(1) by simp_all
  have room: "count_room p (length ?pending) response_metrics_default"
    using qs(2) by (simp add: count_room_default)
  obtain outs h2 common where p: "process_responses p E H (Some now) h = Ok (outs, h2)" "length outs = length qs" "length ?root = 32"
    "\<forall>j<length qs. response14_at H ?root common j (?leaves ! j) (?pending ! j) (outs ! j)"
    "resp_cert common = ok14_cert k" "resp_srep common = ?srep"
    "resp_signature common = ed_sign E (ok14_secret k) (srep_prefix RfcDraft14 @ srep_enc ?srep)"
    using process_responses14 [OF E H h(2,6) k(1), of p "Some now" now] h(5,7) kc(1) qs room
    unfolding Let_def by (auto simp del: map_map)
  have "\<exists>r. outs ! j = (snd (qs ! j), frame_enc (resp_enc r)) \<and> honest14 E H now secret ?leaves j r" if j: "j < length qs" for j
  proof -
    obtain r where "outs ! j = (snd (qs ! j), frame_enc (resp_enc r))" "resp_ok r" "resp_signature r = resp_signature common"
      "resp_srep r = resp_srep common" "resp_cert r = resp_cert common" "resp_index r = of_nat j" "root_from_paths H j (?leaves ! j) (resp_path r) = ?root"
      using p(4) j by (auto simp: response14_at_def split_def simp del: map_map)
    moreover from this p(3,5-7) kc(2) k(2) have "honest14 E H now secret ?leaves j r"
      unfolding honest14_def Let_def by (simp add: ok14_ok_def del: map_map) blast
    ultimately show ?thesis by blast
  qed
  then obtain f where f: "\<forall>j<length qs. outs ! j = (snd (qs ! j), frame_enc (resp_enc (f j))) \<and> honest14 E H now secret ?leaves j (f j)"
    by metis
  have outs: "outs = map2 (\<lambda>q r. (snd q, frame_enc (resp_enc r))) qs (map f [0..<length qs])"
    using f p(2) by (intro nth_equalityI) simp_all
  have "ks_public_key (memory_ops E) (rh_key_source h2) = Ok ?pk"
    using process_responses_static [OF p(1)] h(3) h0(5) by (intro ks_inv_public_key) (simp add: rh_static_def)
  with c h(1) p(1) outs f show ?thesis
    by (intro exI [of _ "map f [0..<length qs]"] exI [of _ "c\<lparr>tc_response_handler := h2, tc_key_source := rh_key_source h2\<rparr>"])
      (simp add: exchange14_def)
qed

section \<open>The judgement of a framed response\<close>

text \<open>What the validator checks of a well-formed response that has been framed as it is.\<close>

definition accepts14 :: "ed25519 \<Rightarrow> hash_fn \<Rightarrow> public_key \<Rightarrow> bytes \<Rightarrow> response \<Rightarrow> bool" where
  "accepts14 E H pk req r \<longleftrightarrow>
     (let s = resp_srep r; c = resp_cert r; d = cert_delegation c in
      ed_verify E pk (dele_prefix (srep_version s) @ dele_enc d) (cert_signature c) \<and>
      srep_version s \<in> set (srep_supported_versions s) \<and>
      dele_min_time d \<le> srep_midpoint s \<and> srep_midpoint s \<le> dele_max_time d \<and> srep_radius s \<noteq> 0 \<and>
      root_from_paths H (unat (resp_index r)) req (resp_path r) = srep_merkle_root s \<and>
      ed_verify E (dele_public_key d) (srep_prefix (srep_version s) @ srep_enc s) (resp_signature r))"

lemma validate14_canon:
  assumes r: "resp_ok r"
  shows "(\<exists>t. validate_draft14 E H (Some pk) req (resp_canon r) (frame_enc (resp_enc r)) = Ok t) \<longleftrightarrow> accepts14 E H pk req r"
    "validate_draft14 E H (Some pk) req (resp_canon r) (frame_enc (resp_enc r)) \<noteq> Panic"
proof -
  have f: "resp_header (resp_canon r) = resp_header r" "resp_cert (resp_canon r) = resp_cert r"
    "resp_srep (resp_canon r) = resp_srep r" "resp_signature (resp_canon r) = resp_signature r"
    "resp_index (resp_canon r) = resp_index r" "signed_window14 (resp_canon r) = signed_window14 r"
    by (simp_all add: resp_canon_def signed_window14_def fun_eq_iff)
  have "paths (resp_path (resp_canon r)) = paths (resp_path r)"
    using r by (simp add: resp_canon_def resp_ok_def resp_fields_ok_def path_valid_canon)
  note mp = root_from_paths_cong [OF this, of H "unat (resp_index r)" req]
  have h: "header_accepted 7 (resp_header (resp_canon r))" "cert_valid (resp_cert (resp_canon r))"
    using resp_ok_header(1) [OF r] r by (simp_all add: f resp_ok_def resp_fields_ok_def)
  show "(\<exists>t. validate_draft14 E H (Some pk) req (resp_canon r) (frame_enc (resp_enc r)) = Ok t) \<longleftrightarrow> accepts14 E H pk req r"
    unfolding validate14_iff(1) [OF h] Let_def f mp resp_ok_window(1) [OF r] accepts14_def
    using resp_ok_window(2) [OF r] by simp
  show "validate_draft14 E H (Some pk) req (resp_canon r) (frame_enc (resp_enc r)) \<noteq> Panic"
    by (rule validate14_iff(2) [OF h])
qed

lemma judged14:
  assumes "resp_ok r" "length pk = 32"
  shows "expect (validate_response_draft14 p E H req (frame_enc (resp_enc r)) pk) = (Ok () :: ('e, unit) outcome) \<longleftrightarrow> accepts14 E H pk req r"
    "assert_err (validate_response_draft14 p E H req (frame_enc (resp_enc r)) pk) = (Ok () :: ('e, unit) outcome) \<longleftrightarrow> \<not> accepts14 E H pk req r"
  using validate14_canon [OF assms(1), of E H pk req]
  by (cases "validate_draft14 E H (Some pk) req (resp_canon r) (frame_enc (resp_enc r))";
      auto simp: validate_response14_frame [OF assms])+

lemma honest14_accepts:
  assumes E: "ed25519_ok E" and r: "honest14 E H now secret leaves i r" and i: "i < 64"
  shows "accepts14 E H (test_public_key E) (leaves ! i) r"
proof -
  obtain sk where "cert_delegates E RfcDraft14 (test_public_key E) (resp_cert r) (ed_public E sk)"
    "resp_signature r = ed_sign E sk (srep_prefix RfcDraft14 @ srep_enc (resp_srep r))"
    using r by (auto simp: honest14_def Let_def)
  moreover have "unat (of_nat i :: u32) = i" using i by (simp add: unat_of_nat)
  ultimately show ?thesis using r ed25519_lengths(3) [OF E] dele_new_times
    by (auto simp: accepts14_def honest14_def Let_def srep_make_def cert_delegates_def DEFAULT_RADI_SECONDS_def)
qed

lemma test_public_key_length: "ed25519_ok E \<Longrightarrow> length (test_public_key E) = 32"
  by (simp add: test_public_key_def ed25519_lengths)

section \<open>The draft-14 tests\<close>

lemma exchange14_one:
  assumes "ed25519_ok E" "sha512_ok H"
  obtains r c where "exchange14 p E H (Some now) secret 64 [(42, 8080)] = Ok ([(test_leaf 42, 8080)], [(8080, frame_enc (resp_enc r))], c)"
    "ks_public_key (memory_ops E) (tc_key_source c) = Ok (test_public_key E)" "honest14 E H now secret [test_leaf 42] 0 r" "resp_ok r"
proof -
  obtain r c where x: "exchange14 p E H (Some now) secret 64 [(42, 8080)] = Ok ([(test_leaf 42, 8080)], [(8080, frame_enc (resp_enc r))], c)"
    "ks_public_key (memory_ops E) (tc_key_source c) = Ok (test_public_key E)" "honest14 E H now secret [test_leaf 42] 0 r"
    using exchange14_run [OF assms, of "[(42, 8080)]" p now secret] by (auto simp: length_Suc_conv)
  moreover have "resp_ok r" using x(3) by (simp add: honest14_def Let_def)
  ultimately show thesis by (rule that)
qed

lemma single_passes:
  assumes "ed25519_ok E" "sha512_ok H"
  shows "single_request_validation p E H (Some now) secret = Ok ()"
proof -
  obtain r c where x: "exchange14 p E H (Some now) secret 64 [(42, 8080)] = Ok ([(test_leaf 42, 8080)], [(8080, frame_enc (resp_enc r))], c)"
    "ks_public_key (memory_ops E) (tc_key_source c) = Ok (test_public_key E)" "honest14 E H now secret [test_leaf 42] 0 r" "resp_ok r"
    by (rule exchange14_one [OF assms])
  have "resp_ok r" using x(3) by (simp add: honest14_def Let_def)
  from judged14(1) [OF this test_public_key_length [OF assms(1)]] honest14_accepts [OF assms(1) x(3)]
  show ?thesis using x(1,2) by (simp add: single_request_validation_def)
qed

lemma check_each14_ok:
  assumes "ks_public_key (memory_ops E) (tc_key_source c) = Ok (test_public_key E)"
    and "\<forall>i<length outs. \<exists>r req a. outs ! i = (8000 + (k + i), frame_enc (resp_enc r)) \<and> k + i < length request_data \<and>
      request_data ! (k + i) = (req, a) \<and> resp_ok r \<and> accepts14 E H (test_public_key E) req r"
    and "ed25519_ok E"
  shows "check_each14 p E H c request_data k outs = Ok ()"
  using assms(2)
proof (induction outs arbitrary: k)
  case (Cons out outs)
  obtain r req a where r: "out = (8000 + k, frame_enc (resp_enc r))" "k < length request_data" "request_data ! k = (req, a)"
    "resp_ok r" "accepts14 E H (test_public_key E) req r" using Cons.prems by fastforce
  have "\<forall>i<length outs. \<exists>r req a. outs ! i = (8000 + (Suc k + i), frame_enc (resp_enc r)) \<and> Suc k + i < length request_data \<and>
      request_data ! (Suc k + i) = (req, a) \<and> resp_ok r \<and> accepts14 E H (test_public_key E) req r"
    using Cons.prems by (metis Suc_less_eq add_Suc_shift length_Cons nth_Cons_Suc)
  note rest = Cons.IH [OF this]
  have "validate_response_draft14 p E H req (frame_enc (resp_enc r)) (test_public_key E) = Ok ()"
    using judged14(1) [OF r(4) test_public_key_length [OF assms(3)], of p E H req, where 'e = unit] r(5) by simp
  with rest r assms(1) show ?case by simp
qed simp

lemma large_batch_nth: "i < 64 \<Longrightarrow> large_batch ! i = (of_nat (i * 37), 8000 + i)" "length large_batch = 64" "large_batch \<noteq> []"
  by (simp_all add: large_batch_def)

lemma large_passes:
  assumes "ed25519_ok E" "sha512_ok H"
  shows "large_batch_validation p E H (Some now) secret = Ok ()"
proof -
  let ?data = "map (\<lambda>(b, a). (test_leaf b, a)) large_batch"
  obtain rs c where x: "exchange14 p E H (Some now) secret 64 large_batch
      = Ok (?data, map2 (\<lambda>q r. (snd q, frame_enc (resp_enc r))) large_batch rs, c)" "length rs = 64"
    "ks_public_key (memory_ops E) (tc_key_source c) = Ok (test_public_key E)"
    "\<forall>i<64. honest14 E H now secret (map (test_leaf \<circ> fst) large_batch) i (rs ! i)"
    using exchange14_run [OF assms large_batch_nth(3), of p now secret] large_batch_nth(2) by auto
  let ?outs = "map2 (\<lambda>q r. (snd q, frame_enc (resp_enc r))) large_batch rs"
  have "\<exists>r req a. ?outs ! i = (8000 + (0 + i), frame_enc (resp_enc r)) \<and> 0 + i < length ?data \<and>
      ?data ! (0 + i) = (req, a) \<and> resp_ok r \<and> accepts14 E H (test_public_key E) req r" if "i < length ?outs" for i
  proof -
    have i: "i < 64" using that x(2) large_batch_nth(2) by simp
    then have "honest14 E H now secret (map (test_leaf \<circ> fst) large_batch) i (rs ! i)" using x(4) by simp
    with honest14_accepts [OF assms(1) this i] i x(2) show ?thesis
      by (auto simp: large_batch_nth honest14_def Let_def)
  qed
  with check_each14_ok [OF x(3) _ assms(1), of ?outs 0 ?data H p] have "check_each14 p E H c ?data 0 ?outs = Ok ()" by blast
  with x(1,2) show ?thesis by (simp add: large_batch_validation_def large_batch_nth(2))
qed

text \<open>An all-zero key is refused unless it verifies the signature that the long-term key made.\<close>

lemma wrong_key_exact:
  assumes "ed25519_ok E" "sha512_ok H"
  shows "\<exists>r. honest14 E H now secret [test_leaf 42] 0 r \<and>
    (wrong_public_key_is_rejected p E H (Some now) secret = Ok () \<longleftrightarrow>
     \<not> ed_verify E (replicate 32 0) (dele_prefix RfcDraft14 @ dele_enc (cert_delegation (resp_cert r))) (cert_signature (resp_cert r)))"
proof -
  obtain r c where x: "exchange14 p E H (Some now) secret 64 [(42, 8080)] = Ok ([(test_leaf 42, 8080)], [(8080, frame_enc (resp_enc r))], c)"
    "ks_public_key (memory_ops E) (tc_key_source c) = Ok (test_public_key E)" "honest14 E H now secret [test_leaf 42] 0 r" "resp_ok r"
    by (rule exchange14_one [OF assms])
  have r: "resp_ok r" "srep_version (resp_srep r) = RfcDraft14" using x(3) by (simp_all add: honest14_def Let_def srep_make_def)
  have "accepts14 E H (replicate 32 0) (test_leaf 42) r \<longleftrightarrow>
      ed_verify E (replicate 32 0) (dele_prefix RfcDraft14 @ dele_enc (cert_delegation (resp_cert r))) (cert_signature (resp_cert r))"
    using honest14_accepts [OF assms(1) x(3)] r(2) by (auto simp: accepts14_def Let_def)
  with judged14(2) [OF r(1), of "replicate 32 0" p E H "test_leaf 42"] x show ?thesis
    by (intro exI [of _ r]) (simp add: wrong_public_key_is_rejected_def)
qed

text \<open>The response to one request is refused for another unless both lead to the same root.\<close>

lemma wrong_nonce_exact:
  assumes "ed25519_ok E" "sha512_ok H"
  shows "\<exists>r. honest14 E H now secret [test_leaf 42] 0 r \<and>
    (response_for_wrong_nonce_is_rejected p E H (Some now) secret = Ok () \<longleftrightarrow>
     root_from_paths H 0 (test_leaf 99) (resp_path r) \<noteq> root_from_paths H 0 (test_leaf 42) (resp_path r))"
proof -
  obtain r c where x: "exchange14 p E H (Some now) secret 64 [(42, 8080)] = Ok ([(test_leaf 42, 8080)], [(8080, frame_enc (resp_enc r))], c)"
    "ks_public_key (memory_ops E) (tc_key_source c) = Ok (test_public_key E)" "honest14 E H now secret [test_leaf 42] 0 r" "resp_ok r"
    by (rule exchange14_one [OF assms])
  have r: "resp_ok r" "resp_index r = 0" using x(3) by (simp_all add: honest14_def Let_def)
  have "accepts14 E H (test_public_key E) (test_leaf 99) r \<longleftrightarrow>
      root_from_paths H 0 (test_leaf 99) (resp_path r) = root_from_paths H 0 (test_leaf 42) (resp_path r)"
    using honest14_accepts [OF assms(1) x(3)] r(2) by (auto simp: accepts14_def Let_def)
  moreover note test_request14
  ultimately show ?thesis using judged14(2) [OF r(1) test_public_key_length [OF assms(1)], of p E H "test_leaf 99"] x
    by (intro exI [of _ r]) (simp add: response_for_wrong_nonce_is_rejected_def)
qed

subsection \<open>Changed responses\<close>

lemma honest14_canon: "honest14 E H now secret leaves i r \<Longrightarrow> honest14 E H now secret leaves i (resp_canon r)"
proof -
  assume r: "honest14 E H now secret leaves i r"
  then have ok: "resp_ok r" by (simp add: honest14_def Let_def)
  then have "resp_ok (resp_canon r)" using resp_canon_valid(1) by (simp add: resp_valid_def)
  moreover have "paths (resp_path (resp_canon r)) = paths (resp_path r)"
    using ok by (simp add: resp_canon_def resp_ok_def resp_fields_ok_def path_valid_canon)
  from root_from_paths_cong [OF this] have "root_from_paths H i (leaves ! i) (resp_path (resp_canon r)) = root_from_paths H i (leaves ! i) (resp_path r)" .
  ultimately show ?thesis using r by (auto simp: honest14_def Let_def resp_canon_def)
qed

lemma tampered_run:
  assumes "ed25519_ok E" "sha512_ok H"
  shows "\<exists>r. honest14 E H now secret [test_leaf 42] 0 r \<and>
    (\<forall>change r'. change r = Ok r' \<longrightarrow> resp_ok r' \<longrightarrow>
       (tampered_is_rejected change p E H (Some now) secret = Ok () \<longleftrightarrow> \<not> accepts14 E H (test_public_key E) (test_leaf 42) r'))"
proof -
  obtain r c where x: "exchange14 p E H (Some now) secret 64 [(42, 8080)] = Ok ([(test_leaf 42, 8080)], [(8080, frame_enc (resp_enc r))], c)"
    "ks_public_key (memory_ops E) (tc_key_source c) = Ok (test_public_key E)" "honest14 E H now secret [test_leaf 42] 0 r" "resp_ok r"
    by (rule exchange14_one [OF assms])
  have ok: "resp_ok r" using x(3) by (simp add: honest14_def Let_def)
  have "tampered_is_rejected change p E H (Some now) secret = Ok () \<longleftrightarrow> \<not> accepts14 E H (test_public_key E) (test_leaf 42) r'"
    if "change (resp_canon r) = Ok r'" "resp_ok r'" for change r'
    using x(1,2) that(1) reparse_frame [OF ok, of p] reframe_enc [OF that(2)]
      judged14(2) [OF that(2) test_public_key_length [OF assms(1)], of p E H "test_leaf 42"]
    by (simp add: tampered_is_rejected_def)
  with honest14_canon [OF x(3)] show ?thesis by blast
qed

lemma resp_ok_set_srep:
  assumes "resp_ok r" "srep_valid s"
  shows "resp_ok (resp_set_srep s r)" "resp_srep (resp_set_srep s r) = s" "resp_cert (resp_set_srep s r) = resp_cert r"
    "resp_signature (resp_set_srep s r) = resp_signature r" "resp_index (resp_set_srep s r) = resp_index r" "resp_path (resp_set_srep s r) = resp_path r"
proof -
  have "resp_frame_header_ok (r\<lparr>resp_srep := s\<rparr>)" using resp_ok_frame_header [OF assms(1)] by (simp add: resp_frame_header_ok_def)
  note u = update_offsets_header [OF this]
  show "resp_ok (resp_set_srep s r)" "resp_srep (resp_set_srep s r) = s" "resp_cert (resp_set_srep s r) = resp_cert r"
    "resp_signature (resp_set_srep s r) = resp_signature r" "resp_index (resp_set_srep s r) = resp_index r" "resp_path (resp_set_srep s r) = resp_path r"
    using assms unfolding resp_set_srep_def u by (simp_all add: resp_ok_def resp_fields_ok_def)
qed

lemma add_word_room:
  assumes "unat (x :: u64) + 1000 < 2 ^ 64"
  shows "add_word p x 1000 = (Ok (x + 1000) :: ('e, u64) outcome)" "x < x + 1000" "x + 1000 \<le> saturating_add x 8000000"
  using assms by (auto simp: add_word_def saturating_add_def word_less_nat_alt unat_word_ariths)
    (simp add: word_le_nat_alt unat_word_ariths)

text \<open>A changed time is refused unless the signature on the genuine time verifies for the changed one.\<close>

lemma tampered_srep_exact:
  assumes "ed25519_ok E" "sha512_ok H" "unat now + 1000 < 2 ^ 64"
  shows "\<exists>r. honest14 E H now secret [test_leaf 42] 0 r \<and>
    (tampered_srep_is_rejected p E H (Some now) secret = Ok () \<longleftrightarrow>
     \<not> ed_verify E (ed_public E secret) (srep_prefix RfcDraft14 @ srep_enc (srep_set_midp (now + 1000) (resp_srep r))) (resp_signature r))"
proof -
  obtain r where r: "honest14 E H now secret [test_leaf 42] 0 r"
    and t: "\<And>change r'. change r = Ok r' \<Longrightarrow> resp_ok r' \<Longrightarrow>
       (tampered_is_rejected change p E H (Some now) secret = Ok () \<longleftrightarrow> \<not> accepts14 E H (test_public_key E) (test_leaf 42) r')"
    using tampered_run [OF assms(1,2), of now secret p] by blast
  note room = add_word_room [OF assms(3)]
  define s where "s = srep_set_midp (now + 1000) (resp_srep r)"
  have f: "resp_ok r" "resp_srep r = srep_make RfcDraft14 DEFAULT_RADI_SECONDS now [RfcDraft14] (merkle_root_spec H [hash_leaf H (test_leaf 42)])"
    "length (merkle_root_spec H [hash_leaf H (test_leaf 42)]) = 32" "cert_delegation (resp_cert r) = dele_new (ed_public E secret) now 8000000"
    using r by (simp_all add: honest14_def Let_def)
  have "s = srep_make RfcDraft14 DEFAULT_RADI_SECONDS (now + 1000) [RfcDraft14] (merkle_root_spec H [hash_leaf H (test_leaf 42)])"
    using f(2) by (simp add: s_def srep_set_midp_def srep_make_def)
  then have s: "srep_valid s" "srep_version s = srep_version (resp_srep r)" "srep_supported_versions s = srep_supported_versions (resp_srep r)"
    "srep_radius s = srep_radius (resp_srep r)" "srep_merkle_root s = srep_merkle_root (resp_srep r)" "srep_midpoint s = now + 1000"
    "srep_version (resp_srep r) = RfcDraft14" "srep_midpoint (resp_srep r) = now"
    using f(2,3) srep_make_valid [OF version_list_single] by (auto simp: srep_make_def)
  note r' = resp_ok_set_srep [OF f(1) s(1)]
  have "accepts14 E H (test_public_key E) (test_leaf 42) (resp_set_srep s r) \<longleftrightarrow>
      ed_verify E (ed_public E secret) (srep_prefix RfcDraft14 @ srep_enc s) (resp_signature r)"
    using honest14_accepts [OF assms(1) r] room unfolding accepts14_def Let_def r' s f(4)
    by (auto simp: dele_new_def)
  moreover have "and_then (add_word p (srep_midpoint (resp_srep r)) 1000) (\<lambda>m. Ok (resp_set_srep (srep_set_midp m (resp_srep r)) r))
      = (Ok (resp_set_srep s r) :: (backend_error, _) outcome)"
    using add_word_room(1) [OF assms(3), where 'e = backend_error] s(8) by (simp add: s_def)
  from t [where change = "\<lambda>r. and_then (add_word p (srep_midpoint (resp_srep r)) 1000) (\<lambda>m. Ok (resp_set_srep (srep_set_midp m (resp_srep r)) r))", OF this r'(1)]
  have "tampered_srep_is_rejected p E H (Some now) secret = Ok () \<longleftrightarrow> \<not> accepts14 E H (test_public_key E) (test_leaf 42) (resp_set_srep s r)"
    by (simp add: tampered_srep_is_rejected_def)
  ultimately show ?thesis using r unfolding s_def by blast
qed

lemma sub_word_room:
  assumes "1000 \<le> (x :: u64)"
  shows "sub_word p x 1000 = (Ok (x - 1000) :: ('e, u64) outcome)" "x - 1000 < x"
  using assms by (auto simp: sub_word_def word_less_nat_alt word_le_nat_alt unat_sub split: profile.splits)

text \<open>A response whose delegation was changed so that it does not cover the midpoint is refused, whatever the signature.\<close>

lemma changed_dele_rejected:
  assumes "ed25519_ok E" "sha512_ok H"
    and c: "\<And>r. honest14 E H now secret [test_leaf 42] 0 r \<Longrightarrow>
      \<exists>d. change r = Ok (resp_set_cert (cert_set_dele d (resp_cert r)) r) \<and> cert_valid (cert_set_dele d (resp_cert r)) \<and>
         (now < dele_min_time d \<or> dele_max_time d < now)"
  shows "tampered_is_rejected change p E H (Some now) secret = Ok ()"
proof -
  obtain r where r: "honest14 E H now secret [test_leaf 42] 0 r"
    and t: "\<And>r'. change r = Ok r' \<Longrightarrow> resp_ok r' \<Longrightarrow>
       (tampered_is_rejected change p E H (Some now) secret = Ok () \<longleftrightarrow> \<not> accepts14 E H (test_public_key E) (test_leaf 42) r')"
    using tampered_run [OF assms(1,2), of now secret p] by blast
  obtain d where d: "change r = Ok (resp_set_cert (cert_set_dele d (resp_cert r)) r)" "cert_valid (cert_set_dele d (resp_cert r))"
    "now < dele_min_time d \<or> dele_max_time d < now" using c [OF r] by blast
  have f: "resp_ok r" "srep_midpoint (resp_srep r) = now" using r by (simp_all add: honest14_def Let_def srep_make_def)
  have "\<not> accepts14 E H (test_public_key E) (test_leaf 42) (resp_set_cert (cert_set_dele d (resp_cert r)) r)"
    using d(3) f(2) by (auto simp: accepts14_def Let_def resp_set_cert_def cert_set_dele_def)
  with t [OF d(1) resp_ok_setters(4) [OF f(1) d(2)]] show ?thesis by simp
qed

lemma honest14_dele:
  assumes "honest14 E H now secret leaves i r"
  shows "cert_valid (resp_cert r)" "cert_delegation (resp_cert r) = dele_new (ed_public E secret) now 8000000"
    "srep_midpoint (resp_srep r) = now"
  using assms by (auto simp: honest14_def Let_def srep_make_def resp_ok_def resp_fields_ok_def)

lemma tampered_dele_passes:
  assumes "ed25519_ok E" "sha512_ok H" "unat now + 1000 < 2 ^ 64"
  shows "tampered_dele_is_rejected p E H (Some now) secret = Ok ()"
  unfolding tampered_dele_is_rejected_def
proof (rule changed_dele_rejected [OF assms(1,2)], goal_cases)
  case (1 r)
  note h = honest14_dele [OF 1]
  have "cert_valid (cert_set_dele (dele_set_mint t (cert_delegation (resp_cert r))) (resp_cert r))" for t
    using h(1) by (simp add: cert_valid_def cert_set_dele_def dele_set_mint_def dele_valid_def)
  then show ?case using h add_word_room [OF assms(3)] dele_new_times(1)
    by (intro exI [of _ "dele_set_mint (now + 1000) (cert_delegation (resp_cert r))"])
      (simp add: Let_def dele_set_mint_def add_word_room(1) [OF assms(3), where 'e = backend_error])
qed

lemma expired_passes:
  assumes "ed25519_ok E" "sha512_ok H" "1000 \<le> now"
  shows "expired_cert_is_rejected p E H (Some now) secret = Ok ()"
  unfolding expired_cert_is_rejected_def
proof (rule changed_dele_rejected [OF assms(1,2)], goal_cases)
  case (1 r)
  note h = honest14_dele [OF 1]
  have "cert_valid (cert_set_dele (dele_set_maxt t (cert_delegation (resp_cert r))) (resp_cert r))" for t
    using h(1) by (simp add: cert_valid_def cert_set_dele_def dele_set_maxt_def dele_valid_def)
  then show ?case using h sub_word_room(2) [OF assms(3)]
    by (intro exI [of _ "dele_set_maxt (now - 1000) (cert_delegation (resp_cert r))"])
      (simp add: Let_def dele_set_maxt_def sub_word_room(1) [OF assms(3), where 'e = backend_error])
qed

text \<open>With the index of its neighbour the first response of four is refused unless the hash collides.\<close>

lemma corrupted_index_exact:
  assumes "ed25519_ok E" "sha512_ok H"
  shows "\<exists>r. honest14 E H now secret [test_leaf 0, test_leaf 1, test_leaf 2, test_leaf 3] 0 r \<and>
    (corrupted_merkle_index_is_rejected p E H (Some now) secret = Ok () \<longleftrightarrow>
     root_from_paths H 1 (test_leaf 0) (resp_path r) \<noteq> root_from_paths H 0 (test_leaf 0) (resp_path r))"
proof -
  let ?qs = "[(0, 8080), (1, 8081), (2, 8082), (3, 8083)] :: (u8 \<times> nat) list"
  obtain r rs c where x: "exchange14 p E H (Some now) secret 64 ?qs = Ok (map (\<lambda>(b, a). (test_leaf b, a)) ?qs,
      (8080, frame_enc (resp_enc r)) # rs, c)"
    "ks_public_key (memory_ops E) (tc_key_source c) = Ok (test_public_key E)"
    and h: "honest14 E H now secret [test_leaf 0, test_leaf 1, test_leaf 2, test_leaf 3] 0 r"
    using exchange14_run [OF assms, of ?qs p now secret] by (auto simp: length_Suc_conv)
  let ?r = "resp_canon r" and ?r' = "resp_set_indx 1 (resp_canon r)"
  note c = honest14_canon [OF h]
  have ok: "resp_ok r" "resp_ok ?r" using h c by (simp_all add: honest14_def Let_def)
  have "accepts14 E H (test_public_key E) (test_leaf 0) ?r' \<longleftrightarrow>
      root_from_paths H 1 (test_leaf 0) (resp_path ?r) = root_from_paths H 0 (test_leaf 0) (resp_path ?r)"
    using honest14_accepts [OF assms(1) c] c by (auto simp: accepts14_def Let_def resp_set_indx_def honest14_def)
  moreover note test_request14
  ultimately show ?thesis using x c reparse_frame [OF ok(1), of p] reframe_enc [OF resp_ok_setters(3) [OF ok(2)], of 1]
      judged14(2) [OF resp_ok_setters(3) [OF ok(2), of 1] test_public_key_length [OF assms(1)], of p E H "test_leaf 0"]
    by (intro exI [of _ ?r]) (simp add: corrupted_merkle_index_is_rejected_def)
qed

section \<open>Responses of the other version\<close>

lemma header_count:
  assumes "header_from_wire N (cursor_at pre (u32_to_le_bytes m @ rest)) = Ok (h, c')"
  shows "m = of_nat N"
proof -
  have "wf_cursor (cursor_at pre (u32_to_le_bytes m @ rest))" by (auto simp: wf_cursor_at)
  from hdr_exact.exact [OF this assms] obtain pre' suf where v: "header_accepted N h"
    and c: "cursor_at pre (u32_to_le_bytes m @ rest) = cursor_at pre' (header_enc h @ suf)" by (auto simp: consumes_def)
  from c have "pre @ u32_to_le_bytes m @ rest = pre' @ header_enc h @ suf" "length pre = length pre'" by (auto simp: cursor_at_def)
  then have "u32_to_le_bytes m @ rest = header_enc h @ suf" by simp
  then have "u32_to_le_bytes m = u32_to_le_bytes (of_nat N)" using v by (auto simp: header_enc_def header_accepted_def)
  then show ?thesis by simp
qed

lemma resp_first_word:
  "resp_ok r \<Longrightarrow> \<exists>rest. resp_enc r = u32_to_le_bytes 7 @ rest" "resp08_ok q \<Longrightarrow> \<exists>rest. resp08_enc q = u32_to_le_bytes 6 @ rest"
  by (auto simp: resp_ok_def resp08_ok_def resp_enc_def resp08_enc_def header_enc_of resp_tags_def resp08_tags_def)

lemma other_version_refused:
  assumes "resp_ok r" "resp08_ok q"
  shows "\<exists>e. parse (resp_from_wire p) (resp08_enc q) = Err e"
    "\<exists>e. parse (from_frame (resp08_from_wire p)) (frame_enc (resp_enc r)) = Err e"
proof -
  have "parse (resp_from_wire p) (resp08_enc q) \<noteq> Ok x" for x
    using resp_first_word(2) [OF assms(2)] header_count [of 7 "[]" 6]
    by (auto simp: parse_Ok_iff cursor_new_at resp_from_wire_def bind_def and_then_Ok_iff)
  moreover have "parse (resp_from_wire p) (resp08_enc q) \<noteq> Panic" by (intro parse_no_panic safe_intro)
  ultimately show "\<exists>e. parse (resp_from_wire p) (resp08_enc q) = Err e" by (cases "parse (resp_from_wire p) (resp08_enc q)") auto
  have "parse (from_frame (resp08_from_wire p)) (frame_enc (resp_enc r)) \<noteq> Ok x" for x
  proof
    assume "parse (from_frame (resp08_from_wire p)) (frame_enc (resp_enc r)) = Ok x"
    then obtain c' where "from_frame (resp08_from_wire p) (cursor_new (frame_enc (resp_enc r))) = Ok (x, c')" by (auto simp: parse_Ok_iff)
    from from_frame_Ok [OF wf_cursor_new this] obtain len c1 where
      c1: "consumes (cursor_new (frame_enc (resp_enc r))) (u64_to_be_bytes FRAME_MAGIC @ u32_to_le_bytes len) c1" "resp08_from_wire p c1 = Ok (x, c')" by blast
    then have "\<exists>pre. c1 = cursor_at pre (resp_enc r)"
      by (auto simp: consumes_def cursor_new_at cursor_at_def frame_enc_def)
    then obtain pre rest where "c1 = cursor_at pre (u32_to_le_bytes 7 @ rest)" using resp_first_word(1) [OF assms(1)] by metis
    with c1(2) header_count [of 6 pre 7 rest] show False by (auto simp: resp08_from_wire_def bind_def and_then_Ok_iff)
  qed
  moreover have "parse (from_frame (resp08_from_wire p)) (frame_enc (resp_enc r)) \<noteq> Panic" by (intro parse_no_panic safe_intro)
  ultimately show "\<exists>e. parse (from_frame (resp08_from_wire p)) (frame_enc (resp_enc r)) = Err e"
    by (cases "parse (from_frame (resp08_from_wire p)) (frame_enc (resp_enc r))") auto
qed

section \<open>The draft-08 tests\<close>

definition test_nonce :: "u8 \<Rightarrow> bytes" where
  "test_nonce b = replicate 32 b"

definition test_frame08 :: "u8 \<Rightarrow> bytes" where
  "test_frame08 b = frame_enc (request_enc (Draft08 (create_test_request_draft08 b)))"

definition honest08 :: "ed25519 \<Rightarrow> hash_fn \<Rightarrow> u64 \<Rightarrow> bytes \<Rightarrow> bytes list \<Rightarrow> nat \<Rightarrow> response_draft08 \<Rightarrow> bool" where
  "honest08 E H now secret leaves i r \<longleftrightarrow>
     (let root = merkle_root_spec H (map (hash_leaf H) leaves) in
      resp08_ok r \<and> resp08_index r = of_nat i \<and>
      resp08_srep r = srep08_make DEFAULT_RADI_SECONDS now root \<and>
      cert_delegation (resp08_cert r) = dele_new (ed_public E secret) now 8000000 \<and>
      root_from_paths H i (leaves ! i) (resp08_path r) = root \<and>
      (\<exists>sk. cert_delegates E RfcDraft08 (test_public_key E) (resp08_cert r) (ed_public E sk) \<and>
         resp08_signature r = ed_sign E sk (srep_prefix RfcDraft08 @ srep08_enc (resp08_srep r))))"

lemma test_request08:
  "request_valid (Draft08 (create_test_request_draft08 b))" "r08_nonce (create_test_request_draft08 b) = test_nonce b"
  "as_frame_bytes r08_wire_size r08_to_wire (create_test_request_draft08 b) = Ok (test_frame08 b)"
  "FRAMED_NONCE_OFFSET + 32 \<le> length (test_frame08 b)" "take 32 (drop FRAMED_NONCE_OFFSET (test_frame08 b)) = test_nonce b"
proof -
  have q: "Draft08 (create_test_request_draft08 b) = request_new_draft08 (test_nonce b)" and l: "length (test_nonce b) = 32"
    by (simp_all add: create_test_request_draft08_def request_new_draft08_def test_nonce_def)
  show v: "request_valid (Draft08 (create_test_request_draft08 b))" unfolding q using l by (rule request_new_valid)
  show "r08_nonce (create_test_request_draft08 b) = test_nonce b" by (simp add: create_test_request_draft08_def r08_new_def test_nonce_def)
  show "as_frame_bytes r08_wire_size r08_to_wire (create_test_request_draft08 b) = Ok (test_frame08 b)"
    using request_message.as_frame_bytes_enc [OF v] by (simp add: as_frame_bytes_def frame_size_def to_frame_def test_frame08_def)
  show "FRAMED_NONCE_OFFSET + 32 \<le> length (test_frame08 b)"
    using request_frame_ok(1) [OF v] by (simp add: test_frame08_def FRAMED_NONCE_OFFSET_def REQUEST_SIZE_def)
  show "take 32 (drop FRAMED_NONCE_OFFSET (test_frame08 b)) = test_nonce b" using framed_nonce [OF l] by (simp add: test_frame08_def q)
qed

lemma add_each08_ok:
  "tree_ok (d8_merkle_tree c) \<Longrightarrow> tree_leaves (d8_merkle_tree c) = map (hash_leaf H) leaves \<Longrightarrow>
   \<exists>t. add_each08 H qs c = Ok (map (\<lambda>(b, a). (test_frame08 b, a)) qs,
       c\<lparr>d8_merkle_tree := t, d8_requests := d8_requests c @ map (\<lambda>(b, a). (create_test_request_draft08 b, a)) qs\<rparr>) \<and>
     tree_ok t \<and> tree_leaves t = map (hash_leaf H) (leaves @ map (test_nonce \<circ> fst) qs)"
proof (induction qs arbitrary: c leaves)
  case Nil
  then show ?case by (intro exI [of _ "d8_merkle_tree c"]) simp
next
  case (Cons q qs)
  obtain b a where q: "q = (b, a)" by (cases q)
  obtain t where t: "push_leaf H (test_nonce b) (d8_merkle_tree c) = (Ok t :: (backend_error, _) outcome)" "tree_ok t"
    "tree_leaves t = map (hash_leaf H) (leaves @ [test_nonce b])"
    using push_leaf_ok [OF Cons.prems(1), of H "test_nonce b", where 'e = backend_error] Cons.prems(2) by auto
  let ?c = "c\<lparr>d8_merkle_tree := t, d8_requests := d8_requests c @ [(create_test_request_draft08 b, a)]\<rparr>"
  obtain t' where "add_each08 H qs ?c = Ok (map (\<lambda>(b, a). (test_frame08 b, a)) qs,
       ?c\<lparr>d8_merkle_tree := t', d8_requests := d8_requests ?c @ map (\<lambda>(b, a). (create_test_request_draft08 b, a)) qs\<rparr>)"
    "tree_ok t'" "tree_leaves t' = map (hash_leaf H) ((leaves @ [test_nonce b]) @ map (test_nonce \<circ> fst) qs)"
    using Cons.IH [of ?c "leaves @ [test_nonce b]"] t(2,3) by auto
  then show ?case using t(1)
    by (intro exI [of _ t']) (simp add: q d8_add_request_def test_request08)
qed

lemma exchange08_run:
  assumes E: "ed25519_ok E" and H: "sha512_ok H" and qs: "qs \<noteq> []" "length qs \<le> 64"
  shows "\<exists>rs c. exchange08 p E H (Some now) secret 64 qs
      = Ok (map (\<lambda>(b, a). (test_frame08 b, a)) qs, map2 (\<lambda>q r. (snd q, frame_enc (resp08_enc r))) qs rs, c) \<and>
    length rs = length qs \<and> ks_public_key (memory_ops E) (d8_key_source c) = Ok (test_public_key E) \<and>
    (\<forall>i<length qs. honest08 E H now secret (map (test_nonce \<circ> fst) qs) i (rs ! i))"
proof -
  let ?pk = "test_public_key E" and ?leaves = "map (test_nonce \<circ> fst) qs" and ?m = response_metrics_default
  let ?reqs = "map (\<lambda>(b, a). (create_test_request_draft08 b, a)) qs"
  let ?root = "merkle_root_spec H (map (hash_leaf H) ?leaves)" and ?srep = "\<lambda>root. srep08_make DEFAULT_RADI_SECONDS now root"
  obtain c :: "nat draft08_context" where c: "d8_new E (Some now) 64 = Ok c" and i: "d8_inv E c"
    using d8_new_inv [OF E, of 64 "Some now" now] by auto
  have kv: "ks_clock_source (d8_key_source c) = Mock now" "dur_secs (ks_validity_length (d8_key_source c)) = 8000000"
    using c by (auto simp: d8_new_def and_then_Ok_iff Let_def key_source_new_def system_seconds_def)
  note i = i [unfolded d8_inv_def]
  obtain t where t: "add_each08 H qs c = Ok (map (\<lambda>(b, a). (test_frame08 b, a)) qs, c\<lparr>d8_merkle_tree := t, d8_requests := ?reqs\<rparr>)"
    "tree_ok t" "tree_leaves t = map (hash_leaf H) ?leaves"
    using add_each08_ok [of c H "[]" qs] i by auto
  let ?c = "c\<lparr>d8_merkle_tree := t, d8_requests := ?reqs\<rparr>"
  obtain k ks where k: "ks_make_online_key08 E (memory_ops E) (Some now) secret (d8_key_source c) = Ok (k, ks)"
    "key_ok E ?pk RfcDraft08 (Draft08Key k)" "ok08_clock k = Mock now" "ks_inv (mb_ok E) (mb_pk E) ?pk RfcDraft08 ks"
    "cert_delegation (ok08_cert k) = dele_new (ed_public E secret) now 8000000"
    using memory_seed.fresh_online_key_ok [OF E, of ?pk RfcDraft08 "d8_key_source c" "Some now" now secret] i kv
    by (auto simp: and_then_Ok_iff)
  let ?h = "d8_handler k ?m ?c"
  have inv: "rh_inv E H ?pk ?leaves ?h" using i t(2,3) k(2) metrics_ok_init
    by (auto simp: rh_inv_def d8_handler_def test_request08(2) test_nonce_def)
  have len: "length (map d8_pending ?reqs) \<le> 64" using qs(2) by simp
  obtain outs h common where p: "process_responses p E H (Some now) ?h = Ok (outs, h)" "length outs = length qs"
    "\<forall>j<length qs. response08_at H ?root common j (?leaves ! j) (map d8_pending ?reqs ! j) (outs ! j)"
    "resp08_cert common = ok08_cert k" "resp08_srep common = ?srep ?root"
    "resp08_signature common = ed_sign E (ok08_secret k) (srep_prefix RfcDraft08 @ srep08_enc (?srep ?root))"
    using process_responses08 [OF E H inv, of k p "Some now" now] k(3) qs len count_room_default [OF len, of p]
    unfolding Let_def by (auto simp: d8_handler_def simp del: list.map map_map)
  obtain c2 where c2: "d8_process_responses p E H (Some now) secret ?c = Ok (outs, c2)"
    using draft08_responses_eq [of E "Some now" secret ?c k ks ?m p H] k(1) qs(2) p(1) metrics_ok_init(1) count_room_default [OF len, of p]
    by (auto simp: and_then_Ok_iff)
  have pk: "ks_public_key (memory_ops E) (d8_key_source c2) = Ok ?pk"
    using d8_process_static(3) [OF c2] qs(1) k(1,4) by (auto intro!: ks_inv_public_key)
  have "\<exists>r. outs ! j = (snd (qs ! j), frame_enc (resp08_enc r)) \<and> honest08 E H now secret ?leaves j r" if j: "j < length qs" for j
  proof -
    obtain r where "outs ! j = (snd (qs ! j), frame_enc (resp08_enc r))" "resp08_ok r" "resp08_signature r = resp08_signature common"
      "resp08_srep r = resp08_srep common" "resp08_cert r = resp08_cert common" "resp08_index r = of_nat j" "root_from_paths H j (?leaves ! j) (resp08_path r) = ?root"
      using p(3) j by (auto simp: response08_at_def split_def)
    moreover from this p(4-6) k(2,5) have "honest08 E H now secret ?leaves j r"
      unfolding honest08_def Let_def by (simp add: ok08_ok_def del: map_map) blast
    ultimately show ?thesis by blast
  qed
  then obtain f where f: "\<forall>j<length qs. outs ! j = (snd (qs ! j), frame_enc (resp08_enc (f j))) \<and> honest08 E H now secret ?leaves j (f j)"
    by metis
  have outs: "outs = map2 (\<lambda>q r. (snd q, frame_enc (resp08_enc r))) qs (map f [0..<length qs])"
    using f p(2) by (intro nth_equalityI) simp_all
  with c t(1) c2 pk f show ?thesis
    by (intro exI [of _ "map f [0..<length qs]"] exI [of _ c2]) (simp add: exchange08_def)
qed

definition accepts08 :: "ed25519 \<Rightarrow> hash_fn \<Rightarrow> public_key \<Rightarrow> bytes \<Rightarrow> response_draft08 \<Rightarrow> bool" where
  "accepts08 E H pk nonc r \<longleftrightarrow>
     (let s = resp08_srep r; c = resp08_cert r; d = cert_delegation c in
      ed_verify E pk (dele_prefix RfcDraft08 @ dele_enc d) (cert_signature c) \<and>
      dele_min_time d \<le> srep08_midpoint s \<and> srep08_midpoint s \<le> dele_max_time d \<and> srep08_radius s \<noteq> 0 \<and>
      root_from_paths H (unat (resp08_index r)) nonc (resp08_path r) = srep08_merkle_root s \<and>
      ed_verify E (dele_public_key d) (srep_prefix RfcDraft08 @ srep08_enc s) (resp08_signature r))"

lemma validate08_canon:
  assumes r: "resp08_ok r"
  shows "(\<exists>t. validate_draft08 E H (Some pk) (test_frame08 b) (resp08_canon r) (frame_enc (resp08_enc r)) = Ok t) \<longleftrightarrow> accepts08 E H pk (test_nonce b) r"
    "validate_draft08 E H (Some pk) (test_frame08 b) (resp08_canon r) (frame_enc (resp08_enc r)) \<noteq> Panic"
proof -
  have f: "resp08_header (resp08_canon r) = resp08_header r" "resp08_cert (resp08_canon r) = resp08_cert r"
    "resp08_srep (resp08_canon r) = resp08_srep r" "resp08_signature (resp08_canon r) = resp08_signature r"
    "resp08_index (resp08_canon r) = resp08_index r" "signed_window08 (resp08_canon r) = signed_window08 r"
    by (simp_all add: resp08_canon_def signed_window08_def fun_eq_iff)
  have "paths (resp08_path (resp08_canon r)) = paths (resp08_path r)"
    using r by (simp add: resp08_canon_def resp08_ok_def resp08_fields_ok_def path_valid_canon)
  note mp = root_from_paths_cong [OF this, of H "unat (resp08_index r)" "test_nonce b"]
  have h: "header_accepted 6 (resp08_header (resp08_canon r))" "cert_valid (resp08_cert (resp08_canon r))"
    using resp08_ok_header(1) [OF r] r by (simp_all add: f resp08_ok_def resp08_fields_ok_def)
  show "(\<exists>t. validate_draft08 E H (Some pk) (test_frame08 b) (resp08_canon r) (frame_enc (resp08_enc r)) = Ok t) \<longleftrightarrow> accepts08 E H pk (test_nonce b) r"
    unfolding validate08_iff(1) [OF h] Let_def f test_request08(5) mp resp08_ok_window(1) [OF r] accepts08_def
    using resp08_ok_window(2) [OF r] test_request08(4) [of b] by simp
  show "validate_draft08 E H (Some pk) (test_frame08 b) (resp08_canon r) (frame_enc (resp08_enc r)) \<noteq> Panic"
    by (rule validate08_iff(2) [OF h])
qed

lemma validate_response08_frame:
  assumes "resp08_ok r" "length pk = 32"
  shows "validate_response_draft08 p E H req (frame_enc (resp08_enc r)) pk =
    and_then (map_err BoxedValidation (validate_draft08 E H (Some pk) req (resp08_canon r) (frame_enc (resp08_enc r)))) (\<lambda>_. Ok ())"
  using assms by (simp add: validate_response_draft08_def take_frame parse_frame08 validator_new_with_key_def copy_array_def)

lemma judged08:
  assumes "resp08_ok r" "length pk = 32"
  shows "expect (validate_response_draft08 p E H (test_frame08 b) (frame_enc (resp08_enc r)) pk) = (Ok () :: ('e, unit) outcome) \<longleftrightarrow> accepts08 E H pk (test_nonce b) r"
    "assert_err (validate_response_draft08 p E H (test_frame08 b) (frame_enc (resp08_enc r)) pk) = (Ok () :: ('e, unit) outcome) \<longleftrightarrow> \<not> accepts08 E H pk (test_nonce b) r"
  using validate08_canon [OF assms(1), of E H pk b]
  by (cases "validate_draft08 E H (Some pk) (test_frame08 b) (resp08_canon r) (frame_enc (resp08_enc r))";
      auto simp: validate_response08_frame [OF assms])+

lemma honest08_accepts:
  assumes E: "ed25519_ok E" and r: "honest08 E H now secret leaves i r" and i: "i < 64"
  shows "accepts08 E H (test_public_key E) (leaves ! i) r"
proof -
  obtain sk where "cert_delegates E RfcDraft08 (test_public_key E) (resp08_cert r) (ed_public E sk)"
    "resp08_signature r = ed_sign E sk (srep_prefix RfcDraft08 @ srep08_enc (resp08_srep r))"
    using r by (auto simp: honest08_def Let_def)
  moreover have "unat (of_nat i :: u32) = i" using i by (simp add: unat_of_nat)
  ultimately show ?thesis using r ed25519_lengths(3) [OF E] dele_new_times
    by (auto simp: accepts08_def honest08_def Let_def srep08_make_def cert_delegates_def DEFAULT_RADI_SECONDS_def)
qed

lemma exchange08_one:
  assumes "ed25519_ok E" "sha512_ok H"
  obtains r c where "exchange08 p E H (Some now) secret 64 [(42, 8080)] = Ok ([(test_frame08 42, 8080)], [(8080, frame_enc (resp08_enc r))], c)"
    "ks_public_key (memory_ops E) (d8_key_source c) = Ok (test_public_key E)" "honest08 E H now secret [test_nonce 42] 0 r" "resp08_ok r"
proof -
  obtain r c where x: "exchange08 p E H (Some now) secret 64 [(42, 8080)] = Ok ([(test_frame08 42, 8080)], [(8080, frame_enc (resp08_enc r))], c)"
    "ks_public_key (memory_ops E) (d8_key_source c) = Ok (test_public_key E)" "honest08 E H now secret [test_nonce 42] 0 r"
    using exchange08_run [OF assms, of "[(42, 8080)]" p now secret] by (auto simp: length_Suc_conv)
  moreover have "resp08_ok r" using x(3) by (simp add: honest08_def Let_def)
  ultimately show thesis by (rule that)
qed

lemma single08_passes:
  assumes "ed25519_ok E" "sha512_ok H"
  shows "draft08_single_request_validation p E H (Some now) secret = Ok ()"
proof -
  obtain r c where x: "exchange08 p E H (Some now) secret 64 [(42, 8080)] = Ok ([(test_frame08 42, 8080)], [(8080, frame_enc (resp08_enc r))], c)"
    "ks_public_key (memory_ops E) (d8_key_source c) = Ok (test_public_key E)" "honest08 E H now secret [test_nonce 42] 0 r" "resp08_ok r"
    by (rule exchange08_one [OF assms])
  from judged08(1) [OF x(4) test_public_key_length [OF assms(1)]] honest08_accepts [OF assms(1) x(3)]
  show ?thesis using x(1,2) by (simp add: draft08_single_request_validation_def)
qed

lemma wrong_key08_exact:
  assumes "ed25519_ok E" "sha512_ok H"
  shows "\<exists>r. honest08 E H now secret [test_nonce 42] 0 r \<and>
    (draft08_wrong_public_key_is_rejected p E H (Some now) secret = Ok () \<longleftrightarrow>
     \<not> ed_verify E (replicate 32 0) (dele_prefix RfcDraft08 @ dele_enc (cert_delegation (resp08_cert r))) (cert_signature (resp08_cert r)))"
proof -
  obtain r c where x: "exchange08 p E H (Some now) secret 64 [(42, 8080)] = Ok ([(test_frame08 42, 8080)], [(8080, frame_enc (resp08_enc r))], c)"
    "ks_public_key (memory_ops E) (d8_key_source c) = Ok (test_public_key E)" "honest08 E H now secret [test_nonce 42] 0 r" "resp08_ok r"
    by (rule exchange08_one [OF assms])
  have "accepts08 E H (replicate 32 0) (test_nonce 42) r \<longleftrightarrow>
      ed_verify E (replicate 32 0) (dele_prefix RfcDraft08 @ dele_enc (cert_delegation (resp08_cert r))) (cert_signature (resp08_cert r))"
    using honest08_accepts [OF assms(1) x(3)] by (auto simp: accepts08_def Let_def)
  with judged08(2) [OF x(4), of "replicate 32 0" p E H 42] x show ?thesis
    by (intro exI [of _ r]) (simp add: draft08_wrong_public_key_is_rejected_def)
qed

lemma wrong_nonce08_exact:
  assumes "ed25519_ok E" "sha512_ok H"
  shows "\<exists>r. honest08 E H now secret [test_nonce 42] 0 r \<and>
    (draft08_response_for_wrong_nonce_is_rejected p E H (Some now) secret = Ok () \<longleftrightarrow>
     root_from_paths H 0 (test_nonce 99) (resp08_path r) \<noteq> root_from_paths H 0 (test_nonce 42) (resp08_path r))"
proof -
  obtain r c where x: "exchange08 p E H (Some now) secret 64 [(42, 8080)] = Ok ([(test_frame08 42, 8080)], [(8080, frame_enc (resp08_enc r))], c)"
    "ks_public_key (memory_ops E) (d8_key_source c) = Ok (test_public_key E)" "honest08 E H now secret [test_nonce 42] 0 r" "resp08_ok r"
    by (rule exchange08_one [OF assms])
  have "resp08_index r = 0" using x(3) by (simp add: honest08_def Let_def)
  then have "accepts08 E H (test_public_key E) (test_nonce 99) r \<longleftrightarrow>
      root_from_paths H 0 (test_nonce 99) (resp08_path r) = root_from_paths H 0 (test_nonce 42) (resp08_path r)"
    using honest08_accepts [OF assms(1) x(3)] by (auto simp: accepts08_def Let_def)
  with judged08(2) [OF x(4) test_public_key_length [OF assms(1)], of p E H 99] x show ?thesis
    by (intro exI [of _ r]) (simp add: draft08_response_for_wrong_nonce_is_rejected_def test_request08)
qed

lemma check_each08_ok:
  assumes "ks_public_key (memory_ops E) (d8_key_source c) = Ok (test_public_key E)"
    and "\<forall>i<length outs. \<exists>r b a. outs ! i = (8000 + (k + i), frame_enc (resp08_enc r)) \<and> k + i < length request_data \<and>
      request_data ! (k + i) = (test_frame08 b, a) \<and> resp08_ok r \<and> accepts08 E H (test_public_key E) (test_nonce b) r"
    and "ed25519_ok E"
  shows "check_each08 p E H c request_data k outs = Ok ()"
  using assms(2)
proof (induction outs arbitrary: k)
  case (Cons out outs)
  obtain r b a where r: "out = (8000 + k, frame_enc (resp08_enc r))" "k < length request_data" "request_data ! k = (test_frame08 b, a)"
    "resp08_ok r" "accepts08 E H (test_public_key E) (test_nonce b) r" using Cons.prems by fastforce
  have "\<forall>i<length outs. \<exists>r b a. outs ! i = (8000 + (Suc k + i), frame_enc (resp08_enc r)) \<and> Suc k + i < length request_data \<and>
      request_data ! (Suc k + i) = (test_frame08 b, a) \<and> resp08_ok r \<and> accepts08 E H (test_public_key E) (test_nonce b) r"
    using Cons.prems by (metis Suc_less_eq add_Suc_shift length_Cons nth_Cons_Suc)
  note rest = Cons.IH [OF this]
  have "validate_response_draft08 p E H (test_frame08 b) (frame_enc (resp08_enc r)) (test_public_key E) = Ok ()"
    using judged08(1) [OF r(4) test_public_key_length [OF assms(3)], of p E H b, where 'e = unit] r(5) by simp
  with rest r assms(1) show ?case by simp
qed simp

lemma large08_passes:
  assumes "ed25519_ok E" "sha512_ok H"
  shows "draft08_large_batch_validation p E H (Some now) secret = Ok ()"
proof -
  let ?data = "map (\<lambda>(b, a). (test_frame08 b, a)) large_batch"
  obtain rs c where x: "exchange08 p E H (Some now) secret 64 large_batch
      = Ok (?data, map2 (\<lambda>q r. (snd q, frame_enc (resp08_enc r))) large_batch rs, c)" "length rs = 64"
    "ks_public_key (memory_ops E) (d8_key_source c) = Ok (test_public_key E)"
    "\<forall>i<64. honest08 E H now secret (map (test_nonce \<circ> fst) large_batch) i (rs ! i)"
    using exchange08_run [OF assms large_batch_nth(3), of p now secret] large_batch_nth(2) by auto
  let ?outs = "map2 (\<lambda>q r. (snd q, frame_enc (resp08_enc r))) large_batch rs"
  have "\<exists>r b a. ?outs ! i = (8000 + (0 + i), frame_enc (resp08_enc r)) \<and> 0 + i < length ?data \<and>
      ?data ! (0 + i) = (test_frame08 b, a) \<and> resp08_ok r \<and> accepts08 E H (test_public_key E) (test_nonce b) r" if "i < length ?outs" for i
  proof -
    have i: "i < 64" using that x(2) large_batch_nth(2) by simp
    then have h: "honest08 E H now secret (map (test_nonce \<circ> fst) large_batch) i (rs ! i)" using x(4) by simp
    have "?outs ! i = (8000 + i, frame_enc (resp08_enc (rs ! i)))" "?data ! i = (test_frame08 (of_nat (i * 37)), 8000 + i)"
      using i x(2) by (simp_all add: large_batch_nth)
    moreover have "resp08_ok (rs ! i)" "accepts08 E H (test_public_key E) (test_nonce (of_nat (i * 37))) (rs ! i)"
      using h honest08_accepts [OF assms(1) h i] i by (auto simp: large_batch_nth honest08_def Let_def)
    ultimately show ?thesis using i by (intro exI [of _ "rs ! i"] exI [of _ "of_nat (i * 37)"] exI [of _ "8000 + i"]) (simp add: large_batch_nth(2))
  qed
  with check_each08_ok [OF x(3) _ assms(1), of ?outs 0 ?data H p] have "check_each08 p E H c ?data 0 ?outs = Ok ()" by blast
  with x(1,2) show ?thesis by (simp add: draft08_large_batch_validation_def large_batch_nth(2))
qed

lemma roundtrip08_passes:
  assumes "ed25519_ok E" "sha512_ok H"
  shows "draft08_response_wire_roundtrip p E H (Some now) secret sock_addr = Ok ()"
proof -
  obtain c :: "nat draft08_context" where c: "d8_new E (Some now) 1 = Ok c" "d8_inv E c" using d8_new_inv [OF assms(1), of 1 "Some now" now] by auto
  obtain resp c' where r: "d8_create_interaction_pair_with_nonce p E H (Some now) secret sock_addr 1234567890 (replicate 32 0x42) c
      = Ok ((r08_new (replicate 32 0x42), resp), c')" "resp08_valid resp"
    using d8_pair_made [OF assms c(2), of "replicate 32 0x42" p "Some now" secret sock_addr 1234567890] by auto
  have "resp08_ok resp" using r(2) by (simp add: resp08_valid_def)
  then obtain cursor where w: "resp08_to_wire resp (cursor_new (replicate (resp08_wire_size resp) 0)) = Ok ((), cursor)" "cur_data cursor = resp08_enc resp"
    using resp08_writer.as_bytes_enc [of resp] by (auto simp: as_bytes_def and_then_Ok_iff)
  show ?thesis using c(1) r(1) w resp08_message.wire_round_trip [OF r(2), of p]
    by (simp add: draft08_response_wire_roundtrip_def)
qed

lemma mismatch_passes:
  assumes "ed25519_ok E" "sha512_ok H"
  shows "draft14_client_rejects_draft08_response p E H (Some now) secret = Ok ()"
    "draft08_client_rejects_draft14_response p E H (Some now) secret = Ok ()"
proof -
  obtain q d where y: "exchange08 p E H (Some now) secret 64 [(42, 8080)] = Ok ([(test_frame08 42, 8080)], [(8080, frame_enc (resp08_enc q))], d)"
    "ks_public_key (memory_ops E) (d8_key_source d) = Ok (test_public_key E)" "honest08 E H now secret [test_nonce 42] 0 q" "resp08_ok q"
    by (rule exchange08_one [OF assms])
  obtain r c where x: "exchange14 p E H (Some now) secret 64 [(42, 8080)] = Ok ([(test_leaf 42, 8080)], [(8080, frame_enc (resp_enc r))], c)"
    "ks_public_key (memory_ops E) (tc_key_source c) = Ok (test_public_key E)" "honest14 E H now secret [test_leaf 42] 0 r" "resp_ok r"
    by (rule exchange14_one [OF assms])
  obtain e1 e2 where e: "parse (resp_from_wire p) (resp08_enc q) = Err e1" "parse (from_frame (resp08_from_wire p)) (frame_enc (resp_enc r)) = Err e2"
    using other_version_refused [OF x(4) y(4), of p] by blast
  have v: "validate_response_draft14 p E H req (frame_enc (resp08_enc q)) pk = Err (BoxedWire e1)" for req pk
    using e(1) by (simp add: validate_response_draft14_def take_frame slice_of_def FRAME_OVERHEAD_def)
  show "draft14_client_rejects_draft08_response p E H (Some now) secret = Ok ()"
    using y(1,2) test_request14 v by (simp add: draft14_client_rejects_draft08_response_def)
  have "validate_response_draft08 p E H req (frame_enc (resp_enc r)) pk = Err (BoxedWire e2)" for req pk
    using e(2) by (simp add: validate_response_draft08_def take_frame)
  then show "draft08_client_rejects_draft14_response p E H (Some now) secret = Ok ()"
    using x(1,2) by (simp add: draft08_client_rejects_draft14_response_def test_request08)
qed

section \<open>No server\<close>

lemma timeout_passes:
  assumes "sha512_ok H" "length rand = 32"
    and so: "sock \<lparr>dur_secs = 1, dur_nanos = 0\<rparr> = so" "socket_ready (\<lambda>_. True) so 19999" "\<And>bs. so_send_to so bs 19999 = Inr (length bs)"
      "\<And>bs. so_recv_from so bs 19999 = Inl e"
    and "900 \<le> elapsed" "elapsed < 3000"
  shows "client_times_out_when_server_unavailable p E H trace sock rand elapsed = Ok ()"
proof -
  let ?b = "client_builder_new 19999 :: nat client_builder"
  obtain c where c: "client_build H ?b = (Ok c :: (client_error, _) outcome)" "client_ok c"
    using client_build_ok [OF assms(1), of ?b] by (auto simp: client_builder_new_def)
  have srv: "cl_server c = 19999" using c(1) by (auto simp: client_build_def and_then_Ok_iff client_builder_new_def)
  note valid = create_request_valid(1) [OF c(2) assms(2)]
  have "\<exists>e'. query p E H rand (udp_exchange trace so) c = Err e'"
    using so(3,4) unfolding query_run send_request_run [OF valid] udp_send_exchange udp_recv_exchange srv by auto
  then obtain e' where q: "query p E H rand (udp_exchange trace so) c = Err e'" by blast
  have "builder_build trace (\<lambda>_. True) sock H (builder_timeout \<lparr>dur_secs = 1, dur_nanos = 0\<rparr> (builder_new 19999)) = Ok (c, udp_exchange trace so)"
    using so(1,2) c(1) by (simp add: builder_build_udp builder_timeout_def builder_new_def client_builder.truncate_def client_builder_new_def)
  with q assms(7,8) show ?thesis by (simp add: client_times_out_when_server_unavailable_def)
qed

section \<open>Property\<close>

text \<open>C39. The tests of the library, in debug and in release builds, for every signature scheme whose signatures verify and every
  64-byte hash function, whatever the secret of the online key: the nine tests that depend on nothing else pass, among them the
  two batches of 64 requests, the changed and the expired delegation and the responses of the other version.
  The other six pass exactly when one stated accident does not happen: an all-zero key verifies the signature on the delegation, the
  signature on the genuine time verifies for the changed one, or two leaves or positions lead to the same root.\<close>

theorem library_tests_exact:
  assumes "ed25519_ok E" "sha512_ok H" "1000 \<le> now" "unat now + 1000 < 2 ^ 64"
  shows "(\<forall>test\<in>{single_request_validation, large_batch_validation, tampered_dele_is_rejected, expired_cert_is_rejected,
        draft08_single_request_validation, draft08_large_batch_validation, (\<lambda>p E H sys secret. draft08_response_wire_roundtrip p E H sys secret 8080),
        draft14_client_rejects_draft08_response, draft08_client_rejects_draft14_response}. test p E H (Some now) secret = Ok ()) \<and>
    (\<exists>r. honest14 E H now secret [test_leaf 42] 0 r \<and> (wrong_public_key_is_rejected p E H (Some now) secret = Ok () \<longleftrightarrow>
       \<not> ed_verify E (replicate 32 0) (dele_prefix RfcDraft14 @ dele_enc (cert_delegation (resp_cert r))) (cert_signature (resp_cert r)))) \<and>
    (\<exists>r. honest14 E H now secret [test_leaf 42] 0 r \<and> (response_for_wrong_nonce_is_rejected p E H (Some now) secret = Ok () \<longleftrightarrow>
       root_from_paths H 0 (test_leaf 99) (resp_path r) \<noteq> root_from_paths H 0 (test_leaf 42) (resp_path r))) \<and>
    (\<exists>r. honest14 E H now secret [test_leaf 42] 0 r \<and> (tampered_srep_is_rejected p E H (Some now) secret = Ok () \<longleftrightarrow>
       \<not> ed_verify E (ed_public E secret) (srep_prefix RfcDraft14 @ srep_enc (srep_set_midp (now + 1000) (resp_srep r))) (resp_signature r))) \<and>
    (\<exists>r. honest14 E H now secret [test_leaf 0, test_leaf 1, test_leaf 2, test_leaf 3] 0 r \<and>
       (corrupted_merkle_index_is_rejected p E H (Some now) secret = Ok () \<longleftrightarrow>
        root_from_paths H 1 (test_leaf 0) (resp_path r) \<noteq> root_from_paths H 0 (test_leaf 0) (resp_path r))) \<and>
    (\<exists>r. honest08 E H now secret [test_nonce 42] 0 r \<and> (draft08_wrong_public_key_is_rejected p E H (Some now) secret = Ok () \<longleftrightarrow>
       \<not> ed_verify E (replicate 32 0) (dele_prefix RfcDraft08 @ dele_enc (cert_delegation (resp08_cert r))) (cert_signature (resp08_cert r)))) \<and>
    (\<exists>r. honest08 E H now secret [test_nonce 42] 0 r \<and> (draft08_response_for_wrong_nonce_is_rejected p E H (Some now) secret = Ok () \<longleftrightarrow>
       root_from_paths H 0 (test_nonce 99) (resp08_path r) \<noteq> root_from_paths H 0 (test_nonce 42) (resp08_path r)))"
  using single_passes [OF assms(1,2)] large_passes [OF assms(1,2)] tampered_dele_passes [OF assms(1,2,4)] expired_passes [OF assms(1-3)]
    single08_passes [OF assms(1,2)] large08_passes [OF assms(1,2)] roundtrip08_passes [OF assms(1,2)] mismatch_passes [OF assms(1,2)]
  by (intro conjI wrong_key_exact wrong_nonce_exact tampered_srep_exact corrupted_index_exact wrong_key08_exact wrong_nonce08_exact assms) simp

theorem library_tests_exact_witness:
  "large_batch_validation Debug toy_ed toy_hash (Some 1000) (replicate 32 2) = Ok () \<and>
   expired_cert_is_rejected Debug toy_ed toy_hash (Some 1000) (replicate 32 2) = Ok () \<and>
   draft08_large_batch_validation Release toy_ed toy_hash (Some 1000) (replicate 32 2) = Ok ()"
  using library_tests_exact [OF toy_ed_ok toy_hash_ok, of 1000] by simp

end
