(* ===== verification/Handler_Tests.thy ===== *)
theory Handler_Tests
  imports Library_Tests
begin

text \<open>
  The tests of the request handler (the test module of \<^verbatim>\<open>server/src/requests.rs\<close>): what it counts and answers when
  datagrams are valid, too short, too long or malformed in one way or another. As in \<^theory_text>\<open>Library_Tests\<close>, a test is a value
  that is \<open>Ok ()\<close> when it passes. Shown: the counters of the handler are those of a classification of the datagrams, and
  with it that every test passes for every signature scheme and hash function.
\<close>

section \<open>Helpers of the tests\<close>

definition create_request_handler :: "ed25519 \<Rightarrow> u64 option \<Rightarrow> bytes \<Rightarrow> (backend_error, (memory_backend, nat) request_handler) outcome" where
  "create_request_handler E sys secret =
     and_then (new_response_handler E sys secret) (\<lambda>responder. Ok (request_handler_new responder))"

definition create_test_request_bytes :: "u8 \<Rightarrow> (backend_error, bytes) outcome" where
  "create_test_request_bytes nonce_value =
     (let req = request_new_draft14 (replicate 32 nonce_value) in
      and_then (expect (as_frame_bytes request_wire_size request_to_wire req)) (\<lambda>bs.
      and_then (assert_that (length bs = REQUEST_SIZE)) (\<lambda>_. Ok bs)))"

text \<open>\<open>buf[n..n + len].copy_from_slice(bs)\<close>, in range in all tests.\<close>

definition copy_at :: "nat \<Rightarrow> bytes \<Rightarrow> bytes \<Rightarrow> bytes" where
  "copy_at n bs buf = take n buf @ bs @ drop (n + length bs) buf"

text \<open>The datagrams of a test, all from one address.\<close>

definition from_8080 :: "bytes list \<Rightarrow> (bytes \<times> nat) list" where
  "from_8080 = map (\<lambda>bs. (bs, 8080))"

section \<open>Tests\<close>

definition test_process_valid_request :: "profile \<Rightarrow> ed25519 \<Rightarrow> hash_fn \<Rightarrow> u64 option \<Rightarrow> bytes \<Rightarrow> (backend_error, unit) outcome" where
  "test_process_valid_request p E H sys secret =
     and_then (create_request_handler E sys secret) (\<lambda>handler.
     and_then (create_test_request_bytes 42) (\<lambda>request_bytes.
     and_then (collect_request p H request_bytes 8080 handler) (\<lambda>handler'.
     let metrics = qh_metrics handler' in
     assert_that (num_ok_requests metrics = 1 \<and> num_bad_requests metrics = 0 \<and> num_runt_requests metrics = 0 \<and> num_jumbo_requests metrics = 0))))"

definition runt_sizes :: "nat list" where
  "runt_sizes = [0, 1, 15, 100, 512, REQUEST_SIZE - 1]"

definition runt :: "nat \<Rightarrow> bytes" where
  "runt n = (if n \<ge> 8 then copy_at 0 (u64_to_be_bytes FRAME_MAGIC) (replicate n 0) else replicate n 0)"

definition test_process_runt_requests :: "profile \<Rightarrow> ed25519 \<Rightarrow> hash_fn \<Rightarrow> u64 option \<Rightarrow> bytes \<Rightarrow> (backend_error, unit) outcome" where
  "test_process_runt_requests p E H sys secret =
     and_then (create_request_handler E sys secret) (\<lambda>handler.
     and_then (collect_all p H (from_8080 (map runt runt_sizes)) handler) (\<lambda>handler'.
     let metrics = qh_metrics handler' in
     assert_that (num_runt_requests metrics = length runt_sizes \<and> num_ok_requests metrics = 0)))"

definition jumbo_sizes :: "nat list" where
  "jumbo_sizes = [REQUEST_SIZE + 1, REQUEST_SIZE + 100, 2048, 4096]"

definition jumbo :: "nat \<Rightarrow> bytes" where
  "jumbo n = copy_at 0 (u64_to_be_bytes FRAME_MAGIC) (replicate n 0)"

definition test_process_jumbo_requests :: "profile \<Rightarrow> ed25519 \<Rightarrow> hash_fn \<Rightarrow> u64 option \<Rightarrow> bytes \<Rightarrow> (backend_error, unit) outcome" where
  "test_process_jumbo_requests p E H sys secret =
     and_then (create_request_handler E sys secret) (\<lambda>handler.
     and_then (collect_all p H (from_8080 (map jumbo jumbo_sizes)) handler) (\<lambda>handler'.
     let metrics = qh_metrics handler' in
     assert_that (num_jumbo_requests metrics = length jumbo_sizes \<and> num_ok_requests metrics = 0)))"

definition test_generate_responses :: "profile \<Rightarrow> ed25519 \<Rightarrow> hash_fn \<Rightarrow> u64 option \<Rightarrow> bytes \<Rightarrow> (backend_error, unit) outcome" where
  "test_generate_responses p E H sys secret =
     and_then (create_request_handler E sys secret) (\<lambda>handler.
     and_then (create_test_request_bytes 42) (\<lambda>request_bytes.
     and_then (collect_request p H request_bytes 8080 handler) (\<lambda>handler'.
     and_then (generate_responses p E H sys handler') (\<lambda>(responses, _).
     and_then (assert_that (length responses = 1)) (\<lambda>_.
     and_then (index_at responses 0) (\<lambda>(response_addr, response_bytes).
     assert_that (response_addr = 8080 \<and> take 8 response_bytes = ROUGHTIM)))))))"

definition test_metrics_reset :: "profile \<Rightarrow> ed25519 \<Rightarrow> hash_fn \<Rightarrow> u64 option \<Rightarrow> bytes \<Rightarrow> (backend_error, unit) outcome" where
  "test_metrics_reset p E H sys secret =
     and_then (create_request_handler E sys secret) (\<lambda>handler.
     and_then (create_test_request_bytes 42) (\<lambda>request_bytes.
     and_then (collect_request p H request_bytes 8080 handler) (\<lambda>handler'.
     and_then (assert_that (num_ok_requests (qh_metrics handler') = 1)) (\<lambda>_.
     assert_that (num_ok_requests (qh_metrics (request_handler_reset_metrics handler')) = 0)))))"

text \<open>What the tests with malformed datagrams share: all of them are counted as bad.\<close>

definition bad_requests :: "bytes list \<Rightarrow> profile \<Rightarrow> ed25519 \<Rightarrow> hash_fn \<Rightarrow> u64 option \<Rightarrow> bytes \<Rightarrow> (backend_error, unit) outcome" where
  "bad_requests bad p E H sys secret =
     and_then (create_request_handler E sys secret) (\<lambda>handler.
     and_then (collect_all p H (from_8080 bad) handler) (\<lambda>handler'.
     let metrics = qh_metrics handler' in
     assert_that (num_bad_requests metrics = length bad \<and> num_ok_requests metrics = 0)))"

definition zeros :: bytes where
  "zeros = replicate REQUEST_SIZE 0"

definition BADMAGIC :: bytes where
  "BADMAGIC = [0x42, 0x41, 0x44, 0x4D, 0x41, 0x47, 0x49, 0x43]"

definition NOTVALID :: bytes where
  "NOTVALID = [0x4E, 0x4F, 0x54, 0x56, 0x41, 0x4C, 0x49, 0x44]"

definition with_magic :: bytes where
  "with_magic = copy_at 0 (u64_to_be_bytes FRAME_MAGIC) zeros"

definition bad_len :: bytes where
  "bad_len = copy_at 8 (u32_to_le_bytes (of_nat REQUEST_SIZE + 100)) with_magic"

definition zero_len :: bytes where
  "zero_len = copy_at 8 (u32_to_le_bytes 0) with_magic"

definition good_len :: bytes where
  "good_len = copy_at 8 (u32_to_le_bytes 1012) with_magic"

definition tag_overflow :: bytes where
  "tag_overflow = copy_at 12 (u32_to_le_bytes (- 1)) good_len"

definition garbage :: "u8 \<Rightarrow> bytes" where
  "garbage seed = replicate REQUEST_SIZE (seed * 37)"

definition four_tags :: bytes where
  "four_tags = copy_at 12 (u32_to_le_bytes 4) good_len"

definition non_monotonic :: bytes where
  "non_monotonic = copy_at 20 (u32_to_le_bytes 50) (copy_at 16 (u32_to_le_bytes 100) four_tags)"

definition out_of_bounds :: bytes where
  "out_of_bounds = copy_at 16 (u32_to_le_bytes (of_nat (REQUEST_SIZE + 1000))) four_tags"

definition test_bad_magic_is_rejected :: "profile \<Rightarrow> ed25519 \<Rightarrow> hash_fn \<Rightarrow> u64 option \<Rightarrow> bytes \<Rightarrow> (backend_error, unit) outcome" where
  "test_bad_magic_is_rejected = bad_requests [copy_at 0 BADMAGIC zeros]"

definition test_bad_frame_length_is_rejected :: "profile \<Rightarrow> ed25519 \<Rightarrow> hash_fn \<Rightarrow> u64 option \<Rightarrow> bytes \<Rightarrow> (backend_error, unit) outcome" where
  "test_bad_frame_length_is_rejected = bad_requests [bad_len]"

definition test_zero_frame_length_is_rejected :: "profile \<Rightarrow> ed25519 \<Rightarrow> hash_fn \<Rightarrow> u64 option \<Rightarrow> bytes \<Rightarrow> (backend_error, unit) outcome" where
  "test_zero_frame_length_is_rejected = bad_requests [zero_len]"

definition test_tag_count_overflow_is_rejected :: "profile \<Rightarrow> ed25519 \<Rightarrow> hash_fn \<Rightarrow> u64 option \<Rightarrow> bytes \<Rightarrow> (backend_error, unit) outcome" where
  "test_tag_count_overflow_is_rejected = bad_requests [tag_overflow]"

definition test_all_zeros_is_rejected :: "profile \<Rightarrow> ed25519 \<Rightarrow> hash_fn \<Rightarrow> u64 option \<Rightarrow> bytes \<Rightarrow> (backend_error, unit) outcome" where
  "test_all_zeros_is_rejected = bad_requests [zeros]"

definition test_random_garbage_is_rejected :: "profile \<Rightarrow> ed25519 \<Rightarrow> hash_fn \<Rightarrow> u64 option \<Rightarrow> bytes \<Rightarrow> (backend_error, unit) outcome" where
  "test_random_garbage_is_rejected = bad_requests (map (\<lambda>seed. garbage (of_nat seed)) [0..<10])"

definition test_non_monotonic_offsets_is_rejected :: "profile \<Rightarrow> ed25519 \<Rightarrow> hash_fn \<Rightarrow> u64 option \<Rightarrow> bytes \<Rightarrow> (backend_error, unit) outcome" where
  "test_non_monotonic_offsets_is_rejected = bad_requests [non_monotonic]"

definition test_out_of_bounds_offset_is_rejected :: "profile \<Rightarrow> ed25519 \<Rightarrow> hash_fn \<Rightarrow> u64 option \<Rightarrow> bytes \<Rightarrow> (backend_error, unit) outcome" where
  "test_out_of_bounds_offset_is_rejected = bad_requests [out_of_bounds]"

definition test_mixed_valid_and_invalid_requests :: "profile \<Rightarrow> ed25519 \<Rightarrow> hash_fn \<Rightarrow> u64 option \<Rightarrow> bytes \<Rightarrow> (backend_error, unit) outcome" where
  "test_mixed_valid_and_invalid_requests p E H sys secret =
     and_then (create_request_handler E sys secret) (\<lambda>handler.
     and_then (expect (as_frame_bytes request_wire_size request_to_wire (request_new_draft14 (replicate 32 1)))) (\<lambda>valid_bytes.
     and_then (expect (as_frame_bytes request_wire_size request_to_wire (request_new_draft14 (replicate 32 2)))) (\<lambda>valid_bytes2.
     and_then (collect_all p H (from_8080 [valid_bytes, copy_at 0 NOTVALID zeros, valid_bytes2, replicate 100 0]) handler) (\<lambda>handler'.
     let metrics = qh_metrics handler' in
     assert_that (num_ok_requests metrics = 2 \<and> num_bad_requests metrics = 1 \<and> num_runt_requests metrics = 1)))))"

definition test_malformed_requests_generate_no_responses :: "profile \<Rightarrow> ed25519 \<Rightarrow> hash_fn \<Rightarrow> u64 option \<Rightarrow> bytes \<Rightarrow> (backend_error, unit) outcome" where
  "test_malformed_requests_generate_no_responses p E H sys secret =
     and_then (create_request_handler E sys secret) (\<lambda>handler.
     and_then (collect_all p H (from_8080 [copy_at 0 BADMAGIC zeros, replicate 100 0]) handler) (\<lambda>handler'.
     and_then (generate_responses p E H sys handler') (\<lambda>(responses, _).
     assert_that (responses = []))))"

section \<open>What is counted\<close>

definition readable :: "profile \<Rightarrow> bytes \<Rightarrow> bool" where
  "readable p bs \<longleftrightarrow> (case parse (from_frame (request_from_wire p)) bs of Ok _ \<Rightarrow> True | _ \<Rightarrow> False)"

lemma collect_request_counts:
  assumes "collect_request p H bs src q = Ok q'"
  shows "num_runt_requests (qh_metrics q') = num_runt_requests (qh_metrics q) + of_bool (length bs < REQUEST_SIZE)"
    "num_jumbo_requests (qh_metrics q') = num_jumbo_requests (qh_metrics q) + of_bool (REQUEST_SIZE < length bs)"
    "num_ok_requests (qh_metrics q') = num_ok_requests (qh_metrics q) + of_bool (length bs = REQUEST_SIZE \<and> readable p bs)"
    "num_bad_requests (qh_metrics q') = num_bad_requests (qh_metrics q) + of_bool (length bs = REQUEST_SIZE \<and> \<not> readable p bs)"
  using assms by (auto simp: collect_request_def readable_def and_then_Ok_iff Let_def split: if_splits outcome.splits)

text \<open>Every counter moves by the number of datagrams of its class.\<close>

lemma collect_all_counts:
  assumes "collect_all p H ds q = Ok q'"
  shows "num_runt_requests (qh_metrics q') = num_runt_requests (qh_metrics q) + length (filter (\<lambda>d. length (fst d) < REQUEST_SIZE) ds) \<and>
    num_jumbo_requests (qh_metrics q') = num_jumbo_requests (qh_metrics q) + length (filter (\<lambda>d. REQUEST_SIZE < length (fst d)) ds) \<and>
    num_ok_requests (qh_metrics q') = num_ok_requests (qh_metrics q) + length (filter (\<lambda>d. length (fst d) = REQUEST_SIZE \<and> readable p (fst d)) ds) \<and>
    num_bad_requests (qh_metrics q') = num_bad_requests (qh_metrics q) + length (filter (\<lambda>d. length (fst d) = REQUEST_SIZE \<and> \<not> readable p (fst d)) ds)"
  using assms
proof (induction ds arbitrary: q)
  case (Cons d ds)
  obtain bs src where d: "d = (bs, src)" by (cases d)
  with Cons.prems obtain q1 where q1: "collect_request p H bs src q = Ok q1" "collect_all p H ds q1 = Ok q'" by (auto simp: and_then_Ok_iff)
  from Cons.IH [OF q1(2)] collect_request_counts [OF q1(1)] show ?case by (simp add: d)
qed simp

lemma accepted_nil: "\<forall>d\<in>set ds. length (fst d) = REQUEST_SIZE \<longrightarrow> \<not> readable p (fst d) \<Longrightarrow> accepted p ds = []"
  by (induction p ds rule: accepted.induct) (auto simp: readable_def split: outcome.splits)

lemma accepted_sources:
  "map (\<lambda>x. pr_src_addr (pending_of x)) (accepted p ds) = map snd (filter (\<lambda>d. length (fst d) = REQUEST_SIZE \<and> readable p (fst d)) ds)"
  by (induction p ds rule: accepted.induct) (auto simp: readable_def pending_of_def split: outcome.splits)

section \<open>What a readable datagram starts with\<close>

lemma take_consumed: "cursor_at pre (bs @ suf) = cursor_new ds \<Longrightarrow> ds = bs @ suf \<and> pre = []"
  by (auto simp: cursor_at_def cursor_new_def)

lemma readable_start:
  assumes "readable p ds"
  shows "\<exists>len n rest. ds = u64_to_be_bytes FRAME_MAGIC @ u32_to_le_bytes len @ u32_to_le_bytes n @ rest \<and>
    MINIMUM_FRAME_SIZE \<le> unat len \<and> unat len \<le> 1012 \<and> n \<in> {3, 4, 5} \<and>
    (n = 4 \<longrightarrow> (\<exists>a b rest'. rest = u32_to_le_bytes a @ u32_to_le_bytes b @ rest' \<and> a \<le> b))"
proof -
  let ?head = "\<lambda>len. u64_to_be_bytes FRAME_MAGIC @ u32_to_le_bytes len"
  obtain r c'' where "from_frame (request_from_wire p) (cursor_new ds) = Ok (r, c'')"
    using assms by (auto simp: readable_def parse_Ok_iff split: outcome.splits)
  from from_frame_Ok [OF wf_cursor_new this] obtain len c where
    c: "consumes (cursor_new ds) (?head len) c" "MINIMUM_FRAME_SIZE \<le> unat len" "unat len \<le> remaining c" "request_from_wire p c = Ok (r, c'')" by blast
  then obtain suf where s: "ds = ?head len @ suf" "c = cursor_at (?head len) suf"
    unfolding consumes_def by (metis take_consumed append_Nil)
  have wf: "wf_cursor c" unfolding s(2) wf_cursor_at by blast
  from c(4) obtain n c0 where n: "try_get_u32_le c = Ok (n, c0)" and rem: "remaining c = 1012"
    by (auto simp: request_from_wire_def from_wire_inversion get_position_def split: if_splits)
  obtain rest where rest: "suf = u32_to_le_bytes n @ rest"
    using try_ints_Ok(1) [OF wf n] unfolding s(2) consumes_def by (auto simp: cursor_at_eq_iff)
  note at = c(4) [unfolded request_from_wire_at [OF wf rem n]]
  have n3: "n \<in> {3, 4, 5}" using at by (auto split: if_splits)
  have "\<exists>a b rest'. rest = u32_to_le_bytes a @ u32_to_le_bytes b @ rest' \<and> a \<le> b" if "n = 4"
  proof -
    from at that obtain h c1 where "header_from_wire 4 c = Ok (h, c1)" by (auto simp: r14_from_wire_def bind_def and_then_Ok_iff)
    from hdr_exact.exact [OF wf this] obtain suf' where v: "header_accepted 4 h" and e: "suf = header_enc h @ suf'"
      unfolding s(2) consumes_def by (auto simp: cursor_at_eq_iff)
    from v obtain a b d where "hdr_offsets h = [a, b, d]" "a \<le> b"
      by (auto simp: header_accepted_def numeral_eq_Suc length_Suc_conv)
    with v e rest that show ?thesis by (auto simp: header_enc_def header_accepted_def)
  qed
  with s(1) rest c(2,3) rem n3 show ?thesis by auto
qed

section \<open>The datagrams of the tests\<close>

lemma length_copy_at [simp]: "n + length bs \<le> length buf \<Longrightarrow> length (copy_at n bs buf) = length buf"
  by (simp add: copy_at_def)

lemma test_lengths [simp]:
  "length zeros = REQUEST_SIZE" "length BADMAGIC = 8" "length NOTVALID = 8" "length with_magic = REQUEST_SIZE" "length (garbage s) = REQUEST_SIZE"
  "length (runt n) = n" "8 \<le> n \<Longrightarrow> length (jumbo n) = n"
  by (simp_all add: zeros_def BADMAGIC_def NOTVALID_def with_magic_def garbage_def runt_def jumbo_def REQUEST_SIZE_def)

lemma wrong_magic: "ds ! 0 \<noteq> 0x52 \<or> ds ! 1 \<noteq> 0x4F \<Longrightarrow> \<not> readable p ds"
  using readable_start [of p ds] by (auto simp: ROUGHTIM_magic ROUGHTIM_def)

lemma magic_tests:
  "\<not> readable p (copy_at 0 BADMAGIC zeros)" "\<not> readable p (copy_at 0 NOTVALID zeros)" "\<not> readable p zeros" "\<not> readable p (garbage s)"
proof -
  show "\<not> readable p (copy_at 0 BADMAGIC zeros)" "\<not> readable p (copy_at 0 NOTVALID zeros)"
    by (rule wrong_magic, simp add: copy_at_def BADMAGIC_def NOTVALID_def)+
  show "\<not> readable p zeros" by (rule wrong_magic) (simp add: zeros_def REQUEST_SIZE_def)
  have "garbage s ! 0 = garbage s ! 1" by (simp add: garbage_def REQUEST_SIZE_def)
  then show "\<not> readable p (garbage s)" by (intro wrong_magic) (cases "garbage s ! 0 = 0x52", simp_all)
qed

lemma with_magic_eq: "with_magic = u64_to_be_bytes FRAME_MAGIC @ replicate 1016 0"
  by (simp add: with_magic_def copy_at_def zeros_def REQUEST_SIZE_def)

lemma framed_test_eq:
  "bad_len = u64_to_be_bytes FRAME_MAGIC @ u32_to_le_bytes 1124 @ replicate 1012 0"
  "zero_len = u64_to_be_bytes FRAME_MAGIC @ u32_to_le_bytes 0 @ replicate 1012 0"
  "good_len = u64_to_be_bytes FRAME_MAGIC @ u32_to_le_bytes 1012 @ replicate 1012 0"
  by (simp_all add: bad_len_def zero_len_def good_len_def with_magic_eq copy_at_def REQUEST_SIZE_def)

lemma counted_test_eq:
  "tag_overflow = u64_to_be_bytes FRAME_MAGIC @ u32_to_le_bytes 1012 @ u32_to_le_bytes (- 1) @ replicate 1008 0"
  "four_tags = u64_to_be_bytes FRAME_MAGIC @ u32_to_le_bytes 1012 @ u32_to_le_bytes 4 @ replicate 1008 0"
  by (simp_all add: tag_overflow_def four_tags_def framed_test_eq copy_at_def)

lemma offset_test_eq:
  "non_monotonic = u64_to_be_bytes FRAME_MAGIC @ u32_to_le_bytes 1012 @ u32_to_le_bytes 4 @ u32_to_le_bytes 100 @ u32_to_le_bytes 50 @ replicate 1000 0"
  "out_of_bounds = u64_to_be_bytes FRAME_MAGIC @ u32_to_le_bytes 1012 @ u32_to_le_bytes 4 @ u32_to_le_bytes 2024 @ u32_to_le_bytes 0 @ replicate 1000 0"
proof -
  have "u32_to_le_bytes 0 = replicate 4 0" by code_simp
  then have "replicate 1004 0 = u32_to_le_bytes 0 @ replicate 1000 0" by (simp flip: replicate_add)
  then show "out_of_bounds = u64_to_be_bytes FRAME_MAGIC @ u32_to_le_bytes 1012 @ u32_to_le_bytes 4 @ u32_to_le_bytes 2024 @ u32_to_le_bytes 0 @ replicate 1000 0"
    by (simp add: out_of_bounds_def counted_test_eq copy_at_def REQUEST_SIZE_def)
qed (simp add: non_monotonic_def counted_test_eq copy_at_def)

lemma framed_tests:
  "\<not> readable p bad_len" "\<not> readable p zero_len" "\<not> readable p tag_overflow" "\<not> readable p non_monotonic" "\<not> readable p out_of_bounds"
  "length bad_len = REQUEST_SIZE" "length zero_len = REQUEST_SIZE" "length tag_overflow = REQUEST_SIZE"
  "length non_monotonic = REQUEST_SIZE" "length out_of_bounds = REQUEST_SIZE"
  using readable_start [of p bad_len] readable_start [of p zero_len] readable_start [of p tag_overflow]
    readable_start [of p non_monotonic] readable_start [of p out_of_bounds]
  by (auto simp: framed_test_eq counted_test_eq offset_test_eq MINIMUM_FRAME_SIZE_def REQUEST_SIZE_def)

section \<open>The handler of the tests\<close>

lemma handler_made:
  assumes "ed25519_ok E"
  shows "\<exists>q k. create_request_handler E (Some now) secret = Ok q \<and> qh_metrics q = request_metrics_default \<and>
    rh_inv E H (test_public_key E) [] (qh_responder q) \<and> rh_requests (qh_responder q) = [] \<and> rh_batch_size (qh_responder q) = 64 \<and>
    rh_protocol_version (qh_responder q) = RfcDraft14 \<and> rh_metrics (qh_responder q) = response_metrics_default \<and>
    rh_online_key (qh_responder q) = Draft14Key k \<and> ok14_clock k = Mock now"
proof -
  obtain c :: "nat test_context" where c: "test_context_new E (Some now) secret 64 = Ok c"
    and h: "rh_inv E H (test_public_key E) [] (tc_response_handler c)" "rh_requests (tc_response_handler c) = []"
      "rh_batch_size (tc_response_handler c) = 64" "rh_protocol_version (tc_response_handler c) = RfcDraft14"
      "rh_metrics (tc_response_handler c) = response_metrics_default" "key_clock (rh_online_key (tc_response_handler c)) = Mock now"
    using test_context_made [OF assms, of 64 now secret H, where 'addr = nat] by (auto simp: Let_def)
  obtain k where "rh_online_key (tc_response_handler c) = Draft14Key k"
    using h(1,4) by (cases "rh_online_key (tc_response_handler c)") (auto simp: rh_inv_def)
  with c h show ?thesis
    by (intro exI [of _ "request_handler_new (tc_response_handler c)"] exI [of _ k])
      (simp add: create_request_handler_def new_response_handler_def request_handler_new_def)
qed

text \<open>Collecting with that handler: at most 64 datagrams go in, and the counters are those of their classes.\<close>

lemma collected:
  assumes "ed25519_ok E" "length bss \<le> 64"
  shows "\<exists>q q'. create_request_handler E (Some now) secret = Ok q \<and> collect_all p H (from_8080 bss) q = Ok q' \<and>
    num_runt_requests (qh_metrics q') = length (filter (\<lambda>bs. length bs < REQUEST_SIZE) bss) \<and>
    num_jumbo_requests (qh_metrics q') = length (filter (\<lambda>bs. REQUEST_SIZE < length bs) bss) \<and>
    num_ok_requests (qh_metrics q') = length (filter (\<lambda>bs. length bs = REQUEST_SIZE \<and> readable p bs) bss) \<and>
    num_bad_requests (qh_metrics q') = length (filter (\<lambda>bs. length bs = REQUEST_SIZE \<and> \<not> readable p bs) bss)"
proof -
  obtain q where q: "create_request_handler E (Some now) secret = Ok q" "qh_metrics q = request_metrics_default"
    "rh_inv E H (test_public_key E) [] (qh_responder q)" "rh_requests (qh_responder q) = []" "rh_batch_size (qh_responder q) = 64"
    using handler_made [OF assms(1), of now secret H] by blast
  obtain q' where q': "collect_all p H (from_8080 bss) q = Ok q'"
    using collect_all_ok [OF q(3), of "from_8080 bss" p] q(4,5) assms(2) by (auto simp: from_8080_def)
  from collect_all_counts [OF q'] q q' show ?thesis
    by (auto simp: request_metrics_default_def from_8080_def filter_map o_def)
qed

section \<open>The tests pass\<close>

lemma bad_requests_pass:
  assumes "ed25519_ok E" "length bad \<le> 64" "\<forall>bs\<in>set bad. length bs = REQUEST_SIZE \<and> \<not> readable p bs"
  shows "bad_requests bad p E H (Some now) secret = Ok ()"
proof -
  obtain q q' where q: "create_request_handler E (Some now) secret = Ok q" "collect_all p H (from_8080 bad) q = Ok q'"
    "num_ok_requests (qh_metrics q') = length (filter (\<lambda>bs. length bs = REQUEST_SIZE \<and> readable p bs) bad)"
    "num_bad_requests (qh_metrics q') = length (filter (\<lambda>bs. length bs = REQUEST_SIZE \<and> \<not> readable p bs) bad)"
    using collected [OF assms(1,2), of now secret p H] by blast
  have "filter (\<lambda>bs. length bs = REQUEST_SIZE \<and> readable p bs) bad = []" "filter (\<lambda>bs. length bs = REQUEST_SIZE \<and> \<not> readable p bs) bad = bad"
    using assms(3) by (auto simp: filter_empty_conv filter_id_conv)
  with q show ?thesis by (simp add: bad_requests_def assert_that_def)
qed

lemma malformed_tests_pass:
  assumes "ed25519_ok E"
  shows "test_bad_magic_is_rejected p E H (Some now) secret = Ok ()" "test_bad_frame_length_is_rejected p E H (Some now) secret = Ok ()"
    "test_zero_frame_length_is_rejected p E H (Some now) secret = Ok ()" "test_tag_count_overflow_is_rejected p E H (Some now) secret = Ok ()"
    "test_all_zeros_is_rejected p E H (Some now) secret = Ok ()" "test_random_garbage_is_rejected p E H (Some now) secret = Ok ()"
    "test_non_monotonic_offsets_is_rejected p E H (Some now) secret = Ok ()" "test_out_of_bounds_offset_is_rejected p E H (Some now) secret = Ok ()"
  unfolding test_bad_magic_is_rejected_def test_bad_frame_length_is_rejected_def test_zero_frame_length_is_rejected_def
    test_tag_count_overflow_is_rejected_def test_all_zeros_is_rejected_def test_random_garbage_is_rejected_def
    test_non_monotonic_offsets_is_rejected_def test_out_of_bounds_offset_is_rejected_def
  by (rule bad_requests_pass [OF assms]; use magic_tests framed_tests in \<open>simp add: REQUEST_SIZE_def\<close>)+

lemma size_tests_pass:
  assumes "ed25519_ok E"
  shows "test_process_runt_requests p E H (Some now) secret = Ok ()" "test_process_jumbo_requests p E H (Some now) secret = Ok ()"
proof -
  obtain q q' where q: "create_request_handler E (Some now) secret = Ok q" "collect_all p H (from_8080 (map runt runt_sizes)) q = Ok q'"
    "num_runt_requests (qh_metrics q') = length (filter (\<lambda>bs. length bs < REQUEST_SIZE) (map runt runt_sizes))"
    "num_ok_requests (qh_metrics q') = length (filter (\<lambda>bs. length bs = REQUEST_SIZE \<and> readable p bs) (map runt runt_sizes))"
    using collected [OF assms, of "map runt runt_sizes" now secret p H] by (auto simp: runt_sizes_def)
  then show "test_process_runt_requests p E H (Some now) secret = Ok ()"
    by (simp add: test_process_runt_requests_def assert_that_def runt_sizes_def REQUEST_SIZE_def)
next
  obtain q q' where q: "create_request_handler E (Some now) secret = Ok q" "collect_all p H (from_8080 (map jumbo jumbo_sizes)) q = Ok q'"
    "num_jumbo_requests (qh_metrics q') = length (filter (\<lambda>bs. REQUEST_SIZE < length bs) (map jumbo jumbo_sizes))"
    "num_ok_requests (qh_metrics q') = length (filter (\<lambda>bs. length bs = REQUEST_SIZE \<and> readable p bs) (map jumbo jumbo_sizes))"
    using collected [OF assms, of "map jumbo jumbo_sizes" now secret p H] by (auto simp: jumbo_sizes_def)
  then show "test_process_jumbo_requests p E H (Some now) secret = Ok ()"
    by (simp add: test_process_jumbo_requests_def assert_that_def jumbo_sizes_def REQUEST_SIZE_def)
qed

text \<open>The valid request of the tests.\<close>

definition test_datagram :: "u8 \<Rightarrow> bytes" where
  "test_datagram b = frame_enc (request_enc (request_new_draft14 (replicate 32 b)))"

lemma test_datagram_ok:
  "as_frame_bytes request_wire_size request_to_wire (request_new_draft14 (replicate 32 b)) = Ok (test_datagram b)"
  "length (test_datagram b) = REQUEST_SIZE" "parse (from_frame (request_from_wire p)) (test_datagram b) = Ok (request_new_draft14 (replicate 32 b))"
  "readable p (test_datagram b)" "create_test_request_bytes b = Ok (test_datagram b)"
proof -
  have v: "request_valid (request_new_draft14 (replicate 32 b))" by (simp add: request_new_valid)
  show f: "as_frame_bytes request_wire_size request_to_wire (request_new_draft14 (replicate 32 b)) = Ok (test_datagram b)"
    using request_message.as_frame_bytes_enc [OF v] by (simp add: test_datagram_def)
  show l: "length (test_datagram b) = REQUEST_SIZE" and "parse (from_frame (request_from_wire p)) (test_datagram b) = Ok (request_new_draft14 (replicate 32 b))"
    using request_frame_ok [OF v] by (simp_all add: test_datagram_def)
  then show "readable p (test_datagram b)" by (simp add: readable_def)
  show "create_test_request_bytes b = Ok (test_datagram b)" using f l by (simp add: create_test_request_bytes_def assert_that_def)
qed

lemma collect_one: "collect_all p H [(bs, src)] q = collect_request p H bs src q"
  by (cases "collect_request p H bs src q") simp_all

lemma metrics_tests_pass:
  assumes "ed25519_ok E"
  shows "test_process_valid_request p E H (Some now) secret = Ok ()" "test_metrics_reset p E H (Some now) secret = Ok ()"
proof -
  obtain q q' where q: "create_request_handler E (Some now) secret = Ok q" "collect_request p H (test_datagram 42) 8080 q = Ok q'"
    "num_ok_requests (qh_metrics q') = 1" "num_bad_requests (qh_metrics q') = 0"
    "num_runt_requests (qh_metrics q') = 0" "num_jumbo_requests (qh_metrics q') = 0"
    using collected [OF assms, of "[test_datagram 42]" now secret p H] test_datagram_ok(2,4)
    by (auto simp: from_8080_def collect_one simp del: collect_all.simps)
  show "test_process_valid_request p E H (Some now) secret = Ok ()"
    using q test_datagram_ok(5) [of 42] by (simp add: test_process_valid_request_def assert_that_def)
  show "test_metrics_reset p E H (Some now) secret = Ok ()" using q test_datagram_ok(5) [of 42]
    by (simp add: test_metrics_reset_def assert_that_def request_handler_reset_metrics_def request_metrics_default_def)
qed

lemma mixed_test_passes:
  assumes "ed25519_ok E"
  shows "test_mixed_valid_and_invalid_requests p E H (Some now) secret = Ok ()"
proof -
  let ?bss = "[test_datagram 1, copy_at 0 NOTVALID zeros, test_datagram 2, replicate 100 0]"
  obtain q q' where q: "create_request_handler E (Some now) secret = Ok q" "collect_all p H (from_8080 ?bss) q = Ok q'"
    "num_runt_requests (qh_metrics q') = length (filter (\<lambda>bs. length bs < REQUEST_SIZE) ?bss)"
    "num_ok_requests (qh_metrics q') = length (filter (\<lambda>bs. length bs = REQUEST_SIZE \<and> readable p bs) ?bss)"
    "num_bad_requests (qh_metrics q') = length (filter (\<lambda>bs. length bs = REQUEST_SIZE \<and> \<not> readable p bs) ?bss)"
    using collected [OF assms, of ?bss now secret p H] by auto
  have "length (copy_at 0 NOTVALID zeros) = REQUEST_SIZE" by (simp add: REQUEST_SIZE_def)
  with q(3-5) have "num_ok_requests (qh_metrics q') = 2" "num_bad_requests (qh_metrics q') = 1" "num_runt_requests (qh_metrics q') = 1"
    using test_datagram_ok(2,4) magic_tests(2) [of p] by (simp_all add: REQUEST_SIZE_def)
  with q(1,2) show ?thesis using test_datagram_ok(1)
    by (simp add: test_mixed_valid_and_invalid_requests_def assert_that_def del: collect_all.simps)
qed

lemma response_tests_pass:
  assumes "ed25519_ok E" "sha512_ok H"
  shows "test_generate_responses p E H (Some now) secret = Ok ()" "test_malformed_requests_generate_no_responses p E H (Some now) secret = Ok ()"
proof -
  obtain q k where q: "create_request_handler E (Some now) secret = Ok q" "rh_inv E H (test_public_key E) [] (qh_responder q)"
    "rh_batch_size (qh_responder q) = 64" "rh_protocol_version (qh_responder q) = RfcDraft14"
    "rh_metrics (qh_responder q) = response_metrics_default" "rh_online_key (qh_responder q) = Draft14Key k" "ok14_clock k = Mock now"
    using handler_made [OF assms(1), of now secret H] by blast
  have serve: "\<exists>q1 outs q2. collect_all p H ds q = Ok q1 \<and> generate_responses p E H (Some now) q1 = Ok (outs, q2) \<and>
      length outs = length (accepted p ds) \<and>
      (\<forall>j<length outs. \<exists>root common. response14_at H root common j (fst (accepted p ds ! j)) (pending_of (accepted p ds ! j)) (outs ! j))"
    if "length ds \<le> 64" for ds
  proof -
    have room: "count_room p (length (accepted p ds)) (rh_metrics (qh_responder q))"
      using that accepted_length [of p ds] by (simp add: q(5) count_room_default)
    have len: "length ds \<le> rh_batch_size (qh_responder q)" using that q(3) by simp
    have clock: "epoch_seconds (Some now) (ok14_clock k) = (Ok now :: (backend_error, u64) outcome)" using q(7) by simp
    from serve_batch14 [OF assms q(2,4,6) len room clock, unfolded Let_def]
    obtain q1 outs q2 common where "collect_all p H ds q = Ok q1" "generate_responses p E H (Some now) q1 = Ok (outs, q2)"
      "length outs = length (accepted p ds)"
      "\<forall>j<length outs. response14_at H (merkle_root_spec H (map (hash_leaf H) (map fst (accepted p ds)))) common j
         (fst (accepted p ds ! j)) (pending_of (accepted p ds ! j)) (outs ! j)"
      by (elim exE conjE)
    then show ?thesis by blast
  qed
  have acc: "accepted p [(test_datagram 42, 8080 :: nat)] = [(test_datagram 42, request_new_draft14 (replicate 32 42), 8080)]"
    using test_datagram_ok(2,3) by simp
  obtain q1 outs q2 where r: "collect_request p H (test_datagram 42) 8080 q = Ok q1" "generate_responses p E H (Some now) q1 = Ok (outs, q2)"
    "length outs = 1" "\<exists>root common. response14_at H root common 0 (test_datagram 42) \<lparr>pr_request = request_new_draft14 (replicate 32 42), pr_src_addr = 8080\<rparr> (outs ! 0)"
    using serve [of "[(test_datagram 42, 8080)]"] acc by (auto simp: collect_one pending_of_def simp del: collect_all.simps accepted.simps)
  then obtain resp where "outs = [(8080, frame_enc (resp_enc resp))]" by (cases outs) (auto simp: response14_at_def)
  with q(1) r test_datagram_ok(5) [of 42] show "test_generate_responses p E H (Some now) secret = Ok ()"
    by (simp add: test_generate_responses_def assert_that_def index_at_def take_frame)
  let ?bad = "from_8080 [copy_at 0 BADMAGIC zeros, replicate 100 0]"
  have "accepted p ?bad = []" using magic_tests(1) by (intro accepted_nil) (simp add: from_8080_def REQUEST_SIZE_def)
  with serve [of ?bad] obtain q1 q2 where "collect_all p H ?bad q = Ok q1" "generate_responses p E H (Some now) q1 = Ok ([], q2)"
    by (auto simp: from_8080_def)
  with q(1) show "test_malformed_requests_generate_no_responses p E H (Some now) secret = Ok ()"
    by (simp add: test_malformed_requests_generate_no_responses_def assert_that_def)
qed

section \<open>Property\<close>

text \<open>C18. Every datagram is counted once, in the class it belongs to: from any state of a request handler and for any datagrams that fit its batch, collecting
  them does not panic, and the four counters grow by the numbers of datagrams that are too short, too long, readable and not
  readable. Exactly the readable ones of 1024 bytes wait for a response, in the order of their arrival. A readable
  datagram starts with the magic, a frame length of at most 1012 and a tag count of 3, 4 or 5, and with 4 tags its first offset is not
  above the second: no other datagram, whatever its bytes, is answered.\<close>

theorem datagrams_classified:
  assumes "rh_inv E H lt_pk leaves (qh_responder q)"
    and "length (rh_requests (qh_responder q)) + length ds \<le> rh_batch_size (qh_responder q)"
  shows "\<exists>q'. collect_all p H ds q = Ok q' \<and>
    num_runt_requests (qh_metrics q') = num_runt_requests (qh_metrics q) + length (filter (\<lambda>d. length (fst d) < REQUEST_SIZE) ds) \<and>
    num_jumbo_requests (qh_metrics q') = num_jumbo_requests (qh_metrics q) + length (filter (\<lambda>d. REQUEST_SIZE < length (fst d)) ds) \<and>
    num_ok_requests (qh_metrics q') = num_ok_requests (qh_metrics q) + length (filter (\<lambda>d. length (fst d) = REQUEST_SIZE \<and> readable p (fst d)) ds) \<and>
    num_bad_requests (qh_metrics q') = num_bad_requests (qh_metrics q) + length (filter (\<lambda>d. length (fst d) = REQUEST_SIZE \<and> \<not> readable p (fst d)) ds) \<and>
    map pr_src_addr (rh_requests (qh_responder q')) = map pr_src_addr (rh_requests (qh_responder q)) @
      map snd (filter (\<lambda>d. length (fst d) = REQUEST_SIZE \<and> readable p (fst d)) ds) \<and>
    (\<forall>bs. readable p bs \<longrightarrow> (\<exists>len n rest. bs = u64_to_be_bytes FRAME_MAGIC @ u32_to_le_bytes len @ u32_to_le_bytes n @ rest \<and>
      MINIMUM_FRAME_SIZE \<le> unat len \<and> unat len \<le> 1012 \<and> n \<in> {3, 4, 5} \<and>
      (n = 4 \<longrightarrow> (\<exists>a b rest'. rest = u32_to_le_bytes a @ u32_to_le_bytes b @ rest' \<and> a \<le> b))))"
proof -
  obtain q' where q': "collect_all p H ds q = Ok q'"
    "rh_requests (qh_responder q') = rh_requests (qh_responder q) @ map pending_of (accepted p ds)"
    using collect_all_ok [OF assms, of p] by blast
  have "map pr_src_addr (rh_requests (qh_responder q')) = map pr_src_addr (rh_requests (qh_responder q)) @
      map snd (filter (\<lambda>d. length (fst d) = REQUEST_SIZE \<and> readable p (fst d)) ds)"
    unfolding q'(2) by (simp add: accepted_sources comp_def)
  with q'(1) collect_all_counts [OF q'(1)] readable_start show ?thesis by blast
qed

theorem datagrams_classified_witness:
  "\<exists>q q'. create_request_handler toy_ed (Some 1000) (replicate 32 2) = Ok q \<and>
     collect_all Debug toy_hash (from_8080 [test_datagram 1, zeros, replicate 100 0]) q = Ok q' \<and>
     num_ok_requests (qh_metrics q') = 1 \<and> num_bad_requests (qh_metrics q') = 1 \<and> num_runt_requests (qh_metrics q') = 1 \<and>
     map pr_src_addr (rh_requests (qh_responder q')) = [8080]"
proof -
  obtain q where q: "create_request_handler toy_ed (Some 1000) (replicate 32 2) = Ok q" "qh_metrics q = request_metrics_default"
    "rh_inv toy_ed toy_hash (test_public_key toy_ed) [] (qh_responder q)" "rh_requests (qh_responder q) = []" "rh_batch_size (qh_responder q) = 64"
    using handler_made [OF toy_ed_ok, of 1000 "replicate 32 2" toy_hash] by blast
  have "readable Debug (test_datagram 1)" "\<not> readable Debug zeros" using test_datagram_ok(4) magic_tests(3) by blast+
  with datagrams_classified [OF q(3), of "from_8080 [test_datagram 1, zeros, replicate 100 0]" Debug] q test_datagram_ok(2) [of 1]
  show ?thesis by (auto simp: from_8080_def request_metrics_default_def REQUEST_SIZE_def)
qed

end
