(* ===== verification/Validator_Tests.thy ===== *)
theory Validator_Tests
  imports Handler_Tests Client "HOL-Library.Sublist"
begin

text \<open>
  The tests of the validator that run against a server (the modules \<^verbatim>\<open>causality\<close> and \<^verbatim>\<open>key_rotation\<close> of
  \<^verbatim>\<open>client/src/validation.rs\<close>). What the random generators fill in is an argument: \<open>secret\<close> for an online key, \<open>val\<close> for a
  nonce. Shown: the causality tests pass, and the tests of key rotation pass exactly when the secrets give different
  public keys, or no signature is forged.
\<close>

section \<open>Causality\<close>

definition create_measurement ::
  "profile \<Rightarrow> ed25519 \<Rightarrow> hash_fn \<Rightarrow> u64 option \<Rightarrow> bytes \<Rightarrow> bytes \<Rightarrow> u64 \<Rightarrow> (backend_error, nat measurement) outcome" where
  "create_measurement p E H sys secret val midp =
     and_then (test_context_new E sys secret 64) (\<lambda>c.
     and_then (create_interaction_pair p E H sys (8080 :: nat) val midp c) (\<lambda>((req, resp), c').
     and_then (ks_public_key (memory_ops E) (tc_key_source c')) (\<lambda>pubkey.
     expect (measurement_build
       (measurement_builder_new\<lparr>mb_server := Some 8000, mb_request := Some req, mb_response := Some resp,
          mb_hostname := Some ''testing1234'', mb_server_key := Some pubkey, mb_prior_response := None, mb_rand_value := None\<rparr>)))))"

text \<open>\<open>vec![create_measurement(...), ...]\<close>, with the random values of each call.\<close>

fun create_measurements ::
  "profile \<Rightarrow> ed25519 \<Rightarrow> hash_fn \<Rightarrow> u64 option \<Rightarrow> (bytes \<times> bytes) list \<Rightarrow> u64 list \<Rightarrow> (backend_error, nat measurement list) outcome" where
  "create_measurements p E H sys ((secret, val) # rnd) (midp # ms) =
     and_then (create_measurement p E H sys secret val midp) (\<lambda>m.
     and_then (create_measurements p E H sys rnd ms) (\<lambda>l. Ok (m # l)))"
| "create_measurements p E H sys _ _ = Ok []"

definition no_violations ::
  "u64 list \<Rightarrow> profile \<Rightarrow> ed25519 \<Rightarrow> hash_fn \<Rightarrow> u64 option \<Rightarrow> (bytes \<times> bytes) list \<Rightarrow> (backend_error, unit) outcome" where
  "no_violations midps p E H sys rnd =
     and_then (create_measurements p E H sys rnd midps) (\<lambda>measurements.
     and_then (validate_causality p measurements) (\<lambda>violations. assert_that (violations = [])))"

definition causality_empty :: "profile \<Rightarrow> ed25519 \<Rightarrow> hash_fn \<Rightarrow> u64 option \<Rightarrow> (bytes \<times> bytes) list \<Rightarrow> (backend_error, unit) outcome" where
  "causality_empty = no_violations []"

definition causality_single :: "profile \<Rightarrow> ed25519 \<Rightarrow> hash_fn \<Rightarrow> u64 option \<Rightarrow> (bytes \<times> bytes) list \<Rightarrow> (backend_error, unit) outcome" where
  "causality_single = no_violations [1000000]"

definition valid_sequence :: "profile \<Rightarrow> ed25519 \<Rightarrow> hash_fn \<Rightarrow> u64 option \<Rightarrow> (bytes \<times> bytes) list \<Rightarrow> (backend_error, unit) outcome" where
  "valid_sequence = no_violations [1000, 2000, 3000]"

definition edge_case :: "profile \<Rightarrow> ed25519 \<Rightarrow> hash_fn \<Rightarrow> u64 option \<Rightarrow> (bytes \<times> bytes) list \<Rightarrow> (backend_error, unit) outcome" where
  "edge_case = no_violations [1000, 990]"

definition invalid_sequence :: "profile \<Rightarrow> ed25519 \<Rightarrow> hash_fn \<Rightarrow> u64 option \<Rightarrow> (bytes \<times> bytes) list \<Rightarrow> (backend_error, unit) outcome" where
  "invalid_sequence p E H sys rnd =
     and_then (create_measurements p E H sys rnd [2000, 1000]) (\<lambda>measurements.
     and_then (validate_causality p measurements) (\<lambda>violations.
     and_then (assert_that (violations \<noteq> [] \<and> length violations = 1)) (\<lambda>_.
     and_then (index_at violations 0) (\<lambda>v.
     assert_that (cv_lower_bound_i v = 1995 \<and> cv_upper_bound_j v = 1005)))))"

definition multiple_violations :: "profile \<Rightarrow> ed25519 \<Rightarrow> hash_fn \<Rightarrow> u64 option \<Rightarrow> (bytes \<times> bytes) list \<Rightarrow> (backend_error, unit) outcome" where
  "multiple_violations p E H sys rnd =
     and_then (create_measurements p E H sys rnd [3000, 1000, 1005]) (\<lambda>measurements.
     and_then (validate_causality p measurements) (\<lambda>violations.
     and_then (assert_that (violations \<noteq> [] \<and> length violations = 2)) (\<lambda>_.
     and_then (index_at violations 0) (\<lambda>v.
     and_then (assert_that (cv_lower_bound_i v = 2995 \<and> cv_upper_bound_j v = 1005)) (\<lambda>_.
     and_then (index_at violations 1) (\<lambda>v.
     assert_that (cv_lower_bound_i v = 2995 \<and> cv_upper_bound_j v = 1010)))))))"

section \<open>Key rotation\<close>

text \<open>\<open>ctx.clock.set_time\<close>: the clock of the context is that of its handler and key source.\<close>

definition tc_set_time :: "u64 \<Rightarrow> 'addr test_context \<Rightarrow> (backend_error, 'addr test_context) outcome" where
  "tc_set_time t c =
     and_then (set_time t (tc_clock c)) (\<lambda>clock.
     let h = handler_with_clock clock (tc_response_handler c) in
     Ok (c\<lparr>tc_clock := clock, tc_response_handler := h, tc_key_source := rh_key_source h\<rparr>))"

text \<open>What the three tests begin with: a context of short validity, the validator for its public key and the start time.\<close>

definition rotation_start ::
  "ed25519 \<Rightarrow> u64 option \<Rightarrow> bytes \<Rightarrow> u64 \<Rightarrow> (backend_error, nat test_context \<times> response_validator \<times> u64) outcome" where
  "rotation_start E sys secret secs =
     and_then (with_key_validity E sys secret 64 \<lparr>dur_secs = secs, dur_nanos = 0\<rparr>) (\<lambda>ctx.
     and_then (ks_public_key (memory_ops E) (tc_key_source ctx)) (\<lambda>long_term_pubkey.
     and_then (validator_new_with_key long_term_pubkey) (\<lambda>validator.
     and_then (epoch_seconds sys (tc_clock ctx)) (\<lambda>start_time.
     Ok (ctx, validator, start_time)))))"

definition framed_pair ::
  "profile \<Rightarrow> ed25519 \<Rightarrow> hash_fn \<Rightarrow> u64 option \<Rightarrow> bytes \<Rightarrow> u64 \<Rightarrow> nat test_context \<Rightarrow>
     (backend_error, (bytes \<times> response \<times> bytes) \<times> nat test_context) outcome" where
  "framed_pair p E H sys val midp ctx =
     and_then (create_interaction_pair_with_bytes p E H sys 8080 val midp ctx) (\<lambda>((req, resp, response_bytes), ctx').
     and_then (expect (as_frame_bytes request_wire_size request_to_wire req)) (\<lambda>request_bytes.
     Ok ((request_bytes, resp, response_bytes), ctx')))"

definition client_validates_across_key_rotation ::
  "profile \<Rightarrow> ed25519 \<Rightarrow> hash_fn \<Rightarrow> u64 option \<Rightarrow> bytes \<Rightarrow> bytes \<Rightarrow> bytes \<Rightarrow> bytes \<Rightarrow> (backend_error, unit) outcome" where
  "client_validates_across_key_rotation p E H sys secret1 secret2 val1 val2 =
     and_then (rotation_start E sys secret1 60) (\<lambda>(ctx, validator, start_time).
     and_then (framed_pair p E H sys val1 start_time ctx) (\<lambda>((request1_bytes, response1, response1_bytes), ctx1).
     and_then (expect (validate_draft14 E H validator request1_bytes response1 response1_bytes)) (\<lambda>_.
     and_then (add_word p start_time 61) (\<lambda>rotated_time.
     and_then (tc_set_time rotated_time ctx1) (\<lambda>ctx2.
     and_then (rotate_key E sys secret2 ctx2) (\<lambda>ctx3.
     and_then (framed_pair p E H sys val2 rotated_time ctx3) (\<lambda>((request2_bytes, response2, response2_bytes), _).
     let dele1 = cert_delegation (resp_cert response1); dele2 = cert_delegation (resp_cert response2) in
     and_then (assert_that (dele_public_key dele1 \<noteq> dele_public_key dele2)) (\<lambda>_.
     and_then (expect (validate_draft14 E H validator request2_bytes response2 response2_bytes)) (\<lambda>_.
     and_then (assert_that (cert_signature (resp_cert response1) = cert_signature (resp_cert response1))) (\<lambda>_.
     and_then (assert_that (dele_min_time dele1 \<noteq> dele_min_time dele2)) (\<lambda>_.
     assert_that (dele_max_time dele1 \<noteq> dele_max_time dele2))))))))))))"

fun assert_bad_signature :: "string \<Rightarrow> (validation_error, 'a) outcome \<Rightarrow> (backend_error, unit) outcome" where
  "assert_bad_signature part (Err (BadSignature msg)) = assert_that (sublist part msg)"
| "assert_bad_signature part _ = Panic"

definition extended_dele_is_rejected ::
  "profile \<Rightarrow> ed25519 \<Rightarrow> hash_fn \<Rightarrow> u64 option \<Rightarrow> bytes \<Rightarrow> bytes \<Rightarrow> (backend_error, unit) outcome" where
  "extended_dele_is_rejected p E H sys secret val =
     and_then (rotation_start E sys secret 60) (\<lambda>(ctx, validator, start_time).
     and_then (framed_pair p E H sys val start_time ctx) (\<lambda>((request_bytes, resp, response_bytes), _).
     and_then (expect (validate_draft14 E H validator request_bytes resp response_bytes)) (\<lambda>_.
     and_then (add_word p start_time 9999) (\<lambda>t.
     let cert = resp_cert resp; dele = dele_set_maxt t (cert_delegation cert);
         modified_response = resp_set_cert (cert_set_dele dele cert) resp in
     assert_bad_signature ''DELE'' (validate_draft14 E H validator request_bytes modified_response response_bytes)))))"

text \<open>One round for each pair of random values; \<open>i\<close> counts the rounds, and \<open>i * 11\<close> is far from overflowing.\<close>

fun rapid_rounds ::
  "profile \<Rightarrow> ed25519 \<Rightarrow> hash_fn \<Rightarrow> u64 option \<Rightarrow> response_validator \<Rightarrow> u64 \<Rightarrow> (bytes \<times> bytes) list \<Rightarrow> nat \<Rightarrow> nat test_context \<Rightarrow>
     public_key set \<Rightarrow> (backend_error, public_key set) outcome" where
  "rapid_rounds p E H sys validator start_time [] i ctx seen_online_keys = Ok seen_online_keys"
| "rapid_rounds p E H sys validator start_time ((secret, val) # rnd) i ctx seen_online_keys =
     and_then (add_word p start_time (of_nat (i * 11))) (\<lambda>time.
     and_then (tc_set_time time ctx) (\<lambda>ctx1.
     and_then (rotate_key E sys secret ctx1) (\<lambda>ctx2.
     and_then (framed_pair p E H sys val time ctx2) (\<lambda>((request_bytes, resp, response_bytes), ctx3).
     and_then (expect (validate_draft14 E H validator request_bytes resp response_bytes)) (\<lambda>_.
     rapid_rounds p E H sys validator start_time rnd (Suc i) ctx3
       (insert (dele_public_key (cert_delegation (resp_cert resp))) seen_online_keys))))))"

definition rapid_key_rotation_sequence ::
  "profile \<Rightarrow> ed25519 \<Rightarrow> hash_fn \<Rightarrow> u64 option \<Rightarrow> bytes \<Rightarrow> (bytes \<times> bytes) list \<Rightarrow> (backend_error, unit) outcome" where
  "rapid_key_rotation_sequence p E H sys secret rnd =
     and_then (rotation_start E sys secret 10) (\<lambda>(ctx, validator, start_time).
     and_then (rapid_rounds p E H sys validator start_time rnd 0 ctx {}) (\<lambda>seen_online_keys.
     assert_that (card seen_online_keys \<ge> 2)))"

section \<open>The context in the tests\<close>

lemma tc_made:
  assumes E: "ed25519_ok E" and v: "dur_secs v \<noteq> 0"
  shows "\<exists>c :: 'addr test_context. with_key_validity E (Some now) secret 64 v = Ok c \<and> tc_inv E H c \<and> tc_clock c = Mock now \<and>
    tc_delegation c = dele_new (ed_public E secret) now (dur_secs v) \<and> ks_validity_length (rh_key_source (tc_response_handler c)) = v \<and>
    (\<forall>p. tc_room p 255 c) \<and> ks_public_key (memory_ops E) (tc_key_source c) = Ok (test_public_key E)"
proof -
  obtain seed where s: "mb_from_value E (replicate 32 42) = Ok seed" "mb_ok E seed" "mb_pk E seed = test_public_key E"
    using mb_from_value_ok [OF E, of "replicate 32 42"] by (auto simp: test_public_key_def)
  let ?ks = "\<lparr>ks_identity = \<lparr>id_seed = seed, id_version = RfcDraft14\<rparr>, ks_validity_length = v, ks_clock_source = Mock now\<rparr>"
  have ks: "ks_inv (mb_ok E) (mb_pk E) (test_public_key E) RfcDraft14 ?ks" using s v by (simp add: ks_inv_def)
  obtain h :: "(memory_backend, 'addr) response_handler" where h:
    "response_handler_new E (memory_ops E) (Some now) secret 64 ?ks RfcDraft14 = Ok h" "rh_inv E H (test_public_key E) [] h"
    "ks_inv (mb_ok E) (mb_pk E) (test_public_key E) RfcDraft14 (rh_key_source h)" "ks_clock_source (rh_key_source h) = Mock now"
    "ks_validity_length (rh_key_source h) = v" "key_clock (rh_online_key h) = Mock now"
    "rh_batch_size h = 64" "rh_protocol_version h = RfcDraft14" "rh_requests h = []" "rh_metrics h = response_metrics_default"
    "cert_delegation (key_cert (rh_online_key h)) = dele_new (ed_public E secret) now (dur_secs v)"
    using memory_seed.response_handler_new_ok [OF E ks, of 64 "Some now" now secret H] by auto
  let ?c = "\<lparr>tc_batch_size = 64, tc_clock = Mock now, tc_response_handler = h, tc_key_source = rh_key_source h\<rparr>"
  have "with_key_validity E (Some now) secret 64 v = Ok ?c" using s v h(1) memory_seed.backend_len [of E seed]
    by (simp add: with_key_validity_def key_source_new_def identity_new_def system_seconds_def Let_def)
  moreover have "tc_inv E H ?c" using h by (simp add: tc_inv_def)
  moreover have "tc_room p 255 ?c" for p using h(10) by (simp add: tc_room_def response_metrics_default_def MAX_BATCH_SIZE_def)
  ultimately show ?thesis using h(5,11) ks_inv_public_key [OF h(3)] by (intro exI [of _ ?c]) (simp add: tc_delegation_def)
qed

lemma rotation_started:
  assumes "ed25519_ok E" "secs \<noteq> 0"
  obtains ctx where "rotation_start E (Some now) secret secs = Ok (ctx, Some (test_public_key E), now)" "tc_inv E H ctx"
    "tc_delegation ctx = dele_new (ed_public E secret) now secs" "dur_secs (ks_validity_length (rh_key_source (tc_response_handler ctx))) = secs"
    "\<forall>p. tc_room p 255 ctx"
proof -
  let ?v = "\<lparr>dur_secs = secs, dur_nanos = 0\<rparr>"
  obtain c :: "nat test_context" where c: "with_key_validity E (Some now) secret 64 ?v = Ok c" "tc_inv E H c" "tc_clock c = Mock now"
    "tc_delegation c = dele_new (ed_public E secret) now secs" "ks_validity_length (rh_key_source (tc_response_handler c)) = ?v"
    "\<forall>p. tc_room p 255 c" "ks_public_key (memory_ops E) (tc_key_source c) = Ok (test_public_key E)"
    using tc_made [OF assms(1), of ?v now secret H, where 'addr = nat] assms(2) by auto
  show thesis using c test_public_key_length [OF assms(1)]
    by (intro that [of c]) (simp_all add: rotation_start_def validator_new_with_key_def copy_array_def)
qed

text \<open>Moving the clock and rotating: the new delegation starts at the new time.\<close>

lemma rotated:
  assumes E: "ed25519_ok E" and c: "tc_inv E H c"
  obtains c1 c2 where "tc_set_time t c = Ok c1" "rotate_key E sys secret c1 = Ok c2" "tc_inv E H c2" "\<forall>p k. tc_room p k c2 \<longleftrightarrow> tc_room p k c"
    "tc_delegation c2 = dele_new (ed_public E secret) t (dur_secs (ks_validity_length (rh_key_source (tc_response_handler c))))"
    "ks_validity_length (rh_key_source (tc_response_handler c2)) = ks_validity_length (rh_key_source (tc_response_handler c))"
proof -
  let ?h = "handler_with_clock (Mock t) (tc_response_handler c)"
  let ?c1 = "c\<lparr>tc_clock := Mock t, tc_response_handler := ?h, tc_key_source := rh_key_source ?h\<rparr>"
  have c1: "tc_set_time t c = Ok ?c1" using c by (auto simp: tc_inv_def tc_set_time_def Let_def)
  have inv1: "tc_inv E H ?c1" using c by (simp add: tc_inv_def Let_def with_clock_inv)
  have ks: "ks_inv (mb_ok E) (mb_pk E) (test_public_key E) (rh_protocol_version ?h) (rh_key_source ?h)"
    "epoch_seconds sys (ks_clock_source (rh_key_source ?h)) = (Ok t :: (backend_error, u64) outcome)"
    "rh_inv E H (test_public_key E) [] ?h" using c by (simp_all add: tc_inv_def Let_def with_clock_inv)
  obtain h where h: "replace_online_key E (memory_ops E) sys secret ?h = Ok h" "rh_metrics h = rh_metrics ?h"
    "ks_validity_length (rh_key_source h) = ks_validity_length (rh_key_source ?h)"
    "cert_delegation (key_cert (rh_online_key h)) = dele_new (ed_public E secret) t (dur_secs (ks_validity_length (rh_key_source ?h)))"
    using memory_seed.replace_online_key_ok [OF E ks, of secret] by blast
  let ?c2 = "?c1\<lparr>tc_response_handler := h, tc_key_source := rh_key_source h\<rparr>"
  have c2: "rotate_key E sys secret ?c1 = Ok ?c2" using h(1) by (simp add: rotate_key_def)
  moreover have "tc_inv E H ?c2" using rotate_key_inv [OF E inv1, of sys secret] c2 by simp
  ultimately show thesis using c1 h(2-4)
    by (intro that [of ?c1 ?c2]) (simp_all add: tc_room_def tc_delegation_def handler_with_clock_def)
qed

lemma framed_pair_made:
  assumes "ed25519_ok E" "sha512_ok H" "tc_inv E H c" "length val = 32" and d: "tc_delegation c = dele_new pk midp v" and room: "tc_room p (Suc k) c"
  obtains resp bs c' where "framed_pair p E H sys val midp c = Ok ((frame_enc (request_enc (request_new_draft14 val)), resp, bs), c')"
    "tc_inv E H c'" "tc_room p k c'"
    "ks_validity_length (rh_key_source (tc_response_handler c')) = ks_validity_length (rh_key_source (tc_response_handler c))"
    "resp_ok resp" "cert_delegation (resp_cert resp) = tc_delegation c" "srep_version (resp_srep resp) = RfcDraft14"
    "validate_draft14 E H (Some (test_public_key E)) (frame_enc (request_enc (request_new_draft14 val))) resp bs = Ok midp"
proof -
  obtain resp bs c' where x: "create_interaction_pair_with_nonce_and_bytes p E H sys 8080 midp val c = Ok ((request_new_draft14 val, resp, bs), c')"
    "tc_inv E H c'" "tc_room p k c'"
    "ks_validity_length (rh_key_source (tc_response_handler c')) = ks_validity_length (rh_key_source (tc_response_handler c))"
    "resp_ok resp" "cert_delegation (resp_cert resp) = tc_delegation c" "srep_version (resp_srep resp) = RfcDraft14"
    "\<forall>t. validate_draft14 E H (Some (test_public_key E)) (frame_enc (request_enc (request_new_draft14 val))) resp bs = Ok t \<longleftrightarrow>
       t = midp \<and> dele_min_time (tc_delegation c) \<le> midp \<and> midp \<le> dele_max_time (tc_delegation c)"
    using pair_made_full [OF assms(1-4) room, of sys 8080 midp] by (elim exE conjE)
  have "request_valid (request_new_draft14 val)" using assms(4) by (rule request_new_valid)
  note fb = request_message.as_frame_bytes_enc [OF this]
  show thesis using x fb dele_new_times [where now = midp and v = v and pk = pk] d by (intro that [of resp bs c']) (simp_all add: framed_pair_def create_interaction_pair_with_bytes_def)
qed

section \<open>The causality tests pass\<close>

lemma measurement_made:
  assumes "ed25519_ok E" "sha512_ok H" "length val = 32"
  shows "\<exists>m. create_measurement p E H (Some now) secret val midp = Ok m \<and> midpoint m = midp \<and> radius m = 5"
proof -
  let ?v = "\<lparr>dur_secs = 8000000, dur_nanos = 0\<rparr>"
  obtain c :: "nat test_context" where c: "with_key_validity E (Some now) secret 64 ?v = Ok c" "tc_inv E H c" "\<forall>p. tc_room p 255 c"
    using tc_made [OF assms(1), of ?v now secret H, where 'addr = nat] by auto
  have "tc_room p (Suc 254) c" using c(3) by simp
  from pair_made_full [OF assms(1,2) c(2) assms(3) this, of "Some now" 8080 midp] obtain resp bs c' where
    x: "create_interaction_pair_with_nonce_and_bytes p E H (Some now) 8080 midp val c = Ok ((request_new_draft14 val, resp, bs), c')"
    "tc_inv E H c'" "srep_midpoint (resp_srep resp) = midp" "srep_radius (resp_srep resp) = DEFAULT_RADI_SECONDS" by (elim exE conjE)
  have ks: "tc_key_source c' = rh_key_source (tc_response_handler c')"
    using x(1) by (auto simp: create_interaction_pair_with_nonce_and_bytes_def and_then_Ok_iff Let_def split: if_splits)
  have "ks_public_key (memory_ops E) (tc_key_source c') = Ok (test_public_key E)"
    using x(2) unfolding ks by (intro ks_inv_public_key [where v = RfcDraft14]) (simp add: tc_inv_def Let_def)
  with c(1) x show ?thesis
    by (simp add: create_measurement_def test_context_new_def create_interaction_pair_def create_interaction_pair_with_bytes_def
        measurement_build_def measurement_builder_new_def ok_or_def midpoint_def radius_def DEFAULT_RADI_SECONDS_def)
qed

lemma measurements_made:
  assumes "ed25519_ok E" "sha512_ok H" "\<forall>(secret, val)\<in>set rnd. length val = 32" "length rnd = length midps"
  shows "\<exists>ms. create_measurements p E H (Some now) rnd midps = Ok ms \<and> map midpoint ms = midps \<and> list_all (\<lambda>m. radius m = 5) ms"
  using assms(4,3)
proof (induction rnd midps rule: list_induct2)
  case (Cons r rnd midp midps)
  obtain secret val where r: "r = (secret, val)" by (cases r)
  obtain m where "create_measurement p E H (Some now) secret val midp = Ok m" "midpoint m = midp" "radius m = 5"
    using measurement_made [OF assms(1,2), of val p now secret midp] Cons.prems r by auto
  with Cons r show ?case by auto
qed simp

text \<open>The violations of measurements with given midpoints and radius 5.\<close>

lemma ordered_pairs_map: "ordered_pairs (map f xs) = map (\<lambda>(a, b). (f a, f b)) (ordered_pairs xs)"
  by (induction xs) auto

lemma ordered_pairs_in: "(a, b) \<in> set (ordered_pairs xs) \<Longrightarrow> a \<in> set xs \<and> b \<in> set xs"
  by (induction xs) auto

lemma causality_run:
  assumes "ed25519_ok E" "sha512_ok H" "\<forall>(secret, val)\<in>set rnd. length val = 32" "length rnd = length midps"
    and b: "\<forall>t\<in>set midps. 5 \<le> unat t \<and> unat t + 5 < 2 ^ 64"
  obtains ms vs where "create_measurements p E H (Some now) rnd midps = Ok ms" "validate_causality p ms = (Ok vs :: (backend_error, _) outcome)"
    "map (\<lambda>v. (cv_lower_bound_i v, cv_upper_bound_j v)) vs
       = map (\<lambda>(a, b). (a - 5, b + 5)) (filter (\<lambda>(a, b). unat b + 5 < unat a - 5) (ordered_pairs midps))"
proof -
  obtain ms where ms: "create_measurements p E H (Some now) rnd midps = Ok ms" "map midpoint ms = midps" "list_all (\<lambda>m. radius m = 5) ms"
    using measurements_made [OF assms(1-4)] by blast
  let ?vs = "map (\<lambda>(mi, mj). violation_of mi mj) (filter (\<lambda>(mi, mj). violates mi mj) (ordered_pairs ms))"
  have m: "radius m = 5" "5 \<le> unat (midpoint m)" "bounds_ok m" if "m \<in> set ms" for m
    using b ms(3) that by (auto simp: bounds_ok_def list_all_iff simp flip: ms(2))
  have viol: "violates mi mj \<longleftrightarrow> unat (midpoint mj) + 5 < unat (midpoint mi) - 5" if "mi \<in> set ms" "mj \<in> set ms" for mi mj
  proof -
    have "violates mi mj \<longleftrightarrow> int (unat (midpoint mi)) - 5 > int (unat (midpoint mj)) + 5" unfolding violates_def m(1) [OF that(1)] m(1) [OF that(2)] by simp
    then show ?thesis using m(2) [OF that(1)] by linarith
  qed
  have "filter (\<lambda>(mi, mj). violates mi mj) (ordered_pairs ms) = filter (\<lambda>(mi, mj). unat (midpoint mj) + 5 < unat (midpoint mi) - 5) (ordered_pairs ms)"
    using viol by (intro filter_cong) (auto dest!: ordered_pairs_in)
  then have "map (\<lambda>v. (cv_lower_bound_i v, cv_upper_bound_j v)) ?vs
       = map (\<lambda>(a, b). (a - 5, b + 5)) (filter (\<lambda>(a, b). unat b + 5 < unat a - 5) (ordered_pairs midps))"
    using m(1) unfolding ms(2) [symmetric] ordered_pairs_map
    by (auto simp: violation_of_def filter_map o_def split_def dest!: ordered_pairs_in)
  then show thesis using ms(1) validate_causality_run [of ms p] m(3) by (intro that [of ms ?vs]) simp_all
qed

lemma causality_tests_pass:
  assumes "ed25519_ok E" "sha512_ok H" "\<forall>(secret, val)\<in>set [r1, r2, r3]. length val = 32"
  shows "causality_empty p E H (Some now) [] = Ok ()" "causality_single p E H (Some now) [r1] = Ok ()"
    "valid_sequence p E H (Some now) [r1, r2, r3] = Ok ()" "edge_case p E H (Some now) [r1, r2] = Ok ()"
    "invalid_sequence p E H (Some now) [r1, r2] = Ok ()" "multiple_violations p E H (Some now) [r1, r2, r3] = Ok ()"
proof -
  have none: "no_violations midps p E H (Some now) rnd = Ok ()"
    if a: "\<forall>(secret, val)\<in>set rnd. length val = 32" "length rnd = length midps" "\<forall>t\<in>set midps. 5 \<le> unat t \<and> unat t + 5 < 2 ^ 64"
      "filter (\<lambda>(a, b). unat b + 5 < unat a - 5) (ordered_pairs midps) = []" for midps rnd
  proof -
    obtain ms vs where "create_measurements p E H (Some now) rnd midps = Ok ms" "validate_causality p ms = (Ok vs :: (backend_error, _) outcome)"
      "map (\<lambda>v. (cv_lower_bound_i v, cv_upper_bound_j v)) vs = map (\<lambda>(a, b). (a - 5, b + 5)) (filter (\<lambda>(a, b). unat b + 5 < unat a - 5) (ordered_pairs midps))"
      by (rule causality_run [OF assms(1,2) a(1-3)])
    with a(4) show ?thesis by (simp add: no_violations_def assert_that_def)
  qed
  show "causality_empty p E H (Some now) [] = Ok ()" "causality_single p E H (Some now) [r1] = Ok ()"
    "valid_sequence p E H (Some now) [r1, r2, r3] = Ok ()" "edge_case p E H (Some now) [r1, r2] = Ok ()"
    unfolding causality_empty_def causality_single_def valid_sequence_def edge_case_def using assms(3) by (simp_all add: none)
  obtain ms vs where "create_measurements p E H (Some now) [r1, r2] [2000, 1000] = Ok ms" "validate_causality p ms = (Ok vs :: (backend_error, _) outcome)"
    "map (\<lambda>v. (cv_lower_bound_i v, cv_upper_bound_j v)) vs = [(1995, 1005)]"
    by (rule causality_run [OF assms(1,2), of "[r1, r2]" "[2000, 1000]" p now]) (use assms(3) in simp_all)
  then show "invalid_sequence p E H (Some now) [r1, r2] = Ok ()"
    by (auto simp: invalid_sequence_def map_eq_Cons_conv assert_that_def index_at_def)
  obtain ms vs where "create_measurements p E H (Some now) [r1, r2, r3] [3000, 1000, 1005] = Ok ms" "validate_causality p ms = (Ok vs :: (backend_error, _) outcome)"
    "map (\<lambda>v. (cv_lower_bound_i v, cv_upper_bound_j v)) vs = [(2995, 1005), (2995, 1010)]"
    by (rule causality_run [OF assms(1,2), of "[r1, r2, r3]" "[3000, 1000, 1005]" p now]) (use assms(3) in simp_all)
  then show "multiple_violations p E H (Some now) [r1, r2, r3] = Ok ()"
    by (auto simp: multiple_violations_def map_eq_Cons_conv assert_that_def index_at_def)
qed

section \<open>The tests of key rotation\<close>

lemma dele_new_public_key: "dele_public_key (dele_new pk now v) = pk"
  by (simp add: dele_new_def)

lemma rotated_times:
  assumes "unat (now :: u64) + 61 < 2 ^ 64"
  shows "now \<noteq> now + 61" "saturating_add now 60 \<noteq> saturating_add (now + 61) 60"
proof -
  have u: "unat (now + 61) = unat now + 61" "unat (now + 60) = unat now + 60" using assms by (simp_all add: unat_word_ariths)
  then show "now \<noteq> now + 61" by auto
  have "unat (saturating_add now 60) = unat now + 60" using assms by (simp add: saturating_add_def unat_word_ariths)
  moreover have "unat now + 61 \<le> unat (saturating_add (now + 61) 60)"
    using saturating_add_ge [of "now + 61" 60] u(1) by (simp add: word_le_nat_alt)
  ultimately show "saturating_add now 60 \<noteq> saturating_add (now + 61) 60" by auto
qed

lemma across_rotation_exact:
  assumes E: "ed25519_ok E" and H: "sha512_ok H" and val: "length val1 = 32" "length val2 = 32" and now: "unat now + 61 < 2 ^ 64"
  shows "client_validates_across_key_rotation p E H (Some now) secret1 secret2 val1 val2 = Ok () \<longleftrightarrow> ed_public E secret1 \<noteq> ed_public E secret2"
proof -
  have z: "(60 :: u64) \<noteq> 0" by simp
  obtain c where c: "rotation_start E (Some now) secret1 60 = Ok (c, Some (test_public_key E), now)" "tc_inv E H c"
    "tc_delegation c = dele_new (ed_public E secret1) now 60" "dur_secs (ks_validity_length (rh_key_source (tc_response_handler c))) = 60"
    and room: "\<forall>p. tc_room p 255 c" by (rule rotation_started [OF E z])
  have "tc_room p (Suc 254) c" using room by simp
  then obtain r1 bs1 c1 where r1: "framed_pair p E H (Some now) val1 now c = Ok ((frame_enc (request_enc (request_new_draft14 val1)), r1, bs1), c1)"
    "tc_inv E H c1" "tc_room p 254 c1"
    "ks_validity_length (rh_key_source (tc_response_handler c1)) = ks_validity_length (rh_key_source (tc_response_handler c))"
    "cert_delegation (resp_cert r1) = tc_delegation c"
    "validate_draft14 E H (Some (test_public_key E)) (frame_enc (request_enc (request_new_draft14 val1))) r1 bs1 = Ok now"
    by (rule framed_pair_made [OF E H c(2) val(1) c(3)])
  obtain c2 c3 where c3: "tc_set_time (now + 61) c1 = Ok c2" "rotate_key E (Some now) secret2 c2 = Ok c3" "tc_inv E H c3" "\<forall>p k. tc_room p k c3 \<longleftrightarrow> tc_room p k c1"
    "tc_delegation c3 = dele_new (ed_public E secret2) (now + 61) (dur_secs (ks_validity_length (rh_key_source (tc_response_handler c1))))"
    by (rule rotated [OF E r1(2)])
  have d: "tc_delegation c3 = dele_new (ed_public E secret2) (now + 61) 60" using c3(5) r1(4) c(4) by simp
  have "tc_room p (Suc 253) c3" using r1(3) c3(4) by simp
  then obtain r2 bs2 c4 where r2: "framed_pair p E H (Some now) val2 (now + 61) c3 = Ok ((frame_enc (request_enc (request_new_draft14 val2)), r2, bs2), c4)"
    "cert_delegation (resp_cert r2) = tc_delegation c3"
    "validate_draft14 E H (Some (test_public_key E)) (frame_enc (request_enc (request_new_draft14 val2))) r2 bs2 = Ok (now + 61)"
    by (rule framed_pair_made [OF E H c3(3) val(2) d])
  have w: "add_word p now 61 = (Ok (now + 61) :: (backend_error, u64) outcome)" using now by (simp add: add_word_def)
  show ?thesis unfolding client_validates_across_key_rotation_def
    using c(1) r1(1,5,6) c3(1,2) r2 w c(3) d rotated_times [OF now]
    by (simp add: Let_def assert_that_def dele_new_def)
qed

text \<open>Only the check of the delegation mentions it.\<close>

lemma bad_dele_iff:
  assumes "header_accepted 7 (resp_header r)" "cert_valid (resp_cert r)"
  shows "assert_bad_signature ''DELE'' (validate_draft14 E H (Some pk) req r bs) = Ok () \<longleftrightarrow>
    \<not> ed_verify E pk (dele_prefix (srep_version (resp_srep r)) @ dele_enc (cert_delegation (resp_cert r))) (cert_signature (resp_cert r))"
proof -
  have msg: "sublist ''DELE'' ''signature on DELE is invalid''" "\<not> sublist ''DELE'' ''signature on SREP is invalid''"
    "\<not> sublist ''DELE'' ''SREP offset extends beyond response bytes''" by code_simp+
  show ?thesis using assms msg
    by (auto simp: validate_draft14_def check_dele_run check_srep14_run check_vers_contains_ver_def check_midpoint_inner_def
      check_radius_def check_merkle_proof_draft14_def check_merkle_proof_inner_def verify_srep_signature_def Let_def assert_that_def)
qed

lemma extended_dele_exact:
  assumes E: "ed25519_ok E" and H: "sha512_ok H" and val: "length val = 32" and now: "unat now + 9999 < 2 ^ 64"
  shows "\<exists>sg. let pk = test_public_key E; d = dele_new (ed_public E secret) now 60 in
    ed_verify E pk (dele_prefix RfcDraft14 @ dele_enc d) sg \<and>
    (extended_dele_is_rejected p E H (Some now) secret val = Ok () \<longleftrightarrow>
     \<not> ed_verify E pk (dele_prefix RfcDraft14 @ dele_enc (dele_set_maxt (now + 9999) d)) sg)"
proof -
  let ?d = "dele_new (ed_public E secret) now 60" and ?pk = "test_public_key E"
  have z: "(60 :: u64) \<noteq> 0" by simp
  obtain c where c: "rotation_start E (Some now) secret 60 = Ok (c, Some ?pk, now)" "tc_inv E H c"
    "tc_delegation c = ?d" and room: "\<forall>p. tc_room p 255 c" by (rule rotation_started [OF E z])
  have "tc_room p (Suc 254) c" using room by simp
  then obtain r bs c1 where r: "framed_pair p E H (Some now) val now c = Ok ((frame_enc (request_enc (request_new_draft14 val)), r, bs), c1)"
    "resp_ok r" "cert_delegation (resp_cert r) = tc_delegation c" "srep_version (resp_srep r) = RfcDraft14"
    and v: "validate_draft14 E H (Some ?pk) (frame_enc (request_enc (request_new_draft14 val))) r bs = Ok now"
    by (rule framed_pair_made [OF E H c(2) val c(3)])
  have cv: "cert_valid (resp_cert r)" using r(2) by (simp add: resp_ok_def resp_fields_ok_def)
  let ?cert = "cert_set_dele (dele_set_maxt (now + 9999) ?d) (resp_cert r)"
  have cv': "cert_valid ?cert" using cv r(3) c(3) by (simp add: cert_valid_def cert_set_dele_def dele_set_maxt_def dele_valid_def)
  note r' = resp_ok_setters(4) [OF r(2) cv']
  have f: "resp_cert (resp_set_cert ?cert r) = ?cert" "srep_version (resp_srep (resp_set_cert ?cert r)) = RfcDraft14"
    using r(4) by (simp_all add: resp_set_cert_def)
  have w: "add_word p now 9999 = (Ok (now + 9999) :: (backend_error, u64) outcome)" using now by (simp add: add_word_def)
  have "extended_dele_is_rejected p E H (Some now) secret val =
      assert_bad_signature ''DELE'' (validate_draft14 E H (Some ?pk) (frame_enc (request_enc (request_new_draft14 val))) (resp_set_cert ?cert r) bs)"
    using c(1,3) r(1,3) v w by (simp add: extended_dele_is_rejected_def Let_def)
  also have "\<dots> = Ok () \<longleftrightarrow> \<not> ed_verify E ?pk (dele_prefix RfcDraft14 @ dele_enc (dele_set_maxt (now + 9999) ?d)) (cert_signature (resp_cert r))"
    using bad_dele_iff [OF resp_ok_header(1) [OF r'], of E H ?pk "frame_enc (request_enc (request_new_draft14 val))" bs] cv' f
    by (simp add: cert_set_dele_def)
  finally have "extended_dele_is_rejected p E H (Some now) secret val = Ok () \<longleftrightarrow> \<not> ed_verify E ?pk
      (dele_prefix RfcDraft14 @ dele_enc (dele_set_maxt (now + 9999) ?d)) (cert_signature (resp_cert r))" .
  moreover have "ed_verify E ?pk (dele_prefix RfcDraft14 @ dele_enc ?d) (cert_signature (resp_cert r))"
    using v [unfolded validate14_iff(1) [OF resp_ok_header(1) [OF r(2)] cv] Let_def r(3,4) c(3)] by blast
  ultimately show ?thesis unfolding Let_def by blast
qed

lemma rapid_rounds_run:
  assumes E: "ed25519_ok E" and H: "sha512_ok H"
  shows "tc_inv E H c \<Longrightarrow> tc_room p (length rnd) c \<Longrightarrow> \<forall>(secret, val)\<in>set rnd. length val = 32 \<Longrightarrow> unat now + (i + length rnd) * 11 < 2 ^ 64 \<Longrightarrow>
    rapid_rounds p E H (Some now) (Some (test_public_key E)) now rnd i c seen = Ok (seen \<union> set (map (ed_public E \<circ> fst) rnd))"
proof (induction rnd arbitrary: i c seen)
  case (Cons x rnd)
  obtain secret val where x: "x = (secret, val)" by (cases x)
  let ?t = "now + of_nat (i * 11)"
  have u: "unat (of_nat (i * 11) :: u64) = i * 11" using Cons.prems(4) by (simp only: unat_of_nat) simp
  then have w: "add_word p now (of_nat (i * 11)) = (Ok ?t :: (backend_error, u64) outcome)"
    using Cons.prems(4) by (intro add_word_in) simp
  obtain c1 c2 where c2: "tc_set_time ?t c = Ok c1" "rotate_key E (Some now) secret c1 = Ok c2" "tc_inv E H c2" "\<forall>p k. tc_room p k c2 \<longleftrightarrow> tc_room p k c"
    "tc_delegation c2 = dele_new (ed_public E secret) ?t (dur_secs (ks_validity_length (rh_key_source (tc_response_handler c))))"
    by (rule rotated [OF E Cons.prems(1)])
  have room: "tc_room p (Suc (length rnd)) c2" and val: "length val = 32" using Cons.prems(2,3) c2(4) x by auto
  obtain r bs c3 where r: "framed_pair p E H (Some now) val ?t c2 = Ok ((frame_enc (request_enc (request_new_draft14 val)), r, bs), c3)"
    "tc_inv E H c3" "tc_room p (length rnd) c3" "cert_delegation (resp_cert r) = tc_delegation c2"
    and v: "validate_draft14 E H (Some (test_public_key E)) (frame_enc (request_enc (request_new_draft14 val))) r bs = Ok ?t"
    by (rule framed_pair_made [OF E H c2(3) val c2(5) room])
  have "dele_public_key (cert_delegation (resp_cert r)) = ed_public E secret" using r(4) c2(5) by (simp add: dele_new_def)
  moreover have "rapid_rounds p E H (Some now) (Some (test_public_key E)) now rnd (Suc i) c3 (insert (ed_public E secret) seen)
      = Ok (insert (ed_public E secret) seen \<union> set (map (ed_public E \<circ> fst) rnd))"
    using Cons.prems(3,4) r(2,3) by (intro Cons.IH) (auto simp: algebra_simps)
  ultimately show ?case using w c2(1,2) r(1) v by (simp add: x)
qed simp

lemma rapid_rotation_exact:
  assumes "ed25519_ok E" "sha512_ok H" "length rnd = 5" "\<forall>(s, val)\<in>set rnd. length val = 32" "unat now + 55 < 2 ^ 64"
  shows "rapid_key_rotation_sequence p E H (Some now) secret rnd = Ok () \<longleftrightarrow> (\<exists>x\<in>set rnd. \<exists>y\<in>set rnd. ed_public E (fst x) \<noteq> ed_public E (fst y))"
proof -
  have z: "(10 :: u64) \<noteq> 0" by simp
  obtain c where c: "rotation_start E (Some now) secret 10 = Ok (c, Some (test_public_key E), now)" "tc_inv E H c"
    and room: "\<forall>p. tc_room p 255 c" by (rule rotation_started [OF assms(1) z])
  let ?K = "set (map (ed_public E \<circ> fst) rnd)"
  have "tc_room p (length rnd) c" using room assms(3) by (auto simp: tc_room_def)
  from rapid_rounds_run [OF assms(1,2) c(2) this assms(4), where now = now and i = 0 and seen = "{}"] assms(3,5) c(1)
  have "rapid_key_rotation_sequence p E H (Some now) secret rnd = Ok () \<longleftrightarrow> 2 \<le> card ?K"
    by (simp add: rapid_key_rotation_sequence_def assert_that_def)
  also have "\<dots> \<longleftrightarrow> \<not> card ?K \<le> Suc 0" by linarith
  also have "\<dots> \<longleftrightarrow> (\<exists>a\<in>?K. \<exists>b\<in>?K. a \<noteq> b)" by (simp only: card_le_Suc0_iff_eq [OF finite_set]) blast
  finally show ?thesis by simp
qed

section \<open>Property\<close>

text \<open>C19. The tests of the validator that run a server, in debug and in release builds, for every signature scheme whose signatures
  verify, every 64-byte hash function and all random values: the test that rotates the key once passes exactly when the two
  secrets have different public keys, and the test of five rapid rotations exactly when two of its five keys differ: every response
  is accepted under the long-term key before and after a rotation. The test that extends a delegation passes exactly when the signature on the genuine
  delegation does not verify for the extended one. The six causality tests pass.\<close>

theorem rotation_tests_exact:
  assumes "ed25519_ok E" "sha512_ok H" "unat now + 9999 < 2 ^ 64"
    and "length rnd = 5" "\<forall>(s, val)\<in>set rnd. length val = 32" "rnd = r1 # r2 # r3 # rest"
  shows "(client_validates_across_key_rotation p E H (Some now) (fst r1) (fst r2) (snd r1) (snd r2) = Ok () \<longleftrightarrow>
      ed_public E (fst r1) \<noteq> ed_public E (fst r2)) \<and>
    (rapid_key_rotation_sequence p E H (Some now) secret rnd = Ok () \<longleftrightarrow>
      (\<exists>x\<in>set rnd. \<exists>y\<in>set rnd. ed_public E (fst x) \<noteq> ed_public E (fst y))) \<and>
    (\<exists>sg. let pk = test_public_key E; d = dele_new (ed_public E secret) now 60 in
      ed_verify E pk (dele_prefix RfcDraft14 @ dele_enc d) sg \<and>
      (extended_dele_is_rejected p E H (Some now) secret (snd r1) = Ok () \<longleftrightarrow>
       \<not> ed_verify E pk (dele_prefix RfcDraft14 @ dele_enc (dele_set_maxt (now + 9999) d)) sg)) \<and>
    causality_empty p E H (Some now) [] = Ok () \<and> causality_single p E H (Some now) [r1] = Ok () \<and>
    valid_sequence p E H (Some now) [r1, r2, r3] = Ok () \<and> edge_case p E H (Some now) [r1, r2] = Ok () \<and>
    invalid_sequence p E H (Some now) [r1, r2] = Ok () \<and> multiple_violations p E H (Some now) [r1, r2, r3] = Ok ()"
proof -
  have v: "length (snd r1) = 32" "length (snd r2) = 32" "\<forall>(s, val)\<in>set [r1, r2, r3]. length val = 32"
    using assms(5) unfolding assms(6) by (auto simp: split_def)
  have now: "unat now + 61 < 2 ^ 64" "unat now + 55 < 2 ^ 64" using assms(3) by simp_all
  show ?thesis
    using across_rotation_exact [OF assms(1,2) v(1,2) now(1)] rapid_rotation_exact [OF assms(1,2,4,5) now(2)]
      extended_dele_exact [OF assms(1,2) v(1) assms(3)] causality_tests_pass [OF assms(1,2) v(3)]
    by (intro conjI)
qed

theorem rotation_tests_exact_witness:
  "multiple_violations Debug toy_ed toy_hash (Some 1000) [(replicate 32 1, replicate 32 7), (replicate 32 2, replicate 32 8), (replicate 32 3, replicate 32 9)] = Ok () \<and>
   client_validates_across_key_rotation Debug toy_ed toy_hash (Some 1000) (replicate 32 1) (replicate 32 2) (replicate 32 7) (replicate 32 8) = Ok ()"
proof -
  have "ed_public toy_ed (replicate 32 1) \<noteq> ed_public toy_ed (replicate 32 2)" by (simp add: toy_ed_def)
  then show ?thesis using rotation_tests_exact [OF toy_ed_ok toy_hash_ok, of 1000
      "[(replicate 32 1, replicate 32 7), (replicate 32 2, replicate 32 8), (replicate 32 3, replicate 32 9), (replicate 32 4, replicate 32 7), (replicate 32 5, replicate 32 8)]"
      "(replicate 32 1, replicate 32 7)" "(replicate 32 2, replicate 32 8)" "(replicate 32 3, replicate 32 9)"
      "[(replicate 32 4, replicate 32 7), (replicate 32 5, replicate 32 8)]" Debug] by simp
qed

end
