(* ===== verification/Request_Tests.thy ===== *)
theory Request_Tests
  imports Handler_Tests
begin

text \<open>
  The tests with hostile requests (\<^verbatim>\<open>protocol/tests/adversarial_request_tests.rs\<close>); saving a request for debugging is switched off
  there by a constant. Shown: all of them pass. Six of them read the 1024 bytes of a frame as a message without a
  frame, which is refused for its size whatever the bytes are, so that they say nothing about tag counts and offsets; read as frames,
  their requests are refused for what the comments name.
\<close>

section \<open>Tests\<close>

definition malicious_len :: "u32 \<Rightarrow> bytes" where
  "malicious_len len = copy_at 8 (u32_to_le_bytes len) with_magic"

definition malicious_tags :: "u32 \<Rightarrow> bytes" where
  "malicious_tags n = copy_at 12 (u32_to_le_bytes n) (malicious_len 1012)"

definition malicious_offset :: "u32 \<Rightarrow> bytes" where
  "malicious_offset off = copy_at 16 (u32_to_le_bytes off) (malicious_tags 4)"

definition overflow_attack_on_frame_length :: "profile \<Rightarrow> (unit, unit) outcome" where
  "overflow_attack_on_frame_length p =
     (case parse (from_frame (request_from_wire p)) (malicious_len (- 1)) of
        Err (BufferTooSmall needed found) \<Rightarrow> assert_that (needed = unat (- 1 :: u32))
      | _ \<Rightarrow> Panic)"

definition undersized_buffer_attack :: "profile \<Rightarrow> (unit, unit) outcome" where
  "undersized_buffer_attack p =
     (let tiny = copy_at 0 (u64_to_be_bytes FRAME_MAGIC) (replicate 15 0) in
      case parse (from_frame (request_from_wire p)) tiny of
        Err (UnexpectedFraming found) \<Rightarrow> assert_that (found = 0)
      | _ \<Rightarrow> Panic)"

definition one_byte_oversized_request_rejection :: "profile \<Rightarrow> (unit, unit) outcome" where
  "one_byte_oversized_request_rejection p =
     (case parse (from_frame (request_from_wire p)) (malicious_len 1013) of
        Err (BufferTooSmall needed found) \<Rightarrow> assert_that (needed = 1013)
      | _ \<Rightarrow> Panic)"

definition tag_count_overflow :: "profile \<Rightarrow> (unit, unit) outcome" where
  "tag_count_overflow p =
     (case parse (from_frame (request_from_wire p)) (malicious_tags (- 1)) of
        Err (InvalidRequestNumTags n allowed) \<Rightarrow> Ok ()
      | _ \<Rightarrow> Panic)"

definition zero_length_frame :: "profile \<Rightarrow> (unit, unit) outcome" where
  "zero_length_frame p =
     (case parse (from_frame (request_from_wire p)) (malicious_len 0) of
        Err (UnexpectedFraming found) \<Rightarrow> assert_that (found = 0)
      | _ \<Rightarrow> Panic)"

text \<open>\<open>Request::from_wire\<close> on a whole frame, and \<open>is_err\<close>.\<close>

definition wire_rejected :: "profile \<Rightarrow> bytes \<Rightarrow> (unit, unit) outcome" where
  "wire_rejected p malicious = assert_err (parse (request_from_wire p) malicious)"

definition offset_out_of_bounds :: "profile \<Rightarrow> (unit, unit) outcome" where
  "offset_out_of_bounds p = wire_rejected p (malicious_offset (of_nat (REQUEST_SIZE + 100)))"

definition tag_value_size_mismatch :: "profile \<Rightarrow> (unit, unit) outcome" where
  "tag_value_size_mismatch p = wire_rejected p (malicious_offset (of_nat (REQUEST_SIZE - 2)))"

definition circular_offsets :: bytes where
  "circular_offsets = copy_at 20 (u32_to_le_bytes 16) (malicious_offset 20)"

definition recursive_tag_references :: "profile \<Rightarrow> (unit, unit) outcome" where
  "recursive_tag_references p = wire_rejected p circular_offsets"

definition negative_offset_underflow :: "profile \<Rightarrow> (unit, unit) outcome" where
  "negative_offset_underflow p = wire_rejected p (malicious_offset 5)"

definition backward_offsets :: bytes where
  "backward_offsets = copy_at 20 (u32_to_le_bytes 50) (malicious_offset 100)"

definition non_monotonic_offsets :: "profile \<Rightarrow> (unit, unit) outcome" where
  "non_monotonic_offsets p = wire_rejected p backward_offsets"

definition bad_packets :: "bytes list" where
  "bad_packets = [copy_at 0 (u64_to_be_bytes 0xDEADBEEF) zeros, malicious_len 999, malicious_tags 10]"

fun all_rejected :: "profile \<Rightarrow> bytes list \<Rightarrow> (unit, unit) outcome" where
  "all_rejected p [] = Ok ()"
| "all_rejected p (packet # packets) = and_then (wire_rejected p packet) (\<lambda>_. all_rejected p packets)"

definition validation_performance_dos :: "profile \<Rightarrow> (unit, unit) outcome" where
  "validation_performance_dos p = all_rejected p bad_packets"

section \<open>The tests pass\<close>

lemma malicious_eq:
  "malicious_len len = u64_to_be_bytes FRAME_MAGIC @ u32_to_le_bytes len @ replicate 1012 0"
  "malicious_tags n = u64_to_be_bytes FRAME_MAGIC @ u32_to_le_bytes 1012 @ u32_to_le_bytes n @ replicate 1008 0"
  "malicious_offset off = u64_to_be_bytes FRAME_MAGIC @ u32_to_le_bytes 1012 @ u32_to_le_bytes 4 @ u32_to_le_bytes off @ u32_to_le_bytes 0 @ replicate 1000 0"
proof -
  have "u32_to_le_bytes 0 = replicate 4 0" by code_simp
  then have z: "replicate 1004 0 = u32_to_le_bytes 0 @ replicate 1000 0" by (simp flip: replicate_add)
  show "malicious_len len = u64_to_be_bytes FRAME_MAGIC @ u32_to_le_bytes len @ replicate 1012 0" for len
    by (simp add: malicious_len_def with_magic_eq copy_at_def)
  then show "malicious_tags n = u64_to_be_bytes FRAME_MAGIC @ u32_to_le_bytes 1012 @ u32_to_le_bytes n @ replicate 1008 0" for n
    by (simp add: malicious_tags_def copy_at_def)
  then show "malicious_offset off = u64_to_be_bytes FRAME_MAGIC @ u32_to_le_bytes 1012 @ u32_to_le_bytes 4 @ u32_to_le_bytes off @ u32_to_le_bytes 0 @ replicate 1000 0"
    using z by (simp add: malicious_offset_def copy_at_def)
qed

lemma parse_at: "parse op bs = and_then (op (cursor_at [] bs)) (\<lambda>(m, _). Ok m)"
  by (simp add: parse_def cursor_new_at)

text \<open>The checks of the frame header.\<close>

lemma frame_checks:
  "parse (from_frame fw) (u64_to_be_bytes FRAME_MAGIC @ u32_to_le_bytes len @ rest) =
     (if unat len < MINIMUM_FRAME_SIZE \<or> length rest < MINIMUM_FRAME_SIZE then Err (UnexpectedFraming (min (unat len) (length rest)))
      else if length rest < unat len then Err (BufferTooSmall (unat len) (length rest))
      else and_then (fw (cursor_at (u64_to_be_bytes FRAME_MAGIC @ u32_to_le_bytes len) rest)) (\<lambda>(m, _). Ok m))"
  by (simp add: parse_at from_frame_def cursor_run Let_def fail_def)

lemma wrong_tag_count:
  assumes "length rest = 1008" "n \<notin> {3, 4, 5}"
  shows "parse (from_frame (request_from_wire p)) (u64_to_be_bytes FRAME_MAGIC @ u32_to_le_bytes 1012 @ u32_to_le_bytes n @ rest)
    = Err (InvalidRequestNumTags n ''3, 4, or 5'')"
proof -
  let ?c = "cursor_at (u64_to_be_bytes FRAME_MAGIC @ u32_to_le_bytes 1012) (u32_to_le_bytes n @ rest)"
  have "wf_cursor ?c" by (auto simp: wf_cursor_at)
  moreover have "remaining ?c = 1012" using assms(1) by simp
  moreover obtain c' where "try_get_u32_le ?c = Ok (n, c')" using readsD [OF reads_ints(1)] by blast
  ultimately have "request_from_wire p ?c = Err (InvalidRequestNumTags n ''3, 4, or 5'')"
    using assms(2) by (simp add: request_from_wire_at)
  with assms(1) show ?thesis by (simp add: frame_checks MINIMUM_FRAME_SIZE_def)
qed

lemma frame_tests_pass:
  "overflow_attack_on_frame_length p = Ok ()" "undersized_buffer_attack p = Ok ()" "one_byte_oversized_request_rejection p = Ok ()"
  "tag_count_overflow p = Ok ()" "zero_length_frame p = Ok ()"
proof -
  have "unat (- 1 :: u32) = 4294967295" by (simp add: unsigned_minus_1_eq_mask mask_eq_exp_minus_1)
  then show "overflow_attack_on_frame_length p = Ok ()" "one_byte_oversized_request_rejection p = Ok ()" "zero_length_frame p = Ok ()"
    by (simp_all add: overflow_attack_on_frame_length_def one_byte_oversized_request_rejection_def zero_length_frame_def
        malicious_eq(1) frame_checks MINIMUM_FRAME_SIZE_def assert_that_def)
  have "u32_to_le_bytes 0 = replicate 4 0" by code_simp
  then have "copy_at 0 (u64_to_be_bytes FRAME_MAGIC) (replicate 15 0) = u64_to_be_bytes FRAME_MAGIC @ u32_to_le_bytes 0 @ replicate 3 0"
    by (simp add: copy_at_def flip: replicate_add)
  then show "undersized_buffer_attack p = Ok ()"
    by (simp add: undersized_buffer_attack_def frame_checks MINIMUM_FRAME_SIZE_def assert_that_def)
  show "tag_count_overflow p = Ok ()" by (simp add: tag_count_overflow_def malicious_eq(2) wrong_tag_count)
qed

text \<open>Without a frame, 1024 bytes are refused before anything in them is looked at.\<close>

lemma wire_rejected_any: "length bs = REQUEST_SIZE \<Longrightarrow> wire_rejected p bs = Ok ()"
  by (simp add: wire_rejected_def parse_def request_from_wire_def bind_def asks_def remaining_def cursor_new_def fail_def REQUEST_SIZE_def)

lemma offset_lengths:
  "length (malicious_offset off) = REQUEST_SIZE" "length circular_offsets = REQUEST_SIZE" "length backward_offsets = REQUEST_SIZE"
  "\<forall>bs\<in>set bad_packets. length bs = REQUEST_SIZE"
proof -
  show o: "length (malicious_offset off) = REQUEST_SIZE" for off by (simp add: malicious_eq REQUEST_SIZE_def)
  show "length circular_offsets = REQUEST_SIZE" "length backward_offsets = REQUEST_SIZE"
    by (simp_all add: circular_offsets_def backward_offsets_def o REQUEST_SIZE_def)
  show "\<forall>bs\<in>set bad_packets. length bs = REQUEST_SIZE" by (simp add: bad_packets_def malicious_eq REQUEST_SIZE_def)
qed

lemma unframed_tests_pass:
  "offset_out_of_bounds p = Ok ()" "tag_value_size_mismatch p = Ok ()" "recursive_tag_references p = Ok ()"
  "negative_offset_underflow p = Ok ()" "non_monotonic_offsets p = Ok ()" "validation_performance_dos p = Ok ()"
proof -
  show "offset_out_of_bounds p = Ok ()" "tag_value_size_mismatch p = Ok ()" "recursive_tag_references p = Ok ()"
    "negative_offset_underflow p = Ok ()" "non_monotonic_offsets p = Ok ()"
    unfolding offset_out_of_bounds_def tag_value_size_mismatch_def recursive_tag_references_def negative_offset_underflow_def non_monotonic_offsets_def
    by (rule wire_rejected_any offset_lengths)+
  have "\<forall>bs\<in>set bss. length bs = REQUEST_SIZE \<Longrightarrow> all_rejected p bss = Ok ()" for bss
    by (induction bss) (simp_all add: wire_rejected_any)
  then show "validation_performance_dos p = Ok ()" using offset_lengths(4) by (simp add: validation_performance_dos_def)
qed

text \<open>What the tests mean to show holds: as frames, none of the requests is readable. All offsets go backwards, since the
  second one is 0 where a test does not set it.\<close>

lemma framed_requests_refused:
  "\<not> readable p (malicious_offset (of_nat (REQUEST_SIZE + 100)))" "\<not> readable p (malicious_offset (of_nat (REQUEST_SIZE - 2)))"
  "\<not> readable p (malicious_offset 5)" "\<not> readable p circular_offsets" "\<not> readable p backward_offsets"
  "\<forall>bs\<in>set bad_packets. \<not> readable p bs"
proof -
  have o: "\<not> readable p (malicious_offset off)" if "off \<noteq> 0" for off
    using readable_start [of p "malicious_offset off"] that by (auto simp: malicious_eq(3))
  show "\<not> readable p (malicious_offset (of_nat (REQUEST_SIZE + 100)))" "\<not> readable p (malicious_offset (of_nat (REQUEST_SIZE - 2)))"
    "\<not> readable p (malicious_offset 5)" by (rule o, simp add: REQUEST_SIZE_def)+
  have eq: "circular_offsets = u64_to_be_bytes FRAME_MAGIC @ u32_to_le_bytes 1012 @ u32_to_le_bytes 4 @ u32_to_le_bytes 20 @ u32_to_le_bytes 16 @ replicate 1000 0"
    "backward_offsets = u64_to_be_bytes FRAME_MAGIC @ u32_to_le_bytes 1012 @ u32_to_le_bytes 4 @ u32_to_le_bytes 100 @ u32_to_le_bytes 50 @ replicate 1000 0"
    by (simp_all add: circular_offsets_def backward_offsets_def malicious_eq copy_at_def)
  show "\<not> readable p circular_offsets" using readable_start [of p circular_offsets] by (auto simp: eq(1))
  show "\<not> readable p backward_offsets" using readable_start [of p backward_offsets] by (auto simp: eq(2))
  have "replicate 1012 0 = u32_to_le_bytes 0 @ replicate 1008 (0 :: u8)"
  proof -
    have "u32_to_le_bytes 0 = replicate 4 0" by code_simp
    then show ?thesis by (simp flip: replicate_add)
  qed
  then have "\<not> readable p (malicious_len 999)" using readable_start [of p "malicious_len 999"] by (auto simp: malicious_eq(1))
  moreover have "\<not> readable p (malicious_tags 10)" using readable_start [of p "malicious_tags 10"] by (auto simp: malicious_eq(2))
  moreover have "\<not> readable p (copy_at 0 (u64_to_be_bytes 0xDEADBEEF) zeros)"
  proof (rule wrong_magic)
    have "u64_to_be_bytes 0xDEADBEEF = [0, 0, 0, 0, 0xDE, 0xAD, 0xBE, 0xEF]" by code_simp
    then show "copy_at 0 (u64_to_be_bytes 0xDEADBEEF) zeros ! 0 \<noteq> 0x52 \<or> copy_at 0 (u64_to_be_bytes 0xDEADBEEF) zeros ! 1 \<noteq> 0x4F"
      by (simp add: copy_at_def)
  qed
  ultimately show "\<forall>bs\<in>set bad_packets. \<not> readable p bs" by (simp add: bad_packets_def)
qed

end
