(* ===== verification/Key_Tests.thy ===== *)
theory Key_Tests
  imports Test_Context
begin

text \<open>
  The tests of the life of online keys (\<^verbatim>\<open>keys/src/tests/lifecycle_tests.rs\<close>, for both drafts, and those of
  \<^verbatim>\<open>server/src/keysource.rs\<close> that run in one thread). A test is a value that is \<open>Ok ()\<close> when it passes. Random values are arguments: \<open>val\<close> the seed
  of the backend, \<open>secret\<close> that of an online key. Clones of a mock clock are one cell: after the clock is set, a key that holds a
  clone reads the new time. Shown: the tests pass, those that compare keys or signatures exactly when the keys differ
  and no signature is all zeros.
\<close>

section \<open>Helpers\<close>

definition mb_from_random :: "ed25519 \<Rightarrow> bytes \<Rightarrow> (backend_error, memory_backend) outcome" where
  "mb_from_random E val = and_then (seed_new val) (\<lambda>seed. expect (mb_store_seed E seed mb_new))"

definition random_identity :: "ed25519 \<Rightarrow> protocol_version \<Rightarrow> bytes \<Rightarrow> (backend_error, memory_backend identity) outcome" where
  "random_identity E version val = and_then (mb_from_random E val) (\<lambda>backend. identity_new (memory_ops E) version backend)"

text \<open>The two methods that make online keys, the accessors of certificate and public key.\<close>

fun make_online_key ::
  "ed25519 \<Rightarrow> protocol_version \<Rightarrow> bytes \<Rightarrow> u64 \<Rightarrow> u64 \<Rightarrow> memory_backend identity \<Rightarrow>
     (backend_error, online_key \<times> memory_backend identity) outcome" where
  "make_online_key E RfcDraft14 secret now secs i =
     and_then (make_online_key14 E (memory_ops E) None secret (Mock now) \<lparr>dur_secs = secs, dur_nanos = 0\<rparr> i) (\<lambda>(k, i'). Ok (Draft14Key k, i'))"
| "make_online_key E RfcDraft08 secret now secs i =
     and_then (make_online_key08 E (memory_ops E) None secret (Mock now) \<lparr>dur_secs = secs, dur_nanos = 0\<rparr> i) (\<lambda>(k, i'). Ok (Draft08Key k, i'))"

fun dele_of_key :: "profile \<Rightarrow> online_key \<Rightarrow> (backend_error, delegation) outcome" where
  "dele_of_key p (Draft14Key k) = and_then (ok14_get_cert p k) (\<lambda>c. Ok (cert_delegation c))"
| "dele_of_key p (Draft08Key k) = and_then (ok08_get_cert p k) (\<lambda>c. Ok (cert_delegation c))"

fun public_key_bytes :: "ed25519 \<Rightarrow> online_key \<Rightarrow> (backend_error, public_key) outcome" where
  "public_key_bytes E (Draft14Key k) = signer_public_key E (ok14_secret k)"
| "public_key_bytes E (Draft08Key k) = signer_public_key E (ok08_secret k)"

definition is_key_expired :: "profile \<Rightarrow> online_key \<Rightarrow> u64 \<Rightarrow> (backend_error, bool) outcome" where
  "is_key_expired p key now = and_then (dele_of_key p key) (\<lambda>dele. Ok (dele_max_time dele \<le> now))"

definition verify_validity_window :: "profile \<Rightarrow> online_key \<Rightarrow> u64 \<Rightarrow> u64 \<Rightarrow> (backend_error, unit) outcome" where
  "verify_validity_window p key expected_mint expected_duration =
     and_then (dele_of_key p key) (\<lambda>dele.
     and_then (assert_that (dele_min_time dele = expected_mint)) (\<lambda>_.
     and_then (add_word p expected_mint expected_duration) (\<lambda>maxt.
     assert_that (dele_max_time dele = maxt))))"

definition start_time :: u64 where
  "start_time = 1000000"

section \<open>Tests of both drafts\<close>

definition correct_validity_period :: "protocol_version \<Rightarrow> profile \<Rightarrow> ed25519 \<Rightarrow> bytes \<Rightarrow> bytes \<Rightarrow> (backend_error, unit) outcome" where
  "correct_validity_period v p E val secret =
     and_then (random_identity E v val) (\<lambda>ident.
     and_then (make_online_key E v secret start_time 3600 ident) (\<lambda>(key, _).
     verify_validity_window p key start_time 3600))"

text \<open>\<open>expired\<close> is what each \<open>assert!\<close> expects at its time.\<close>

fun check_expiry :: "profile \<Rightarrow> online_key \<Rightarrow> (u64 \<times> bool) list \<Rightarrow> (backend_error, unit) outcome" where
  "check_expiry p key [] = Ok ()"
| "check_expiry p key ((now, expired) # cs) =
     and_then (is_key_expired p key now) (\<lambda>b.
     and_then (assert_that (b = expired)) (\<lambda>_. check_expiry p key cs))"

definition detect_expired_online_key :: "protocol_version \<Rightarrow> profile \<Rightarrow> ed25519 \<Rightarrow> bytes \<Rightarrow> bytes \<Rightarrow> (backend_error, unit) outcome" where
  "detect_expired_online_key v p E val secret =
     and_then (random_identity E v val) (\<lambda>ident.
     and_then (make_online_key E v secret start_time 3600 ident) (\<lambda>(key, _).
     check_expiry p key
       [(start_time, False), (start_time + 3599, False), (start_time + 3600, True), (start_time + 7200, True)]))"

text \<open>The loop of rotations, one for each secret; after the last one the time is left as it is.\<close>

fun rotations ::
  "profile \<Rightarrow> ed25519 \<Rightarrow> protocol_version \<Rightarrow> u64 \<Rightarrow> bytes list \<Rightarrow> memory_backend identity \<Rightarrow> (backend_error, online_key list) outcome" where
  "rotations p E v current_time [] ident = Ok []"
| "rotations p E v current_time (secret # secrets) ident =
     and_then (make_online_key E v secret current_time 100 ident) (\<lambda>(key, ident').
     and_then (verify_validity_window p key current_time 100) (\<lambda>_.
     and_then (if secrets = [] then Ok current_time else add_word p current_time 50) (\<lambda>time.
     and_then (rotations p E v time secrets ident') (\<lambda>keys. Ok (key # keys)))))"

fun map_outcome :: "('a \<Rightarrow> ('e, 'b) outcome) \<Rightarrow> 'a list \<Rightarrow> ('e, 'b list) outcome" where
  "map_outcome f [] = Ok []"
| "map_outcome f (x # xs) = and_then (f x) (\<lambda>y. and_then (map_outcome f xs) (\<lambda>ys. Ok (y # ys)))"

fun check_overlaps :: "delegation list \<Rightarrow> (backend_error, unit) outcome" where
  "check_overlaps (d # d' # ds) = and_then (assert_that (dele_min_time d' < dele_max_time d)) (\<lambda>_. check_overlaps (d' # ds))"
| "check_overlaps _ = Ok ()"

definition multiple_key_rotations :: "protocol_version \<Rightarrow> profile \<Rightarrow> ed25519 \<Rightarrow> bytes \<Rightarrow> bytes list \<Rightarrow> (backend_error, unit) outcome" where
  "multiple_key_rotations v p E val secrets =
     and_then (random_identity E v val) (\<lambda>ident.
     and_then (rotations p E v start_time secrets ident) (\<lambda>keys.
     and_then (assert_that (length keys = 5)) (\<lambda>_.
     and_then (map_outcome (public_key_bytes E) keys) (\<lambda>pubkeys.
     and_then (assert_that (distinct pubkeys)) (\<lambda>_.
     and_then (map_outcome (dele_of_key p) keys) check_overlaps)))))"

definition validity_overlap :: "protocol_version \<Rightarrow> profile \<Rightarrow> ed25519 \<Rightarrow> bytes \<Rightarrow> bytes \<Rightarrow> bytes \<Rightarrow> (backend_error, unit) outcome" where
  "validity_overlap v p E val secret1 secret2 =
     and_then (random_identity E v val) (\<lambda>ident.
     and_then (make_online_key E v secret1 start_time 3600 ident) (\<lambda>(first_key, ident').
     and_then (make_online_key E v secret2 (start_time + 1800) 3600 ident') (\<lambda>(second_key, _).
     and_then (dele_of_key p first_key) (\<lambda>d1.
     and_then (dele_of_key p second_key) (\<lambda>d2.
     and_then (assert_that (dele_min_time d2 < dele_max_time d1)) (\<lambda>_.
     and_then (sub_word p (dele_max_time d1) (dele_min_time d2)) (\<lambda>overlap_duration.
     and_then (assert_that (overlap_duration = 1800)) (\<lambda>_.
     and_then (check_expiry p first_key [(start_time + 1800 + 900, False)]) (\<lambda>_.
     check_expiry p second_key [(start_time + 1800 + 900, False)])))))))))"

section \<open>Tests of one draft\<close>

definition online_key_has_correct_validity_period_draft14 :: "profile \<Rightarrow> ed25519 \<Rightarrow> bytes \<Rightarrow> bytes \<Rightarrow> (backend_error, unit) outcome" where
  "online_key_has_correct_validity_period_draft14 = correct_validity_period RfcDraft14"

definition online_key_has_correct_validity_period_draft08 :: "profile \<Rightarrow> ed25519 \<Rightarrow> bytes \<Rightarrow> bytes \<Rightarrow> (backend_error, unit) outcome" where
  "online_key_has_correct_validity_period_draft08 = correct_validity_period RfcDraft08"

definition detect_expired_online_key_draft14 :: "profile \<Rightarrow> ed25519 \<Rightarrow> bytes \<Rightarrow> bytes \<Rightarrow> (backend_error, unit) outcome" where
  "detect_expired_online_key_draft14 = detect_expired_online_key RfcDraft14"

definition detect_expired_online_key_draft08 :: "profile \<Rightarrow> ed25519 \<Rightarrow> bytes \<Rightarrow> bytes \<Rightarrow> (backend_error, unit) outcome" where
  "detect_expired_online_key_draft08 = detect_expired_online_key RfcDraft08"

definition multiple_key_rotations_over_time_draft14 :: "profile \<Rightarrow> ed25519 \<Rightarrow> bytes \<Rightarrow> bytes list \<Rightarrow> (backend_error, unit) outcome" where
  "multiple_key_rotations_over_time_draft14 = multiple_key_rotations RfcDraft14"

definition multiple_key_rotations_over_time_draft08 :: "profile \<Rightarrow> ed25519 \<Rightarrow> bytes \<Rightarrow> bytes list \<Rightarrow> (backend_error, unit) outcome" where
  "multiple_key_rotations_over_time_draft08 = multiple_key_rotations RfcDraft08"

definition ensure_key_validity_overlap_draft14 :: "profile \<Rightarrow> ed25519 \<Rightarrow> bytes \<Rightarrow> bytes \<Rightarrow> bytes \<Rightarrow> (backend_error, unit) outcome" where
  "ensure_key_validity_overlap_draft14 = validity_overlap RfcDraft14"

definition ensure_key_validity_overlap_draft08 :: "profile \<Rightarrow> ed25519 \<Rightarrow> bytes \<Rightarrow> bytes \<Rightarrow> bytes \<Rightarrow> (backend_error, unit) outcome" where
  "ensure_key_validity_overlap_draft08 = validity_overlap RfcDraft08"

definition handle_request_at_validity_boundary_draft14 :: "ed25519 \<Rightarrow> bytes \<Rightarrow> bytes \<Rightarrow> (backend_error, unit) outcome" where
  "handle_request_at_validity_boundary_draft14 E val secret =
     and_then (random_identity E RfcDraft14 val) (\<lambda>ident.
     and_then (make_online_key14 E (memory_ops E) None secret (Mock start_time) \<lparr>dur_secs = 3600, dur_nanos = 0\<rparr> ident) (\<lambda>(key, _).
     let merkle_root = replicate 32 0x42; key' = key\<lparr>ok14_clock := Mock (start_time + 3599)\<rparr> in
     and_then (ok14_make_srep E None merkle_root key') (\<lambda>((srep, sg), _).
     and_then (assert_that (srep_merkle_root srep = merkle_root)) (\<lambda>_.
     and_then (assert_that (srep_midpoint srep = start_time + 3599)) (\<lambda>_.
     assert_that (sg \<noteq> replicate 64 0))))))"

definition handle_request_at_validity_boundary_draft08 :: "ed25519 \<Rightarrow> bytes \<Rightarrow> bytes \<Rightarrow> (backend_error, unit) outcome" where
  "handle_request_at_validity_boundary_draft08 E val secret =
     and_then (random_identity E RfcDraft08 val) (\<lambda>ident.
     and_then (make_online_key08 E (memory_ops E) None secret (Mock start_time) \<lparr>dur_secs = 3600, dur_nanos = 0\<rparr> ident) (\<lambda>(key, _).
     let merkle_root = replicate 32 0x42; key' = key\<lparr>ok08_clock := Mock (start_time + 3599)\<rparr> in
     and_then (ok08_make_srep E None merkle_root key') (\<lambda>((srep, sg), _).
     and_then (assert_that (srep08_merkle_root srep = merkle_root)) (\<lambda>_.
     and_then (assert_that (srep08_midpoint srep = start_time + 3599)) (\<lambda>_.
     assert_that (sg \<noteq> replicate 64 0))))))"

definition key_properties_remain_consistent_draft14 :: "ed25519 \<Rightarrow> bytes \<Rightarrow> bytes \<Rightarrow> (backend_error, unit) outcome" where
  "key_properties_remain_consistent_draft14 E val secret =
     and_then (random_identity E RfcDraft14 val) (\<lambda>ident.
     and_then (make_online_key14 E (memory_ops E) None secret (Mock start_time) \<lparr>dur_secs = 3600, dur_nanos = 0\<rparr> ident) (\<lambda>(key, _).
     let merkle_root = replicate 32 0x77 in
     and_then (ok14_make_srep E None merkle_root key) (\<lambda>((srep, _), _).
     and_then (assert_that (srep_midpoint srep = start_time)) (\<lambda>_.
     and_then (assert_that (srep_version srep = RfcDraft14)) (\<lambda>_.
     assert_that (srep_merkle_root srep = merkle_root))))))"

definition key_properties_remain_consistent_draft08 :: "ed25519 \<Rightarrow> bytes \<Rightarrow> bytes \<Rightarrow> (backend_error, unit) outcome" where
  "key_properties_remain_consistent_draft08 E val secret =
     and_then (random_identity E RfcDraft08 val) (\<lambda>ident.
     and_then (make_online_key08 E (memory_ops E) None secret (Mock start_time) \<lparr>dur_secs = 3600, dur_nanos = 0\<rparr> ident) (\<lambda>(key, _).
     let merkle_root = replicate 32 0x77 in
     and_then (ok08_make_srep E None merkle_root key) (\<lambda>((srep, _), _).
     and_then (assert_that (srep08_midpoint srep = start_time)) (\<lambda>_.
     assert_that (srep08_merkle_root srep = merkle_root)))))"

section \<open>Tests of the key source\<close>

text \<open>\<open>#[should_panic]\<close>: the test passes when the call panics.\<close>

definition zero_validity_duration_panics :: "ed25519 \<Rightarrow> bytes \<Rightarrow> (backend_error, unit) outcome" where
  "zero_validity_duration_panics E val =
     (case and_then (mb_from_random E val) (\<lambda>seed. key_source_new (memory_ops E) RfcDraft14 seed System \<lparr>dur_secs = 0, dur_nanos = 0\<rparr>) of
        Panic \<Rightarrow> Ok ()
      | _ \<Rightarrow> Panic)"

definition test_key_source :: "ed25519 \<Rightarrow> bytes \<Rightarrow> u64 \<Rightarrow> (backend_error, memory_backend key_source) outcome" where
  "test_key_source E val secs =
     and_then (mb_from_random E val) (\<lambda>backend.
     key_source_new (memory_ops E) RfcDraft14 backend (Mock start_time) \<lparr>dur_secs = secs, dur_nanos = 0\<rparr>)"

definition keysource_key_rotation :: "profile \<Rightarrow> ed25519 \<Rightarrow> bytes \<Rightarrow> bytes \<Rightarrow> bytes \<Rightarrow> (backend_error, unit) outcome" where
  "keysource_key_rotation p E val secret1 secret2 =
     and_then (test_key_source E val 60) (\<lambda>key_source.
     and_then (ks_make_online_key14 E (memory_ops E) None secret1 key_source) (\<lambda>(first_key, ks1).
     and_then (public_key_bytes E (Draft14Key first_key)) (\<lambda>first_pubkey.
     and_then (ks_make_online_key14 E (memory_ops E) None secret2 (ks1\<lparr>ks_clock_source := Mock (start_time + 61)\<rparr>)) (\<lambda>(second_key, _).
     and_then (public_key_bytes E (Draft14Key second_key)) (\<lambda>second_pubkey.
     and_then (assert_that (first_pubkey \<noteq> second_pubkey)) (\<lambda>_.
     and_then (dele_of_key p (Draft14Key second_key)) (\<lambda>dele.
     assert_that (dele_min_time dele = start_time + 61 \<and> dele_max_time dele = start_time + 61 + 60))))))))"

definition key_validity_at_rotation :: "profile \<Rightarrow> ed25519 \<Rightarrow> bytes \<Rightarrow> bytes \<Rightarrow> bytes \<Rightarrow> (backend_error, unit) outcome" where
  "key_validity_at_rotation p E val secret1 secret2 =
     and_then (test_key_source E val 3600) (\<lambda>key_source.
     and_then (ks_make_online_key14 E (memory_ops E) None secret1 key_source) (\<lambda>(key1, ks1).
     and_then (ks_make_online_key14 E (memory_ops E) None secret2 (ks1\<lparr>ks_clock_source := Mock (start_time + 1800)\<rparr>)) (\<lambda>(key2, _).
     and_then (dele_of_key p (Draft14Key key1)) (\<lambda>d1.
     and_then (dele_of_key p (Draft14Key key2)) (\<lambda>d2.
     and_then (assert_that (dele_min_time d2 < dele_max_time d1)) (\<lambda>_.
     and_then (sub_word p (dele_max_time d1) (dele_min_time d2)) (\<lambda>overlap.
     assert_that (overlap = 1800))))))))"

section \<open>What the tests rely on\<close>

lemma random_identity_ok:
  assumes "ed25519_ok E" "length val = 32"
  shows "\<exists>i. random_identity E v val = Ok i \<and> mb_ok E (id_seed i) \<and> id_version i = v"
proof -
  obtain b where "mb_from_value E val = Ok b" "mb_ok E b" using mb_from_value_ok [OF assms] by blast
  then show ?thesis using memory_seed.backend_len [of E b]
    by (simp add: random_identity_def mb_from_random_def mb_from_value_def [symmetric] identity_new_def)
qed

lemma key14_made:
  assumes "ed25519_ok E" "mb_ok E (id_seed i)" "now \<noteq> 0"
  shows "\<exists>k i'. make_online_key14 E (memory_ops E) None secret (Mock now) \<lparr>dur_secs = secs, dur_nanos = 0\<rparr> i = Ok (k, i') \<and>
    ok14_ok E (id_version i) (mb_pk E (id_seed i)) k \<and> ok14_secret k = secret \<and> ok14_clock k = Mock now \<and>
    dele_of_key p (Draft14Key k) = Ok (dele_new (ed_public E secret) now secs) \<and> mb_ok E (id_seed i')"
proof -
  let ?v = "\<lparr>dur_secs = secs, dur_nanos = 0\<rparr>"
  obtain k i' where k: "make_online_key14 E (memory_ops E) None secret (Mock now) ?v i = Ok (k, i')" "ok14_ok E (id_version i) (mb_pk E (id_seed i)) k"
    "ok14_clock k = Mock now" "cert_delegation (ok14_cert k) = dele_new (ed_public E secret) now secs" "mb_ok E (id_seed i')"
    using memory_seed.make_online_key14_ok [OF assms(1,2), of None "Mock now" now secret ?v] by auto
  have "ok14_secret k = secret" using k(1) by (auto simp: make_online_key14_def and_then_Ok_iff Let_def ok14_set_cert_def ok14_new_def)
  moreover have "ok14_cert k \<noteq> cert_default"
    using k(4) assms(3) by (auto simp: cert_default_def dele_new_def dele_default_def dest: arg_cong [where f = dele_min_time])
  ultimately show ?thesis using k by (auto simp: ok14_get_cert_def)
qed

lemma key08_made:
  assumes "ed25519_ok E" "mb_ok E (id_seed i)" "now \<noteq> 0"
  shows "\<exists>k i'. make_online_key08 E (memory_ops E) None secret (Mock now) \<lparr>dur_secs = secs, dur_nanos = 0\<rparr> i = Ok (k, i') \<and>
    ok08_ok E (mb_pk E (id_seed i)) k \<and> ok08_secret k = secret \<and> ok08_clock k = Mock now \<and>
    dele_of_key p (Draft08Key k) = Ok (dele_new (ed_public E secret) now secs) \<and> mb_ok E (id_seed i')"
proof -
  let ?v = "\<lparr>dur_secs = secs, dur_nanos = 0\<rparr>"
  obtain k i' where k: "make_online_key08 E (memory_ops E) None secret (Mock now) ?v i = Ok (k, i')" "ok08_ok E (mb_pk E (id_seed i)) k"
    "ok08_clock k = Mock now" "cert_delegation (ok08_cert k) = dele_new (ed_public E secret) now secs" "mb_ok E (id_seed i')"
    using memory_seed.make_online_key08_ok [OF assms(1,2), of None "Mock now" now secret ?v] by auto
  have "ok08_secret k = secret" using k(1) by (auto simp: make_online_key08_def and_then_Ok_iff Let_def ok08_set_cert_def ok08_new_def)
  moreover have "ok08_cert k \<noteq> cert_default"
    using k(4) assms(3) by (auto simp: cert_default_def dele_new_def dele_default_def dest: arg_cong [where f = dele_min_time])
  ultimately show ?thesis using k by (auto simp: ok08_get_cert_def)
qed

text \<open>The two drafts at once.\<close>

lemma key_made:
  assumes "ed25519_ok E" "mb_ok E (id_seed i)" "now \<noteq> 0"
  obtains k i' where "make_online_key E v secret now secs i = Ok (k, i')" "dele_of_key p k = Ok (dele_new (ed_public E secret) now secs)"
    "public_key_bytes E k = Ok (ed_public E secret)" "mb_ok E (id_seed i')"
proof (cases v)
  case RfcDraft14
  obtain k i' where "make_online_key14 E (memory_ops E) None secret (Mock now) \<lparr>dur_secs = secs, dur_nanos = 0\<rparr> i = Ok (k, i')"
    "ok14_secret k = secret" "dele_of_key p (Draft14Key k) = Ok (dele_new (ed_public E secret) now secs)" "mb_ok E (id_seed i')"
    using key14_made [OF assms, of secret secs p] by blast
  then show thesis using RfcDraft14 signer_ok(1) [OF assms(1)] by (intro that [of "Draft14Key k" i']) simp_all
next
  case RfcDraft08
  obtain k i' where "make_online_key08 E (memory_ops E) None secret (Mock now) \<lparr>dur_secs = secs, dur_nanos = 0\<rparr> i = Ok (k, i')"
    "ok08_secret k = secret" "dele_of_key p (Draft08Key k) = Ok (dele_new (ed_public E secret) now secs)" "mb_ok E (id_seed i')"
    using key08_made [OF assms, of secret secs p] by blast
  then show thesis using RfcDraft08 signer_ok(1) [OF assms(1)] by (intro that [of "Draft08Key k" i']) simp_all
qed

lemma window_verified:
  assumes "dele_of_key p k = Ok (dele_new pk now secs)" "unat now + unat secs < 2 ^ 64"
  shows "verify_validity_window p k now secs = Ok ()"
  using assms by (simp add: verify_validity_window_def assert_that_def dele_new_def saturating_add_def)

section \<open>The tests pass\<close>

lemma period_and_expiry_pass:
  assumes "ed25519_ok E" "length val = 32"
  shows "correct_validity_period v p E val secret = Ok ()" "detect_expired_online_key v p E val secret = Ok ()"
proof -
  obtain i where i: "random_identity E v val = Ok i" "mb_ok E (id_seed i)" using random_identity_ok [OF assms] by blast
  have t: "start_time \<noteq> 0" by (simp add: start_time_def)
  obtain k i' where k: "make_online_key E v secret start_time 3600 i = Ok (k, i')" "dele_of_key p k = Ok (dele_new (ed_public E secret) start_time 3600)"
    by (rule key_made [OF assms(1) i(2) t])
  show "correct_validity_period v p E val secret = Ok ()"
    using i(1) k(1) window_verified [OF k(2)] by (simp add: correct_validity_period_def start_time_def)
  show "detect_expired_online_key v p E val secret = Ok ()" using i(1) k
    by (simp add: detect_expired_online_key_def is_key_expired_def dele_new_def saturating_add_def start_time_def assert_that_def)
qed

lemma overlap_passes:
  assumes "ed25519_ok E" "length val = 32"
  shows "validity_overlap v p E val secret1 secret2 = Ok ()"
proof -
  obtain i where i: "random_identity E v val = Ok i" "mb_ok E (id_seed i)" using random_identity_ok [OF assms] by blast
  have t: "start_time \<noteq> 0" "start_time + 1800 \<noteq> 0" by (simp_all add: start_time_def)
  obtain k i' where k: "make_online_key E v secret1 start_time 3600 i = Ok (k, i')" "dele_of_key p k = Ok (dele_new (ed_public E secret1) start_time 3600)"
    "mb_ok E (id_seed i')" by (rule key_made [OF assms(1) i(2) t(1)])
  obtain k2 i2 where k2: "make_online_key E v secret2 (start_time + 1800) 3600 i' = Ok (k2, i2)"
    "dele_of_key p k2 = Ok (dele_new (ed_public E secret2) (start_time + 1800) 3600)" by (rule key_made [OF assms(1) k(3) t(2)])
  show ?thesis using i(1) k(1,2) k2
    by (simp add: validity_overlap_def is_key_expired_def dele_new_def saturating_add_def start_time_def assert_that_def sub_word_def)
qed

lemma rotations_run:
  assumes E: "ed25519_ok E"
  shows "mb_ok E (id_seed i) \<Longrightarrow> 0 < unat t \<Longrightarrow> unat t + 50 * length secrets + 100 < 2 ^ 64 \<Longrightarrow>
    \<exists>keys. rotations p E v t secrets i = Ok keys \<and> map_outcome (public_key_bytes E) keys = Ok (map (ed_public E) secrets) \<and>
      (\<exists>ds. map_outcome (dele_of_key p) keys = Ok ds \<and> check_overlaps ds = Ok () \<and> (ds \<noteq> [] \<longrightarrow> dele_min_time (hd ds) = t)) \<and>
      length keys = length secrets"
proof (induction secrets arbitrary: t i)
  case (Cons secret secrets)
  have t: "t \<noteq> 0" using Cons.prems(2) by auto
  obtain k i' where k: "make_online_key E v secret t 100 i = Ok (k, i')" "dele_of_key p k = Ok (dele_new (ed_public E secret) t 100)"
    "public_key_bytes E k = Ok (ed_public E secret)" "mb_ok E (id_seed i')" by (rule key_made [OF E Cons.prems(1) t])
  have w: "verify_validity_window p k t 100 = Ok ()" using Cons.prems(3) by (intro window_verified [OF k(2)]) simp
  show ?case
  proof (cases "secrets = []")
    case True
    then show ?thesis using k w by (auto simp: dele_new_times)
  next
    case False
    have u: "unat (t + 50) = unat t + 50" and a: "add_word p t 50 = (Ok (t + 50) :: (backend_error, u64) outcome)"
      using Cons.prems(3) by (simp_all add: unat_word_ariths add_word_def)
    obtain keys ds where ks: "rotations p E v (t + 50) secrets i' = Ok keys" "map_outcome (public_key_bytes E) keys = Ok (map (ed_public E) secrets)"
      "map_outcome (dele_of_key p) keys = Ok ds" "check_overlaps ds = Ok ()" "ds \<noteq> [] \<longrightarrow> dele_min_time (hd ds) = t + 50" "length keys = length secrets"
      using Cons.IH [OF k(4), of "t + 50"] Cons.prems(2,3) u by auto
    have "check_overlaps (dele_new (ed_public E secret) t 100 # ds) = Ok ()"
    proof (cases ds)
      case (Cons d ds')
      have "t + 50 < saturating_add t 100" using Cons.prems(3) u by (simp add: saturating_add_def word_less_nat_alt unat_word_ariths)
      with Cons ks(4,5) show ?thesis by (simp add: dele_new_def assert_that_def)
    qed simp
    with k w a ks False show ?thesis by (auto simp: dele_new_times)
  qed
qed simp

lemma rotations_exact:
  assumes "ed25519_ok E" "length val = 32" "length secrets = 5"
  shows "multiple_key_rotations v p E val secrets = Ok () \<longleftrightarrow> distinct (map (ed_public E) secrets)"
proof -
  obtain i where i: "random_identity E v val = Ok i" "mb_ok E (id_seed i)" using random_identity_ok [OF assms(1,2)] by blast
  obtain keys ds where "rotations p E v start_time secrets i = Ok keys" "map_outcome (public_key_bytes E) keys = Ok (map (ed_public E) secrets)"
    "map_outcome (dele_of_key p) keys = Ok ds" "check_overlaps ds = Ok ()" "length keys = length secrets"
    using rotations_run [OF assms(1) i(2), of start_time secrets p v] assms(3) by (auto simp: start_time_def)
  then show ?thesis using i(1) assms(3) by (simp add: multiple_key_rotations_def assert_that_def)
qed

lemma srep14_signed:
  assumes "ed25519_ok E" "length val = 32" "length root = 32"
  shows "\<exists>i k i'. random_identity E RfcDraft14 val = Ok i \<and>
    make_online_key14 E (memory_ops E) None secret (Mock start_time) \<lparr>dur_secs = 3600, dur_nanos = 0\<rparr> i = Ok (k, i') \<and>
    (let srep = srep_make RfcDraft14 DEFAULT_RADI_SECONDS t [RfcDraft14] root in
     \<exists>k'. ok14_make_srep E None root (k\<lparr>ok14_clock := Mock t\<rparr>)
       = (Ok ((srep, ed_sign E secret (srep_prefix RfcDraft14 @ srep_enc srep)), k') :: (backend_error, _) outcome)) \<and> ok14_clock k = Mock start_time"
proof -
  obtain i where i: "random_identity E RfcDraft14 val = Ok i" "mb_ok E (id_seed i)" "id_version i = RfcDraft14"
    using random_identity_ok [OF assms(1,2)] by blast
  have t: "start_time \<noteq> 0" by (simp add: start_time_def)
  obtain k i' where k: "make_online_key14 E (memory_ops E) None secret (Mock start_time) \<lparr>dur_secs = 3600, dur_nanos = 0\<rparr> i = Ok (k, i')"
    "ok14_ok E (id_version i) (mb_pk E (id_seed i)) k" "ok14_secret k = secret" "ok14_clock k = Mock start_time"
    using key14_made [OF assms(1) i(2) t] by blast
  have "ok14_ok E RfcDraft14 (mb_pk E (id_seed i)) (k\<lparr>ok14_clock := Mock t\<rparr>)" using k(2) i(3) by (simp add: ok14_ok_def)
  from ok14_make_srep_ok [OF assms(1) this assms(3), of None t, where 'e = backend_error] k(3) i(1) k(1,4) show ?thesis
    by (auto simp: Let_def)
qed

lemma srep08_signed:
  assumes "ed25519_ok E" "length val = 32" "length root = 32"
  shows "\<exists>i k i'. random_identity E RfcDraft08 val = Ok i \<and>
    make_online_key08 E (memory_ops E) None secret (Mock start_time) \<lparr>dur_secs = 3600, dur_nanos = 0\<rparr> i = Ok (k, i') \<and>
    (let srep = srep08_make DEFAULT_RADI_SECONDS t root in
     \<exists>k'. ok08_make_srep E None root (k\<lparr>ok08_clock := Mock t\<rparr>)
       = (Ok ((srep, ed_sign E secret (srep_prefix RfcDraft08 @ srep08_enc srep)), k') :: (backend_error, _) outcome)) \<and> ok08_clock k = Mock start_time"
proof -
  obtain i where i: "random_identity E RfcDraft08 val = Ok i" "mb_ok E (id_seed i)"
    using random_identity_ok [OF assms(1,2)] by blast
  have t: "start_time \<noteq> 0" by (simp add: start_time_def)
  obtain k i' where k: "make_online_key08 E (memory_ops E) None secret (Mock start_time) \<lparr>dur_secs = 3600, dur_nanos = 0\<rparr> i = Ok (k, i')"
    "ok08_ok E (mb_pk E (id_seed i)) k" "ok08_secret k = secret" "ok08_clock k = Mock start_time"
    using key08_made [OF assms(1) i(2) t] by blast
  have "ok08_ok E (mb_pk E (id_seed i)) (k\<lparr>ok08_clock := Mock t\<rparr>)" using k(2) by (simp add: ok08_ok_def)
  from ok08_make_srep_ok [OF assms(1) this assms(3), of None t, where 'e = backend_error] k(3) i(1) k(1,4) show ?thesis
    by (auto simp: Let_def)
qed

lemma boundary_exact:
  assumes "ed25519_ok E" "length val = 32"
  shows "handle_request_at_validity_boundary_draft14 E val secret = Ok () \<longleftrightarrow>
      ed_sign E secret (srep_prefix RfcDraft14 @ srep_enc (srep_make RfcDraft14 DEFAULT_RADI_SECONDS (start_time + 3599) [RfcDraft14] (replicate 32 0x42))) \<noteq> replicate 64 0"
    "handle_request_at_validity_boundary_draft08 E val secret = Ok () \<longleftrightarrow>
      ed_sign E secret (srep_prefix RfcDraft08 @ srep08_enc (srep08_make DEFAULT_RADI_SECONDS (start_time + 3599) (replicate 32 0x42))) \<noteq> replicate 64 0"
proof -
  have r: "length (replicate 32 0x42 :: bytes) = 32" by simp
  show "handle_request_at_validity_boundary_draft14 E val secret = Ok () \<longleftrightarrow>
      ed_sign E secret (srep_prefix RfcDraft14 @ srep_enc (srep_make RfcDraft14 DEFAULT_RADI_SECONDS (start_time + 3599) [RfcDraft14] (replicate 32 0x42))) \<noteq> replicate 64 0"
    using srep14_signed [OF assms r, of secret "start_time + 3599"]
    by (auto simp: handle_request_at_validity_boundary_draft14_def Let_def srep_make_def assert_that_def)
  show "handle_request_at_validity_boundary_draft08 E val secret = Ok () \<longleftrightarrow>
      ed_sign E secret (srep_prefix RfcDraft08 @ srep08_enc (srep08_make DEFAULT_RADI_SECONDS (start_time + 3599) (replicate 32 0x42))) \<noteq> replicate 64 0"
    using srep08_signed [OF assms r, of secret "start_time + 3599"]
    by (auto simp: handle_request_at_validity_boundary_draft08_def Let_def srep08_make_def assert_that_def)
qed

lemma consistent_passes:
  assumes "ed25519_ok E" "length val = 32"
  shows "key_properties_remain_consistent_draft14 E val secret = Ok ()" "key_properties_remain_consistent_draft08 E val secret = Ok ()"
proof -
  have r: "length (replicate 32 0x77 :: bytes) = 32" by simp
  have same: "k\<lparr>ok14_clock := Mock start_time\<rparr> = k" if "ok14_clock k = Mock start_time" for k :: online_key14 using that by (cases k) simp
  have same8: "k\<lparr>ok08_clock := Mock start_time\<rparr> = k" if "ok08_clock k = Mock start_time" for k :: online_key08 using that by (cases k) simp
  show "key_properties_remain_consistent_draft14 E val secret = Ok ()"
    using srep14_signed [OF assms r, of secret start_time]
    by (auto simp: key_properties_remain_consistent_draft14_def Let_def same srep_make_def assert_that_def)
  show "key_properties_remain_consistent_draft08 E val secret = Ok ()"
    using srep08_signed [OF assms r, of secret start_time]
    by (auto simp: key_properties_remain_consistent_draft08_def Let_def same8 srep08_make_def assert_that_def)
qed

lemma lifecycle_tests_pass:
  assumes "ed25519_ok E" "length val = 32"
  shows "online_key_has_correct_validity_period_draft14 p E val secret = Ok ()" "online_key_has_correct_validity_period_draft08 p E val secret = Ok ()"
    "detect_expired_online_key_draft14 p E val secret = Ok ()" "detect_expired_online_key_draft08 p E val secret = Ok ()"
    "ensure_key_validity_overlap_draft14 p E val secret secret2 = Ok ()" "ensure_key_validity_overlap_draft08 p E val secret secret2 = Ok ()"
    "length secrets = 5 \<Longrightarrow> multiple_key_rotations_over_time_draft14 p E val secrets = Ok () \<longleftrightarrow> distinct (map (ed_public E) secrets)"
    "length secrets = 5 \<Longrightarrow> multiple_key_rotations_over_time_draft08 p E val secrets = Ok () \<longleftrightarrow> distinct (map (ed_public E) secrets)"
  using period_and_expiry_pass [OF assms] overlap_passes [OF assms] rotations_exact [OF assms]
  by (simp_all add: online_key_has_correct_validity_period_draft14_def online_key_has_correct_validity_period_draft08_def
      detect_expired_online_key_draft14_def detect_expired_online_key_draft08_def ensure_key_validity_overlap_draft14_def ensure_key_validity_overlap_draft08_def
      multiple_key_rotations_over_time_draft14_def multiple_key_rotations_over_time_draft08_def)

text \<open>The key source: a second key starts when it is made, whatever the first one was.\<close>

lemma key_source_tests_pass:
  assumes E: "ed25519_ok E" and val: "length val = 32"
  shows "zero_validity_duration_panics E val = Ok ()" "key_validity_at_rotation p E val secret1 secret2 = Ok ()"
    "keysource_key_rotation p E val secret1 secret2 = Ok () \<longleftrightarrow> ed_public E secret1 \<noteq> ed_public E secret2"
proof -
  obtain b where b: "mb_from_random E val = Ok b" "mb_ok E b"
    using mb_from_value_ok [OF E val] by (auto simp: mb_from_random_def mb_from_value_def)
  show "zero_validity_duration_panics E val = Ok ()" using b(1) by (simp add: zero_validity_duration_panics_def key_source_new_def assert_that_def)
  have t: "start_time \<noteq> 0" "start_time + 1800 \<noteq> 0" "start_time + 61 \<noteq> 0" by (simp_all add: start_time_def)
  let ?i = "\<lparr>id_seed = b, id_version = RfcDraft14\<rparr>"
  have ks: "test_key_source E val secs = Ok \<lparr>ks_identity = ?i, ks_validity_length = \<lparr>dur_secs = secs, dur_nanos = 0\<rparr>, ks_clock_source = Mock start_time\<rparr>"
    if "secs \<noteq> 0" for secs
    using b that memory_seed.backend_len [of E b] by (simp add: test_key_source_def key_source_new_def identity_new_def assert_that_def)
  have two: "\<exists>k1 i1 k2 i2. make_online_key14 E (memory_ops E) None secret1 (Mock start_time) \<lparr>dur_secs = secs, dur_nanos = 0\<rparr> ?i = Ok (k1, i1) \<and>
      make_online_key14 E (memory_ops E) None secret2 (Mock now) \<lparr>dur_secs = secs, dur_nanos = 0\<rparr> i1 = Ok (k2, i2) \<and>
      ok14_secret k1 = secret1 \<and> ok14_secret k2 = secret2 \<and>
      dele_of_key p (Draft14Key k1) = Ok (dele_new (ed_public E secret1) start_time secs) \<and>
      dele_of_key p (Draft14Key k2) = Ok (dele_new (ed_public E secret2) now secs)" if n: "now \<noteq> 0" for now secs
  proof -
    obtain k1 i1 where 1: "make_online_key14 E (memory_ops E) None secret1 (Mock start_time) \<lparr>dur_secs = secs, dur_nanos = 0\<rparr> ?i = Ok (k1, i1)"
      "ok14_secret k1 = secret1" "dele_of_key p (Draft14Key k1) = Ok (dele_new (ed_public E secret1) start_time secs)" "mb_ok E (id_seed i1)"
      using key14_made [OF E, of ?i start_time secret1 secs p] b(2) t(1) by auto
    with key14_made [OF E 1(4) n, of secret2 secs p] show ?thesis by blast
  qed
  obtain k1 i1 k2 i2 where k: "make_online_key14 E (memory_ops E) None secret1 (Mock start_time) \<lparr>dur_secs = 3600, dur_nanos = 0\<rparr> ?i = Ok (k1, i1)"
      "make_online_key14 E (memory_ops E) None secret2 (Mock (start_time + 1800)) \<lparr>dur_secs = 3600, dur_nanos = 0\<rparr> i1 = Ok (k2, i2)"
      "dele_of_key p (Draft14Key k1) = Ok (dele_new (ed_public E secret1) start_time 3600)"
      "dele_of_key p (Draft14Key k2) = Ok (dele_new (ed_public E secret2) (start_time + 1800) 3600)" using two [OF t(2)] by blast
  then show "key_validity_at_rotation p E val secret1 secret2 = Ok ()" using ks [of 3600]
    by (simp add: key_validity_at_rotation_def ks_make_online_key14_def dele_new_def saturating_add_def start_time_def sub_word_def assert_that_def
        del: dele_of_key.simps)
  obtain k1 i1 k2 i2 where k: "make_online_key14 E (memory_ops E) None secret1 (Mock start_time) \<lparr>dur_secs = 60, dur_nanos = 0\<rparr> ?i = Ok (k1, i1)"
      "make_online_key14 E (memory_ops E) None secret2 (Mock (start_time + 61)) \<lparr>dur_secs = 60, dur_nanos = 0\<rparr> i1 = Ok (k2, i2)"
      "ok14_secret k1 = secret1" "ok14_secret k2 = secret2" "dele_of_key p (Draft14Key k2) = Ok (dele_new (ed_public E secret2) (start_time + 61) 60)"
    using two [OF t(3)] by blast
  then show "keysource_key_rotation p E val secret1 secret2 = Ok () \<longleftrightarrow> ed_public E secret1 \<noteq> ed_public E secret2" using ks [of 60]
    by (simp add: signer_ok(1) [OF E] keysource_key_rotation_def ks_make_online_key14_def dele_new_def saturating_add_def start_time_def assert_that_def
        del: dele_of_key.simps)
qed

end
