(* ===== verification/Signing_Tests.thy ===== *)
theory Signing_Tests
  imports Key_Tests
begin

text \<open>
  The tests of signatures, certificates and signed responses (\<^verbatim>\<open>keys/src/lib.rs\<close>), for both drafts, as values that are \<open>Ok ()\<close> when
  a test passes. \<open>sys\<close> is the reading of the system clock. The tests compare times as floating-point numbers; \<open>later\<close> is that
  comparison, of which \<open>f64_exact\<close> says that it is exact below \<open>2 ^ 53\<close>. Shown: the tests pass.
\<close>

section \<open>Tests\<close>

definition verifier_verify :: "ed25519 \<Rightarrow> bytes \<Rightarrow> bytes \<Rightarrow> bytes \<Rightarrow> (backend_error, bool) outcome" where
  "verifier_verify E public_key data sg = and_then (copy_array 32 public_key) (\<lambda>k. Ok (ed_verify E k data sg))"

definition invalid_seed_length_should_panic :: "(backend_error, unit) outcome" where
  "invalid_seed_length_should_panic =
     (case (seed_new (ascii ''this won't work'') :: (backend_error, bytes) outcome) of Panic \<Rightarrow> Ok () | _ \<Rightarrow> Panic)"

definition signer_verifier_roundtrip :: "ed25519 \<Rightarrow> bytes \<Rightarrow> (backend_error, unit) outcome" where
  "signer_verifier_roundtrip E secret =
     (let message = ascii ''hello world'' in
      and_then (signer_sign E secret message) (\<lambda>sg.
      and_then (signer_public_key E secret) (\<lambda>pk.
      and_then (verifier_verify E pk message sg) assert_that)))"

text \<open>The assertions on a certificate, made at \<open>now\<close> for the online key \<open>pubk\<close>.\<close>

definition check_cert ::
  "ed25519 \<Rightarrow> (u64 \<Rightarrow> u64 \<Rightarrow> bool) \<Rightarrow> protocol_version \<Rightarrow> public_key \<Rightarrow> u64 \<Rightarrow> certificate \<Rightarrow> public_key \<Rightarrow> (backend_error, unit) outcome" where
  "check_cert E later v ltk_pubk now cert pubk =
     (let dele = cert_delegation cert in
      and_then (expect (as_bytes dele_wire_size dele_to_wire dele)) (\<lambda>bs.
      and_then (verifier_verify E ltk_pubk (dele_prefix v @ bs) (cert_signature cert)) (\<lambda>valid.
      and_then (assert_that valid) (\<lambda>_.
      and_then (assert_that (dele_public_key dele = pubk)) (\<lambda>_.
      and_then (assert_that (dele_min_time dele = now)) (\<lambda>_.
      assert_that (later (dele_max_time dele) now)))))))"

definition minute :: duration where
  "minute = \<lparr>dur_secs = 60, dur_nanos = 0\<rparr>"

definition cert_is_created_correctly_draft14 ::
  "profile \<Rightarrow> ed25519 \<Rightarrow> (u64 \<Rightarrow> u64 \<Rightarrow> bool) \<Rightarrow> u64 option \<Rightarrow> bytes \<Rightarrow> bytes \<Rightarrow> (backend_error, unit) outcome" where
  "cert_is_created_correctly_draft14 p E later sys val secret =
     and_then (random_identity E RfcDraft14 val) (\<lambda>ltk.
     and_then (epoch_seconds sys System) (\<lambda>now.
     and_then (make_online_key14 E (memory_ops E) sys secret (Mock now) minute ltk) (\<lambda>(olk, ltk).
     and_then (identity_public_key (memory_ops E) ltk) (\<lambda>ltk_pubk.
     and_then (ok14_get_cert p olk) (\<lambda>cert.
     and_then (signer_public_key E (ok14_secret olk)) (\<lambda>pubk.
     check_cert E later RfcDraft14 ltk_pubk now cert pubk))))))"

definition cert_is_created_correctly_draft08 ::
  "profile \<Rightarrow> ed25519 \<Rightarrow> (u64 \<Rightarrow> u64 \<Rightarrow> bool) \<Rightarrow> u64 option \<Rightarrow> bytes \<Rightarrow> bytes \<Rightarrow> (backend_error, unit) outcome" where
  "cert_is_created_correctly_draft08 p E later sys val secret =
     and_then (random_identity E RfcDraft08 val) (\<lambda>ltk.
     and_then (epoch_seconds sys System) (\<lambda>now.
     and_then (make_online_key08 E (memory_ops E) sys secret (Mock now) minute ltk) (\<lambda>(olk, ltk).
     and_then (identity_public_key (memory_ops E) ltk) (\<lambda>ltk_pubk.
     and_then (ok08_get_cert p olk) (\<lambda>cert.
     and_then (signer_public_key E (ok08_secret olk)) (\<lambda>pubk.
     check_cert E later RfcDraft08 ltk_pubk now cert pubk))))))"

definition online_key_generates_valid_srep_values_draft14 ::
  "ed25519 \<Rightarrow> u64 option \<Rightarrow> bytes \<Rightarrow> bytes \<Rightarrow> (backend_error, unit) outcome" where
  "online_key_generates_valid_srep_values_draft14 E sys val secret =
     and_then (random_identity E RfcDraft14 val) (\<lambda>ltk.
     and_then (epoch_seconds sys System) (\<lambda>now.
     and_then (make_online_key14 E (memory_ops E) sys secret (Mock now) minute ltk) (\<lambda>(olk, _).
     let merkle_root = fixed_tag_default 32 in
     and_then (ok14_make_srep E sys merkle_root olk) (\<lambda>((srep, sg), olk).
     and_then (epoch_seconds sys (Mock now)) (\<lambda>midp.
     and_then (assert_that (srep_merkle_root srep = merkle_root)) (\<lambda>_.
     and_then (assert_that (srep_midpoint srep = midp)) (\<lambda>_.
     and_then (assert_that (srep_radius srep = 5)) (\<lambda>_.
     and_then (assert_that (srep_version srep = RfcDraft14)) (\<lambda>_.
     and_then (assert_that (srep_supported_versions srep = supported_versions_new [RfcDraft14])) (\<lambda>_.
     and_then (signer_public_key E (ok14_secret olk)) (\<lambda>pubk.
     and_then (expect (as_bytes srep_wire_size srep_to_wire srep)) (\<lambda>bs.
     and_then (verifier_verify E pubk (srep_prefix RfcDraft14 @ bs) sg) assert_that))))))))))))"

definition online_key_generates_valid_srep_values_draft08 ::
  "ed25519 \<Rightarrow> u64 option \<Rightarrow> bytes \<Rightarrow> bytes \<Rightarrow> (backend_error, unit) outcome" where
  "online_key_generates_valid_srep_values_draft08 E sys val secret =
     and_then (random_identity E RfcDraft08 val) (\<lambda>ltk.
     and_then (epoch_seconds sys System) (\<lambda>now.
     and_then (make_online_key08 E (memory_ops E) sys secret (Mock now) minute ltk) (\<lambda>(olk, _).
     let merkle_root = fixed_tag_default 32 in
     and_then (ok08_make_srep E sys merkle_root olk) (\<lambda>((srep, sg), olk).
     and_then (epoch_seconds sys (Mock now)) (\<lambda>midp.
     and_then (assert_that (srep08_merkle_root srep = merkle_root)) (\<lambda>_.
     and_then (assert_that (srep08_midpoint srep = midp)) (\<lambda>_.
     and_then (assert_that (srep08_radius srep = 5)) (\<lambda>_.
     and_then (signer_public_key E (ok08_secret olk)) (\<lambda>pubk.
     and_then (expect (as_bytes srep08_wire_size srep08_to_wire srep)) (\<lambda>bs.
     and_then (verifier_verify E pubk (srep_prefix RfcDraft08 @ bs) sg) assert_that))))))))))"

section \<open>The tests pass\<close>

definition f64_exact :: "(u64 \<Rightarrow> u64 \<Rightarrow> bool) \<Rightarrow> bool" where
  "f64_exact later \<longleftrightarrow> (\<forall>a b. unat a < 2 ^ 53 \<and> unat b + 60 < 2 ^ 53 \<longrightarrow> (later a b \<longleftrightarrow> unat b + 60 \<le> unat a))"

lemma verifier_verify_ok: "length pk = 32 \<Longrightarrow> verifier_verify E pk data sg = Ok (ed_verify E pk data sg)"
  by (simp add: verifier_verify_def copy_array_def)

lemma signing_tests_pass:
  assumes "ed25519_ok E"
  shows "invalid_seed_length_should_panic = Ok ()" "signer_verifier_roundtrip E secret = Ok ()"
proof -
  show "invalid_seed_length_should_panic = Ok ()" by (simp add: invalid_seed_length_should_panic_def seed_new_def ascii_def)
  show "signer_verifier_roundtrip E secret = Ok ()" 
    by (simp add: signer_verifier_roundtrip_def verifier_verify_ok Let_def signer_ok [OF assms] ed25519_lengths [OF assms])
qed

lemma check_cert_ok:
  assumes "cert_delegates E v lt_pk c pk" "length lt_pk = 32" "cert_delegation c = dele_new pk now 60" "f64_exact later" "unat now + 60 < 2 ^ 53"
  shows "check_cert E later v lt_pk now c pk = Ok ()"
proof -
  have d: "dele_valid (cert_delegation c)" using assms(1) by (simp add: cert_delegates_def cert_valid_def)
  have "saturating_add now 60 = now + 60" "unat (now + 60) = unat now + 60"
    using assms(5) by (simp_all add: saturating_add_def unat_word_ariths)
  then have "later (dele_max_time (cert_delegation c)) now" using assms(3,4,5) by (simp add: f64_exact_def dele_new_def)
  then show ?thesis using assms(1,2,3) dele_codec.as_bytes_enc [OF d] dele_new_times(1) [of pk now 60]
    by (simp add: check_cert_def cert_delegates_def verifier_verify_ok Let_def)
qed

text \<open>The keys that the tests make, at a system time that is not zero.\<close>

lemma identity_for_test:
  assumes "ed25519_ok E" "length val = 32"
  shows "\<exists>i. random_identity E v val = Ok i \<and> mb_ok E (id_seed i) \<and> id_version i = v \<and> length (mb_pk E (id_seed i)) = 32"
proof -
  obtain i where "random_identity E v val = Ok i" "mb_ok E (id_seed i)" "id_version i = v" using random_identity_ok [OF assms] by blast
  then show ?thesis using mb_ok_seed [of E "id_seed i"] ed25519_lengths(1) [OF assms(1)] by auto
qed

lemma memory_public_key: "mb_ok E (id_seed i) \<Longrightarrow> identity_public_key (memory_ops E) i = Ok (mb_pk E (id_seed i))"
  using mb_ok_seed [of E "id_seed i"] by (auto simp: identity_public_key_def memory_ops_def mb_get_public_key_def)

lemma delegating_cert_set: "cert_delegation c = dele_new pk now secs \<Longrightarrow> now \<noteq> 0 \<Longrightarrow> c \<noteq> cert_default"
  by (auto simp: cert_default_def dele_new_def dele_default_def dest: arg_cong [where f = dele_min_time])

lemma secret_kept:
  "make_online_key14 E ops sys secret clock d i = Ok (k14, i') \<Longrightarrow> ok14_secret k14 = secret"
  "make_online_key08 E ops sys secret clock d i = Ok (k08, i') \<Longrightarrow> ok08_secret k08 = secret"
  by (auto simp: make_online_key14_def make_online_key08_def and_then_Ok_iff Let_def ok14_set_cert_def ok14_new_def
      ok08_set_cert_def ok08_new_def)

theorem cert_tests_pass:
  assumes "ed25519_ok E" "length val = 32" "f64_exact later" "now \<noteq> 0" "unat now + 60 < 2 ^ 53"
  shows "cert_is_created_correctly_draft14 p E later (Some now) val secret = Ok ()"
    "cert_is_created_correctly_draft08 p E later (Some now) val secret = Ok ()"
proof -
  obtain i where i: "random_identity E RfcDraft14 val = Ok i" "mb_ok E (id_seed i)" "id_version i = RfcDraft14" "length (mb_pk E (id_seed i)) = 32"
    using identity_for_test [OF assms(1,2)] by blast
  obtain k i' where k: "make_online_key14 E (memory_ops E) (Some now) secret (Mock now) minute i = Ok (k, i')"
    "ok14_ok E RfcDraft14 (mb_pk E (id_seed i)) k" "cert_delegation (ok14_cert k) = dele_new (ed_public E secret) now 60"
    "mb_ok E (id_seed i')" "mb_pk E (id_seed i') = mb_pk E (id_seed i)"
    using memory_seed.make_online_key14_ok [OF assms(1) i(2), of "Some now" "Mock now" now secret minute] i(3) by (auto simp: minute_def)
  have "check_cert E later RfcDraft14 (mb_pk E (id_seed i)) now (ok14_cert k) (ed_public E secret) = Ok ()"
    by (rule check_cert_ok [OF _ i(4) k(3) assms(3,5)]) (use k(2) secret_kept(1) [OF k(1)] in \<open>simp add: ok14_ok_def\<close>)
  then show "cert_is_created_correctly_draft14 p E later (Some now) val secret = Ok ()"
    using i(1) k(1,5) secret_kept(1) [OF k(1)] memory_public_key [OF k(4)] delegating_cert_set [OF k(3) assms(4)]
    by (simp add: cert_is_created_correctly_draft14_def system_seconds_def ok14_get_cert_def signer_ok [OF assms(1)])
  obtain j where j: "random_identity E RfcDraft08 val = Ok j" "mb_ok E (id_seed j)" "id_version j = RfcDraft08" "length (mb_pk E (id_seed j)) = 32"
    using identity_for_test [OF assms(1,2)] by blast
  obtain l j' where l: "make_online_key08 E (memory_ops E) (Some now) secret (Mock now) minute j = Ok (l, j')"
    "ok08_ok E (mb_pk E (id_seed j)) l" "cert_delegation (ok08_cert l) = dele_new (ed_public E secret) now 60"
    "mb_ok E (id_seed j')" "mb_pk E (id_seed j') = mb_pk E (id_seed j)"
    using memory_seed.make_online_key08_ok [OF assms(1) j(2), of "Some now" "Mock now" now secret minute] by (auto simp: minute_def)
  have "check_cert E later RfcDraft08 (mb_pk E (id_seed j)) now (ok08_cert l) (ed_public E secret) = Ok ()"
    by (rule check_cert_ok [OF _ j(4) l(3) assms(3,5)]) (use l(2) secret_kept(2) [OF l(1)] in \<open>simp add: ok08_ok_def\<close>)
  then show "cert_is_created_correctly_draft08 p E later (Some now) val secret = Ok ()"
    using j(1) l(1,5) secret_kept(2) [OF l(1)] memory_public_key [OF l(4)] delegating_cert_set [OF l(3) assms(4)]
    by (simp add: cert_is_created_correctly_draft08_def system_seconds_def ok08_get_cert_def signer_ok [OF assms(1)])
qed

lemma srep14_test_passes:
  assumes "ed25519_ok E" "length val = 32"
  shows "online_key_generates_valid_srep_values_draft14 E (Some now) val secret = Ok ()"
proof -
  obtain i where i: "random_identity E RfcDraft14 val = Ok i" "mb_ok E (id_seed i)" "id_version i = RfcDraft14"
    using identity_for_test [OF assms] by blast
  obtain k i' where k: "make_online_key14 E (memory_ops E) (Some now) secret (Mock now) minute i = Ok (k, i')"
    "ok14_ok E RfcDraft14 (mb_pk E (id_seed i)) k" "ok14_clock k = Mock now"
    using memory_seed.make_online_key14_ok [OF assms(1) i(2), of "Some now" "Mock now" now secret minute] i(3) by auto
  define srep where "srep = srep_make RfcDraft14 DEFAULT_RADI_SECONDS now [RfcDraft14] (fixed_tag_default 32)"
  have "srep_valid srep" unfolding srep_def by (intro srep_make_valid version_list_single) simp_all
  note bs = srep_message.as_bytes_enc [OF this]
  obtain k' where "ok14_make_srep E (Some now) (fixed_tag_default 32) k =
      (Ok ((srep, ed_sign E secret (srep_prefix RfcDraft14 @ srep_enc srep)), k') :: (backend_error, _) outcome)" "ok14_secret k' = secret"
    using ok14_make_srep_ok [OF assms(1) k(2), of "fixed_tag_default 32" "Some now" now, where 'e = backend_error] k(3) secret_kept(1) [OF k(1)]
    by (auto simp: srep_def)
  moreover have "srep_merkle_root srep = fixed_tag_default 32" "srep_midpoint srep = now" "srep_radius srep = 5"
    "srep_version srep = RfcDraft14" "srep_supported_versions srep = supported_versions_new [RfcDraft14]"
    by (simp_all add: srep_def srep_make_def DEFAULT_RADI_SECONDS_def supported_versions_new_def version_list_new_def MAX_VERSIONS_def)
  ultimately show ?thesis using i(1) k(1) bs
    by (simp add: online_key_generates_valid_srep_values_draft14_def system_seconds_def Let_def signer_ok [OF assms(1)]
        verifier_verify_ok ed25519_lengths [OF assms(1)])
qed

lemma srep08_test_passes:
  assumes "ed25519_ok E" "length val = 32"
  shows "online_key_generates_valid_srep_values_draft08 E (Some now) val secret = Ok ()"
proof -
  obtain i where i: "random_identity E RfcDraft08 val = Ok i" "mb_ok E (id_seed i)" using identity_for_test [OF assms] by blast
  obtain k i' where k: "make_online_key08 E (memory_ops E) (Some now) secret (Mock now) minute i = Ok (k, i')"
    "ok08_ok E (mb_pk E (id_seed i)) k" "ok08_clock k = Mock now"
    using memory_seed.make_online_key08_ok [OF assms(1) i(2), of "Some now" "Mock now" now secret minute] by auto
  define srep where "srep = srep08_make DEFAULT_RADI_SECONDS now (fixed_tag_default 32)"
  have "srep08_valid srep" unfolding srep_def by (rule srep08_make_valid) simp
  note bs = srep08_message.as_bytes_enc [OF this]
  obtain k' where "ok08_make_srep E (Some now) (fixed_tag_default 32) k =
      (Ok ((srep, ed_sign E secret (srep_prefix RfcDraft08 @ srep08_enc srep)), k') :: (backend_error, _) outcome)" "ok08_secret k' = secret"
    using ok08_make_srep_ok [OF assms(1) k(2), of "fixed_tag_default 32" "Some now" now, where 'e = backend_error] k(3) secret_kept(2) [OF k(1)]
    by (auto simp: srep_def)
  moreover have "srep08_merkle_root srep = fixed_tag_default 32" "srep08_midpoint srep = now" "srep08_radius srep = 5"
    by (simp_all add: srep_def srep08_make_def DEFAULT_RADI_SECONDS_def)
  ultimately show ?thesis using i(1) k(1) bs
    by (simp add: online_key_generates_valid_srep_values_draft08_def system_seconds_def Let_def signer_ok [OF assms(1)]
        verifier_verify_ok ed25519_lengths [OF assms(1)])
qed

end
