(* ===== verification/Merkle_Tests.thy ===== *)
theory Merkle_Tests
  imports Merkle
begin

unbundle bit_operations_syntax

text \<open>
  The tests of the Merkle tree: the test module of \<^verbatim>\<open>merkle/src/lib.rs\<close> and
  \<^verbatim>\<open>merkle/tests/merkle_validation_tests.rs\<close>, as values that are \<open>Ok ()\<close> when a test passes; the nonces that the tests write in
  hexadecimal are the bytes they stand for. The test of \<open>Vec\<close> capacities is left out: capacity is not part of the tree's state.
  Shown: the tests that rebuild a root pass for every hash function with 64-byte results; those that expect
  two roots to differ pass exactly when the stated hashes differ, and where two inputs of the same shape are compared, a failing test
  is a collision of the truncated hash.
\<close>

section \<open>Shared steps\<close>

text \<open>A new tree with leaves, and its root.\<close>

definition tree_of :: "hash_fn \<Rightarrow> bytes list \<Rightarrow> (unit, hash \<times> merkle_tree) outcome" where
  "tree_of H ds = and_then (push_leaves H ds tree_new) (compute_root H)"

text \<open>The loop that verifies each leaf by its path; \<open>depth\<close> is the path length that a test asserts, if it does.\<close>

fun verify_leaves ::
  "profile \<Rightarrow> hash_fn \<Rightarrow> merkle_tree \<Rightarrow> hash \<Rightarrow> nat option \<Rightarrow> nat \<Rightarrow> bytes list \<Rightarrow> (unit, unit) outcome" where
  "verify_leaves p H tree root depth i [] = Ok ()"
| "verify_leaves p H tree root depth i (d # ds) =
     and_then (get_paths p tree i) (\<lambda>path.
     and_then (assert_that (root_from_paths H i d path = root)) (\<lambda>_.
     and_then (case depth of Some n \<Rightarrow> assert_that (path_depth path = n) | None \<Rightarrow> Ok ()) (\<lambda>_.
     verify_leaves p H tree root depth (Suc i) ds)))"

definition verify_tree :: "profile \<Rightarrow> hash_fn \<Rightarrow> nat option \<Rightarrow> bytes list \<Rightarrow> (unit, unit) outcome" where
  "verify_tree p H depth ds = and_then (tree_of H ds) (\<lambda>(root, tree). verify_leaves p H tree root depth 0 ds)"

section \<open>The test module of the library\<close>

definition test_paths_with_num :: "profile \<Rightarrow> hash_fn \<Rightarrow> nat \<Rightarrow> (unit, unit) outcome" where
  "test_paths_with_num p H num = verify_tree p H None (map (\<lambda>i. [of_nat i]) [0..<num])"

definition power_of_two :: "profile \<Rightarrow> hash_fn \<Rightarrow> (unit, unit) outcome" where
  "power_of_two p H =
     and_then (test_paths_with_num p H 2) (\<lambda>_.
     and_then (test_paths_with_num p H 4) (\<lambda>_.
     and_then (test_paths_with_num p H 8) (\<lambda>_.
     test_paths_with_num p H 16)))"

definition not_power_of_two :: "profile \<Rightarrow> hash_fn \<Rightarrow> (unit, unit) outcome" where
  "not_power_of_two p H = and_then (test_paths_with_num p H 1) (\<lambda>_. test_paths_with_num p H 19)"

definition empty_tree_panics :: "hash_fn \<Rightarrow> (unit, unit) outcome" where
  "empty_tree_panics H =
     (case (compute_root H tree_new :: (unit, hash \<times> merkle_tree) outcome) of Panic \<Rightarrow> Ok () | _ \<Rightarrow> Panic)"

definition single_leaf :: "hash_fn \<Rightarrow> (unit, unit) outcome" where
  "single_leaf H = and_then (tree_of H [[1, 2, 3, 4]]) (\<lambda>(root, _). assert_that (root = hash_leaf H [1, 2, 3, 4]))"

definition different_leaf_order :: "hash_fn \<Rightarrow> (unit, unit) outcome" where
  "different_leaf_order H =
     and_then (tree_of H [[1, 2, 3], [4, 5, 6]]) (\<lambda>(root1, tree).
     and_then (push_leaves H [[4, 5, 6], [1, 2, 3]] (tree_clear tree)) (\<lambda>tree.
     and_then (compute_root H tree) (\<lambda>(root2, _).
     assert_that (root1 \<noteq> root2))))"

definition clear_tree :: "hash_fn \<Rightarrow> (unit, unit) outcome" where
  "clear_tree H =
     and_then (tree_of H [[1, 2, 3], [4, 5, 6]]) (\<lambda>(root, tree).
     and_then (assert_that (root \<noteq> [])) (\<lambda>_.
     and_then (tree_is_empty (tree_clear tree)) assert_that))"

definition path_verification :: "profile \<Rightarrow> hash_fn \<Rightarrow> (unit, unit) outcome" where
  "path_verification p H =
     verify_tree p H None [[1, 2, 3, 4], [5, 6, 7, 8], [9, 10, 11, 12], [13, 14, 15, 16]]"

definition add_leaves_after_computing_root :: "hash_fn \<Rightarrow> (unit, unit) outcome" where
  "add_leaves_after_computing_root H =
     and_then (tree_of H [[1, 2, 3]]) (\<lambda>(root1, tree).
     and_then (push_leaf H [4, 5, 6] tree) (\<lambda>tree.
     and_then (compute_root H tree) (\<lambda>(root2, _).
     assert_that (root1 \<noteq> root2))))"

section \<open>Validation tests\<close>

definition sample_nonce1 :: nonce where
  "sample_nonce1 =
     [0x4c, 0x16, 0xc6, 0x19, 0xd7, 0x71, 0x6f, 0xae, 0x49, 0x55, 0x2b, 0x33, 0x93, 0xfd, 0x07, 0xcf,
      0xf4, 0xc6, 0xf1, 0x6a, 0x1a, 0xb5, 0xa2, 0xf7, 0xce, 0x52, 0x40, 0xf9, 0x4a, 0x6d, 0x1f, 0x29]"

definition filled :: "u8 \<Rightarrow> nonce" where
  "filled b = replicate 32 b"

definition deadbeef :: nonce where
  "deadbeef = concat (replicate 8 [0xde, 0xad, 0xbe, 0xef])"

definition valid_merkle_proof_single_leaf :: "profile \<Rightarrow> hash_fn \<Rightarrow> (unit, unit) outcome" where
  "valid_merkle_proof_single_leaf p H = verify_tree p H (Some 0) [sample_nonce1]"

definition valid_merkle_proof_two_leaves :: "profile \<Rightarrow> hash_fn \<Rightarrow> (unit, unit) outcome" where
  "valid_merkle_proof_two_leaves p H = verify_tree p H (Some 1) [filled 0, filled 0x11]"

text \<open>The frame of the tests that expect another root than that of the leaves \<open>ds\<close>, from the path at \<open>i\<close>.\<close>

definition expect_other_root ::
  "profile \<Rightarrow> hash_fn \<Rightarrow> bytes list \<Rightarrow> nat \<Rightarrow> (merkle_path \<Rightarrow> (unit, hash) outcome) \<Rightarrow> (unit, unit) outcome" where
  "expect_other_root p H ds i compute =
     and_then (tree_of H ds) (\<lambda>(root, tree).
     and_then (get_paths p tree i) (\<lambda>path.
     and_then (compute path) (\<lambda>computed_root.
     assert_that (computed_root \<noteq> root))))"

definition invalid_merkle_proof_wrong_index :: "profile \<Rightarrow> hash_fn \<Rightarrow> (unit, unit) outcome" where
  "invalid_merkle_proof_wrong_index p H =
     expect_other_root p H [filled 0, filled 0x11] 0 (\<lambda>path. Ok (root_from_paths H 1 (filled 0) path))"

definition invalid_merkle_proof_wrong_leaf_data :: "profile \<Rightarrow> hash_fn \<Rightarrow> (unit, unit) outcome" where
  "invalid_merkle_proof_wrong_leaf_data p H =
     expect_other_root p H [filled 0, filled 0x11] 0 (\<lambda>path. Ok (root_from_paths H 0 (filled 0x22) path))"

text \<open>Copies of the elements with the bits of the second byte flipped.\<close>

definition corrupt_elem :: "bytes \<Rightarrow> (unit, bytes) outcome" where
  "corrupt_elem e = and_then (copy_array 32 e) (\<lambda>e. and_then (index_at e 1) (\<lambda>b. Ok (e[1 := b XOR 0xFF])))"

fun corrupt_path :: "bytes list \<Rightarrow> merkle_path \<Rightarrow> (unit, merkle_path) outcome" where
  "corrupt_path [] corrupted = Ok corrupted"
| "corrupt_path (e # es) corrupted = and_then (corrupt_elem e) (\<lambda>e'. and_then (push_element e' corrupted) (corrupt_path es))"

definition invalid_merkle_proof_corrupted_path :: "profile \<Rightarrow> hash_fn \<Rightarrow> (unit, unit) outcome" where
  "invalid_merkle_proof_corrupted_path p H =
     expect_other_root p H [filled 0, filled 0x11] 0 (\<lambda>path.
       and_then (corrupt_path (path_elements path) path_default) (\<lambda>corrupted. Ok (root_from_paths H 0 (filled 0) corrupted)))"

definition numbered_nonces :: "nat \<Rightarrow> nonce list" where
  "numbered_nonces n = map (\<lambda>i. (replicate 32 0)[0 := of_nat i]) [0..<n]"

definition merkle_proof_larger_tree :: "profile \<Rightarrow> hash_fn \<Rightarrow> (unit, unit) outcome" where
  "merkle_proof_larger_tree p H = verify_tree p H (Some 3) (numbered_nonces 8)"

definition merkle_proof_non_power_of_two :: "profile \<Rightarrow> hash_fn \<Rightarrow> (unit, unit) outcome" where
  "merkle_proof_non_power_of_two p H = verify_tree p H None (numbered_nonces 5)"

fun push_elements :: "bytes list \<Rightarrow> merkle_path \<Rightarrow> (unit, merkle_path) outcome" where
  "push_elements [] mp = Ok mp"
| "push_elements (e # es) mp = and_then (push_element e mp) (push_elements es)"

definition path_too_long_for_index :: "profile \<Rightarrow> hash_fn \<Rightarrow> (unit, unit) outcome" where
  "path_too_long_for_index p H =
     and_then (tree_of H [filled 0, filled 1]) (\<lambda>(_, tree).
     and_then (get_paths p tree 0) (\<lambda>path.
     and_then (assert_that (path_depth path = 1)) (\<lambda>_.
     and_then (push_elements (replicate 5 (filled 0)) path_default) (\<lambda>long_path.
     let computed_root = root_from_paths H 0 (filled 0) long_path in
     and_then (compute_root H tree) (\<lambda>(actual_root, _).
     assert_that (computed_root \<noteq> actual_root))))))"

definition adversarial_path_attempts :: "profile \<Rightarrow> hash_fn \<Rightarrow> (unit, unit) outcome" where
  "adversarial_path_attempts p H =
     and_then (tree_of H [filled 0, deadbeef]) (\<lambda>(root, tree).
     and_then (get_paths p tree 1) (\<lambda>valid_path.
     and_then (assert_that (root_from_paths H 1 (filled 0xff) valid_path \<noteq> root)) (\<lambda>_.
     assert_that (root_from_paths H 0 deadbeef valid_path \<noteq> root))))"

definition count_ones :: "u8 \<Rightarrow> nat" where
  "count_ones w = length (filter (bit w) [0..<8])"

definition differing_bits :: "bytes \<Rightarrow> bytes \<Rightarrow> nat" where
  "differing_bits xs ys = sum_list (map (\<lambda>(a, b). count_ones (a XOR b)) (zip xs ys))"

definition collision_resistance :: "hash_fn \<Rightarrow> (unit, unit) outcome" where
  "collision_resistance H =
     and_then (tree_of H [filled 0]) (\<lambda>(root1, _).
     and_then (tree_of H [(filled 0)[31 := 1]]) (\<lambda>(root2, _).
     and_then (assert_that (root1 \<noteq> root2)) (\<lambda>_.
     assert_that (differing_bits root1 root2 > 77))))"

text \<open>A \<open>MerkleRoot\<close> is its 32 bytes.\<close>

definition merkle_root_type_conversion :: "hash_fn \<Rightarrow> (unit, unit) outcome" where
  "merkle_root_type_conversion H =
     and_then (tree_of H [sample_nonce1]) (\<lambda>(computed_root, _).
     and_then (copy_array 32 computed_root) (\<lambda>merkle_root. assert_that (merkle_root = computed_root)))"

section \<open>The tests that rebuild a root pass\<close>

lemma tree_of_ok:
  assumes "ds \<noteq> []"
  shows "tree_of H ds = Ok (merkle_root_spec H (map (hash_leaf H) ds),
           \<lparr>mt_levels = merkle_levels_spec H (map (hash_leaf H) ds)\<rparr>)"
proof -
  have "push_leaves H es \<lparr>mt_levels = [xs]\<rparr> = (Ok \<lparr>mt_levels = [xs @ map (hash_leaf H) es]\<rparr> :: (unit, merkle_tree) outcome)" for es xs
    by (induction es arbitrary: xs) (simp_all add: push_leaf_def index_at_def)
  then show ?thesis using assms
    by (simp add: tree_of_def tree_new_def compute_root_eq [of _ "map (hash_leaf H) ds" "[]"])
qed

text \<open>The path of every leaf.\<close>

lemma tree_path:
  assumes "sha512_ok H" "i < length ds" "length ds \<le> 2 ^ 32"
  shows "\<exists>path. get_paths p \<lparr>mt_levels = merkle_levels_spec H (map (hash_leaf H) ds)\<rparr> i = (Ok path :: (unit, merkle_path) outcome) \<and>
     path_ok path \<and> path_elements path = merkle_proof_spec H i (map (hash_leaf H) ds) \<and>
     path_depth path = length (merkle_proof_spec H i (map (hash_leaf H) ds))"
  using get_paths_to_eq [of "\<lparr>mt_levels = merkle_levels_spec H (map (hash_leaf H) ds)\<rparr>" H "map (hash_leaf H) ds" "[]" i path_default p]
    assms hashes_ok_leaves [OF assms(1), of ds] path_ok_ops(1)
  by (auto simp: get_paths_def path_depth_def path_is_empty_def path_default_def)

lemma verify_leaves_ok:
  assumes "sha512_ok H" "length ds \<le> 2 ^ 32" "drop i ds = es"
    "\<forall>n. depth = Some n \<longrightarrow> (\<forall>j < length ds. length (merkle_proof_spec H j (map (hash_leaf H) ds)) = n)"
  shows "verify_leaves p H \<lparr>mt_levels = merkle_levels_spec H (map (hash_leaf H) ds)\<rparr>
           (merkle_root_spec H (map (hash_leaf H) ds)) depth i es = Ok ()"
  using assms(3)
proof (induction es arbitrary: i)
  case (Cons d es)
  then have i: "i < length ds" "ds ! i = d" "drop (Suc i) ds = es"
    using Cons_nth_drop_Suc [of i ds] by (cases "i < length ds"; simp)+
  from tree_path [OF assms(1) i(1) assms(2), of p]
  obtain path where "get_paths p \<lparr>mt_levels = merkle_levels_spec H (map (hash_leaf H) ds)\<rparr> i = (Ok path :: (unit, merkle_path) outcome)"
    "path_elements path = merkle_proof_spec H i (map (hash_leaf H) ds)"
    "path_depth path = length (merkle_proof_spec H i (map (hash_leaf H) ds))" by blast
  then show ?case using Cons.IH [OF i(3)] i fold_path_proof [of i "map (hash_leaf H) ds" H] assms(4)
    by (auto simp: root_from_paths_def split: option.splits)
qed simp

lemma verify_tree_ok:
  assumes "sha512_ok H" "ds \<noteq> []" "length ds \<le> 2 ^ 32"
    "\<forall>n. depth = Some n \<longrightarrow> (\<forall>j < length ds. length (merkle_proof_spec H j (map (hash_leaf H) ds)) = n)"
  shows "verify_tree p H depth ds = Ok ()"
  using verify_leaves_ok [OF assms(1,3) _ assms(4), of 0 ds p] by (simp add: verify_tree_def tree_of_ok [OF assms(2)])

text \<open>In a full tree every path has the same length.\<close>

lemma proof_length_full: "length xs = 2 ^ k \<Longrightarrow> length (merkle_proof_spec H i xs) = k"
proof (induction k arbitrary: i xs)
  case (Suc k)
  then have "length (next_level H xs) = 2 ^ k" by simp
  moreover have "\<not> length xs \<le> 1" using Suc.prems one_le_power [of "2::nat" k] unfolding power_Suc by linarith
  ultimately show ?case using Suc.IH by (subst merkle_proof_spec.simps) simp
qed (simp add: merkle_proof_spec.simps)

theorem merkle_tests_rebuild:
  assumes "sha512_ok H"
  shows "power_of_two p H = Ok ()" "not_power_of_two p H = Ok ()" "path_verification p H = Ok ()"
    "valid_merkle_proof_single_leaf p H = Ok ()" "valid_merkle_proof_two_leaves p H = Ok ()"
    "merkle_proof_larger_tree p H = Ok ()" "merkle_proof_non_power_of_two p H = Ok ()"
proof -
  have "test_paths_with_num p H num = Ok ()" if "0 < num" "num \<le> 2 ^ 32" for num
    unfolding test_paths_with_num_def by (rule verify_tree_ok) (use assms that in auto)
  then show "power_of_two p H = Ok ()" "not_power_of_two p H = Ok ()" by (simp_all add: power_of_two_def not_power_of_two_def)
  show "path_verification p H = Ok ()" unfolding path_verification_def by (rule verify_tree_ok) (use assms in auto)
  have full: "verify_tree p H (Some k) ds = Ok ()" if "length ds = 2 ^ k" "k \<le> 32" for k ds
    by (rule verify_tree_ok) (use assms that power_increasing [of k 32 "2::nat"] in \<open>auto intro: proof_length_full\<close>)
  show "valid_merkle_proof_single_leaf p H = Ok ()" "valid_merkle_proof_two_leaves p H = Ok ()" "merkle_proof_larger_tree p H = Ok ()"
    by (simp_all add: valid_merkle_proof_single_leaf_def valid_merkle_proof_two_leaves_def merkle_proof_larger_tree_def full numbered_nonces_def)
  show "merkle_proof_non_power_of_two p H = Ok ()" unfolding merkle_proof_non_power_of_two_def
    by (rule verify_tree_ok) (use assms in \<open>auto simp: numbered_nonces_def\<close>)
qed

section \<open>The tests that compare roots\<close>

lemma small_roots [simp]:
  "merkle_root_spec H [a] = a" "merkle_root_spec H [a, b] = hash_nodes H a b"
  by (simp_all add: merkle_root_spec.simps next_level_def pad_level_def upt_rec)

lemma small_proofs [simp]:
  "merkle_proof_spec H 0 [a, b] = [b]" "merkle_proof_spec H (Suc 0) [a, b] = [a]"
  by (simp_all add: merkle_proof_spec.simps next_level_def pad_level_def sibling_of_def upt_rec)

lemma two_leaf_path:
  assumes "sha512_ok H"
  shows "\<exists>path. get_paths p \<lparr>mt_levels = merkle_levels_spec H [hash_leaf H a, hash_leaf H b]\<rparr> 0 = (Ok path :: (unit, merkle_path) outcome) \<and>
      path_elements path = [hash_leaf H b] \<and> path_depth path = 1"
    "\<exists>path. get_paths p \<lparr>mt_levels = merkle_levels_spec H [hash_leaf H a, hash_leaf H b]\<rparr> 1 = (Ok path :: (unit, merkle_path) outcome) \<and>
      path_elements path = [hash_leaf H a]"
  using tree_path [OF assms, of 0 "[a, b]" p] tree_path [OF assms, of 1 "[a, b]" p] by auto

lemma expect_other_root_two:
  assumes "sha512_ok H" "\<And>path. path_elements path = [hash_leaf H b] \<Longrightarrow> compute path = Ok r"
  shows "expect_other_root p H [a, b] 0 compute = Ok () \<longleftrightarrow> r \<noteq> hash_nodes H (hash_leaf H a) (hash_leaf H b)"
  using two_leaf_path(1) [OF assms(1), of p a b] assms(2) by (auto simp: expect_other_root_def tree_of_ok)

lemma empty_and_single:
  "empty_tree_panics H = Ok ()" "single_leaf H = Ok ()" "sha512_ok H \<Longrightarrow> clear_tree H = Ok ()"
  "sha512_ok H \<Longrightarrow> merkle_root_type_conversion H = Ok ()"
proof -
  show "empty_tree_panics H = Ok ()" by (simp add: empty_tree_panics_def compute_root_def tree_new_def index_at_def)
  show "single_leaf H = Ok ()" by (simp add: single_leaf_def tree_of_ok)
  assume H: "sha512_ok H"
  have "tree_ok \<lparr>mt_levels = merkle_levels_spec H xs\<rparr>" for xs by (simp add: tree_ok_def)
  moreover have "hash_nodes H a b \<noteq> []" for a b using length_hash(3) [OF H, of a b] by (metis list.size(3) zero_neq_numeral)
  ultimately show "clear_tree H = Ok ()"
    by (simp add: clear_tree_def tree_of_ok tree_is_empty_iff)
  show "merkle_root_type_conversion H = Ok ()"
    by (simp add: merkle_root_type_conversion_def tree_of_ok copy_array_def H)
qed

lemma push_elements_ok:
  assumes "path_ok mp" "\<forall>e\<in>set es. length e = 32" "mp_num_paths mp + length es \<le> MAX_PATHS"
  shows "\<exists>mp'. push_elements es mp = Ok mp' \<and> path_ok mp' \<and> paths mp' = paths mp @ concat es"
  using assms
proof (induction es arbitrary: mp)
  case (Cons e es)
  obtain mp1 where p1: "push_element e mp = (Ok mp1 :: (unit, merkle_path) outcome)" "mp_num_paths mp1 = mp_num_paths mp + 1"
    using Cons.prems(3) by (simp add: push_element_def Let_def)
  have e: "length e = 32" using Cons.prems(2) by simp
  note ok = path_ok_ops(4) [OF Cons.prems(1) e p1(1)] and ps = paths_ops(4) [OF Cons.prems(1) e p1(1)]
  obtain mp' where "push_elements es mp1 = Ok mp'" "path_ok mp'" "paths mp' = paths mp1 @ concat es"
    using Cons.IH [OF ok] Cons.prems(2,3) p1(2) by auto
  then show ?case using p1(1) ps by simp
qed simp

lemma pushed_elements:
  assumes "\<forall>e\<in>set es. length e = 32" "length es \<le> MAX_PATHS"
  obtains mp where "push_elements es path_default = Ok mp" "path_elements mp = es"
proof -
  obtain mp where "push_elements es path_default = Ok mp" "paths mp = paths path_default @ concat es"
    using push_elements_ok [OF path_ok_ops(1) assms(1)] assms(2) by (auto simp: path_default_def)
  then show ?thesis using that path_elements_concat [OF assms(1)] by (simp add: paths_ops(1))
qed

lemma corrupt_path_single:
  assumes "length e = 32"
  obtains mp where "corrupt_path [e] path_default = Ok mp" "path_elements mp = [e[1 := e ! 1 XOR 0xFF]]"
proof -
  obtain mp where "push_elements [e[1 := e ! 1 XOR 0xFF]] path_default = Ok mp" "path_elements mp = [e[1 := e ! 1 XOR 0xFF]]"
    by (rule pushed_elements [of "[e[1 := e ! 1 XOR 0xFF]]"]) (use assms in \<open>auto simp: path_consts\<close>)
  then show ?thesis using that assms
    by (auto simp: corrupt_elem_def copy_array_def index_at_def and_then_Ok_iff)
qed

lemma recompute_root:
  assumes "ds \<noteq> []" "length ds mod 2 = 0 \<or> length ds = 1"
  shows "(compute_root H \<lparr>mt_levels = merkle_levels_spec H (map (hash_leaf H) ds)\<rparr> :: (unit, hash \<times> merkle_tree) outcome) =
    Ok (merkle_root_spec H (map (hash_leaf H) ds), \<lparr>mt_levels = merkle_levels_spec H (map (hash_leaf H) ds)\<rparr>)"
proof -
  let ?xs = "map (hash_leaf H) ds"
  have "merkle_levels_spec H ?xs = ?xs # tl (merkle_levels_spec H ?xs)"
    using assms by (subst (1 2) merkle_levels_spec.simps) (auto simp: pad_level_def)
  then show ?thesis using assms(1)
    by (subst compute_root_eq [of _ ?xs "tl (merkle_levels_spec H ?xs)"]) auto
qed

lemma root_of_leaves:
  assumes "tree_ok t" "tree_leaves t = xs" "xs \<noteq> []" "merkle_root_spec H xs = root"
  shows "\<exists>t'. compute_root H t = Ok (root, t')"
  using compute_root_eq [OF tree_levels [OF assms(1)]] assms by blast

theorem merkle_tests_compare:
  assumes "sha512_ok H"
  shows "different_leaf_order H = Ok () \<longleftrightarrow> hash_nodes H (hash_leaf H [1, 2, 3]) (hash_leaf H [4, 5, 6]) \<noteq> hash_nodes H (hash_leaf H [4, 5, 6]) (hash_leaf H [1, 2, 3])"
    "add_leaves_after_computing_root H = Ok () \<longleftrightarrow> hash_leaf H [1, 2, 3] \<noteq> hash_nodes H (hash_leaf H [1, 2, 3]) (hash_leaf H [4, 5, 6])"
    "invalid_merkle_proof_wrong_index p H = Ok () \<longleftrightarrow>
       hash_nodes H (hash_leaf H (filled 0x11)) (hash_leaf H (filled 0)) \<noteq> hash_nodes H (hash_leaf H (filled 0)) (hash_leaf H (filled 0x11))"
    "invalid_merkle_proof_wrong_leaf_data p H = Ok () \<longleftrightarrow>
       hash_nodes H (hash_leaf H (filled 0x22)) (hash_leaf H (filled 0x11)) \<noteq> hash_nodes H (hash_leaf H (filled 0)) (hash_leaf H (filled 0x11))"
    "invalid_merkle_proof_corrupted_path p H = Ok () \<longleftrightarrow>
       hash_nodes H (hash_leaf H (filled 0)) ((hash_leaf H (filled 0x11))[1 := hash_leaf H (filled 0x11) ! 1 XOR 0xFF]) \<noteq> hash_nodes H (hash_leaf H (filled 0)) (hash_leaf H (filled 0x11))"
    "path_too_long_for_index p H = Ok () \<longleftrightarrow>
       ((\<lambda>h. hash_nodes H h (filled 0)) ^^ 5) (hash_leaf H (filled 0)) \<noteq> hash_nodes H (hash_leaf H (filled 0)) (hash_leaf H (filled 1))"
    "adversarial_path_attempts p H = Ok () \<longleftrightarrow>
       hash_nodes H (hash_leaf H (filled 0)) (hash_leaf H (filled 0xff)) \<noteq> hash_nodes H (hash_leaf H (filled 0)) (hash_leaf H deadbeef) \<and>
       hash_nodes H (hash_leaf H deadbeef) (hash_leaf H (filled 0)) \<noteq> hash_nodes H (hash_leaf H (filled 0)) (hash_leaf H deadbeef)"
    "collision_resistance H = Ok () \<longleftrightarrow> 77 < differing_bits (hash_leaf H (filled 0)) (hash_leaf H ((filled 0)[31 := 1]))"
proof -
  have two: "tree_of H [a, b] = Ok (hash_nodes H (hash_leaf H a) (hash_leaf H b), \<lparr>mt_levels = merkle_levels_spec H [hash_leaf H a, hash_leaf H b]\<rparr>)" for a b
    by (simp add: tree_of_ok)
  let ?cleared = "tree_clear \<lparr>mt_levels = merkle_levels_spec H [hash_leaf H [1, 2, 3], hash_leaf H [4, 5, 6]]\<rparr>"
  have "tree_ok \<lparr>mt_levels = merkle_levels_spec H [hash_leaf H [1, 2, 3], hash_leaf H [4, 5, 6]]\<rparr>" by (simp add: tree_ok_def)
  then have c: "tree_ok ?cleared" "tree_leaves ?cleared = []" by simp_all
  obtain t' where "push_leaves H [[4, 5, 6], [1, 2, 3]] ?cleared
      = (Ok t' :: (unit, merkle_tree) outcome)" "tree_ok t'" "tree_leaves t' = [hash_leaf H [4, 5, 6], hash_leaf H [1, 2, 3]]"
    using push_leaves_ok [OF c(1), of H "[[4, 5, 6], [1, 2, 3]]"] c(2) by auto
  moreover from this(2,3) have "\<exists>t''. (compute_root H t' :: (unit, hash \<times> merkle_tree) outcome) = Ok (hash_nodes H (hash_leaf H [4, 5, 6]) (hash_leaf H [1, 2, 3]), t'')"
    by (rule root_of_leaves) simp_all
  ultimately show "different_leaf_order H = Ok () \<longleftrightarrow> hash_nodes H (hash_leaf H [1, 2, 3]) (hash_leaf H [4, 5, 6]) \<noteq> hash_nodes H (hash_leaf H [4, 5, 6]) (hash_leaf H [1, 2, 3])"
    by (auto simp add: different_leaf_order_def two simp del: push_leaves.simps)
  show "add_leaves_after_computing_root H = Ok () \<longleftrightarrow> hash_leaf H [1, 2, 3] \<noteq> hash_nodes H (hash_leaf H [1, 2, 3]) (hash_leaf H [4, 5, 6])"
    by (simp add: add_leaves_after_computing_root_def tree_of_ok merkle_levels_spec.simps push_leaf_def index_at_def
        compute_root_eq)
  show "invalid_merkle_proof_wrong_index p H = Ok () \<longleftrightarrow>
       hash_nodes H (hash_leaf H (filled 0x11)) (hash_leaf H (filled 0)) \<noteq> hash_nodes H (hash_leaf H (filled 0)) (hash_leaf H (filled 0x11))"
    unfolding invalid_merkle_proof_wrong_index_def
    by (rule expect_other_root_two [OF assms]) (simp add: root_from_paths_def hash_nodes_def)
  show "invalid_merkle_proof_wrong_leaf_data p H = Ok () \<longleftrightarrow>
       hash_nodes H (hash_leaf H (filled 0x22)) (hash_leaf H (filled 0x11)) \<noteq> hash_nodes H (hash_leaf H (filled 0)) (hash_leaf H (filled 0x11))"
    unfolding invalid_merkle_proof_wrong_leaf_data_def
    by (rule expect_other_root_two [OF assms]) (simp add: root_from_paths_def hash_nodes_def)
  obtain cp where "corrupt_path [hash_leaf H (filled 0x11)] path_default = Ok cp"
    "path_elements cp = [(hash_leaf H (filled 0x11))[1 := hash_leaf H (filled 0x11) ! 1 XOR 0xFF]]"
    by (rule corrupt_path_single [of "hash_leaf H (filled 0x11)"]) (use assms in \<open>auto simp:\<close>)
  then show "invalid_merkle_proof_corrupted_path p H = Ok () \<longleftrightarrow>
       hash_nodes H (hash_leaf H (filled 0)) ((hash_leaf H (filled 0x11))[1 := hash_leaf H (filled 0x11) ! 1 XOR 0xFF]) \<noteq> hash_nodes H (hash_leaf H (filled 0)) (hash_leaf H (filled 0x11))"
    unfolding invalid_merkle_proof_corrupted_path_def
    by (intro expect_other_root_two [OF assms]) (simp add: root_from_paths_def hash_nodes_def)
  obtain lp where "push_elements (replicate 5 (filled 0)) path_default = Ok lp" "path_elements lp = replicate 5 (filled 0)"
    by (rule pushed_elements [of "replicate 5 (filled 0)"]) (auto simp: filled_def path_consts)
  then show "path_too_long_for_index p H = Ok () \<longleftrightarrow>
       ((\<lambda>h. hash_nodes H h (filled 0)) ^^ 5) (hash_leaf H (filled 0)) \<noteq> hash_nodes H (hash_leaf H (filled 0)) (hash_leaf H (filled 1))"
    using two_leaf_path(1) [OF assms, of p "filled 0" "filled 1"] recompute_root [of "[filled 0, filled 1]" H]
    by (auto simp: path_too_long_for_index_def two root_from_paths_def hash_nodes_def numeral_eq_Suc simp del: push_elements.simps)
  show "adversarial_path_attempts p H = Ok () \<longleftrightarrow>
       hash_nodes H (hash_leaf H (filled 0)) (hash_leaf H (filled 0xff)) \<noteq> hash_nodes H (hash_leaf H (filled 0)) (hash_leaf H deadbeef) \<and>
       hash_nodes H (hash_leaf H deadbeef) (hash_leaf H (filled 0)) \<noteq> hash_nodes H (hash_leaf H (filled 0)) (hash_leaf H deadbeef)"
    using two_leaf_path(2) [OF assms, of p "filled 0" deadbeef]
    by (auto simp: adversarial_path_attempts_def two root_from_paths_def hash_nodes_def and_then_Ok_iff)
  have "differing_bits xs xs = 0" for xs
    by (induction xs) (simp_all add: differing_bits_def count_ones_def)
  then show "collision_resistance H = Ok () \<longleftrightarrow> 77 < differing_bits (hash_leaf H (filled 0)) (hash_leaf H ((filled 0)[31 := 1]))"
    by (auto simp: collision_resistance_def tree_of_ok and_then_Ok_iff)
qed

text \<open>A comparison of two pairs of leaves fails only by a collision of the truncated hash, which this pair is.\<close>

definition leaf_pair_collision :: "hash_fn \<Rightarrow> bytes \<times> bytes \<Rightarrow> bytes \<times> bytes \<Rightarrow> bytes \<times> bytes" where
  "leaf_pair_collision H = (\<lambda>(a, b) (c, d).
     if (hash_leaf H a, hash_leaf H b) \<noteq> (hash_leaf H c, hash_leaf H d)
     then (NODE_TWEAK @ hash_leaf H a @ hash_leaf H b, NODE_TWEAK @ hash_leaf H c @ hash_leaf H d)
     else if a \<noteq> c then (LEAF_TWEAK @ a, LEAF_TWEAK @ c) else (LEAF_TWEAK @ b, LEAF_TWEAK @ d))"

lemma leaf_pair_collision_sound:
  assumes "sha512_ok H" "(a, b) \<noteq> (c, d)"
    "hash_nodes H (hash_leaf H a) (hash_leaf H b) = hash_nodes H (hash_leaf H c) (hash_leaf H d)"
  shows "is_collision H (leaf_pair_collision H (a, b) (c, d))"
proof (cases "(hash_leaf H a, hash_leaf H b) = (hash_leaf H c, hash_leaf H d)")
  case True
  then show ?thesis using assms(2)
    by (auto simp: leaf_pair_collision_def is_collision_def hash_leaf_def hash_parts_def)
next
  case False
  then show ?thesis using assms(1,3) length_hash(2) [OF assms(1)]
    by (auto simp: leaf_pair_collision_def is_collision_def hash_nodes_def hash_parts_def)
qed

lemma rejecting_tests_fail_by_collision:
  assumes "sha512_ok H"
  shows "invalid_merkle_proof_wrong_index p H = Ok () \<or>
      is_collision H (leaf_pair_collision H (filled 0x11, filled 0) (filled 0, filled 0x11))"
    "invalid_merkle_proof_wrong_leaf_data p H = Ok () \<or>
      is_collision H (leaf_pair_collision H (filled 0x22, filled 0x11) (filled 0, filled 0x11))"
    "different_leaf_order H = Ok () \<or>
      is_collision H (leaf_pair_collision H ([1, 2, 3], [4, 5, 6]) ([4, 5, 6], [1, 2, 3]))"
    "adversarial_path_attempts p H = Ok () \<or>
      is_collision H (leaf_pair_collision H (filled 0, filled 0xff) (filled 0, deadbeef)) \<or>
      is_collision H (leaf_pair_collision H (deadbeef, filled 0) (filled 0, deadbeef))"
proof -
  have ne: "filled a \<noteq> filled b" if "a \<noteq> b" for a b using that by (simp add: filled_def)
  have "deadbeef ! 0 \<noteq> deadbeef ! 1" by code_simp
  then have db: "deadbeef \<noteq> filled b" for b by (metis filled_def nth_replicate one_less_numeral_iff semiring_norm(76) zero_less_numeral)
  note sound = leaf_pair_collision_sound [OF assms]
  show "invalid_merkle_proof_wrong_index p H = Ok () \<or>
      is_collision H (leaf_pair_collision H (filled 0x11, filled 0) (filled 0, filled 0x11))"
    using sound [of "filled 0x11" "filled 0" "filled 0" "filled 0x11"] ne [of "0x11" 0] merkle_tests_compare(3) [where p = p, OF assms] by auto
  show "invalid_merkle_proof_wrong_leaf_data p H = Ok () \<or>
      is_collision H (leaf_pair_collision H (filled 0x22, filled 0x11) (filled 0, filled 0x11))"
    using sound [of "filled 0x22" "filled 0x11" "filled 0" "filled 0x11"] ne [of "0x22" 0] merkle_tests_compare(4) [where p = p, OF assms] by auto
  show "different_leaf_order H = Ok () \<or>
      is_collision H (leaf_pair_collision H ([1, 2, 3], [4, 5, 6]) ([4, 5, 6], [1, 2, 3]))"
    using sound [of "[1, 2, 3]" "[4, 5, 6]" "[4, 5, 6]" "[1, 2, 3]"] merkle_tests_compare(1) [OF assms] by auto
  show "adversarial_path_attempts p H = Ok () \<or>
      is_collision H (leaf_pair_collision H (filled 0, filled 0xff) (filled 0, deadbeef)) \<or>
      is_collision H (leaf_pair_collision H (deadbeef, filled 0) (filled 0, deadbeef))"
    using sound [of "filled 0" "filled 0xff" "filled 0" deadbeef] sound [of deadbeef "filled 0" "filled 0" deadbeef]
      db db [symmetric] merkle_tests_compare(7) [where p = p, OF assms] by auto
qed

end
