(* ===== verification/Integration.thy ===== *)
theory Integration
  imports Client Text
begin

text \<open>
  The end-to-end test program (\<^verbatim>\<open>integration/src/main.rs\<close>): it starts servers as child processes, runs the client program
  or an in-process measurement sequence against them, and judges what comes back. The operating system is an
  argument: a record of calls on an abstract world. A guard kills its server when it is dropped, on every way
  out of a test, a panic included. What is printed is left out. Shown: whatever the calls answer, the program
  ends, and leaves no server running or unreaped that it started.
\<close>

section \<open>The operating system\<close>

text \<open>What \<open>Command::output\<close> gives for a program that ended.\<close>

record client_output =
  co_success :: bool
  co_stdout :: string

text \<open>\<open>os_wait\<close> blocks until the process has ended: \<open>None\<close> is a call that never returns.\<close>

record ('w, 'addr) os =
  os_spawn :: "string \<Rightarrow> string list \<Rightarrow> 'w \<Rightarrow> (string + nat) \<times> 'w"
  os_try_wait :: "nat \<Rightarrow> 'w \<Rightarrow> (string + int option) \<times> 'w"
  os_kill :: "nat \<Rightarrow> 'w \<Rightarrow> (string + unit) \<times> 'w"
  os_wait :: "nat \<Rightarrow> 'w \<Rightarrow> ((string + int) \<times> 'w) option"
  os_output :: "string \<Rightarrow> string list \<Rightarrow> 'w \<Rightarrow> (string + client_output) \<times> 'w"
  os_sleep :: "nat \<Rightarrow> 'w \<Rightarrow> 'w"
  os_id :: nat
  os_create :: "string \<Rightarrow> 'w \<Rightarrow> (string + unit) \<times> 'w"
  os_write_all :: "string \<Rightarrow> string \<Rightarrow> 'w \<Rightarrow> (string + unit) \<times> 'w"
  os_remove_file :: "string \<Rightarrow> 'w \<Rightarrow> 'w"
  os_remove_dir_all :: "string \<Rightarrow> 'w \<Rightarrow> 'w"
  os_read_dir :: "string \<Rightarrow> 'w \<Rightarrow> string + string list"
  os_read :: "string \<Rightarrow> 'w \<Rightarrow> string + bytes"
  os_resolve :: "string \<Rightarrow> 'w \<Rightarrow> string + 'addr list"
  os_random :: "'w \<Rightarrow> nat \<Rightarrow> bytes"
  os_exchange :: "'w \<Rightarrow> nat \<Rightarrow> 'addr exchange"
  os_measured :: "'w \<Rightarrow> 'w"

text \<open>What a test runs on: the build profile of the program, the cryptography and the codecs of its libraries.\<close>

record libraries =
  li_profile :: profile
  li_ed25519 :: ed25519
  li_hash :: hash_fn
  li_codecs :: codecs

section \<open>Server processes\<close>

text \<open>A \<open>ServerGuard\<close> is the process it holds.\<close>

definition check_running :: "('w, 'addr) os \<Rightarrow> nat \<Rightarrow> 'w \<Rightarrow> bool \<times> 'w" where
  "check_running S process w =
     (case os_try_wait S process w of
        (Inr (Some status), w') \<Rightarrow> (False, w')
      | (Inl e, w') \<Rightarrow> (False, w')
      | (Inr None, w') \<Rightarrow> (True, w'))"

text \<open>\<open>Drop\<close> ignores what the two calls return; \<open>None\<close> when it waits forever.\<close>

definition drop_guard :: "('w, 'addr) os \<Rightarrow> nat \<Rightarrow> 'w \<Rightarrow> 'w option" where
  "drop_guard S process w =
     (case os_kill S process w of (_, w') \<Rightarrow> map_option snd (os_wait S process w'))"

fun drop_guards :: "('w, 'addr) os \<Rightarrow> nat list \<Rightarrow> 'w \<Rightarrow> 'w option" where
  "drop_guards S [] w = Some w"
| "drop_guards S (process # servers) w = Option.bind (drop_guard S process w) (drop_guards S servers)"

definition show_i16 :: "16 word \<Rightarrow> string" where
  "show_i16 n = (if sint n < 0 then CHR ''-'' # show_nat (nat (- sint n)) else show_nat (nat (sint n)))"

definition start_server_with_offset ::
  "('w, 'addr) os \<Rightarrow> string \<Rightarrow> u16 \<Rightarrow> string \<Rightarrow> 16 word \<Rightarrow> 'w \<Rightarrow> nat option \<times> 'w" where
  "start_server_with_offset S server_path port protocol time_offset w =
     (let args = [''-p'', show_nat (unat port), ''-P'', protocol, ''-j'', ''1'', ''-q''] @
                 (if time_offset \<noteq> 0 then [''--fixed-offset='' @ show_i16 time_offset] else []) in
      case os_spawn S server_path args w of
        (Inr process, w') \<Rightarrow> (Some process, w')
      | (Inl e, w') \<Rightarrow> (None, w'))"

definition start_server :: "('w, 'addr) os \<Rightarrow> string \<Rightarrow> u16 \<Rightarrow> string \<Rightarrow> 'w \<Rightarrow> nat option \<times> 'w" where
  "start_server S server_path port protocol w = start_server_with_offset S server_path port protocol 0 w"

text \<open>The loops over the servers of a test: the guards made so far, and whether all started; whether all run.\<close>

fun start_servers ::
  "('w, 'addr) os \<Rightarrow> string \<Rightarrow> (u16 \<times> string \<times> 16 word) list \<Rightarrow> 'w \<Rightarrow> (bool \<times> nat list) \<times> 'w" where
  "start_servers S server_path [] w = ((True, []), w)"
| "start_servers S server_path ((port, protocol, offset) # configs) w =
     (case start_server_with_offset S server_path port protocol offset w of
        (None, w') \<Rightarrow> ((False, []), w')
      | (Some process, w') \<Rightarrow>
          (case start_servers S server_path configs w' of ((ok, servers), w'') \<Rightarrow> ((ok, process # servers), w'')))"

fun all_running :: "('w, 'addr) os \<Rightarrow> nat list \<Rightarrow> 'w \<Rightarrow> bool \<times> 'w" where
  "all_running S [] w = (True, w)"
| "all_running S (process # servers) w =
     (case check_running S process w of (ok, w') \<Rightarrow> if ok then all_running S servers w' else (False, w'))"

text \<open>The frame of a test: start the servers, sleep, check them, run the body. The guards are dropped in their
  order on every way out, also when a panic unwinds the stack (the profile \<open>release-min-size\<close>, which aborts on a panic, is left
  out). \<open>None\<close>: the test does not return.\<close>

definition with_servers ::
  "('w, 'addr) os \<Rightarrow> string \<Rightarrow> (u16 \<times> string \<times> 16 word) list \<Rightarrow> nat \<Rightarrow> ('w \<Rightarrow> (unit, bool) outcome \<times> 'w) \<Rightarrow> 'w \<Rightarrow>
     ((unit, bool) outcome \<times> 'w) option" where
  "with_servers S server_path configs millis body w =
     (case start_servers S server_path configs w of ((ok, servers), w1) \<Rightarrow>
      case (if ok then
              (case all_running S servers (os_sleep S millis w1) of (running, w2) \<Rightarrow>
               if running then body w2 else (Ok False, w2))
            else (Ok False, w1)) of
        (r, w3) \<Rightarrow> map_option (Pair r) (drop_guards S servers w3))"

definition server_path_of :: "string \<Rightarrow> string" where
  "server_path_of build_mode = ''target/'' @ build_mode @ ''/roughenough_server''"

definition client_path_of :: "string \<Rightarrow> string" where
  "client_path_of build_mode = ''target/'' @ build_mode @ ''/roughenough_client''"

definition TEST_PUBLIC_KEY :: string where
  "TEST_PUBLIC_KEY = ''3b6a27bcceb6a42d62a3a8d02a6f0d73653215771de243a63ac048a18b59da29''"

definition WRONG_PUBLIC_KEY :: string where
  "WRONG_PUBLIC_KEY = ''0000000000000000000000000000000000000000000000000000000000000000''"

section \<open>Tests of the client program\<close>

text \<open>Run the client and judge its output; a client that cannot be run is a failure.\<close>

definition run_client ::
  "('w, 'addr) os \<Rightarrow> string \<Rightarrow> string list \<Rightarrow> (client_output \<Rightarrow> bool) \<Rightarrow> 'w \<Rightarrow> bool \<times> 'w" where
  "run_client S client_path args judge w =
     (case os_output S client_path args w of
        (Inr output, w') \<Rightarrow> (judge output, w')
      | (Inl e, w') \<Rightarrow> (False, w'))"

definition test_wrong_public_key_rejected_protocol :: "('w, 'addr) os \<Rightarrow> string \<Rightarrow> string \<Rightarrow> 'w \<Rightarrow> ((unit, bool) outcome \<times> 'w) option" where
  "test_wrong_public_key_rejected_protocol S build_mode protocol =
     with_servers S (server_path_of build_mode) [(2003, protocol, 0)] 200 (\<lambda>w.
       apfst Ok (run_client S (client_path_of build_mode)
         [''127.0.0.1'', ''2003'', ''-n'', ''1'', ''-k'', WRONG_PUBLIC_KEY, ''-P'', protocol] (\<lambda>out. \<not> co_success out) w))"

fun until_false ::
  "('a \<Rightarrow> 'w \<Rightarrow> ((unit, bool) outcome \<times> 'w) option) \<Rightarrow> 'a list \<Rightarrow> 'w \<Rightarrow> ((unit, bool) outcome \<times> 'w) option" where
  "until_false f [] w = Some (Ok True, w)"
| "until_false f (x # xs) w =
     Option.bind (f x w) (\<lambda>(r, w'). if r = Ok True then until_false f xs w' else Some (r, w'))"

definition test_wrong_public_key_rejected :: "('w, 'addr) os \<Rightarrow> string \<Rightarrow> 'w \<Rightarrow> ((unit, bool) outcome \<times> 'w) option" where
  "test_wrong_public_key_rejected S build_mode =
     until_false (test_wrong_public_key_rejected_protocol S build_mode) [''14'', ''8'']"

definition test_single_server_with_protocol :: "('w, 'addr) os \<Rightarrow> string \<Rightarrow> string \<Rightarrow> 'w \<Rightarrow> ((unit, bool) outcome \<times> 'w) option" where
  "test_single_server_with_protocol S build_mode protocol =
     with_servers S (server_path_of build_mode) [(2003, protocol, 0)] 200 (\<lambda>w.
       apfst Ok (run_client S (client_path_of build_mode)
         [''127.0.0.1'', ''2003'', ''-n'', ''50'', ''-k'', TEST_PUBLIC_KEY, ''-P'', protocol] co_success w))"

fun contains :: "string \<Rightarrow> string \<Rightarrow> bool" where
  "contains [] t \<longleftrightarrow> t = []"
| "contains (c # s) t \<longleftrightarrow> starts_with (c # s) t \<or> contains s t"

definition dump_judge :: "client_output \<Rightarrow> bool" where
  "dump_judge out \<longleftrightarrow> co_success out \<and>
     (let stdout = co_stdout out in
      contains stdout ''=== Request dump ==='' \<and> contains stdout ''===================='' \<and>
      contains stdout ''=== Response dump ==='' \<and> contains stdout ''ROUGHTIM'' \<and> contains stdout ''Tags ('' \<and>
      contains stdout ''====================='')"

definition test_cli_dump_flag :: "('w, 'addr) os \<Rightarrow> string \<Rightarrow> string \<Rightarrow> 'w \<Rightarrow> ((unit, bool) outcome \<times> 'w) option" where
  "test_cli_dump_flag S build_mode protocol =
     with_servers S (server_path_of build_mode) [(2031, protocol, 0)] 200 (\<lambda>w.
       apfst Ok (run_client S (client_path_of build_mode)
         [''127.0.0.1'', ''2031'', ''-k'', TEST_PUBLIC_KEY, ''-P'', protocol, ''--dump-console''] dump_judge w))"

definition dump_failure_judge :: "client_output \<Rightarrow> bool" where
  "dump_failure_judge out \<longleftrightarrow> \<not> co_success out \<and>
     (let stdout = co_stdout out in
      contains stdout ''=== Request dump ==='' \<and> contains stdout ''=== Response dump ==='' \<and> contains stdout ''ROUGHTIM'' \<and>
      contains stdout ''Tags ('' \<and> contains stdout (''validation of the server'' @ CHR 0x27 # ''s response failed''))"

definition test_cli_dump_validation_failure :: "('w, 'addr) os \<Rightarrow> string \<Rightarrow> 'w \<Rightarrow> ((unit, bool) outcome \<times> 'w) option" where
  "test_cli_dump_validation_failure S build_mode =
     with_servers S (server_path_of build_mode) [(2032, ''14'', 0)] 200 (\<lambda>w.
       apfst Ok (run_client S (client_path_of build_mode)
         [''127.0.0.1'', ''2032'', ''-k'', WRONG_PUBLIC_KEY, ''-P'', ''14'', ''--dump-console''] dump_failure_judge w))"

definition ends_with :: "string \<Rightarrow> string \<Rightarrow> bool" where
  "ends_with s t \<longleftrightarrow> starts_with (rev s) (rev t)"

text \<open>The look into the dump directory: \<open>None\<close> where the function returns early, without removing the directory.\<close>

definition dump_files_verdict :: "('w, 'addr) os \<Rightarrow> string \<Rightarrow> 'w \<Rightarrow> bool option" where
  "dump_files_verdict S dump_dir w =
     (case os_read_dir S dump_dir w of
        Inl e \<Rightarrow> None
      | Inr entries \<Rightarrow>
          (case (find (\<lambda>e. ends_with e ''-request.bin'') entries, find (\<lambda>e. ends_with e ''-response.bin'') entries) of
             (Some req, Some resp) \<Rightarrow>
               (case os_read S (dump_dir @ CHR ''/'' # req) w of
                  Inl e \<Rightarrow> None
                | Inr request_bytes \<Rightarrow>
                    (case os_read S (dump_dir @ CHR ''/'' # resp) w of
                       Inl e \<Rightarrow> None
                     | Inr response_bytes \<Rightarrow>
                         Some (length request_bytes = 1024 \<and> length response_bytes \<ge> 12 \<and>
                               take 8 response_bytes = ascii ''ROUGHTIM'')))
           | _ \<Rightarrow> Some False))"

definition dump_to_file_body :: "('w, 'addr) os \<Rightarrow> string \<Rightarrow> 'w \<Rightarrow> (unit, bool) outcome \<times> 'w" where
  "dump_to_file_body S build_mode w =
     (let dump_dir = ''/tmp/roughenough-dump-test-'' @ show_nat (os_id S) in
      case os_output S (client_path_of build_mode)
             [''127.0.0.1'', ''2033'', ''-k'', TEST_PUBLIC_KEY, ''--dump-dir'', dump_dir] w of
        (Inl e, w1) \<Rightarrow> (Ok False, os_remove_dir_all S dump_dir w1)
      | (Inr output, w1) \<Rightarrow>
          if \<not> co_success output then (Ok False, os_remove_dir_all S dump_dir w1)
          else (case dump_files_verdict S dump_dir w1 of
                  None \<Rightarrow> (Ok False, w1)
                | Some success \<Rightarrow> (Ok success, os_remove_dir_all S dump_dir w1)))"

definition test_cli_dump_to_file :: "('w, 'addr) os \<Rightarrow> string \<Rightarrow> 'w \<Rightarrow> ((unit, bool) outcome \<times> 'w) option" where
  "test_cli_dump_to_file S build_mode =
     with_servers S (server_path_of build_mode) [(2033, ''14'', 0)] 200 (dump_to_file_body S build_mode)"

section \<open>Tests over a server list\<close>

definition quoted :: "string \<Rightarrow> string" where
  "quoted s = CHR 0x22 # s @ [CHR 0x22]"

definition new_line :: "nat \<Rightarrow> string" where
  "new_line indent = CHR 0x0A # replicate indent (CHR 0x20)"

definition json_server :: "u16 \<Rightarrow> string" where
  "json_server port =
     ''{'' @ new_line 20 @ quoted ''name'' @ '': '' @ quoted (''test-server-'' @ show_nat (unat port)) @ '','' @
     new_line 20 @ quoted ''version'' @ '': '' @ quoted ''IETF-Roughtime'' @ '','' @
     new_line 20 @ quoted ''publicKeyType'' @ '': '' @ quoted ''ed25519'' @ '','' @
     new_line 20 @ quoted ''publicKey'' @ '': '' @ quoted TEST_PUBLIC_KEY @ '','' @
     new_line 20 @ quoted ''addresses'' @ '': [{ '' @ quoted ''protocol'' @ '': '' @ quoted ''udp'' @ '', '' @
       quoted ''address'' @ '': '' @ quoted (''127.0.0.1:'' @ show_nat (unat port)) @ '' }]'' @
     new_line 16 @ ''}''"

fun commas :: "string list \<Rightarrow> string" where
  "commas [] = []"
| "commas [s] = s"
| "commas (s # t # ss) = s @ CHR '','' # commas (t # ss)"

definition create_temp_server_list :: "('w, 'addr) os \<Rightarrow> u16 list \<Rightarrow> 'w \<Rightarrow> (string + string) \<times> 'w" where
  "create_temp_server_list S ports w =
     (let json = ''{ '' @ quoted ''servers'' @ '': ['' @ commas (map json_server ports) @ ''] }'';
          path = ''/tmp/roughenough-test-servers-'' @ show_nat (os_id S) @ ''.json'' in
      case os_create S path w of
        (Inl e, w1) \<Rightarrow> (Inl e, w1)
      | (Inr _, w1) \<Rightarrow>
          (case os_write_all S path json w1 of
             (Inl e, w2) \<Rightarrow> (Inl e, w2)
           | (Inr _, w2) \<Rightarrow> (Inr path, w2)))"

text \<open>The body of the two tests: write the list, run the client on it, remove the list.\<close>

definition run_on_list ::
  "('w, 'addr) os \<Rightarrow> string \<Rightarrow> u16 list \<Rightarrow> string list \<Rightarrow> (client_output \<Rightarrow> bool) \<Rightarrow> 'w \<Rightarrow> (unit, bool) outcome \<times> 'w" where
  "run_on_list S build_mode ports flags judge w =
     (case create_temp_server_list S ports w of
        (Inl e, w1) \<Rightarrow> (Ok False, w1)
      | (Inr path, w1) \<Rightarrow>
          (case os_output S (client_path_of build_mode) ([''-l'', path, ''-u'', ''3''] @ flags) w1 of
             (Inr output, w2) \<Rightarrow> (Ok (judge output), os_remove_file S path w2)
           | (Inl e, w2) \<Rightarrow> (Ok False, os_remove_file S path w2)))"

definition test_cli_allow_untrusted_time :: "('w, 'addr) os \<Rightarrow> string \<Rightarrow> 'w \<Rightarrow> ((unit, bool) outcome \<times> 'w) option" where
  "test_cli_allow_untrusted_time S build_mode =
     (let configs = [(2011, ''14'', 0), (2012, ''14'', - 60), (2013, ''14'', 0)] in
      with_servers S (server_path_of build_mode) configs 300
        (run_on_list S build_mode (map fst configs) [''--allow-untrusted-time''] co_success))"

definition test_cli_causality_violation_exits_with_error :: "('w, 'addr) os \<Rightarrow> string \<Rightarrow> 'w \<Rightarrow> ((unit, bool) outcome \<times> 'w) option" where
  "test_cli_causality_violation_exits_with_error S build_mode =
     (let configs = [(2021, ''14'', 0), (2022, ''14'', - 60), (2023, ''14'', 0)] in
      with_servers S (server_path_of build_mode) configs 300
        (run_on_list S build_mode (map fst configs) [] (\<lambda>out. \<not> co_success out)))"

section \<open>Measurement sequences\<close>

datatype expected_violations = NoViolations | SomeViolations

definition run_and_validate ::
  "libraries \<Rightarrow> ('w, 'addr) os \<Rightarrow> 'addr client list \<Rightarrow> nat \<Rightarrow> expected_violations \<Rightarrow> 'w \<Rightarrow> (unit, bool) outcome \<times> 'w" where
  "run_and_validate B S clients rounds expected w =
     (case sequence_run (li_profile B) (li_ed25519 B) (li_hash B) (os_random S w) (os_exchange S w) rounds clients of
        Panic \<Rightarrow> (Panic, os_measured S w)
      | Err e \<Rightarrow> (Ok False, os_measured S w)
      | Ok measurements \<Rightarrow>
          (and_then (validate_causality (li_profile B) measurements) (\<lambda>violations.
           Ok (case expected of NoViolations \<Rightarrow> violations = [] | SomeViolations \<Rightarrow> violations \<noteq> [])), os_measured S w))"

text \<open>The clients of a sequence, for ports with protocol version and host name.\<close>

fun sequence_clients ::
  "libraries \<Rightarrow> ('w, 'addr) os \<Rightarrow> public_key \<Rightarrow> (u16 \<times> protocol_version \<times> string) list \<Rightarrow> 'w \<Rightarrow> (unit, 'addr client list) outcome" where
  "sequence_clients B S key [] w = Ok []"
| "sequence_clients B S key ((port, version, hostname) # configs) w =
     (case os_resolve S (''127.0.0.1:'' @ show_nat (unat port)) w of
        Inl e \<Rightarrow> Panic
      | Inr [] \<Rightarrow> Panic
      | Inr (addr # _) \<Rightarrow>
          and_then (client_build (li_hash B) ((client_builder_new addr)\<lparr>cb_hostname := hostname, cb_public_key := Some key,
                      cb_protocol_version := version\<rparr>)) (\<lambda>c.
          and_then (sequence_clients B S key configs w) (\<lambda>cs. Ok (c # cs))))"

definition run_sequence ::
  "libraries \<Rightarrow> ('w, 'addr) os \<Rightarrow> (u16 \<times> protocol_version \<times> string) list \<Rightarrow> nat \<Rightarrow> expected_violations \<Rightarrow> 'w \<Rightarrow> (unit, bool) outcome \<times> 'w" where
  "run_sequence B S configs rounds expected w =
     (case and_then (expect (try_decode_key (li_codecs B) TEST_PUBLIC_KEY)) (\<lambda>key.
           and_then (sequence_clients B S key configs w) (\<lambda>clients. expect (sequence_new clients))) of
        Ok clients \<Rightarrow> run_and_validate B S clients rounds expected w
      | Err (e :: unit) \<Rightarrow> (Panic, w)
      | Panic \<Rightarrow> (Panic, w))"

definition run_measurement_sequence ::
  "libraries \<Rightarrow> ('w, 'addr) os \<Rightarrow> u16 list \<Rightarrow> protocol_version \<Rightarrow> nat \<Rightarrow> 'w \<Rightarrow> (unit, bool) outcome \<times> 'w" where
  "run_measurement_sequence B S ports protocol rounds =
     run_sequence B S (map (\<lambda>port. (port, protocol, ''localhost-'' @ show_nat (unat port))) ports) rounds NoViolations"

definition protocol_of :: "string \<Rightarrow> protocol_version" where
  "protocol_of protocol_str = (if protocol_str = ''8'' then RfcDraft08 else RfcDraft14)"

definition run_causality_violation_sequence ::
  "libraries \<Rightarrow> ('w, 'addr) os \<Rightarrow> (u16 \<times> string \<times> 16 word) list \<Rightarrow> nat \<Rightarrow> 'w \<Rightarrow> (unit, bool) outcome \<times> 'w" where
  "run_causality_violation_sequence B S configs rounds =
     run_sequence B S (map (\<lambda>(port, protocol, offset).
       (port, protocol_of protocol, ''localhost-'' @ show_nat (unat port) @ ''(offset='' @ show_i16 offset @ ''s)'')) configs) rounds SomeViolations"

definition run_mixed_protocol_sequence ::
  "libraries \<Rightarrow> ('w, 'addr) os \<Rightarrow> (u16 \<times> string) list \<Rightarrow> nat \<Rightarrow> 'w \<Rightarrow> (unit, bool) outcome \<times> 'w" where
  "run_mixed_protocol_sequence B S configs rounds =
     run_sequence B S (map (\<lambda>(port, protocol).
       (port, protocol_of protocol, ''localhost-'' @ show_nat (unat port) @ ''(draft-'' @ protocol @ '')'')) configs) rounds NoViolations"

definition test_multi_server_sequence :: "libraries \<Rightarrow> ('w, 'addr) os \<Rightarrow> string \<Rightarrow> 'w \<Rightarrow> ((unit, bool) outcome \<times> 'w) option" where
  "test_multi_server_sequence B S build_mode =
     (let ports = [2001, 2002, 2003] in
      with_servers S (server_path_of build_mode) (map (\<lambda>port. (port, ''14'', 0)) ports) 300
        (run_measurement_sequence B S ports RfcDraft14 2))"

definition test_draft08_server_sequence :: "libraries \<Rightarrow> ('w, 'addr) os \<Rightarrow> string \<Rightarrow> 'w \<Rightarrow> ((unit, bool) outcome \<times> 'w) option" where
  "test_draft08_server_sequence B S build_mode =
     (let ports = [2001, 2002, 2003] in
      with_servers S (server_path_of build_mode) (map (\<lambda>port. (port, ''8'', 0)) ports) 300
        (run_measurement_sequence B S ports RfcDraft08 2))"

definition test_mixed_protocol_sequence :: "libraries \<Rightarrow> ('w, 'addr) os \<Rightarrow> string \<Rightarrow> 'w \<Rightarrow> ((unit, bool) outcome \<times> 'w) option" where
  "test_mixed_protocol_sequence B S build_mode =
     (let configs = [(2001, ''8''), (2002, ''14''), (2003, ''8'')] in
      with_servers S (server_path_of build_mode) (map (\<lambda>(port, protocol). (port, protocol, 0)) configs) 300
        (run_mixed_protocol_sequence B S configs 2))"

definition test_causality_violation_detection :: "libraries \<Rightarrow> ('w, 'addr) os \<Rightarrow> string \<Rightarrow> 'w \<Rightarrow> ((unit, bool) outcome \<times> 'w) option" where
  "test_causality_violation_detection B S build_mode =
     (let configs = [(2001, ''14'', 0), (2002, ''14'', - 60), (2003, ''14'', 0)] in
      with_servers S (server_path_of build_mode) configs 300 (run_causality_violation_sequence B S configs 2))"

section \<open>The program\<close>

text \<open>The tests in their order, each with the debug and the release build.\<close>

definition integration_tests :: "libraries \<Rightarrow> ('w, 'addr) os \<Rightarrow> ('w \<Rightarrow> ((unit, bool) outcome \<times> 'w) option) list" where
  "integration_tests B S =
     concat (map (\<lambda>protocol. map (\<lambda>mode. test_single_server_with_protocol S mode protocol) [''debug'', ''release'']) [''14'', ''8'']) @
     concat (map (\<lambda>test. map test [''debug'', ''release''])
       [test_wrong_public_key_rejected S, test_multi_server_sequence B S, test_draft08_server_sequence B S,
        test_mixed_protocol_sequence B S, test_causality_violation_detection B S, test_cli_allow_untrusted_time S,
        test_cli_causality_violation_exits_with_error S, \<lambda>mode. test_cli_dump_flag S mode ''14'',
        \<lambda>mode. test_cli_dump_flag S mode ''8'', test_cli_dump_validation_failure S, test_cli_dump_to_file S])"

text \<open>\<open>main\<close>: the exit code, or a panic; \<open>None\<close> when it does not end.\<close>

fun run_tests :: "('w \<Rightarrow> ((unit, bool) outcome \<times> 'w) option) list \<Rightarrow> 'w \<Rightarrow> ((unit, int) outcome \<times> 'w) option" where
  "run_tests [] w = Some (Ok 0, w)"
| "run_tests (test # tests) w =
     Option.bind (test w) (\<lambda>(r, w').
       case r of
         Ok passed \<Rightarrow> if passed then run_tests tests w' else Some (Ok 1, w')
       | Err e \<Rightarrow> Some (Err e, w')
       | Panic \<Rightarrow> Some (Panic, w'))"

definition integration_main :: "libraries \<Rightarrow> ('w, 'addr) os \<Rightarrow> 'w \<Rightarrow> ((unit, int) outcome \<times> 'w) option" where
  "integration_main B S w = run_tests (integration_tests B S) w"

section \<open>No server is left behind\<close>

text \<open>What is so of the processes of a world: that one executes, and that one was not waited for since it was spawned.\<close>

datatype process_fact = Executes nat | Unreaped nat

text \<open>What the program relies on. Only a successful spawn adds a process. \<open>kill\<close> ends the process, and fails only when it has already
  ended. \<open>wait\<close> returns when the process has ended, by itself or by a signal, and removes it from the process table; it fails only for a
  process that is no longer in the table. Nothing says that a server ends by itself: \<open>wait\<close> may block forever on one that
  executes. Any process may end at any time.\<close>

definition os_ok :: "('w, 'addr) os \<Rightarrow> ('w \<Rightarrow> process_fact set) \<Rightarrow> bool" where
  "os_ok S running \<longleftrightarrow>
     (\<forall>path args w. case os_spawn S path args w of
        (Inl e, w') \<Rightarrow> running w' \<subseteq> running w
      | (Inr process, w') \<Rightarrow> running w' \<subseteq> running w \<union> {Executes process, Unreaped process}) \<and>
     (\<forall>process w. case os_kill S process w of
        (Inl e, w') \<Rightarrow> running w' \<subseteq> running w \<and> Executes process \<notin> running w
      | (Inr _, w') \<Rightarrow> running w' \<subseteq> running w - {Executes process}) \<and>
     (\<forall>process w. case os_wait S process w of
        None \<Rightarrow> Executes process \<in> running w
      | Some (Inl e, w') \<Rightarrow> running w' \<subseteq> running w \<and> Unreaped process \<notin> running w
      | Some (Inr status, w') \<Rightarrow> running w' \<subseteq> running w - {Unreaped process}) \<and>
     (\<forall>process w. running (snd (os_try_wait S process w)) \<subseteq> running w) \<and>
     (\<forall>path args w. running (snd (os_output S path args w)) \<subseteq> running w) \<and>
     (\<forall>ms w. running (os_sleep S ms w) \<subseteq> running w) \<and> (\<forall>w. running (os_measured S w) \<subseteq> running w) \<and>
     (\<forall>path w. running (snd (os_create S path w)) \<subseteq> running w \<and> running (os_remove_file S path w) \<subseteq> running w \<and>
        running (os_remove_dir_all S path w) \<subseteq> running w) \<and>
     (\<forall>path txt w. running (snd (os_write_all S path txt w)) \<subseteq> running w)"

text \<open>A step that starts nothing, and a test that returns and has ended and reaped what it started.\<close>

definition quiet :: "('w \<Rightarrow> process_fact set) \<Rightarrow> ('w \<Rightarrow> 'a \<times> 'w) \<Rightarrow> bool" where
  "quiet running f \<longleftrightarrow> (\<forall>w. running (snd (f w)) \<subseteq> running w)"

definition cleans_up :: "('w \<Rightarrow> process_fact set) \<Rightarrow> ('w \<Rightarrow> ('a \<times> 'w) option) \<Rightarrow> bool" where
  "cleans_up running f \<longleftrightarrow> (\<forall>w. \<exists>r w'. f w = Some (r, w') \<and> running w' \<subseteq> running w)"

lemma quietI [intro]: "(\<And>w r w'. f w = (r, w') \<Longrightarrow> running w' \<subseteq> running w) \<Longrightarrow> quiet running f"
  by (auto simp: quiet_def) (metis prod.collapse subsetD)

lemma quietD: "quiet running f \<Longrightarrow> f w = (r, w') \<Longrightarrow> running w' \<subseteq> running w"
  by (metis quiet_def snd_conv)

lemma os_quiet:
  assumes "os_ok S running"
  shows "os_try_wait S process w = (r1, w') \<Longrightarrow> running w' \<subseteq> running w"
    "os_output S path args w = (r2, w') \<Longrightarrow> running w' \<subseteq> running w"
    "os_create S path w = (r3, w') \<Longrightarrow> running w' \<subseteq> running w"
    "os_write_all S path txt w = (r4, w') \<Longrightarrow> running w' \<subseteq> running w"
    "running (os_sleep S ms w) \<subseteq> running w" "running (os_measured S w) \<subseteq> running w"
    "running (os_remove_file S path w) \<subseteq> running w" "running (os_remove_dir_all S path w) \<subseteq> running w"
proof -
  note os = assms [unfolded os_ok_def]
  show "running (os_sleep S ms w) \<subseteq> running w" "running (os_measured S w) \<subseteq> running w"
    "running (os_remove_file S path w) \<subseteq> running w" "running (os_remove_dir_all S path w) \<subseteq> running w"
    using os by simp_all
  have "running (snd (os_try_wait S process w)) \<subseteq> running w" "running (snd (os_output S path args w)) \<subseteq> running w"
    "running (snd (os_create S path w)) \<subseteq> running w" "running (snd (os_write_all S path txt w)) \<subseteq> running w"
    using os by simp_all
  then show "os_try_wait S process w = (r1, w') \<Longrightarrow> running w' \<subseteq> running w"
    "os_output S path args w = (r2, w') \<Longrightarrow> running w' \<subseteq> running w"
    "os_create S path w = (r3, w') \<Longrightarrow> running w' \<subseteq> running w"
    "os_write_all S path txt w = (r4, w') \<Longrightarrow> running w' \<subseteq> running w" by simp_all
qed

lemma start_server_running:
  assumes "os_ok S running" "start_server_with_offset S path port protocol offset w = (process, w')"
  shows "running w' \<subseteq> running w \<union> Executes ` set_option process \<union> Unreaped ` set_option process"
proof -
  let ?args = "[''-p'', show_nat (unat port), ''-P'', protocol, ''-j'', ''1'', ''-q''] @
     (if offset \<noteq> 0 then [''--fixed-offset='' @ show_i16 offset] else [])"
  obtain r w1 where s: "os_spawn S path ?args w = (r, w1)" by fastforce
  have "case os_spawn S path ?args w of (Inl e, w') \<Rightarrow> running w' \<subseteq> running w
      | (Inr i, w') \<Rightarrow> running w' \<subseteq> running w \<union> {Executes i, Unreaped i}"
    using assms(1) [unfolded os_ok_def, THEN conjunct1, THEN spec [where x = path], THEN spec [where x = ?args], THEN spec [where x = w]] .
  with s assms(2) show ?thesis unfolding start_server_with_offset_def Let_def by (auto split: sum.splits)
qed

text \<open>A guard that is dropped kills the process, so that the wait returns and reaps it.\<close>

lemma drop_guard_ends:
  assumes "os_ok S running"
  shows "\<exists>w'. drop_guard S process w = Some w' \<and> running w' \<subseteq> running w - {Executes process, Unreaped process}"
proof -
  obtain k w1 where k: "os_kill S process w = (k, w1)" by fastforce
  have "case os_kill S process w of (Inl e, w') \<Rightarrow> running w' \<subseteq> running w \<and> Executes process \<notin> running w
      | (Inr _, w') \<Rightarrow> running w' \<subseteq> running w - {Executes process}" using assms by (simp add: os_ok_def)
  with k have w1: "running w1 \<subseteq> running w - {Executes process}" by (cases k) auto
  have "case os_wait S process w1 of None \<Rightarrow> Executes process \<in> running w1
      | Some (Inl e, w') \<Rightarrow> running w' \<subseteq> running w1 \<and> Unreaped process \<notin> running w1
      | Some (Inr status, w') \<Rightarrow> running w' \<subseteq> running w1 - {Unreaped process}" using assms by (simp add: os_ok_def)
  with w1 k show ?thesis by (auto simp: drop_guard_def split: option.splits prod.splits sum.splits)
qed

lemma drop_guards_end:
  assumes "os_ok S running"
  shows "\<exists>w'. drop_guards S servers w = Some w' \<and> running w' \<subseteq> running w - (Executes ` set servers \<union> Unreaped ` set servers)"
proof (induction servers arbitrary: w)
  case (Cons process servers)
  obtain w1 where w1: "drop_guard S process w = Some w1" "running w1 \<subseteq> running w - {Executes process, Unreaped process}"
    using drop_guard_ends [OF assms] by blast
  obtain w' where "drop_guards S servers w1 = Some w'" "running w' \<subseteq> running w1 - (Executes ` set servers \<union> Unreaped ` set servers)"
    using Cons by blast
  with w1 show ?case by auto
qed simp

lemma start_servers_running:
  assumes "os_ok S running" "start_servers S path configs w = ((ok, servers), w')"
  shows "running w' \<subseteq> running w \<union> Executes ` set servers \<union> Unreaped ` set servers"
  using assms(2)
proof (induction configs arbitrary: w ok servers)
  case (Cons config configs)
  obtain port protocol offset where c: "config = (port, protocol, offset)" by (cases config)
  obtain process w1 where s: "start_server_with_offset S path port protocol offset w = (process, w1)" by fastforce
  note w1 = start_server_running [OF assms(1) s]
  show ?case
  proof (cases process)
    case (Some i)
    obtain servers' where "start_servers S path configs w1 = ((ok, servers'), w')" "servers = i # servers'"
      using Cons.prems s Some by (auto simp: c split: prod.splits)
    then show ?thesis using Cons.IH [of w1 ok servers'] w1 Some by auto
  qed (use Cons.prems s w1 in \<open>simp add: c\<close>)
qed simp

lemma all_running_quiet:
  assumes "os_ok S running"
  shows "all_running S servers w = (ok, w') \<Longrightarrow> running w' \<subseteq> running w"
proof (induction servers arbitrary: w)
  case (Cons process servers)
  then show ?case using os_quiet(1) [OF assms]
    by (fastforce simp: check_running_def split: prod.splits sum.splits option.splits if_splits)
qed simp

lemma with_servers_cleans_up:
  assumes S: "os_ok S running" and body: "quiet running body"
  shows "cleans_up running (with_servers S path configs millis body)"
  unfolding cleans_up_def
proof
  fix w
  obtain ok servers w1 where s: "start_servers S path configs w = ((ok, servers), w1)" by (metis prod.exhaust)
  obtain r3 w3 where b: "(if ok then (case all_running S servers (os_sleep S millis w1) of (running, w2) \<Rightarrow>
       if running then body w2 else (Ok False, w2)) else (Ok False, w1)) = (r3, w3)" by fastforce
  obtain alive w2 where a: "all_running S servers (os_sleep S millis w1) = (alive, w2)" by fastforce
  have "running w2 \<subseteq> running w1" using all_running_quiet [OF S a] os_quiet(5) [OF S, of millis w1] by simp
  moreover have "w3 = w1 \<or> w3 = w2 \<or> body w2 = (r3, w3)" using b a by (auto split: if_splits)
  ultimately have w3: "running w3 \<subseteq> running w1" using quietD [OF body, of w2 r3 w3] by auto
  obtain w' where w': "drop_guards S servers w3 = Some w'"
    "running w' \<subseteq> running w3 - (Executes ` set servers \<union> Unreaped ` set servers)"
    using drop_guards_end [OF S] by blast
  define own where "own = Executes ` set servers \<union> Unreaped ` set servers"
  have "running w1 \<subseteq> running w \<union> own" using start_servers_running [OF S s] by (simp add: own_def Un_assoc)
  moreover have "running w' \<subseteq> running w3 - own" using w'(2) by (simp add: own_def)
  ultimately have "running w' \<subseteq> running w" using w3 by blast
  moreover have "with_servers S path configs millis body w = Some (r3, w')" 
    unfolding with_servers_def s prod.case b w'(1) by simp
  ultimately show "\<exists>r w'. with_servers S path configs millis body w = Some (r, w') \<and> running w' \<subseteq> running w" by blast
qed

lemma run_client_quiet:
  assumes "os_ok S running"
  shows "quiet running (\<lambda>w. apfst Ok (run_client S path args judge w))"
proof
  fix w r w'
  assume run: "apfst Ok (run_client S path args judge w) = (r, w')"
  obtain out w1 where o: "os_output S path args w = (out, w1)" by fastforce
  have "w' = w1" using run o by (auto simp: run_client_def split: sum.splits)
  then show "running w' \<subseteq> running w" using os_quiet(2) [OF assms o] by simp
qed

lemma until_false_cleans_up:
  assumes "\<And>x. cleans_up running (f x)"
  shows "cleans_up running (until_false f xs)"
proof (induction xs)
  case (Cons x xs)
  show ?case unfolding cleans_up_def
  proof
    fix w
    obtain r w1 where f: "f x w = Some (r, w1)" "running w1 \<subseteq> running w" using assms [of x] unfolding cleans_up_def by blast
    obtain r' w' where "until_false f xs w1 = Some (r', w')" "running w' \<subseteq> running w1" using Cons unfolding cleans_up_def by blast
    with f show "\<exists>r w'. until_false f (x # xs) w = Some (r, w') \<and> running w' \<subseteq> running w" by auto
  qed
qed (simp add: cleans_up_def)

lemma run_on_list_quiet:
  assumes "os_ok S running"
  shows "quiet running (run_on_list S mode ports flags judge)"
proof
  fix w r w'
  assume run: "run_on_list S mode ports flags judge w = (r, w')"
  obtain p w1 where c: "create_temp_server_list S ports w = (p, w1)" by fastforce
  have w1: "running w1 \<subseteq> running w" using c os_quiet(3,4) [OF assms]
    by (fastforce simp: create_temp_server_list_def Let_def split: prod.splits sum.splits)
  show "running w' \<subseteq> running w"
  proof (cases p)
    case (Inr path)
    obtain out w2 where o: "os_output S (client_path_of mode) ([''-l'', path, ''-u'', ''3''] @ flags) w1 = (out, w2)" by fastforce
    have "w' = os_remove_file S path w2" using run c Inr o by (auto simp: run_on_list_def split: sum.splits)
    then show ?thesis using os_quiet(2) [OF assms o] os_quiet(7) [OF assms, of path w2] w1 by blast
  qed (use run c w1 in \<open>simp add: run_on_list_def\<close>)
qed

lemma run_sequence_quiet:
  assumes "os_ok S running"
  shows "quiet running (run_sequence B S configs rounds expected)"
proof
  fix w r w'
  assume "run_sequence B S configs rounds expected w = (r, w')"
  then have "w' = w \<or> w' = os_measured S w"
    by (auto simp: run_sequence_def run_and_validate_def split: outcome.splits)
  then show "running w' \<subseteq> running w" using os_quiet(6) [OF assms, of w] by blast
qed

lemma dump_to_file_quiet:
  assumes "os_ok S running"
  shows "quiet running (dump_to_file_body S mode)"
proof
  let ?dir = "''/tmp/roughenough-dump-test-'' @ show_nat (os_id S)"
  fix w r w'
  assume run: "dump_to_file_body S mode w = (r, w')"
  obtain out w1 where o: "os_output S (client_path_of mode) [''127.0.0.1'', ''2033'', ''-k'', TEST_PUBLIC_KEY, ''--dump-dir'', ?dir] w = (out, w1)"
    by fastforce
  have "w' = w1 \<or> w' = os_remove_dir_all S ?dir w1"
    using run unfolding dump_to_file_body_def Let_def o by (auto split: sum.splits if_splits option.splits)
  then show "running w' \<subseteq> running w" using os_quiet(2) [OF assms o] os_quiet(8) [OF assms, of ?dir w1] by blast
qed

lemma run_tests_cleans_up:
  assumes "\<forall>test\<in>set tests. cleans_up running test"
  shows "cleans_up running (run_tests tests)"
  using assms
proof (induction tests)
  case (Cons test tests)
  show ?case unfolding cleans_up_def
  proof
    fix w
    have c: "cleans_up running test" "cleans_up running (run_tests tests)" using Cons by simp_all
    obtain r w1 where t: "test w = Some (r, w1)" "running w1 \<subseteq> running w" using c(1) unfolding cleans_up_def by blast
    obtain r' w' where "run_tests tests w1 = Some (r', w')" "running w' \<subseteq> running w1" using c(2) unfolding cleans_up_def by blast
    with t show "\<exists>r w'. run_tests (test # tests) w = Some (r, w') \<and> running w' \<subseteq> running w" by (cases r) auto
  qed
qed (simp add: cleans_up_def)

lemma integration_tests_clean_up:
  assumes "os_ok S running"
  shows "\<forall>test\<in>set (integration_tests B S). cleans_up running test"
proof -
  note bodies = with_servers_cleans_up [OF assms] run_client_quiet [OF assms] run_on_list_quiet [OF assms] run_sequence_quiet [OF assms]
    dump_to_file_quiet [OF assms]
  have "cleans_up running (test_single_server_with_protocol S mode protocol)" "cleans_up running (test_wrong_public_key_rejected S mode)"
    "cleans_up running (test_multi_server_sequence B S mode)" "cleans_up running (test_draft08_server_sequence B S mode)"
    "cleans_up running (test_mixed_protocol_sequence B S mode)" "cleans_up running (test_causality_violation_detection B S mode)"
    "cleans_up running (test_cli_allow_untrusted_time S mode)" "cleans_up running (test_cli_causality_violation_exits_with_error S mode)"
    "cleans_up running (test_cli_dump_flag S mode protocol)" "cleans_up running (test_cli_dump_validation_failure S mode)"
    "cleans_up running (test_cli_dump_to_file S mode)" for mode protocol
    unfolding test_single_server_with_protocol_def test_wrong_public_key_rejected_def test_wrong_public_key_rejected_protocol_def
      test_multi_server_sequence_def test_draft08_server_sequence_def test_mixed_protocol_sequence_def
      test_causality_violation_detection_def test_cli_allow_untrusted_time_def test_cli_causality_violation_exits_with_error_def
      test_cli_dump_flag_def test_cli_dump_validation_failure_def test_cli_dump_to_file_def Let_def
      run_measurement_sequence_def run_mixed_protocol_sequence_def run_causality_violation_sequence_def
    by (intro bodies until_false_cleans_up)+
  then show ?thesis by (simp add: integration_tests_def)
qed

text \<open>The verdict on a sequence that was measured.\<close>

lemma run_and_validate_verdict:
  assumes "sequence_run (li_profile B) (li_ed25519 B) (li_hash B) (os_random S w) (os_exchange S w) rounds clients = Ok ms"
    and "\<forall>m\<in>set ms. bounds_ok m"
  shows "fst (run_and_validate B S clients rounds expected w) =
    Ok ((\<exists>i j. i < j \<and> j < length ms \<and> violates (ms ! i) (ms ! j)) \<longleftrightarrow> expected = SomeViolations)"
proof -
  have "filter (\<lambda>(mi, mj). violates mi mj) (ordered_pairs ms) = [] \<longleftrightarrow> \<not> (\<exists>i j. i < j \<and> j < length ms \<and> violates (ms ! i) (ms ! j))"
    unfolding filter_empty_conv using ordered_pairs_iff [of _ _ ms] by (metis (no_types, lifting) case_prod_conv prod.collapse)
  then show ?thesis using assms(1)
    by (cases expected) (auto simp: run_and_validate_def validate_causality_run [OF assms(2)])
qed

text \<open>C40. The test program ends and leaves no server behind: whatever the calls of the operating system answer, whether the tests pass, fail at
  any point or panic, the program does not hang on a server that goes on running, since a guard kills before it waits, and when it ends
  no server process that it started executes or is left in the process table.\<close>

theorem integration_cleans_up:
  assumes "os_ok S running"
  shows "\<exists>r w'. integration_main B S w = Some (r, w') \<and> running w' \<subseteq> running w"
  using run_tests_cleans_up [OF integration_tests_clean_up [OF assms], of B] by (simp add: integration_main_def cleans_up_def)

text \<open>Servers that run until they are killed: waiting for one that executes never returns.\<close>

definition sample_os :: "(process_fact set, nat) os" where
  "sample_os =
     \<lparr>os_spawn = (\<lambda>path args w. (Inr 7, insert (Executes 7) (insert (Unreaped 7) w))), os_try_wait = (\<lambda>process w. (Inr None, w)),
      os_kill = (\<lambda>process w. (if Executes process \<in> w then Inr () else Inl [], w - {Executes process})),
      os_wait = (\<lambda>process w. if Executes process \<in> w then None
                            else Some (if Unreaped process \<in> w then Inr 0 else Inl [], w - {Unreaped process})),
      os_output = (\<lambda>path args w. (Inr \<lparr>co_success = True, co_stdout = []\<rparr>, w)),
      os_sleep = (\<lambda>ms w. w), os_id = 1, os_create = (\<lambda>path w. (Inr (), w)), os_write_all = (\<lambda>path txt w. (Inr (), w)),
      os_remove_file = (\<lambda>path w. w), os_remove_dir_all = (\<lambda>path w. w), os_read_dir = (\<lambda>path w. Inr []),
      os_read = (\<lambda>path w. Inr []), os_resolve = (\<lambda>host w. Inr []), os_random = (\<lambda>w k. replicate 32 0),
      os_exchange = (\<lambda>w k. sample_exchange []), os_measured = (\<lambda>w. w)\<rparr>"

text \<open>With clients that always succeed, the single-server tests pass and the first test of the wrong key fails.\<close>

theorem integration_cleans_up_witness:
  "\<forall>B. integration_main B sample_os {} = Some (Ok 1, {})"
proof
  fix B
  have "os_ok sample_os (\<lambda>w. w)" by (auto simp: os_ok_def sample_os_def)
  from integration_cleans_up [OF this, of B "{}"] obtain r where r: "integration_main B sample_os {} = Some (r, {})" by auto
  have w: "with_servers sample_os path [c] ms body {} =
      map_option (Pair (fst (body {Executes 7, Unreaped 7}))) (drop_guards sample_os [7] (snd (body {Executes 7, Unreaped 7})))" for path c ms body
    by (cases c) (simp add: with_servers_def start_server_with_offset_def check_running_def sample_os_def Let_def split: prod.splits)
  have d: "drop_guards sample_os [7] {Executes 7, Unreaped 7} = Some {}"
    by (auto simp: drop_guard_def sample_os_def)
  have rc: "run_client sample_os path args judge v = (judge \<lparr>co_success = True, co_stdout = []\<rparr>, v)" for path args judge v
    by (simp add: run_client_def sample_os_def)
  have "map_option fst (integration_main B sample_os {}) = Some (Ok 1)"
    unfolding integration_main_def integration_tests_def
    by (simp add: test_single_server_with_protocol_def test_wrong_public_key_rejected_def test_wrong_public_key_rejected_protocol_def w
        rc d del: drop_guards.simps)
  with r show "integration_main B sample_os {} = Some (Ok 1, {})" by simp
qed

end
