(* ===== verification/Load_Gen.thy ===== *)
theory Load_Gen
  imports Client
begin

text \<open>
  The load generator (\<^verbatim>\<open>integration/src/load_gen.rs\<close>): workers send requests and count what happens in shared atomic
  counters, while a display thread reads and resets the counters one after another. A thread is the list of the
  atomic operations it still has to do, given the results of its socket calls; any interleaving of the threads is a
  run. Logging and the rates that are printed are left out. Shown: the counters that are reset never report more than
  was counted, however the threads interleave, but can report less; the counter of errors is never reset.
\<close>

section \<open>Counters and atomic operations\<close>

datatype counter = NumSent | BytesSent | NumResponses | BytesReceived | NumTimeouts | NumErrors | LastUpdate

text \<open>\<open>Stats\<close>: each field is an atomic 64-bit integer; \<open>fetch_add\<close> wraps.\<close>

type_synonym stats = "counter \<Rightarrow> u64"

definition stats_default :: stats where
  "stats_default = (\<lambda>_. 0)"

datatype atomic_op = FetchAdd counter u64 | Load counter | Store counter u64

fun atomic :: "atomic_op \<Rightarrow> stats \<Rightarrow> stats" where
  "atomic (FetchAdd c n) s = s(c := s c + n)"
| "atomic (Load c) s = s"
| "atomic (Store c n) s = s(c := n)"

section \<open>Threads\<close>

text \<open>The result of \<open>recv_from\<close>: the length of a datagram, a time-out, or another error.\<close>

datatype recv_reply = Received u64 | TimedOut | RecvError

fun receive_ops :: "recv_reply \<Rightarrow> atomic_op list" where
  "receive_ops (Received n) = [FetchAdd NumResponses 1, FetchAdd BytesReceived n]"
| "receive_ops TimedOut = [FetchAdd NumTimeouts 1]"
| "receive_ops RecvError = [FetchAdd NumErrors 1]"

text \<open>The loop of \<open>run_worker\<close>; a request that cannot be sent is a panic, which ends the thread.\<close>

fun request_loop :: "(u64 option \<times> recv_reply) list \<Rightarrow> atomic_op list \<times> (unit, unit) outcome" where
  "request_loop [] = ([], Ok ())"
| "request_loop ((None, _) # rs) = ([], Panic)"
| "request_loop ((Some n, reply) # rs) =
     (case request_loop rs of (ops, r) \<Rightarrow> ([FetchAdd NumSent 1, FetchAdd BytesSent n] @ receive_ops reply @ ops, r))"

text \<open>\<open>bound\<close>: whether the socket could be bound and its time-out set; \<open>parse_addr\<close> reads a socket address, which a host
  name is not. The results are those of the \<open>num_requests\<close> exchanges.\<close>

definition run_worker ::
  "bool \<Rightarrow> (string \<Rightarrow> 'addr option) \<Rightarrow> string \<Rightarrow> u16 \<Rightarrow> bytes \<Rightarrow> (u64 option \<times> recv_reply) list \<Rightarrow> atomic_op list \<times> (unit, unit) outcome" where
  "run_worker bound parse_addr hostname port n results =
     (if \<not> bound then ([], Panic)
      else case as_frame_bytes request_wire_size request_to_wire (request_new_draft14 n) of
             Ok request_bytes \<Rightarrow>
               (case parse_addr (hostname @ CHR '':'' # show_nat (unat port)) of
                  None \<Rightarrow> ([], Panic)
                | Some target_addr \<Rightarrow> request_loop results)
           | _ \<Rightarrow> ([], Panic))"

definition reset_ops :: "atomic_op list" where
  "reset_ops = [Store NumSent 0, Store BytesSent 0, Store NumResponses 0, Store BytesReceived 0, Store NumTimeouts 0, Store LastUpdate 0]"

text \<open>One pass of the display loop, at the time \<open>now\<close>.\<close>

definition display_pass :: "u64 \<Rightarrow> atomic_op list" where
  "display_pass now =
     [Load NumSent, Load BytesSent, Load NumResponses, Load BytesReceived, Load NumTimeouts, Load NumErrors, Load LastUpdate] @
     reset_ops @ [Store LastUpdate now]"

text \<open>The time a report is about, in milliseconds: \<open>now - last_update\<close>, unchecked.\<close>

definition elapsed_millis :: "profile \<Rightarrow> u64 \<Rightarrow> u64 \<Rightarrow> ('e, u64) outcome" where
  "elapsed_millis p now last_update = sub_word p now last_update"

section \<open>Keys on the command line\<close>

text \<open>The file has its own copy of the decoder, which tries the codecs in another order than the library.\<close>

definition lg_try_decode :: "codecs \<Rightarrow> string \<Rightarrow> (decode_error, bytes) outcome" where
  "lg_try_decode cs s =
     (case or_else (or_else (or_else (or_else (or_else (cd_hexlower cs s) (cd_hexupper cs s))
             (cd_base64 cs s)) (cd_base64_nopad cs s)) (cd_base64url cs s)) (cd_base64url_nopad cs s) of
        Some value \<Rightarrow> Ok value
      | None \<Rightarrow> Err DecodeFailed)"

definition lg_try_decode_key :: "codecs \<Rightarrow> string \<Rightarrow> (decode_error, public_key) outcome" where
  "lg_try_decode_key cs encoded_key =
     and_then (lg_try_decode cs encoded_key) (\<lambda>key.
     if length key \<noteq> 32 then Err (DecodeLength (length key))
     else pubk_from_slice key)"

text \<open>The order does not matter while texts that both alphabets of Base64 decode mean the same bytes in both.\<close>

lemma decoders_agree:
  assumes "\<And>x y. x \<in> {cd_base64 cs s, cd_base64_nopad cs s} \<Longrightarrow> y \<in> {cd_base64url cs s, cd_base64url_nopad cs s} \<Longrightarrow>
      x \<noteq> None \<Longrightarrow> y \<noteq> None \<Longrightarrow> x = y"
  shows "lg_try_decode_key cs s = try_decode_key cs s"
proof -
  have "lg_try_decode cs s = try_decode cs s"
    using assms [of "cd_base64 cs s" "cd_base64url cs s"] assms [of "cd_base64 cs s" "cd_base64url_nopad cs s"]
      assms [of "cd_base64_nopad cs s" "cd_base64url cs s"] assms [of "cd_base64_nopad cs s" "cd_base64url_nopad cs s"]
    by (auto simp: lg_try_decode_def try_decode_def or_else_def split: option.splits)
  then show ?thesis by (simp add: lg_try_decode_key_def try_decode_key_def)
qed

section \<open>Runs\<close>

text \<open>\<open>lg_shown\<close> collects what the display has loaded.\<close>

record load_state =
  lg_stats :: stats
  lg_workers :: "atomic_op list list"
  lg_display :: "atomic_op list"
  lg_shown :: "(counter \<times> u64) list"

fun displayed :: "atomic_op \<Rightarrow> stats \<Rightarrow> (counter \<times> u64) list" where
  "displayed (Load c) s = [(c, s c)]"
| "displayed _ s = []"

inductive load_step :: "load_state \<Rightarrow> load_state \<Rightarrow> bool" where
  worker_op: "i < length (lg_workers s) \<Longrightarrow> lg_workers s ! i = op # ops \<Longrightarrow>
     load_step s (s\<lparr>lg_stats := atomic op (lg_stats s), lg_workers := (lg_workers s)[i := ops]\<rparr>)"
| display_op: "lg_display s = op # ops \<Longrightarrow>
     load_step s (s\<lparr>lg_stats := atomic op (lg_stats s), lg_display := ops, lg_shown := lg_shown s @ displayed op (lg_stats s)\<rparr>)"

text \<open>\<open>main\<close>: the workers and as many passes of the display as there are times.\<close>

definition load_start :: "atomic_op list list \<Rightarrow> u64 list \<Rightarrow> load_state" where
  "load_start workers nows =
     \<lparr>lg_stats = stats_default, lg_workers = workers, lg_display = concat (map display_pass nows), lg_shown = []\<rparr>"

text \<open>\<open>main\<close> over what the workers meet: a key that cannot be decoded is a panic; the first worker that panicked makes the join
  panic. The display loop never ends, so that a run in which no worker panics does not end either.\<close>

definition lg_main :: "codecs \<Rightarrow> string option \<Rightarrow> (atomic_op list \<times> (unit, unit) outcome) list \<Rightarrow> u64 list \<Rightarrow> (unit, load_state) outcome" where
  "lg_main cs public_key workers nows =
     and_then (case public_key of Some k \<Rightarrow> and_then (expect (lg_try_decode_key cs k)) (\<lambda>key. Ok (Some key)) | None \<Rightarrow> Ok None) (\<lambda>_.
     Ok (load_start (map fst workers) nows))"

definition lg_join :: "(atomic_op list \<times> (unit, unit) outcome) list \<Rightarrow> (unit, unit) outcome option" where
  "lg_join workers = (if \<exists>w\<in>set workers. snd w = Panic then Some Panic else None)"

section \<open>What is counted and what is shown\<close>

fun added :: "counter \<Rightarrow> atomic_op \<Rightarrow> nat" where
  "added c (FetchAdd d n) = (if d = c then unat n else 0)"
| "added c _ = 0"

definition to_add :: "counter \<Rightarrow> atomic_op list list \<Rightarrow> nat" where
  "to_add c threads = sum_list (map (\<lambda>ops. sum_list (map (added c) ops)) threads)"

definition shown :: "counter \<Rightarrow> load_state \<Rightarrow> nat" where
  "shown c s = sum_list (map (\<lambda>(d, n). if d = c then unat n else 0) (lg_shown s))"

fun is_add :: "atomic_op \<Rightarrow> bool" where
  "is_add (FetchAdd _ _) = True"
| "is_add _ = False"

fun op_counter :: "atomic_op \<Rightarrow> counter" where
  "op_counter (FetchAdd c _) = c"
| "op_counter (Load c) = c"
| "op_counter (Store c _) = c"

text \<open>The operations of the display on one counter.\<close>

definition on_counter :: "counter \<Rightarrow> atomic_op list \<Rightarrow> atomic_op list" where
  "on_counter c ops = filter (\<lambda>op. op_counter op = c) ops"

fun alternates :: "counter \<Rightarrow> atomic_op list \<Rightarrow> bool" where
  "alternates c [] = True"
| "alternates c (Load d # Store e n # ops) \<longleftrightarrow> d = c \<and> e = c \<and> n = 0 \<and> alternates c ops"
| "alternates c _ = False"

lemma request_loop_adds: "request_loop rs = (ops, r) \<Longrightarrow> list_all is_add ops"
proof (induction rs arbitrary: ops)
  case (Cons x rs)
  obtain n reply where x: "x = (n, reply)" by (cases x)
  then show ?case using Cons by (cases n; cases reply; auto split: prod.splits)
qed simp

lemma run_worker_adds: "run_worker bound parse_addr hostname port n rs = (ops, r) \<Longrightarrow> list_all is_add ops"
  using request_loop_adds by (auto simp: run_worker_def split: if_splits outcome.splits option.splits)

lemma display_alternates:
  assumes "c \<notin> {NumErrors, LastUpdate}"
  shows "alternates c (on_counter c (concat (map display_pass nows)))"
proof (induction nows)
  case (Cons now nows)
  have "on_counter c (display_pass now) = [Load c, Store c 0]"
    using assms by (cases c) (simp_all add: on_counter_def display_pass_def reset_ops_def)
  then show ?case using Cons by (simp add: on_counter_def)
qed (simp add: on_counter_def)

lemma display_keeps_errors: "on_counter NumErrors (concat (map display_pass nows)) = concat (map (\<lambda>_. [Load NumErrors]) nows)"
  by (induction nows) (simp_all add: on_counter_def display_pass_def reset_ops_def)

lemma to_add_step:
  "i < length threads \<Longrightarrow> threads ! i = op # ops \<Longrightarrow> to_add c threads = added c op + to_add c (threads[i := ops])"
  by (induction threads arbitrary: i) (auto simp: to_add_def nth_Cons split: nat.splits)

text \<open>What has been counted so far is at least what was shown and is still there; between the load and the
  reset of a counter, what was loaded is in both.\<close>

definition count_inv :: "counter \<Rightarrow> nat \<Rightarrow> load_state \<Rightarrow> bool" where
  "count_inv c sum_all s \<longleftrightarrow> (\<forall>ops\<in>set (lg_workers s). list_all is_add ops) \<and>
     (alternates c (on_counter c (lg_display s)) \<and> shown c s + unat (lg_stats s c) + to_add c (lg_workers s) \<le> sum_all \<or>
      (\<exists>ops v. on_counter c (lg_display s) = Store c 0 # ops \<and> alternates c ops \<and> v \<le> unat (lg_stats s c) \<and> v \<le> shown c s \<and>
         shown c s + (unat (lg_stats s c) - v) + to_add c (lg_workers s) \<le> sum_all))"

lemma add_no_overflow:
  assumes "unat (a :: u64) + unat b < 2 ^ 64"
  shows "unat (a + b) = unat a + unat b"
  using assms by (simp add: unat_word_ariths)

lemma worker_op_inv:
  assumes inv: "count_inv c sum_all s" and sum_all: "sum_all < 2 ^ 64" and i: "i < length (lg_workers s)" "lg_workers s ! i = op # ops"
  shows "count_inv c sum_all (s\<lparr>lg_stats := atomic op (lg_stats s), lg_workers := (lg_workers s)[i := ops]\<rparr>)"
proof -
  let ?s = "s\<lparr>lg_stats := atomic op (lg_stats s), lg_workers := (lg_workers s)[i := ops]\<rparr>"
  have "list_all is_add (op # ops)" using inv i unfolding count_inv_def by (metis nth_mem)
  then obtain d n where op: "op = FetchAdd d n" and ops: "list_all is_add ops" by (cases op) auto
  have w: "\<forall>ops\<in>set (lg_workers ?s). list_all is_add ops"
    using inv ops set_update_subset_insert [of "lg_workers s" i ops] by (auto simp: count_inv_def)
  have t: "to_add c (lg_workers s) = added c op + to_add c (lg_workers ?s)" using to_add_step [OF i] by simp
  have sh: "shown c ?s = shown c s" by (simp add: shown_def)
  have le: "unat (lg_stats s c) + added c op \<le> sum_all" using inv t unfolding count_inv_def by auto
  have cur: "unat (lg_stats ?s c) = unat (lg_stats s c) + added c op"
    using le sum_all add_no_overflow [of "lg_stats s c" n] by (auto simp: op)
  have "on_counter c (lg_display ?s) = on_counter c (lg_display s)" by simp
  with inv consider "alternates c (on_counter c (lg_display ?s))" "shown c s + unat (lg_stats s c) + to_add c (lg_workers s) \<le> sum_all"
    | os v where "on_counter c (lg_display ?s) = Store c 0 # os" "alternates c os" "v \<le> unat (lg_stats s c)" "v \<le> shown c s"
      "shown c s + (unat (lg_stats s c) - v) + to_add c (lg_workers s) \<le> sum_all"
    unfolding count_inv_def by auto
  then show ?thesis
  proof cases
    case 1
    then show ?thesis using w unfolding count_inv_def sh cur t by simp
  next
    case 2
    then show ?thesis using w unfolding count_inv_def sh cur t by (intro conjI disjI2 exI [of _ os] exI [of _ v]) simp_all
  qed
qed

lemma display_op_inv:
  assumes inv: "count_inv c sum_all s" and d: "lg_display s = op # ops"
  shows "count_inv c sum_all (s\<lparr>lg_stats := atomic op (lg_stats s), lg_display := ops, lg_shown := lg_shown s @ displayed op (lg_stats s)\<rparr>)"
proof (cases "op_counter op = c")
  case True
  have o: "on_counter c (lg_display s) = op # on_counter c ops" using d True by (simp add: on_counter_def)
  let ?w = "\<forall>ops\<in>set (lg_workers s). list_all is_add ops" and ?cur = "unat (lg_stats s c)" and ?t = "to_add c (lg_workers s)"
  from inv consider (idle) "?w" "alternates c (op # on_counter c ops)" "shown c s + ?cur + ?t \<le> sum_all"
    | (loaded) v where "?w" "op = Store c 0" "alternates c (on_counter c ops)" "shown c s + (?cur - v) + ?t \<le> sum_all"
    unfolding count_inv_def o by auto
  then show ?thesis
  proof cases
    case idle
    then obtain rest where r: "op = Load c" "on_counter c ops = Store c 0 # rest" "alternates c rest"
      by (cases "(c, op # on_counter c ops)" rule: alternates.cases) auto
    then show ?thesis using idle by (auto simp: count_inv_def shown_def intro!: exI [of _ ?cur])
  next
    case loaded
    then show ?thesis by (auto simp: count_inv_def shown_def)
  qed
next
  case False
  have "on_counter c (lg_display s) = on_counter c ops" using d False by (simp add: on_counter_def)
  moreover have "atomic op (lg_stats s) c = lg_stats s c" using False by (cases op) auto
  moreover have "shown c (s\<lparr>lg_stats := st, lg_display := ops, lg_shown := lg_shown s @ displayed op (lg_stats s)\<rparr>) = shown c s" for st
    using False by (cases op) (auto simp: shown_def)
  ultimately show ?thesis using inv by (simp add: count_inv_def)
qed

lemma load_run_inv:
  assumes "load_step\<^sup>*\<^sup>* s s'" "count_inv c sum_all s" "sum_all < 2 ^ 64"
  shows "count_inv c sum_all s'"
  using assms(1,2)
proof induction
  case (step s' s'')
  from step(2) show ?case using step(3)[OF step(4)] worker_op_inv [OF _ assms(3)] display_op_inv by cases auto
qed

text \<open>However the threads interleave, a counter that is reset never reports more than the workers counted: what the display
  has shown in all its passes, together with what is left, is at most the sum of all increments.\<close>

lemma display_never_overcounts:
  assumes "\<forall>ops\<in>set workers. list_all is_add ops" "to_add c workers < 2 ^ 64" "c \<notin> {NumErrors, LastUpdate}"
    and "load_step\<^sup>*\<^sup>* (load_start workers nows) s" "lg_display s = []"
  shows "shown c s + unat (lg_stats s c) + to_add c (lg_workers s) \<le> to_add c workers"
proof -
  have "count_inv c (to_add c workers) (load_start workers nows)"
    using assms(1) display_alternates [OF assms(3), of nows] by (simp add: count_inv_def load_start_def shown_def stats_default_def)
  from load_run_inv [OF assms(4) this assms(2)] assms(5) show ?thesis by (auto simp: count_inv_def on_counter_def)
qed

text \<open>It can report less: an increment between the load and the reset is lost.\<close>

lemma display_can_lose:
  "\<exists>s. load_step\<^sup>*\<^sup>* (load_start [[FetchAdd NumSent 1]] [5]) s \<and> lg_display s = [] \<and> lg_workers s = [[]] \<and>
     shown NumSent s = 0 \<and> lg_stats s NumSent = 0"
proof -
  define after where "after ops sh st w = \<lparr>lg_stats = st, lg_workers = w, lg_display = ops, lg_shown = sh\<rparr>" for ops sh st w
  have d: "load_step (after (op # ops) sh st w) (after ops (sh @ displayed op st) (atomic op st) w)" for op ops sh st w
    using display_op [of "after (op # ops) sh st w" op ops] by (simp add: after_def)
  have r: "load_step\<^sup>*\<^sup>* (after (ops @ rest) sh st w) (after rest (sh @ concat (map (\<lambda>op. displayed op st) ops)) st w)"
    if "list_all (\<lambda>op. \<exists>c. op = Load c) ops" for ops rest sh st w
    using that
  proof (induction ops arbitrary: sh)
    case (Cons op ops)
    then obtain c where op: "op = Load c" by auto
    have "load_step (after ((op # ops) @ rest) sh st w) (after (ops @ rest) (sh @ displayed op st) st w)"
      using d [of op "ops @ rest" sh st w] by (simp add: op)
    moreover have "load_step\<^sup>*\<^sup>* (after (ops @ rest) (sh @ displayed op st) st w)
        (after rest (sh @ concat (map (\<lambda>op. displayed op st) (op # ops))) st w)"
      using Cons.IH [of "sh @ displayed op st"] Cons.prems by simp
    ultimately show ?case by (rule converse_rtranclp_into_rtranclp)
  qed simp
  have z: "load_step\<^sup>*\<^sup>* (after ops sh st w) (after [] sh (fold atomic ops st) w)"
    if "list_all (\<lambda>op. \<exists>c n. op = Store c n) ops" for ops sh st w
    using that
  proof (induction ops arbitrary: st)
    case (Cons op ops)
    then obtain c n where op: "op = Store c n" by auto
    have "load_step (after (op # ops) sh st w) (after ops sh (atomic op st) w)" using d [of op ops sh st w] by (simp add: op)
    then show ?case using Cons by (simp add: converse_rtranclp_into_rtranclp)
  qed simp
  let ?loads = "[Load NumSent, Load BytesSent, Load NumResponses, Load BytesReceived, Load NumTimeouts, Load NumErrors, Load LastUpdate]"
  let ?stores = "reset_ops @ [Store LastUpdate 5]"
  let ?sh = "concat (map (\<lambda>op. displayed op stats_default) ?loads)" and ?st = "stats_default(NumSent := 1)"
  have e: "load_start [[FetchAdd NumSent 1]] [5] = after (?loads @ ?stores) [] stats_default [[FetchAdd NumSent 1]]"
    by (simp add: load_start_def after_def display_pass_def)
  have s1: "load_step\<^sup>*\<^sup>* (after (?loads @ ?stores) [] stats_default [[FetchAdd NumSent 1]])
      (after ?stores ([] @ ?sh) stats_default [[FetchAdd NumSent 1]])" by (rule r) simp
  have "load_step (after ?stores sh stats_default [[FetchAdd NumSent 1]]) (after ?stores sh ?st [[]])" for sh
    using worker_op [of 0 "after ?stores sh stats_default [[FetchAdd NumSent 1]]" "FetchAdd NumSent 1" "[]"]
    by (simp add: after_def stats_default_def)
  note s2 = r_into_rtranclp [of load_step, OF this]
  have s3: "load_step\<^sup>*\<^sup>* (after ?stores sh ?st [[]]) (after [] sh (fold atomic ?stores ?st) [[]])" for sh
    by (rule z) (simp add: reset_ops_def)
  have "load_step\<^sup>*\<^sup>* (load_start [[FetchAdd NumSent 1]] [5]) (after [] ([] @ ?sh) (fold atomic ?stores ?st) [[]])"
    unfolding e by (rule rtranclp_trans [OF s1 rtranclp_trans [OF s2 s3]])
  moreover have "fold atomic ?stores ?st NumSent = 0" by (simp add: reset_ops_def)
  moreover have "shown NumSent (after [] ([] @ ?sh) st w) = 0" for st w by (simp add: after_def shown_def stats_default_def)
  moreover have "lg_display (after ops sh st w) = ops" "lg_workers (after ops sh st w) = w" "lg_stats (after ops sh st w) = st" for ops sh st w
    by (simp_all add: after_def)
  ultimately show ?thesis by metis
qed

end
