(* ===== verification/Fuzz.thy ===== *)
theory Fuzz
  imports Validation
begin

text \<open>
  The fuzz targets (\<^verbatim>\<open>fuzz/fuzz_targets\<close>) as functions of their input, with what the assertions of
  \<^verbatim>\<open>fuzz_response_parse.rs\<close> say proved or refuted for every input instead of sampled. The generator that turns
  bytes into request data is an argument. Shown: the types a parsed response has, exactly which inputs the
  assertion on the size of a response fails on, and that the request target never fails.
\<close>

section \<open>The targets\<close>

definition RESPONSE_MINIMUM_SIZE :: nat where
  "RESPONSE_MINIMUM_SIZE = 404"

definition fuzz_response_parse :: "profile \<Rightarrow> bytes \<Rightarrow> (unit, unit) outcome" where
  "fuzz_response_parse p data =
     (case parse (resp_from_wire p) data of
        Ok response \<Rightarrow>
          and_then (assert_that (resp_msg_type response = ResponseType)) (\<lambda>_.
          assert_that (resp_wire_size response > RESPONSE_MINIMUM_SIZE))
      | Err e \<Rightarrow> Ok ()
      | Panic \<Rightarrow> Panic)"

record fuzz_request_data =
  fr_use_srv :: bool
  fr_nonce :: bytes
  fr_srv :: "bytes option"

definition fuzz_request :: "fuzz_request_data \<Rightarrow> request" where
  "fuzz_request d =
     (case fr_srv d of
        Some srv_commit \<Rightarrow> request_new_draft14_srv (fr_nonce d) srv_commit
      | None \<Rightarrow> request_new_draft14 (fr_nonce d))"

text \<open>The result of \<open>from_frame\<close> is dropped, but a panic would end the target.\<close>

definition ignore_result :: "('e, 'a) outcome \<Rightarrow> (unit, unit) outcome" where
  "ignore_result r = (case r of Panic \<Rightarrow> Panic | _ \<Rightarrow> Ok ())"

definition fuzz_request_parse :: "profile \<Rightarrow> (bytes \<Rightarrow> fuzz_request_data option) \<Rightarrow> bytes \<Rightarrow> (unit, unit) outcome" where
  "fuzz_request_parse p arbitrary data =
     and_then
       (case arbitrary data of
          None \<Rightarrow> Ok ()
        | Some fuzz_data \<Rightarrow>
            (case to_frame request_wire_size request_to_wire (fuzz_request fuzz_data) (cursor_new (replicate REQUEST_SIZE 0)) of
               Ok (_, cursor) \<Rightarrow> ignore_result (parse (from_frame (request_from_wire p)) (cur_data cursor))
             | Err e \<Rightarrow> Ok ()
             | Panic \<Rightarrow> Panic))
       (\<lambda>_. ignore_result (parse (from_frame (request_from_wire p)) data))"

section \<open>Types of parsed responses\<close>

lemma yields_sorted_versions:
  assumes "sorted acc" "\<forall>v\<in>set acc. case prior of Some pr \<Rightarrow> v \<le> pr | None \<Rightarrow> False"
  shows "yields (read_versions p k n acc prior) (\<lambda>vs. length vs \<le> length acc + k \<and> sorted vs)"
  using assms
proof (induction k arbitrary: n acc prior)
  case (Suc k)
  have "yields (read_versions p k n' (acc @ [version]) (Some version)) (\<lambda>vs. length vs \<le> length acc + Suc k \<and> sorted vs)"
    if "\<not> (case prior of Some pr \<Rightarrow> version < pr | None \<Rightarrow> False)" for n' version
  proof -
    have v: "\<forall>v\<in>set acc. v \<le> version" using that Suc.prems(2) by (force split: option.splits)
    from Suc.IH [of "acc @ [version]" "Some version" n'] v Suc.prems(1) show ?thesis
      by (simp add: sorted_append)
  qed
  then show ?case unfolding read_versions.simps using Suc.prems(1)
    by (intro yields_basic(4,2) yields_bind [OF safe_yields [OF safe_version(1)]] yields_bind [OF yields_basic(3)])
      (auto intro!: yields_basic(1))
qed (simp add: yields_basic(1))

lemma yields_vers_sorted: "yields (vers_from_wire_n p n) (\<lambda>vs. length vs \<le> MAX_VERSIONS \<and> sorted vs)"
  using yields_sorted_versions [of "[]" None p MAX_VERSIONS n]
  by (simp add: vers_from_wire_n_def version_list_from_wire_n_def)

definition srep_typed :: "signed_response \<Rightarrow> bool" where
  "srep_typed s \<longleftrightarrow> srep_wf s \<and> length (srep_supported_versions s) \<le> MAX_VERSIONS \<and> sorted (srep_supported_versions s)"

lemma yields_srep_typed: "yields (srep_from_wire p) srep_typed"
  unfolding srep_from_wire_def Let_def
  by (rule yields_bind [OF yields_parts(1)],
      intro yields_ints [THEN yields_bind] yields_bind [OF yields_basic(3)] yields_basic(4,2) yields_bind [OF yields_vers_sorted]
        yields_bind [OF yields_parts(6)],
      rule yields_basic(1), simp add: srep_wf_def srep_typed_def)

definition resp_typed :: "response \<Rightarrow> bool" where
  "resp_typed r \<longleftrightarrow> resp_wf r \<and> srep_typed (resp_srep r) \<and> hdr_tags (resp_header r) = resp_tags \<and> resp_msg_type r = ResponseType"

lemma resp_yields_typed: "yields (resp_from_wire p) resp_typed"
  unfolding resp_from_wire_def
  by (rule yields_bind [OF yields_parts(1)],
      intro yields_ints [THEN yields_bind] yields_bind [OF yields_basic(3)] yields_basic(4,2)
        yields_bind [OF yields_parts(4)] yields_bind [OF yields_parts(5)] yields_bind [OF yields_parts(3)]
        yields_bind [OF yields_srep_typed] yields_bind [OF yields_parts(2)], rule yields_basic(1))
    (simp add: resp_typed_def resp_wf_def srep_typed_def path_valid_def resp_default_def)

lemma parsed_typed: "parse (resp_from_wire p) bs = Ok r \<Longrightarrow> resp_typed r"
  using yieldsD [OF resp_yields_typed wf_cursor_new] by (auto simp: parse_Ok_iff)

lemma typed_wire_size:
  assumes "resp_typed r"
  shows "resp_wire_size r = 400 + 4 * length (srep_supported_versions (resp_srep r)) + 32 * mp_num_paths (resp_path r)"
proof -
  have "path_ok (resp_path r)" "header_accepted 5 (srep_header (resp_srep r))"
    using assms by (simp_all add: resp_typed_def resp_wf_def srep_wf_def)
  then show ?thesis
    using path_wire_size_ok [of "resp_path r"]
    by (simp add: resp_wire_size_def header_wire_size_def sig_wire_size_def nonce_wire_size_def message_type_wire_size_def
        cert_wire_size_def srep_wire_size_def version_wire_size_def vers_wire_size_def version_list_wire_size_def root_wire_size_def)
qed

section \<open>Properties\<close>

text \<open>C38. The type of a parsed response: whatever bytes arrive, when a draft-14 response frame is accepted, its header
  has the seven tags of a response and six aligned offsets in ascending order, the signature has 64 bytes, the nonce, the
  root and the delegated key 32, the type is that of a response, the path has at most 32 elements, the versions are
  sorted and at most 32, and the size the code computes is determined by the numbers of versions and path elements.\<close>

theorem parsed_response_type:
  assumes "parse (from_frame (resp_from_wire p)) bs = Ok r"
  shows "hdr_tags (resp_header r) = resp_tags \<and> length (hdr_offsets (resp_header r)) = 6 \<and>
    sorted (hdr_offsets (resp_header r)) \<and> list_all aligned (hdr_offsets (resp_header r)) \<and>
    length (resp_signature r) = 64 \<and> length (resp_nonce r) = 32 \<and> resp_msg_type r = ResponseType \<and>
    mp_num_paths (resp_path r) \<le> 32 \<and> length (srep_merkle_root (resp_srep r)) = 32 \<and>
    length (srep_supported_versions (resp_srep r)) \<le> 32 \<and> sorted (srep_supported_versions (resp_srep r)) \<and>
    length (cert_signature (resp_cert r)) = 64 \<and> length (dele_public_key (cert_delegation (resp_cert r))) = 32 \<and>
    resp_wire_size r = 400 + 4 * length (srep_supported_versions (resp_srep r)) + 32 * mp_num_paths (resp_path r)"
proof -
  have t: "resp_typed r" by (rule parse_yields [OF resp_yields_typed assms])
  then show ?thesis
    using typed_wire_size [OF t] path_wire_size_ok [of "resp_path r"]
    unfolding resp_typed_def resp_wf_def srep_typed_def srep_wf_def header_accepted_def cert_valid_def dele_valid_def sized_def MAX_VERSIONS_def
    by (elim conjE) simp
qed

theorem parsed_response_type_witness:
  "\<exists>r. parse (from_frame (resp_from_wire Release)) (frame_enc (resp_enc sample_response)) = Ok r \<and> resp_wire_size r = 404"
proof -
  have v: "length (srep_supported_versions (resp_srep (resp_canon sample_response))) = 1" "mp_num_paths (resp_path (resp_canon sample_response)) = 0"
    by (simp_all add: sample_response_def resp_canon_def resp_set_cert_def resp_set_srep_def update_offsets_def Let_def
        resp_default_def path_default_def)
  from parsed_response_type [OF parse_frame14 [OF sample_response_ok, of Release]] parse_frame14 [OF sample_response_ok, of Release] v
  show ?thesis by simp
qed

text \<open>What the fuzz target for responses asserts is false: its assertion that a parsed response is longer than the
  minimum size fails, so that the target panics, exactly on the inputs that parse to a response with an empty path
  and at most one version. Such inputs exist: the response to a single request that supports one version
  has the minimum size itself. The parser never panics, and the other assertion always holds.\<close>

lemma fuzz_response_assertion:
  "(fuzz_response_parse p data = Panic \<longleftrightarrow>
      (\<exists>r. parse (resp_from_wire p) data = Ok r \<and> mp_num_paths (resp_path r) = 0 \<and>
         length (srep_supported_versions (resp_srep r)) \<le> 1)) \<and>
   fuzz_response_parse p (resp_enc sample_response) = Panic"
proof -
  have iff: "fuzz_response_parse p data = Panic \<longleftrightarrow>
      (\<exists>r. parse (resp_from_wire p) data = Ok r \<and> mp_num_paths (resp_path r) = 0 \<and>
         length (srep_supported_versions (resp_srep r)) \<le> 1)" for data
  proof (cases "parse (resp_from_wire p) data")
    case (Ok r)
    have t: "resp_typed r" using parsed_typed [OF Ok] .
    then show ?thesis using Ok typed_wire_size [OF t]
      by (auto simp: fuzz_response_parse_def resp_typed_def RESPONSE_MINIMUM_SIZE_def assert_that_def)
  next
    case Panic
    then show ?thesis using parse_no_panic [OF safe_response] by blast
  qed (simp add: fuzz_response_parse_def)
  have "resp_valid (resp_canon sample_response)" "resp_enc (resp_canon sample_response) = resp_enc sample_response"
    using resp_canon_valid sample_response_ok by auto
  then have "parse (resp_from_wire p) (resp_enc sample_response) = Ok (resp_canon sample_response)"
    using resp_message.wire_round_trip by metis
  moreover have "length (srep_supported_versions (resp_srep (resp_canon sample_response))) = 1"
    "mp_num_paths (resp_path (resp_canon sample_response)) = 0"
    by (simp_all add: sample_response_def resp_canon_def resp_set_cert_def resp_set_srep_def update_offsets_def Let_def
        resp_default_def path_default_def)
  ultimately show ?thesis using iff by simp
qed

text \<open>The structured fuzz target writes a frame and then reads the message from the start of the frame: the
  reader refuses it for its size before it looks at a tag, whatever the frame holds.\<close>

lemma fuzz_structured_reads_nothing:
  assumes "length bs = REQUEST_SIZE"
  shows "parse (request_from_wire p) bs = Err (BadRequestSize REQUEST_SIZE)"
  using assms by (simp add: parse_def request_from_wire_def bind_def asks_def remaining_def cursor_new_def fail_def REQUEST_SIZE_def)

text \<open>The fuzz target for requests never panics, for any input and any generator of 32-byte nonces and commitments,
  in both build profiles; and the request it builds survives its round trip.\<close>

lemma fuzz_request_no_panic:
  assumes "\<forall>bs d. arbitrary bs = Some d \<longrightarrow> length (fr_nonce d) = 32 \<and> (\<forall>s. fr_srv d = Some s \<longrightarrow> length s = 32)"
  shows "fuzz_request_parse p arbitrary data = Ok () \<and>
    (\<forall>d. arbitrary data = Some d \<longrightarrow>
       (\<exists>c. to_frame request_wire_size request_to_wire (fuzz_request d) (cursor_new (replicate REQUEST_SIZE 0)) = Ok ((), c) \<and>
            parse (from_frame (request_from_wire p)) (cur_data c) = Ok (fuzz_request d)))"
proof -
  have ign: "ignore_result (parse (from_frame (request_from_wire p)) bs) = Ok ()" for bs
    using parse_no_panic [OF safe_from_frame [OF safe_request], of p bs]
    by (auto simp: ignore_result_def split: outcome.splits)
  have rt: "\<exists>c. to_frame request_wire_size request_to_wire (fuzz_request d) (cursor_new (replicate REQUEST_SIZE 0)) = Ok ((), c) \<and>
            parse (from_frame (request_from_wire p)) (cur_data c) = Ok (fuzz_request d)" if "arbitrary data = Some d" for d
  proof -
    have v: "request_valid (fuzz_request d)"
      using that assms by (auto simp: fuzz_request_def intro: request_new_valid split: option.splits)
    have s: "frame_size request_wire_size (fuzz_request d) = REQUEST_SIZE"
      using request_wire_size_valid [OF v] by (simp add: frame_size_def REQUEST_SIZE_def FRAME_OVERHEAD_def)
    obtain c where "to_frame request_wire_size request_to_wire (fuzz_request d) (cursor_new (replicate REQUEST_SIZE 0)) = Ok ((), c)"
        "cur_data c = frame_enc (request_enc (fuzz_request d))"
      using request_message.as_frame_bytes_enc [OF v] by (auto simp: as_frame_bytes_def s and_then_Ok_iff)
    moreover have "parse (from_frame (request_from_wire p)) (frame_enc (request_enc (fuzz_request d))) = Ok (fuzz_request d)"
      using request_message.frame_round_trip [OF v, of p] length_request_enc [OF v] request_wire_size_valid [OF v]
      by (auto simp: MINIMUM_FRAME_SIZE_def)
    ultimately show ?thesis by simp
  qed
  then have "fuzz_request_parse p arbitrary data = Ok ()"
    using ign by (cases "arbitrary data") (force simp: fuzz_request_parse_def)+
  with rt show ?thesis by blast
qed

end
