(* ===== verification/Spec2Isabelle.thy ===== *)
theory Spec2Isabelle
  imports Shutdown Pkcs11_Backend Transport Cli Reporting_Service Metrics_Watcher Validator_Tests Request_Tests Signing_Tests Merkle_Tests Integration Load_Gen Fuzz
begin

text \<open>
  A verification development for Roughenough, a Rust implementation of the Roughtime protocol (drafts 8 and 14):
  a protocol library, a server, a client, a reporting service and a key tool. Paths below are relative to
  \<^verbatim>\<open>src/crates/\<close>, without the prefix \<^verbatim>\<open>roughenough-\<close> of each crate.

  \<^bold>\<open>The program.\<close> A client sends a 1024-byte request with a nonce. A server worker collects requests into a
  batch, hashes them into a Merkle tree, signs the root with the time (SREP) by an online key that its long-term
  identity has delegated to (CERT), and returns to each client the signed root with the Merkle path of its
  request. The client checks the two signatures, the term of the delegation, the radius and the path. A sequence
  of measurements over several servers chains nonces to earlier responses, so that times out of order convict a
  server; such pairs are posted to a reporting service that checks them again.

  \<^bold>\<open>How Rust is modelled.\<close> A computation is a value of \<open>outcome\<close>: \<open>Ok\<close>, \<open>Err\<close> or \<open>Panic\<close>; failed
  indexing, slicing, \<open>unwrap\<close>, assertions and, in the profile \<open>Debug\<close>, arithmetic overflow are \<open>Panic\<close>, while
  \<open>Release\<close> wraps. Fixed-width integers are words; \<open>usize\<close> is a natural number with its modulus of
  \<open>2 ^ 64\<close> where it can wrap. Structures are records, enumerations data types. The buffer readers and writers
  are functions on a cursor state. Code of other packages is an argument: SHA-512 (\<open>hash_fn\<close>, \<open>sha512_ok\<close>),
  Ed25519 (\<open>ed25519\<close>, \<open>ed25519_ok\<close>), text codecs (\<open>codecs_ok\<close>), AES-GCM (\<open>aead_ok\<close>), JSON and cloud
  services (\<open>env_ok\<close>, \<open>kms_ok\<close>); random values, clock readings and what sockets return are inputs.

  \<^bold>\<open>Theories and code.\<close>
  \<^item> \<open>Prelude\<close>: outcomes, slices, arithmetic under the two build profiles, little and big endian words.
  \<^item> \<open>Cursor\<close>, \<open>Wire\<close>: \<^verbatim>\<open>protocol/src/cursor.rs\<close>, \<^verbatim>\<open>error.rs\<close>, \<^verbatim>\<open>wire.rs\<close>. The locales \<open>wire_writer\<close>,
    \<open>wire_message\<close>, \<open>wire_codec\<close> and \<open>exact_reader\<close> are the contracts of \<open>ToWire\<close>, \<open>FromWire\<close> and frames;
    every message type of the later theories is an interpretation.
  \<^item> \<open>Tag\<close>, \<open>Header\<close>, \<open>Versions\<close>, \<open>Tag_Values\<close>, \<open>Cert\<close>, \<open>Srep\<close>: \<^verbatim>\<open>tag.rs\<close>, \<^verbatim>\<open>header.rs\<close>, \<^verbatim>\<open>protocol_ver.rs\<close>,
    \<^verbatim>\<open>version_list.rs\<close> and the values of \<^verbatim>\<open>tags/\<close>. Parsers are shown to accept exactly the encodings. The header
    reader alone also accepts repeated tags, which the protocol draft forbids; every message reader then compares the tags
    with a fixed list.
  \<^item> \<open>Request\<close>, \<open>Response\<close>: \<^verbatim>\<open>request.rs\<close>, \<^verbatim>\<open>response.rs\<close>. Round trips through frames; no panic on any bytes.
  \<^item> \<open>Merkle\<close>: \<^verbatim>\<open>merkle/src/lib.rs\<close>. The tree built in place computes the root and the paths of a recursive
    specification; paths verify; two data items for one root and path give a hash collision.
  \<^item> \<open>Keys\<close>: \<^verbatim>\<open>protocol/src/util/clocksource.rs\<close>, \<^verbatim>\<open>keys/src\<close> (seeds, memory backend, online keys, identity),
    \<^verbatim>\<open>server/src/keysource.rs\<close>. The locale \<open>seed_backend\<close> is the trait of that name.
  \<^item> \<open>Metrics\<close>, \<open>Server\<close>, \<open>Worker\<close>: \<^verbatim>\<open>server/src\<close>. Batching, responses, receive and send loops, the event loop
    as the step relation \<open>worker_step\<close> with an invariant of its reachable states.
  \<^item> \<open>Aggregator\<close>: \<^verbatim>\<open>server/src/metrics/aggregator.rs\<close>, \<^verbatim>\<open>snapshot.rs\<close>. The metrics thread as the step relation
    \<open>aggregator_step\<close>; the report file over a file system with every failing call.
  \<^item> \<open>Metrics_Watcher\<close>: \<^verbatim>\<open>server/examples/metrics_watcher.rs\<close>, a reader of the report files, its calls interleaved with those
    of the server.
  \<^item> \<open>Server_Main\<close>, \<open>Shutdown\<close>: \<^verbatim>\<open>server/src/main.rs\<close>. The process as the step relation \<open>process_step\<close>: workers and
    metrics thread interleave over the shared identity, the metrics channel, the files and the shutdown flag. The
    invariant of its reachable states, the conservation of counted requests, and the way to its end.
  \<^item> \<open>Validation\<close>, \<open>Client\<close>, \<open>Transport\<close>: \<^verbatim>\<open>client/src\<close>: \<^verbatim>\<open>validation.rs\<close>, \<^verbatim>\<open>measurement.rs\<close>, \<^verbatim>\<open>client.rs\<close>,
    \<^verbatim>\<open>sequence.rs\<close>, \<^verbatim>\<open>transport.rs\<close> and \<^verbatim>\<open>common/src/crypto.rs\<close>. The validators are characterised exactly; the client builder
    is in \<open>Client\<close> over any transport and in \<open>Transport\<close> with its default.
  \<^item> \<open>Text\<close>, \<open>Encoding\<close>: string functions of the standard library, \<^verbatim>\<open>common/src/encoding.rs\<close>,
    \<^verbatim>\<open>protocol/src/util/hex.rs\<close>.
  \<^item> \<open>Server_List\<close>, \<open>Reporting\<close>, \<open>Raw_Frame\<close>, \<open>Cli\<close>: \<^verbatim>\<open>client/src/server_list.rs\<close>, \<^verbatim>\<open>reporting.rs\<close>,
    \<^verbatim>\<open>main.rs\<close>, \<^verbatim>\<open>args.rs\<close> and \<^verbatim>\<open>reporting-server/src\<close>; the locale \<open>report_storage\<close> is its storage trait.
  \<^item> \<open>Reporting_Service\<close>: the routes and the start of \<^verbatim>\<open>reporting-server/src\<close>; the replies to any sequence of requests are those
    of an append-only log of accepted reports. The validator method that this crate calls does not exist, so it is an arbitrary
    argument, which may panic.
  \<^item> \<open>Seed_Storage\<close>, \<open>Key_Tool\<close>: \<^verbatim>\<open>keys/src/storage.rs\<close>, \<^verbatim>\<open>keys/src/longterm/\<close>, \<^verbatim>\<open>keys/bin/keys.rs\<close> and the seed
    loading of \<^verbatim>\<open>server/src/main.rs\<close>; the locale \<open>kms_envelope\<close> is what both key services provide.
  \<^item> \<open>Seed_Backends\<close>: \<^verbatim>\<open>keys/src/online/linuxkrs.rs\<close> and \<^verbatim>\<open>sshagent.rs\<close>. The worker thread that owns the keyring and
    its clients are the step relation \<open>krs_step\<close>, whose interleavings refine a sequential specification; the
    boxed backend of the server interprets \<open>seed_backend\<close>.
  \<^item> \<open>Pkcs11_Backend\<close>: \<^verbatim>\<open>keys/src/online/pkcs11.rs\<close> over the calls of the device library; another interpretation of
    \<open>seed_backend\<close>.
  \<^item> \<open>Test_Context\<close>: \<^verbatim>\<open>server/src/test_utils.rs\<close>: the exchanges that tests are built on are genuine, and the second responder
    of that file agrees with the server's.
  \<^item> \<open>Library_Tests\<close>, \<open>Handler_Tests\<close>, \<open>Validator_Tests\<close>, \<open>Request_Tests\<close>, \<open>Key_Tests\<close>, \<open>Signing_Tests\<close>, \<open>Merkle_Tests\<close>: tests as values that are \<open>Ok ()\<close> when
    a test passes: \<^verbatim>\<open>integration/src/lib.rs\<close>, the test module of \<^verbatim>\<open>server/src/requests.rs\<close>, the modules \<^verbatim>\<open>causality\<close> and
    \<^verbatim>\<open>key_rotation\<close> of \<^verbatim>\<open>client/src/validation.rs\<close>, the hostile requests of
    \<^verbatim>\<open>protocol/tests/adversarial_request_tests.rs\<close>, the tests of the Merkle tree, \<^verbatim>\<open>keys/src/lib.rs\<close>, \<^verbatim>\<open>keys/src/tests/lifecycle_tests.rs\<close> and the tests of one thread of
    \<^verbatim>\<open>server/src/keysource.rs\<close>. Each passes for every signature scheme and hash function with the
    documented laws, or exactly when a stated forgery or collision does not happen.
  \<^item> \<open>Integration\<close>: \<^verbatim>\<open>integration/src/main.rs\<close> over the calls of an operating system, where waiting for
    a process that goes on running never returns; the program ends, and no server it starts outlives it, since guards kill before
    they wait.
  \<^item> \<open>Load_Gen\<close>: \<^verbatim>\<open>integration/src/load_gen.rs\<close>: threads over shared atomic counters, in any interleaving.
  \<^item> \<open>Fuzz\<close>: \<^verbatim>\<open>src/fuzz/fuzz_targets\<close>: the targets for requests and responses, and the type of a parsed response.

  This theory composes the two sides: whatever a serving worker has done before, a request that a client sends
  is answered in the round that receives it, and the client accepts the answer (\<open>end_to_end\<close>).

  \<^bold>\<open>Bounds.\<close> Loops are structural recursion over what they iterate; the receive loop runs over the datagrams
  that wait at the socket, at most a batch of 64 per pass, so that a path has at most 6 elements and a reply
  fits the client's buffer of 1024 bytes. The retry loop of \<open>submit\<close> is a partial function; it is shown to end.
  The event loop is a relation, since it runs until the process is stopped. No definition uses fuel.

  \<^bold>\<open>Where the code falls short.\<close> Some theorems describe flaws: \<open>srep_forgery_draft14\<close>, \<open>causality_underflow\<close>,
  \<open>root_from_paths_high_bits\<close>, \<open>batch_histogram_overflow\<close>, \<open>accumulated_histogram_overflow\<close>, \<open>late_violation_rejected\<close>,
  \<open>retries_overflow\<close>, \<open>secret_envelope_unreadable\<close>, \<open>open_foreign_random\<close> and \<open>fuzz_response_assertion\<close>; the last part of
  \<open>header_from_wire_iff\<close> is about repeated tags.

  \<^bold>\<open>Not modelled.\<close> The sockets, devices, processes and cloud services behind their results; log output and what programs
  print; the parsing of command lines; the matching of HTTP routes, which belongs to the web framework;
  \<^verbatim>\<open>fuzz_structured.rs\<close>, which imports names that the protocol library does not have; benchmarks; the tests of the
  reporting server, which call a method that the client library does not have; tests over sockets and threads; the tests of single
  components on recorded bytes, which the theorems on those components cover for all bytes.
  Also left out are the panics at failures of the system when a server or a client is set up: of creating the poll and registering
  the socket in \<^verbatim>\<open>worker.rs\<close>, of spawning threads and installing the signal handler in \<^verbatim>\<open>server/src/main.rs\<close>, of creating the UDP
  transport of the command-line client (\<open>Transport\<close> has it, in the builder with the default transport); the encryption context, additional data and checksums among the arguments of
  the key services; and the profile \<^verbatim>\<open>release-min-size\<close>, where a panic aborts without running destructors. The counters of requests are
  natural numbers, so their overflow at \<open>2 ^ 64\<close> does not appear. The PKCS#11 token is assumed to report the curve point
  at the handle of the private key, where the code asks for it.
\<close>

section \<open>The server's replies are accepted by the client\<close>

text \<open>The contract between the two sides, for both protocol versions: the reply \<open>bs\<close> fits the client's
  buffer and makes the client \<open>c\<close>, having sent the frame \<open>q\<close>, return the time \<open>now\<close> with the server's
  radius.\<close>

definition convincing ::
  "profile \<Rightarrow> ed25519 \<Rightarrow> hash_fn \<Rightarrow> 'addr client \<Rightarrow> bytes \<Rightarrow> u64 \<Rightarrow> bytes \<Rightarrow> bool" where
  "convincing p E H c q now bs \<longleftrightarrow> length bs \<le> 1024 \<and>
     (\<exists>r. parse_and_validate p E H c q bs = Ok r \<and> srep_midpoint (resp_srep r) = now \<and>
          srep_radius (resp_srep r) = DEFAULT_RADI_SECONDS)"

lemma small_index: "j < 64 \<Longrightarrow> unat (of_nat j :: u32) = j"
  by (simp add: unat_of_nat take_bit_nat_eq_self)

lemma reply14_size:
  assumes "resp_ok r" "mp_num_paths (resp_path r) \<le> 6" "resp_srep r = srep_make v radi now [v] root"
  shows "length (frame_enc (resp_enc r)) \<le> 1024"
  using assms(2,3) length_resp_enc [OF assms(1)]
  by (simp add: resp_wire_size_def header_wire_size_def sig_wire_size_def nonce_wire_size_def srep_make_size
      message_type_wire_size_def cert_wire_size_def path_wire_size_def ELEMENT_SIZE_def FRAME_OVERHEAD_def)

lemma reply08_size:
  assumes "resp08_ok r" "mp_num_paths (resp08_path r) \<le> 6"
  shows "length (frame_enc (resp08_enc r)) \<le> 1024"
  using assms(2) length_resp08_enc [OF assms(1)]
  by (simp add: resp08_wire_size_def header_wire_size_def sig_wire_size_def srep08_wire_size version_wire_size_def
      cert_wire_size_def path_wire_size_def ELEMENT_SIZE_def FRAME_OVERHEAD_def)

lemma reply14_convincing:
  assumes "ed25519_ok E" "key_ok E lt_pk RfcDraft14 (Draft14Key k)" "response14_at H root common j q pending (a, bs)" "j < 64"
    and "resp_cert common = ok14_cert k" "resp_srep common = srep_make RfcDraft14 DEFAULT_RADI_SECONDS now [RfcDraft14] root"
    and "resp_signature common = ed_sign E (ok14_secret k) (srep_prefix RfcDraft14 @ srep_enc (resp_srep common))"
    and "dele_min_time (cert_delegation (ok14_cert k)) \<le> now" "now \<le> dele_max_time (cert_delegation (ok14_cert k))"
    and "cl_validator c = Some lt_pk" "cl_protocol_version c = RfcDraft14"
  shows "a = pr_src_addr pending" "convincing p E H c q now bs"
proof -
  obtain r where r: "(a, bs) = (pr_src_addr pending, frame_enc (resp_enc r))" "resp_ok r"
    "resp_signature r = resp_signature common" "resp_srep r = resp_srep common" "resp_cert r = resp_cert common"
    "resp_index r = of_nat j" "mp_num_paths (resp_path r) \<le> 6" "root_from_paths H j q (resp_path r) = root"
    using assms(3) unfolding response14_at_def by blast
  show "a = pr_src_addr pending" using r(1) by simp
  have v: "validate_draft14 E H (Some lt_pk) q (resp_canon r) (frame_enc (resp_enc r)) = Ok now"
    by (rule honest14_accepted [OF assms(1) r(2), where v = RfcDraft14 and sk = "ok14_secret k" and radi = DEFAULT_RADI_SECONDS
          and root = root])
      (use assms r small_index [OF assms(4)] in \<open>simp_all add: ok14_ok_def DEFAULT_RADI_SECONDS_def\<close>)
  show "convincing p E H c q now bs"
    using v parse_frame14 [OF r(2), of p] reply14_size [OF r(2,7)] r(1,4) assms(6,10,11)
    by (simp add: convincing_def parse_and_validate_def resp_canon_def)
qed

lemma resp_from_draft08_time:
  "srep_midpoint (resp_srep (resp_from_draft08 d)) = srep08_midpoint (resp08_srep d)"
  "srep_radius (resp_srep (resp_from_draft08 d)) = srep08_radius (resp08_srep d)"
  by (simp_all add: resp_from_draft08_def resp_set_indx_def resp_set_cert_def resp_set_srep_def resp_set_path_def
      resp_set_sig_def update_offsets_def srep_from_draft08_def srep_set_root_def srep_set_vers_def srep_set_midp_def
      srep_set_radi_def srep_set_ver_def Let_def)

lemma reply08_convincing:
  assumes "ed25519_ok E" "key_ok E lt_pk RfcDraft08 (Draft08Key k)" "response08_at H root common j n pending (a, bs)" "j < 64"
    and "resp08_cert common = ok08_cert k" "resp08_srep common = srep08_make DEFAULT_RADI_SECONDS now root"
    and "resp08_signature common = ed_sign E (ok08_secret k) (srep_prefix RfcDraft08 @ srep08_enc (resp08_srep common))"
    and "dele_min_time (cert_delegation (ok08_cert k)) \<le> now" "now \<le> dele_max_time (cert_delegation (ok08_cert k))"
    and "cl_validator c = Some lt_pk" "cl_protocol_version c = RfcDraft08"
    and "FRAMED_NONCE_OFFSET + 32 \<le> length q" "take 32 (drop FRAMED_NONCE_OFFSET q) = n"
  shows "a = pr_src_addr pending" "convincing p E H c q now bs"
proof -
  obtain r where r: "(a, bs) = (pr_src_addr pending, frame_enc (resp08_enc r))" "resp08_ok r"
    "resp08_signature r = resp08_signature common" "resp08_srep r = resp08_srep common" "resp08_cert r = resp08_cert common"
    "resp08_index r = of_nat j" "mp_num_paths (resp08_path r) \<le> 6" "root_from_paths H j n (resp08_path r) = root"
    using assms(3) unfolding response08_at_def by blast
  show "a = pr_src_addr pending" using r(1) by simp
  have v: "validate_draft08 E H (Some lt_pk) q (resp08_canon r) (frame_enc (resp08_enc r)) = Ok now"
    by (rule honest08_accepted [OF assms(1) r(2), where sk = "ok08_secret k" and radi = DEFAULT_RADI_SECONDS and root = root])
      (use assms r small_index [OF assms(4)] in \<open>simp_all add: ok08_ok_def DEFAULT_RADI_SECONDS_def\<close>)
  show "convincing p E H c q now bs"
    using v parse_frame08 [OF r(2), of p] reply08_size [OF r(2,7)] r(1,4) assms(6,10,11)
    by (simp add: convincing_def parse_and_validate_def resp08_canon_def resp_from_draft08_time)
qed

section \<open>A round of the worker answers every client\<close>

lemma accepted_mem:
  assumes "request_valid r" "(frame_enc (request_enc r), a) \<in> set ds"
  shows "\<exists>j<length (accepted p ds). accepted p ds ! j = (frame_enc (request_enc r), r, a)"
proof -
  have "(frame_enc (request_enc r), r, a) \<in> set (accepted p ds)"
    using assms(2)
    by (induction p ds rule: accepted.induct) (auto simp: request_frame_ok [OF assms(1)] request_frame_ok(1) [OF assms(1), simplified] split: outcome.splits)
  then show ?thesis by (simp add: in_set_conv_nth)
qed

lemma batch14_answers:
  assumes E: "ed25519_ok E" and H: "sha512_ok H" and i: "rh_inv E H lt_pk [] (qh_responder q)"
    "rh_protocol_version (qh_responder q) = RfcDraft14" "length ds \<le> rh_batch_size (qh_responder q)"
    and k: "rh_online_key (qh_responder q) = Draft14Key k"
    and now: "epoch_seconds sys (ok14_clock k) = (Ok now :: (backend_error, u64) outcome)"
    and t: "dele_min_time (cert_delegation (ok14_cert k)) \<le> now" "now \<le> dele_max_time (cert_delegation (ok14_cert k))"
    and run: "collect_all Release H ds q = Ok q1" "generate_responses Release E H sys q1 = Ok (outs, q2)"
    and c: "cl_validator c = Some lt_pk" "cl_protocol_version c = RfcDraft14"
    and d: "request_valid r" "(frame_enc (request_enc r), a) \<in> set ds"
  shows "\<exists>reply. (a, reply) \<in> set outs \<and> convincing p E H c (frame_enc (request_enc r)) now reply"
proof -
  let ?xs = "accepted Release ds" and ?f = "frame_enc (request_enc r)"
  let ?root = "merkle_root_spec H (map (hash_leaf H) (map fst ?xs))"
  have kok: "key_ok E lt_pk RfcDraft14 (Draft14Key k)" and b64: "length ds \<le> 64" using i k by (auto simp: rh_inv_def)
  obtain j where j: "j < length ?xs" "?xs ! j = (?f, r, a)" using accepted_mem [OF d, of Release] by blast
  have j64: "j < 64" using j(1) b64 accepted_length [of Release ds] by linarith
  obtain common where b: "length outs = length ?xs"
    "\<forall>j<length outs. response14_at H ?root common j (fst (?xs ! j)) (pending_of (?xs ! j)) (outs ! j)"
    "outs \<noteq> [] \<longrightarrow> resp_cert common = ok14_cert k \<and>
       resp_srep common = srep_make RfcDraft14 DEFAULT_RADI_SECONDS now [RfcDraft14] ?root \<and>
       resp_signature common = ed_sign E (ok14_secret k) (srep_prefix RfcDraft14 @ srep_enc (srep_make RfcDraft14 DEFAULT_RADI_SECONDS now [RfcDraft14] ?root))"
    using serve_batch14 [OF E H i(1,2) k i(3) _ now, where p = Release] run
    by (auto simp: Let_def count_room_def simp del: map_map)
  obtain a' reply where o: "outs ! j = (a', reply)" by (cases "outs ! j")
  have at: "response14_at H ?root common j ?f (pending_of (?xs ! j)) (a', reply)" using b(2) [rule_format, of j] b(1) j o by simp
  have "outs \<noteq> []" using j(1) b(1) by auto
  with b(3) have "a' = a" "convincing p E H c ?f now reply"
    using reply14_convincing [OF E kok at j64 _ _ _ t c] j(2) by (auto simp: pending_of_def)
  then show ?thesis using o j(1) b(1) by (metis nth_mem)
qed

lemma batch08_answers:
  assumes E: "ed25519_ok E" and H: "sha512_ok H" and i: "rh_inv E H lt_pk [] (qh_responder q)"
    "rh_protocol_version (qh_responder q) = RfcDraft08" "length ds \<le> rh_batch_size (qh_responder q)"
    and k: "rh_online_key (qh_responder q) = Draft08Key k"
    and now: "epoch_seconds sys (ok08_clock k) = (Ok now :: (backend_error, u64) outcome)"
    and t: "dele_min_time (cert_delegation (ok08_cert k)) \<le> now" "now \<le> dele_max_time (cert_delegation (ok08_cert k))"
    and run: "collect_all Release H ds q = Ok q1" "generate_responses Release E H sys q1 = Ok (outs, q2)"
    and c: "cl_validator c = Some lt_pk" "cl_protocol_version c = RfcDraft08"
    and d: "length n = 32" "(frame_enc (request_enc (request_new_draft08 n)), a) \<in> set ds"
  shows "\<exists>reply. (a, reply) \<in> set outs \<and> convincing p E H c (frame_enc (request_enc (request_new_draft08 n))) now reply"
proof -
  let ?xs = "accepted Release ds" and ?f = "frame_enc (request_enc (request_new_draft08 n))"
  let ?ns = "map (\<lambda>x. request_nonc (fst (snd x))) ?xs"
  let ?root = "merkle_root_spec H (map (hash_leaf H) ?ns)"
  have kok: "key_ok E lt_pk RfcDraft08 (Draft08Key k)" and b64: "length ds \<le> 64" using i k by (auto simp: rh_inv_def)
  note rv = request_new_valid(1) [OF d(1)]
  obtain j where j: "j < length ?xs" "?xs ! j = (?f, request_new_draft08 n, a)" using accepted_mem [OF rv d(2), of Release] by blast
  have j64: "j < 64" using j(1) b64 accepted_length [of Release ds] by linarith
  obtain common where b: "length outs = length ?xs"
    "\<forall>j<length outs. response08_at H ?root common j (?ns ! j) (pending_of (?xs ! j)) (outs ! j)"
    "outs \<noteq> [] \<longrightarrow> resp08_cert common = ok08_cert k \<and>
       resp08_srep common = srep08_make DEFAULT_RADI_SECONDS now ?root \<and>
       resp08_signature common = ed_sign E (ok08_secret k) (srep_prefix RfcDraft08 @ srep08_enc (srep08_make DEFAULT_RADI_SECONDS now ?root))"
    using serve_batch08 [OF E H i(1,2) k i(3) _ now, where p = Release] run
    by (auto simp: Let_def count_room_def simp del: map_map)
  obtain a' reply where o: "outs ! j = (a', reply)" by (cases "outs ! j")
  have at: "response08_at H ?root common j n (pending_of (?xs ! j)) (a', reply)"
    using b(2) [rule_format, of j] b(1) j o request_new_nonc(1) by simp
  have off: "FRAMED_NONCE_OFFSET + 32 \<le> length ?f" "take 32 (drop FRAMED_NONCE_OFFSET ?f) = n"
    using request_frame_ok(1) [OF rv] framed_nonce [OF d(1)] by (simp_all add: FRAMED_NONCE_OFFSET_def REQUEST_SIZE_def)
  have "outs \<noteq> []" using j(1) b(1) by auto
  with b(3) have "a' = a" "convincing p E H c ?f now reply"
    using reply08_convincing [OF E kok at j64 _ _ _ t c off] j(2) by (auto simp: pending_of_def)
  then show ?thesis using o j(1) b(1) by (metis nth_mem)
qed

lemma round_answers:
  assumes E: "ed25519_ok E" and H: "sha512_ok H" and w: "worker_inv E H (mb_ok E) (mb_pk E) lt_pk v t w"
    and now: "epoch_seconds (ri_clock ri) (wk_clock w) = (Ok now :: (backend_error, u64) outcome)" "t \<le> now"
    and exp: "now \<le> dele_max_time (worker_delegation w)"
    and ds: "collect_requests (wk_net_handler w) (ri_recv ri) = (ds, res, net, rest)"
    and c: "client_ok c" "cl_public_key c = Some lt_pk" "cl_protocol_version c = v" and n: "length rand = 32"
    and q: "(frame_enc (request_enc (create_request rand None c)), a) \<in> set ds"
  shows "\<exists>outs w' reply. worker_round Release E H ri w = Ok ((outs, res), w') \<and> (a, reply) \<in> set outs \<and>
           convincing p E H c (frame_enc (request_enc (create_request rand None c))) now reply"
proof -
  let ?q = "wk_req_handler w" and ?f = "frame_enc (request_enc (create_request rand None c))"
  have i: "rh_inv E H lt_pk [] (qh_responder ?q)" "rh_protocol_version (qh_responder ?q) = v"
    "length ds \<le> rh_batch_size (qh_responder ?q)"
    "epoch_seconds (ri_clock ri) (key_clock (rh_online_key (qh_responder ?q))) = (Ok now :: (backend_error, u64) outcome)"
    "dele_min_time (worker_delegation w) \<le> now"
    using w now collect_requests_bounds [OF ds] by (auto simp: worker_inv_def Let_def)
  obtain q1 outs q2 where r: "collect_all Release H ds ?q = Ok q1" "generate_responses Release E H (ri_clock ri) q1 = Ok (outs, q2)"
    "worker_round Release E H ri w = Ok ((outs, res), w\<lparr>wk_net_handler := send_all (ri_sends ri) outs net, wk_req_handler := q2\<rparr>)"
    by (rule worker_round_run [OF E H w now(1) ds])
  have k: "key_ok E lt_pk v (rh_online_key (qh_responder ?q))" using i(1,2) by (simp add: rh_inv_def)
  have val: "cl_validator c = Some lt_pk" using c by (simp add: client_ok_def)
  have "\<exists>reply. (a, reply) \<in> set outs \<and> convincing p E H c ?f now reply"
  proof (cases "rh_online_key (qh_responder ?q)")
    case (Draft14Key k14)
    with k have v: "v = RfcDraft14" by (cases v) simp_all
    show ?thesis
      by (rule batch14_answers [OF E H i(1) _ i(3) Draft14Key _ _ _ r(1,2) val _ create_request_valid(1) [OF c(1) n] q])
        (use i exp c(3) v Draft14Key in \<open>simp_all add: worker_delegation_def\<close>)
  next
    case (Draft08Key k08)
    with k have v: "v = RfcDraft08" by (cases v) simp_all
    then have f: "create_request rand None c = request_new_draft08 rand" using c(3) by (simp add: create_request_def)
    show ?thesis unfolding f
      by (rule batch08_answers [OF E H i(1) _ i(3) Draft08Key _ _ _ r(1,2) val _ n q [unfolded f]])
        (use i exp c(3) v Draft08Key in \<open>simp_all add: worker_delegation_def\<close>)
  qed
  then show ?thesis using r(3) by blast
qed

lemma query_convinced:
  assumes "client_ok c" "length rand = 32"
    and "as_frame_bytes request_wire_size request_to_wire (create_request rand None c) = (Ok f :: (error, bytes) outcome)"
    and "convincing p E H c f now reply"
    and "ex_send ex f (cl_server c) = Ok (length f)" "ex_recv ex f (cl_server c) = Ok reply"
  shows "\<exists>m. query p E H rand ex c = Ok m \<and> midpoint m = now \<and> radius m = DEFAULT_RADI_SECONDS"
proof -
  note v = create_request_valid(1) [OF assms(1,2)]
  have f: "f = frame_enc (request_enc (create_request rand None c))" using assms(3) request_frame [OF v] by simp
  show ?thesis
    unfolding query_run send_request_run [OF v] f [symmetric]
    using assms(4-6)
    by (auto simp: convincing_def recv_into_buffer_def validate_response_def measurement_build_full midpoint_def radius_def)
qed

section \<open>Properties\<close>

text \<open>C1. End to end, for both protocol versions: take any worker of a server that was started with a 32-byte
  seed, in any state in which it serves requests, and any client built with the server's long-term public
  key and the same protocol version. If the client's request is among the datagrams of a round, together with
  whatever else, and the clock has not passed the end of the online key's delegation, then the worker's round
  succeeds and sends a reply to the client's address; and the client that receives this reply returns
  a measurement with the server's time and radius.\<close>

theorem end_to_end:
  assumes "ed25519_ok E" "sha512_ok H" "start_ok args sys1 sys2 t0 seed"
    and "start_worker Release E sys1 sys2 secret seed idx args ch = Ok (w0 :: (memory_backend, 'addr) worker)"
    and "(worker_step Release E H (memory_ops E))\<^sup>*\<^sup>* (Polling t0 w0) (Serving t w)"
    and "epoch_seconds (ri_clock ri) (wk_clock w) = (Ok now :: (backend_error, u64) outcome)" "t \<le> now"
    and "now \<le> dele_max_time (worker_delegation w)"
    and "collect_requests (wk_net_handler w) (ri_recv ri) = (ds, res, net, rest)"
    and "cb_public_key b = Some (ed_public E seed)" "cb_protocol_version b = args_version (sa_protocol args)"
    and "client_build H b = (Ok c :: (client_error, 'srv client) outcome)" "length rand = 32"
    and "as_frame_bytes request_wire_size request_to_wire (create_request rand None c) = (Ok f :: (error, bytes) outcome)"
    and "(f, a) \<in> set ds"
  shows "\<exists>outs w' reply. worker_round Release E H ri w = Ok ((outs, res), w') \<and> (a, reply) \<in> set outs \<and>
     (\<forall>ex. ex_send ex f (cl_server c) = Ok (length f) \<longrightarrow> ex_recv ex f (cl_server c) = Ok reply \<longrightarrow>
        (\<exists>m. query p E H rand ex c = Ok m \<and> midpoint m = now \<and> radius m = DEFAULT_RADI_SECONDS))"
proof -
  let ?v = "args_version (sa_protocol args)"
  obtain w0' :: "(memory_backend, 'addr) worker" where "start_worker Release E sys1 sys2 secret seed idx args ch = Ok w0'"
    "worker_inv E H (mb_ok E) (mb_pk E) (ed_public E seed) ?v t0 w0'"
    using start_worker_ok [OF assms(1,3), of secret idx ch H] by blast
  then have w: "worker_inv E H (mb_ok E) (mb_pk E) (ed_public E seed) ?v t w"
    using memory_seed.worker_run_inv [OF assms(1,2,5)] assms(4) by simp
  obtain c' :: "'srv client" where "client_build H b = (Ok c' :: (client_error, _) outcome)" "client_ok c'"
    "cl_public_key c' = cb_public_key b" "cl_protocol_version c' = cb_protocol_version b"
    using client_build_ok [OF assms(2), of b] assms(10) ed25519_lengths [OF assms(1)] by auto
  then have c: "client_ok c" "cl_public_key c = Some (ed_public E seed)" "cl_protocol_version c = ?v"
    using assms(10-12) by simp_all
  have f: "f = frame_enc (request_enc (create_request rand None c))"
    using assms(14) request_frame [OF create_request_valid(1) [OF c(1) assms(13)]] by simp
  from round_answers [OF assms(1,2) w assms(6-9) c assms(13), of a p] assms(15) f
  obtain outs w' reply where "worker_round Release E H ri w = Ok ((outs, res), w')" "(a, reply) \<in> set outs"
    "convincing p E H c f now reply" by auto
  with query_convinced [OF c(1) assms(13,14)] show ?thesis by blast
qed

text \<open>A draft-08 server started at time 1000 that replaces its key at time 2001 and then reads one
  request, and the client that sent it.\<close>

definition sample_tick :: tick_input where
  "sample_tick = \<lparr>ti_now = Some 2000, ti_publish = Some 2000, ti_key = Some 2001, ti_secret = replicate 32 3, ti_jitter = 17,
     ti_poll_ok = True\<rparr>"

lemma sample_serving:
  obtains w0 w :: "(memory_backend, nat) worker" where
    "start_worker Release toy_ed (Some 1000) (Some 1001) (replicate 32 2) (replicate 32 1) 0 (sample_args V08)
       \<lparr>ch_capacity = 2, ch_queue = []\<rparr> = Ok w0"
    "worker_tick Release toy_ed (memory_ops toy_ed) sample_tick w0 = Ok w"
    "(worker_step Release toy_ed toy_hash (memory_ops toy_ed))\<^sup>*\<^sup>* (Polling 1001 w0) (Serving 2001 w)"
    "wk_clock w = System" "nh_batch_size (wk_net_handler w) = 64" "2001 \<le> dele_max_time (worker_delegation w)"
proof -
  obtain w0 :: "(memory_backend, nat) worker" where
    w0: "start_worker Release toy_ed (Some 1000) (Some 1001) (replicate 32 2) (replicate 32 1) 0 (sample_args V08)
      \<lparr>ch_capacity = 2, ch_queue = []\<rparr> = Ok w0" "wk_clock w0 = System"
    "worker_inv toy_ed toy_hash (mb_ok toy_ed) (mb_pk toy_ed) (ed_public toy_ed (replicate 32 1)) RfcDraft08 1001 w0"
    using start_worker_ok [OF toy_ed_ok sample_start_ok [of V08], of "replicate 32 2" 0 "\<lparr>ch_capacity = 2, ch_queue = []\<rparr>" toy_hash]
    by (auto simp: choose_clock_def sample_args_def)
  have n: "wk_next_key_replacement w0 = 1001"
    using w0(1) by (auto simp: start_worker_def worker_task_def worker_new_def and_then_Ok_iff Let_def choose_clock_def
        sample_args_def system_seconds_def)
  have net: "wk_net_handler w0 = network_handler_new 64"
    using w0(1) by (auto simp: start_worker_def worker_task_def worker_new_def and_then_Ok_iff Let_def sample_args_def)
  have tc: "tick_clock w0 1001 sample_tick 2001"
    using w0(2) n by (simp add: tick_clock_def system_seconds_def sample_tick_def)
  obtain w where w: "worker_tick Release toy_ed (memory_ops toy_ed) sample_tick w0 = Ok w" "2001 \<le> dele_max_time (worker_delegation w)"
    using memory_seed.worker_tick_ok [OF toy_ed_ok w0(3) tc] by blast
  have st: "wk_clock w = System" "nh_batch_size (wk_net_handler w) = 64"
    using worker_tick_static [OF w(1)] w0(2) net by (simp_all add: network_handler_new_def)
  have run: "(worker_step Release toy_ed toy_hash (memory_ops toy_ed))\<^sup>*\<^sup>* (Polling 1001 w0) (Serving 2001 w)"
    by (rule r_into_rtranclp) (rule worker_step.tick_ready [OF tc w(1)])
  show thesis by (rule that [OF w0(1) w(1) run st w(2)])
qed

theorem end_to_end_witness:
  "\<exists>w0 w c f outs w' reply m. start_worker Release toy_ed (Some 1000) (Some 1001) (replicate 32 2) (replicate 32 1) 0 (sample_args V08)
       \<lparr>ch_capacity = 2, ch_queue = []\<rparr> = Ok (w0 :: (memory_backend, nat) worker) \<and>
     worker_tick Release toy_ed (memory_ops toy_ed) sample_tick w0 = Ok w \<and>
     client_build toy_hash (sample_builder RfcDraft08) = (Ok c :: (client_error, _) outcome) \<and>
     worker_round Release toy_ed toy_hash \<lparr>ri_recv = [Datagram f 7], ri_clock = Some 2001, ri_sends = []\<rparr> w = Ok ((outs, Empty), w') \<and>
     (7, reply) \<in> set outs \<and> query Debug toy_ed toy_hash (replicate 32 5) (sample_exchange reply) c = Ok m \<and> midpoint m = 2001"
proof -
  let ?rand = "replicate 32 5 :: bytes"
  obtain w0 w :: "(memory_backend, nat) worker" where
    w: "start_worker Release toy_ed (Some 1000) (Some 1001) (replicate 32 2) (replicate 32 1) 0 (sample_args V08)
       \<lparr>ch_capacity = 2, ch_queue = []\<rparr> = Ok w0"
    "worker_tick Release toy_ed (memory_ops toy_ed) sample_tick w0 = Ok w"
    "(worker_step Release toy_ed toy_hash (memory_ops toy_ed))\<^sup>*\<^sup>* (Polling 1001 w0) (Serving 2001 w)"
    "wk_clock w = System" "nh_batch_size (wk_net_handler w) = 64" "2001 \<le> dele_max_time (worker_delegation w)"
    by (rule sample_serving)
  obtain c where c: "client_build toy_hash (sample_builder RfcDraft08) = (Ok c :: (client_error, _) outcome)" "client_ok c"
    using client_build_ok [OF toy_hash_ok sample_builder_key] by blast
  have rv: "request_valid (create_request ?rand None c)" using create_request_valid [OF c(2)] by simp
  define f where "f = frame_enc (request_enc (create_request ?rand None c))"
  have f: "as_frame_bytes request_wire_size request_to_wire (create_request ?rand None c) = (Ok f :: (error, bytes) outcome)"
    unfolding f_def by (rule request_frame [OF rv])
  have t: "take RECV_BUFFER_SIZE f = f"
    using request_frame_ok(1) [OF rv] unfolding f_def by (simp add: RECV_BUFFER_SIZE_def REQUEST_SIZE_def)
  let ?ri = "\<lparr>ri_recv = [Datagram f (7 :: nat)], ri_clock = Some 2001, ri_sends = []\<rparr>"
  obtain net where col: "collect_requests (wk_net_handler w) (ri_recv ?ri) = ([(f, 7)], Empty, net, [])"
    using w(5) t by (simp add: collect_requests_def numeral_eq_Suc)
  from end_to_end [OF toy_ed_ok toy_hash_ok sample_start_ok w(1,3) _ _ w(6) col _ _ c(1) _ f, of 7 Debug]
  obtain outs w' reply where o: "worker_round Release toy_ed toy_hash ?ri w = Ok ((outs, Empty), w')" "(7, reply) \<in> set outs"
    and acc: "\<forall>ex. ex_send ex f (cl_server c) = Ok (length f) \<longrightarrow> ex_recv ex f (cl_server c) = Ok reply \<longrightarrow>
      (\<exists>m. query Debug toy_ed toy_hash ?rand ex c = Ok m \<and> midpoint m = 2001 \<and> radius m = DEFAULT_RADI_SECONDS)"
    using w(4) by (auto simp: sample_builder_def sample_args_def system_seconds_def)
  from acc [rule_format, of "sample_exchange reply"]
  have "\<exists>m. query Debug toy_ed toy_hash ?rand (sample_exchange reply) c = Ok m \<and> midpoint m = 2001"
    by (auto simp: sample_exchange_def)
  with w(1,2) c(1) o show ?thesis by blast
qed

end
